(* ===== verification/Prelude.thy ===== *)
theory Prelude
  imports Main "HOL-Library.List_Lexorder" "HOL-Library.Char_ord"
    "HOL-Library.Product_Lexorder" "HOL-Library.Multiset" "HOL-Library.Word"
begin

text \<open>
  Shared vocabulary of the development: the collections of simplification rules the
  component theories extend, the sum type used for Go's \<open>(value, error)\<close> returns, and
  generic lemmas on sorted duplicate-free lists, on joining and splitting at a separator
  and on association lists (Go maps whose content is later sorted).

  A Go \<open>string\<close> is a byte string and is modelled by \<open>string\<close>; the order of
  \<open>List_Lexorder\<close> with \<open>Char_ord\<close> is Go's bytewise \<open>cmp.Compare\<close>.
\<close>

named_theorems canon_simps \<open>normal forms of the canonicalising functions\<close>
named_theorems valid_intros \<open>validity of constructed values\<close>

type_synonym ('e, 'a) result = "'e + 'a"

abbreviation Ok :: "'a \<Rightarrow> ('e, 'a) result" where "Ok \<equiv> Inr"
abbreviation Err :: "'e \<Rightarrow> ('e, 'a) result" where "Err \<equiv> Inl"

fun is_ok :: "('e, 'a) result \<Rightarrow> bool" where
  "is_ok (Inl _) = False"
| "is_ok (Inr _) = True"

lemma is_ok_iff: "is_ok r \<longleftrightarrow> (\<exists>x. r = Ok x)"
  by (cases r) auto

section \<open>Sorted lists without duplicates\<close>

text \<open>\<open>slices.Compact\<close>: drop every element equal to its predecessor.\<close>

fun compact :: "'a list \<Rightarrow> 'a list" where
  "compact [] = []"
| "compact [x] = [x]"
| "compact (x # y # ys) = (if x = y then compact (y # ys) else x # compact (y # ys))"

lemma set_compact [simp]: "set (compact xs) = set xs"
  by (induction xs rule: compact.induct) auto

lemma compact_Nil_iff [simp]: "compact xs = [] \<longleftrightarrow> xs = []"
  by (induction xs rule: compact.induct) auto

lemma hd_compact: "xs \<noteq> [] \<Longrightarrow> hd (compact xs) = hd xs"
  by (induction xs rule: compact.induct) auto

lemma sorted_compact:
  fixes xs :: "'a::linorder list"
  shows "sorted xs \<Longrightarrow> sorted_wrt (<) (compact xs)"
  by (induction xs rule: compact.induct) (auto simp: less_le)

lemma compact_strict:
  fixes xs :: "'a::linorder list"
  shows "sorted_wrt (<) xs \<Longrightarrow> compact xs = xs"
  by (induction xs rule: compact.induct) auto

lemma strict_sorted_unique:
  fixes xs ys :: "'a::linorder list"
  assumes "sorted_wrt (<) xs" "sorted_wrt (<) ys" "set xs = set ys"
  shows "xs = ys"
  using assms by (metis strict_sorted_equal)

lemma strict_sorted_sorted:
  fixes xs :: "'a::linorder list"
  shows "sorted_wrt (<) xs \<Longrightarrow> sorted xs"
  by (simp add: strict_sorted_iff)

definition sort_unique :: "'a::linorder list \<Rightarrow> 'a list" where
  "sort_unique xs = compact (sort xs)"

lemma set_sort_unique [simp]: "set (sort_unique xs) = set xs"
  by (simp add: sort_unique_def)

lemma sorted_sort_unique [simp]: "sorted_wrt (<) (sort_unique xs)"
  by (simp add: sort_unique_def sorted_compact)

lemma distinct_sort_unique [simp]: "distinct (sort_unique xs)"
  using sorted_sort_unique strict_sorted_iff by blast

lemma sort_unique_eqI: "set xs = set ys \<Longrightarrow> sort_unique xs = sort_unique ys"
  by (rule strict_sorted_unique) auto

lemma sort_unique_idem: "sort_unique (sort_unique xs) = sort_unique xs"
  by (rule sort_unique_eqI) simp

lemma sort_unique_strict: "sorted_wrt (<) xs \<Longrightarrow> sort_unique xs = xs"
  by (rule strict_sorted_unique) auto

lemma sort_unique_Nil [simp]: "sort_unique [] = []"
  by (simp add: sort_unique_def)

lemma sort_unique_empty_iff [simp]: "sort_unique xs = [] \<longleftrightarrow> xs = []"
  by (metis set_empty set_sort_unique)

text \<open>Sorting by a key that tells the elements apart forgets the input order.\<close>

lemma sorted_key_unique:
  fixes f :: "'a \<Rightarrow> 'b::linorder"
  assumes "sorted (map f xs)" "sorted (map f ys)" "mset xs = mset ys" "inj_on f (set xs)"
  shows "xs = ys"
proof -
  have "map f xs = map f ys"
    using assms by (metis mset_map properties_for_sort sorted_sort_id)
  moreover have "set xs = set ys"
    using assms(3) by (metis set_mset_mset)
  ultimately show ?thesis
    using assms(4) by (metis map_inj_on sup.idem)
qed

lemma sort_key_perm:
  fixes f :: "'a \<Rightarrow> 'b::linorder"
  assumes "mset xs = mset ys" "inj_on f (set xs)"
  shows "sort_key f xs = sort_key f ys"
  by (rule sorted_key_unique [of f]) (use assms in auto)

lemma sort_key_sorted_id:
  "sorted (map f xs) \<Longrightarrow> sort_key f xs = xs"
  by (rule sort_key_id_if_sorted)
    (auto simp: sorted_map)

section \<open>Joining and splitting\<close>

text \<open>\<open>strings.Join\<close> and \<open>strings.Split\<close> for a separator of one byte.\<close>

fun join :: "'a list \<Rightarrow> 'a list list \<Rightarrow> 'a list" where
  "join sep [] = []"
| "join sep [x] = x"
| "join sep (x # y # ys) = x @ sep @ join sep (y # ys)"

fun split_on :: "'a \<Rightarrow> 'a list \<Rightarrow> 'a list list" where
  "split_on c [] = [[]]"
| "split_on c (x # xs) =
     (if x = c then [] # split_on c xs
      else case split_on c xs of [] \<Rightarrow> [[x]] | l # ls \<Rightarrow> (x # l) # ls)"

lemma split_on_nonempty [simp]: "split_on c xs \<noteq> []"
  by (induction xs) (auto split: list.splits)

lemma join_Cons: "ys \<noteq> [] \<Longrightarrow> join sep (x # ys) = x @ sep @ join sep ys"
  by (cases ys) auto

lemma join_split: "join [c] (split_on c xs) = xs"
proof (induction xs)
  case Nil
  then show ?case by simp
next
  case (Cons x xs)
  obtain l ls where ll: "split_on c xs = l # ls"
    by (meson neq_Nil_conv split_on_nonempty)
  have "join [c] ((x # l) # ls) = x # join [c] (l # ls)"
    by (cases ls) auto
  with Cons ll show ?case
    by (auto simp: join_Cons)
qed

lemma split_on_no_sep: "\<forall>s \<in> set (split_on c xs). c \<notin> set s"
  by (induction xs) (auto split: list.splits)

lemma split_on_plain: "c \<notin> set x \<Longrightarrow> split_on c x = [x]"
  by (induction x) auto

lemma split_on_append: "c \<notin> set x \<Longrightarrow> split_on c (x @ c # ys) = x # split_on c ys"
  by (induction x) auto

lemma split_join:
  "xs \<noteq> [] \<Longrightarrow> \<forall>x \<in> set xs. c \<notin> set x \<Longrightarrow> split_on c (join [c] xs) = xs"
proof (induction xs)
  case Nil
  then show ?case by simp
next
  case (Cons x xs)
  then show ?case
    by (cases xs) (auto simp: split_on_plain split_on_append)
qed

lemma join_inj:
  assumes "xs \<noteq> []" "ys \<noteq> []" "\<forall>x \<in> set xs. c \<notin> set x" "\<forall>y \<in> set ys. c \<notin> set y"
    and "join [c] xs = join [c] ys"
  shows "xs = ys"
  using assms split_join by metis

lemma set_join: "set (join sep xs) \<subseteq> set sep \<union> \<Union> (set ` set xs)"
  by (induction sep xs rule: join.induct) auto

lemma set_split_on: "s \<in> set (split_on c xs) \<Longrightarrow> set s \<subseteq> set xs"
  by (induction xs arbitrary: s) (fastforce split: list.splits if_splits)+

end
