(* ===== verification/GoMap.thy ===== *)
theory GoMap
  imports Prelude
begin

text \<open>
  Go maps that are filled in a loop and then read in key order. The map is an association list
  with distinct keys; \<open>upsert\<close> is the \<open>if prior, ok := m[k]; ok\<close> idiom, and \<open>group_fold\<close> the
  loop around it. The iteration order of a Go map is unspecified, so what is read from one is
  always sorted or order-insensitive; the lemmas say the content of the map as a function.
\<close>

fun upsert :: "'k \<Rightarrow> ('v option \<Rightarrow> 'v) \<Rightarrow> ('k \<times> 'v) list \<Rightarrow> ('k \<times> 'v) list" where
  "upsert k f [] = [(k, f None)]"
| "upsert k f ((k', v) # m) = (if k = k' then (k, f (Some v)) # m else (k', v) # upsert k f m)"

definition group_step ::
  "('a \<Rightarrow> 'k) \<Rightarrow> ('a \<Rightarrow> 'v) \<Rightarrow> ('v \<Rightarrow> 'a \<Rightarrow> 'v) \<Rightarrow> ('k \<times> 'v) list \<Rightarrow> 'a \<Rightarrow> ('k \<times> 'v) list" where
  "group_step key fresh merge m x =
     upsert (key x) (\<lambda>old. case old of None \<Rightarrow> fresh x | Some p \<Rightarrow> merge p x) m"

definition group_fold ::
  "('a \<Rightarrow> 'k) \<Rightarrow> ('a \<Rightarrow> 'v) \<Rightarrow> ('v \<Rightarrow> 'a \<Rightarrow> 'v) \<Rightarrow> 'a list \<Rightarrow> ('k \<times> 'v) list" where
  "group_fold key fresh merge xs = foldl (group_step key fresh merge) [] xs"

lemma keys_upsert: "fst ` set (upsert k f m) = insert k (fst ` set m)"
  by (induction k f m rule: upsert.induct) auto

lemma distinct_upsert: "distinct (map fst m) \<Longrightarrow> distinct (map fst (upsert k f m))"
proof (induction k f m rule: upsert.induct)
  case (2 k f k' v m)
  then show ?case using keys_upsert [of k f m] by auto
qed simp

lemma map_of_upsert: "map_of (upsert k f m) = (map_of m)(k \<mapsto> f (map_of m k))"
  by (induction k f m rule: upsert.induct) auto

text \<open>\<open>m[k] = v\<close>.\<close>

definition go_set :: "'k \<Rightarrow> 'v \<Rightarrow> ('k \<times> 'v) list \<Rightarrow> ('k \<times> 'v) list" where
  "go_set k v m = upsert k (\<lambda>_. v) m"

text \<open>\<open>delete(m, k)\<close>.\<close>

definition go_delete :: "'k \<Rightarrow> ('k \<times> 'v) list \<Rightarrow> ('k \<times> 'v) list" where
  "go_delete k m = filter (\<lambda>e. fst e \<noteq> k) m"

lemma map_of_go_set [simp]: "map_of (go_set k v m) = (map_of m)(k \<mapsto> v)"
  by (simp add: go_set_def map_of_upsert)

lemma map_of_go_delete [simp]: "map_of (go_delete k m) = (map_of m)(k := None)"
  by (induction m) (auto simp: go_delete_def fun_eq_iff)

lemma distinct_go_set [simp]: "distinct (map fst m) \<Longrightarrow> distinct (map fst (go_set k v m))"
  by (simp add: go_set_def distinct_upsert)

lemma distinct_go_delete [simp]: "distinct (map fst m) \<Longrightarrow> distinct (map fst (go_delete k m))"
  by (induction m) (auto simp: go_delete_def)

lemma group_fold_Nil [simp]: "group_fold key fresh merge [] = []"
  by (simp add: group_fold_def)

lemma group_fold_snoc [simp]:
  "group_fold key fresh merge (xs @ [x]) = group_step key fresh merge (group_fold key fresh merge xs) x"
  by (simp add: group_fold_def)

lemma keys_group_fold [simp]: "fst ` set (group_fold key fresh merge xs) = key ` set xs"
  by (induction xs rule: rev_induct) (auto simp: group_step_def keys_upsert)

lemma distinct_group_fold [simp]: "distinct (map fst (group_fold key fresh merge xs))"
  by (induction xs rule: rev_induct) (auto simp: group_step_def distinct_upsert)

definition merge_all :: "('a \<Rightarrow> 'v) \<Rightarrow> ('v \<Rightarrow> 'a \<Rightarrow> 'v) \<Rightarrow> 'a list \<Rightarrow> 'v option" where
  "merge_all fresh merge ys = (case ys of [] \<Rightarrow> None | y # r \<Rightarrow> Some (foldl merge (fresh y) r))"

lemma merge_all_Nil [simp]: "merge_all fresh merge [] = None"
  and merge_all_Cons [simp]: "merge_all fresh merge (y # r) = Some (foldl merge (fresh y) r)"
  by (simp_all add: merge_all_def)

lemma merge_all_snoc:
  "merge_all fresh merge (ys @ [y]) =
    Some (case merge_all fresh merge ys of None \<Rightarrow> fresh y | Some p \<Rightarrow> merge p y)"
  by (cases ys) auto

text \<open>The content of the map: under each key the elements of that key, merged in input order.\<close>

lemma map_of_group_fold:
  "map_of (group_fold key fresh merge xs) k = merge_all fresh merge (filter (\<lambda>x. key x = k) xs)"
  by (induction xs rule: rev_induct) (auto simp: group_step_def map_of_upsert merge_all_snoc)

lemma group_fold_mem:
  "(k, v) \<in> set (group_fold key fresh merge xs) \<longleftrightarrow>
     merge_all fresh merge (filter (\<lambda>x. key x = k) xs) = Some v"
  using map_of_group_fold [of key fresh merge xs k]
    map_of_eq_Some_iff [OF distinct_group_fold, of key fresh merge xs k v] by simp

lemma group_fold_lookup_None:
  "map_of (group_fold key fresh merge xs) k = None \<longleftrightarrow> k \<notin> key ` set xs"
  by (simp add: map_of_eq_None_iff)

text \<open>An invariant of every value follows from the two ways a value is made.\<close>

lemma merge_all_invariant:
  assumes "merge_all fresh merge ys = Some v" "\<And>y. y \<in> set ys \<Longrightarrow> P (fresh y)"
    and "\<And>p y. P p \<Longrightarrow> y \<in> set ys \<Longrightarrow> P (merge p y)"
  shows "P v"
  using assms
proof (induction ys arbitrary: v rule: rev_induct)
  case (snoc y ys)
  then show ?case
    by (auto simp: merge_all_snoc split: option.splits)
qed simp

lemma group_fold_invariant:
  assumes "(k, v) \<in> set (group_fold key fresh merge xs)"
    and "\<And>x. x \<in> set xs \<Longrightarrow> key x = k \<Longrightarrow> P (fresh x)"
    and "\<And>p x. P p \<Longrightarrow> x \<in> set xs \<Longrightarrow> key x = k \<Longrightarrow> P (merge p x)"
  shows "P v"
  by (rule merge_all_invariant [of fresh merge "filter (\<lambda>x. key x = k) xs"])
    (use assms in \<open>auto simp: group_fold_mem\<close>)

text \<open>Every element leaves its mark on the merged value.\<close>

lemma merge_all_absorbs:
  assumes "merge_all fresh merge ys = Some v" "y \<in> set ys" "Q (fresh y)"
    and "\<And>p z. Q p \<Longrightarrow> Q (merge p z)" "\<And>p. Q (merge p y)"
  shows "Q v"
  using assms(1,2)
proof (induction ys arbitrary: v rule: rev_induct)
  case (snoc z zs)
  then show ?case
    using assms(3-5) by (cases "merge_all fresh merge zs"; cases zs) (auto simp: merge_all_snoc)
qed simp

lemma group_fold_absorbs:
  assumes "x \<in> set xs" "Q (fresh x)" "\<And>p z. Q p \<Longrightarrow> Q (merge p z)" "\<And>p. Q (merge p x)"
  shows "\<exists>v. (key x, v) \<in> set (group_fold key fresh merge xs) \<and> Q v"
proof -
  let ?ys = "filter (\<lambda>z. key z = key x) xs"
  have x: "x \<in> set ?ys" using assms(1) by simp
  obtain z zs where "?ys = z # zs" using x by (meson list.set_cases)
  then obtain v where v: "merge_all fresh merge ?ys = Some v" by simp
  then have "Q v" using merge_all_absorbs [OF v x] assms(2-4) by blast
  with v show ?thesis by (auto simp: group_fold_mem)
qed

text \<open>Appending to a slice under its key collects the elements of that key in order.\<close>

definition group_by :: "('a \<Rightarrow> 'k) \<Rightarrow> 'a list \<Rightarrow> ('k \<times> 'a list) list" where
  "group_by key xs = group_fold key (\<lambda>x. [x]) (\<lambda>ys x. ys @ [x]) xs"

lemma foldl_snoc: "foldl (\<lambda>ys x. ys @ [x]) acc xs = acc @ xs"
  by (induction xs arbitrary: acc) auto

lemma group_by_mem:
  "(k, ys) \<in> set (group_by key xs) \<longleftrightarrow> ys = filter (\<lambda>x. key x = k) xs \<and> ys \<noteq> []"
  by (cases "filter (\<lambda>x. key x = k) xs") (auto simp: group_by_def group_fold_mem foldl_snoc)

lemma keys_group_by [simp]: "fst ` set (group_by key xs) = key ` set xs"
  by (simp add: group_by_def)

lemma distinct_group_by [simp]: "distinct (map fst (group_by key xs))"
  by (simp add: group_by_def)

lemma map_of_group_by:
  "map_of (group_by key xs) k =
    (case filter (\<lambda>x. key x = k) xs of [] \<Rightarrow> None | y # ys \<Rightarrow> Some (y # ys))"
  by (simp add: group_by_def map_of_group_fold foldl_snoc split: list.splits)

section \<open>Merging as an interface\<close>

text \<open>
  A merge loop is deterministic when the merge of the elements under one key does not depend on
  their order or multiplicity. The laws: \<open>merge\<close> treats a fresh element as its normal form,
  keeps the key, and is a semilattice operation on the values of one key.
\<close>

locale keyed_merge =
  fixes key :: "'a \<Rightarrow> 'k" and fresh :: "'a \<Rightarrow> 'a" and merge :: "'a \<Rightarrow> 'a \<Rightarrow> 'a" and good :: "'a \<Rightarrow> bool"
  assumes good_fresh: "good x \<Longrightarrow> good (fresh x)"
    and good_merge: "good x \<Longrightarrow> good y \<Longrightarrow> key x = key y \<Longrightarrow> good (merge x y)"
    and key_fresh: "good x \<Longrightarrow> key (fresh x) = key x"
    and key_merge: "good x \<Longrightarrow> good y \<Longrightarrow> key x = key y \<Longrightarrow> key (merge x y) = key x"
    and merge_fresh: "good x \<Longrightarrow> good y \<Longrightarrow> key x = key y \<Longrightarrow> merge x (fresh y) = merge x y"
    and fresh_absorbs: "good x \<Longrightarrow> merge (fresh x) x = fresh x"
    and fresh_comm: "good x \<Longrightarrow> good y \<Longrightarrow> key x = key y \<Longrightarrow> merge (fresh x) y = merge (fresh y) x"
    and merge_comm: "good x \<Longrightarrow> good y \<Longrightarrow> good z \<Longrightarrow> key x = key y \<Longrightarrow> key y = key z \<Longrightarrow>
      merge (merge x y) z = merge (merge x z) y"
    and merge_idem: "good x \<Longrightarrow> good y \<Longrightarrow> key x = key y \<Longrightarrow> merge (merge x y) y = merge x y"
begin

definition same :: "'k \<Rightarrow> 'a list \<Rightarrow> bool" where
  "same k ys \<longleftrightarrow> (\<forall>y \<in> set ys. good y \<and> key y = k)"

lemma fold_good:
  assumes "good p" "key p = k" "same k ys"
  shows "good (foldl merge p ys) \<and> key (foldl merge p ys) = k"
  using assms
  by (induction ys arbitrary: p) (auto simp: same_def good_merge key_merge)

lemma fold_swap:
  assumes "good p" "key p = k" "same k (y # ys)"
  shows "foldl merge (merge p y) ys = merge (foldl merge p ys) y"
  using assms
proof (induction ys arbitrary: p)
  case (Cons z zs)
  then have "merge (merge p y) z = merge (merge p z) y"
    by (intro merge_comm) (auto simp: same_def)
  with Cons show ?case
    by (auto simp: same_def good_merge key_merge)
qed simp

lemma fold_absorb:
  assumes "good p" "key p = k" "same k ys" "y \<in> set ys"
  shows "merge (foldl merge p ys) y = foldl merge p ys"
  using assms
proof (induction ys arbitrary: p)
  case (Cons z zs)
  have gz: "good z" "key z = k" "same k zs" using Cons.prems by (auto simp: same_def)
  then have gm: "good (merge p z)" "key (merge p z) = k"
    using Cons.prems by (auto simp: good_merge key_merge)
  show ?case
  proof (cases "y = z")
    case True
    have "foldl merge (merge p z) zs = merge (foldl merge p zs) z"
      using Cons.prems by (intro fold_swap) auto
    moreover have "good (foldl merge p zs) \<and> key (foldl merge p zs) = k"
      using Cons.prems gz by (intro fold_good) auto
    ultimately show ?thesis using True gz by (simp add: merge_idem)
  next
    case False
    then show ?thesis using Cons gm gz by auto
  qed
qed simp

lemma fold_start:
  assumes "same k ys" "y \<in> set ys" "x \<in> set ys"
  shows "foldl merge (fresh x) ys = foldl merge (fresh y) ys"
proof -
  have g: "good x" "good y" "key x = k" "key y = k"
    using assms by (auto simp: same_def)
  have "foldl merge (fresh x) ys = merge (foldl merge (fresh x) ys) y"
    using assms g by (subst fold_absorb [of _ k]) (auto simp: good_fresh key_fresh)
  also have "\<dots> = foldl merge (merge (fresh x) y) ys"
    using assms g by (subst fold_swap [of _ k]) (auto simp: good_fresh key_fresh same_def)
  also have "\<dots> = foldl merge (merge (fresh y) x) ys"
    using g by (simp add: fresh_comm)
  also have "\<dots> = merge (foldl merge (fresh y) ys) x"
    using assms g by (subst fold_swap [of _ k]) (auto simp: good_fresh key_fresh same_def)
  also have "\<dots> = foldl merge (fresh y) ys"
    using assms g by (subst fold_absorb [of _ k]) (auto simp: good_fresh key_fresh)
  finally show ?thesis .
qed

lemma merge_all_fold:
  assumes "same k ys" "y \<in> set ys"
  shows "merge_all fresh merge ys = Some (foldl merge (fresh y) ys)"
proof -
  obtain z zs where ys: "ys = z # zs" using assms(2) by (cases ys) auto
  then have gz: "good z" "key z = k" using assms by (auto simp: same_def)
  have "merge_all fresh merge ys = Some (foldl merge (fresh z) zs)" by (simp add: ys)
  also have "foldl merge (fresh z) zs = foldl merge (fresh z) ys"
    using gz by (simp add: ys fresh_absorbs)
  also have "\<dots> = foldl merge (fresh y) ys"
    using ys by (intro fold_start [OF assms]) simp
  finally show ?thesis .
qed

lemma fold_absorb_all:
  assumes "good p" "key p = k" "same k ys" "same k zs" "set zs \<subseteq> set ys"
  shows "foldl merge (foldl merge p ys) zs = foldl merge p ys"
  using assms by (induction zs) (auto simp: same_def fold_absorb)

lemma fold_append_swap:
  assumes "good p" "key p = k" "same k ys" "same k zs"
  shows "foldl merge (foldl merge p ys) zs = foldl merge (foldl merge p zs) ys"
  using assms
proof (induction zs arbitrary: p)
  case (Cons z zs)
  then have s: "same k (z # ys)" "same k zs" by (auto simp: same_def)
  have "foldl merge (merge (foldl merge p ys) z) zs = foldl merge (foldl merge (merge p z) ys) zs"
    using fold_swap [of p k z ys] Cons.prems s by simp
  also have "\<dots> = foldl merge (foldl merge (merge p z) zs) ys"
    using Cons.prems s
    by (intro Cons.IH [of "merge p z"]) (auto simp: same_def good_merge key_merge)
  finally show ?case by simp
qed simp

text \<open>The merged value depends only on the set of elements under the key.\<close>

theorem merge_all_set:
  assumes "same k ys" "same k zs" "set ys = set zs"
  shows "merge_all fresh merge ys = merge_all fresh merge zs"
proof (cases "ys = []")
  case False
  then obtain y where y: "y \<in> set ys" by (cases ys) auto
  then have g: "good (fresh y)" "key (fresh y) = k"
    using assms by (auto simp: same_def good_fresh key_fresh)
  have "foldl merge (fresh y) ys = foldl merge (foldl merge (fresh y) ys) zs"
    using assms g fold_absorb_all [of "fresh y" k ys zs] by auto
  also have "\<dots> = foldl merge (foldl merge (fresh y) zs) ys"
    using assms g by (intro fold_append_swap [of _ k]) auto
  also have "\<dots> = foldl merge (fresh y) zs"
    using assms g fold_absorb_all [of "fresh y" k zs ys] by auto
  finally show ?thesis
    using merge_all_fold [of k ys y] merge_all_fold [of k zs y] assms y by simp
qed (use assms in simp)

theorem group_fold_set:
  assumes "\<forall>x \<in> set xs. good x" "set xs = set ys"
  shows "set (group_fold key fresh merge xs) = set (group_fold key fresh merge ys)"
proof -
  have "merge_all fresh merge (filter (\<lambda>x. key x = k) xs) = merge_all fresh merge (filter (\<lambda>x. key x = k) ys)"
    for k using assms by (intro merge_all_set [of k]) (auto simp: same_def)
  then show ?thesis by (auto simp: group_fold_mem)
qed

end

end
