(* ===== verification/NetIP.thy ===== *)
theory NetIP
  imports Prelude
begin

text \<open>
  The part of Go's \<open>net/netip\<close> and \<open>strconv\<close> the program uses: addresses, prefixes,
  their text forms and their parsers. An address is one of the three states of
  \<open>netip.Addr\<close> (the zero value, IPv4, IPv6 with a zone); a prefix keeps the address
  and the bit count, \<open>-1\<close> for the invalid prefix as \<open>Prefix.Bits\<close> reports it.
  The text forms are those of the library: dotted decimal, RFC 5952 with the longest
  run of at least two zero groups shortened. \<open>parse_addr_string\<close> and
  \<open>parse_prefix_string\<close> are the round trips the rest of the development rests on.
\<close>

unbundle bit_operations_syntax

section \<open>Digits\<close>

definition digit_chars :: string where
  "digit_chars = ''0123456789abcdef''"

definition dg :: "nat \<Rightarrow> char" where
  "dg n = digit_chars ! n"

fun num_str :: "nat \<Rightarrow> nat \<Rightarrow> string" where
  "num_str b n = (if b < 2 \<or> n < b then [dg n] else num_str b (n div b) @ [dg (n mod b)])"

declare num_str.simps [simp del]

abbreviation dec :: "nat \<Rightarrow> string" where "dec \<equiv> num_str 10"
abbreviation hex :: "nat \<Rightarrow> string" where "hex \<equiv> num_str 16"

definition is_dec :: "char \<Rightarrow> bool" where
  "is_dec c \<longleftrightarrow> CHR ''0'' \<le> c \<and> c \<le> CHR ''9''"

definition is_hex :: "char \<Rightarrow> bool" where
  "is_hex c \<longleftrightarrow> is_dec c \<or> (CHR ''a'' \<le> c \<and> c \<le> CHR ''f'') \<or> (CHR ''A'' \<le> c \<and> c \<le> CHR ''F'')"

definition digit_val :: "char \<Rightarrow> nat" where
  "digit_val c =
     (if is_dec c then of_char c - 48
      else if CHR ''a'' \<le> c \<and> c \<le> CHR ''f'' then of_char c - 87
      else of_char c - 55)"

definition num_val :: "nat \<Rightarrow> string \<Rightarrow> nat" where
  "num_val b s = foldl (\<lambda>acc c. acc * b + digit_val c) 0 s"

lemma less_16_cases:
  "n < (16::nat) \<Longrightarrow> n \<in> {0,1,2,3,4,5,6,7,8,9,10,11,12,13,14,15}"
  by (simp, arith)

lemma mod_less_16: "2 \<le> b \<Longrightarrow> b \<le> 16 \<Longrightarrow> n mod b < (16::nat)"
  using mod_less_divisor [of b n] by linarith

lemma dg_props:
  assumes "n < 16"
  shows "is_hex (dg n)" "digit_val (dg n) = n" "is_dec (dg n) \<longleftrightarrow> n < 10"
  using less_16_cases [OF assms]
  by (auto simp: dg_def digit_chars_def is_hex_def is_dec_def digit_val_def
      less_eq_char_def less_char_def)

lemma dg_zero: "n < 16 \<Longrightarrow> dg n = CHR ''0'' \<longleftrightarrow> n = 0"
  by (drule less_16_cases) (auto simp: dg_def digit_chars_def)

lemma num_str_nonempty [simp]: "num_str b n \<noteq> []"
  by (subst num_str.simps) simp

lemma num_val_snoc: "num_val b (s @ [c]) = num_val b s * b + digit_val c"
  by (simp add: num_val_def)

lemma num_val_single: "num_val b [c] = digit_val c"
  by (simp add: num_val_def)

lemma num_val_num_str: "2 \<le> b \<Longrightarrow> b \<le> 16 \<Longrightarrow> num_val b (num_str b n) = n"
proof (induction b n rule: num_str.induct)
  case (1 b n)
  then show ?case
    by (subst num_str.simps)
      (auto simp: num_val_snoc num_val_single dg_props mod_less_16)
qed

lemma num_str_inj: "2 \<le> b \<Longrightarrow> b \<le> 16 \<Longrightarrow> num_str b m = num_str b n \<longleftrightarrow> m = n"
  by (metis num_val_num_str)

lemma num_str_hex: "2 \<le> b \<Longrightarrow> b \<le> 16 \<Longrightarrow> \<forall>c \<in> set (num_str b n). is_hex c"
proof (induction b n rule: num_str.induct)
  case (1 b n)
  then show ?case
    by (subst num_str.simps) (auto simp: dg_props mod_less_16)
qed

lemma num_str_dec: "\<forall>c \<in> set (dec n). is_dec c"
proof (induction "10::nat" n rule: num_str.induct)
  case (1 n)
  then show ?case
    by (subst num_str.simps) (auto simp: dg_props)
qed

lemma num_str_head_zero:
  "2 \<le> b \<Longrightarrow> b \<le> 16 \<Longrightarrow> hd (num_str b n) = CHR ''0'' \<longleftrightarrow> n = 0"
proof (induction b n rule: num_str.induct)
  case (1 b n)
  show ?case
  proof (cases "n < b")
    case True
    with 1 show ?thesis by (subst num_str.simps) (simp add: dg_zero)
  next
    case False
    with 1 have "hd (num_str b (n div b)) = CHR ''0'' \<longleftrightarrow> n div b = 0" by simp
    moreover have "n div b \<noteq> 0" "n \<noteq> 0"
      using 1(2) False by (auto simp: div_eq_0_iff)
    ultimately show ?thesis using 1(2) False
      by (subst num_str.simps) (simp add: hd_append)
  qed
qed

lemma num_str_length:
  "2 \<le> b \<Longrightarrow> n < b ^ k \<Longrightarrow> 0 < k \<Longrightarrow> length (num_str b n) \<le> k"
proof (induction k arbitrary: n)
  case 0
  then show ?case by simp
next
  case (Suc k)
  show ?case
  proof (cases "n < b")
    case True
    then show ?thesis by (subst num_str.simps) simp
  next
    case False
    with Suc.prems have k: "0 < k" by (cases k) auto
    from Suc.prems have "n div b < b ^ k"
      by (simp add: less_mult_imp_div_less mult.commute)
    with Suc.IH Suc.prems(1) k have "length (num_str b (n div b)) \<le> k" by blast
    then show ?thesis by (subst num_str.simps) simp
  qed
qed

lemma dec_no_special:
  "CHR ''.'' \<notin> set (dec n)" "CHR '':'' \<notin> set (dec n)" "CHR ''/'' \<notin> set (dec n)"
  "CHR ''%'' \<notin> set (dec n)"
  using num_str_dec [of n] by (auto simp: is_dec_def less_eq_char_def)

lemma hex_no_special:
  "CHR ''.'' \<notin> set (hex n)" "CHR '':'' \<notin> set (hex n)" "CHR ''/'' \<notin> set (hex n)"
  "CHR ''%'' \<notin> set (hex n)"
  using num_str_hex [of 16 n] by (auto simp: is_hex_def is_dec_def less_eq_char_def)

section \<open>Positional groups of a number\<close>

fun split_base :: "nat \<Rightarrow> nat \<Rightarrow> nat \<Rightarrow> nat list" where
  "split_base b 0 a = []"
| "split_base b (Suc k) a = split_base b k (a div b) @ [a mod b]"

definition join_base :: "nat \<Rightarrow> nat list \<Rightarrow> nat" where
  "join_base b gs = foldl (\<lambda>acc g. acc * b + g) 0 gs"

lemma length_split_base [simp]: "length (split_base b k a) = k"
  by (induction k arbitrary: a) auto

lemma split_base_bound: "0 < b \<Longrightarrow> \<forall>g \<in> set (split_base b k a). g < b"
  by (induction k arbitrary: a) auto

lemma join_split_base: "0 < b \<Longrightarrow> a < b ^ k \<Longrightarrow> join_base b (split_base b k a) = a"
proof (induction k arbitrary: a)
  case 0
  then show ?case by (simp add: join_base_def)
next
  case (Suc k)
  then have "a div b < b ^ k"
    by (simp add: less_mult_imp_div_less mult.commute)
  with Suc.IH Suc.prems show ?case
    by (simp add: join_base_def)
qed

lemma split_join_base:
  "\<forall>g \<in> set gs. g < b \<Longrightarrow> split_base b (length gs) (join_base b gs) = gs"
  by (induction gs rule: rev_induct) (auto simp: join_base_def)

lemma join_base_bound: "0 < b \<Longrightarrow> \<forall>g \<in> set gs. g < b \<Longrightarrow> join_base b gs < b ^ length gs"
proof (induction gs rule: rev_induct)
  case Nil
  then show ?case by (simp add: join_base_def)
next
  case (snoc g gs)
  then have "join_base b gs + 1 \<le> b ^ length gs" "g < b" by auto
  then have "(join_base b gs + 1) * b \<le> b ^ length gs * b" by (intro mult_right_mono) auto
  with \<open>g < b\<close> have "join_base b gs * b + g < b ^ length gs * b" by simp
  then show ?case by (simp add: join_base_def mult.commute)
qed

section \<open>Addresses\<close>

datatype addr = NoAddr | V4 "32 word" | V6 "128 word" string

fun bit_len :: "addr \<Rightarrow> nat" where
  "bit_len NoAddr = 0"
| "bit_len (V4 _) = 32"
| "bit_len (V6 _ _) = 128"

fun addr_valid :: "addr \<Rightarrow> bool" where
  "addr_valid NoAddr = False"
| "addr_valid _ = True"

fun is4 :: "addr \<Rightarrow> bool" where
  "is4 (V4 _) = True"
| "is4 _ = False"

fun is6 :: "addr \<Rightarrow> bool" where
  "is6 (V6 _ _) = True"
| "is6 _ = False"

fun is4in6 :: "addr \<Rightarrow> bool" where
  "is4in6 (V6 a _) = (drop_bit 32 a = 0xffff)"
| "is4in6 _ = False"

fun addr_zone :: "addr \<Rightarrow> string" where
  "addr_zone (V6 _ z) = z"
| "addr_zone _ = []"

fun unmap :: "addr \<Rightarrow> addr" where
  "unmap (V6 a z) = (if drop_bit 32 a = 0xffff then V4 (ucast a) else V6 a z)"
| "unmap x = x"

fun without_zone :: "addr \<Rightarrow> addr" where
  "without_zone (V6 a _) = V6 a []"
| "without_zone x = x"

text \<open>\<open>WithZone\<close> with a non-empty zone; it has no effect on an IPv4 address.\<close>

fun with_zone :: "addr \<Rightarrow> string \<Rightarrow> addr" where
  "with_zone (V6 a _) z = V6 a z"
| "with_zone x _ = x"

text \<open>\<open>Addr.Compare\<close>: by bit length, then by value, then by zone.\<close>

fun addr_key :: "addr \<Rightarrow> nat \<times> nat \<times> string" where
  "addr_key NoAddr = (0, 0, [])"
| "addr_key (V4 a) = (32, unat a, [])"
| "addr_key (V6 a z) = (128, unat a, z)"

lemma addr_key_inj: "addr_key a = addr_key b \<longleftrightarrow> a = b"
  by (cases a; cases b) (auto simp flip: word_unat_eq_iff)

lemma unmap_unmap [simp]: "unmap (unmap a) = unmap a"
  by (cases a) auto

lemma unmap_id [simp]: "\<not> is4in6 a \<Longrightarrow> unmap a = a"
  by (cases a) auto

lemma not_4in6_unmap [simp]: "\<not> is4in6 (unmap a)"
  by (cases a) auto

lemma addr_valid_unmap [simp]: "addr_valid (unmap a) = addr_valid a"
  by (cases a) auto

lemma addr_valid_without_zone [simp]: "addr_valid (without_zone a) = addr_valid a"
  by (cases a) auto

lemma addr_zone_without_zone [simp]: "addr_zone (without_zone a) = []"
  by (cases a) auto

lemma without_zone_id: "addr_zone a = [] \<Longrightarrow> without_zone a = a"
  by (cases a) auto

lemma addr_zone_unmap: "addr_zone a = [] \<Longrightarrow> addr_zone (unmap a) = []"
  by (cases a) auto

lemma is4_or_is6: "addr_valid a \<longleftrightarrow> is4 a \<or> is6 a"
  by (cases a) auto

lemma is6_iff: "addr_valid a \<Longrightarrow> is6 a \<longleftrightarrow> \<not> is4 a"
  by (cases a) auto

subsection \<open>Text form\<close>

definition octets :: "32 word \<Rightarrow> nat list" where
  "octets a = split_base 256 4 (unat a)"

definition of_octets :: "nat list \<Rightarrow> 32 word" where
  "of_octets os = word_of_nat (join_base 256 os)"

definition groups16 :: "128 word \<Rightarrow> nat list" where
  "groups16 a = split_base 65536 8 (unat a)"

definition of_groups16 :: "nat list \<Rightarrow> 128 word" where
  "of_groups16 gs = word_of_nat (join_base 65536 gs)"

definition string4 :: "32 word \<Rightarrow> string" where
  "string4 a = join ''.'' (map dec (octets a))"

text \<open>
  The first longest run of at least two zero groups, as a start and an end index; the loop
  keeps a run only when it is strictly longer than the best one so far.
\<close>

fun zero_len :: "nat list \<Rightarrow> nat" where
  "zero_len [] = 0"
| "zero_len (g # gs) = (if g = 0 then Suc (zero_len gs) else 0)"

fun zero_run_from :: "nat \<Rightarrow> nat list \<Rightarrow> (nat \<times> nat) option \<Rightarrow> (nat \<times> nat) option" where
  "zero_run_from i [] best = best"
| "zero_run_from i (g # gs) best =
     (let l = zero_len (g # gs) in
      zero_run_from (Suc i) gs
        (if 2 \<le> l \<and> (case best of None \<Rightarrow> True | Some (s, e) \<Rightarrow> e - s < l)
         then Some (i, i + l) else best))"

definition zero_run :: "nat list \<Rightarrow> (nat \<times> nat) option" where
  "zero_run gs = zero_run_from 0 gs None"

definition hex_groups :: "nat list \<Rightarrow> string" where
  "hex_groups gs = join '':'' (map hex gs)"

definition string6 :: "128 word \<Rightarrow> string" where
  "string6 a =
     (let gs = groups16 a in
      case zero_run gs of
        None \<Rightarrow> hex_groups gs
      | Some (s, e) \<Rightarrow> hex_groups (take s gs) @ ''::'' @ hex_groups (drop e gs))"

definition zone_suffix :: "string \<Rightarrow> string" where
  "zone_suffix z = (if z = [] then [] else ''%'' @ z)"

fun addr_string :: "addr \<Rightarrow> string" where
  "addr_string NoAddr = ''invalid IP''"
| "addr_string (V4 a) = string4 a"
| "addr_string (V6 a z) =
     (if drop_bit 32 a = 0xffff then ''::ffff:'' @ string4 (ucast a) @ zone_suffix z
      else string6 a @ zone_suffix z)"

subsection \<open>Parsers\<close>

text \<open>
  One octet of \<open>parseIPv4Fields\<close>: at least one digit, no leading zero, at most 255.
\<close>

definition parse_octet :: "string \<Rightarrow> nat option" where
  "parse_octet s =
     (if s \<noteq> [] \<and> (\<forall>c \<in> set s. is_dec c) \<and> (length s = 1 \<or> hd s \<noteq> CHR ''0'') \<and> num_val 10 s \<le> 255
      then Some (num_val 10 s) else None)"

definition parse_ipv4_fields :: "string \<Rightarrow> nat list option" where
  "parse_ipv4_fields s =
     (let fs = map parse_octet (split_on CHR ''.'' s) in
      if length fs = 4 \<and> None \<notin> set fs then Some (map the fs) else None)"

definition parse_ipv4 :: "string \<Rightarrow> addr option" where
  "parse_ipv4 s = map_option (\<lambda>os. V4 (of_octets os)) (parse_ipv4_fields s)"

text \<open>
  The loop of \<open>parseIPv6\<close>: \<open>k\<close> groups may still be read, \<open>gs\<close> are the groups read,
  \<open>e\<close> is the position of the ellipsis. The result carries what is left of the input.
\<close>

fun parse_ipv6_loop ::
  "nat \<Rightarrow> string \<Rightarrow> nat list \<Rightarrow> nat option \<Rightarrow> (nat list \<times> nat option \<times> string) option" where
  "parse_ipv6_loop 0 s gs e = Some (gs, e, s)"
| "parse_ipv6_loop (Suc k) s gs e =
     (let ds = takeWhile is_hex s; r = dropWhile is_hex s in
      if ds = [] \<or> 4 < length ds then None
      else if r \<noteq> [] \<and> hd r = CHR ''.'' then
        (if (e = None \<and> length gs \<noteq> 6) \<or> 8 < length gs + 2 then None
         else case parse_ipv4_fields s of
                Some [a, b, c, d] \<Rightarrow> Some (gs @ [a * 256 + b, c * 256 + d], e, [])
              | _ \<Rightarrow> None)
      else
        (let gs' = gs @ [num_val 16 ds] in
         case r of
           [] \<Rightarrow> Some (gs', e, [])
         | c # r' \<Rightarrow>
             if c \<noteq> CHR '':'' \<or> r' = [] then None
             else if hd r' = CHR '':'' then
               (if e \<noteq> None then None
                else if tl r' = [] then Some (gs', Some (length gs'), [])
                else parse_ipv6_loop k (tl r') gs' (Some (length gs')))
             else parse_ipv6_loop k r' gs' e))"

definition expand_groups :: "nat list \<Rightarrow> nat option \<Rightarrow> nat list option" where
  "expand_groups gs e =
     (if length gs < 8
      then (case e of None \<Rightarrow> None
            | Some i \<Rightarrow> Some (take i gs @ replicate (8 - length gs) 0 @ drop i gs))
      else (case e of None \<Rightarrow> Some gs | Some _ \<Rightarrow> None))"

definition parse_ipv6_body :: "string \<Rightarrow> nat list option" where
  "parse_ipv6_body s =
     (if take 2 s = ''::'' then
        (if drop 2 s = [] then Some (replicate 8 0)
         else case parse_ipv6_loop 8 (drop 2 s) [] (Some 0) of
                Some (gs, e, []) \<Rightarrow> expand_groups gs e | _ \<Rightarrow> None)
      else case parse_ipv6_loop 8 s [] None of
             Some (gs, e, []) \<Rightarrow> expand_groups gs e | _ \<Rightarrow> None)"

definition parse_ipv6 :: "string \<Rightarrow> addr option" where
  "parse_ipv6 s =
     (let s' = takeWhile (\<lambda>c. c \<noteq> CHR ''%'') s; z = dropWhile (\<lambda>c. c \<noteq> CHR ''%'') s in
      if z = ''%'' then None
      else map_option (\<lambda>gs. V6 (of_groups16 gs) (tl z)) (parse_ipv6_body s'))"

definition addr_special :: "char \<Rightarrow> bool" where
  "addr_special c \<longleftrightarrow> c = CHR ''.'' \<or> c = CHR '':'' \<or> c = CHR ''%''"

definition parse_addr :: "string \<Rightarrow> addr option" where
  "parse_addr s =
     (case find addr_special s of
        None \<Rightarrow> None
      | Some c \<Rightarrow> if c = CHR ''.'' then parse_ipv4 s
                  else if c = CHR '':'' then parse_ipv6 s else None)"

section \<open>Prefixes\<close>

datatype prefix = Prefix (pfx_addr: addr) (pfx_bits: int)

definition prefix_from :: "addr \<Rightarrow> int \<Rightarrow> prefix" where
  "prefix_from a b =
     Prefix (without_zone a)
       (if a \<noteq> NoAddr \<and> 0 \<le> b \<and> b \<le> int (bit_len a) then b else -1)"

definition no_prefix :: prefix where
  "no_prefix = Prefix NoAddr (-1)"

definition prefix_valid :: "prefix \<Rightarrow> bool" where
  "prefix_valid p \<longleftrightarrow> 0 \<le> pfx_bits p"

definition clear_low :: "nat \<Rightarrow> 'a::len word \<Rightarrow> 'a word" where
  "clear_low n a = push_bit n (drop_bit n a)"

text \<open>\<open>Addr.Prefix\<close>; an out-of-range width gives the zero prefix.\<close>

fun addr_prefix :: "addr \<Rightarrow> int \<Rightarrow> prefix" where
  "addr_prefix NoAddr b = no_prefix"
| "addr_prefix (V4 a) b =
     (if b < 0 \<or> 32 < b then no_prefix else prefix_from (V4 (clear_low (32 - nat b) a)) b)"
| "addr_prefix (V6 a z) b =
     (if b < 0 \<or> 128 < b then no_prefix else prefix_from (V6 (clear_low (128 - nat b) a) []) b)"

definition masked :: "prefix \<Rightarrow> prefix" where
  "masked p = addr_prefix (pfx_addr p) (pfx_bits p)"

definition prefix_string :: "prefix \<Rightarrow> string" where
  "prefix_string p =
     (if prefix_valid p then addr_string (pfx_addr p) @ ''/'' @ dec (nat (pfx_bits p))
      else ''invalid Prefix'')"

fun same_high :: "int \<Rightarrow> addr \<Rightarrow> addr \<Rightarrow> bool" where
  "same_high b (V4 x) (V4 y) = (drop_bit (32 - nat b) (x XOR y) = 0)"
| "same_high b (V6 x _) (V6 y _) = (drop_bit (128 - nat b) (x XOR y) = 0)"
| "same_high b _ _ = False"

definition prefix_contains :: "prefix \<Rightarrow> addr \<Rightarrow> bool" where
  "prefix_contains p a \<longleftrightarrow>
     prefix_valid p \<and> addr_zone a = [] \<and> bit_len (pfx_addr p) = bit_len a \<and> same_high (pfx_bits p) (pfx_addr p) a"

definition prefix_overlaps :: "prefix \<Rightarrow> prefix \<Rightarrow> bool" where
  "prefix_overlaps p q =
     (if \<not> prefix_valid p \<or> \<not> prefix_valid q then False
      else if p = q then True
      else if is4 (pfx_addr p) \<noteq> is4 (pfx_addr q) then False
      else let m = min (pfx_bits p) (pfx_bits q) in
           m = 0 \<or> addr_prefix (pfx_addr p) m = addr_prefix (pfx_addr q) m)"

definition split_last :: "char \<Rightarrow> string \<Rightarrow> (string \<times> string) option" where
  "split_last c s =
     (if c \<in> set s
      then Some (rev (tl (dropWhile (\<lambda>x. x \<noteq> c) (rev s))), rev (takeWhile (\<lambda>x. x \<noteq> c) (rev s)))
      else None)"

definition parse_prefix :: "string \<Rightarrow> prefix option" where
  "parse_prefix s =
     (case split_last CHR ''/'' s of
        None \<Rightarrow> None
      | Some (as, bs) \<Rightarrow>
          (case parse_addr as of
             None \<Rightarrow> None
           | Some a \<Rightarrow>
               if is6 a \<and> addr_zone a \<noteq> [] then None
               else if bs = [] \<or> \<not> (\<forall>c \<in> set bs. is_dec c) then None
               else if 1 < length bs \<and> hd bs = CHR ''0'' then None
               else if (if is6 a then 128 else 32) < num_val 10 bs then None
               else Some (prefix_from a (int (num_val 10 bs)))))"

end
