(* ===== verification/NetIPText.thy ===== *)
theory NetIPText
  imports NetIP
begin

text \<open>
  The text forms of addresses and prefixes are injective on the values the program keeps
  (unmapped, without zone): each parser is a left inverse of its printer. Keys built from
  \<open>CanonicalValue\<close> therefore identify a destination exactly.
\<close>

lemma find_skip: "\<forall>x \<in> set xs. \<not> P x \<Longrightarrow> P c \<Longrightarrow> find P (xs @ c # ys) = Some c"
  by (induction xs) auto

lemma octets_bound: "\<forall>n \<in> set (octets a). n < 256"
  unfolding octets_def by (rule split_base_bound) simp

lemma length_octets [simp]: "length (octets a) = 4"
  by (simp add: octets_def)

lemma of_octets_octets [simp]: "of_octets (octets a) = a"
proof -
  have "unat a < 256 ^ 4"
    using unsigned_less [of a] by simp
  then show ?thesis
    by (simp add: of_octets_def octets_def join_split_base)
qed

lemma groups16_bound: "\<forall>n \<in> set (groups16 a). n < 65536"
  unfolding groups16_def by (rule split_base_bound) simp

lemma length_groups16 [simp]: "length (groups16 a) = 8"
  by (simp add: groups16_def)

lemma of_groups16_groups16 [simp]: "of_groups16 (groups16 a) = a"
proof -
  have "unat a < 65536 ^ 8"
    using unsigned_less [of a] by simp
  then show ?thesis
    by (simp add: of_groups16_def groups16_def join_split_base)
qed

lemma dec_zero_head: "length (dec n) = 1 \<or> hd (dec n) \<noteq> CHR ''0''"
proof (cases "n = 0")
  case True
  then show ?thesis by (simp add: num_str.simps)
next
  case False
  then show ?thesis by (simp add: num_str_head_zero)
qed

lemma parse_octet_dec: "n < 256 \<Longrightarrow> parse_octet (dec n) = Some n"
  using dec_zero_head [of n] num_str_dec [of n]
  by (simp add: parse_octet_def num_val_num_str)

lemma parse_ipv4_fields_join:
  assumes "length os = 4" "\<forall>n \<in> set os. n < 256"
  shows "parse_ipv4_fields (join ''.'' (map dec os)) = Some os"
proof -
  have "split_on CHR ''.'' (join ''.'' (map dec os)) = map dec os"
    using assms by (intro split_join) (auto simp: dec_no_special)
  moreover have "map parse_octet (map dec os) = map Some os"
    using assms(2) by (simp add: parse_octet_dec)
  ultimately show ?thesis
    using assms(1) by (simp add: parse_ipv4_fields_def Let_def comp_def)
      (auto simp: parse_octet_dec assms(2) intro: map_idI)
qed

lemma parse_ipv4_string4: "parse_ipv4 (string4 a) = Some (V4 a)"
  by (simp add: parse_ipv4_def string4_def parse_ipv4_fields_join octets_bound)

lemma string4_cases:
  obtains o0 rest where "string4 a = dec o0 @ CHR ''.'' # rest"
proof -
  obtain o0 os where o: "octets a = o0 # os"
    using length_octets [of a] by (cases "octets a") auto
  then have "os \<noteq> []"
    using length_octets [of a] by auto
  then have "string4 a = dec o0 @ CHR ''.'' # join ''.'' (map dec os)"
    using o by (simp add: string4_def join_Cons)
  then show ?thesis by (rule that)
qed

lemma dec_not_special: "\<forall>c \<in> set (dec n). \<not> addr_special c"
  using dec_no_special [of n] by (auto simp: addr_special_def)

lemma hex_not_special: "\<forall>c \<in> set (hex n). \<not> addr_special c"
  using hex_no_special [of n] by (auto simp: addr_special_def)

lemma parse_addr_string4: "parse_addr (string4 a) = Some (V4 a)"
proof -
  obtain o0 rest where s: "string4 a = dec o0 @ CHR ''.'' # rest"
    by (rule string4_cases)
  have "find addr_special (string4 a) = Some CHR ''.''"
    unfolding s by (rule find_skip) (use dec_not_special in \<open>auto simp: addr_special_def\<close>)
  then show ?thesis
    by (simp add: parse_addr_def parse_ipv4_string4)
qed

lemma set_string4: "c \<in> set (string4 a) \<Longrightarrow> is_dec c \<or> c = CHR ''.''"
proof -
  assume "c \<in> set (string4 a)"
  then have "c \<in> set ''.'' \<union> \<Union> (set ` set (map dec (octets a)))"
    using set_join unfolding string4_def by (rule rev_subsetD)
  then consider "c = CHR ''.''" | n where "c \<in> set (dec n)"
    by (elim UnE UN_E imageE) auto
  then show ?thesis
    by cases (simp, blast dest: num_str_dec [THEN bspec])
qed

subsection \<open>The IPv6 loop\<close>

lemma hex_span:
  assumes "\<forall>c \<in> set h. is_hex c" "rest = [] \<or> \<not> is_hex (hd rest)"
  shows "takeWhile is_hex (h @ rest) = h" "dropWhile is_hex (h @ rest) = rest"
proof -
  have "takeWhile is_hex rest = []" "dropWhile is_hex rest = rest"
    using assms(2) by (cases rest; auto)+
  then show "takeWhile is_hex (h @ rest) = h" "dropWhile is_hex (h @ rest) = rest"
    using assms(1) by auto
qed

lemma colon_not_hex [simp]: "\<not> is_hex CHR '':''"
  by (simp add: is_hex_def is_dec_def less_eq_char_def)

lemma hex_facts:
  assumes "g < 65536"
  shows "hex g \<noteq> []" "length (hex g) \<le> 4" "\<forall>c \<in> set (hex g). is_hex c" "num_val 16 (hex g) = g"
  using assms num_str_length [of 16 g 4] num_str_hex [of 16 g]
  by (auto simp: num_val_num_str)

lemma hex_groups_Cons: "gs \<noteq> [] \<Longrightarrow> hex_groups (g # gs) = hex g @ CHR '':'' # hex_groups gs"
  by (simp add: hex_groups_def join_Cons)

lemma hex_groups_single [simp]: "hex_groups [g] = hex g"
  by (simp add: hex_groups_def)

lemma hex_groups_Nil [simp]: "hex_groups [] = []"
  by (simp add: hex_groups_def)

lemma hex_groups_empty_iff [simp]: "hex_groups gs = [] \<longleftrightarrow> gs = []"
  by (cases gs; cases "tl gs = []") (auto simp: hex_groups_Cons)

lemma hex_head: "c \<in> set (hex g) \<Longrightarrow> is_hex c"
  using num_str_hex [of 16 g] by simp

lemma hd_hex_groups: "gs \<noteq> [] \<Longrightarrow> is_hex (hd (hex_groups gs))"
proof -
  assume "gs \<noteq> []"
  then obtain g r where "gs = g # r" by (cases gs) auto
  then have "hd (hex_groups gs) = hd (hex g)"
    by (cases "r = []") (auto simp: hex_groups_Cons)
  moreover have "is_hex (hd (hex g))"
    by (rule hex_head [of _ g]) simp
  ultimately show ?thesis by simp
qed

lemma loop_last:
  assumes "g < 65536"
  shows "parse_ipv6_loop (Suc k) (hex g) gs e = Some (gs @ [g], e, [])"
proof -
  note h = hex_facts [OF assms]
  have tw: "takeWhile is_hex (hex g) = hex g" "dropWhile is_hex (hex g) = []"
    using hex_span [of "hex g" "[]"] h by auto
  show ?thesis using h by (simp add: Let_def tw del: takeWhile_eq_all_conv)
qed

lemma loop_more:
  assumes "g < 65536" "r \<noteq> []" "hd r \<noteq> CHR '':''"
  shows "parse_ipv6_loop (Suc k) (hex g @ CHR '':'' # r) gs e = parse_ipv6_loop k r (gs @ [g]) e"
  using hex_facts [OF assms(1)] hex_span [of "hex g" "CHR '':'' # r"] assms(2,3)
  by (simp add: Let_def)

lemma loop_ellipsis:
  assumes "g < 65536"
  shows "parse_ipv6_loop (Suc k) (hex g @ ''::'' @ r) gs None =
    (if r = [] then Some (gs @ [g], Some (Suc (length gs)), [])
     else parse_ipv6_loop k r (gs @ [g]) (Some (Suc (length gs))))"
  using hex_facts [OF assms(1)] hex_span [of "hex g" "CHR '':'' # CHR '':'' # r"]
  by (simp add: Let_def)

declare parse_ipv6_loop.simps(2) [simp del]

lemma loop_groups:
  assumes "xs \<noteq> []" "\<forall>g \<in> set xs. g < 65536" "length xs \<le> k"
  shows "parse_ipv6_loop k (hex_groups xs) gs e = Some (gs @ xs, e, [])"
  using assms
proof (induction xs arbitrary: k gs)
  case Nil
  then show ?case by simp
next
  case (Cons x xs)
  then obtain k' where k: "k = Suc k'" by (cases k) auto
  show ?case
  proof (cases "xs = []")
    case True
    with Cons.prems k show ?thesis by (simp add: loop_last)
  next
    case False
    then have "hd (hex_groups xs) \<noteq> CHR '':''"
      using hd_hex_groups colon_not_hex by metis
    with False Cons k show ?thesis
      by (simp add: hex_groups_Cons loop_more)
  qed
qed

lemma loop_groups_ellipsis:
  assumes "xs \<noteq> []" "\<forall>g \<in> set xs. g < 65536" "length xs \<le> k"
  shows "parse_ipv6_loop k (hex_groups xs @ ''::'' @ r) gs None =
    (if r = [] then Some (gs @ xs, Some (length gs + length xs), [])
     else parse_ipv6_loop (k - length xs) r (gs @ xs) (Some (length gs + length xs)))"
  using assms
proof (induction xs arbitrary: k gs)
  case Nil
  then show ?case by simp
next
  case (Cons x xs)
  then obtain k' where k: "k = Suc k'" by (cases k) auto
  show ?case
  proof (cases "xs = []")
    case True
    with Cons.prems k show ?thesis using loop_ellipsis by simp
  next
    case False
    then have "hd (hex_groups xs @ ''::'' @ r) \<noteq> CHR '':''"
      using hd_hex_groups colon_not_hex by (metis hd_append2 hex_groups_empty_iff)
    with False Cons k show ?thesis
      by (simp add: hex_groups_Cons loop_more)
  qed
qed

lemma hex_groups_head2:
  assumes "xs \<noteq> []"
  shows "take 2 (hex_groups xs @ r) \<noteq> ''::''"
proof
  assume "take 2 (hex_groups xs @ r) = ''::''"
  then have "hd (hex_groups xs @ r) = CHR '':''"
    by (cases "hex_groups xs @ r") auto
  with hd_hex_groups [OF assms] assms show False
    by simp
qed

subsection \<open>The zero run\<close>

lemma zero_len_le: "zero_len gs \<le> length gs"
  by (induction gs) auto

lemma zero_len_take: "take (zero_len gs) gs = replicate (zero_len gs) 0"
  by (induction gs) auto

definition run_ok :: "nat list \<Rightarrow> (nat \<times> nat) option \<Rightarrow> bool" where
  "run_ok gs r = (case r of None \<Rightarrow> True
     | Some (s, e) \<Rightarrow> s + 2 \<le> e \<and> e \<le> length gs \<and> take (e - s) (drop s gs) = replicate (e - s) 0)"

lemma zero_run_from_ok:
  "run_ok all best \<Longrightarrow> drop i all = gs \<Longrightarrow> i + length gs = length all \<Longrightarrow>
   run_ok all (zero_run_from i gs best)"
proof (induction gs arbitrary: i best)
  case Nil
  then show ?case by simp
next
  case (Cons g gs)
  let ?l = "zero_len (g # gs)"
  let ?b = "if 2 \<le> ?l \<and> (case best of None \<Rightarrow> True | Some (s, e) \<Rightarrow> e - s < ?l) then Some (i, i + ?l) else best"
  have d: "drop (Suc i) all = gs"
    using Cons.prems(2) by (metis drop_Suc list.sel(3) tl_drop)
  have "run_ok all ?b"
    using Cons.prems zero_len_le [of "g # gs"] zero_len_take [of "g # gs"]
    by (simp add: run_ok_def del: zero_len.simps)
  then have "run_ok all (zero_run_from (Suc i) gs ?b)"
    using Cons.IH d Cons.prems(3) by simp
  then show ?case by (simp only: zero_run_from.simps Let_def)
qed

lemma zero_run_ok: "run_ok gs (zero_run gs)"
  unfolding zero_run_def by (rule zero_run_from_ok) (auto simp: run_ok_def)

lemma zero_run_Some:
  assumes "zero_run gs = Some (s, e)"
  shows "s + 2 \<le> e" "e \<le> length gs" "take s gs @ replicate (e - s) 0 @ drop e gs = gs"
proof -
  have ok: "s + 2 \<le> e" "e \<le> length gs" "take (e - s) (drop s gs) = replicate (e - s) 0"
    using zero_run_ok [of gs] assms by (auto simp: run_ok_def)
  then show "s + 2 \<le> e" "e \<le> length gs" by auto
  have "drop (e - s) (drop s gs) = drop e gs" using ok(1) by simp
  then have "replicate (e - s) 0 @ drop e gs = drop s gs"
    by (metis append_take_drop_id ok(3))
  then show "take s gs @ replicate (e - s) 0 @ drop e gs = gs" by simp
qed

lemma hex_groups_not_special:
  "c \<in> set (hex_groups gs) \<Longrightarrow> is_hex c \<or> c = CHR '':''"
proof -
  assume "c \<in> set (hex_groups gs)"
  then have "c \<in> set '':'' \<union> \<Union> (set ` set (map hex gs))"
    using set_join unfolding hex_groups_def by (rule rev_subsetD)
  then consider "c = CHR '':''" | n where "c \<in> set (hex n)"
    by (elim UnE UN_E imageE) auto
  then show ?thesis by cases (simp, blast dest: hex_head)
qed

lemma parse_ipv6_body_string6: "parse_ipv6_body (string6 a) = Some (groups16 a)"
proof (cases "zero_run (groups16 a)")
  case None
  let ?g = "groups16 a"
  have ne: "?g \<noteq> []" using length_groups16 [of a] by force
  have "string6 a = hex_groups ?g" using None by (simp add: string6_def)
  moreover have "take 2 (hex_groups ?g) \<noteq> ''::''"
    using hex_groups_head2 [OF ne, of "[]"] by simp
  moreover have "parse_ipv6_loop 8 (hex_groups ?g) [] None = Some (?g, None, [])"
    using loop_groups [OF ne groups16_bound, of 8 "[]" None] by simp
  ultimately show ?thesis
    by (simp add: parse_ipv6_body_def expand_groups_def)
next
  case (Some r)
  let ?g = "groups16 a"
  obtain s e where r: "zero_run ?g = Some (s, e)" using Some by (cases r) auto
  note z = zero_run_Some [OF r]
  have e8: "e \<le> 8" "s + 2 \<le> e" using z by auto
  let ?L = "take s ?g" and ?R = "drop e ?g"
  have str: "string6 a = hex_groups ?L @ ''::'' @ hex_groups ?R"
    using r by (simp add: string6_def Let_def)
  have bl: "\<forall>g \<in> set ?L. g < 65536" "\<forall>g \<in> set ?R. g < 65536"
    using groups16_bound [of a] by (meson in_set_takeD in_set_dropD)+
  have len: "length ?L = s" "length ?R = 8 - e"
    using e8 by auto
  have expand: "expand_groups (?L @ ?R) (Some s) = Some ?g"
  proof -
    have "8 - length (?L @ ?R) = e - s" "length (?L @ ?R) < 8"
      using len e8 by auto
    then have "expand_groups (?L @ ?R) (Some s) = Some (?L @ replicate (e - s) 0 @ ?R)"
      using len by (simp add: expand_groups_def)
    then show ?thesis using z(3) by simp
  qed
  show ?thesis
  proof (cases "s = 0")
    case True
    show ?thesis
    proof (cases "?R = []")
      case True
      then have "e = 8" using len e8 by simp
      then have "?g = replicate 8 0" using z(3) \<open>s = 0\<close> by simp
      then show ?thesis using str True \<open>s = 0\<close> by (simp add: parse_ipv6_body_def)
    next
      case False
      have "parse_ipv6_loop 8 (hex_groups ?R) [] (Some 0) = Some (?R, Some 0, [])"
        using loop_groups [OF False bl(2), of 8 "[]" "Some 0"] len by simp
      then show ?thesis using str False \<open>s = 0\<close> expand
        by (simp add: parse_ipv6_body_def)
    qed
  next
    case False
    then have ne: "?L \<noteq> []" using len by (metis list.size(3))
    have l: "parse_ipv6_loop 8 (string6 a) [] None = Some (?L @ ?R, Some s, [])"
    proof (cases "?R = []")
      case True
      then show ?thesis using loop_groups_ellipsis [OF ne bl(1), of 8 "[]" "[]"] len str e8
        by simp
    next
      case False
      have "length ?R \<le> 8 - length ?L" using len e8 by simp
      then show ?thesis
        using loop_groups_ellipsis [OF ne bl(1), of 8 "hex_groups ?R" "[]"] len str e8 False
          loop_groups [OF False bl(2), of "8 - length ?L" ?L "Some s"]
        by simp
    qed
    have "take 2 (string6 a) \<noteq> ''::''"
      using hex_groups_head2 [OF ne] str by metis
    with l expand show ?thesis by (simp add: parse_ipv6_body_def)
  qed
qed

lemma set_string6: "c \<in> set (string6 a) \<Longrightarrow> is_hex c \<or> c = CHR '':''"
  unfolding string6_def Let_def
  by (auto split: option.splits prod.splits dest: hex_groups_not_special)

lemma hex_chars: "is_hex c \<Longrightarrow> c \<noteq> CHR ''%'' \<and> c \<noteq> CHR ''/'' \<and> c \<noteq> CHR ''.'' \<and> c \<noteq> CHR '':''"
  by (auto simp: is_hex_def is_dec_def less_eq_char_def)

lemma dec_hex: "is_dec c \<Longrightarrow> is_hex c"
  by (simp add: is_hex_def)

lemma string6_colon: "CHR '':'' \<in> set (string6 a)"
proof (cases "zero_run (groups16 a)")
  case None
  obtain g gs where g: "groups16 a = g # gs"
    using length_groups16 [of a] by (cases "groups16 a") auto
  then have "gs \<noteq> []" using length_groups16 [of a] by auto
  with None g show ?thesis by (simp add: string6_def hex_groups_Cons)
next
  case (Some r)
  then show ?thesis by (cases r) (simp add: string6_def Let_def)
qed

lemma find_string6: "find addr_special (string6 a) = Some CHR '':''"
proof -
  obtain xs ys where s: "string6 a = xs @ CHR '':'' # ys" "CHR '':'' \<notin> set xs"
    using split_list_first [OF string6_colon] by blast
  have "\<forall>x \<in> set xs. \<not> addr_special x"
  proof
    fix x assume x: "x \<in> set xs"
    then have "is_hex x" using s set_string6 [of x a] by auto
    then show "\<not> addr_special x" by (auto simp: addr_special_def dest: hex_chars)
  qed
  then show ?thesis unfolding s(1) by (rule find_skip) (simp add: addr_special_def)
qed

lemma parse_addr_string6: "parse_addr (string6 a) = Some (V6 a [])"
proof -
  have p: "CHR ''%'' \<notin> set (string6 a)"
    by (auto dest!: set_string6 hex_chars)
  then have tw: "takeWhile (\<lambda>c. c \<noteq> CHR ''%'') (string6 a) = string6 a"
    "dropWhile (\<lambda>c. c \<noteq> CHR ''%'') (string6 a) = []"
    by (auto simp: takeWhile_eq_all_conv dropWhile_eq_Nil_conv)
  show ?thesis
    by (simp add: parse_addr_def find_string6 parse_ipv6_def parse_ipv6_body_string6 Let_def tw
        del: takeWhile_eq_all_conv dropWhile_eq_Nil_conv)
qed

section \<open>Round trips\<close>

text \<open>A plain address: valid, not an IPv4-mapped IPv6 one, without zone.\<close>

definition plain_addr :: "addr \<Rightarrow> bool" where
  "plain_addr a \<longleftrightarrow> addr_valid a \<and> \<not> is4in6 a \<and> addr_zone a = []"

lemma parse_addr_string: "plain_addr a \<Longrightarrow> parse_addr (addr_string a) = Some a"
  by (cases a) (auto simp: plain_addr_def zone_suffix_def parse_addr_string4 parse_addr_string6)

lemma addr_string_inj:
  "plain_addr a \<Longrightarrow> plain_addr b \<Longrightarrow> addr_string a = addr_string b \<longleftrightarrow> a = b"
  by (metis option.inject parse_addr_string)

lemma addr_string_chars:
  "plain_addr a \<Longrightarrow> c \<in> set (addr_string a) \<Longrightarrow> is_hex c \<or> c = CHR ''.'' \<or> c = CHR '':''"
  by (cases a) (auto simp: plain_addr_def zone_suffix_def dest: set_string4 set_string6 dec_hex)

definition plain_prefix :: "prefix \<Rightarrow> bool" where
  "plain_prefix p \<longleftrightarrow>
     plain_addr (pfx_addr p) \<and> 0 \<le> pfx_bits p \<and> pfx_bits p \<le> int (bit_len (pfx_addr p))"

lemma plain_prefix_from: "plain_prefix p \<Longrightarrow> prefix_from (pfx_addr p) (pfx_bits p) = p"
  by (cases p) (auto simp: plain_prefix_def prefix_from_def plain_addr_def without_zone_id)

lemma split_last_append:
  "c \<notin> set ys \<Longrightarrow> split_last c (xs @ c # ys) = Some (xs, ys)"
proof -
  assume c: "c \<notin> set ys"
  then have "\<forall>x \<in> set (rev ys). x \<noteq> c" by auto
  then have "takeWhile (\<lambda>x. x \<noteq> c) (rev ys @ c # rev xs) = rev ys"
    "dropWhile (\<lambda>x. x \<noteq> c) (rev ys @ c # rev xs) = c # rev xs"
    by (simp_all add: takeWhile_append dropWhile_append)
  then show ?thesis by (simp add: split_last_def)
qed

lemma bit_len_le: "bit_len a \<le> 128"
  by (cases a) auto

lemma parse_prefix_string:
  assumes "plain_prefix p"
  shows "parse_prefix (prefix_string p) = Some p"
proof -
  let ?a = "pfx_addr p" and ?n = "nat (pfx_bits p)"
  have a: "plain_addr ?a" and b: "0 \<le> pfx_bits p" "pfx_bits p \<le> int (bit_len ?a)"
    using assms by (auto simp: plain_prefix_def)
  have s: "prefix_string p = addr_string ?a @ CHR ''/'' # dec ?n"
    using b by (simp add: prefix_string_def prefix_valid_def)
  have sp: "split_last CHR ''/'' (prefix_string p) = Some (addr_string ?a, dec ?n)"
    unfolding s by (rule split_last_append) (simp add: dec_no_special)
  have w: "(if is6 ?a then 128 else 32) = bit_len ?a"
    using a by (cases ?a) (auto simp: plain_addr_def)
  have "num_val 10 (dec ?n) = ?n" by (simp add: num_val_num_str)
  moreover have "?n \<le> bit_len ?a" using b by linarith
  moreover have "length (dec ?n) = 1 \<or> hd (dec ?n) \<noteq> CHR ''0''" by (rule dec_zero_head)
  moreover have "\<forall>c \<in> set (dec ?n). is_dec c" by (rule num_str_dec)
  moreover have "addr_zone ?a = []" using a by (simp add: plain_addr_def)
  ultimately show ?thesis
    using sp w b plain_prefix_from [OF assms] parse_addr_string [OF a]
    by (auto simp: parse_prefix_def)
qed

lemma prefix_string_inj:
  "plain_prefix p \<Longrightarrow> plain_prefix q \<Longrightarrow> prefix_string p = prefix_string q \<longleftrightarrow> p = q"
  by (metis option.inject parse_prefix_string)

end
