(* ===== verification/NetIPSet.thy ===== *)
theory NetIPSet
  imports NetIPText
begin

text \<open>
  The set of addresses a prefix stands for. A plain prefix contains an address when both
  agree on the high bits; masking does not change the set, two prefixes are nested or
  disjoint, and \<open>Prefix.Overlaps\<close> decides whether the sets meet.
\<close>

section \<open>High bits of a word\<close>

lemma drop_clear_low [simp]: "drop_bit n (clear_low n a) = drop_bit n (a :: 'a::len word)"
  by (rule bit_word_eqI) (auto simp: clear_low_def bit_simps dest: bit_imp_le_length)

lemma clear_low_eq_iff:
  "clear_low n a = clear_low n b \<longleftrightarrow> drop_bit n a = drop_bit n (b :: 'a::len word)"
  by (metis clear_low_def drop_clear_low)

lemma clear_low_idem [simp]: "clear_low n (clear_low n a) = clear_low n (a :: 'a::len word)"
  by (simp add: clear_low_eq_iff)

lemma clear_low_zero [simp]: "clear_low 0 a = (a :: 'a::len word)"
  by (simp add: clear_low_def)

lemma word_xor_zero_iff [simp]: "a XOR b = 0 \<longleftrightarrow> a = (b :: 'a::len word)"
  by (auto simp: bit_eq_iff bit_xor_iff)

lemma drop_xor_iff:
  "drop_bit n (a XOR b) = 0 \<longleftrightarrow> drop_bit n a = drop_bit n (b :: 'a::len word)"
  by simp

lemma drop_bit_mono:
  assumes "drop_bit m a = drop_bit m (b :: 'a::len word)" "m \<le> n"
  shows "drop_bit n a = drop_bit n b"
proof -
  have d: "drop_bit (n - m) (drop_bit m x) = drop_bit n x" for x :: "'a word"
    using assms(2) by (simp add: drop_bit_drop_bit)
  show ?thesis by (subst (1 2) d [symmetric]) (simp only: assms(1))
qed

section \<open>Containment\<close>

lemma same_high_V4 [simp]: "same_high b (V4 x) (V4 y) \<longleftrightarrow> drop_bit (32 - nat b) x = drop_bit (32 - nat b) y"
  by (simp add: drop_xor_iff)

lemma same_high_V6 [simp]:
  "same_high b (V6 x z) (V6 y z') \<longleftrightarrow> drop_bit (128 - nat b) x = drop_bit (128 - nat b) y"
  by (simp add: drop_xor_iff)

declare same_high.simps(1,2) [simp del]

lemma same_high_refl: "addr_valid a \<Longrightarrow> same_high b a a"
  by (cases a) auto

lemma same_high_sym: "same_high b x y \<longleftrightarrow> same_high b y x"
  by (cases x; cases y) auto

lemma same_high_trans: "same_high b x y \<Longrightarrow> same_high b y z \<Longrightarrow> same_high b x z"
  by (cases x; cases y; cases z) auto

lemma same_high_mono: "same_high b x y \<Longrightarrow> c \<le> b \<Longrightarrow> same_high c x y"
  by (cases x; cases y) (auto elim: drop_bit_mono)

definition prefix_set :: "prefix \<Rightarrow> addr set" where
  "prefix_set p = {a. prefix_contains p a}"

lemma in_prefix_set [simp]: "a \<in> prefix_set p \<longleftrightarrow> prefix_contains p a"
  by (simp add: prefix_set_def)

lemma prefix_contains_plain:
  "plain_prefix p \<Longrightarrow> addr_zone a = [] \<Longrightarrow>
   prefix_contains p a \<longleftrightarrow> same_high (pfx_bits p) (pfx_addr p) a"
  by (cases "pfx_addr p"; cases a)
    (auto simp: prefix_contains_def prefix_valid_def plain_prefix_def)

lemma prefix_contains_same_family:
  "prefix_contains p a \<Longrightarrow> is4 (pfx_addr p) = is4 a \<and> is6 (pfx_addr p) = is6 a"
  by (cases "pfx_addr p"; cases a) (auto simp: prefix_contains_def)

lemma prefix_contains_self: "plain_prefix p \<Longrightarrow> prefix_contains p (pfx_addr p)"
  by (simp add: prefix_contains_plain plain_prefix_def plain_addr_def same_high_refl)

section \<open>Masking\<close>

fun mask_addr :: "int \<Rightarrow> addr \<Rightarrow> addr" where
  "mask_addr b NoAddr = NoAddr"
| "mask_addr b (V4 a) = V4 (clear_low (32 - nat b) a)"
| "mask_addr b (V6 a z) = V6 (clear_low (128 - nat b) a) []"

lemma masked_plain:
  "plain_prefix p \<Longrightarrow> masked p = Prefix (mask_addr (pfx_bits p) (pfx_addr p)) (pfx_bits p)"
  by (cases p; cases "pfx_addr p")
    (auto simp: masked_def prefix_from_def plain_prefix_def plain_addr_def)

lemma same_high_mask: "addr_valid a \<Longrightarrow> same_high b (mask_addr b a) a"
  by (cases a) auto

lemma mask_addr_eq:
  "addr_zone a = [] \<Longrightarrow> addr_zone c = [] \<Longrightarrow> bit_len a = bit_len c \<Longrightarrow> addr_valid a \<Longrightarrow>
   mask_addr b a = mask_addr b c \<longleftrightarrow> same_high b a c"
  by (cases a; cases c) (auto simp: clear_low_eq_iff)

lemma mask_addr_idem [simp]: "mask_addr b (mask_addr b a) = mask_addr b a"
  by (cases a) auto

lemma bit_len_mask [simp]: "bit_len (mask_addr b a) = bit_len a"
  by (cases a) auto

lemma addr_zone_mask [simp]: "addr_zone (mask_addr b a) = []"
  by (cases a) auto

lemma addr_valid_mask [simp]: "addr_valid (mask_addr b a) = addr_valid a"
  by (cases a) auto

lemma is4_mask [simp]: "is4 (mask_addr b a) = is4 a"
  by (cases a) auto

lemma masked_contains:
  assumes "plain_prefix p"
  shows "prefix_contains (masked p) a \<longleftrightarrow> prefix_contains p a"
proof -
  have v: "addr_valid (pfx_addr p)" using assms by (simp add: plain_prefix_def plain_addr_def)
  have "same_high (pfx_bits p) (mask_addr (pfx_bits p) (pfx_addr p)) a \<longleftrightarrow>
    same_high (pfx_bits p) (pfx_addr p) a"
    by (meson same_high_mask same_high_sym same_high_trans v)
  then show ?thesis
    by (simp add: masked_plain [OF assms] prefix_contains_def prefix_valid_def)
qed

lemma not_4in6_mask:
  assumes "\<not> is4in6 a"
  shows "\<not> is4in6 (mask_addr b a)"
proof (cases a)
  case (V6 x z)
  let ?n = "128 - nat b"
  have ne: "drop_bit 32 x \<noteq> 0xffff" using assms V6 by simp
  have "drop_bit 32 (clear_low ?n x) \<noteq> 0xffff"
  proof (cases "?n \<le> 32")
    case True
    then have "drop_bit 32 (clear_low ?n x) = drop_bit 32 x"
      using drop_bit_mono [OF drop_clear_low] by blast
    with ne show ?thesis by simp
  next
    case False
    have "\<not> bit (drop_bit 32 (clear_low ?n x)) 0"
      using False by (simp add: clear_low_def bit_simps)
    moreover have "bit (0xffff :: 128 word) 0" by simp
    ultimately show ?thesis by metis
  qed
  with V6 show ?thesis by simp
qed auto

lemma plain_masked [valid_intros]: "plain_prefix p \<Longrightarrow> plain_prefix (masked p)"
  by (auto simp: masked_plain) (auto simp: plain_prefix_def plain_addr_def not_4in6_mask)

lemma masked_masked [simp]:
  assumes "plain_prefix p"
  shows "masked (masked p) = masked p"
  by (subst masked_plain [OF plain_masked [OF assms]]) (simp add: masked_plain [OF assms])

lemma pfx_bits_masked [simp]: "plain_prefix p \<Longrightarrow> pfx_bits (masked p) = pfx_bits p"
  by (simp add: masked_plain)

lemma is4_masked [simp]: "plain_prefix p \<Longrightarrow> is4 (pfx_addr (masked p)) = is4 (pfx_addr p)"
  by (simp add: masked_plain)

section \<open>Nesting and overlap\<close>

definition prefix_covers :: "prefix \<Rightarrow> prefix \<Rightarrow> bool" where
  "prefix_covers p q \<longleftrightarrow> pfx_bits p \<le> pfx_bits q \<and> prefix_contains p (pfx_addr q)"

lemma prefix_covers_subset:
  "prefix_covers p q \<Longrightarrow> prefix_set q \<subseteq> prefix_set p"
  unfolding prefix_covers_def
  by (auto simp: prefix_contains_def) (meson same_high_mono same_high_trans)

lemma addr_prefix_plain:
  "plain_addr a \<Longrightarrow> 0 \<le> m \<Longrightarrow> m \<le> int (bit_len a) \<Longrightarrow> addr_prefix a m = Prefix (mask_addr m a) m"
  by (cases a) (auto simp: plain_addr_def prefix_from_def)

lemma same_family:
  "plain_addr a \<Longrightarrow> plain_addr b \<Longrightarrow> is4 a = is4 b \<longleftrightarrow> bit_len a = bit_len b"
  by (cases a; cases b) (auto simp: plain_addr_def)

lemma same_high_zero: "bit_len a = bit_len b \<Longrightarrow> addr_valid a \<Longrightarrow> same_high 0 a b"
  by (cases a; cases b) (auto simp: drop_bit_eq_zero_iff_not_bit_last intro!: bit_word_eqI simp: bit_simps dest: bit_imp_le_length)

theorem prefix_overlaps_iff:
  assumes "plain_prefix p" "plain_prefix q"
  shows "prefix_overlaps p q \<longleftrightarrow> (\<exists>a. prefix_contains p a \<and> prefix_contains q a)"
proof -
  let ?a = "pfx_addr p" and ?b = "pfx_addr q" and ?m = "min (pfx_bits p) (pfx_bits q)"
  have pa: "plain_addr ?a" "plain_addr ?b" and r: "0 \<le> pfx_bits p" "pfx_bits p \<le> int (bit_len ?a)"
    "0 \<le> pfx_bits q" "pfx_bits q \<le> int (bit_len ?b)"
    using assms by (auto simp: plain_prefix_def)
  have v: "addr_valid ?a" "addr_valid ?b" "addr_zone ?a = []" "addr_zone ?b = []"
    using pa by (auto simp: plain_addr_def)
  have eq: "prefix_overlaps p q \<longleftrightarrow> bit_len ?a = bit_len ?b \<and> same_high ?m ?a ?b"
  proof (cases "bit_len ?a = bit_len ?b")
    case True
    then have "addr_prefix ?a ?m = addr_prefix ?b ?m \<longleftrightarrow> same_high ?m ?a ?b"
      using pa r v by (simp add: addr_prefix_plain mask_addr_eq)
    with True pa r v show ?thesis
      by (auto simp: prefix_overlaps_def prefix_valid_def same_family Let_def same_high_refl same_high_zero)
  next
    case False
    with pa r show ?thesis by (auto simp: prefix_overlaps_def prefix_valid_def same_family)
  qed
  show ?thesis
  proof
    assume "prefix_overlaps p q"
    with eq have s: "bit_len ?a = bit_len ?b" "same_high ?m ?a ?b" by auto
    show "\<exists>a. prefix_contains p a \<and> prefix_contains q a"
    proof (cases "pfx_bits p \<le> pfx_bits q")
      case True
      with s have "prefix_contains p ?b"
        using r v by (simp add: prefix_contains_def prefix_valid_def)
      with prefix_contains_self [OF assms(2)] show ?thesis by blast
    next
      case False
      with s have "prefix_contains q ?a"
        using r v by (simp add: prefix_contains_def prefix_valid_def same_high_sym min_def split: if_splits)
      with prefix_contains_self [OF assms(1)] show ?thesis by blast
    qed
  next
    assume "\<exists>a. prefix_contains p a \<and> prefix_contains q a"
    then obtain a where a: "prefix_contains p a" "prefix_contains q a" by blast
    then have "same_high ?m ?a a" "same_high ?m ?b a" "bit_len ?a = bit_len ?b"
      by (auto simp: prefix_contains_def intro: same_high_mono)
    then show "prefix_overlaps p q"
      using eq same_high_sym same_high_trans by blast
  qed
qed

lemma prefix_nested:
  assumes "plain_prefix p" "plain_prefix q" "prefix_overlaps p q"
  shows "prefix_covers p q \<or> prefix_covers q p"
proof -
  obtain a where a: "prefix_contains p a" "prefix_contains q a"
    using assms prefix_overlaps_iff by blast
  have z: "addr_zone (pfx_addr p) = []" "addr_zone (pfx_addr q) = []"
    using assms by (auto simp: plain_prefix_def plain_addr_def)
  show ?thesis
  proof (cases "pfx_bits p \<le> pfx_bits q")
    case True
    then have "same_high (pfx_bits p) (pfx_addr q) a"
      using a(2) same_high_mono by (auto simp: prefix_contains_def)
    with a z True show ?thesis
      unfolding prefix_covers_def prefix_contains_def
      by (metis same_high_sym same_high_trans)
  next
    case False
    then have "same_high (pfx_bits q) (pfx_addr p) a"
      using a(1) same_high_mono [of "pfx_bits p" _ _ "pfx_bits q"] by (auto simp: prefix_contains_def)
    with a z False show ?thesis
      unfolding prefix_covers_def prefix_contains_def
      by (metis linear same_high_sym same_high_trans)
  qed
qed

text \<open>The single-address prefix of an address stands for that address only.\<close>

lemma host_prefix_set:
  assumes "plain_addr a"
  shows "prefix_set (prefix_from a (int (bit_len a))) = {a}"
  using assms
  by (cases a) (auto simp: plain_addr_def prefix_set_def prefix_contains_def prefix_from_def
      prefix_valid_def elim: same_high.elims)

lemma plain_prefix_from_plain [valid_intros]:
  "plain_addr a \<Longrightarrow> 0 \<le> b \<Longrightarrow> b \<le> int (bit_len a) \<Longrightarrow> plain_prefix (prefix_from a b)"
  by (cases a) (auto simp: plain_prefix_def prefix_from_def plain_addr_def)

end
