(* ===== verification/Resource.thy ===== *)
theory Resource
  imports NetIPSet
begin

text \<open>
  \<open>internal/domain/resource.go\<close>: slugs, domain names, addresses and prefixes at the string
  boundary, the tagged union \<open>Resource\<close> and the kinds of routing rules. Go's two string
  enumerations become datatypes with one more constructor for a string that is none of the
  named constants; \<open>kind_str\<close> gives the stored text back.
\<close>

datatype domain_error =
    ErrInvalidDomain
  | ErrInvalidAddr
  | ErrInvalidPrefix
  | ErrInvalidSlug
  | ErrInvalidRuleKind
  | ErrUnsupportedSeedKind

section \<open>Slugs\<close>

definition is_lower :: "char \<Rightarrow> bool" where
  "is_lower c \<longleftrightarrow> CHR ''a'' \<le> c \<and> c \<le> CHR ''z''"

definition is_upper :: "char \<Rightarrow> bool" where
  "is_upper c \<longleftrightarrow> CHR ''A'' \<le> c \<and> c \<le> CHR ''Z''"

definition slug_char :: "char \<Rightarrow> bool" where
  "slug_char c \<longleftrightarrow> is_lower c \<or> is_dec c \<or> c = CHR ''-''"

definition validate_slug :: "string \<Rightarrow> (domain_error, unit) result" where
  "validate_slug v =
     (if v = [] \<or> 63 < length v \<or> \<not> is_lower (hd v) \<or> last v = CHR ''-'' then Err ErrInvalidSlug
      else if (\<forall>c \<in> set (tl v). slug_char c) then Ok () else Err ErrInvalidSlug)"

section \<open>Domain names\<close>

text \<open>\<open>strings.TrimSuffix(raw, ".")\<close> and \<open>strings.ToLower\<close> on ASCII.\<close>

definition trim_dot :: "string \<Rightarrow> string" where
  "trim_dot s = (if s \<noteq> [] \<and> last s = CHR ''.'' then butlast s else s)"

definition lower :: "char \<Rightarrow> char" where
  "lower c = (if is_upper c then char_of (of_char c + 32 :: nat) else c)"

definition to_lower :: "string \<Rightarrow> string" where
  "to_lower s = map lower s"

definition domain_space :: "char \<Rightarrow> bool" where
  "domain_space c \<longleftrightarrow> (of_char c :: nat) \<in> {32, 9, 13, 10, 11, 12}"

definition label_char :: "char \<Rightarrow> bool" where
  "label_char c \<longleftrightarrow> is_lower c \<or> is_upper c \<or> is_dec c \<or> c = CHR ''-''"

definition label_ok :: "string \<Rightarrow> bool" where
  "label_ok l \<longleftrightarrow>
     \<not> (length l = 0 \<or> 63 < length l \<or> hd l = CHR ''-'' \<or> last l = CHR ''-'') \<and> (\<forall>c \<in> set l. label_char c)"

definition normalize_domain :: "string \<Rightarrow> (domain_error, string) result" where
  "normalize_domain raw =
     (if raw = [] then Err ErrInvalidDomain
      else let r = trim_dot raw in
      if r = [] \<or> 253 < length r then Err ErrInvalidDomain
      else if (\<exists>c \<in> set r. (127::nat) < of_char c \<or> domain_space c) then Err ErrInvalidDomain
      else if (\<forall>l \<in> set (split_on CHR ''.'' r). label_ok l) then Ok (to_lower r)
      else Err ErrInvalidDomain)"

definition normalize_domain_value :: "string \<Rightarrow> string" where
  "normalize_domain_value v = to_lower (trim_dot v)"

section \<open>Addresses and prefixes at a string boundary\<close>

text \<open>
  \<open>strings.TrimSpace\<close> on ASCII white space. A string with other bytes at its ends is
  refused by the parsers that follow, so the comparison \<open>TrimSpace(raw) != raw\<close> decides
  the same strings.
\<close>

definition trim_space :: "string \<Rightarrow> string" where
  "trim_space s = rev (dropWhile domain_space (rev (dropWhile domain_space s)))"

definition ParseAddr :: "string \<Rightarrow> (domain_error, addr) result" where
  "ParseAddr raw =
     (if raw = [] \<or> trim_space raw \<noteq> raw \<or> CHR ''%'' \<in> set raw then Err ErrInvalidAddr
      else case parse_addr raw of
             None \<Rightarrow> Err ErrInvalidAddr
           | Some a \<Rightarrow> if \<not> addr_valid a then Err ErrInvalidAddr else Ok (unmap a))"

definition ParsePrefix :: "string \<Rightarrow> (domain_error, prefix) result" where
  "ParsePrefix raw =
     (if raw = [] \<or> trim_space raw \<noteq> raw \<or> CHR ''%'' \<in> set raw then Err ErrInvalidPrefix
      else case parse_prefix raw of
             None \<Rightarrow> Err ErrInvalidPrefix
           | Some p \<Rightarrow>
               if \<not> prefix_valid p then Err ErrInvalidPrefix
               else let a = pfx_addr p; bits = pfx_bits p in
               if is4in6 a \<and> bits < 96 then Err ErrInvalidPrefix
               else let a' = (if is4in6 a then unmap a else a);
                        bits' = (if is4in6 a then bits - 96 else bits) in
               if \<not> addr_valid a' \<or> bits' < 0 \<or> int (bit_len a') < bits' then Err ErrInvalidPrefix
               else Ok (masked (prefix_from (unmap a') bits')))"

section \<open>Resources\<close>

datatype ResourceKind = ResourceDomain | ResourceIP | ResourcePrefix | ResourceOther string

record resource =
  res_kind :: ResourceKind
  res_domain :: string
  res_addr :: addr
  res_prefix :: prefix

definition mk_resource :: "ResourceKind \<Rightarrow> string \<Rightarrow> addr \<Rightarrow> prefix \<Rightarrow> resource" where
  "mk_resource k d a p = \<lparr>res_kind = k, res_domain = d, res_addr = a, res_prefix = p\<rparr>"

definition new_domain_resource :: "string \<Rightarrow> (domain_error, resource) result" where
  "new_domain_resource raw =
     (case normalize_domain raw of
        Inl e \<Rightarrow> Err e | Inr d \<Rightarrow> Ok (mk_resource ResourceDomain d NoAddr no_prefix))"

definition new_addr_resource :: "addr \<Rightarrow> (domain_error, resource) result" where
  "new_addr_resource a =
     (if \<not> addr_valid a then Err ErrInvalidAddr
      else Ok (mk_resource ResourceIP [] (unmap a) no_prefix))"

definition new_addr_resource_from_string :: "string \<Rightarrow> (domain_error, resource) result" where
  "new_addr_resource_from_string raw =
     (case ParseAddr raw of Inl e \<Rightarrow> Err e | Inr a \<Rightarrow> new_addr_resource a)"

text \<open>The width check and re-basing of a 4-in-6 prefix, shared with \<open>NewPrefixRule\<close>.\<close>

definition unmap_prefix :: "prefix \<Rightarrow> (domain_error, prefix) result" where
  "unmap_prefix p =
     (if \<not> prefix_valid p then Err ErrInvalidPrefix
      else if is4in6 (pfx_addr p) then
        (if pfx_bits p < 96 then Err ErrInvalidPrefix
         else Ok (prefix_from (unmap (pfx_addr p)) (pfx_bits p - 96)))
      else Ok p)"

definition new_prefix_resource :: "prefix \<Rightarrow> (domain_error, resource) result" where
  "new_prefix_resource p =
     (case unmap_prefix p of
        Inl e \<Rightarrow> Err e | Inr q \<Rightarrow> Ok (mk_resource ResourcePrefix [] NoAddr (masked q)))"

definition new_prefix_resource_from_string :: "string \<Rightarrow> (domain_error, resource) result" where
  "new_prefix_resource_from_string raw =
     (case ParsePrefix raw of Inl e \<Rightarrow> Err e | Inr p \<Rightarrow> new_prefix_resource p)"

fun resource_valid :: "resource \<Rightarrow> bool" where
  "resource_valid r =
     (case res_kind r of
        ResourceDomain \<Rightarrow> normalize_domain (res_domain r) = Ok (res_domain r)
      | ResourceIP \<Rightarrow> addr_valid (res_addr r) \<and> \<not> is4in6 (res_addr r)
      | ResourcePrefix \<Rightarrow> prefix_valid (res_prefix r) \<and> \<not> is4in6 (pfx_addr (res_prefix r))
      | ResourceOther _ \<Rightarrow> False)"

declare resource_valid.simps [simp del]

definition resource_value :: "resource \<Rightarrow> string" where
  "resource_value r =
     (case res_kind r of
        ResourceDomain \<Rightarrow> normalize_domain_value (res_domain r)
      | ResourceIP \<Rightarrow> addr_string (unmap (res_addr r))
      | ResourcePrefix \<Rightarrow> prefix_string (masked (res_prefix r))
      | ResourceOther _ \<Rightarrow> [])"

fun resource_kind_str :: "ResourceKind \<Rightarrow> string" where
  "resource_kind_str ResourceDomain = ''domain''"
| "resource_kind_str ResourceIP = ''ip''"
| "resource_kind_str ResourcePrefix = ''prefix''"
| "resource_kind_str (ResourceOther s) = s"

section \<open>Rule kinds\<close>

datatype RuleKind =
    RuleDomainExact | RuleDomainSuffix | RuleIPv4 | RuleIPv6 | RulePrefix4 | RulePrefix6
  | RuleOther string

fun kind_str :: "RuleKind \<Rightarrow> string" where
  "kind_str RuleDomainExact = ''domain_exact''"
| "kind_str RuleDomainSuffix = ''domain_suffix''"
| "kind_str RuleIPv4 = ''ipv4''"
| "kind_str RuleIPv6 = ''ipv6''"
| "kind_str RulePrefix4 = ''prefix4''"
| "kind_str RulePrefix6 = ''prefix6''"
| "kind_str (RuleOther s) = s"

definition kind_is_domain :: "RuleKind \<Rightarrow> bool" where
  "kind_is_domain k \<longleftrightarrow> k = RuleDomainExact \<or> k = RuleDomainSuffix"

definition kind_is_ip :: "RuleKind \<Rightarrow> bool" where
  "kind_is_ip k \<longleftrightarrow> k = RuleIPv4 \<or> k = RuleIPv6"

definition kind_is_prefix :: "RuleKind \<Rightarrow> bool" where
  "kind_is_prefix k \<longleftrightarrow> k = RulePrefix4 \<or> k = RulePrefix6"

definition normalize_rule_value :: "string \<Rightarrow> (domain_error, string \<times> RuleKind) result" where
  "normalize_rule_value raw =
     (case ParseAddr raw of
        Inr a \<Rightarrow> Ok (addr_string a, if is4 a then RuleIPv4 else RuleIPv6)
      | Inl _ \<Rightarrow>
          (case ParsePrefix raw of
             Inr p \<Rightarrow> Ok (prefix_string p, if is4 (pfx_addr p) then RulePrefix4 else RulePrefix6)
           | Inl _ \<Rightarrow>
               (case normalize_domain raw of
                  Inr d \<Rightarrow> Ok (d, RuleDomainSuffix)
                | Inl _ \<Rightarrow> Err ErrInvalidDomain)))"

lemma kind_classes [simp]:
  "kind_is_domain RuleDomainExact" "kind_is_domain RuleDomainSuffix" "\<not> kind_is_domain RuleIPv4"
  "\<not> kind_is_domain RuleIPv6" "\<not> kind_is_domain RulePrefix4" "\<not> kind_is_domain RulePrefix6"
  "\<not> kind_is_ip RuleDomainExact" "\<not> kind_is_ip RuleDomainSuffix" "kind_is_ip RuleIPv4"
  "kind_is_ip RuleIPv6" "\<not> kind_is_ip RulePrefix4" "\<not> kind_is_ip RulePrefix6"
  "\<not> kind_is_prefix RuleDomainExact" "\<not> kind_is_prefix RuleDomainSuffix" "\<not> kind_is_prefix RuleIPv4"
  "\<not> kind_is_prefix RuleIPv6" "kind_is_prefix RulePrefix4" "kind_is_prefix RulePrefix6"
  "\<not> kind_is_domain (RuleOther s)" "\<not> kind_is_ip (RuleOther s)" "\<not> kind_is_prefix (RuleOther s)"
  by (simp_all add: kind_is_domain_def kind_is_ip_def kind_is_prefix_def)

section \<open>Slug and domain lemmas\<close>

lemma char_le_iff: "c \<le> d \<longleftrightarrow> (of_char c :: nat) \<le> of_char d"
  by (rule less_eq_char_def)

lemma of_char_lower: "(of_char (lower c) :: nat) = (if is_upper c then of_char c + 32 else of_char c)"
  by (simp add: lower_def is_upper_def char_le_iff)

lemma lower_not_upper: "\<not> is_upper (lower c)"
  using of_char_lower [of c] by (auto simp: is_upper_def char_le_iff split: if_splits)

lemma lower_id: "\<not> is_upper c \<Longrightarrow> lower c = c"
  by (simp add: lower_def)

lemma lower_upper: "is_upper c \<Longrightarrow> is_lower (lower c)"
  using of_char_lower [of c] by (auto simp: is_upper_def is_lower_def char_le_iff)

lemma lower_lower [simp]: "lower (lower c) = lower c"
  by (rule lower_id, rule lower_not_upper)

lemma lower_eq_plain: "\<not> is_lower d \<Longrightarrow> \<not> is_upper d \<Longrightarrow> lower c = d \<longleftrightarrow> c = d"
  by (metis lower_id lower_upper)

lemma dot_hyphen_plain [simp]:
  "\<not> is_lower CHR ''.''" "\<not> is_upper CHR ''.''" "\<not> is_lower CHR ''-''" "\<not> is_upper CHR ''-''"
  by (simp_all add: is_lower_def is_upper_def char_le_iff)

lemma lower_dot [simp]: "lower c = CHR ''.'' \<longleftrightarrow> c = CHR ''.''"
  and lower_hyphen [simp]: "lower c = CHR ''-'' \<longleftrightarrow> c = CHR ''-''"
  by (simp_all add: lower_eq_plain)

lemma label_char_lower [simp]: "label_char (lower c) \<longleftrightarrow> label_char c"
  by (cases "is_upper c") (auto simp: label_char_def lower_upper lower_id)

lemma length_to_lower [simp]: "length (to_lower s) = length s"
  by (simp add: to_lower_def)

lemma to_lower_idem [simp]: "to_lower (to_lower s) = to_lower s"
  by (simp add: to_lower_def)

lemma to_lower_empty [simp]: "to_lower s = [] \<longleftrightarrow> s = []"
  by (simp add: to_lower_def)

lemma split_on_lower: "split_on CHR ''.'' (to_lower s) = map to_lower (split_on CHR ''.'' s)"
  by (induction s) (auto simp: to_lower_def split: list.splits)

lemma label_ok_lower [simp]: "label_ok (to_lower l) \<longleftrightarrow> label_ok l"
  by (cases "l = []") (auto simp: label_ok_def to_lower_def hd_map last_map)

lemma label_char_ascii: "label_char c \<or> c = CHR ''.'' \<Longrightarrow> \<not> ((127::nat) < of_char c \<or> domain_space c)"
  by (auto simp: label_char_def is_lower_def is_upper_def is_dec_def domain_space_def char_le_iff)

text \<open>The grammar \<open>NormalizeDomain\<close> accepts after removing one terminal dot.\<close>

definition domain_syntax :: "string \<Rightarrow> bool" where
  "domain_syntax t \<longleftrightarrow> t \<noteq> [] \<and> length t \<le> 253 \<and> (\<forall>l \<in> set (split_on CHR ''.'' t). label_ok l)"

lemma domain_syntax_chars:
  assumes "domain_syntax t" "c \<in> set t"
  shows "label_char c \<or> c = CHR ''.''"
proof -
  have "c \<in> set (join ''.'' (split_on CHR ''.'' t))"
    using assms(2) by (simp add: join_split)
  then have "c \<in> set ''.'' \<union> \<Union> (set ` set (split_on CHR ''.'' t))"
    using set_join by (rule rev_subsetD)
  with assms(1) show ?thesis
    by (auto simp: domain_syntax_def label_ok_def)
qed

lemma domain_syntax_last:
  assumes "domain_syntax t"
  shows "last t \<noteq> CHR ''.''"
proof
  assume l: "last t = CHR ''.''"
  have "t \<noteq> []" using assms by (simp add: domain_syntax_def)
  with l have t: "t = butlast t @ [CHR ''.'']" by (metis append_butlast_last_id)
  have "split_on c (xs @ [c]) = split_on c xs @ [[]]" for c :: char and xs
    by (induction xs) (auto split: list.splits)
  then have "[] \<in> set (split_on CHR ''.'' t)"
    by (subst t) simp
  with assms show False by (auto simp: domain_syntax_def label_ok_def)
qed

lemma trim_dot_syntax: "domain_syntax t \<Longrightarrow> trim_dot t = t"
  by (auto simp: trim_dot_def dest: domain_syntax_last)

lemma normalize_domain_iff:
  "normalize_domain s = Ok d \<longleftrightarrow> domain_syntax (trim_dot s) \<and> d = to_lower (trim_dot s)"
proof -
  have e: "s = [] \<Longrightarrow> trim_dot s = []" by (simp add: trim_dot_def)
  have c: "domain_syntax (trim_dot s) \<Longrightarrow>
    \<not> (\<exists>c \<in> set (trim_dot s). (127::nat) < of_char c \<or> domain_space c)"
    using domain_syntax_chars label_char_ascii by blast
  have d: "domain_syntax (trim_dot s) \<longleftrightarrow> trim_dot s \<noteq> [] \<and> \<not> 253 < length (trim_dot s) \<and>
    (\<forall>l \<in> set (split_on CHR ''.'' (trim_dot s)). label_ok l)"
    by (auto simp: domain_syntax_def)
  show ?thesis
    unfolding normalize_domain_def Let_def using c d e by (auto split: if_splits)
qed

lemma domain_syntax_lower [simp]: "domain_syntax (to_lower t) \<longleftrightarrow> domain_syntax t"
  by (simp add: domain_syntax_def split_on_lower)

lemma normalize_domain_fixed: "normalize_domain s = Ok d \<Longrightarrow> normalize_domain d = Ok d"
  by (auto simp: normalize_domain_iff trim_dot_syntax)

lemma normalize_domain_value_id: "normalize_domain d = Ok d \<Longrightarrow> normalize_domain_value d = d"
  by (simp add: normalize_domain_iff normalize_domain_value_def)

lemma normalize_domain_chars:
  assumes "normalize_domain s = Ok d" "c \<in> set d"
  shows "is_lower c \<or> is_dec c \<or> c = CHR ''-'' \<or> c = CHR ''.''"
proof -
  have d: "domain_syntax (trim_dot s)" "d = to_lower (trim_dot s)"
    using assms(1) by (auto simp: normalize_domain_iff)
  then obtain c' where c: "c = lower c'" "c' \<in> set (trim_dot s)"
    using assms(2) by (auto simp: to_lower_def)
  with d domain_syntax_chars have "label_char c' \<or> c' = CHR ''.''" by blast
  with c show ?thesis
    using lower_not_upper [of c'] label_char_lower [of c'] by (auto simp: label_char_def)
qed

end
