(* ===== verification/ResourceText.thy ===== *)
theory ResourceText
  imports Resource
begin

text \<open>
  What the string boundary of \<open>resource.go\<close> guarantees: every accepted address and prefix
  is plain (unmapped, without zone, in range, masked), is printed to a text that is accepted
  again as the same value, and \<open>NormalizeRuleValue\<close> is a normal form except for a value
  with a terminal dot.
\<close>

lemma domain_space_not_hex: "is_hex c \<Longrightarrow> \<not> domain_space c"
  by (auto simp: is_hex_def is_dec_def domain_space_def char_le_iff)

lemma plain_chars_not_space:
  "is_hex c \<or> c = CHR ''.'' \<or> c = CHR '':'' \<or> c = CHR ''/'' \<Longrightarrow> \<not> domain_space c"
  by (auto simp: domain_space_def dest: domain_space_not_hex)

lemma trim_space_id: "\<forall>c \<in> set s. \<not> domain_space c \<Longrightarrow> trim_space s = s"
proof -
  assume a: "\<forall>c \<in> set s. \<not> domain_space c"
  have d: "dropWhile domain_space t = t" if "\<forall>c \<in> set t. \<not> domain_space c" for t
    using that by (cases t) auto
  from a have "dropWhile domain_space s = s" "dropWhile domain_space (rev s) = rev s"
    by (auto intro!: d)
  then show ?thesis by (simp add: trim_space_def)
qed

lemma parse_addr_Nil [simp]: "parse_addr [] = None"
  by (simp add: parse_addr_def)

lemma addr_string_nonempty [simp]: "plain_addr a \<Longrightarrow> addr_string a \<noteq> []"
  using parse_addr_string by force

text \<open>Go's \<open>netip\<close> values from a parser without \<open>%\<close> have no zone.\<close>

lemma parse_addr_zone:
  assumes "parse_addr s = Some a" "CHR ''%'' \<notin> set s"
  shows "addr_zone a = []" "addr_valid a"
proof -
  have d: "dropWhile (\<lambda>c. c \<noteq> CHR ''%'') s = []"
    using assms(2) by (auto simp: dropWhile_eq_Nil_conv)
  from assms(1) consider "parse_ipv4 s = Some a" | "parse_ipv6 s = Some a"
    by (auto simp: parse_addr_def split: option.splits if_splits)
  then have "addr_zone a = [] \<and> addr_valid a"
  proof cases
    case 1
    then show ?thesis by (auto simp: parse_ipv4_def)
  next
    case 2
    then show ?thesis unfolding parse_ipv6_def Let_def d by (auto split: if_splits)
  qed
  then show "addr_zone a = []" "addr_valid a" by auto
qed

lemma parse_addr_valid: "parse_addr s = Some a \<Longrightarrow> addr_valid a"
proof -
  assume "parse_addr s = Some a"
  then consider "parse_ipv4 s = Some a" | "parse_ipv6 s = Some a"
    by (auto simp: parse_addr_def split: option.splits if_splits)
  then show ?thesis
    by cases (auto simp: parse_ipv4_def parse_ipv6_def Let_def split: if_splits)
qed

lemma parse_addr_plain:
  "parse_addr s = Some a \<Longrightarrow> CHR ''%'' \<notin> set s \<Longrightarrow> plain_addr (unmap a)"
  by (simp add: plain_addr_def parse_addr_zone addr_zone_unmap)

lemma ParseAddr_Ok:
  "ParseAddr s = Ok a \<Longrightarrow> plain_addr a"
  by (auto simp: ParseAddr_def parse_addr_plain split: if_splits option.splits)

lemma ParseAddr_string: "plain_addr a \<Longrightarrow> ParseAddr (addr_string a) = Ok a"
proof -
  assume p: "plain_addr a"
  have "\<forall>c \<in> set (addr_string a). \<not> domain_space c \<and> c \<noteq> CHR ''%''"
    using addr_string_chars [OF p] plain_chars_not_space hex_chars by fastforce
  then have "trim_space (addr_string a) = addr_string a" "CHR ''%'' \<notin> set (addr_string a)"
    by (auto intro: trim_space_id)
  with p show ?thesis
    by (simp add: ParseAddr_def parse_addr_string plain_addr_def)
qed

text \<open>A prefix that is plain and masked is what the code calls canonical.\<close>

definition canonical_prefix :: "prefix \<Rightarrow> bool" where
  "canonical_prefix p \<longleftrightarrow> plain_prefix p \<and> masked p = p"

lemma canonical_masked: "plain_prefix p \<Longrightarrow> canonical_prefix (masked p)"
  by (simp add: canonical_prefix_def plain_masked)

lemma bit_len_unmap: "is4in6 a \<Longrightarrow> bit_len (unmap a) = 32"
  by (cases a) auto

lemma parse_prefix_plain:
  assumes "parse_prefix s = Some p" "CHR ''%'' \<notin> set s"
  shows "addr_zone (pfx_addr p) = []" "addr_valid (pfx_addr p)" "0 \<le> pfx_bits p"
    "pfx_bits p \<le> int (bit_len (pfx_addr p))"
proof -
  obtain as bs where sp: "split_last CHR ''/'' s = Some (as, bs)"
    using assms(1) by (auto simp: parse_prefix_def split: option.splits)
  obtain a where a: "parse_addr as = Some a" and p: "p = prefix_from a (int (num_val 10 bs))"
    and z: "\<not> (is6 a \<and> addr_zone a \<noteq> [])" and b: "\<not> (if is6 a then 128 else 32) < num_val 10 bs"
    using assms(1) sp by (auto simp: parse_prefix_def split: option.splits if_splits)
  have v: "addr_valid a" using a by (rule parse_addr_valid)
  have "(if is6 a then 128 else 32) = bit_len a" using v by (cases a) auto
  with b have "int (num_val 10 bs) \<le> int (bit_len a)" by auto
  moreover have "addr_zone a = []" using z by (cases a) auto
  ultimately show "addr_zone (pfx_addr p) = []" "addr_valid (pfx_addr p)" "0 \<le> pfx_bits p"
    "pfx_bits p \<le> int (bit_len (pfx_addr p))"
    using v p by (cases a; auto simp: prefix_from_def)+
qed

lemma ParsePrefix_Ok:
  assumes "ParsePrefix s = Ok p"
  shows "canonical_prefix p"
proof -
  obtain q where q: "parse_prefix s = Some q" "CHR ''%'' \<notin> set s"
    using assms by (auto simp: ParsePrefix_def split: if_splits option.splits)
  note b = parse_prefix_plain [OF q]
  let ?a = "if is4in6 (pfx_addr q) then unmap (pfx_addr q) else pfx_addr q"
  let ?b = "if is4in6 (pfx_addr q) then pfx_bits q - 96 else pfx_bits q"
  have p: "p = masked (prefix_from (unmap ?a) ?b)" and r: "0 \<le> ?b" "?b \<le> int (bit_len ?a)"
    using assms q by (auto simp: ParsePrefix_def Let_def split: if_splits)
  have "plain_addr (unmap ?a)"
    using b by (auto simp: plain_addr_def addr_zone_unmap)
  moreover have "unmap ?a = ?a" by auto
  ultimately have "plain_prefix (prefix_from (unmap ?a) ?b)"
    using r by (metis plain_prefix_from_plain)
  then show ?thesis unfolding p by (rule canonical_masked)
qed

lemma prefix_string_chars:
  assumes "plain_prefix p" "c \<in> set (prefix_string p)"
  shows "is_hex c \<or> c = CHR ''.'' \<or> c = CHR '':'' \<or> c = CHR ''/''"
proof -
  have "prefix_string p = addr_string (pfx_addr p) @ ''/'' @ dec (nat (pfx_bits p))"
    using assms(1) by (simp add: prefix_string_def prefix_valid_def plain_prefix_def)
  with assms show ?thesis
    using addr_string_chars [of "pfx_addr p" c] num_str_dec [of "nat (pfx_bits p)"] dec_hex
    by (auto simp: plain_prefix_def)
qed

lemma ParsePrefix_string:
  assumes "canonical_prefix p"
  shows "ParsePrefix (prefix_string p) = Ok p"
proof -
  have p: "plain_prefix p" "masked p = p" using assms by (auto simp: canonical_prefix_def)
  then have a: "plain_addr (pfx_addr p)" by (simp add: plain_prefix_def)
  have "\<forall>c \<in> set (prefix_string p). \<not> domain_space c \<and> c \<noteq> CHR ''%''"
    using prefix_string_chars [OF p(1)] plain_chars_not_space hex_chars by fastforce
  then have "trim_space (prefix_string p) = prefix_string p" "CHR ''%'' \<notin> set (prefix_string p)"
    by (auto intro: trim_space_id)
  moreover have "prefix_string p \<noteq> []"
    using a by (simp add: prefix_string_def)
  moreover have "prefix_from (pfx_addr p) (pfx_bits p) = p" using p(1) by (rule plain_prefix_from)
  ultimately show ?thesis
    using p a parse_prefix_string [OF p(1)]
    by (auto simp: ParsePrefix_def Let_def prefix_valid_def plain_prefix_def plain_addr_def)
qed

section \<open>The three shapes of a rule value\<close>

lemma parse_octet_chars: "parse_octet s = Some n \<Longrightarrow> \<forall>c \<in> set s. is_dec c"
  by (auto simp: parse_octet_def split: if_splits)

lemma parse_ipv4_chars:
  assumes "parse_ipv4 s = Some a" "c \<in> set s"
  shows "is_dec c \<or> c = CHR ''.''"
proof -
  have n: "None \<notin> set (map parse_octet (split_on CHR ''.'' s))"
    using assms(1) by (auto simp: parse_ipv4_def parse_ipv4_fields_def Let_def split: if_splits)
  have "c \<in> set (join ''.'' (split_on CHR ''.'' s))" using assms(2) by (simp add: join_split)
  then have "c \<in> set ''.'' \<union> \<Union> (set ` set (split_on CHR ''.'' s))"
    using set_join by (rule rev_subsetD)
  then consider "c = CHR ''.''" | l where "l \<in> set (split_on CHR ''.'' s)" "c \<in> set l" by auto
  then show ?thesis
  proof cases
    case 2
    then have "parse_octet l \<noteq> None" using n by (metis image_eqI list.set_map)
    with 2 show ?thesis using parse_octet_chars by blast
  qed simp
qed

lemma ParseAddr_domain_chars:
  assumes "\<forall>c \<in> set s. label_char c \<or> c = CHR ''.''"
  shows "ParseAddr s = (if s = [] then Err ErrInvalidAddr else
    case parse_ipv4 s of None \<Rightarrow> Err ErrInvalidAddr | Some a \<Rightarrow> Ok a)"
proof -
  have nosp: "\<forall>c \<in> set s. \<not> domain_space c \<and> c \<noteq> CHR ''%'' \<and> c \<noteq> CHR '':''"
    using assms label_char_ascii
    by (fastforce simp: label_char_def is_lower_def is_upper_def is_dec_def char_le_iff)
  then have t: "trim_space s = s" "CHR ''%'' \<notin> set s" by (auto intro: trim_space_id)
  have "parse_addr s = parse_ipv4 s"
  proof (cases "find addr_special s")
    case None
    then have "CHR ''.'' \<notin> set s" by (auto simp: find_None_iff addr_special_def)
    then have "parse_ipv4 s = None"
      by (simp add: parse_ipv4_def parse_ipv4_fields_def split_on_plain Let_def)
    with None show ?thesis by (simp add: parse_addr_def)
  next
    case (Some c)
    then have "addr_special c" "c \<in> set s" by (auto simp: find_Some_iff)
    with nosp have "c = CHR ''.''" by (auto simp: addr_special_def)
    with Some show ?thesis by (simp add: parse_addr_def)
  qed
  with t show ?thesis
    by (auto simp: ParseAddr_def parse_ipv4_def split: option.splits)
qed

lemma domain_not_prefix:
  assumes "\<forall>c \<in> set s. label_char c \<or> c = CHR ''.''"
  shows "\<exists>e. ParsePrefix s = Err e"
proof -
  have "CHR ''/'' \<notin> set s"
    using assms by (auto simp: label_char_def is_lower_def is_upper_def is_dec_def char_le_iff)
  then have "parse_prefix s = None" by (simp add: parse_prefix_def split_last_def)
  then show ?thesis by (simp add: ParsePrefix_def)
qed

lemma to_lower_dec: "\<forall>c \<in> set (to_lower s). is_dec c \<or> c = CHR ''.'' \<Longrightarrow> to_lower s = s"
proof -
  assume a: "\<forall>c \<in> set (to_lower s). is_dec c \<or> c = CHR ''.''"
  have "\<not> is_upper c" if "c \<in> set s" for c
  proof
    assume u: "is_upper c"
    then have "is_lower (lower c)" by (rule lower_upper)
    moreover have "lower c \<in> set (to_lower s)" using that by (simp add: to_lower_def)
    ultimately show False using a
      by (fastforce simp: is_lower_def is_dec_def char_le_iff)
  qed
  then show ?thesis by (simp add: to_lower_def lower_id map_idI)
qed

lemma parse_ipv6_loop_chars:
  "parse_ipv6_loop k s gs e = Some (gs', e', []) \<Longrightarrow>
   \<forall>c \<in> set s. is_hex c \<or> c = CHR ''.'' \<or> c = CHR '':''"
proof (induction k arbitrary: s gs e)
  case 0
  then show ?case by simp
next
  case (Suc k)
  let ?ds = "takeWhile is_hex s" and ?r = "dropWhile is_hex s"
  have s: "s = ?ds @ ?r" by simp
  have ds: "\<forall>c \<in> set ?ds. is_hex c" by (auto dest: set_takeWhileD)
  have "\<forall>c \<in> set ?r. is_hex c \<or> c = CHR ''.'' \<or> c = CHR '':''"
  proof (cases ?r)
    case Nil
    show ?thesis unfolding Nil by simp
  next
    case (Cons c r')
    show ?thesis
    proof (cases "c = CHR ''.''")
      case True
      with Suc.prems Cons have "parse_ipv4_fields s \<noteq> None"
        by (auto simp: parse_ipv6_loop.simps(2) Let_def split: if_splits option.splits)
      then obtain a where "parse_ipv4 s = Some a" by (auto simp: parse_ipv4_def)
      then show ?thesis using parse_ipv4_chars dec_hex s
        by (metis UnCI set_append)
    next
      case False
      with Suc.prems Cons have c: "c = CHR '':''" "r' \<noteq> []"
        by (auto simp: parse_ipv6_loop.simps(2) Let_def split: if_splits)
      then obtain d r'' where r: "r' = d # r''" by (cases r') auto
      show ?thesis
      proof (cases "d = CHR '':''")
        case True
        show ?thesis
        proof (cases "r'' = []")
          case False
          with Suc.prems Cons c r True
          have "parse_ipv6_loop k r'' (gs @ [num_val 16 ?ds]) (Some (Suc (length gs))) = Some (gs', e', [])"
            by (auto simp: parse_ipv6_loop.simps(2) Let_def split: if_splits)
          from Suc.IH [OF this] show ?thesis using Cons c r True by auto
        qed (use Cons c r True in auto)
      next
        case False
        with Suc.prems Cons c r
        have "parse_ipv6_loop k r' (gs @ [num_val 16 ?ds]) e = Some (gs', e', [])"
          by (auto simp: parse_ipv6_loop.simps(2) Let_def split: if_splits)
        from Suc.IH [OF this] show ?thesis using Cons c by auto
      qed
    qed
  qed
  with ds s show ?case by (metis UnE set_append)
qed

lemma parse_addr_chars:
  assumes "parse_addr s = Some a" "CHR ''%'' \<notin> set s"
  shows "\<forall>c \<in> set s. is_hex c \<or> c = CHR ''.'' \<or> c = CHR '':''"
proof -
  from assms(1) consider "parse_ipv4 s = Some a" | "parse_ipv6 s = Some a"
    by (auto simp: parse_addr_def split: option.splits if_splits)
  then show ?thesis
  proof cases
    case 1
    then show ?thesis using parse_ipv4_chars dec_hex by blast
  next
    case 2
    have tw: "takeWhile (\<lambda>c. c \<noteq> CHR ''%'') s = s"
      using assms(2) by (auto simp: takeWhile_eq_all_conv)
    then have b: "parse_ipv6_body s \<noteq> None"
      using 2 by (auto simp: parse_ipv6_def Let_def tw split: if_splits simp del: takeWhile_eq_all_conv)
    show ?thesis
    proof (cases "take 2 s = ''::''")
      case True
      then have s: "s = ''::'' @ drop 2 s" by (metis append_take_drop_id)
      show ?thesis
      proof (cases "drop 2 s = []")
        case True
        with s have "s = ''::''" by simp
        then show ?thesis by simp
      next
        case False
        with True b have "\<exists>gs e. parse_ipv6_loop 8 (drop 2 s) [] (Some 0) = Some (gs, e, [])"
          by (auto simp: parse_ipv6_body_def split: option.splits list.splits)
        then have "\<forall>c \<in> set (drop 2 s). is_hex c \<or> c = CHR ''.'' \<or> c = CHR '':''"
          using parse_ipv6_loop_chars by blast
        then show ?thesis by (subst s) simp
      qed
    next
      case False
      with b have "\<exists>gs e. parse_ipv6_loop 8 s [] None = Some (gs, e, [])"
        by (auto simp: parse_ipv6_body_def split: option.splits list.splits)
      then show ?thesis using parse_ipv6_loop_chars by blast
    qed
  qed
qed

lemma ParseAddr_slash: "CHR ''/'' \<in> set s \<Longrightarrow> \<exists>e. ParseAddr s = Err e"
proof -
  assume sl: "CHR ''/'' \<in> set s"
  have "parse_addr s = None" if "CHR ''%'' \<notin> set s"
  proof (rule ccontr)
    assume "parse_addr s \<noteq> None"
    then obtain a where "parse_addr s = Some a" by auto
    from parse_addr_chars [OF this that] sl have "is_hex CHR ''/''" by auto
    then show False using hex_chars by blast
  qed
  then show ?thesis by (auto simp: ParseAddr_def)
qed

lemma slash_in_prefix_string: "plain_prefix p \<Longrightarrow> CHR ''/'' \<in> set (prefix_string p)"
  by (simp add: prefix_string_def prefix_valid_def plain_prefix_def)

lemma normalize_domain_not_addr:
  assumes "normalize_domain s = Ok d" "ParseAddr s = Err e" "last s \<noteq> CHR ''.''"
  shows "\<exists>e. ParseAddr d = Err e" "\<exists>e. ParsePrefix d = Err e"
proof -
  have s: "trim_dot s = s" using assms(3) by (simp add: trim_dot_def)
  have sy: "domain_syntax s" "d = to_lower s"
    using assms(1) s by (auto simp: normalize_domain_iff)
  have cs: "\<forall>c \<in> set s. label_char c \<or> c = CHR ''.''" "s \<noteq> []"
    using sy domain_syntax_chars by (auto simp: domain_syntax_def)
  have cd: "\<forall>c \<in> set d. label_char c \<or> c = CHR ''.''" "d \<noteq> []"
    using sy cs domain_syntax_chars [of d] by auto
  have ps: "parse_ipv4 s = None"
    using assms(2) cs ParseAddr_domain_chars [OF cs(1)] by (auto split: option.splits)
  have "parse_ipv4 d = None"
  proof (rule ccontr)
    assume "parse_ipv4 d \<noteq> None"
    then obtain a where a: "parse_ipv4 d = Some a" by auto
    then have "\<forall>c \<in> set (to_lower s). is_dec c \<or> c = CHR ''.''"
      using parse_ipv4_chars sy by blast
    then have "d = s" using to_lower_dec sy by simp
    with a ps show False by simp
  qed
  then show "\<exists>e. ParseAddr d = Err e"
    using ParseAddr_domain_chars [OF cd(1)] cd(2) by simp
  show "\<exists>e. ParsePrefix d = Err e"
    by (rule domain_not_prefix [OF cd(1)])
qed

lemma dg_digit_val: "is_dec c \<Longrightarrow> dg (digit_val c) = c \<and> digit_val c < 10"
proof -
  assume d: "is_dec c"
  have b: "48 \<le> (of_char e :: nat) \<and> (of_char e :: nat) \<le> 57" if "is_dec e" for e
    using that by (auto simp: is_dec_def char_le_iff)
  have v: "digit_val e = of_char e - 48" if "is_dec e" for e using that by (simp add: digit_val_def)
  let ?n = "digit_val c"
  have n: "?n < 10" using b [OF d] v [OF d] by linarith
  then have p: "is_dec (dg ?n)" "digit_val (dg ?n) = ?n" using dg_props [of ?n] by auto
  then have "(of_char (dg ?n) :: nat) = of_char c"
    using b [OF d] b [OF p(1)] v [OF d] v [OF p(1)] p(2) by linarith
  then have "dg ?n = c" by (simp only: of_char_eq_iff)
  with n show ?thesis by simp
qed

lemma dec_num_val:
  assumes "s \<noteq> []" "\<forall>c \<in> set s. is_dec c" "length s = 1 \<or> hd s \<noteq> CHR ''0''"
  shows "dec (num_val 10 s) = s"
  using assms
proof (induction s rule: rev_induct)
  case (snoc c s)
  have d: "dg (digit_val c) = c" "digit_val c < 10" using snoc.prems(2) dg_digit_val by auto
  show ?case
  proof (cases "s = []")
    case True
    with d show ?thesis by (simp add: num_val_single num_str.simps)
  next
    case False
    have h: "hd s \<noteq> CHR ''0''" using snoc.prems(3) False by simp
    have i: "dec (num_val 10 s) = s" using snoc.IH False snoc.prems(2) h by simp
    have "num_val 10 s \<noteq> 0"
    proof
      assume "num_val 10 s = 0"
      with i have "s = dec 0" by simp
      then have "s = ''0''" by (simp add: num_str.simps dg_zero)
      with h show False by simp
    qed
    then show ?thesis using d i by (subst num_str.simps) (simp add: num_val_snoc)
  qed
qed simp
lemma octets_of_octets:
  assumes "length os = 4" "\<forall>n \<in> set os. n < 256"
  shows "octets (of_octets os) = os"
proof -
  have "join_base 256 os < 2 ^ 32" using join_base_bound [of 256 os] assms by simp
  then have "unat (of_octets os) = join_base 256 os" by (simp add: of_octets_def unat_of_nat)
  then show ?thesis using split_join_base [of os 256] assms by (simp add: octets_def)
qed

lemma parse_octet_string: "parse_octet s = Some n \<Longrightarrow> s = dec n \<and> n < 256"
  using dec_num_val [of s] by (auto simp: parse_octet_def split: if_splits)

lemma parse_ipv4_string:
  assumes "parse_ipv4 s = Some a"
  shows "s = addr_string a \<and> plain_addr a \<and> is4 a"
proof -
  let ?fs = "split_on CHR ''.'' s"
  obtain os where os: "parse_ipv4_fields s = Some os" "a = V4 (of_octets os)"
    using assms by (auto simp: parse_ipv4_def)
  then have f: "length ?fs = 4" "None \<notin> set (map parse_octet ?fs)" "os = map (the \<circ> parse_octet) ?fs"
    by (auto simp: parse_ipv4_fields_def Let_def split: if_splits)
  have "\<forall>l \<in> set ?fs. \<exists>n. parse_octet l = Some n" using f(2) by (metis image_eqI list.set_map not_None_eq)
  then have e: "\<forall>l \<in> set ?fs. l = dec ((the \<circ> parse_octet) l) \<and> (the \<circ> parse_octet) l < 256"
    using parse_octet_string by fastforce
  have "map dec os = ?fs" using e f(3) by (simp add: comp_def map_idI)
  then have "s = join ''.'' (map dec os)" by (simp add: join_split)
  moreover have "octets (of_octets os) = os"
    using f(1) e f(3) by (intro octets_of_octets) auto
  ultimately show ?thesis using os(2) by (simp add: string4_def plain_addr_def)
qed
lemma normalize_rule_value_text:
  assumes "normalize_rule_value s = Ok (v, k)"
  shows "\<exists>k'. normalize_rule_value v = Ok (v, k')"
proof (cases "\<exists>a. ParseAddr v = Ok a \<and> addr_string a = v")
  case True
  then show ?thesis by (auto simp: normalize_rule_value_def)
next
  case False
  show ?thesis
  proof (cases "ParseAddr s")
    case (Inr a)
    then show ?thesis
      using assms ParseAddr_Ok ParseAddr_string False by (fastforce simp: normalize_rule_value_def)
  next
    case (Inl e)
    show ?thesis
    proof (cases "ParsePrefix s")
      case (Inr p)
      have c: "canonical_prefix p" using Inr by (rule ParsePrefix_Ok)
      have v: "v = prefix_string p" using Inr Inl assms by (auto simp: normalize_rule_value_def)
      obtain e' where "ParseAddr v = Err e'"
        using ParseAddr_slash slash_in_prefix_string c v by (auto simp: canonical_prefix_def)
      moreover have "ParsePrefix v = Ok p" using ParsePrefix_string c v by simp
      ultimately show ?thesis using v by (auto simp: normalize_rule_value_def)
    next
      case (Inl e2)
      with \<open>ParseAddr s = Err e\<close> assms have d: "normalize_domain s = Ok v"
        by (auto simp: normalize_rule_value_def split: sum.splits)
      then have "domain_syntax v" by (auto simp: normalize_domain_iff)
      then have cv: "\<forall>c \<in> set v. label_char c \<or> c = CHR ''.''" using domain_syntax_chars by blast
      have "ParseAddr v \<noteq> Ok a" for a
        using False ParseAddr_domain_chars [OF cv] parse_ipv4_string by (auto split: option.splits)
      then obtain e3 where "ParseAddr v = Err e3" by (cases "ParseAddr v") auto
      moreover obtain e4 where "ParsePrefix v = Err e4" using domain_not_prefix [OF cv] by blast
      ultimately show ?thesis using normalize_domain_fixed [OF d] by (simp add: normalize_rule_value_def)
    qed
  qed
qed


section \<open>Evaluation on concrete texts\<close>

lemma split_base_numeral:
  "split_base b (numeral k) a = split_base b (pred_numeral k) (a div b) @ [a mod b]"
  by (simp add: numeral_eq_Suc)

lemmas eval_text = string4_def octets_def split_base_numeral num_str.simps dg_def digit_chars_def

lemmas eval_chars =
  char_le_iff is_dec_def is_hex_def is_lower_def is_upper_def domain_space_def label_char_def

lemma string4_1234: "string4 0x01020304 = ''1.2.3.4''"
  by (simp add: eval_text)

lemma ParseAddr_1234: "ParseAddr ''1.2.3.4'' = Ok (V4 0x01020304)"
  using ParseAddr_string [of "V4 0x01020304"]
  by (simp add: string4_1234 [symmetric] plain_addr_def)

lemma ParseAddr_1234_dot: "ParseAddr ''1.2.3.4.'' = Err ErrInvalidAddr"
  by (simp add: ParseAddr_def parse_addr_def addr_special_def parse_ipv4_def parse_ipv4_fields_def
      parse_octet_def Let_def)


text \<open>
  A dotted quad with a terminal dot is not recognised as an address: it becomes a domain
  rule whose value is the dotted quad, although that very value is an address rule. The order
  "addresses before domains" therefore does not keep every dotted quad from becoming a domain.
\<close>

theorem dotted_quad_trailing_dot:
  "normalize_rule_value ''1.2.3.4.'' = Ok (''1.2.3.4'', RuleDomainSuffix) \<and>
   normalize_rule_value ''1.2.3.4'' = Ok (''1.2.3.4'', RuleIPv4)"
proof
  have p: "ParsePrefix ''1.2.3.4.'' = Err ErrInvalidPrefix"
    by (simp add: ParsePrefix_def parse_prefix_def split_last_def)
  have d: "normalize_domain ''1.2.3.4.'' = Ok ''1.2.3.4''"
    by (simp add: normalize_domain_def trim_dot_def label_ok_def eval_chars to_lower_def lower_def
        char_of_eq_iff take_bit_eq_mod)
  show "normalize_rule_value ''1.2.3.4.'' = Ok (''1.2.3.4'', RuleDomainSuffix)"
    by (simp add: normalize_rule_value_def ParseAddr_1234_dot p d)
  show "normalize_rule_value ''1.2.3.4'' = Ok (''1.2.3.4'', RuleIPv4)"
    by (simp add: normalize_rule_value_def ParseAddr_1234 string4_1234)
qed

end
