(* ===== verification/GoText.thy ===== *)
theory GoText
  imports NetIP
begin

text \<open>
  Text functions of Go's standard library the program relies on: UTF-8 decoding
  (\<open>unicode/utf8\<close>), the JSON encoder (\<open>encoding/json\<close>, with its HTML escapes and
  field order), SHA-256 (\<open>crypto/sha256\<close>) and lower-case hex. They are executable; the
  properties of the development use none of their internals beyond being functions.
\<close>

section \<open>UTF-8\<close>

abbreviation byte :: "char \<Rightarrow> nat" where "byte \<equiv> of_char"

definition cont :: "nat \<Rightarrow> bool" where
  "cont b \<longleftrightarrow> 128 \<le> b \<and> b \<le> 191"

text \<open>
  \<open>DecodeRuneInString\<close>: the code point and the width; an invalid encoding is the
  replacement character with width 1 (\<open>None\<close> here), the empty string has width 0.
\<close>

fun decode_rune :: "string \<Rightarrow> nat option \<times> nat" where
  "decode_rune [] = (None, 0)"
| "decode_rune (c # cs) =
     (let b = byte c; at = (\<lambda>i. if i < length cs then byte (cs ! i) else 0) in
      if b < 128 then (Some b, 1)
      else if 194 \<le> b \<and> b \<le> 223 \<and> cont (at 0) then (Some ((b - 192) * 64 + (at 0 - 128)), 2)
      else if 224 \<le> b \<and> b \<le> 239 \<and> cont (at 0) \<and> cont (at 1) \<and> (b = 224 \<longrightarrow> 160 \<le> at 0) \<and> (b = 237 \<longrightarrow> at 0 \<le> 159)
        then (Some ((b - 224) * 4096 + (at 0 - 128) * 64 + (at 1 - 128)), 3)
      else if 240 \<le> b \<and> b \<le> 244 \<and> cont (at 0) \<and> cont (at 1) \<and> cont (at 2) \<and> (b = 240 \<longrightarrow> 144 \<le> at 0) \<and> (b = 244 \<longrightarrow> at 0 \<le> 143)
        then (Some ((b - 240) * 262144 + (at 0 - 128) * 4096 + (at 1 - 128) * 64 + (at 2 - 128)), 4)
      else (None, 1))"

declare decode_rune.simps(2) [simp del]

lemma decode_rune_pos: "s \<noteq> [] \<Longrightarrow> 0 < snd (decode_rune s)"
  by (cases s) (auto simp: decode_rune.simps(2) Let_def)

text \<open>The runes of a string, in the order \<open>for _, r := range s\<close> visits them.\<close>

function runes :: "string \<Rightarrow> (nat option \<times> string) list" where
  "runes s =
     (if s = [] then []
      else let (r, n) = decode_rune s in (r, take n s) # runes (drop n s))"
  by pat_completeness auto
termination
  by (relation "measure length")
    (auto, metis decode_rune_pos diff_less length_greater_0_conv snd_conv)

declare runes.simps [simp del]

lemma runes_Nil [simp]: "runes [] = []"
  by (simp add: runes.simps)

definition utf8_valid :: "string \<Rightarrow> bool" where
  "utf8_valid s \<longleftrightarrow> (\<forall>(r, _) \<in> set (runes s). r \<noteq> None)"

definition rune_count :: "string \<Rightarrow> nat" where
  "rune_count s = length (runes s)"

lemma decode_rune_ascii: "byte c < 128 \<Longrightarrow> decode_rune (c # cs) = (Some (byte c), 1)"
  by (simp add: decode_rune.simps(2) Let_def)

lemma runes_ascii_Cons: "byte c < 128 \<Longrightarrow> runes (c # cs) = (Some (byte c), [c]) # runes cs"
  by (subst runes.simps) (simp add: decode_rune_ascii)

section \<open>JSON\<close>

datatype json =
    JNull
  | JBool bool
  | JInt int
  | JStr string
  | JArr "json list"
  | JObj "(string \<times> json) list"

definition int_str :: "int \<Rightarrow> string" where
  "int_str i = (if i < 0 then ''-'' @ dec (nat (- i)) else dec (nat i))"

definition json_escape_byte :: "char \<Rightarrow> string" where
  "json_escape_byte c =
     (let b = byte c in
      if b = 92 \<or> b = 34 then [CHR 0x5C, c]
      else if b = 8 then [CHR 0x5C, CHR ''b'']
      else if b = 12 then [CHR 0x5C, CHR ''f'']
      else if b = 10 then [CHR 0x5C, CHR ''n'']
      else if b = 13 then [CHR 0x5C, CHR ''r'']
      else if b = 9 then [CHR 0x5C, CHR ''t'']
      else if b < 32 \<or> b = 60 \<or> b = 62 \<or> b = 38 then CHR 0x5C # ''u00'' @ [dg (b div 16), dg (b mod 16)]
      else [c])"

definition json_escape_rune :: "nat option \<times> string \<Rightarrow> string" where
  "json_escape_rune x =
     (case x of (r, bs) \<Rightarrow>
        if r = None then CHR 0x5C # ''ufffd''
        else if r = Some 0x2028 then CHR 0x5C # ''u2028''
        else if r = Some 0x2029 then CHR 0x5C # ''u2029''
        else if length bs = 1 then json_escape_byte (hd bs)
        else bs)"

definition json_string :: "string \<Rightarrow> string" where
  "json_string s = [CHR 0x22] @ concat (map json_escape_rune (runes s)) @ [CHR 0x22]"

fun json_encode :: "json \<Rightarrow> string" where
  "json_encode JNull = ''null''"
| "json_encode (JBool b) = (if b then ''true'' else ''false'')"
| "json_encode (JInt i) = int_str i"
| "json_encode (JStr s) = json_string s"
| "json_encode (JArr xs) = ''['' @ join '','' (map json_encode xs) @ '']''"
| "json_encode (JObj fs) =
     ''{'' @ join '','' (map (\<lambda>(k, v). json_string k @ '':'' @ json_encode v) fs) @ ''}''"

text \<open>A nil slice is encoded as null, an empty non-nil slice as an empty array.\<close>

definition jstrs :: "string list \<Rightarrow> json" where
  "jstrs xs = JArr (map JStr xs)"

definition jnil :: "json list \<Rightarrow> json" where
  "jnil xs = (if xs = [] then JNull else JArr xs)"

section \<open>SHA-256\<close>

definition sha_k :: "32 word list" where
  "sha_k = [1116352408, 1899447441, 3049323471, 3921009573, 961987163, 1508970993, 2453635748, 2870763221,
    3624381080, 310598401, 607225278, 1426881987, 1925078388, 2162078206, 2614888103, 3248222580,
    3835390401, 4022224774, 264347078, 604807628, 770255983, 1249150122, 1555081692, 1996064986,
    2554220882, 2821834349, 2952996808, 3210313671, 3336571891, 3584528711, 113926993, 338241895,
    666307205, 773529912, 1294757372, 1396182291, 1695183700, 1986661051, 2177026350, 2456956037,
    2730485921, 2820302411, 3259730800, 3345764771, 3516065817, 3600352804, 4094571909, 275423344,
    430227734, 506948616, 659060556, 883997877, 958139571, 1322822218, 1537002063, 1747873779,
    1955562222, 2024104815, 2227730452, 2361852424, 2428436474, 2756734187, 3204031479, 3329325298]"

definition sha_init :: "32 word list" where
  "sha_init = [1779033703, 3144134277, 1013904242, 2773480762, 1359893119, 2600822924, 528734635, 1541459225]"

definition rotr :: "nat \<Rightarrow> 32 word \<Rightarrow> 32 word" where
  "rotr n x = (drop_bit n x) OR (push_bit (32 - n) x)"

definition sha_pad :: "nat list \<Rightarrow> nat list" where
  "sha_pad bs =
     (let n = length bs; z = (119 - n mod 64) mod 64 in
      bs @ [128] @ replicate z 0 @ split_base 256 8 (8 * n))"

fun sha_words :: "nat list \<Rightarrow> 32 word list" where
  "sha_words (a # b # c # d # r) = of_octets [a, b, c, d] # sha_words r"
| "sha_words _ = []"

definition sha_next :: "32 word list \<Rightarrow> 32 word" where
  "sha_next w =
     (let n = length w; w15 = w ! (n - 15); w2 = w ! (n - 2);
          s0 = rotr 7 w15 XOR rotr 18 w15 XOR drop_bit 3 w15;
          s1 = rotr 17 w2 XOR rotr 19 w2 XOR drop_bit 10 w2
      in w ! (n - 16) + s0 + w ! (n - 7) + s1)"

fun sha_schedule :: "nat \<Rightarrow> 32 word list \<Rightarrow> 32 word list" where
  "sha_schedule 0 w = w"
| "sha_schedule (Suc k) w = sha_schedule k (w @ [sha_next w])"

fun sha_round :: "32 word list \<Rightarrow> 32 word \<times> 32 word \<Rightarrow> 32 word list" where
  "sha_round [a, b, c, d, e, f, g, h] (k, w) =
     (let s1 = rotr 6 e XOR rotr 11 e XOR rotr 25 e; ch = (e AND f) XOR (NOT e AND g);
          t1 = h + s1 + ch + k + w;
          s0 = rotr 2 a XOR rotr 13 a XOR rotr 22 a; maj = (a AND b) XOR (a AND c) XOR (b AND c);
          t2 = s0 + maj
      in [t1 + t2, a, b, c, d + t1, e, f, g])"
| "sha_round st _ = st"

definition sha_block :: "32 word list \<Rightarrow> 32 word list \<Rightarrow> 32 word list" where
  "sha_block st w = map2 (+) st (foldl sha_round st (zip sha_k (sha_schedule 48 w)))"

fun sha_chunks :: "nat \<Rightarrow> 32 word list \<Rightarrow> 32 word list list" where
  "sha_chunks 0 ws = []"
| "sha_chunks (Suc k) ws = take 16 ws # sha_chunks k (drop 16 ws)"

definition sha256 :: "nat list \<Rightarrow> nat list" where
  "sha256 bs =
     (let ws = sha_words (sha_pad bs)
      in concat (map octets (foldl sha_block sha_init (sha_chunks (length ws div 16) ws))))"

definition hex_encode :: "nat list \<Rightarrow> string" where
  "hex_encode bs = concat (map (\<lambda>b. [dg (b div 16), dg (b mod 16)]) bs)"

definition sha256_hex :: "string \<Rightarrow> string" where
  "sha256_hex s = hex_encode (sha256 (map byte s))"

end
