(* ===== verification/Domain.thy ===== *)
theory Domain
  imports ResourceText GoText
begin

text \<open>
  \<open>internal/domain\<close>: catalog material (components, seeds, list definitions), observations
  with their life cycle, routing rules and plans, target definitions and their revision.
  A moment is an \<open>int\<close>, the nanoseconds since Go's zero time, so \<open>IsZero\<close> is \<open>= 0\<close> and
  \<open>UTC\<close>, which changes only the presentation, is the identity. A pointer to a time is an
  option. Nil and empty slices are both the empty list; the JSON layouts write out where the
  two differ.
\<close>

type_synonym time = int

section \<open>\<open>catalog.go\<close>\<close>

type_synonym SourceClass = string

abbreviation SourceManual :: SourceClass where "SourceManual \<equiv> ''manual''"
abbreviation SourceOfficial :: SourceClass where "SourceOfficial \<equiv> ''official''"
abbreviation SourceObserved :: SourceClass where "SourceObserved \<equiv> ''observed''"
abbreviation SourceCommunity :: SourceClass where "SourceCommunity \<equiv> ''community''"
abbreviation SourceMetadata :: SourceClass where "SourceMetadata \<equiv> ''metadata''"

record component_def =
  comp_id :: string
  comp_required :: bool

record seed =
  seed_kind :: RuleKind
  seed_value :: string
  seed_component :: string
  seed_source :: string
  seed_class :: SourceClass

definition seed_normalize :: "seed \<Rightarrow> (domain_error, seed) result" where
  "seed_normalize s0 =
     (let s = (if seed_class s0 = [] then s0\<lparr>seed_class := SourceManual\<rparr> else s0) in
      case seed_kind s of
        RuleOther _ \<Rightarrow> Err ErrUnsupportedSeedKind
      | RuleDomainExact \<Rightarrow>
          (case normalize_domain (seed_value s) of Inl e \<Rightarrow> Err e | Inr d \<Rightarrow> Ok (s\<lparr>seed_value := d\<rparr>))
      | RuleDomainSuffix \<Rightarrow>
          (case normalize_domain (seed_value s) of Inl e \<Rightarrow> Err e | Inr d \<Rightarrow> Ok (s\<lparr>seed_value := d\<rparr>))
      | k \<Rightarrow>
          if kind_is_ip k then
            (case ParseAddr (seed_value s) of
               Inl e \<Rightarrow> Err e
             | Inr a \<Rightarrow> if (k = RuleIPv4) \<noteq> is4 a then Err ErrInvalidAddr
                        else Ok (s\<lparr>seed_value := addr_string a\<rparr>))
          else
            (case ParsePrefix (seed_value s) of
               Inl e \<Rightarrow> Err e
             | Inr p \<Rightarrow> if (k = RulePrefix4) \<noteq> is4 (pfx_addr p) then Err ErrInvalidPrefix
                        else Ok (s\<lparr>seed_value := prefix_string p\<rparr>)))"

datatype SourceType = SourceDNS | SourceHTTP | SourceTypeOther string

record source_def =
  src_id :: string
  src_type :: SourceType
  src_component :: string
  src_names :: "string list"
  src_url :: string
  src_format :: string
  src_class :: SourceClass
  src_impl_revision :: string
  src_revision :: string

record list_def =
  ld_id :: string
  ld_title :: string
  ld_components :: "component_def list"
  ld_seeds :: "seed list"
  ld_dns_names :: "string list"
  ld_sources :: "source_def list"
  ld_catalog_revision :: string
  ld_excluded_values :: "string list"

record category_def =
  cat_id :: string
  cat_title :: string
  cat_lists :: "string list"

definition KnownComponents :: "string list" where
  "KnownComponents =
     [''core'', ''auth'', ''media'', ''voice'', ''downloads'', ''telemetry'', ''advertising'', ''third-party'']"

definition KnownComponent :: "string \<Rightarrow> bool" where
  "KnownComponent v \<longleftrightarrow> v \<in> set KnownComponents"

definition RequiredComponent :: "string \<Rightarrow> bool" where
  "RequiredComponent v \<longleftrightarrow> v \<in> {''core'', ''auth'', ''media'', ''voice'', ''downloads''}"

section \<open>\<open>observation.go\<close>\<close>

datatype Validity = ValidityUnset | ValidityValid | ValidityStale | ValidityArchived | ValidityInvalid

fun validity_str :: "Validity \<Rightarrow> string" where
  "validity_str ValidityUnset = []"
| "validity_str ValidityValid = ''valid''"
| "validity_str ValidityStale = ''stale''"
| "validity_str ValidityArchived = ''archived''"
| "validity_str ValidityInvalid = ''invalid''"

datatype SharedEvidence = EvidenceNone | EvidenceTrusted

fun evidence_str :: "SharedEvidence \<Rightarrow> string" where
  "evidence_str EvidenceNone = []"
| "evidence_str EvidenceTrusted = ''trusted''"

record sighting =
  si_id :: string
  si_list :: string
  si_component :: string
  si_resource :: resource
  si_source :: string
  si_class :: SourceClass
  si_revision :: string
  si_first :: time
  si_last :: time
  si_until :: time
  si_ttl :: int
  si_ttl_known :: bool
  si_count :: int
  si_metadata :: string
  si_validity :: Validity
  si_evidence :: SharedEvidence

definition is_fresh :: "sighting \<Rightarrow> time \<Rightarrow> bool" where
  "is_fresh s cutoff \<longleftrightarrow>
     resource_valid (si_resource s) \<and> si_validity s \<noteq> ValidityInvalid \<and>
     si_validity s \<noteq> ValidityArchived \<and> cutoff < si_until s"

definition nul :: string where
  "nul = [CHR 0x00]"

definition sighting_fingerprint :: "sighting \<Rightarrow> string" where
  "sighting_fingerprint s =
     sha256_hex (join nul
       [si_list s, si_component s, resource_kind_str (res_kind (si_resource s)),
        resource_value (si_resource s), si_class s, si_source s, si_revision s,
        evidence_str (si_evidence s)])"

datatype RelationType =
  RelationCNAMETo | RelationLoadedBy | RelationRedirectsTo | RelationObservedInSession
| RelationOther string

fun relation_str :: "RelationType \<Rightarrow> string" where
  "relation_str RelationCNAMETo = ''cname_to''"
| "relation_str RelationLoadedBy = ''loaded_by''"
| "relation_str RelationRedirectsTo = ''redirects_to''"
| "relation_str RelationObservedInSession = ''observed_in_session''"
| "relation_str (RelationOther s) = s"

fun KnownRelationType :: "RelationType \<Rightarrow> bool" where
  "KnownRelationType (RelationOther _) = False"
| "KnownRelationType _ = True"

record relation =
  re_source :: resource
  re_type :: RelationType
  re_target :: resource
  re_list :: string
  re_component :: string
  re_first :: time
  re_last :: time
  re_until :: time
  re_source_id :: string
  re_revision :: string
  re_validity :: Validity

definition relation_is_fresh :: "relation \<Rightarrow> time \<Rightarrow> bool" where
  "relation_is_fresh r cutoff \<longleftrightarrow>
     resource_valid (re_source r) \<and> resource_valid (re_target r) \<and> re_validity r \<noteq> ValidityInvalid \<and>
     re_validity r \<noteq> ValidityArchived \<and> cutoff < re_until r"

definition relation_fingerprint :: "relation \<Rightarrow> string" where
  "relation_fingerprint r =
     sha256_hex (join nul
       [resource_kind_str (res_kind (re_source r)), resource_value (re_source r), relation_str (re_type r),
        resource_kind_str (res_kind (re_target r)), resource_value (re_target r), re_list r,
        re_component r, re_source_id r, re_revision r])"

definition StaleRetention :: int where
  "StaleRetention = 90 * 24 * 3600 * 1000000000"

definition LifecycleAt :: "time \<Rightarrow> time \<Rightarrow> bool \<Rightarrow> Validity" where
  "LifecycleAt valid_until cutoff invalid =
     (if invalid \<or> valid_until = 0 then ValidityInvalid
      else if cutoff < valid_until then ValidityValid
      else if \<not> cutoff < valid_until + StaleRetention then ValidityArchived
      else ValidityStale)"

section \<open>\<open>plan.go\<close>\<close>

abbreviation ActionRoute :: string where "ActionRoute \<equiv> ''route''"

record route_rule =
  rr_kind :: RuleKind
  rr_domain :: string
  rr_addr :: addr
  rr_prefix :: prefix
  rr_action :: string
  rr_list :: string
  rr_component :: string
  rr_expires :: "time option"
  rr_class :: SourceClass
  rr_labels :: "string list"
  rr_reasons :: "string list"
  rr_refs :: "string list"

definition mk_rule ::
  "RuleKind \<Rightarrow> string \<Rightarrow> addr \<Rightarrow> prefix \<Rightarrow> string \<Rightarrow> string \<Rightarrow> SourceClass \<Rightarrow> string list \<Rightarrow> string list \<Rightarrow> route_rule" where
  "mk_rule k d a p l c cls reasons refs =
     \<lparr>rr_kind = k, rr_domain = d, rr_addr = a, rr_prefix = p, rr_action = ActionRoute, rr_list = l,
      rr_component = c, rr_expires = None, rr_class = cls, rr_labels = [], rr_reasons = reasons,
      rr_refs = refs\<rparr>"

definition empty_rule :: route_rule where
  "empty_rule =
     \<lparr>rr_kind = RuleOther [], rr_domain = [], rr_addr = NoAddr, rr_prefix = no_prefix, rr_action = [],
      rr_list = [], rr_component = [], rr_expires = None, rr_class = [], rr_labels = [],
      rr_reasons = [], rr_refs = []\<rparr>"

definition new_domain_rule ::
  "RuleKind \<Rightarrow> string \<Rightarrow> string \<Rightarrow> string \<Rightarrow> SourceClass \<Rightarrow> string list \<Rightarrow> string list
   \<Rightarrow> (domain_error, route_rule) result" where
  "new_domain_rule k v l c cls reasons refs =
     (if k \<noteq> RuleDomainExact \<and> k \<noteq> RuleDomainSuffix then Err ErrInvalidRuleKind
      else case normalize_domain v of
             Inl e \<Rightarrow> Err e
           | Inr d \<Rightarrow> Ok (mk_rule k d NoAddr no_prefix l c cls reasons refs))"

definition new_addr_rule ::
  "addr \<Rightarrow> string \<Rightarrow> string \<Rightarrow> SourceClass \<Rightarrow> string list \<Rightarrow> string list
   \<Rightarrow> (domain_error, route_rule) result" where
  "new_addr_rule a0 l c cls reasons refs =
     (if \<not> addr_valid a0 then Err ErrInvalidAddr
      else let a = unmap a0 in
        Ok (mk_rule (if is4 a then RuleIPv4 else RuleIPv6) [] a no_prefix l c cls reasons refs))"

definition new_prefix_rule ::
  "prefix \<Rightarrow> string \<Rightarrow> string \<Rightarrow> SourceClass \<Rightarrow> string list \<Rightarrow> string list
   \<Rightarrow> (domain_error, route_rule) result" where
  "new_prefix_rule p0 l c cls reasons refs =
     (case unmap_prefix p0 of
        Inl e \<Rightarrow> Err e
      | Inr q \<Rightarrow> let p = masked q in
          Ok (mk_rule (if is4 (pfx_addr p) then RulePrefix4 else RulePrefix6) [] NoAddr p l c cls reasons refs))"

fun rule_value :: "route_rule \<Rightarrow> string" where
  "rule_value r =
     (case rr_kind r of
        RuleDomainExact \<Rightarrow> normalize_domain_value (rr_domain r)
      | RuleDomainSuffix \<Rightarrow> normalize_domain_value (rr_domain r)
      | RuleIPv4 \<Rightarrow> addr_string (unmap (rr_addr r))
      | RuleIPv6 \<Rightarrow> addr_string (unmap (rr_addr r))
      | RulePrefix4 \<Rightarrow> prefix_string (masked (rr_prefix r))
      | RulePrefix6 \<Rightarrow> prefix_string (masked (rr_prefix r))
      | RuleOther _ \<Rightarrow> [])"

declare rule_value.simps [simp del]

definition candidate_key :: "route_rule \<Rightarrow> string" where
  "candidate_key r =
     kind_str (rr_kind r) @ nul @ rule_value r @ nul @ rr_list r @ nul @ rr_component r"

definition rule_valid :: "route_rule \<Rightarrow> bool" where
  "rule_valid r =
     (if rr_action r \<noteq> ActionRoute \<or> \<not> is_ok (validate_slug (rr_list r)) \<or> \<not> is_ok (validate_slug (rr_component r))
      then False
      else case rr_kind r of
        RuleDomainExact \<Rightarrow> normalize_domain (rr_domain r) = Ok (rr_domain r)
      | RuleDomainSuffix \<Rightarrow> normalize_domain (rr_domain r) = Ok (rr_domain r)
      | RuleIPv4 \<Rightarrow> addr_valid (rr_addr r) \<and> \<not> is4in6 (rr_addr r) \<and> is4 (rr_addr r)
      | RuleIPv6 \<Rightarrow> addr_valid (rr_addr r) \<and> \<not> is4in6 (rr_addr r) \<and> is6 (rr_addr r)
      | RulePrefix4 \<Rightarrow> prefix_valid (rr_prefix r) \<and> \<not> is4in6 (pfx_addr (rr_prefix r)) \<and>
          is4 (pfx_addr (rr_prefix r)) \<and> rr_prefix r = masked (rr_prefix r)
      | RulePrefix6 \<Rightarrow> prefix_valid (rr_prefix r) \<and> \<not> is4in6 (pfx_addr (rr_prefix r)) \<and>
          is6 (pfx_addr (rr_prefix r)) \<and> rr_prefix r = masked (rr_prefix r)
      | RuleOther _ \<Rightarrow> False)"

record excluded =
  ex_candidate :: route_rule
  ex_outcome :: string
  ex_reasons :: "string list"
  ex_refs :: "string list"

record coverage =
  cov_list :: string
  cov_component :: string
  cov_complete :: bool
  cov_count :: nat

abbreviation RoutingPlanInterfaceVersion :: string where
  "RoutingPlanInterfaceVersion \<equiv> ''m0-spike-v1''"

record routing_plan =
  pl_interface :: string
  pl_target :: string
  pl_format :: string
  pl_lists :: "string list"
  pl_rules :: "route_rule list"
  pl_excluded :: "excluded list"
  pl_warnings :: "string list"
  pl_coverage :: "coverage list"
  pl_relations :: "relation list"
  pl_sightings :: "sighting list"
  pl_policy :: string
  pl_revision :: string
  pl_cutoff :: time
  pl_hash :: string

definition StableStrings :: "string list \<Rightarrow> string list" where
  "StableStrings values = compact (sort values)"

lemma StableStrings_sort_unique: "StableStrings = sort_unique"
  by (simp add: fun_eq_iff StableStrings_def sort_unique_def)

section \<open>\<open>target.go\<close> and \<open>target_revision.go\<close>\<close>

record target_constraints =
  tc_domain_exact :: bool
  tc_domain_suffix :: bool
  tc_dynamic_dns :: bool
  tc_ipv4 :: bool
  tc_ipv6 :: bool
  tc_prefixes :: bool
  tc_max_rules :: int
  tc_max_artifact :: int
  tc_max_entries :: int
  tc_max_lists :: int

definition takes_names_and_addresses :: "target_constraints \<Rightarrow> bool" where
  "takes_names_and_addresses c \<longleftrightarrow>
     (tc_domain_exact c \<or> tc_domain_suffix c) \<and> (tc_ipv4 c \<or> tc_ipv6 c \<or> tc_prefixes c)"

record renderer_descriptor =
  rd_id :: string
  rd_version :: string
  rd_content_type :: string
  rd_extension :: string

definition descriptor_valid :: "renderer_descriptor \<Rightarrow> bool" where
  "descriptor_valid d \<longleftrightarrow>
     \<not> (\<not> is_ok (validate_slug (rd_id d)) \<or> \<not> is_ok (validate_slug (rd_version d)) \<or>
        rd_content_type d = [] \<or> rd_extension d = []) \<and>
     (\<forall>c \<in> set (rd_extension d). is_lower c \<or> is_dec c)"

record target_def =
  td_id :: string
  td_format :: string
  td_title :: string
  td_kind :: string
  td_renderer :: string
  td_constraints :: target_constraints
  td_options :: "string list"
  td_hint :: string
  td_steps :: "string list"
  td_title_en :: string
  td_hint_en :: string
  td_steps_en :: "string list"

definition RawJSONTarget :: target_def where
  "RawJSONTarget =
     \<lparr>td_id = ''raw-json'', td_format = ''raw-v1'', td_title = [], td_kind = [], td_renderer = ''raw-json'',
      td_constraints = \<lparr>tc_domain_exact = True, tc_domain_suffix = True, tc_dynamic_dns = False,
        tc_ipv4 = True, tc_ipv6 = True, tc_prefixes = True, tc_max_rules = 0,
        tc_max_artifact = 4 * 2 ^ 20, tc_max_entries = 0, tc_max_lists = 0\<rparr>,
      td_options = [], td_hint = [], td_steps = [], td_title_en = [], td_hint_en = [], td_steps_en = []\<rparr>"

text \<open>\<open>omitempty\<close>: a false boolean, a zero number and an empty list leave no field.\<close>

definition omit_false :: "string \<Rightarrow> bool \<Rightarrow> (string \<times> json) list" where
  "omit_false k b = (if b then [(k, JBool True)] else [])"

definition omit_zero :: "string \<Rightarrow> int \<Rightarrow> (string \<times> json) list" where
  "omit_zero k i = (if i = 0 then [] else [(k, JInt i)])"

definition constraints_json :: "target_constraints \<Rightarrow> json" where
  "constraints_json c = JObj
     (omit_false ''supports_domain_exact'' (tc_domain_exact c) @
      omit_false ''supports_domain_suffix'' (tc_domain_suffix c) @
      omit_false ''supports_dynamic_dns_set'' (tc_dynamic_dns c) @
      omit_false ''supports_ipv4'' (tc_ipv4 c) @
      omit_false ''supports_ipv6'' (tc_ipv6 c) @
      omit_false ''supports_prefixes'' (tc_prefixes c) @
      omit_zero ''max_rules'' (tc_max_rules c) @
      omit_zero ''max_artifact_size'' (tc_max_artifact c) @
      omit_zero ''max_entries_per_list'' (tc_max_entries c) @
      omit_zero ''max_lists'' (tc_max_lists c))"

definition target_fields_json :: "target_def \<Rightarrow> json" where
  "target_fields_json t = JObj
     ([(''format_key'', JStr (td_format t)), (''renderer_id'', JStr (td_renderer t))] @
      (if td_options t = [] then [] else [(''renderer_options'', jstrs (td_options t))]) @
      [(''constraints'', constraints_json (td_constraints t))])"

definition TargetRevision :: "target_def \<Rightarrow> string" where
  "TargetRevision t = sha256_hex (json_encode (target_fields_json t))"

end
