(* ===== verification/NetPolicy.thy ===== *)
theory NetPolicy
  imports ResourceText
begin

text \<open>
  \<open>internal/netpolicy\<close>: which addresses may be contacted, which may appear in a routing plan
  and which are plausible local devices. The list of excluded ranges is the code's, in its
  order; \<open>testBuildDevice\<close> is the release build's, which accepts nothing. The main fact is
  that the prefix test decides exactly whether every covered address is routable.
\<close>

definition excludedDestinations :: "prefix list" where
  "excludedDestinations =
    [Prefix (V4 0x00000000) 8,
     Prefix (V4 0x0A000000) 8,
     Prefix (V4 0x64400000) 10,
     Prefix (V4 0x7F000000) 8,
     Prefix (V4 0xA9FE0000) 16,
     Prefix (V4 0xAC100000) 12,
     Prefix (V4 0xC0000000) 24,
     Prefix (V4 0xC0A80000) 16,
     Prefix (V4 0xE0000000) 4,
     Prefix (V4 0xF0000000) 4,
     Prefix (V6 0x00000000000000000000000000000000 []) 128,
     Prefix (V6 0x00000000000000000000000000000001 []) 128,
     Prefix (V6 0x0064FF9B000000000000000000000000 []) 32,
     Prefix (V6 0x01000000000000000000000000000000 []) 64,
     Prefix (V6 0x01000000000000010000000000000000 []) 64,
     Prefix (V6 0x20010000000000000000000000000000 []) 32,
     Prefix (V6 0x20010010000000000000000000000000 []) 28,
     Prefix (V6 0x20020000000000000000000000000000 []) 16,
     Prefix (V6 0x5F000000000000000000000000000000 []) 16,
     Prefix (V6 0xFC000000000000000000000000000000 []) 7,
     Prefix (V6 0xFE800000000000000000000000000000 []) 10,
     Prefix (V6 0xFEC00000000000000000000000000000 []) 10,
     Prefix (V6 0xFF000000000000000000000000000000 []) 8]"

definition benchmarking :: "prefix list" where
  "benchmarking =
    [Prefix (V4 0xC6120000) 15,
     Prefix (V6 0x20010002000000000000000000000000 []) 48]"

definition RoutableDestination :: "addr \<Rightarrow> bool" where
  "RoutableDestination address =
     (let a = unmap (without_zone address) in
      if \<not> addr_valid a then False
      else \<not> (\<exists>p \<in> set excludedDestinations. prefix_contains p a))"

definition PublicUnicast :: "addr \<Rightarrow> bool" where
  "PublicUnicast address =
     (if \<not> RoutableDestination address then False
      else let a = unmap (without_zone address) in
           \<not> (\<exists>p \<in> set benchmarking. prefix_contains p a))"

definition RoutablePrefix :: "prefix \<Rightarrow> bool" where
  "RoutablePrefix p =
     (if \<not> prefix_valid p then False
      else if is4in6 (pfx_addr p) \<and> pfx_bits p < 96 then False
      else let q = (if is4in6 (pfx_addr p) then prefix_from (unmap (pfx_addr p)) (pfx_bits p - 96) else p)
           in \<not> (\<exists>e \<in> set excludedDestinations. prefix_overlaps q e))"

definition AllPublicUnicast :: "addr list \<Rightarrow> bool" where
  "AllPublicUnicast candidates \<longleftrightarrow> candidates \<noteq> [] \<and> (\<forall>c \<in> set candidates. PublicUnicast c)"

definition ends_with :: "string \<Rightarrow> string \<Rightarrow> bool" where
  "ends_with suf s \<longleftrightarrow> length suf < length s \<and> drop (length s - length suf) s = suf"

definition LocalHostname :: "string \<Rightarrow> bool" where
  "LocalHostname host \<longleftrightarrow>
     host \<in> {[], ''localhost'', ''localhost.localdomain'', ''ip6-localhost'', ''ip6-loopback''} \<or>
     (\<exists>suf \<in> {''.localhost'', ''.local'', ''.localdomain'', ''.internal'', ''.home.arpa''}. ends_with suf host)"

section \<open>Device destinations\<close>

text \<open>The \<open>netip\<close> predicates \<open>device.go\<close> asks, on an unmapped address.\<close>

definition octet :: "nat \<Rightarrow> 32 word \<Rightarrow> nat" where
  "octet i x = octets x ! i"

definition hextet0 :: "128 word \<Rightarrow> nat" where
  "hextet0 x = unat (drop_bit 112 x)"

fun is_unspecified :: "addr \<Rightarrow> bool" where
  "is_unspecified (V4 x) = (x = 0)"
| "is_unspecified (V6 x z) = (x = 0 \<and> z = [])"
| "is_unspecified NoAddr = False"

fun is_loopback :: "addr \<Rightarrow> bool" where
  "is_loopback (V4 x) = (octet 0 x = 127)"
| "is_loopback (V6 x z) = (x = 1)"
| "is_loopback NoAddr = False"

fun is_multicast :: "addr \<Rightarrow> bool" where
  "is_multicast (V4 x) = (octet 0 x div 16 = 14)"
| "is_multicast (V6 x z) = (hextet0 x div 256 = 255)"
| "is_multicast NoAddr = False"

fun is_link_local_multicast :: "addr \<Rightarrow> bool" where
  "is_link_local_multicast (V4 x) = (octet 0 x = 224 \<and> octet 1 x = 0 \<and> octet 2 x = 0)"
| "is_link_local_multicast (V6 x z) = (hextet0 x div 256 = 255 \<and> hextet0 x mod 16 = 2)"
| "is_link_local_multicast NoAddr = False"

fun is_interface_local_multicast :: "addr \<Rightarrow> bool" where
  "is_interface_local_multicast (V6 x z) = (hextet0 x div 256 = 255 \<and> hextet0 x mod 16 = 1)"
| "is_interface_local_multicast _ = False"

fun is_private6 :: "addr \<Rightarrow> bool" where
  "is_private6 (V6 x z) = (hextet0 x div 512 = 126)"
| "is_private6 _ = False"

fun is_link_local_unicast6 :: "addr \<Rightarrow> bool" where
  "is_link_local_unicast6 (V6 x z) = (hextet0 x div 64 = 1018)"
| "is_link_local_unicast6 _ = False"

definition testBuildDevice :: "addr \<Rightarrow> bool" where
  "testBuildDevice a = False"

definition DeviceDestination :: "addr \<Rightarrow> bool" where
  "DeviceDestination address =
     (let a = unmap address in
      if \<not> addr_valid a \<or> is_unspecified a \<or> is_loopback a \<or> is_multicast a \<or>
         is_link_local_multicast a \<or> is_interface_local_multicast a then False
      else case a of
        V4 x \<Rightarrow>
          if octet 0 x = 10 then True
          else if octet 0 x = 172 \<and> 16 \<le> octet 1 x \<and> octet 1 x \<le> 31 then True
          else if octet 0 x = 192 \<and> octet 1 x = 168 then True
          else if octet 0 x = 169 \<and> octet 1 x = 254 then octet 2 x \<noteq> 169 \<or> octet 3 x \<noteq> 254
          else testBuildDevice a
      | _ \<Rightarrow> is_private6 a \<or> is_link_local_unicast6 a)"

definition AllDeviceDestinations :: "addr list \<Rightarrow> bool" where
  "AllDeviceDestinations candidates \<longleftrightarrow> candidates \<noteq> [] \<and> (\<forall>c \<in> set candidates. DeviceDestination c)"

section \<open>The prefix test is exact\<close>

lemma excluded_plain: "p \<in> set excludedDestinations \<Longrightarrow> plain_prefix p"
  by (auto simp: excludedDestinations_def plain_prefix_def plain_addr_def drop_bit_eq_div)

lemma plain_contains_plain:
  assumes "plain_prefix p" "prefix_contains p a" "\<not> is4in6 a"
  shows "plain_addr a"
  using assms by (cases a; cases "pfx_addr p") (auto simp: prefix_contains_def plain_addr_def)

lemma unmap_prefix_of:
  "prefix_valid p \<Longrightarrow> \<not> (is4in6 (pfx_addr p) \<and> pfx_bits p < 96) \<Longrightarrow>
   unmap_prefix p = Ok (if is4in6 (pfx_addr p) then prefix_from (unmap (pfx_addr p)) (pfx_bits p - 96) else p)"
  by (auto simp: unmap_prefix_def)

text \<open>
  The values a \<open>netip.Prefix\<close> can have: no zone and a width in range, or invalid.
\<close>

definition prefix_wf :: "prefix \<Rightarrow> bool" where
  "prefix_wf p \<longleftrightarrow> addr_zone (pfx_addr p) = [] \<and>
     (pfx_bits p = -1 \<or> (addr_valid (pfx_addr p) \<and> 0 \<le> pfx_bits p \<and> pfx_bits p \<le> int (bit_len (pfx_addr p))))"

lemma unmap_prefix_plain:
  assumes "prefix_wf p" "unmap_prefix p = Ok q"
  shows "plain_prefix q"
proof (cases "is4in6 (pfx_addr p)")
  case True
  then obtain x z where x: "pfx_addr p = V6 x z" by (cases "pfx_addr p") auto
  with assms True show ?thesis
    by (auto simp: unmap_prefix_def prefix_wf_def prefix_valid_def plain_prefix_def plain_addr_def
        prefix_from_def split: if_splits)
next
  case False
  with assms show ?thesis
    by (auto simp: unmap_prefix_def prefix_wf_def prefix_valid_def plain_prefix_def plain_addr_def
        split: if_splits)
qed

lemma plain_prefix_wf: "plain_prefix p \<Longrightarrow> prefix_wf p"
  by (auto simp: plain_prefix_def prefix_wf_def plain_addr_def)

lemma unmap_prefix_plain_id: "plain_prefix p \<Longrightarrow> unmap_prefix p = Ok p"
  by (auto simp: unmap_prefix_def plain_prefix_def plain_addr_def prefix_valid_def)

lemma RoutablePrefix_unmap:
  "RoutablePrefix p \<longleftrightarrow>
     (\<exists>q. unmap_prefix p = Ok q \<and> \<not> (\<exists>e \<in> set excludedDestinations. prefix_overlaps q e))"
  by (auto simp: RoutablePrefix_def unmap_prefix_def Let_def)

lemma mapped_high: "drop_bit 32 x = 0xffff \<Longrightarrow> 32 \<le> n \<Longrightarrow> drop_bit n x = drop_bit (n - 32) (0xffff :: 128 word)"
proof -
  assume x: "drop_bit 32 x = 0xffff" and n: "32 \<le> n"
  have "drop_bit (n - 32) (drop_bit 32 x) = drop_bit n x"
    using n by (simp add: drop_bit_drop_bit)
  with x show ?thesis by simp
qed

lemma excluded_not_mapped:
  assumes "e \<in> set excludedDestinations" "prefix_contains e a"
  shows "\<not> is4in6 a"
proof
  assume "is4in6 a"
  then obtain x z where a: "a = V6 x z" and x: "drop_bit 32 x = 0xffff" by (cases a) auto
  have h: "drop_bit n x = drop_bit (n - 32) (0xffff :: 128 word)" if "32 \<le> n" for n
    using x that by (rule mapped_high)
  have z: "drop_bit 64 x = 0" "drop_bit 96 x = 0" "drop_bit 100 x = 0" "drop_bit 112 x = 0"
    "drop_bit 121 x = 0" "drop_bit 118 x = 0" "drop_bit 120 x = 0"
    by (simp_all add: h)
  from assms a x z show False
    by (auto simp: excludedDestinations_def prefix_contains_def)
qed

lemma routable_prefix_iff:
  assumes "prefix_wf p"
  shows "RoutablePrefix p \<longleftrightarrow>
    (\<exists>q. unmap_prefix p = Ok q \<and>
       (\<forall>a. prefix_contains q a \<and> \<not> is4in6 a \<longrightarrow> RoutableDestination a))"
proof -
  have one: "(\<exists>e \<in> set excludedDestinations. prefix_overlaps q e) \<longleftrightarrow>
      (\<exists>a. prefix_contains q a \<and> \<not> is4in6 a \<and> \<not> RoutableDestination a)"
    if pl: "plain_prefix q" for q
  proof
    assume "\<exists>e \<in> set excludedDestinations. prefix_overlaps q e"
    then obtain e where e: "e \<in> set excludedDestinations" and o: "prefix_overlaps q e" by blast
    obtain a where a: "prefix_contains q a" "prefix_contains e a"
      using prefix_overlaps_iff [OF pl excluded_plain [OF e]] o by blast
    have n: "\<not> is4in6 a" using e a(2) by (rule excluded_not_mapped)
    moreover have "without_zone a = a"
      using a(1) by (simp add: prefix_contains_def without_zone_id)
    ultimately have "\<not> RoutableDestination a"
      using a e by (auto simp: RoutableDestination_def Let_def)
    with a n show "\<exists>a. prefix_contains q a \<and> \<not> is4in6 a \<and> \<not> RoutableDestination a"
      by blast
  next
    assume "\<exists>a. prefix_contains q a \<and> \<not> is4in6 a \<and> \<not> RoutableDestination a"
    then obtain a where a: "prefix_contains q a" "\<not> is4in6 a" "\<not> RoutableDestination a" by blast
    have "without_zone a = a" "addr_valid a"
      using a(1) plain_contains_plain [OF pl a(1,2)] by (auto simp: plain_addr_def without_zone_id)
    with a obtain e where "e \<in> set excludedDestinations" "prefix_contains e a"
      by (auto simp: RoutableDestination_def Let_def)
    with a prefix_overlaps_iff [OF pl excluded_plain]
    show "\<exists>e \<in> set excludedDestinations. prefix_overlaps q e" by blast
  qed
  show ?thesis
    unfolding RoutablePrefix_unmap using one unmap_prefix_plain [OF assms] by blast
qed



text \<open>
  What the exact statement leaves out is real: the network \<open>::fffe:0:0/95\<close> is accepted,
  it contains the mapped form of the loopback address, and that address alone is refused.
\<close>

theorem mapped_loopback_inside_accepted_prefix:
  "RoutablePrefix (Prefix (V6 0xFFFE00000000 []) 95) \<and>
   prefix_contains (Prefix (V6 0xFFFE00000000 []) 95) (V6 0xFFFF7F000001 []) \<and>
   \<not> RoutableDestination (V6 0xFFFF7F000001 [])"
proof (intro conjI)
  show "RoutablePrefix (Prefix (V6 0xFFFE00000000 []) 95)"
    by (simp add: RoutablePrefix_def Let_def prefix_valid_def excludedDestinations_def
        prefix_overlaps_def prefix_from_def clear_low_def drop_bit_eq_div push_bit_eq_mult)
  show "prefix_contains (Prefix (V6 0xFFFE00000000 []) 95) (V6 0xFFFF7F000001 [])"
    by (simp add: prefix_contains_def prefix_valid_def drop_bit_eq_div)
  show "\<not> RoutableDestination (V6 0xFFFF7F000001 [])"
    by (simp add: RoutableDestination_def Let_def excludedDestinations_def prefix_contains_def
        prefix_valid_def drop_bit_eq_div)
qed

section \<open>Devices\<close>

lemma octets_join: "unat x = join_base 256 (octets x)"
proof -
  have "unat x < 2 ^ LENGTH(32)" by (rule unsigned_less)
  then have "unat x < 256 ^ 4" by simp
  then show ?thesis by (simp add: octets_def join_split_base)
qed

lemma octet_decomp:
  obtains a b c d where "a < 256" "b < 256" "c < 256" "d < 256"
    "octet 0 x = a" "octet 1 x = b" "octet 2 x = c" "octet 3 x = d"
    "unat x = ((a * 256 + b) * 256 + c) * 256 + d"
proof -
  have "length (octets x) = Suc (Suc (Suc (Suc 0)))" by simp
  then obtain a b c d where o: "octets x = [a, b, c, d]"
    by (auto simp: length_Suc_conv simp del: length_octets)
  have "a < 256" "b < 256" "c < 256" "d < 256"
    using octets_bound [of x] o by auto
  moreover have "unat x = ((a * 256 + b) * 256 + c) * 256 + d"
    using octets_join [of x] o by (simp add: join_base_def)
  moreover have "octet 0 x = a" "octet 1 x = b" "octet 2 x = c" "octet 3 x = d"
    using o by (simp_all add: octet_def)
  ultimately show ?thesis using that by blast
qed

lemma word_div_eq:
  fixes x :: "'a::len word"
  shows "drop_bit n x = c \<longleftrightarrow> unat x div 2 ^ n = unat c"
  by (metis unat_drop_bit_eq drop_bit_nat_def word_unat_eq_iff)

definition device_ranges :: "prefix list" where
  "device_ranges =
    [Prefix (V4 0x0A000000) 8, Prefix (V4 0xAC100000) 12, Prefix (V4 0xC0A80000) 16,
     Prefix (V4 0xA9FE0000) 16,
     Prefix (V6 0xFC000000000000000000000000000000 []) 7,
     Prefix (V6 0xFE800000000000000000000000000000 []) 10]"

lemma device_range_v4:
  "(\<exists>p \<in> set device_ranges. prefix_contains p (V4 x)) \<longleftrightarrow>
     unat x div 16777216 = 10 \<or> unat x div 1048576 = 2753 \<or> unat x div 65536 = 49320 \<or>
     unat x div 65536 = 43518"
proof -
  have c: "drop_bit 24 (0x0A000000 :: 32 word) = 10" "drop_bit 20 (0xAC100000 :: 32 word) = 2753"
    "drop_bit 16 (0xC0A80000 :: 32 word) = 49320" "drop_bit 16 (0xA9FE0000 :: 32 word) = 43518"
    by (simp_all add: drop_bit_eq_div)
  have e: "prefix_contains (Prefix (V4 y) (int b)) (V4 x) \<longleftrightarrow> drop_bit (32 - b) x = drop_bit (32 - b) y"
    for y b by (auto simp: prefix_contains_def prefix_valid_def)
  show ?thesis
    using e [of "0x0A000000" "8"] e [of "0xAC100000" "12"] e [of "0xC0A80000" "16"] e [of "0xA9FE0000" "16"]
    by (simp add: device_ranges_def c word_div_eq) (simp add: prefix_contains_def)
qed

lemma device_v4:
  "DeviceDestination (V4 x) \<longleftrightarrow>
     (\<exists>p \<in> set device_ranges. prefix_contains p (V4 x)) \<and> x \<noteq> 0xA9FEA9FE"
proof -
  obtain a b c d where o: "a < 256" "b < 256" "c < 256" "d < 256"
    "octet 0 x = a" "octet 1 x = b" "octet 2 x = c" "octet 3 x = d"
    and n: "unat x = ((a * 256 + b) * 256 + c) * 256 + d"
    by (rule octet_decomp)
  have r1: "unat x div 16777216 = a" unfolding n
    by (rule div_nat_eqI) (use o(1-4) in \<open>simp_all add: algebra_simps\<close>)
  have r2: "unat x div 1048576 = a * 16 + b div 16" unfolding n
    by (rule div_nat_eqI) (use o(1-4) in \<open>simp_all add: algebra_simps\<close>)
  have r3: "unat x div 65536 = a * 256 + b" unfolding n
    by (rule div_nat_eqI) (use o(1-4) in \<open>simp_all add: algebra_simps\<close>)
  have m: "x = 0xA9FEA9FE \<longleftrightarrow> a = 169 \<and> b = 254 \<and> c = 169 \<and> d = 254"
  proof
    assume "x = 0xA9FEA9FE"
    then have e: "16777216 * a + 65536 * b + c * 256 + d = 2852039166"
      using n by simp
    then have "a = 169" using o(1-4) by linarith
    moreover from this e have "b = 254" using o(1-4) by linarith
    moreover from calculation e have "c = 169" using o(1-4) by linarith
    ultimately show "a = 169 \<and> b = 254 \<and> c = 169 \<and> d = 254" using e by linarith
  qed (simp add: word_unat_eq_iff n)
  have z: "x = 0 \<longleftrightarrow> a = 0 \<and> b = 0 \<and> c = 0 \<and> d = 0"
    unfolding word_unat_eq_iff n by simp
  have l: "DeviceDestination (V4 x) \<longleftrightarrow>
    a = 10 \<or> (a = 172 \<and> 16 \<le> b \<and> b \<le> 31) \<or> (a = 192 \<and> b = 168) \<or>
    (a = 169 \<and> b = 254 \<and> (c \<noteq> 169 \<or> d \<noteq> 254))"
  proof -
    have "DeviceDestination (V4 x) \<longleftrightarrow>
      (if x = 0 \<or> a = 127 \<or> a div 16 = 14 \<or> a = 224 \<and> b = 0 \<and> c = 0 then False
       else if a = 10 then True
       else if a = 172 \<and> 16 \<le> b \<and> b \<le> 31 then True
       else if a = 192 \<and> b = 168 then True
       else if a = 169 \<and> b = 254 then c \<noteq> 169 \<or> d \<noteq> 254 else False)"
      unfolding DeviceDestination_def
      by (simp only: unmap.simps Let_def addr_valid.simps is_unspecified.simps is_loopback.simps
          is_multicast.simps is_link_local_multicast.simps is_interface_local_multicast.simps
          o(5-8) testBuildDevice_def addr.case simp_thms)
    moreover have "a = 10 \<or> a = 172 \<or> a = 192 \<or> a = 169 \<Longrightarrow>
        \<not> (x = 0 \<or> a = 127 \<or> a div 16 = 14 \<or> a = 224 \<and> b = 0 \<and> c = 0)"
      using z by auto
    ultimately show ?thesis
      by (cases "a = 10 \<or> a = 172 \<or> a = 192 \<or> a = 169") auto
  qed
  have pair: "y * k + e = u * k + v \<longleftrightarrow> y = u \<and> e = v" if "e < k" "v < k" for y k e u v :: nat
  proof -
    have "(y * k + e) div k = y" "(y * k + e) mod k = e" "(u * k + v) div k = u" "(u * k + v) mod k = v"
      using that by simp_all
    then show ?thesis by metis
  qed
  have "b div 16 < 16" "b div 16 = 1 \<longleftrightarrow> 16 \<le> b \<and> b \<le> 31" using o(2) by linarith+
  then have q1: "a * 16 + b div 16 = 2753 \<longleftrightarrow> a = 172 \<and> 16 \<le> b \<and> b \<le> 31"
    using pair [of "b div 16" 16 1 a 172] by simp
  have q2: "a * 256 + b = 49320 \<longleftrightarrow> a = 192 \<and> b = 168"
    using pair [of b 256 168 a 192] o(2) by simp
  have q3: "a * 256 + b = 43518 \<longleftrightarrow> a = 169 \<and> b = 254"
    using pair [of b 256 254 a 169] o(2) by simp
  show ?thesis
    unfolding l device_range_v4 r1 r2 r3 q1 q2 q3 m by auto
qed

lemma hextet0_facts:
  fixes x :: "128 word"
  shows "hextet0 x div 512 = unat (drop_bit 121 x)" "hextet0 x div 64 = unat (drop_bit 118 x)"
    "hextet0 x div 256 = unat (drop_bit 120 x)"
  unfolding hextet0_def unat_drop_bit_eq
  by (simp_all add: drop_bit_eq_div div_mult2_eq [symmetric])

lemma device_range_v6:
  "(\<exists>p \<in> set device_ranges. prefix_contains p (V6 x [])) \<longleftrightarrow>
     hextet0 x div 512 = 126 \<or> hextet0 x div 64 = 1018"
proof -
  have c: "drop_bit 121 (0xFC000000000000000000000000000000 :: 128 word) = 126"
    "drop_bit 118 (0xFE800000000000000000000000000000 :: 128 word) = 1018"
    by (simp_all add: drop_bit_eq_div)
  have e: "prefix_contains (Prefix (V6 y []) (int b)) (V6 x []) \<longleftrightarrow> drop_bit (128 - b) x = drop_bit (128 - b) y"
    for y b by (auto simp: prefix_contains_def prefix_valid_def)
  show ?thesis
    using e [of "0xFC000000000000000000000000000000" "7"] e [of "0xFE800000000000000000000000000000" "10"]
    by (simp add: device_ranges_def c hextet0_facts word_unat_eq_iff)
      (simp add: prefix_contains_def)
qed

lemma device_v6:
  assumes "\<not> is4in6 (V6 x z)"
  shows "DeviceDestination (V6 x z) \<longleftrightarrow> (\<exists>p \<in> set device_ranges. prefix_contains p (V6 x []))"
proof -
  have a: "x = 0 \<or> x = 1 \<Longrightarrow> hextet0 x = 0"
    by (auto simp: hextet0_def drop_bit_eq_div)
  have b1: "h div 512 = 126 \<Longrightarrow> h div 256 \<noteq> 255" for h :: nat by linarith
  have b2: "h div 64 = 1018 \<Longrightarrow> h div 256 \<noteq> 255" for h :: nat by linarith
  show ?thesis
    unfolding device_range_v6 using assms a b1 [of "hextet0 x"] b2 [of "hextet0 x"]
    by (auto simp: DeviceDestination_def)
qed

text \<open>
  The octet and hextet tests of \<open>DeviceDestination\<close> describe exactly the private,
  unique-local and link-local unicast networks, less the cloud metadata address, for every
  spelling of the address (IPv4-mapped or with a zone).
\<close>

theorem DeviceDestination_exact:
  "DeviceDestination a \<longleftrightarrow>
     (\<exists>p \<in> set device_ranges. prefix_contains p (without_zone (unmap a))) \<and>
     unmap a \<noteq> V4 0xA9FEA9FE"
proof -
  have u: "DeviceDestination a \<longleftrightarrow> DeviceDestination (unmap a)"
    by (simp add: DeviceDestination_def)
  show ?thesis
  proof (cases "unmap a")
    case NoAddr
    then show ?thesis by (auto simp: DeviceDestination_def device_ranges_def prefix_contains_def)
  next
    case (V4 x)
    then show ?thesis unfolding u by (simp add: device_v4)
  next
    case (V6 x z)
    then have "\<not> is4in6 (V6 x z)" using not_4in6_unmap by metis
    with V6 show ?thesis unfolding u by (simp add: device_v6)
  qed
qed

text \<open>
  The device exception never opens the public policy: no address is both a plausible device
  and a destination that may be contacted or routed as public.
\<close>

theorem device_never_public:
  "\<not> (DeviceDestination a \<and> (RoutableDestination a \<or> PublicUnicast a))"
proof -
  have "\<not> RoutableDestination a" if d: "DeviceDestination a"
  proof -
    obtain p where p: "p \<in> set device_ranges" "prefix_contains p (without_zone (unmap a))"
      using d unfolding DeviceDestination_exact by blast
    have "p \<in> set excludedDestinations"
      using p(1) by (auto simp: device_ranges_def excludedDestinations_def)
    moreover have "unmap (without_zone a) = without_zone (unmap a)"
      by (cases a) auto
    ultimately show ?thesis using p(2) by (auto simp: RoutableDestination_def Let_def)
  qed
  then show ?thesis by (auto simp: PublicUnicast_def)
qed

end
