(* ===== verification/Overlaps.thy ===== *)
theory Overlaps
  imports Domain GoMap "HOL-Library.Sublist"
begin

text \<open>
  \<open>internal/planner/overlaps.go\<close>: which lists of a prepared plan share a destination. The
  definitions follow the code: groups of equal typed values, an index of candidate parents
  (domain label ancestors, network widths that occur), detail rows up to a limit and the complete
  adjacency summary. The second part says what a rule routes (\<open>rule_matches\<close>) and proves that
  the index search finds exactly the containments.
\<close>

section \<open>The code\<close>

record overlap_value =
  ov_kind :: RuleKind
  ov_value :: string
  ov_lists :: "string list"

record rule_overlap =
  ro_kind :: string
  ro_entry :: overlap_value
  ro_covering :: "overlap_value option"

record overlap_summary =
  os_list :: string
  os_overlaps :: "string list"

record rule_overlaps =
  ovs_items :: "rule_overlap list"
  ovs_truncated :: bool
  ovs_summary :: "overlap_summary list"

record overlap_group =
  og_rule :: route_rule
  og_entry :: overlap_value

definition overlap_key :: "RuleKind \<Rightarrow> string \<Rightarrow> string" where
  "overlap_key k v = kind_str k @ nul @ v"

definition rule_key :: "route_rule \<Rightarrow> string" where
  "rule_key r = overlap_key (rr_kind r) (rule_value r)"

definition new_group :: "route_rule \<Rightarrow> overlap_group" where
  "new_group r = \<lparr>og_rule = r,
     og_entry = \<lparr>ov_kind = rr_kind r, ov_value = rule_value r, ov_lists = [rr_list r]\<rparr>\<rparr>"

definition extend_group :: "overlap_group \<Rightarrow> route_rule \<Rightarrow> overlap_group" where
  "extend_group g r =
     g\<lparr>og_entry := (og_entry g)\<lparr>ov_lists := ov_lists (og_entry g) @ [rr_list r]\<rparr>\<rparr>"

type_synonym groups = "(string \<times> overlap_group) list"

definition overlap_groups :: "route_rule list \<Rightarrow> groups" where
  "overlap_groups rules = group_fold rule_key new_group extend_group (filter rule_valid rules)"

text \<open>The distinct widths of a kind of network, longest first.\<close>

definition widths_of :: "route_rule list \<Rightarrow> RuleKind \<Rightarrow> int list" where
  "widths_of rules k =
     rev (sort_unique (map (\<lambda>r. pfx_bits (rr_prefix r))
       (filter (\<lambda>r. rr_kind r = k \<and> kind_is_prefix k) rules)))"

text \<open>What follows each dot of a name, from the left: the loop over \<open>strings.Cut(name, ".")\<close>.\<close>

primrec domain_tails :: "string \<Rightarrow> string list" where
  "domain_tails [] = []"
| "domain_tails (c # cs) = (if c = CHR ''.'' then cs # domain_tails cs else domain_tails cs)"

definition overlap_parents :: "route_rule \<Rightarrow> (RuleKind \<Rightarrow> int list) \<Rightarrow> string list" where
  "overlap_parents r widths =
     (if kind_is_domain (rr_kind r) then
        (if rr_kind r = RuleDomainExact then [overlap_key RuleDomainSuffix (rr_domain r)] else []) @
        map (overlap_key RuleDomainSuffix) (domain_tails (rr_domain r))
      else
        let a = (if kind_is_prefix (rr_kind r) then pfx_addr (rr_prefix r) else rr_addr r);
            maximum = (if kind_is_prefix (rr_kind r) then pfx_bits (rr_prefix r) - 1
                       else int (bit_len (rr_addr r)));
            k = (if is4 a then RulePrefix4 else RulePrefix6)
        in map (\<lambda>b. overlap_key k (prefix_string (masked (prefix_from a b))))
             (filter (\<lambda>b. b \<le> maximum) (widths k)))"

text \<open>The adjacency map of maps is the list of its directed edges.\<close>

type_synonym edges = "(string \<times> string) list"

definition add_edge :: "string \<Rightarrow> string \<Rightarrow> edges \<Rightarrow> edges" where
  "add_edge a b es = (if a = [] \<or> b = [] \<or> a = b then es else (a, b) # (b, a) # es)"

record overlap_state =
  st_items :: "rule_overlap list"
  st_truncated :: bool
  st_edges :: edges

definition append_detail :: "nat \<Rightarrow> overlap_state \<Rightarrow> rule_overlap \<Rightarrow> overlap_state" where
  "append_detail limit s item =
     (if limit \<le> length (st_items s) then s\<lparr>st_truncated := True\<rparr>
      else s\<lparr>st_items := st_items s @ [item]\<rparr>)"

definition edges_from :: "string \<Rightarrow> string list \<Rightarrow> overlap_state \<Rightarrow> overlap_state" where
  "edges_from a bs s = s\<lparr>st_edges := foldl (\<lambda>es b. add_edge a b es) (st_edges s) bs\<rparr>"

fun pair_edges :: "string list \<Rightarrow> overlap_state \<Rightarrow> overlap_state" where
  "pair_edges [] s = s"
| "pair_edges (a # bs) s = pair_edges bs (edges_from a bs s)"

definition sorted_entry :: "overlap_group \<Rightarrow> overlap_value" where
  "sorted_entry g = (og_entry g)\<lparr>ov_lists := StableStrings (ov_lists (og_entry g))\<rparr>"

definition duplicate_step :: "nat \<Rightarrow> overlap_state \<Rightarrow> overlap_group \<Rightarrow> overlap_state" where
  "duplicate_step limit s g =
     (let entry = sorted_entry g in
      if 1 < length (ov_lists entry) then
        append_detail limit (pair_edges (ov_lists entry) s)
          \<lparr>ro_kind = ''duplicate'', ro_entry = entry, ro_covering = None\<rparr>
      else s)"

definition covered_list_step ::
  "nat \<Rightarrow> overlap_value \<Rightarrow> overlap_value \<Rightarrow> overlap_state \<Rightarrow> string \<Rightarrow> overlap_state" where
  "covered_list_step limit entry parent s l =
     (let owners = filter (\<lambda>ow. ow \<noteq> l) (ov_lists parent);
          s' = edges_from l owners s in
      if owners = [] then s'
      else append_detail limit s'
        \<lparr>ro_kind = ''covered'', ro_entry = entry\<lparr>ov_lists := [l]\<rparr>,
         ro_covering = Some (parent\<lparr>ov_lists := owners\<rparr>)\<rparr>)"

definition covered_parent_step ::
  "nat \<Rightarrow> groups \<Rightarrow> overlap_group \<Rightarrow> overlap_state \<Rightarrow> string \<Rightarrow> overlap_state" where
  "covered_parent_step limit gs g s pk =
     (case map_of gs pk of
        None \<Rightarrow> s
      | Some p \<Rightarrow>
          foldl (covered_list_step limit (sorted_entry g) (sorted_entry p)) s (ov_lists (sorted_entry g)))"

definition covered_step ::
  "nat \<Rightarrow> groups \<Rightarrow> (RuleKind \<Rightarrow> int list) \<Rightarrow> overlap_state \<Rightarrow> overlap_group \<Rightarrow> overlap_state" where
  "covered_step limit gs widths s g =
     foldl (covered_parent_step limit gs g) s (overlap_parents (og_rule g) widths)"

definition AnalyzeRuleOverlaps :: "route_rule list \<Rightarrow> int \<Rightarrow> rule_overlaps" where
  "AnalyzeRuleOverlaps rules limit0 =
     (let limit = nat (max 0 limit0);
          gs = overlap_groups rules;
          widths = widths_of (map (og_rule \<circ> snd) gs);
          ordered = map snd (sort_key fst gs);
          s0 = \<lparr>st_items = [], st_truncated = False, st_edges = []\<rparr>;
          s1 = foldl (duplicate_step limit) s0 ordered;
          s2 = foldl (covered_step limit gs widths) s1 ordered;
          lists = sort_unique (map rr_list (filter rule_valid rules))
      in \<lparr>ovs_items = st_items s2, ovs_truncated = st_truncated s2,
          ovs_summary = map (\<lambda>l. \<lparr>os_list = l,
            os_overlaps = sort_unique (map snd (filter (\<lambda>e. fst e = l) (st_edges s2)))\<rparr>) lists\<rparr>)"

section \<open>What a rule routes\<close>

text \<open>A destination is an address without a zone or a name.\<close>

datatype destination = DAddr addr | DName string

fun rule_matches :: "route_rule \<Rightarrow> destination \<Rightarrow> bool" where
  "rule_matches r (DName n) =
     (case rr_kind r of
        RuleDomainExact \<Rightarrow> n = rr_domain r
      | RuleDomainSuffix \<Rightarrow> n = rr_domain r \<or> suffix (CHR ''.'' # rr_domain r) n
      | _ \<Rightarrow> False)"
| "rule_matches r (DAddr a) =
     ((kind_is_ip (rr_kind r) \<and> a = rr_addr r) \<or>
      (kind_is_prefix (rr_kind r) \<and> prefix_contains (rr_prefix r) a))"

text \<open>
  The rules the planner makes: valid, and without a zone in an address (the string boundary
  refuses a zone and resolvers report none).
\<close>

definition rule_wf :: "route_rule \<Rightarrow> bool" where
  "rule_wf r \<longleftrightarrow> rule_valid r \<and>
     (kind_is_ip (rr_kind r) \<longrightarrow> addr_zone (rr_addr r) = []) \<and>
     (kind_is_prefix (rr_kind r) \<longrightarrow> addr_zone (pfx_addr (rr_prefix r)) = [])"

text \<open>The containment the index searches for: \<open>p\<close> is a proper parent of \<open>r\<close>.\<close>

definition is_parent :: "route_rule \<Rightarrow> route_rule \<Rightarrow> bool" where
  "is_parent p r \<longleftrightarrow>
     (if kind_is_domain (rr_kind r) then
        rr_kind p = RuleDomainSuffix \<and>
        (rr_kind r = RuleDomainExact \<and> rr_domain p = rr_domain r \<or>
         suffix (CHR ''.'' # rr_domain p) (rr_domain r))
      else if kind_is_ip (rr_kind r) then
        kind_is_prefix (rr_kind p) \<and> prefix_contains (rr_prefix p) (rr_addr r)
      else kind_is_prefix (rr_kind p) \<and> kind_is_prefix (rr_kind r) \<and>
        pfx_bits (rr_prefix p) < pfx_bits (rr_prefix r) \<and>
        prefix_contains (rr_prefix p) (pfx_addr (rr_prefix r)))"

section \<open>Well-formed rules\<close>

lemma rule_wf_domain:
  assumes "rule_wf r" "kind_is_domain (rr_kind r)"
  shows "domain_syntax (rr_domain r)" "rule_value r = rr_domain r" "rr_domain r \<noteq> []"
    "\<forall>c \<in> set (rr_domain r). label_char c \<or> c = CHR ''.''"
proof -
  have n: "normalize_domain (rr_domain r) = Ok (rr_domain r)"
    using assms by (cases "rr_kind r") (auto simp: rule_wf_def rule_valid_def split: if_splits)
  then have "domain_syntax (trim_dot (rr_domain r))" "rr_domain r = to_lower (trim_dot (rr_domain r))"
    by (simp_all add: normalize_domain_iff)
  then show d: "domain_syntax (rr_domain r)" by (metis domain_syntax_lower)
  then show "rr_domain r \<noteq> []" by (simp add: domain_syntax_def)
  from d show "\<forall>c \<in> set (rr_domain r). label_char c \<or> c = CHR ''.''"
    using domain_syntax_chars by blast
  show "rule_value r = rr_domain r"
    using assms(2) n by (cases "rr_kind r") (auto simp: rule_value.simps normalize_domain_value_id)
qed

lemma rule_wf_ip:
  assumes "rule_wf r" "kind_is_ip (rr_kind r)"
  shows "plain_addr (rr_addr r)" "rule_value r = addr_string (rr_addr r)"
    "rr_kind r = (if is4 (rr_addr r) then RuleIPv4 else RuleIPv6)"
  using assms
  by (cases "rr_kind r"; cases "rr_addr r"; auto simp: rule_wf_def rule_valid_def plain_addr_def
      rule_value.simps unmap_id split: if_splits)+

lemma rule_wf_prefix:
  assumes "rule_wf r" "kind_is_prefix (rr_kind r)"
  shows "plain_prefix (rr_prefix r)" "rule_value r = prefix_string (rr_prefix r)"
    "masked (rr_prefix r) = rr_prefix r"
    "rr_kind r = (if is4 (pfx_addr (rr_prefix r)) then RulePrefix4 else RulePrefix6)"
proof -
  have v: "prefix_valid (rr_prefix r)" "\<not> is4in6 (pfx_addr (rr_prefix r))"
      "rr_prefix r = masked (rr_prefix r)" "addr_zone (pfx_addr (rr_prefix r)) = []"
    and k: "rr_kind r = (if is4 (pfx_addr (rr_prefix r)) then RulePrefix4 else RulePrefix6)"
    and a: "is4 (pfx_addr (rr_prefix r)) \<or> is6 (pfx_addr (rr_prefix r))"
    using assms by (cases "rr_kind r"; cases "pfx_addr (rr_prefix r)"; auto simp: rule_wf_def rule_valid_def split: if_splits)+
  show "rr_kind r = (if is4 (pfx_addr (rr_prefix r)) then RulePrefix4 else RulePrefix6)" by (rule k)
  show m: "masked (rr_prefix r) = rr_prefix r" using v by simp
  show "rule_value r = prefix_string (rr_prefix r)" using k m by (simp add: rule_value.simps)
  obtain a b where p: "rr_prefix r = Prefix a b" by (cases "rr_prefix r")
  then have "b \<le> int (bit_len a)"
    using v m by (cases a) (auto simp: masked_def prefix_from_def no_prefix_def prefix_valid_def split: if_splits)
  then show "plain_prefix (rr_prefix r)"
    using v a p by (cases a) (auto simp: plain_prefix_def plain_addr_def prefix_valid_def)
qed

lemma rule_wf_kind:
  "rule_wf r \<Longrightarrow> kind_is_domain (rr_kind r) \<or> kind_is_ip (rr_kind r) \<or> kind_is_prefix (rr_kind r)"
  by (cases "rr_kind r") (auto simp: rule_wf_def rule_valid_def split: if_splits)

lemma rule_wf_list: "rule_wf r \<Longrightarrow> rr_list r \<noteq> []"
  by (auto simp: rule_wf_def rule_valid_def validate_slug_def split: if_splits)

lemma nul_not_plain: "CHR 0x00 \<notin> set (kind_str k) \<or> (\<exists>s. k = RuleOther s)"
  by (cases k) auto

lemma nul_not_label: "\<not> label_char CHR 0x00" "\<not> is_hex CHR 0x00" "\<not> is_dec CHR 0x00"
  by (simp_all add: label_char_def is_lower_def is_upper_def is_dec_def is_hex_def char_le_iff)

lemma rule_value_no_nul:
  assumes "rule_wf r"
  shows "CHR 0x00 \<notin> set (rule_value r)"
proof -
  consider "kind_is_domain (rr_kind r)" | "kind_is_ip (rr_kind r)" | "kind_is_prefix (rr_kind r)"
    using rule_wf_kind [OF assms] by blast
  then show ?thesis
  proof cases
    case 1
    then show ?thesis using rule_wf_domain [OF assms 1] nul_not_label by auto
  next
    case 2
    then show ?thesis
      using rule_wf_ip [OF assms 2] addr_string_chars [of "rr_addr r" "CHR 0x00"] nul_not_label by auto
  next
    case 3
    have "plain_prefix (rr_prefix r)" using rule_wf_prefix [OF assms 3] by blast
    then have "plain_addr (pfx_addr (rr_prefix r))" "prefix_valid (rr_prefix r)"
      by (auto simp: plain_prefix_def prefix_valid_def)
    then show ?thesis
      using rule_wf_prefix [OF assms 3] addr_string_chars [of "pfx_addr (rr_prefix r)" "CHR 0x00"]
        nul_not_label num_str_dec [of "nat (pfx_bits (rr_prefix r))"]
      by (auto simp: prefix_string_def)
  qed
qed

text \<open>Two rules of one kind and value describe the same destinations.\<close>

definition same_target :: "route_rule \<Rightarrow> route_rule \<Rightarrow> bool" where
  "same_target r s \<longleftrightarrow> rr_kind r = rr_kind s \<and>
     (kind_is_domain (rr_kind r) \<longrightarrow> rr_domain r = rr_domain s) \<and>
     (kind_is_ip (rr_kind r) \<longrightarrow> rr_addr r = rr_addr s) \<and>
     (kind_is_prefix (rr_kind r) \<longrightarrow> rr_prefix r = rr_prefix s)"

lemma nul_split:
  assumes "CHR 0x00 \<notin> set a" "CHR 0x00 \<notin> set b"
  shows "a @ nul @ x = b @ nul @ y \<longleftrightarrow> a = b \<and> x = y"
proof
  assume e: "a @ nul @ x = b @ nul @ y"
  have t: "takeWhile (\<lambda>c. c \<noteq> CHR 0x00) (u @ nul @ v) = u" if "CHR 0x00 \<notin> set u" for u v
    using that by (subst takeWhile_append2) (auto simp: nul_def)
  from e t [OF assms(1), of x] t [OF assms(2), of y] have "a = b" by metis
  with e show "a = b \<and> x = y" by simp
qed simp

lemma kind_str_inj:
  assumes "\<nexists>s. k = RuleOther s" "\<nexists>s. k' = RuleOther s"
  shows "kind_str k = kind_str k' \<longleftrightarrow> k = k'"
  using assms by (cases k; cases k') auto

lemma rule_wf_not_other: "rule_wf r \<Longrightarrow> rr_kind r \<noteq> RuleOther s"
  by (auto simp: rule_wf_def rule_valid_def split: if_splits)

lemma overlap_key_inj:
  assumes "\<nexists>s. k = RuleOther s" "\<nexists>s. k' = RuleOther s"
  shows "overlap_key k v = overlap_key k' v' \<longleftrightarrow> k = k' \<and> v = v'"
  using assms nul_split [of "kind_str k" "kind_str k'"] nul_not_plain [of k] nul_not_plain [of k']
  by (auto simp: overlap_key_def kind_str_inj)

lemma rule_key_eq:
  assumes "rule_wf r" "rule_wf s"
  shows "rule_key r = rule_key s \<longleftrightarrow> same_target r s"
proof -
  have k: "rule_key r = rule_key s \<longleftrightarrow> rr_kind r = rr_kind s \<and> rule_value r = rule_value s"
    using assms rule_wf_not_other by (auto simp: rule_key_def overlap_key_inj)
  show ?thesis
  proof (cases "rr_kind r = rr_kind s")
    case True
    note kind = True
    consider "kind_is_domain (rr_kind r)" | "kind_is_ip (rr_kind r)" | "kind_is_prefix (rr_kind r)"
      using rule_wf_kind [OF assms(1)] by blast
    then show ?thesis
    proof cases
      case 1
      then show ?thesis
        using k kind rule_wf_domain(2) [OF assms(1)] rule_wf_domain(2) [OF assms(2)]
        by (auto simp: same_target_def kind_is_domain_def)
    next
      case 2
      then show ?thesis
        using k kind rule_wf_ip(1,2) [OF assms(1)] rule_wf_ip(1,2) [OF assms(2)]
        by (auto simp: same_target_def kind_is_ip_def addr_string_inj)
    next
      case 3
      then show ?thesis
        using k kind rule_wf_prefix(1,2) [OF assms(1)] rule_wf_prefix(1,2) [OF assms(2)]
        by (auto simp: same_target_def kind_is_prefix_def prefix_string_inj)
    qed
  qed (simp add: k same_target_def)
qed

section \<open>The index finds exactly the parents\<close>

lemma set_domain_tails: "t \<in> set (domain_tails n) \<longleftrightarrow> suffix (CHR ''.'' # t) n"
  by (induction n) (auto simp: suffix_Cons)

lemma label_suffix_trans:
  "suffix (CHR ''.'' # d) e \<Longrightarrow> suffix (CHR ''.'' # e) n \<Longrightarrow> suffix (CHR ''.'' # d) n"
  by (meson suffix_ConsD suffix_order.trans)

lemma masked_at:
  assumes "plain_prefix p" "masked p = p" "plain_addr a" "prefix_contains p a"
  shows "masked (prefix_from a (pfx_bits p)) = p"
proof -
  have b: "bit_len (pfx_addr p) = bit_len a" "same_high (pfx_bits p) (pfx_addr p) a"
    using assms(4) by (auto simp: prefix_contains_def)
  have pf: "plain_prefix (prefix_from a (pfx_bits p))"
    using assms(1,3) b(1) by (intro plain_prefix_from_plain) (auto simp: plain_prefix_def)
  moreover have "prefix_from a (pfx_bits p) = Prefix a (pfx_bits p)"
    using assms(1,3) b(1) by (auto simp: prefix_from_def plain_prefix_def plain_addr_def without_zone_id)
  moreover have "mask_addr (pfx_bits p) (pfx_addr p) = mask_addr (pfx_bits p) a"
    using assms(1,3) b by (simp add: mask_addr_eq plain_prefix_def plain_addr_def)
  ultimately show ?thesis
    using assms(1,2) by (metis masked_plain prefix.sel)
qed

lemma at_masked:
  assumes "plain_addr a" "0 \<le> b" "b \<le> int (bit_len a)"
  shows "plain_prefix (masked (prefix_from a b))" "pfx_bits (masked (prefix_from a b)) = b"
    "prefix_contains (masked (prefix_from a b)) a"
    "is4 (pfx_addr (masked (prefix_from a b))) = is4 a"
proof -
  have pf: "plain_prefix (prefix_from a b)" using assms by (rule plain_prefix_from_plain)
  have e: "prefix_from a b = Prefix a b"
    using assms by (auto simp: prefix_from_def plain_addr_def without_zone_id)
  show "plain_prefix (masked (prefix_from a b))" using pf by (rule plain_masked)
  show "pfx_bits (masked (prefix_from a b)) = b"
    using pf by (subst pfx_bits_masked) (auto simp: e)
  show "prefix_contains (masked (prefix_from a b)) a"
    using pf prefix_contains_self [OF pf] by (simp add: masked_contains) (simp add: e)
  show "is4 (pfx_addr (masked (prefix_from a b))) = is4 a"
    using pf by (subst is4_masked) (auto simp: e)
qed

definition widths_ok :: "(RuleKind \<Rightarrow> int list) \<Rightarrow> route_rule list \<Rightarrow> bool" where
  "widths_ok W rules \<longleftrightarrow> (\<forall>k. \<forall>b \<in> set (W k). 0 \<le> b) \<and>
     (\<forall>p \<in> set rules. kind_is_prefix (rr_kind p) \<longrightarrow> pfx_bits (rr_prefix p) \<in> set (W (rr_kind p)))"

lemma address_parent:
  assumes "rule_wf p" "plain_addr a" "0 \<le> m" "m \<le> int (bit_len a)" "widths_ok W rules" "p \<in> set rules"
  shows "rule_key p \<in> set (map (\<lambda>b. overlap_key (if is4 a then RulePrefix4 else RulePrefix6)
           (prefix_string (masked (prefix_from a b))))
           (filter (\<lambda>b. b \<le> m) (W (if is4 a then RulePrefix4 else RulePrefix6)))) \<longleftrightarrow>
         kind_is_prefix (rr_kind p) \<and> pfx_bits (rr_prefix p) \<le> m \<and> prefix_contains (rr_prefix p) a"
    (is "?l \<longleftrightarrow> ?r")
proof
  assume ?l
  then obtain b where b: "b \<in> set (W (if is4 a then RulePrefix4 else RulePrefix6))" "b \<le> m"
    and k: "rule_key p = overlap_key (if is4 a then RulePrefix4 else RulePrefix6)
      (prefix_string (masked (prefix_from a b)))" by auto
  have r: "0 \<le> b" "b \<le> int (bit_len a)" using b assms by (auto simp: widths_ok_def)
  have "rr_kind p = (if is4 a then RulePrefix4 else RulePrefix6) \<and>
      rule_value p = prefix_string (masked (prefix_from a b))"
    using k rule_wf_not_other [OF assms(1)] unfolding rule_key_def
    by (subst (asm) overlap_key_inj) auto
  moreover from this have kp: "kind_is_prefix (rr_kind p)" by (auto split: if_splits)
  ultimately have "rr_prefix p = masked (prefix_from a b)"
    using rule_wf_prefix [OF assms(1) kp] at_masked(1) [OF assms(2) r] by (simp add: prefix_string_inj)
  with kp b at_masked [OF assms(2) r] show ?r by simp
next
  assume r: ?r
  then have w: "plain_prefix (rr_prefix p)" "rule_value p = prefix_string (rr_prefix p)"
    "masked (rr_prefix p) = rr_prefix p"
    "rr_kind p = (if is4 (pfx_addr (rr_prefix p)) then RulePrefix4 else RulePrefix6)"
    using rule_wf_prefix [OF assms(1)] by auto
  have k: "rr_kind p = (if is4 a then RulePrefix4 else RulePrefix6)"
    using w(4) r prefix_contains_same_family by auto
  moreover have "masked (prefix_from a (pfx_bits (rr_prefix p))) = rr_prefix p"
    using masked_at [OF w(1,3) assms(2)] r by simp
  moreover have "pfx_bits (rr_prefix p) \<in> set (W (rr_kind p))"
    using assms(5,6) r by (auto simp: widths_ok_def)
  ultimately show ?l
    using r w(2) by (auto simp: rule_key_def image_iff intro!: bexI [of _ "pfx_bits (rr_prefix p)"])
qed

lemma overlap_parents_iff:
  assumes "rule_wf r" "rule_wf p" "widths_ok W rules" "p \<in> set rules"
  shows "rule_key p \<in> set (overlap_parents r W) \<longleftrightarrow> is_parent p r"
proof -
  consider (d) "kind_is_domain (rr_kind r)" | (i) "kind_is_ip (rr_kind r)" | (x) "kind_is_prefix (rr_kind r)"
    using rule_wf_kind [OF assms(1)] by blast
  then show ?thesis
  proof cases
    case d
    have v: "rule_key p = overlap_key RuleDomainSuffix t \<longleftrightarrow> rr_kind p = RuleDomainSuffix \<and> rr_domain p = t" for t
      using rule_wf_not_other [OF assms(2)] rule_wf_domain(2) [OF assms(2)]
      by (auto simp: rule_key_def overlap_key_inj)
    show ?thesis
      using d by (auto simp: overlap_parents_def is_parent_def v image_iff set_domain_tails)
  next
    case i
    then have k: "\<not> kind_is_domain (rr_kind r)" "\<not> kind_is_prefix (rr_kind r)"
      by (auto simp: kind_is_ip_def)
    have a: "plain_addr (rr_addr r)" using rule_wf_ip [OF assms(1) i] by blast
    have le: "kind_is_prefix (rr_kind p) \<Longrightarrow> prefix_contains (rr_prefix p) (rr_addr r) \<Longrightarrow>
        pfx_bits (rr_prefix p) \<le> int (bit_len (rr_addr r))"
      using rule_wf_prefix(1) [OF assms(2)] by (auto simp: plain_prefix_def prefix_contains_def)
    show ?thesis
      using address_parent [OF assms(2) a _ order_refl assms(3,4)] i k le
      by (auto simp: overlap_parents_def is_parent_def Let_def)
  next
    case x
    then have k: "\<not> kind_is_domain (rr_kind r)" "\<not> kind_is_ip (rr_kind r)"
      by (auto simp: kind_is_prefix_def)
    have pl: "plain_prefix (rr_prefix r)" using rule_wf_prefix [OF assms(1) x] by blast
    show ?thesis
    proof (cases "pfx_bits (rr_prefix r) = 0")
      case True
      have "filter (\<lambda>b. b \<le> -1) (W k) = []" for k
        using assms(3) by (force simp: widths_ok_def filter_empty_conv)
      moreover have "\<not> pfx_bits (rr_prefix p) < 0" if "kind_is_prefix (rr_kind p)"
        using rule_wf_prefix(1) [OF assms(2) that] by (simp add: plain_prefix_def)
      ultimately show ?thesis using x k True by (auto simp: overlap_parents_def is_parent_def Let_def)
    next
      case False
      then have b: "plain_addr (pfx_addr (rr_prefix r))" "0 \<le> pfx_bits (rr_prefix r) - 1"
        "pfx_bits (rr_prefix r) - 1 \<le> int (bit_len (pfx_addr (rr_prefix r)))"
        using pl by (auto simp: plain_prefix_def)
      show ?thesis
        using address_parent [OF assms(2) b assms(3,4)] x k
        by (auto simp: overlap_parents_def is_parent_def Let_def)
    qed
  qed
qed

section \<open>Containment and sharing\<close>

lemma is_parent_covers:
  assumes "is_parent p r" "rule_matches r d"
  shows "rule_matches p d"
proof (cases d)
  case (DName n)
  with assms show ?thesis
    by (auto simp: is_parent_def kind_is_domain_def intro: label_suffix_trans split: RuleKind.splits)
next
  case (DAddr a)
  have "prefix_contains (rr_prefix p) a"
    if "prefix_contains (rr_prefix r) a" "pfx_bits (rr_prefix p) < pfx_bits (rr_prefix r)"
      "prefix_contains (rr_prefix p) (pfx_addr (rr_prefix r))"
    using prefix_covers_subset [of "rr_prefix p" "rr_prefix r"] that by (auto simp: prefix_covers_def)
  with assms DAddr show ?thesis
    by (auto simp: is_parent_def kind_is_ip_def kind_is_prefix_def split: if_splits)
qed

lemma same_target_matches: "same_target r s \<Longrightarrow> rule_matches r d \<longleftrightarrow> rule_matches s d"
  by (cases d) (auto simp: same_target_def kind_is_domain_def split: RuleKind.splits)

lemma rule_matches_something:
  assumes "rule_wf r"
  shows "\<exists>d. rule_matches r d"
proof -
  consider (d) "kind_is_domain (rr_kind r)" | (i) "kind_is_ip (rr_kind r)" | (x) "kind_is_prefix (rr_kind r)"
    using rule_wf_kind [OF assms] by blast
  then show ?thesis
  proof cases
    case d
    then have "rule_matches r (DName (rr_domain r))" by (auto simp: kind_is_domain_def)
    then show ?thesis ..
  next
    case i
    then have "rule_matches r (DAddr (rr_addr r))" by simp
    then show ?thesis ..
  next
    case x
    then have "rule_matches r (DAddr (pfx_addr (rr_prefix r)))"
      using rule_wf_prefix(1) [OF assms x] prefix_contains_self by simp
    then show ?thesis ..
  qed
qed

lemma suffix_dots:
  "suffix (CHR ''.'' # d) n \<Longrightarrow> suffix (CHR ''.'' # e) n \<Longrightarrow> d = e \<or> suffix (CHR ''.'' # d) e \<or> suffix (CHR ''.'' # e) d"
proof -
  assume "suffix (CHR ''.'' # d) n" "suffix (CHR ''.'' # e) n"
  then have "suffix (CHR ''.'' # d) (CHR ''.'' # e) \<or> suffix (CHR ''.'' # e) (CHR ''.'' # d)"
    by (rule suffix_same_cases)
  then show ?thesis by (auto simp: suffix_Cons)
qed

lemma share_iff:
  assumes "rule_wf r" "rule_wf s"
  shows "(\<exists>d. rule_matches r d \<and> rule_matches s d) \<longleftrightarrow> same_target r s \<or> is_parent r s \<or> is_parent s r"
proof
  assume "same_target r s \<or> is_parent r s \<or> is_parent s r"
  then show "\<exists>d. rule_matches r d \<and> rule_matches s d"
    using rule_matches_something [OF assms(1)] rule_matches_something [OF assms(2)]
      same_target_matches is_parent_covers by metis
next
  assume "\<exists>d. rule_matches r d \<and> rule_matches s d"
  then obtain d where m: "rule_matches r d" "rule_matches s d" by blast
  show "same_target r s \<or> is_parent r s \<or> is_parent s r"
  proof (cases d)
    case (DName n)
    then show ?thesis
      using m suffix_dots [of "rr_domain r" n "rr_domain s"]
      by (cases "rr_kind r"; cases "rr_kind s")
        (auto simp: same_target_def is_parent_def kind_is_ip_def kind_is_prefix_def)
  next
    case (DAddr a)
    consider (ii) "kind_is_ip (rr_kind r)" "kind_is_ip (rr_kind s)" "a = rr_addr r" "a = rr_addr s"
      | (ip) "kind_is_ip (rr_kind r)" "a = rr_addr r" "kind_is_prefix (rr_kind s)" "prefix_contains (rr_prefix s) a"
      | (pi) "kind_is_ip (rr_kind s)" "a = rr_addr s" "kind_is_prefix (rr_kind r)" "prefix_contains (rr_prefix r) a"
      | (pp) "kind_is_prefix (rr_kind r)" "prefix_contains (rr_prefix r) a"
        "kind_is_prefix (rr_kind s)" "prefix_contains (rr_prefix s) a"
      using m unfolding DAddr rule_matches.simps by blast
    then show ?thesis
    proof cases
      case ii
      then show ?thesis
        using rule_wf_ip(3) [OF assms(1)] rule_wf_ip(3) [OF assms(2)]
        by (auto simp: same_target_def kind_is_ip_def split: if_splits)
    next
      case ip
      then show ?thesis by (auto simp: is_parent_def kind_is_ip_def)
    next
      case pi
      then show ?thesis by (auto simp: is_parent_def kind_is_ip_def)
    next
      case pp
      have pl: "plain_prefix (rr_prefix r)" "plain_prefix (rr_prefix s)"
        and mk: "masked (rr_prefix r) = rr_prefix r" "masked (rr_prefix s) = rr_prefix s"
        using pp rule_wf_prefix assms by auto
      have "prefix_overlaps (rr_prefix r) (rr_prefix s)"
        using prefix_overlaps_iff [OF pl] pp by blast
      from prefix_nested [OF pl this] consider
        (eq) "pfx_bits (rr_prefix r) = pfx_bits (rr_prefix s)" "prefix_contains (rr_prefix r) (pfx_addr (rr_prefix s))"
        | (lt) "pfx_bits (rr_prefix r) < pfx_bits (rr_prefix s)" "prefix_contains (rr_prefix r) (pfx_addr (rr_prefix s))"
        | (gt) "pfx_bits (rr_prefix s) < pfx_bits (rr_prefix r)" "prefix_contains (rr_prefix s) (pfx_addr (rr_prefix r))"
        | (eq2) "pfx_bits (rr_prefix r) = pfx_bits (rr_prefix s)" "prefix_contains (rr_prefix s) (pfx_addr (rr_prefix r))"
        by (auto simp: prefix_covers_def le_less)
      then have "rr_prefix r = rr_prefix s \<or> is_parent r s \<or> is_parent s r"
      proof cases
        case eq
        then have "rr_prefix r = rr_prefix s"
          using masked_at [OF pl(1) mk(1) _ eq(2)] pl(2) plain_prefix_from [OF pl(2)] mk(2)
          by (simp add: plain_prefix_def)
        then show ?thesis ..
      next
        case eq2
        then have "rr_prefix r = rr_prefix s"
          using masked_at [OF pl(2) mk(2) _ eq2(2)] pl(1) plain_prefix_from [OF pl(1)] mk(1)
          by (simp add: plain_prefix_def)
        then show ?thesis ..
      qed (use pp in \<open>auto simp: is_parent_def kind_is_prefix_def kind_is_domain_def\<close>)
      moreover have "rr_prefix r = rr_prefix s \<Longrightarrow> same_target r s"
        using pp rule_wf_prefix(4) [OF assms(1)] rule_wf_prefix(4) [OF assms(2)]
        by (auto simp: same_target_def kind_is_prefix_def split: if_splits)
      ultimately show ?thesis by blast
    qed
  qed
qed

end
