(* ===== verification/Priority.thy ===== *)
theory Priority
  imports Overlaps
begin

text \<open>
  \<open>internal/planner/priority.go\<close>: the operator's order of lists decides which list owns a
  destination that several claim. The main facts: the routed union does not change, every rule
  that is moved out is wholly covered by a rule that stays, and a second pass changes nothing.
\<close>

definition position :: "string list \<Rightarrow> string \<Rightarrow> nat" where
  "position priority i = length (takeWhile (\<lambda>x. x \<noteq> i) priority)"

definition better :: "string list \<Rightarrow> string \<Rightarrow> string \<Rightarrow> bool" where
  "better priority a b \<longleftrightarrow>
     position priority a < position priority b \<or> (position priority a = position priority b \<and> a < b)"

definition drop_key :: "RuleKind \<Rightarrow> string \<Rightarrow> string \<Rightarrow> string" where
  "drop_key k v l = overlap_key k v @ nul @ l"

definition rule_drop_key :: "route_rule \<Rightarrow> string" where
  "rule_drop_key r = drop_key (rr_kind r) (rule_value r) (rr_list r)"

definition best_owner :: "string list \<Rightarrow> string list \<Rightarrow> string" where
  "best_owner priority owners =
     foldl (\<lambda>winner ow. if better priority ow winner then ow else winner) (hd owners) (tl owners)"

definition group_drops ::
  "string list \<Rightarrow> groups \<Rightarrow> (RuleKind \<Rightarrow> int list) \<Rightarrow> overlap_group \<Rightarrow> string list" where
  "group_drops priority gs widths g =
     (let owners = StableStrings (ov_lists (og_entry g));
          r = og_rule g;
          dk = drop_key (rr_kind r) (rule_value r);
          winner = best_owner priority owners
      in (if 1 < length owners then map dk (filter (\<lambda>ow. ow \<noteq> winner) owners) else []) @
         concat (map (\<lambda>pk. case map_of gs pk of
             None \<Rightarrow> []
           | Some p \<Rightarrow> map dk (filter (\<lambda>ow. \<exists>c \<in> set (StableStrings (ov_lists (og_entry p))).
                         ow \<noteq> c \<and> better priority c ow) owners))
           (overlap_parents r widths)))"

definition dropped_keys :: "string list \<Rightarrow> route_rule list \<Rightarrow> string list" where
  "dropped_keys priority rules =
     (let gs = overlap_groups rules; widths = widths_of (filter rule_valid rules)
      in concat (map (group_drops priority gs widths) (map snd gs)))"

abbreviation ReasonLowerPriorityOverlap :: string where
  "ReasonLowerPriorityOverlap \<equiv> ''lower_priority_overlap''"

definition lower_priority :: "route_rule \<Rightarrow> excluded" where
  "lower_priority r = \<lparr>ex_candidate = r, ex_outcome = ''rejected'',
     ex_reasons = [ReasonLowerPriorityOverlap], ex_refs = rr_refs r\<rparr>"

definition ApplyListPriority :: "routing_plan \<Rightarrow> string list \<Rightarrow> routing_plan" where
  "ApplyListPriority plan priority =
     (if length (pl_rules plan) < 2 then plan
      else let dropped = dropped_keys priority (pl_rules plan) in
      if dropped = [] then plan
      else plan\<lparr>pl_rules := filter (\<lambda>r. rule_drop_key r \<notin> set dropped) (pl_rules plan),
                pl_excluded := pl_excluded plan @
                  map lower_priority (filter (\<lambda>r. rule_drop_key r \<in> set dropped) (pl_rules plan))\<rparr>)"

section \<open>Groups\<close>

lemma foldl_extend_group:
  "og_rule (foldl extend_group g rs) = og_rule g"
  "og_entry (foldl extend_group g rs) =
     (og_entry g)\<lparr>ov_lists := ov_lists (og_entry g) @ map rr_list rs\<rparr>"
  by (induction rs arbitrary: g) (auto simp: extend_group_def)

lemma overlap_groups_lookup:
  assumes "map_of (overlap_groups rules) k = Some g"
  obtains r where "r \<in> set rules" "rule_valid r" "rule_key r = k" "og_rule g = r"
    "ov_kind (og_entry g) = rr_kind r" "ov_value (og_entry g) = rule_value r"
    "ov_lists (og_entry g) = map rr_list (filter (\<lambda>s. rule_valid s \<and> rule_key s = k) rules)"
proof -
  have m: "merge_all new_group extend_group (filter (\<lambda>s. rule_key s = k) (filter rule_valid rules)) = Some g"
    using assms by (simp add: overlap_groups_def map_of_group_fold)
  then obtain r rs where f: "filter (\<lambda>s. rule_key s = k) (filter rule_valid rules) = r # rs"
    by (cases "filter (\<lambda>s. rule_key s = k) (filter rule_valid rules)") auto
  have e: "filter (\<lambda>s. rule_valid s \<and> rule_key s = k) rules = r # rs"
    using f by (simp add: conj_commute)
  have "r \<in> set (filter (\<lambda>s. rule_key s = k) (filter rule_valid rules))" unfolding f by simp
  then have "r \<in> set rules" "rule_valid r" "rule_key r = k" by auto
  moreover have "g = foldl extend_group (new_group r) rs" using m f by simp
  ultimately show ?thesis
    using that [of r] e by (simp add: foldl_extend_group new_group_def)
qed

lemma group_list_mem:
  assumes "map_of (overlap_groups rules) k = Some g"
  shows "c \<in> set (ov_lists (og_entry g)) \<longleftrightarrow>
    (\<exists>s \<in> set rules. rule_valid s \<and> rule_key s = k \<and> rr_list s = c)"
  by (rule overlap_groups_lookup [OF assms]) auto

lemma overlap_groups_None:
  "map_of (overlap_groups rules) k = None \<longleftrightarrow> (\<forall>r \<in> set rules. rule_valid r \<longrightarrow> rule_key r \<noteq> k)"
  by (auto simp: overlap_groups_def group_fold_lookup_None)

lemma overlap_groups_mem:
  "g \<in> snd ` set (overlap_groups rules) \<longleftrightarrow> (\<exists>k. map_of (overlap_groups rules) k = Some g)"
  by (force simp: overlap_groups_def)

lemma set_widths_of:
  "b \<in> set (widths_of ws k) \<longleftrightarrow>
     kind_is_prefix k \<and> (\<exists>w \<in> set ws. rr_kind w = k \<and> pfx_bits (rr_prefix w) = b)"
  by (auto simp: widths_of_def)

lemma widths_ok_of:
  assumes "\<forall>r \<in> set rules. rule_wf r" "set ws \<subseteq> set rules"
    "\<forall>p \<in> set rules. kind_is_prefix (rr_kind p) \<longrightarrow>
       (\<exists>w \<in> set ws. rr_kind w = rr_kind p \<and> pfx_bits (rr_prefix w) = pfx_bits (rr_prefix p))"
  shows "widths_ok (widths_of ws) rules"
proof -
  have "0 \<le> pfx_bits (rr_prefix r)" if "r \<in> set ws" "kind_is_prefix (rr_kind r)" for r
    using rule_wf_prefix(1) [of r] that assms(1,2) by (auto simp: plain_prefix_def)
  then show ?thesis
    using assms(3) by (auto simp: widths_ok_def set_widths_of)
qed

section \<open>The operator's order\<close>

lemma better_irrefl [simp]: "\<not> better priority a a"
  by (simp add: better_def)

lemma better_trans: "better priority a b \<Longrightarrow> better priority b c \<Longrightarrow> better priority a c"
  by (auto simp: better_def)

lemma better_total: "a \<noteq> b \<Longrightarrow> better priority a b \<or> better priority b a"
  by (auto simp: better_def)

lemma better_best:
  assumes "finite A" "A \<noteq> {}"
  obtains a where "a \<in> A" "\<And>b. b \<in> A \<Longrightarrow> \<not> better priority (f b) (f a)"
  using assms
proof (induction A arbitrary: thesis rule: finite_ne_induct)
  case (insert x F)
  then obtain a where a: "a \<in> F" "\<And>b. b \<in> F \<Longrightarrow> \<not> better priority (f b) (f a)" by blast
  show ?case
  proof (cases "better priority (f x) (f a)")
    case True
    with a insert.prems [of x] show ?thesis using better_trans by (metis better_irrefl insert_iff)
  next
    case False
    with a insert.prems [of a] show ?thesis by auto
  qed
qed auto

lemma foldl_best:
  "foldl (\<lambda>w ow. if better priority ow w then ow else w) w0 xs \<in> insert w0 (set xs) \<and>
   (\<forall>x \<in> insert w0 (set xs).
      \<not> better priority x (foldl (\<lambda>w ow. if better priority ow w then ow else w) w0 xs))"
proof (induction xs arbitrary: w0)
  case (Cons x xs)
  define w where "w = (if better priority x w0 then x else w0)"
  define r where "r = foldl (\<lambda>w ow. if better priority ow w then ow else w) w xs"
  have i: "r \<in> insert w (set xs)" and n: "\<forall>y \<in> insert w (set xs). \<not> better priority y r"
    using Cons [of w] unfolding r_def by blast+
  have "\<not> better priority x r" "\<not> better priority w0 r"
    using n better_trans [of priority x w0 r] better_trans [of priority w0 x r] better_total [of x w0 priority]
    by (auto simp: w_def split: if_splits)
  moreover have "r \<in> insert w0 (insert x (set xs))" using i by (auto simp: w_def split: if_splits)
  ultimately show ?case using n by (auto simp: r_def w_def [symmetric])
qed simp

lemma best_owner_iff:
  assumes "owners \<noteq> []" "ow \<in> set owners"
  shows "ow \<noteq> best_owner priority owners \<longleftrightarrow> (\<exists>c \<in> set owners. better priority c ow)"
proof -
  have "insert (hd owners) (set (tl owners)) = set owners"
    using assms(1) by (cases owners) auto
  then have "best_owner priority owners \<in> set owners"
    "\<forall>x \<in> set owners. \<not> better priority x (best_owner priority owners)"
    using foldl_best [of priority "hd owners" "tl owners"] by (auto simp: best_owner_def)
  then show ?thesis using better_total assms(2) by metis
qed

section \<open>What is dropped\<close>

definition outranks :: "string list \<Rightarrow> route_rule \<Rightarrow> route_rule \<Rightarrow> bool" where
  "outranks priority s r \<longleftrightarrow>
     better priority (rr_list s) (rr_list r) \<and> (same_target s r \<or> is_parent s r)"

lemma outranks_covers: "outranks priority s r \<Longrightarrow> rule_matches r d \<Longrightarrow> rule_matches s d"
  by (auto simp: outranks_def same_target_matches dest: is_parent_covers)

lemma outranks_better: "outranks priority s r \<Longrightarrow> better priority (rr_list s) (rr_list r)"
  by (simp add: outranks_def)

lemma same_target_sym: "same_target r s \<longleftrightarrow> same_target s r"
  by (auto simp: same_target_def)

lemma is_parent_same: "same_target r r' \<Longrightarrow> is_parent p r \<longleftrightarrow> is_parent p r'"
  by (auto simp: same_target_def is_parent_def)

lemma parents_same: "same_target r r' \<Longrightarrow> kind_is_domain (rr_kind r) \<or> kind_is_ip (rr_kind r) \<or> kind_is_prefix (rr_kind r)
  \<Longrightarrow> overlap_parents r W = overlap_parents r' W"
  by (auto simp: same_target_def overlap_parents_def)

lemma rule_drop_key_eq:
  assumes "rule_wf r" "rule_wf s"
  shows "rule_drop_key r = rule_drop_key s \<longleftrightarrow> same_target r s \<and> rr_list r = rr_list s"
proof -
  have n: "CHR 0x00 \<notin> set (rule_value r)" "CHR 0x00 \<notin> set (rule_value s)"
    "CHR 0x00 \<notin> set (kind_str (rr_kind r))" "CHR 0x00 \<notin> set (kind_str (rr_kind s))"
    using assms rule_value_no_nul nul_not_plain rule_wf_not_other by metis+
  have "rule_drop_key r = rule_drop_key s \<longleftrightarrow>
      kind_str (rr_kind r) = kind_str (rr_kind s) \<and> rule_value r = rule_value s \<and> rr_list r = rr_list s"
    using n by (simp add: rule_drop_key_def drop_key_def overlap_key_def nul_split)
  also have "\<dots> \<longleftrightarrow> rule_key r = rule_key s \<and> rr_list r = rr_list s"
    using n by (auto simp: rule_key_def overlap_key_def nul_split)
  finally show ?thesis using assms by (simp add: rule_key_eq)
qed

lemma set_concat_lookup:
  "set (concat (map (\<lambda>k. case m k of None \<Rightarrow> [] | Some p \<Rightarrow> map f (filter (Q p) xs)) ks)) =
    f ` {x \<in> set xs. \<exists>k \<in> set ks. \<exists>p. m k = Some p \<and> Q p x}"
proof (induction ks)
  case (Cons k ks)
  then show ?case by (cases "m k") (simp_all, blast)
qed simp

lemma same_target_trans: "same_target r q \<Longrightarrow> same_target s r \<longleftrightarrow> same_target s q"
  by (auto simp: same_target_def)

lemma outranks_same:
  "same_target r q \<Longrightarrow> rr_list r = rr_list q \<Longrightarrow> outranks priority s r \<longleftrightarrow> outranks priority s q"
  using is_parent_same [of r q s] same_target_trans [of r q s] by (simp add: outranks_def)

lemma set_group_drops:
  assumes wf: "\<forall>r \<in> set rules. rule_wf r" and W: "widths_ok W rules"
    and g: "map_of (overlap_groups rules) k = Some g"
  shows "set (group_drops priority (overlap_groups rules) W g) =
    {rule_drop_key r | r. r \<in> set rules \<and> rule_key r = k \<and> (\<exists>s \<in> set rules. outranks priority s r)}"
proof -
  have valid: "rule_valid s" if "s \<in> set rules" for s using wf that by (auto simp: rule_wf_def)
  obtain q where q: "q \<in> set rules" "rule_key q = k" "og_rule g = q"
    and lists: "set (ov_lists (og_entry g)) = {rr_list s | s. s \<in> set rules \<and> rule_key s = k}"
    using overlap_groups_lookup [OF g] valid by (smt (verit) Collect_cong list.set_map set_filter setcompr_eq_image mem_Collect_eq)
  let ?owners = "StableStrings (ov_lists (og_entry g))"
  have so: "set ?owners = {rr_list s | s. s \<in> set rules \<and> rule_key s = k}"
    by (simp add: StableStrings_sort_unique lists)
  have ne: "?owners \<noteq> []" using so q by fastforce
  have key: "rule_key s = k \<longleftrightarrow> same_target q s" if "s \<in> set rules" for s
    using rule_key_eq wf q that by metis
  have dk: "drop_key (rr_kind q) (rule_value q) (rr_list s) = rule_drop_key s"
    if "s \<in> set rules" "rule_key s = k" for s
    using that q wf rule_wf_not_other unfolding rule_drop_key_def rule_key_def
    by (metis overlap_key_inj)
  define parent where "parent ow \<longleftrightarrow> (\<exists>p \<in> set rules. is_parent p q \<and> better priority (rr_list p) ow)" for ow
  define twin where "twin ow \<longleftrightarrow> (\<exists>p \<in> set rules. same_target p q \<and> better priority (rr_list p) ow)" for ow
  have one: "set (if 1 < length ?owners then
      map (drop_key (rr_kind q) (rule_value q)) (filter (\<lambda>ow. ow \<noteq> best_owner priority ?owners) ?owners) else [])
    = drop_key (rr_kind q) (rule_value q) ` {ow \<in> set ?owners. twin ow}"
  proof -
    have t: "twin ow \<longleftrightarrow> (\<exists>c \<in> set ?owners. better priority c ow)" for ow
      unfolding so twin_def using key same_target_sym by fastforce
    have "\<not> 1 < length ?owners \<Longrightarrow> ow \<in> set ?owners \<Longrightarrow> \<not> twin ow" for ow
      using ne unfolding t by (cases ?owners; cases "tl ?owners") auto
    then have "{ow \<in> set ?owners. twin ow} = set (if 1 < length ?owners then
        filter (\<lambda>ow. ow \<noteq> best_owner priority ?owners) ?owners else [])"
      using t best_owner_iff [OF ne, of _ priority]
      by (cases "1 < length ?owners") (simp_all del: One_nat_def cong: conj_cong)
    then show ?thesis by (cases "1 < length ?owners") simp_all
  qed
  have two: "set (concat (map (\<lambda>pk. case map_of (overlap_groups rules) pk of
             None \<Rightarrow> []
           | Some p \<Rightarrow> map (drop_key (rr_kind q) (rule_value q))
               (filter (\<lambda>ow. \<exists>c \<in> set (StableStrings (ov_lists (og_entry p))).
                         ow \<noteq> c \<and> better priority c ow) ?owners))
           (overlap_parents q W)))
    = drop_key (rr_kind q) (rule_value q) ` {ow \<in> set ?owners. parent ow}"
  proof -
    have par: "(\<exists>pk \<in> set (overlap_parents q W). \<exists>p. map_of (overlap_groups rules) pk = Some p \<and>
          (\<exists>c \<in> set (StableStrings (ov_lists (og_entry p))). ow \<noteq> c \<and> better priority c ow)) \<longleftrightarrow> parent ow"
      (is "?L \<longleftrightarrow> _") for ow
    proof
      assume ?L
      then obtain pk p c where pk: "pk \<in> set (overlap_parents q W)" "map_of (overlap_groups rules) pk = Some p"
        and c: "c \<in> set (ov_lists (og_entry p))" "better priority c ow"
        unfolding StableStrings_sort_unique set_sort_unique by blast
      then obtain s where "s \<in> set rules" "rule_key s = pk" "rr_list s = c"
        using group_list_mem by blast
      then show "parent ow"
        using pk(1) c(2) overlap_parents_iff [OF _ _ W] wf q(1) by (auto simp: parent_def)
    next
      assume "parent ow"
      then obtain p where p: "p \<in> set rules" "is_parent p q" "better priority (rr_list p) ow"
        by (auto simp: parent_def)
      then have "rule_key p \<in> set (overlap_parents q W)"
        using overlap_parents_iff [OF _ _ W] wf q(1) by auto
      moreover obtain g' where g': "map_of (overlap_groups rules) (rule_key p) = Some g'"
        using p(1) valid overlap_groups_None by (metis not_None_eq)
      moreover have "rr_list p \<in> set (ov_lists (og_entry g'))"
        using group_list_mem [OF g'] p(1) valid by blast
      moreover have "ow \<noteq> rr_list p" using p(3) by auto
      ultimately show ?L
        using p(3) unfolding StableStrings_sort_unique set_sort_unique by blast
    qed
    show ?thesis unfolding set_concat_lookup par ..
  qed
  have out: "(\<exists>s \<in> set rules. outranks priority s r) \<longleftrightarrow> twin (rr_list r) \<or> parent (rr_list r)"
    if "r \<in> set rules" "rule_key r = k" for r
  proof -
    have st: "same_target q r" using key that by simp
    then have "same_target s r \<longleftrightarrow> same_target s q" for s by (auto simp: same_target_def)
    with is_parent_same [OF st] show ?thesis by (auto simp: outranks_def twin_def parent_def)
  qed
  have "set (group_drops priority (overlap_groups rules) W g) =
      drop_key (rr_kind q) (rule_value q) ` {ow \<in> set ?owners. twin ow \<or> parent ow}"
    using one two by (simp add: group_drops_def Let_def q(3) Collect_disj_eq conj_disj_distribL image_Un)
  also have "\<dots> = {rule_drop_key r | r. r \<in> set rules \<and> rule_key r = k \<and> (\<exists>s \<in> set rules. outranks priority s r)}"
  proof (rule set_eqI, rule iffI)
    fix x
    assume "x \<in> drop_key (rr_kind q) (rule_value q) ` {ow \<in> set ?owners. twin ow \<or> parent ow}"
    then obtain s where "s \<in> set rules" "rule_key s = k" "twin (rr_list s) \<or> parent (rr_list s)"
      "x = drop_key (rr_kind q) (rule_value q) (rr_list s)" unfolding so by blast
    with out dk show "x \<in> {rule_drop_key r | r. r \<in> set rules \<and> rule_key r = k \<and>
        (\<exists>s \<in> set rules. outranks priority s r)}" by blast
  next
    fix x
    assume "x \<in> {rule_drop_key r | r. r \<in> set rules \<and> rule_key r = k \<and>
        (\<exists>s \<in> set rules. outranks priority s r)}"
    then obtain r where r: "r \<in> set rules" "rule_key r = k" "\<exists>s \<in> set rules. outranks priority s r"
      "x = rule_drop_key r" by blast
    then have "rr_list r \<in> {ow \<in> set ?owners. twin ow \<or> parent ow}"
      using out so by blast
    then show "x \<in> drop_key (rr_kind q) (rule_value q) ` {ow \<in> set ?owners. twin ow \<or> parent ow}"
      using r dk by (metis (lifting) image_eqI)
  qed
  finally show ?thesis .
qed

lemma set_dropped_keys:
  assumes wf: "\<forall>r \<in> set rules. rule_wf r"
  shows "set (dropped_keys priority rules) =
    {rule_drop_key r | r. r \<in> set rules \<and> (\<exists>s \<in> set rules. outranks priority s r)}"
proof -
  let ?W = "widths_of (filter rule_valid rules)"
  have valid: "rule_valid s" if "s \<in> set rules" for s using wf that by (auto simp: rule_wf_def)
  have W: "widths_ok ?W rules"
    using valid by (intro widths_ok_of wf) auto
  have u: "x \<in> set (dropped_keys priority rules) \<longleftrightarrow>
      (\<exists>g \<in> snd ` set (overlap_groups rules). x \<in> set (group_drops priority (overlap_groups rules) ?W g))" for x
    by (simp add: dropped_keys_def Let_def)
  show ?thesis
  proof (rule set_eqI, rule iffI)
    fix x
    assume "x \<in> set (dropped_keys priority rules)"
    then obtain k g where "map_of (overlap_groups rules) k = Some g"
      "x \<in> set (group_drops priority (overlap_groups rules) ?W g)"
      using u overlap_groups_mem by blast
    with set_group_drops [OF wf W] show
      "x \<in> {rule_drop_key r | r. r \<in> set rules \<and> (\<exists>s \<in> set rules. outranks priority s r)}" by blast
  next
    fix x
    assume "x \<in> {rule_drop_key r | r. r \<in> set rules \<and> (\<exists>s \<in> set rules. outranks priority s r)}"
    then obtain r where r: "x = rule_drop_key r" "r \<in> set rules" "\<exists>s \<in> set rules. outranks priority s r"
      by blast
    obtain g where g: "map_of (overlap_groups rules) (rule_key r) = Some g"
      using overlap_groups_None [of rules "rule_key r"] valid r(2) by blast
    then have "x \<in> set (group_drops priority (overlap_groups rules) ?W g)"
      unfolding set_group_drops [OF wf W g] using r by blast
    with g show "x \<in> set (dropped_keys priority rules)"
      using u overlap_groups_mem by blast
  qed
qed

lemma dropped_iff:
  assumes "\<forall>r \<in> set rules. rule_wf r" "r \<in> set rules"
  shows "rule_drop_key r \<in> set (dropped_keys priority rules) \<longleftrightarrow> (\<exists>s \<in> set rules. outranks priority s r)"
proof -
  have e: "outranks priority s r \<longleftrightarrow> outranks priority s q"
    if "q \<in> set rules" "rule_drop_key r = rule_drop_key q" for s q
  proof -
    have "same_target r q \<and> rr_list r = rr_list q"
      using rule_drop_key_eq [of r q] assms that by simp
    then show ?thesis using outranks_same by blast
  qed
  show ?thesis
  proof
    assume "rule_drop_key r \<in> set (dropped_keys priority rules)"
    then obtain q s where "q \<in> set rules" "rule_drop_key r = rule_drop_key q" "s \<in> set rules"
      "outranks priority s q"
      unfolding set_dropped_keys [OF assms(1)] by blast
    with e show "\<exists>s \<in> set rules. outranks priority s r" by blast
  next
    assume "\<exists>s \<in> set rules. outranks priority s r"
    with assms(2) show "rule_drop_key r \<in> set (dropped_keys priority rules)"
      unfolding set_dropped_keys [OF assms(1)] by blast
  qed
qed

text \<open>The result as one filter, whatever early return the code takes.\<close>

definition outranked :: "string list \<Rightarrow> route_rule list \<Rightarrow> route_rule \<Rightarrow> bool" where
  "outranked priority rules r \<longleftrightarrow> (\<exists>s \<in> set rules. outranks priority s r)"

lemma priority_rules:
  assumes wf: "\<forall>r \<in> set (pl_rules plan). rule_wf r"
  shows "pl_rules (ApplyListPriority plan priority) = filter (\<lambda>r. \<not> outranked priority (pl_rules plan) r) (pl_rules plan)"
    "pl_excluded (ApplyListPriority plan priority) =
       pl_excluded plan @ map lower_priority (filter (outranked priority (pl_rules plan)) (pl_rules plan))"
    "\<lbrakk>\<forall>r \<in> set (pl_rules plan). \<not> outranked priority (pl_rules plan) r\<rbrakk> \<Longrightarrow> ApplyListPriority plan priority = plan"
proof -
  let ?D = "dropped_keys priority (pl_rules plan)"
  have d: "rule_drop_key r \<in> set ?D \<longleftrightarrow> outranked priority (pl_rules plan) r" if "r \<in> set (pl_rules plan)" for r
    using dropped_iff [OF wf that] by (simp add: outranked_def)
  have e: "?D = [] \<longleftrightarrow> (\<forall>r \<in> set (pl_rules plan). \<not> outranked priority (pl_rules plan) r)"
    using set_dropped_keys [OF wf, of priority] unfolding set_empty [symmetric] by (auto simp: outranked_def)
  have short: "\<not> outranked priority (pl_rules plan) r" if l: "length (pl_rules plan) < 2" and r: "r \<in> set (pl_rules plan)" for r
  proof -
    have "pl_rules plan = [r]" using l r by (cases "pl_rules plan"; cases "tl (pl_rules plan)") auto
    then show ?thesis by (simp add: outranked_def outranks_def)
  qed
  have f: "filter (\<lambda>r. rule_drop_key r \<notin> set ?D) (pl_rules plan) = filter (\<lambda>r. \<not> outranked priority (pl_rules plan) r) (pl_rules plan)"
    "filter (\<lambda>r. rule_drop_key r \<in> set ?D) (pl_rules plan) = filter (outranked priority (pl_rules plan)) (pl_rules plan)"
    using d by (auto intro: filter_cong)
  have none: "filter (\<lambda>r. \<not> outranked priority (pl_rules plan) r) (pl_rules plan) = pl_rules plan \<and> filter (outranked priority (pl_rules plan)) (pl_rules plan) = []"
    if "\<forall>r \<in> set (pl_rules plan). \<not> outranked priority (pl_rules plan) r" using that by (auto simp: filter_id_conv filter_empty_conv)
  show "pl_rules (ApplyListPriority plan priority) = filter (\<lambda>r. \<not> outranked priority (pl_rules plan) r) (pl_rules plan)"
    using short none e f by (auto simp: ApplyListPriority_def Let_def)
  show "pl_excluded (ApplyListPriority plan priority) =
       pl_excluded plan @ map lower_priority (filter (outranked priority (pl_rules plan)) (pl_rules plan))"
    using short none e f by (auto simp: ApplyListPriority_def Let_def)
  show "ApplyListPriority plan priority = plan" if "\<forall>r \<in> set (pl_rules plan). \<not> outranked priority (pl_rules plan) r"
    using that e by (simp add: ApplyListPriority_def Let_def)
qed

lemma best_cover:
  assumes "\<exists>s \<in> set rules. P s"
    and "\<And>s t. P s \<Longrightarrow> outranks priority t s \<Longrightarrow> P t"
  shows "\<exists>s \<in> set rules. P s \<and> \<not> (\<exists>t \<in> set rules. outranks priority t s)"
proof -
  obtain s where "s \<in> {s \<in> set rules. P s}"
    "\<And>t. t \<in> {s \<in> set rules. P s} \<Longrightarrow> \<not> better priority (rr_list t) (rr_list s)"
    using better_best [of "{s \<in> set rules. P s}" priority rr_list] assms(1) by auto
  with assms(2) show ?thesis by (auto simp: outranks_def)
qed

section \<open>Properties\<close>

text \<open>
  C36. Applying the operator's order never changes what is routed: a destination is matched by a
  rule of the result exactly when it was matched by a rule of the plan.
\<close>

theorem priority_keeps_union:
  assumes "\<forall>r \<in> set (pl_rules plan). rule_wf r"
  shows "(\<exists>r \<in> set (pl_rules (ApplyListPriority plan priority)). rule_matches r d) \<longleftrightarrow>
         (\<exists>r \<in> set (pl_rules plan). rule_matches r d)"
proof
  assume "\<exists>r \<in> set (pl_rules plan). rule_matches r d"
  then have "\<exists>s \<in> set (pl_rules plan). rule_matches s d \<and>
      \<not> (\<exists>t \<in> set (pl_rules plan). outranks priority t s)"
    using outranks_covers by (intro best_cover) auto
  then show "\<exists>r \<in> set (pl_rules (ApplyListPriority plan priority)). rule_matches r d"
    by (auto simp: priority_rules(1) [OF assms] outranked_def)
qed (auto simp: priority_rules(1) [OF assms])

text \<open>
  C37. Nothing disappears and nothing is moved without cause: the rules of the plan are the rules
  that stay and the rules recorded as excluded, in the same multiplicities, and each recorded
  rule belongs to a list ranked below the owner of a rule that stays and routes everything the
  recorded rule routed.
\<close>

theorem priority_accounts_for_rules:
  assumes "\<forall>r \<in> set (pl_rules plan). rule_wf r"
  shows "\<exists>moved.
     pl_excluded (ApplyListPriority plan priority) = pl_excluded plan @ map lower_priority moved \<and>
     mset (pl_rules plan) = mset (pl_rules (ApplyListPriority plan priority)) + mset moved \<and>
     (\<forall>r \<in> set moved. \<exists>s \<in> set (pl_rules (ApplyListPriority plan priority)).
        better priority (rr_list s) (rr_list r) \<and> (\<forall>d. rule_matches r d \<longrightarrow> rule_matches s d))"
proof (intro exI [of _ "filter (outranked priority (pl_rules plan)) (pl_rules plan)"] conjI ballI)
  let ?P = "outranked priority (pl_rules plan)"
  show "pl_excluded (ApplyListPriority plan priority) =
      pl_excluded plan @ map lower_priority (filter ?P (pl_rules plan))"
    by (rule priority_rules(2) [OF assms])
  show "mset (pl_rules plan) =
      mset (pl_rules (ApplyListPriority plan priority)) + mset (filter ?P (pl_rules plan))"
    by (simp add: priority_rules(1) [OF assms] add.commute)
  fix r
  assume r: "r \<in> set (filter ?P (pl_rules plan))"
  let ?C = "\<lambda>s. better priority (rr_list s) (rr_list r) \<and> (\<forall>d. rule_matches r d \<longrightarrow> rule_matches s d)"
  have "\<exists>s \<in> set (pl_rules plan). ?C s \<and> \<not> (\<exists>t \<in> set (pl_rules plan). outranks priority t s)"
  proof (rule best_cover)
    show "\<exists>s \<in> set (pl_rules plan). ?C s"
    proof -
      obtain s where "s \<in> set (pl_rules plan)" "outranks priority s r"
        using r by (auto simp: outranked_def)
      then show ?thesis using outranks_covers outranks_better by blast
    qed
    show "?C t" if "?C s" "outranks priority t s" for s t
      using that outranks_covers outranks_better better_trans by blast
  qed
  then show "\<exists>s \<in> set (pl_rules (ApplyListPriority plan priority)). ?C s"
    by (auto simp: priority_rules(1) [OF assms] outranked_def)
qed

text \<open>
  The order is settled in one pass: applying it again to the result changes nothing.
\<close>

theorem priority_idempotent:
  assumes "\<forall>r \<in> set (pl_rules plan). rule_wf r"
  shows "ApplyListPriority (ApplyListPriority plan priority) priority = ApplyListPriority plan priority"
proof -
  let ?q = "ApplyListPriority plan priority"
  have sub: "set (pl_rules ?q) \<subseteq> set (pl_rules plan)"
    "\<forall>r \<in> set (pl_rules ?q). \<not> outranked priority (pl_rules plan) r"
    by (auto simp: priority_rules(1) [OF assms])
  then have "\<forall>r \<in> set (pl_rules ?q). \<not> outranked priority (pl_rules ?q) r"
    by (auto simp: outranked_def)
  then show ?thesis
    using sub assms by (intro priority_rules(3)) auto
qed

definition sample_rule :: "RuleKind \<Rightarrow> addr \<Rightarrow> prefix \<Rightarrow> string \<Rightarrow> route_rule" where
  "sample_rule k a p l = mk_rule k [] a p l ''core'' SourceManual [] []"

definition sample_plan :: routing_plan where
  "sample_plan = \<lparr>pl_interface = [], pl_target = [], pl_format = [], pl_lists = [],
     pl_rules = [sample_rule RuleIPv4 (V4 0x08080808) no_prefix ''b'',
                 sample_rule RulePrefix4 NoAddr (Prefix (V4 0x08080000) 16) ''a''],
     pl_excluded = [], pl_warnings = [], pl_coverage = [], pl_relations = [], pl_sightings = [],
     pl_policy = [], pl_revision = [], pl_cutoff = 1, pl_hash = []\<rparr>"

lemma sample_plan_wf: "\<forall>r \<in> set (pl_rules sample_plan). rule_wf r"
  by (simp add: sample_plan_def sample_rule_def mk_rule_def rule_wf_def rule_valid_def validate_slug_def
      slug_char_def is_lower_def is_dec_def char_le_iff prefix_valid_def masked_def prefix_from_def
      clear_low_def drop_bit_eq_div push_bit_eq_mult)

theorem priority_keeps_union_witness:
  "\<exists>r \<in> set (pl_rules (ApplyListPriority sample_plan [''a''])). rule_matches r (DAddr (V4 0x08080808))"
  using priority_keeps_union [OF sample_plan_wf, of "[''a'']" "DAddr (V4 0x08080808)"]
  by (simp add: sample_plan_def sample_rule_def mk_rule_def)

theorem priority_accounts_for_rules_witness:
  "\<exists>moved. pl_excluded (ApplyListPriority sample_plan [''a'']) = map lower_priority moved \<and>
     mset (pl_rules sample_plan) = mset (pl_rules (ApplyListPriority sample_plan [''a''])) + mset moved"
  using priority_accounts_for_rules [OF sample_plan_wf, of "[''a'']"]
  by (auto simp: sample_plan_def)

theorem priority_idempotent_witness:
  "ApplyListPriority (ApplyListPriority sample_plan [''a'']) [''a''] = ApplyListPriority sample_plan [''a'']"
  by (rule priority_idempotent [OF sample_plan_wf])

end
