(* ===== verification/OverlapReport.thy ===== *)
theory OverlapReport
  imports Priority
begin

text \<open>
  What \<open>AnalyzeRuleOverlaps\<close> reports. The adjacency summary is exact: two lists are adjacent if
  and only if rules of theirs route a common destination. The detail rows are one fixed list,
  cut at the limit, and every row is a real duplicate or containment.
\<close>

section \<open>Edges\<close>

definition edge_ok :: "string \<times> string \<Rightarrow> bool" where
  "edge_ok e \<longleftrightarrow> fst e \<noteq> [] \<and> snd e \<noteq> [] \<and> fst e \<noteq> snd e"

definition links :: "string set \<Rightarrow> string set \<Rightarrow> (string \<times> string) set" where
  "links A B = {e. edge_ok e \<and> (fst e \<in> A \<and> snd e \<in> B \<or> fst e \<in> B \<and> snd e \<in> A)}"

lemma links_mem: "e \<in> links A B \<longleftrightarrow> edge_ok e \<and> (fst e \<in> A \<and> snd e \<in> B \<or> fst e \<in> B \<and> snd e \<in> A)"
  by (simp add: links_def)

lemma set_add_edge: "set (add_edge a b es) = set es \<union> links {a} {b}"
  by (auto simp: add_edge_def links_def edge_ok_def)

lemma set_edges_from: "set (st_edges (edges_from a bs s)) = set (st_edges s) \<union> links {a} (set bs)"
proof -
  have "set (foldl (\<lambda>es b. add_edge a b es) es bs) = set es \<union> links {a} (set bs)" for es
    by (induction bs arbitrary: es) (auto simp: set_add_edge links_mem)
  then show ?thesis by (simp add: edges_from_def)
qed

lemma set_pair_edges: "set (st_edges (pair_edges xs s)) = set (st_edges s) \<union> links (set xs) (set xs)"
proof (induction xs s rule: pair_edges.induct)
  case (2 a bs s)
  have "links (set (a # bs)) (set (a # bs)) = links {a} (set bs) \<union> links (set bs) (set bs)"
    unfolding links_def edge_ok_def by (rule set_eqI) (simp, metis)
  with 2 show ?case by (simp add: set_edges_from Un_assoc)
qed (simp add: links_def)

lemma edges_append_detail [simp]: "st_edges (append_detail limit s item) = st_edges s"
  by (simp add: append_detail_def)

lemma links_single: "length xs \<le> 1 \<Longrightarrow> links (set xs) (set xs) = {}"
  by (cases xs; cases "tl xs") (auto simp: links_mem edge_ok_def)

lemma edges_duplicate_step:
  "set (st_edges (duplicate_step limit s g)) =
     set (st_edges s) \<union> links (set (ov_lists (sorted_entry g))) (set (ov_lists (sorted_entry g)))"
  using links_single [of "ov_lists (sorted_entry g)"]
  by (auto simp: duplicate_step_def Let_def set_pair_edges)

lemma edges_covered_list_step:
  "set (st_edges (covered_list_step limit entry parent s l)) =
     set (st_edges s) \<union> links {l} (set (ov_lists parent))"
proof -
  have "links {l} (set (filter (\<lambda>ow. ow \<noteq> l) (ov_lists parent))) = links {l} (set (ov_lists parent))"
    unfolding links_def edge_ok_def by (rule set_eqI) (simp, metis)
  moreover have "st_edges (covered_list_step limit entry parent s l) =
      st_edges (edges_from l (filter (\<lambda>ow. ow \<noteq> l) (ov_lists parent)) s)"
    by (simp add: covered_list_step_def Let_def)
  ultimately show ?thesis by (simp only: set_edges_from)
qed

lemma foldl_edges:
  assumes "\<And>s x. set (st_edges (f s x)) = set (st_edges s) \<union> F x"
  shows "set (st_edges (foldl f s xs)) = set (st_edges s) \<union> (\<Union>x \<in> set xs. F x)"
  by (induction xs arbitrary: s) (auto simp: assms)

definition parent_links :: "groups \<Rightarrow> overlap_group \<Rightarrow> string \<Rightarrow> (string \<times> string) set" where
  "parent_links gs g pk = (case map_of gs pk of None \<Rightarrow> {}
     | Some p \<Rightarrow> links (set (ov_lists (sorted_entry g))) (set (ov_lists (sorted_entry p))))"

lemma edges_covered_parent_step:
  "set (st_edges (covered_parent_step limit gs g s pk)) = set (st_edges s) \<union> parent_links gs g pk"
proof (cases "map_of gs pk")
  case (Some p)
  have "(\<Union>l \<in> set (ov_lists (sorted_entry g)). links {l} (set (ov_lists (sorted_entry p)))) =
      links (set (ov_lists (sorted_entry g))) (set (ov_lists (sorted_entry p)))"
    by (auto simp: links_mem)
  with Some show ?thesis
    by (simp add: covered_parent_step_def parent_links_def
        foldl_edges [OF edges_covered_list_step])
qed (simp add: covered_parent_step_def parent_links_def)

lemma edges_covered_step:
  "set (st_edges (covered_step limit gs W s g)) =
     set (st_edges s) \<union> (\<Union>pk \<in> set (overlap_parents (og_rule g) W). parent_links gs g pk)"
  by (simp add: covered_step_def foldl_edges [OF edges_covered_parent_step])

lemma set_sorted_entry [simp]: "set (ov_lists (sorted_entry g)) = set (ov_lists (og_entry g))"
  by (simp add: sorted_entry_def StableStrings_sort_unique)

section \<open>Detail rows\<close>

definition detailed :: "nat \<Rightarrow> overlap_state \<Rightarrow> rule_overlap list \<Rightarrow> bool" where
  "detailed limit s D \<longleftrightarrow> st_items s = take limit D \<and> st_truncated s = (limit < length D)"

lemma detailed_append: "detailed limit s D \<Longrightarrow> detailed limit (append_detail limit s item) (D @ [item])"
  by (cases "limit \<le> length D") (simp_all add: detailed_def append_detail_def)

lemma detailed_edges [simp]: "detailed limit (edges_from a bs s) D = detailed limit s D"
  by (simp add: detailed_def edges_from_def)

lemma detailed_pairs [simp]: "detailed limit (pair_edges xs s) D = detailed limit s D"
  by (induction xs s rule: pair_edges.induct) auto

lemma foldl_detailed:
  assumes "\<And>s D x. detailed limit s D \<Longrightarrow> detailed limit (f s x) (D @ h x)" "detailed limit s D"
  shows "detailed limit (foldl f s xs) (D @ concat (map h xs))"
  using assms(2)
proof (induction xs arbitrary: s D)
  case (Cons x xs)
  from Cons.IH [OF assms(1) [OF Cons.prems]] show ?case by simp
qed simp

definition duplicate_items :: "overlap_group \<Rightarrow> rule_overlap list" where
  "duplicate_items g = (if 1 < length (ov_lists (sorted_entry g))
     then [\<lparr>ro_kind = ''duplicate'', ro_entry = sorted_entry g, ro_covering = None\<rparr>] else [])"

definition covered_items :: "overlap_value \<Rightarrow> overlap_value \<Rightarrow> string \<Rightarrow> rule_overlap list" where
  "covered_items entry parent l =
     (let owners = filter (\<lambda>ow. ow \<noteq> l) (ov_lists parent) in
      if owners = [] then []
      else [\<lparr>ro_kind = ''covered'', ro_entry = entry\<lparr>ov_lists := [l]\<rparr>,
             ro_covering = Some (parent\<lparr>ov_lists := owners\<rparr>)\<rparr>])"

definition parent_items :: "groups \<Rightarrow> overlap_group \<Rightarrow> string \<Rightarrow> rule_overlap list" where
  "parent_items gs g pk = (case map_of gs pk of None \<Rightarrow> []
     | Some p \<Rightarrow> concat (map (covered_items (sorted_entry g) (sorted_entry p)) (ov_lists (sorted_entry g))))"

lemma detailed_duplicate:
  "detailed limit s D \<Longrightarrow> detailed limit (duplicate_step limit s g) (D @ duplicate_items g)"
  by (auto simp: duplicate_step_def duplicate_items_def Let_def intro: detailed_append)

lemma detailed_covered_list:
  "detailed limit s D \<Longrightarrow> detailed limit (covered_list_step limit e p s l) (D @ covered_items e p l)"
  by (auto simp: covered_list_step_def covered_items_def Let_def intro: detailed_append)

lemma detailed_covered_parent:
  "detailed limit s D \<Longrightarrow> detailed limit (covered_parent_step limit gs g s pk) (D @ parent_items gs g pk)"
  by (cases "map_of gs pk")
    (auto simp: covered_parent_step_def parent_items_def intro: foldl_detailed detailed_covered_list)

definition group_items :: "groups \<Rightarrow> (RuleKind \<Rightarrow> int list) \<Rightarrow> overlap_group \<Rightarrow> rule_overlap list" where
  "group_items gs W g = concat (map (parent_items gs g) (overlap_parents (og_rule g) W))"

lemma detailed_covered:
  "detailed limit s D \<Longrightarrow> detailed limit (covered_step limit gs W s g) (D @ group_items gs W g)"
  by (auto simp: covered_step_def group_items_def intro: foldl_detailed detailed_covered_parent)

definition all_details :: "route_rule list \<Rightarrow> rule_overlap list" where
  "all_details rules =
     (let gs = overlap_groups rules; W = widths_of (map (og_rule \<circ> snd) gs); ordered = map snd (sort_key fst gs)
      in concat (map duplicate_items ordered) @ concat (map (group_items gs W) ordered))"

lemma report_items:
  "ovs_items (AnalyzeRuleOverlaps rules limit) = take (nat (max 0 limit)) (all_details rules)"
  "ovs_truncated (AnalyzeRuleOverlaps rules limit) \<longleftrightarrow> nat (max 0 limit) < length (all_details rules)"
proof -
  let ?l = "nat (max 0 limit)" and ?gs = "overlap_groups rules"
  let ?W = "widths_of (map (og_rule \<circ> snd) ?gs)" and ?o = "map snd (sort_key fst ?gs)"
  let ?s0 = "\<lparr>st_items = [], st_truncated = False, st_edges = []\<rparr>"
  have "detailed ?l ?s0 []" by (simp add: detailed_def)
  then have "detailed ?l (foldl (duplicate_step ?l) ?s0 ?o) ([] @ concat (map duplicate_items ?o))"
    by (intro foldl_detailed detailed_duplicate)
  then have "detailed ?l (foldl (covered_step ?l ?gs ?W) (foldl (duplicate_step ?l) ?s0 ?o) ?o)
      (([] @ concat (map duplicate_items ?o)) @ concat (map (group_items ?gs ?W) ?o))"
    by (intro foldl_detailed [where f = "covered_step ?l ?gs ?W"] detailed_covered)
  then show "ovs_items (AnalyzeRuleOverlaps rules limit) = take ?l (all_details rules)"
    "ovs_truncated (AnalyzeRuleOverlaps rules limit) \<longleftrightarrow> ?l < length (all_details rules)"
    by (simp_all add: AnalyzeRuleOverlaps_def Let_def detailed_def all_details_def)
qed

section \<open>The summary is exact\<close>

text \<open>What is known of a group of well-formed rules.\<close>

lemma group_of:
  assumes "\<forall>r \<in> set rules. rule_wf r" "map_of (overlap_groups rules) k = Some g"
  shows "og_rule g \<in> set rules" "rule_key (og_rule g) = k"
    "set (ov_lists (og_entry g)) = {rr_list s | s. s \<in> set rules \<and> rule_key s = k}"
    "ov_kind (og_entry g) = rr_kind (og_rule g)" "ov_value (og_entry g) = rule_value (og_rule g)"
proof -
  have v: "rule_valid s" if "s \<in> set rules" for s using assms(1) that by (auto simp: rule_wf_def)
  show "set (ov_lists (og_entry g)) = {rr_list s | s. s \<in> set rules \<and> rule_key s = k}"
  proof (rule set_eqI)
    fix c
    show "c \<in> set (ov_lists (og_entry g)) \<longleftrightarrow> c \<in> {rr_list s | s. s \<in> set rules \<and> rule_key s = k}"
      unfolding group_list_mem [OF assms(2)] using v by blast
  qed
  show "og_rule g \<in> set rules" "rule_key (og_rule g) = k" "ov_kind (og_entry g) = rr_kind (og_rule g)"
    "ov_value (og_entry g) = rule_value (og_rule g)"
    by (rule overlap_groups_lookup [OF assms(2)], simp)+
qed

lemma group_exists:
  assumes "\<forall>r \<in> set rules. rule_wf r" "r \<in> set rules"
  obtains g where "map_of (overlap_groups rules) (rule_key r) = Some g"
proof -
  have "rule_valid r" using assms by (auto simp: rule_wf_def)
  then show ?thesis
    using overlap_groups_None [of rules "rule_key r"] assms(2) that by blast
qed

definition groups_of :: "route_rule list \<Rightarrow> overlap_group set" where
  "groups_of rules = snd ` set (overlap_groups rules)"

lemma groups_of_mem: "g \<in> groups_of rules \<longleftrightarrow> (\<exists>k. map_of (overlap_groups rules) k = Some g)"
  unfolding groups_of_def by (rule overlap_groups_mem)

lemma groups_of_I: "map_of (overlap_groups rules) k = Some g \<Longrightarrow> g \<in> groups_of rules"
  unfolding groups_of_mem by blast

lemma twin_links:
  assumes wf: "\<forall>r \<in> set rules. rule_wf r"
  shows "e \<in> (\<Union>g \<in> groups_of rules. links (set (ov_lists (og_entry g))) (set (ov_lists (og_entry g)))) \<longleftrightarrow>
    edge_ok e \<and> (\<exists>r \<in> set rules. \<exists>s \<in> set rules. rr_list r = fst e \<and> rr_list s = snd e \<and> same_target r s)"
    (is "?L \<longleftrightarrow> ?R")
proof
  assume ?L
  then obtain k g where "map_of (overlap_groups rules) k = Some g"
    and l: "edge_ok e" "fst e \<in> set (ov_lists (og_entry g))" "snd e \<in> set (ov_lists (og_entry g))"
    using groups_of_mem [of _ rules] unfolding UN_iff links_mem by blast
  with group_of(3) [OF wf this(1)] obtain r s where "r \<in> set rules" "s \<in> set rules"
    "rr_list r = fst e" "rr_list s = snd e" "rule_key r = rule_key s" by auto
  with l(1) wf rule_key_eq show ?R by blast
next
  assume ?R
  then obtain r s where rs: "edge_ok e" "r \<in> set rules" "s \<in> set rules" "rr_list r = fst e" "rr_list s = snd e"
    "same_target r s" by blast
  then have k: "rule_key r = rule_key s" using wf rule_key_eq by blast
  obtain g where g: "map_of (overlap_groups rules) (rule_key r) = Some g"
    using group_exists [OF wf rs(2)] .
  then have "fst e \<in> set (ov_lists (og_entry g))" "snd e \<in> set (ov_lists (og_entry g))"
    unfolding group_of(3) [OF wf g] using rs k by (auto intro: sym)
  with rs(1) groups_of_I [OF g] show ?L
    unfolding UN_iff links_mem by blast
qed

lemma parent_links_iff:
  assumes wf: "\<forall>r \<in> set rules. rule_wf r" and W: "widths_ok W rules"
  shows "e \<in> (\<Union>g \<in> groups_of rules. \<Union>pk \<in> set (overlap_parents (og_rule g) W).
        parent_links (overlap_groups rules) g pk) \<longleftrightarrow>
    edge_ok e \<and> (\<exists>r \<in> set rules. \<exists>s \<in> set rules. rr_list r = fst e \<and> rr_list s = snd e \<and>
      (is_parent r s \<or> is_parent s r))" (is "?L \<longleftrightarrow> ?R")
proof
  assume ?L
  then obtain k g pk p where g: "map_of (overlap_groups rules) k = Some g"
    and pk: "pk \<in> set (overlap_parents (og_rule g) W)" and p: "map_of (overlap_groups rules) pk = Some p"
    and e: "e \<in> links (set (ov_lists (og_entry g))) (set (ov_lists (og_entry p)))"
    by (elim UN_E) (use groups_of_mem in \<open>auto simp: parent_links_def split: option.splits\<close>)
  have par: "is_parent s r" if "r \<in> set rules" "rule_key r = k" "s \<in> set rules" "rule_key s = pk" for r s
  proof -
    have "is_parent s (og_rule g)"
      using overlap_parents_iff [OF _ _ W that(3), of "og_rule g"] group_of(1) [OF wf g] wf that pk by auto
    moreover have "same_target (og_rule g) r"
      using rule_key_eq [of "og_rule g" r] group_of(1,2) [OF wf g] wf that by auto
    ultimately show ?thesis using is_parent_same by blast
  qed
  from e obtain r s where rs: "r \<in> set rules" "rule_key r = k" "s \<in> set rules" "rule_key s = pk" "edge_ok e"
    and d: "rr_list r = fst e \<and> rr_list s = snd e \<or> rr_list s = fst e \<and> rr_list r = snd e"
    unfolding links_mem group_of(3) [OF wf g] group_of(3) [OF wf p] mem_Collect_eq by (elim conjE disjE exE) simp_all
  have "is_parent s r" using par rs by blast
  then have p: "is_parent r s \<or> is_parent s r" "is_parent s r \<or> is_parent r s" by simp_all
  from d show ?R
  proof
    assume "rr_list r = fst e \<and> rr_list s = snd e"
    with p(1) rs show ?R by (intro conjI bexI [of _ r] bexI [of _ s]) simp_all
  next
    assume "rr_list s = fst e \<and> rr_list r = snd e"
    with p(2) rs show ?R by (intro conjI bexI [of _ s] bexI [of _ r]) simp_all
  qed
next
  assume ?R
  then obtain r0 s0 where z: "edge_ok e" "r0 \<in> set rules" "s0 \<in> set rules" "rr_list r0 = fst e" "rr_list s0 = snd e"
    "is_parent r0 s0 \<or> is_parent s0 r0" by blast
  obtain r s where rs: "edge_ok e" "r \<in> set rules" "s \<in> set rules"
    "is_parent s r" "e \<in> links {rr_list r} {rr_list s}"
    using z(6)
  proof
    assume "is_parent r0 s0"
    then show thesis by (intro that [of s0 r0]) (simp_all add: z links_mem)
  next
    assume "is_parent s0 r0"
    then show thesis by (intro that [of r0 s0]) (simp_all add: z links_mem)
  qed
  obtain g where g: "map_of (overlap_groups rules) (rule_key r) = Some g" using group_exists [OF wf rs(2)] .
  obtain p where p: "map_of (overlap_groups rules) (rule_key s) = Some p" using group_exists [OF wf rs(3)] .
  have "same_target r (og_rule g)"
    using rule_key_eq [of r "og_rule g"] group_of(1,2) [OF wf g] wf rs(2) by auto
  then have "is_parent s (og_rule g)" using rs(4) is_parent_same by blast
  then have pk: "rule_key s \<in> set (overlap_parents (og_rule g) W)"
    using overlap_parents_iff [OF _ _ W rs(3), of "og_rule g"] group_of(1) [OF wf g] wf rs(3) by auto
  have "e \<in> links (set (ov_lists (og_entry g))) (set (ov_lists (og_entry p)))"
    using rs unfolding links_mem group_of(3) [OF wf g] group_of(3) [OF wf p] by blast
  then have "e \<in> parent_links (overlap_groups rules) g (rule_key s)" using p by (simp add: parent_links_def)
  with pk groups_of_I [OF g] show ?L by blast
qed

lemma group_widths_ok:
  assumes wf: "\<forall>r \<in> set rules. rule_wf r"
  shows "widths_ok (widths_of (map (og_rule \<circ> snd) (overlap_groups rules))) rules"
proof (rule widths_ok_of [OF wf])
  show "set (map (og_rule \<circ> snd) (overlap_groups rules)) \<subseteq> set rules"
  proof
    fix q
    assume "q \<in> set (map (og_rule \<circ> snd) (overlap_groups rules))"
    then obtain g where "g \<in> groups_of rules" "q = og_rule g" by (auto simp: groups_of_def)
    with group_of(1) [OF wf] show "q \<in> set rules" unfolding groups_of_mem by blast
  qed
  show "\<forall>p \<in> set rules. kind_is_prefix (rr_kind p) \<longrightarrow>
      (\<exists>w \<in> set (map (og_rule \<circ> snd) (overlap_groups rules)).
         rr_kind w = rr_kind p \<and> pfx_bits (rr_prefix w) = pfx_bits (rr_prefix p))"
  proof (intro ballI impI)
    fix p
    assume p: "p \<in> set rules" "kind_is_prefix (rr_kind p)"
    obtain g where g: "map_of (overlap_groups rules) (rule_key p) = Some g" using group_exists [OF wf p(1)] .
    then have "same_target p (og_rule g)"
      using rule_key_eq [of p "og_rule g"] group_of(1,2) [OF wf g] wf p(1) by auto
    moreover have "og_rule g \<in> set (map (og_rule \<circ> snd) (overlap_groups rules))"
      using groups_of_I [OF g] by (auto simp: groups_of_def)
    ultimately show "\<exists>w \<in> set (map (og_rule \<circ> snd) (overlap_groups rules)).
         rr_kind w = rr_kind p \<and> pfx_bits (rr_prefix w) = pfx_bits (rr_prefix p)"
      using p(2) unfolding same_target_def by metis
  qed
qed

definition shares :: "route_rule \<Rightarrow> route_rule \<Rightarrow> bool" where
  "shares r s \<longleftrightarrow> (\<exists>d. rule_matches r d \<and> rule_matches s d)"

definition overlap_state_of :: "route_rule list \<Rightarrow> nat \<Rightarrow> overlap_state" where
  "overlap_state_of rules limit =
     (let gs = overlap_groups rules; W = widths_of (map (og_rule \<circ> snd) gs); ordered = map snd (sort_key fst gs)
      in foldl (covered_step limit gs W)
           (foldl (duplicate_step limit) \<lparr>st_items = [], st_truncated = False, st_edges = []\<rparr> ordered) ordered)"

lemma summary_of_state:
  "ovs_summary (AnalyzeRuleOverlaps rules limit) = map (\<lambda>l. \<lparr>os_list = l,
      os_overlaps = sort_unique (map snd (filter (\<lambda>e. fst e = l)
        (st_edges (overlap_state_of rules (nat (max 0 limit))))))\<rparr>)
    (sort_unique (map rr_list (filter rule_valid rules)))"
  by (simp add: AnalyzeRuleOverlaps_def overlap_state_of_def Let_def)

lemma final_edges:
  assumes wf: "\<forall>r \<in> set rules. rule_wf r"
  shows "e \<in> set (st_edges (overlap_state_of rules limit)) \<longleftrightarrow>
    fst e \<noteq> snd e \<and>
    (\<exists>r \<in> set rules. \<exists>s \<in> set rules. rr_list r = fst e \<and> rr_list s = snd e \<and> shares r s)"
proof -
  let ?gs = "overlap_groups rules"
  have o: "set (map snd (sort_key fst ?gs)) = groups_of rules" by (simp add: groups_of_def)
  have "set (st_edges (overlap_state_of rules limit)) =
      (\<Union>g \<in> groups_of rules. links (set (ov_lists (og_entry g))) (set (ov_lists (og_entry g)))) \<union>
      (\<Union>g \<in> groups_of rules. \<Union>pk \<in> set (overlap_parents (og_rule g) (widths_of (map (og_rule \<circ> snd) ?gs))).
        parent_links ?gs g pk)"
    unfolding overlap_state_of_def Let_def foldl_edges [OF edges_covered_step]
      foldl_edges [OF edges_duplicate_step] set_sorted_entry o by simp
  then have m: "e \<in> set (st_edges (overlap_state_of rules limit)) \<longleftrightarrow> edge_ok e \<and>
      (\<exists>r \<in> set rules. \<exists>s \<in> set rules. rr_list r = fst e \<and> rr_list s = snd e \<and>
        (same_target r s \<or> is_parent r s \<or> is_parent s r))"
    using twin_links [OF wf, of e] parent_links_iff [OF wf group_widths_ok [OF wf], of e]
    by (simp only: Un_iff) blast
  have ok: "edge_ok e \<longleftrightarrow> fst e \<noteq> snd e" if "rr_list r = fst e" "rr_list s = snd e"
    "r \<in> set rules" "s \<in> set rules" for r s
    using that wf rule_wf_list by (metis edge_ok_def)
  have sh: "shares r s \<longleftrightarrow> same_target r s \<or> is_parent r s \<or> is_parent s r"
    if "r \<in> set rules" "s \<in> set rules" for r s
    using share_iff [of r s] wf that by (simp add: shares_def)
  show ?thesis unfolding m using ok sh by blast
qed

lemma report_valid_only:
  "AnalyzeRuleOverlaps (filter rule_valid rules) limit = AnalyzeRuleOverlaps rules limit"
  by (simp add: AnalyzeRuleOverlaps_def overlap_groups_def)

lemma edge_targets:
  assumes wf: "\<forall>r \<in> set rules. rule_wf r"
  shows "set (map snd (filter (\<lambda>e. fst e = l) (st_edges (overlap_state_of rules limit)))) =
    set (map rr_list (filter (\<lambda>s. rr_list s \<noteq> l \<and> (\<exists>r \<in> set rules. rr_list r = l \<and> shares r s)) rules))"
proof -
  have "x \<in> set (map snd (filter (\<lambda>e. fst e = l) (st_edges (overlap_state_of rules limit)))) \<longleftrightarrow>
      (l, x) \<in> set (st_edges (overlap_state_of rules limit))" for x
    by force
  then show ?thesis unfolding final_edges [OF wf] by (auto simp del: set_map) (auto simp: image_iff)
qed

text \<open>
  C38. The overlap summary is complete and exact whatever the detail limit: it has one row per list
  that owns a valid rule, in order, and the row of a list names exactly the other lists that
  have a rule routing some destination a rule of this list routes too.
\<close>

theorem overlap_summary_exact:
  assumes "\<forall>r \<in> set rules. rule_valid r \<longrightarrow> rule_wf r"
  shows "ovs_summary (AnalyzeRuleOverlaps rules limit) =
    map (\<lambda>l. \<lparr>os_list = l, os_overlaps = sort_unique (map rr_list (filter (\<lambda>s. rr_list s \<noteq> l \<and>
        (\<exists>r \<in> set (filter rule_valid rules). rr_list r = l \<and> shares r s)) (filter rule_valid rules)))\<rparr>)
      (sort_unique (map rr_list (filter rule_valid rules)))"
proof -
  let ?V = "filter rule_valid rules"
  have wf: "\<forall>r \<in> set ?V. rule_wf r" using assms by simp
  have "set (map snd (filter (\<lambda>e. fst e = l) (st_edges (overlap_state_of ?V (nat (max 0 limit)))))) =
      set (map rr_list (filter (\<lambda>s. rr_list s \<noteq> l \<and> (\<exists>r \<in> set ?V. rr_list r = l \<and> shares r s)) ?V))" for l
    by (rule edge_targets [OF wf])
  then have e: "sort_unique (map snd (filter (\<lambda>e. fst e = l) (st_edges (overlap_state_of ?V (nat (max 0 limit)))))) =
      sort_unique (map rr_list (filter (\<lambda>s. rr_list s \<noteq> l \<and> (\<exists>r \<in> set ?V. rr_list r = l \<and> shares r s)) ?V))" for l
    by (rule sort_unique_eqI)
  show ?thesis
    unfolding report_valid_only [of rules limit, symmetric] summary_of_state e by simp
qed

text \<open>A detail row tells the truth about the rules.\<close>

definition owns :: "route_rule list \<Rightarrow> RuleKind \<Rightarrow> string \<Rightarrow> string \<Rightarrow> bool" where
  "owns rules k v l \<longleftrightarrow> (\<exists>r \<in> set rules. rr_kind r = k \<and> rule_value r = v \<and> rr_list r = l)"

definition row_true :: "route_rule list \<Rightarrow> rule_overlap \<Rightarrow> bool" where
  "row_true rules i \<longleftrightarrow>
     (case ro_covering i of
        None \<Rightarrow> ro_kind i = ''duplicate'' \<and> 1 < length (ov_lists (ro_entry i)) \<and>
          distinct (ov_lists (ro_entry i)) \<and>
          (\<forall>l \<in> set (ov_lists (ro_entry i)). owns rules (ov_kind (ro_entry i)) (ov_value (ro_entry i)) l)
      | Some c \<Rightarrow> ro_kind i = ''covered'' \<and>
          (\<exists>l. ov_lists (ro_entry i) = [l] \<and> l \<notin> set (ov_lists c) \<and> ov_lists c \<noteq> [] \<and>
             (\<exists>r \<in> set rules. rr_kind r = ov_kind (ro_entry i) \<and> rule_value r = ov_value (ro_entry i) \<and>
                rr_list r = l \<and>
                (\<forall>m \<in> set (ov_lists c). \<exists>s \<in> set rules. rr_kind s = ov_kind c \<and> rule_value s = ov_value c \<and>
                   rr_list s = m \<and> (\<forall>d. rule_matches r d \<longrightarrow> rule_matches s d)))))"

lemma group_member_value:
  assumes wf: "\<forall>r \<in> set rules. rule_wf r" and g: "map_of (overlap_groups rules) k = Some g"
    and r: "r \<in> set rules" "rule_key r = k"
  shows "rr_kind r = ov_kind (og_entry g) \<and> rule_value r = ov_value (og_entry g) \<and> same_target (og_rule g) r"
proof -
  have "rule_key r = rule_key (og_rule g)" using r group_of(2) [OF wf g] by simp
  moreover from this have "rr_kind r = rr_kind (og_rule g) \<and> rule_value r = rule_value (og_rule g)"
    using wf r(1) group_of(1) [OF wf g] rule_wf_not_other unfolding rule_key_def
    by (subst (asm) overlap_key_inj) auto
  ultimately show ?thesis
    using group_of(1,4,5) [OF wf g] rule_key_eq [of "og_rule g" r] wf r(1) by auto
qed

lemma sorted_entry_fields [simp]:
  "ov_kind (sorted_entry g) = ov_kind (og_entry g)" "ov_value (sorted_entry g) = ov_value (og_entry g)"
  "distinct (ov_lists (sorted_entry g))"
  by (simp_all add: sorted_entry_def StableStrings_sort_unique)

lemma duplicate_items_true:
  assumes wf: "\<forall>r \<in> set rules. rule_wf r" and g: "map_of (overlap_groups rules) k = Some g"
    and i: "i \<in> set (duplicate_items g)"
  shows "row_true rules i"
proof -
  have "owns rules (ov_kind (og_entry g)) (ov_value (og_entry g)) l" if "l \<in> set (ov_lists (og_entry g))" for l
    using that group_of(3) [OF wf g] group_member_value [OF wf g] by (fastforce simp: owns_def)
  with i show ?thesis
    by (auto simp: duplicate_items_def row_true_def split: if_splits)
qed

lemma covered_items_true:
  assumes wf: "\<forall>r \<in> set rules. rule_wf r" and g: "map_of (overlap_groups rules) k = Some g"
    and p: "map_of (overlap_groups rules) pk = Some p" and par: "is_parent (og_rule p) (og_rule g)"
    and l: "l \<in> set (ov_lists (og_entry g))" and i: "i \<in> set (covered_items (sorted_entry g) (sorted_entry p) l)"
  shows "row_true rules i"
proof -
  let ?o = "filter (\<lambda>ow. ow \<noteq> l) (ov_lists (sorted_entry p))"
  have o: "?o \<noteq> []" and ii: "i = \<lparr>ro_kind = ''covered'', ro_entry = (sorted_entry g)\<lparr>ov_lists := [l]\<rparr>,
      ro_covering = Some ((sorted_entry p)\<lparr>ov_lists := ?o\<rparr>)\<rparr>"
    using i by (auto simp: covered_items_def Let_def split: if_splits)
  obtain r where r: "r \<in> set rules" "rule_key r = k" "rr_list r = l"
    using l group_of(3) [OF wf g] by auto
  have rv: "rr_kind r = ov_kind (og_entry g)" "rule_value r = ov_value (og_entry g)" "same_target (og_rule g) r"
    using group_member_value [OF wf g r(1,2)] by auto
  have "\<exists>s \<in> set rules. rr_kind s = ov_kind (og_entry p) \<and> rule_value s = ov_value (og_entry p) \<and>
      rr_list s = m \<and> (\<forall>d. rule_matches r d \<longrightarrow> rule_matches s d)" if m: "m \<in> set (ov_lists (og_entry p))" for m
  proof -
    obtain s where s: "s \<in> set rules" "rule_key s = pk" "rr_list s = m"
      using m unfolding group_of(3) [OF wf p] by blast
    have sv: "rr_kind s = ov_kind (og_entry p)" "rule_value s = ov_value (og_entry p)" "same_target (og_rule p) s"
      using group_member_value [OF wf p s(1,2)] by auto
    have "rule_matches s d" if "rule_matches r d" for d
      using that rv(3) sv(3) is_parent_covers [OF par, of d] same_target_matches by blast
    with s sv show ?thesis by blast
  qed
  then have m: "\<forall>m \<in> set ?o. \<exists>s \<in> set rules. rr_kind s = ov_kind (og_entry p) \<and>
      rule_value s = ov_value (og_entry p) \<and> rr_list s = m \<and> (\<forall>d. rule_matches r d \<longrightarrow> rule_matches s d)"
    by simp
  show ?thesis
    unfolding row_true_def ii using o r rv m
    by (auto intro!: bexI [of _ r] simp del: set_filter simp: set_filter [of _ "ov_lists (sorted_entry p)", THEN eqset_imp_iff])
qed

lemma all_details_true:
  assumes wf: "\<forall>r \<in> set rules. rule_wf r" and i: "i \<in> set (all_details rules)"
  shows "row_true rules i"
proof -
  let ?gs = "overlap_groups rules" and ?W = "widths_of (map (og_rule \<circ> snd) (overlap_groups rules))"
  have o: "set (map snd (sort_key fst ?gs)) = groups_of rules" by (simp add: groups_of_def)
  from i consider g where "g \<in> groups_of rules" "i \<in> set (duplicate_items g)"
    | g where "g \<in> groups_of rules" "i \<in> set (group_items ?gs ?W g)"
    unfolding all_details_def Let_def set_append set_concat set_map [symmetric] o [symmetric] by auto
  then show ?thesis
  proof cases
    case 1
    then show ?thesis using duplicate_items_true [OF wf] unfolding groups_of_mem by blast
  next
    case 2
    then obtain k pk where k: "map_of ?gs k = Some g" and pk: "pk \<in> set (overlap_parents (og_rule g) ?W)"
      "i \<in> set (parent_items ?gs g pk)"
      unfolding groups_of_mem by (auto simp: group_items_def)
    then obtain p l where p: "map_of ?gs pk = Some p" "l \<in> set (ov_lists (og_entry g))"
      "i \<in> set (covered_items (sorted_entry g) (sorted_entry p) l)"
      by (cases "map_of ?gs pk") (auto simp: parent_items_def)
    have "is_parent (og_rule p) (og_rule g)"
      using overlap_parents_iff [OF _ _ group_widths_ok [OF wf], of "og_rule g" "og_rule p"] pk(1) wf
        group_of(1,2) [OF wf p(1)] group_of(1) [OF wf k] by auto
    then show ?thesis using covered_items_true [OF wf k p(1) _ p(2,3)] by blast
  qed
qed

text \<open>
  The detail limit only cuts a fixed list of rows: there is one list of true rows such that for
  every limit the report shows its first rows and says it is truncated exactly when a row is
  left out. A true row names either one value that several lists own, or a value of one list
  together with other lists' rules that route all of it.
\<close>

theorem overlap_details_sound:
  assumes "\<forall>r \<in> set rules. rule_wf r"
  shows "\<exists>rows. (\<forall>i \<in> set rows. row_true rules i) \<and>
    (\<forall>limit. ovs_items (AnalyzeRuleOverlaps rules limit) = take (nat (max 0 limit)) rows \<and>
      (ovs_truncated (AnalyzeRuleOverlaps rules limit) \<longleftrightarrow> nat (max 0 limit) < length rows))"
  using all_details_true [OF assms] report_items by blast

text \<open>Both statements on the two rules of the sample plan.\<close>

theorem overlap_summary_exact_witness:
  "map os_list (ovs_summary (AnalyzeRuleOverlaps (pl_rules sample_plan) 0)) = [''a'', ''b'']"
proof -
  have w: "\<forall>r \<in> set (pl_rules sample_plan). rule_valid r \<longrightarrow> rule_wf r" using sample_plan_wf by blast
  have "filter rule_valid (pl_rules sample_plan) = pl_rules sample_plan"
    using sample_plan_wf by (auto simp: filter_id_conv rule_wf_def)
  then show ?thesis
    unfolding overlap_summary_exact [OF w]
    by (simp add: sample_plan_def sample_rule_def mk_rule_def sort_unique_def comp_def)
qed

theorem overlap_details_sound_witness:
  "\<exists>rows. ovs_items (AnalyzeRuleOverlaps (pl_rules sample_plan) 7) = take 7 rows \<and>
    (ovs_truncated (AnalyzeRuleOverlaps (pl_rules sample_plan) 7) = (7 < length rows))"
proof -
  obtain rows where "\<forall>limit. ovs_items (AnalyzeRuleOverlaps (pl_rules sample_plan) limit) = take (nat (max 0 limit)) rows \<and>
      (ovs_truncated (AnalyzeRuleOverlaps (pl_rules sample_plan) limit) \<longleftrightarrow> nat (max 0 limit) < length rows)"
    using overlap_details_sound [OF sample_plan_wf] by blast
  from spec [OF this, of 7] show ?thesis by auto
qed

end
