(* ===== verification/Canonical.thy ===== *)
theory Canonical
  imports Domain GoMap
begin

text \<open>
  \<open>internal/planner/canonical.go\<close>: the canonical order of a plan, the merge of repeated
  observations and the semantic hash. \<open>slices.SortFunc\<close> leaves the order of elements with equal
  keys open; \<open>sort_key\<close> is one of its behaviours, the only one when the keys differ.
\<close>

section \<open>The code\<close>

definition rule_sort_key :: "route_rule \<Rightarrow> string \<times> string \<times> string \<times> string \<times> string" where
  "rule_sort_key r = (kind_str (rr_kind r), rule_value r, rr_list r, rr_component r, rr_class r)"

definition sortRules :: "route_rule list \<Rightarrow> route_rule list" where
  "sortRules rules = sort_key rule_sort_key rules"

definition sighting_key :: "sighting \<Rightarrow> string" where
  "sighting_key s = join nul
     [si_list s, si_component s, resource_kind_str (res_kind (si_resource s)),
      resource_value (si_resource s), si_source s, si_revision s]"

text \<open>A zero time is unknown, so it never counts as the earlier one.\<close>

definition earlier :: "time \<Rightarrow> time \<Rightarrow> time" where
  "earlier p s = (if p = 0 \<or> (s \<noteq> 0 \<and> s < p) then s else p)"

definition later :: "int \<Rightarrow> int \<Rightarrow> int" where
  "later p s = (if p < s then s else p)"

definition merge_validity :: "Validity \<Rightarrow> Validity \<Rightarrow> Validity" where
  "merge_validity p s = (if p = ValidityUnset \<or> s = ValidityValid then s else p)"

definition merge_evidence :: "SharedEvidence \<Rightarrow> SharedEvidence \<Rightarrow> SharedEvidence" where
  "merge_evidence p s = (if s = EvidenceTrusted then EvidenceTrusted else p)"

definition merge_sighting :: "sighting \<Rightarrow> sighting \<Rightarrow> sighting" where
  "merge_sighting p s = p
     \<lparr>si_first := earlier (si_first p) (si_first s),
      si_last := later (si_last p) (si_last s),
      si_until := later (si_until p) (si_until s),
      si_count := later (si_count p) (si_count s),
      si_validity := merge_validity (si_validity p) (si_validity s),
      si_evidence := merge_evidence (si_evidence p) (si_evidence s)\<rparr>"

definition expose_fingerprint :: "sighting \<Rightarrow> sighting" where
  "expose_fingerprint s = s\<lparr>si_id := sighting_fingerprint s\<rparr>"

definition canonicalSightings :: "sighting list \<Rightarrow> sighting list" where
  "canonicalSightings input =
     sort_key sighting_key (map expose_fingerprint
       (map snd (group_fold sighting_key (\<lambda>s. s) merge_sighting input)))"

definition merge_relation :: "relation \<Rightarrow> relation \<Rightarrow> relation" where
  "merge_relation p r = p
     \<lparr>re_first := earlier (re_first p) (re_first r),
      re_last := later (re_last p) (re_last r),
      re_until := later (re_until p) (re_until r)\<rparr>"

definition canonicalRelations :: "relation list \<Rightarrow> relation list" where
  "canonicalRelations input =
     sort_key relation_fingerprint
       (map snd (group_fold relation_fingerprint (\<lambda>r. r) merge_relation input))"

definition canonical_rule :: "route_rule \<Rightarrow> route_rule" where
  "canonical_rule r = r\<lparr>rr_labels := StableStrings (rr_labels r),
     rr_reasons := StableStrings (rr_reasons r), rr_refs := StableStrings (rr_refs r)\<rparr>"

definition canonical_excluded :: "excluded \<Rightarrow> excluded" where
  "canonical_excluded e = e\<lparr>ex_reasons := StableStrings (ex_reasons e), ex_refs := StableStrings (ex_refs e)\<rparr>"

definition excluded_sort_key :: "excluded \<Rightarrow> string" where
  "excluded_sort_key e =
     candidate_key (ex_candidate e) @ nul @ ex_outcome e @ nul @ join '','' (ex_reasons e)"

definition coverage_sort_key :: "coverage \<Rightarrow> string \<times> string" where
  "coverage_sort_key c = (cov_list c, cov_component c)"

definition CanonicalizePlan :: "routing_plan \<Rightarrow> routing_plan" where
  "CanonicalizePlan plan = plan
     \<lparr>pl_lists := StableStrings (pl_lists plan),
      pl_rules := sortRules (map canonical_rule (pl_rules plan)),
      pl_excluded := sort_key excluded_sort_key (map canonical_excluded (pl_excluded plan)),
      pl_warnings := StableStrings (pl_warnings plan),
      pl_coverage := sort_key coverage_sort_key (pl_coverage plan),
      pl_sightings := canonicalSightings (pl_sightings plan),
      pl_relations := canonicalRelations (pl_relations plan)\<rparr>"

definition hash_rule_json :: "route_rule \<Rightarrow> json" where
  "hash_rule_json r = JObj
     ([(''kind'', JStr (kind_str (rr_kind r))), (''value'', JStr (rule_value r)),
       (''action'', JStr (rr_action r)), (''service_id'', JStr (rr_list r)),
       (''component_id'', JStr (rr_component r)), (''source_class'', JStr (rr_class r))] @
      (if rr_labels r = [] then [] else [(''labels'', jstrs (StableStrings (rr_labels r)))]) @
      [(''reason_codes'', jstrs (StableStrings (rr_reasons r))),
       (''provenance_refs'', jstrs (StableStrings (rr_refs r)))])"

definition hash_target_json :: "target_constraints \<Rightarrow> json" where
  "hash_target_json c = JObj
     [(''supports_domain_exact'', JBool (tc_domain_exact c)),
      (''supports_domain_suffix'', JBool (tc_domain_suffix c)),
      (''supports_dynamic_dns_set'', JBool (tc_dynamic_dns c)),
      (''supports_ipv4'', JBool (tc_ipv4 c)), (''supports_ipv6'', JBool (tc_ipv6 c)),
      (''supports_prefixes'', JBool (tc_prefixes c)), (''max_rules'', JInt (tc_max_rules c)),
      (''max_artifact_size'', JInt (tc_max_artifact c))]"

definition hash_payload :: "routing_plan \<Rightarrow> target_def \<Rightarrow> json" where
  "hash_payload plan target = JObj
     [(''interface_version'', JStr (pl_interface plan)), (''target_id'', JStr (pl_target plan)),
      (''profile_key'', JStr (pl_format plan)),
      (''target'', hash_target_json (td_constraints target)),
      (''policy_version'', JStr (pl_policy plan)), (''catalog_revision'', JStr (pl_revision plan)),
      (''rules'', jnil (map hash_rule_json (pl_rules plan))),
      (''sighting_fingerprints'', jnil (map JStr (sort (map sighting_fingerprint (pl_sightings plan))))),
      (''relation_fingerprints'', jnil (map JStr (sort (map relation_fingerprint (pl_relations plan)))))]"

definition SemanticHash :: "routing_plan \<Rightarrow> target_def \<Rightarrow> string" where
  "SemanticHash plan target =
     sha256_hex (json_encode (hash_payload (CanonicalizePlan plan) target))"

section \<open>Merged observations keep their key\<close>

lemma sighting_key_merge [simp]: "sighting_key (merge_sighting p s) = sighting_key p"
  by (simp add: sighting_key_def merge_sighting_def)

lemma sighting_key_expose [simp]: "sighting_key (expose_fingerprint s) = sighting_key s"
  by (simp add: sighting_key_def expose_fingerprint_def)

lemma sighting_fingerprint_id [simp]: "sighting_fingerprint (s\<lparr>si_id := i\<rparr>) = sighting_fingerprint s"
  by (simp add: sighting_fingerprint_def)

lemma expose_expose [simp]: "expose_fingerprint (expose_fingerprint s) = expose_fingerprint s"
  by (simp add: expose_fingerprint_def)

lemma relation_fingerprint_merge [simp]: "relation_fingerprint (merge_relation p r) = relation_fingerprint p"
  by (simp add: relation_fingerprint_def merge_relation_def)

text \<open>A merge that keeps the key leaves every value under its own key.\<close>

lemma group_fold_keyed:
  assumes "\<And>x. key (fresh x) = key x" "\<And>p x. key (merge p x) = key p"
    and "(k, v) \<in> set (group_fold key fresh merge xs)"
  shows "key v = k"
  by (rule group_fold_invariant [OF assms(3)]) (use assms(1,2) in auto)

lemma group_fold_map_fst:
  assumes "\<And>x. key (fresh x) = key x" "\<And>p x. key (merge p x) = key p"
  shows "map (key \<circ> snd) (group_fold key fresh merge xs) = map fst (group_fold key fresh merge xs)"
  using group_fold_keyed [of key fresh merge, OF assms] by (auto simp: comp_def)

lemma group_fold_snd_distinct:
  assumes "\<And>x. key (fresh x) = key x" "\<And>p x. key (merge p x) = key p"
  shows "distinct (map key (map snd (group_fold key fresh merge xs)))"
  using group_fold_map_fst [of key fresh merge xs, OF assms] distinct_group_fold [of key fresh merge xs]
  by (simp only: map_map)

text \<open>On distinct keys the fold only applies \<open>fresh\<close>.\<close>

lemma upsert_new: "k \<notin> fst ` set m \<Longrightarrow> upsert k f m = m @ [(k, f None)]"
  by (induction k f m rule: upsert.induct) auto

lemma group_fold_distinct:
  assumes "distinct (map key xs)"
  shows "group_fold key fresh merge xs = map (\<lambda>x. (key x, fresh x)) xs"
  using assms
proof (induction xs rule: rev_induct)
  case (snoc x xs)
  then show ?case by (simp add: group_step_def upsert_new image_image)
qed simp

lemma sort_key_idem: "sort_key f (sort_key f xs) = sort_key f xs"
  by (rule sort_key_sorted_id) simp

lemma distinct_map_sort_key: "distinct (map f (sort_key g xs)) = distinct (map f xs)"
  by (metis distinct_map distinct_sort set_sort)

lemma canonicalSightings_keys: "distinct (map sighting_key (canonicalSightings xs))"
  using group_fold_snd_distinct [of sighting_key "\<lambda>s. s" merge_sighting xs]
  by (simp add: canonicalSightings_def distinct_map_sort_key comp_def)

lemma canonicalSightings_exposed: "s \<in> set (canonicalSightings xs) \<Longrightarrow> expose_fingerprint s = s"
  by (auto simp: canonicalSightings_def)

lemma canonicalSightings_idem: "canonicalSightings (canonicalSightings xs) = canonicalSightings xs"
proof -
  let ?c = "canonicalSightings xs"
  have "group_fold sighting_key (\<lambda>s. s) merge_sighting ?c = map (\<lambda>x. (sighting_key x, x)) ?c"
    by (rule group_fold_distinct [OF canonicalSightings_keys])
  then have "canonicalSightings ?c = sort_key sighting_key (map expose_fingerprint ?c)"
    unfolding canonicalSightings_def by (simp add: comp_def)
  also have "map expose_fingerprint ?c = ?c"
    using canonicalSightings_exposed [of _ xs] by (simp add: map_idI)
  also have "sort_key sighting_key ?c = ?c"
    by (simp add: canonicalSightings_def sort_key_idem)
  finally show ?thesis .
qed

lemma canonicalRelations_idem: "canonicalRelations (canonicalRelations xs) = canonicalRelations xs"
proof -
  let ?c = "canonicalRelations xs"
  have "distinct (map relation_fingerprint ?c)"
    using group_fold_snd_distinct [of relation_fingerprint "\<lambda>s. s" merge_relation xs]
    by (simp add: canonicalRelations_def distinct_map_sort_key)
  then have "group_fold relation_fingerprint (\<lambda>s. s) merge_relation ?c = map (\<lambda>x. (relation_fingerprint x, x)) ?c"
    by (rule group_fold_distinct)
  then have "canonicalRelations ?c = sort_key relation_fingerprint ?c"
    unfolding canonicalRelations_def by (simp add: comp_def)
  then show ?thesis by (simp add: canonicalRelations_def sort_key_idem)
qed

lemma StableStrings_idem [simp]: "StableStrings (StableStrings xs) = StableStrings xs"
  by (simp add: StableStrings_sort_unique sort_unique_idem)

lemma canonical_rule_idem [simp]: "canonical_rule (canonical_rule r) = canonical_rule r"
  by (simp add: canonical_rule_def)

lemma canonical_excluded_idem [simp]: "canonical_excluded (canonical_excluded e) = canonical_excluded e"
  by (simp add: canonical_excluded_def)

lemma map_sort_key_fixed:
  "(\<And>x. f (f x) = f x) \<Longrightarrow> map f (sort_key k (map f xs)) = sort_key k (map f xs)"
  by (rule map_idI) auto

text \<open>
  Canonicalising is idempotent: the canonical form of a canonical plan is itself, for every
  field, the merged observations and relations included.
\<close>

theorem CanonicalizePlan_idempotent:
  "CanonicalizePlan (CanonicalizePlan plan) = CanonicalizePlan plan"
  by (simp add: CanonicalizePlan_def sortRules_def map_sort_key_fixed sort_key_idem
      canonicalSightings_idem canonicalRelations_idem)

section \<open>The order of the observations\<close>

text \<open>
  The laws of the locale \<open>keyed_merge\<close> hold for the sightings that agree with one template per
  key on everything the merge does not combine, and for the relations likewise.
\<close>

definition sighting_rest :: "sighting \<Rightarrow> sighting" where
  "sighting_rest s = s\<lparr>si_id := [], si_first := 0, si_last := 0, si_until := 0, si_count := 0,
     si_validity := ValidityUnset, si_evidence := EvidenceNone\<rparr>"

definition sighting_fits :: "(string \<Rightarrow> sighting) \<Rightarrow> sighting \<Rightarrow> bool" where
  "sighting_fits T s \<longleftrightarrow> si_id s = [] \<and> sighting_rest s = sighting_rest (T (sighting_key s)) \<and>
     si_validity s \<in> {ValidityUnset, ValidityValid, si_validity (T (sighting_key s))}"

lemma earlier_laws:
  "earlier x x = x" "earlier x y = earlier y x" "earlier (earlier x y) z = earlier (earlier x z) y"
  "earlier (earlier x y) y = earlier x y"
  by (auto simp: earlier_def)

lemma later_laws:
  "later x x = x" "later x y = later y x" "later (later x y) z = later (later x z) y"
  "later (later x y) y = later x y"
  by (auto simp: later_def)

lemma sighting_rest_merge [simp]: "sighting_rest (merge_sighting p s) = sighting_rest p"
  by (simp add: sighting_rest_def merge_sighting_def)

lemma sighting_eqI:
  assumes "sighting_rest s = sighting_rest t" "si_id s = si_id t" "si_first s = si_first t"
    "si_last s = si_last t" "si_until s = si_until t" "si_count s = si_count t"
    "si_validity s = si_validity t" "si_evidence s = si_evidence t"
  shows "s = t"
  using assms by (cases s; cases t) (simp add: sighting_rest_def)

lemma merge_sighting_sel [simp]:
  "si_id (merge_sighting p s) = si_id p"
  "si_first (merge_sighting p s) = earlier (si_first p) (si_first s)"
  "si_last (merge_sighting p s) = later (si_last p) (si_last s)"
  "si_until (merge_sighting p s) = later (si_until p) (si_until s)"
  "si_count (merge_sighting p s) = later (si_count p) (si_count s)"
  "si_validity (merge_sighting p s) = merge_validity (si_validity p) (si_validity s)"
  "si_evidence (merge_sighting p s) = merge_evidence (si_evidence p) (si_evidence s)"
  by (simp_all add: merge_sighting_def)

lemma evidence_laws:
  "merge_evidence x x = x" "merge_evidence x y = merge_evidence y x"
  "merge_evidence (merge_evidence x y) z = merge_evidence (merge_evidence x z) y"
  "merge_evidence (merge_evidence x y) y = merge_evidence x y"
  by (cases x; cases y; simp add: merge_evidence_def)+

lemma validity_laws:
  "merge_validity x x = x"
  "x \<in> {ValidityUnset, ValidityValid, v} \<Longrightarrow> y \<in> {ValidityUnset, ValidityValid, v} \<Longrightarrow>
   merge_validity x y = merge_validity y x \<and> merge_validity x y \<in> {ValidityUnset, ValidityValid, v}"
  "merge_validity (merge_validity x y) y = merge_validity x y"
  by (auto simp: merge_validity_def)

lemma validity_swap:
  "x \<in> {ValidityUnset, ValidityValid, v} \<Longrightarrow> y \<in> {ValidityUnset, ValidityValid, v} \<Longrightarrow>
   z \<in> {ValidityUnset, ValidityValid, v} \<Longrightarrow>
   merge_validity (merge_validity x y) z = merge_validity (merge_validity x z) y"
  by (auto simp: merge_validity_def)

lemma fits_facts:
  assumes "sighting_fits T x" "sighting_fits T y" "sighting_key x = sighting_key y"
  shows "si_id x = []" "sighting_rest x = sighting_rest y"
    "si_validity x \<in> {ValidityUnset, ValidityValid, si_validity (T (sighting_key y))}"
  using assms unfolding sighting_fits_def by metis+

interpretation sightings: keyed_merge sighting_key "\<lambda>s. s" merge_sighting "sighting_fits T" for T
proof (unfold_locales, goal_cases)
  case (2 x y)
  note f = fits_facts [OF 2] fits_facts [OF 2(2) 2(2)]
  have "merge_validity (si_validity x) (si_validity y)
      \<in> {ValidityUnset, ValidityValid, si_validity (T (sighting_key y))}"
    using validity_laws(2) f(3,6) by blast
  then show ?case
    using 2 f unfolding sighting_fits_def sighting_key_merge sighting_rest_merge merge_sighting_sel
    by metis
next
  case (6 x)
  show ?case by (rule sighting_eqI) (simp_all add: earlier_laws later_laws evidence_laws validity_laws)
next
  case (7 x y)
  note f = fits_facts [OF 7] fits_facts [OF 7(2) 7(2)]
  show ?case
  proof (rule sighting_eqI)
    show "si_validity (merge_sighting x y) = si_validity (merge_sighting y x)"
      using validity_laws(2) f(3,6) unfolding merge_sighting_sel by blast
  qed (simp_all add: f(1,2,4) earlier_laws(2) later_laws(2) evidence_laws(2))
next
  case (8 x y z)
  note f = fits_facts [OF 8(1,2,4)] fits_facts [OF 8(2) 8(2)] fits_facts [OF 8(3,2) 8(5) [symmetric]]
  show ?case
  proof (rule sighting_eqI)
    show "si_validity (merge_sighting (merge_sighting x y) z) = si_validity (merge_sighting (merge_sighting x z) y)"
      using validity_swap f(3,6,9) unfolding merge_sighting_sel by blast
  qed (simp_all add: earlier_laws(3) later_laws(3) evidence_laws(3))
next
  case (9 x y)
  show ?case
    by (rule sighting_eqI) (simp_all add: earlier_laws(4) later_laws(4) evidence_laws(4) validity_laws(3))
qed simp_all

text \<open>The stored identity is dropped before anything reads it.\<close>

definition clear_id :: "sighting \<Rightarrow> sighting" where
  "clear_id s = s\<lparr>si_id := []\<rparr>"

lemma clear_id_key [simp]: "sighting_key (clear_id s) = sighting_key s"
  by (simp add: sighting_key_def clear_id_def)

lemma clear_id_merge: "clear_id (merge_sighting p s) = merge_sighting (clear_id p) (clear_id s)"
  by (simp add: clear_id_def merge_sighting_def)

lemma expose_clear [simp]: "expose_fingerprint (clear_id s) = expose_fingerprint s"
  by (simp add: clear_id_def expose_fingerprint_def)

lemma group_fold_clear:
  "group_fold sighting_key (\<lambda>s. s) merge_sighting (map clear_id xs) =
   map (\<lambda>(k, s). (k, clear_id s)) (group_fold sighting_key (\<lambda>s. s) merge_sighting xs)"
proof (induction xs rule: rev_induct)
  case (snoc x xs)
  have "upsert k (\<lambda>old. case old of None \<Rightarrow> clear_id x | Some p \<Rightarrow> merge_sighting p (clear_id x))
      (map (\<lambda>(k, s). (k, clear_id s)) m) =
    map (\<lambda>(k, s). (k, clear_id s)) (upsert k (\<lambda>old. case old of None \<Rightarrow> x | Some p \<Rightarrow> merge_sighting p x) m)"
    for k m by (induction m) (auto simp: clear_id_merge)
  with snoc show ?case by (simp add: group_step_def)
qed simp

lemma canonicalSightings_clear: "canonicalSightings (map clear_id xs) = canonicalSightings xs"
  by (simp add: canonicalSightings_def group_fold_clear case_prod_unfold comp_def)

lemma set_to_mset: "distinct xs \<Longrightarrow> distinct ys \<Longrightarrow> set xs = set ys \<Longrightarrow> mset xs = mset ys"
  by (simp add: set_eq_iff_mset_eq_distinct)

text \<open>Two sightings that name one observation and agree outside the merged fields.\<close>

definition sightings_agree :: "sighting \<Rightarrow> sighting \<Rightarrow> bool" where
  "sightings_agree s t \<longleftrightarrow> sighting_rest s = sighting_rest t \<and>
     (si_validity s \<in> {ValidityUnset, ValidityValid} \<or> si_validity t \<in> {ValidityUnset, ValidityValid} \<or>
      si_validity s = si_validity t)"

definition template :: "sighting list \<Rightarrow> string \<Rightarrow> sighting" where
  "template xs k =
     (let ys = filter (\<lambda>s. sighting_key s = k) xs;
          zs = filter (\<lambda>s. si_validity s \<notin> {ValidityUnset, ValidityValid}) ys
      in if zs = [] then hd ys else hd zs)"

lemma template_fits:
  assumes agree: "\<forall>s \<in> set xs. \<forall>t \<in> set xs. sighting_key s = sighting_key t \<longrightarrow> sightings_agree s t"
    and s: "s \<in> set xs"
  shows "sighting_fits (template xs) (clear_id s)"
proof -
  let ?ys = "filter (\<lambda>t. sighting_key t = sighting_key s) xs"
  let ?zs = "filter (\<lambda>t. si_validity t \<notin> {ValidityUnset, ValidityValid}) ?ys"
  let ?t = "template xs (sighting_key s)"
  have t: "?t \<in> set ?ys" "?zs \<noteq> [] \<Longrightarrow> ?t \<in> set ?zs"
    using s hd_in_set [of ?ys] hd_in_set [of ?zs]
    by (auto simp: template_def Let_def filter_empty_conv simp del: filter_filter split: if_splits)
  then have a: "sightings_agree s ?t" using agree s by auto
  have "si_validity s \<in> {ValidityUnset, ValidityValid, si_validity ?t}"
  proof (rule ccontr)
    assume n: "si_validity s \<notin> {ValidityUnset, ValidityValid, si_validity ?t}"
    then have "s \<in> set ?zs" using s by simp
    then have "?zs \<noteq> []" by (metis list.set(1) empty_iff)
    with t(2) a n show False by (auto simp: sightings_agree_def)
  qed
  moreover have "sighting_rest (clear_id s) = sighting_rest s" "si_id (clear_id s) = []"
    "si_validity (clear_id s) = si_validity s"
    by (simp_all add: clear_id_def sighting_rest_def)
  ultimately show ?thesis
    using a unfolding sighting_fits_def sightings_agree_def clear_id_key by metis
qed

lemma canonicalSightings_set:
  assumes "\<forall>s \<in> set xs. \<forall>t \<in> set xs. sighting_key s = sighting_key t \<longrightarrow> sightings_agree s t"
    and "set xs = set ys"
  shows "canonicalSightings xs = canonicalSightings ys"
proof -
  let ?g = "\<lambda>xs. map snd (group_fold sighting_key (\<lambda>s. s) merge_sighting (map clear_id xs))"
  have d: "distinct (map sighting_key (?g zs))" for zs
    using group_fold_snd_distinct [of sighting_key "\<lambda>s. s" merge_sighting] by simp
  have "\<forall>x \<in> set (map clear_id xs). sighting_fits (template xs) x"
    using template_fits [OF assms(1)] by simp
  then have "set (group_fold sighting_key (\<lambda>s. s) merge_sighting (map clear_id xs)) =
      set (group_fold sighting_key (\<lambda>s. s) merge_sighting (map clear_id ys))"
    by (rule sightings.group_fold_set) (simp add: assms(2))
  then have m: "mset (?g xs) = mset (?g ys)"
    using d [of xs] d [of ys] unfolding distinct_map by (intro set_to_mset) (blast | simp add: distinct_map)+
  have "mset (map expose_fingerprint (?g xs)) = mset (map expose_fingerprint (?g ys))"
    unfolding mset_map [of expose_fingerprint] m ..
  moreover have "inj_on sighting_key (set (map expose_fingerprint (?g xs)))"
    using d [of xs] by (auto simp: distinct_map inj_on_def)
  ultimately have "sort_key sighting_key (map expose_fingerprint (?g xs)) =
      sort_key sighting_key (map expose_fingerprint (?g ys))"
    by (rule sort_key_perm)
  then have "canonicalSightings (map clear_id xs) = canonicalSightings (map clear_id ys)"
    by (simp add: canonicalSightings_def)
  then show ?thesis by (simp only: canonicalSightings_clear)
qed

text \<open>
  Neither the order nor the repetition of acquired observations reaches the plan: two inputs
  with the same observations have the same canonical list, when observations of one key agree
  on what the merge does not combine and have at most one validity besides unset and valid.
\<close>

theorem canonicalSightings_order_free:
  assumes "\<forall>s \<in> set xs. \<forall>t \<in> set xs. sighting_key s = sighting_key t \<longrightarrow> sightings_agree s t"
    and "set xs = set ys"
  shows "canonicalSightings xs = canonicalSightings ys"
  using assms by (rule canonicalSightings_set)

definition sample_sighting :: "time \<Rightarrow> Validity \<Rightarrow> sighting" where
  "sample_sighting t v = \<lparr>si_id = ''x'', si_list = ''a'', si_component = ''core'',
     si_resource = mk_resource ResourceIP [] (V4 0x08080808) no_prefix, si_source = ''feed'',
     si_class = SourceCommunity, si_revision = ''r1'', si_first = t, si_last = t, si_until = t + 10,
     si_ttl = 0, si_ttl_known = False, si_count = 1, si_metadata = [], si_validity = v,
     si_evidence = EvidenceNone\<rparr>"

lemma sample_sighting_key [simp]:
  "sighting_key (sample_sighting t v) =
     join nul [''a'', ''core'', ''ip'', addr_string (V4 0x08080808), ''feed'', ''r1'']"
  by (simp add: sighting_key_def sample_sighting_def mk_resource_def resource_value_def del: addr_string.simps)

theorem canonicalSightings_order_free_witness:
  "canonicalSightings [sample_sighting 5 ValidityStale, sample_sighting 3 ValidityValid] =
   canonicalSightings [sample_sighting 3 ValidityValid, sample_sighting 5 ValidityStale, sample_sighting 3 ValidityValid]"
  by (rule canonicalSightings_order_free)
    (auto simp: sightings_agree_def sighting_rest_def sample_sighting_def)

text \<open>
  The condition on the validity is needed: a stale and an archived record of one observation
  leave the validity of whichever was read first.
\<close>

theorem stale_archived_order_matters:
  "map si_validity (canonicalSightings [sample_sighting 5 ValidityStale, sample_sighting 3 ValidityArchived]) = [ValidityStale] \<and>
   map si_validity (canonicalSightings [sample_sighting 3 ValidityArchived, sample_sighting 5 ValidityStale]) = [ValidityArchived]"
proof -
  have "group_fold sighting_key (\<lambda>s. s) merge_sighting [sample_sighting t v, sample_sighting u w] =
      [(sighting_key (sample_sighting t v), merge_sighting (sample_sighting t v) (sample_sighting u w))]"
    for t u v w by (simp add: group_fold_def group_step_def del: join.simps addr_string.simps)
  then have "map si_validity (canonicalSightings [sample_sighting t v, sample_sighting u w]) = [merge_validity v w]"
    for t u v w
    by (simp add: canonicalSightings_def expose_fingerprint_def) (simp add: sample_sighting_def)
  then show ?thesis by (simp add: merge_validity_def)
qed

section \<open>The semantic hash\<close>

lemma SemanticHash_canonical: "SemanticHash (CanonicalizePlan plan) target = SemanticHash plan target"
  by (simp add: SemanticHash_def CanonicalizePlan_def sortRules_def map_sort_key_fixed sort_key_idem
      canonicalSightings_idem canonicalRelations_idem)

lemma rule_value_update [simp]:
  "rule_value (r\<lparr>rr_expires := e\<rparr>) = rule_value r" "rule_value (r\<lparr>rr_labels := ls\<rparr>) = rule_value r"
  "rule_value (r\<lparr>rr_reasons := rs\<rparr>) = rule_value r" "rule_value (r\<lparr>rr_refs := fs\<rparr>) = rule_value r"
  by (cases "rr_kind r"; simp add: rule_value.simps)+

text \<open>
  The semantic hash speaks of what is routed and why, not of when or how it was read: it is
  unchanged by canonicalising the plan first and by any change of the expiry of rules, of the
  exclusions, warnings and coverage, of the list names, of the cutoff and of the stored hash.
\<close>

theorem SemanticHash_ignores:
  "SemanticHash (CanonicalizePlan plan) target = SemanticHash plan target \<and>
   SemanticHash (plan\<lparr>pl_rules := map (\<lambda>r. r\<lparr>rr_expires := f r\<rparr>) (pl_rules plan), pl_excluded := es,
     pl_warnings := ws, pl_coverage := cs, pl_lists := ls, pl_cutoff := t, pl_hash := h\<rparr>) target =
   SemanticHash plan target"
proof
  show "SemanticHash (CanonicalizePlan plan) target = SemanticHash plan target"
    by (rule SemanticHash_canonical)
  have c: "map canonical_rule (map (\<lambda>r. r\<lparr>rr_expires := f r\<rparr>) rs) =
      map (\<lambda>r. canonical_rule (r\<lparr>rr_expires := f r\<rparr>)) rs" for rs by simp
  have k: "rule_sort_key (canonical_rule (r\<lparr>rr_expires := e\<rparr>)) = rule_sort_key (canonical_rule r)" for r e
    by (simp add: rule_sort_key_def canonical_rule_def)
  have j: "hash_rule_json (canonical_rule (r\<lparr>rr_expires := e\<rparr>)) = hash_rule_json (canonical_rule r)" for r e
    by (simp add: hash_rule_json_def canonical_rule_def)
  have "map hash_rule_json (sortRules (map (\<lambda>r. canonical_rule (r\<lparr>rr_expires := f r\<rparr>)) rs)) =
      map hash_rule_json (sortRules (map canonical_rule rs))" for rs
  proof -
    have "map hash_rule_json (sort_key rule_sort_key (map g rs)) = map (hash_rule_json \<circ> g) (sort_key (rule_sort_key \<circ> g) rs)"
      for g :: "route_rule \<Rightarrow> route_rule"
    proof -
      have "map g (insort_key (rule_sort_key \<circ> g) x xs) = insort_key rule_sort_key (g x) (map g xs)" for x xs
        by (induction xs) auto
      then have "sort_key rule_sort_key (map g rs) = map g (sort_key (rule_sort_key \<circ> g) rs)"
        by (induction rs) auto
      then show ?thesis by simp
    qed
    moreover have "hash_rule_json \<circ> (\<lambda>r. canonical_rule (r\<lparr>rr_expires := f r\<rparr>)) = hash_rule_json \<circ> canonical_rule"
      "rule_sort_key \<circ> (\<lambda>r. canonical_rule (r\<lparr>rr_expires := f r\<rparr>)) = rule_sort_key \<circ> canonical_rule"
      by (auto simp: j k)
    ultimately show ?thesis unfolding sortRules_def by metis
  qed
  then show "SemanticHash (plan\<lparr>pl_rules := map (\<lambda>r. r\<lparr>rr_expires := f r\<rparr>) (pl_rules plan), pl_excluded := es,
     pl_warnings := ws, pl_coverage := cs, pl_lists := ls, pl_cutoff := t, pl_hash := h\<rparr>) target =
   SemanticHash plan target"
    by (simp add: SemanticHash_def hash_payload_def CanonicalizePlan_def comp_def)
qed

end
