(* ===== verification/Reduce.thy ===== *)
theory Reduce
  imports Overlaps Canonical
begin

text \<open>
  \<open>internal/planner/reduce.go\<close>. The set of addresses is built by \<open>go4.org/netipx\<close>, which is not
  part of the repository: the function from the added prefixes to \<open>IPSet.Prefixes\<close> is the
  argument \<open>ipset\<close> of the definitions, and the locale \<open>ip_set\<close> states what its documentation
  promises (a sorted minimal cover of exactly the added addresses). \<open>maximal_prefixes\<close> is a
  concrete function with these laws.
\<close>

definition CollapseLosslessPrefixes :: "(prefix list \<Rightarrow> prefix list) \<Rightarrow> prefix list \<Rightarrow> prefix list" where
  "CollapseLosslessPrefixes ipset raws =
     ipset (concat (map (\<lambda>raw.
       if \<not> prefix_valid raw then []
       else let p = masked (prefix_from (unmap (pfx_addr raw)) (pfx_bits raw)) in
            if \<not> prefix_valid p then [] else [p]) raws))"

definition CollapseLossless :: "(prefix list \<Rightarrow> prefix list) \<Rightarrow> addr list \<Rightarrow> prefix list" where
  "CollapseLossless ipset addrs =
     CollapseLosslessPrefixes ipset (concat (map (\<lambda>raw.
       if \<not> addr_valid raw then []
       else let a = unmap raw in [masked (prefix_from a (int (bit_len a)))]) addrs))"

definition canonical_prefixes :: "prefix list \<Rightarrow> bool" where
  "canonical_prefixes ps \<longleftrightarrow> (\<forall>p \<in> set ps. plain_prefix p \<and> masked p = p)"

locale ip_set =
  fixes ipset :: "prefix list \<Rightarrow> prefix list"
  assumes canonical: "canonical_prefixes ps \<Longrightarrow> canonical_prefixes (ipset ps)"
    and covers_all: "canonical_prefixes ps \<Longrightarrow> p \<in> set ps \<Longrightarrow> \<exists>q \<in> set (ipset ps). prefix_covers q p"
    and covers_only: "canonical_prefixes ps \<Longrightarrow> q \<in> set (ipset ps) \<Longrightarrow> prefix_contains q a \<Longrightarrow>
      \<exists>p \<in> set ps. prefix_contains p a"
    and disjoint: "canonical_prefixes ps \<Longrightarrow> p \<in> set (ipset ps) \<Longrightarrow> q \<in> set (ipset ps) \<Longrightarrow> p \<noteq> q \<Longrightarrow>
      \<not> prefix_overlaps p q"
    and no_repeat: "canonical_prefixes ps \<Longrightarrow> distinct (ipset ps)"
begin

lemma exact:
  assumes "canonical_prefixes ps"
  shows "(\<exists>q \<in> set (ipset ps). prefix_contains q a) \<longleftrightarrow> (\<exists>p \<in> set ps. prefix_contains p a)"
proof
  assume "\<exists>p \<in> set ps. prefix_contains p a"
  then obtain p where p: "p \<in> set ps" "prefix_contains p a" by blast
  from covers_all [OF assms p(1)] obtain q where "q \<in> set (ipset ps)" "prefix_covers q p" by blast
  moreover from this have "prefix_contains q a" using prefix_covers_subset [of q p] p(2) by auto
  ultimately show "\<exists>q \<in> set (ipset ps). prefix_contains q a" by blast
qed (use covers_only [OF assms] in blast)

lemma one_owner:
  assumes "canonical_prefixes ps" "\<exists>p \<in> set ps. prefix_contains p a"
  shows "\<exists>!q. q \<in> set (ipset ps) \<and> prefix_contains q a"
proof -
  obtain q where q: "q \<in> set (ipset ps)" "prefix_contains q a" using exact [OF assms(1)] assms(2) by blast
  moreover have "q' = q" if "q' \<in> set (ipset ps)" "prefix_contains q' a" for q'
  proof (rule ccontr)
    assume "q' \<noteq> q"
    then have "\<not> prefix_overlaps q' q" using disjoint [OF assms(1) that(1) q(1)] by blast
    moreover have "plain_prefix q" "plain_prefix q'"
      using canonical [OF assms(1)] q(1) that(1) by (auto simp: canonical_prefixes_def)
    ultimately show False using prefix_overlaps_iff q(2) that(2) by blast
  qed
  ultimately show ?thesis by blast
qed

end

section \<open>A concrete set\<close>

definition maximal_prefixes :: "prefix list \<Rightarrow> prefix list" where
  "maximal_prefixes ps =
     filter (\<lambda>p. \<not> (\<exists>q \<in> set ps. pfx_bits q < pfx_bits p \<and> prefix_contains q (pfx_addr p))) (remdups ps)"

lemma prefix_covers_refl: "plain_prefix p \<Longrightarrow> prefix_covers p p"
  by (simp add: prefix_covers_def prefix_contains_self)

lemma prefix_covers_trans: "prefix_covers p q \<Longrightarrow> prefix_covers q r \<Longrightarrow> prefix_covers p r"
  using prefix_covers_subset [of p q] by (auto simp: prefix_covers_def)

lemma prefix_covers_same_bits:
  assumes "plain_prefix p" "masked p = p" "plain_prefix q" "masked q = q"
    "pfx_bits p = pfx_bits q" "prefix_contains p (pfx_addr q)"
  shows "p = q"
proof -
  have "masked (prefix_from (pfx_addr q) (pfx_bits p)) = p"
    using masked_at [OF assms(1,2) _ assms(6)] assms(3) by (simp add: plain_prefix_def)
  with assms(4,5) plain_prefix_from [OF assms(3)] show ?thesis by simp
qed

lemma maximal_covers:
  assumes "canonical_prefixes ps" "p \<in> set ps"
  shows "\<exists>q \<in> set (maximal_prefixes ps). prefix_covers q p"
  using assms(2)
proof (induction "nat (pfx_bits p)" arbitrary: p rule: less_induct)
  case less
  have pl: "plain_prefix p" using less.prems assms(1) by (simp add: canonical_prefixes_def)
  show ?case
  proof (cases "\<exists>q \<in> set ps. pfx_bits q < pfx_bits p \<and> prefix_contains q (pfx_addr p)")
    case True
    then obtain q where q: "q \<in> set ps" "pfx_bits q < pfx_bits p" "prefix_contains q (pfx_addr p)" by blast
    have "0 \<le> pfx_bits q" using q(1) assms(1) by (auto simp: canonical_prefixes_def plain_prefix_def)
    then have "nat (pfx_bits q) < nat (pfx_bits p)" using q(2) by simp
    from less.hyps [OF this q(1)] obtain q' where "q' \<in> set (maximal_prefixes ps)" "prefix_covers q' q" by blast
    moreover have "prefix_covers q p" using q by (simp add: prefix_covers_def)
    ultimately show ?thesis using prefix_covers_trans by blast
  next
    case False
    then have "p \<in> set (maximal_prefixes ps)" using less.prems by (auto simp: maximal_prefixes_def)
    with prefix_covers_refl [OF pl] show ?thesis by blast
  qed
qed

interpretation maximal: ip_set maximal_prefixes
proof
  fix ps
  assume c: "canonical_prefixes ps"
  have sub: "set (maximal_prefixes ps) \<subseteq> set ps" by (auto simp: maximal_prefixes_def)
  show "canonical_prefixes (maximal_prefixes ps)" using c sub by (auto simp: canonical_prefixes_def)
  show "\<exists>q \<in> set (maximal_prefixes ps). prefix_covers q p" if "p \<in> set ps" for p
    using c that by (rule maximal_covers)
  show "\<exists>p \<in> set ps. prefix_contains p a" if "q \<in> set (maximal_prefixes ps)" "prefix_contains q a" for q a
    using that sub by blast
  show "distinct (maximal_prefixes ps)" by (simp add: maximal_prefixes_def)
  show "\<not> prefix_overlaps p q" if "p \<in> set (maximal_prefixes ps)" "q \<in> set (maximal_prefixes ps)" "p \<noteq> q" for p q
  proof
    assume o: "prefix_overlaps p q"
    have m: "p \<in> set ps" "q \<in> set ps" "plain_prefix p" "plain_prefix q" "masked p = p" "masked q = q"
      using that sub c by (auto simp: canonical_prefixes_def)
    have nb: "\<not> (pfx_bits p < pfx_bits q \<and> prefix_contains p (pfx_addr q))"
      "\<not> (pfx_bits q < pfx_bits p \<and> prefix_contains q (pfx_addr p))"
      using that m by (auto simp: maximal_prefixes_def)
    from prefix_nested [OF m(3,4) o] nb
    have "pfx_bits p = pfx_bits q \<and> (prefix_contains p (pfx_addr q) \<or> prefix_contains q (pfx_addr p))"
      by (auto simp: prefix_covers_def)
    then show False
      using prefix_covers_same_bits [OF m(3,5,4,6)] prefix_covers_same_bits [OF m(4,6,3,5)] that(3) by auto
  qed
qed

section \<open>The collapse\<close>

lemma collapse_canonical:
  "canonical_prefixes ps \<Longrightarrow> CollapseLosslessPrefixes ipset ps = ipset ps"
proof -
  assume c: "canonical_prefixes ps"
  have "(if \<not> prefix_valid raw then []
       else let p = masked (prefix_from (unmap (pfx_addr raw)) (pfx_bits raw)) in
            if \<not> prefix_valid p then [] else [p]) = [raw]" if "raw \<in> set ps" for raw
  proof -
    have "plain_prefix raw" "masked raw = raw" using c that by (auto simp: canonical_prefixes_def)
    moreover from this(1) have "unmap (pfx_addr raw) = pfx_addr raw" "prefix_valid raw"
      by (auto simp: plain_prefix_def plain_addr_def unmap_id prefix_valid_def)
    ultimately show ?thesis by (simp add: plain_prefix_from)
  qed
  then have "concat (map (\<lambda>raw. if \<not> prefix_valid raw then []
       else let p = masked (prefix_from (unmap (pfx_addr raw)) (pfx_bits raw)) in
            if \<not> prefix_valid p then [] else [p]) ps) = concat (map (\<lambda>raw. [raw]) ps)"
    by (intro arg_cong [where f = concat] map_cong refl)
  also have "\<dots> = ps" by (induction ps) auto
  finally show ?thesis by (simp add: CollapseLosslessPrefixes_def)
qed

lemma host_prefixes:
  "\<forall>a \<in> set addrs. addr_valid a \<Longrightarrow>
   concat (map (\<lambda>raw. if \<not> addr_valid raw then []
       else let a = unmap raw in [masked (prefix_from a (int (bit_len a)))]) addrs) =
   map (\<lambda>raw. prefix_from (without_zone (unmap raw)) (int (bit_len (unmap raw)))) addrs"
proof (induction addrs)
  case (Cons raw addrs)
  have "masked (prefix_from (unmap raw) (int (bit_len (unmap raw)))) =
      prefix_from (without_zone (unmap raw)) (int (bit_len (unmap raw)))" if "addr_valid raw"
    using that by (cases "unmap raw") (auto simp: masked_def prefix_from_def clear_low_def no_prefix_def)
  with Cons show ?case by (simp add: Let_def)
qed simp

text \<open>
  \<open>CollapseLossless\<close> represents exactly the supplied addresses: an address lies in the result
  if and only if it is one of them, IPv4-mapped forms unmapped and zones dropped, and then in
  exactly one prefix of the result.
\<close>

theorem CollapseLossless_exact:
  assumes "ip_set ipset" "\<forall>a \<in> set addrs. addr_valid a"
  shows "((\<exists>q \<in> set (CollapseLossless ipset addrs). prefix_contains q a) \<longleftrightarrow>
      a \<in> (\<lambda>raw. without_zone (unmap raw)) ` set addrs) \<and>
    (a \<in> (\<lambda>raw. without_zone (unmap raw)) ` set addrs \<longrightarrow>
      (\<exists>!q. q \<in> set (CollapseLossless ipset addrs) \<and> prefix_contains q a))"
proof -
  let ?z = "\<lambda>raw. without_zone (unmap raw)"
  let ?ps = "map (\<lambda>raw. prefix_from (?z raw) (int (bit_len (unmap raw)))) addrs"
  have pl: "plain_addr (?z raw)" "bit_len (unmap raw) = bit_len (?z raw)" if "raw \<in> set addrs" for raw
  proof -
    have "addr_valid raw" using that assms(2) by blast
    then show "plain_addr (?z raw)" "bit_len (unmap raw) = bit_len (?z raw)"
      using not_4in6_unmap [of raw] by (cases "unmap raw"; cases raw; auto simp: plain_addr_def split: if_splits)+
  qed
  have host: "prefix_set (prefix_from (?z raw) (int (bit_len (unmap raw)))) = {?z raw}" if "raw \<in> set addrs" for raw
    using host_prefix_set [OF pl(1) [OF that]] pl(2) [OF that] by simp
  have c: "canonical_prefixes ?ps"
  proof -
    have "plain_prefix (prefix_from (?z raw) (int (bit_len (unmap raw))))"
      "masked (prefix_from (?z raw) (int (bit_len (unmap raw)))) = prefix_from (?z raw) (int (bit_len (unmap raw)))"
      if "raw \<in> set addrs" for raw
      using pl [OF that] plain_prefix_from_plain
      by (auto simp: masked_def prefix_from_def clear_low_def plain_addr_def plain_prefix_def
          split: if_splits; cases "?z raw"; auto simp: prefix_from_def clear_low_def)+
    then show ?thesis by (auto simp: canonical_prefixes_def)
  qed
  have r: "CollapseLossless ipset addrs = ipset ?ps"
    unfolding CollapseLossless_def host_prefixes [OF assms(2)] by (rule collapse_canonical [OF c])
  have m: "(\<exists>p \<in> set ?ps. prefix_contains p a) \<longleftrightarrow> a \<in> ?z ` set addrs"
    using host by (auto simp: prefix_set_def set_eq_iff)
  show ?thesis
    unfolding r m [symmetric] using ip_set.exact [OF assms(1) c] ip_set.one_owner [OF assms(1) c] by blast
qed

theorem CollapseLossless_exact_witness:
  "\<exists>!q. q \<in> set (CollapseLossless maximal_prefixes [V4 1, V6 0xFFFF00000001 []]) \<and> prefix_contains q (V4 1)"
  using CollapseLossless_exact [OF maximal.ip_set_axioms, of "[V4 1, V6 0xFFFF00000001 []]" "V4 1"]
  by (simp add: drop_bit_eq_div)

end
