(* ===== verification/BuildPlan.thy ===== *)
theory BuildPlan
  imports Reduce NetPolicy
begin

text \<open>
  \<open>internal/planner/build_plan.go\<close>: the routing policy. A list's seeds and observations are admitted
  one by one, merged, collapsed and put into a canonical plan; \<open>BuildPlanSetWith\<close> composes the
  plans of several lists and checks the target's limits. The set of prefixes of \<open>netipx\<close> is the
  argument \<open>ipset\<close>. An error is a value of \<open>plan_error\<close>; the set builder returns its diagnostic plan
  beside the error.
\<close>

section \<open>Reasons and errors\<close>

abbreviation PolicyVersion :: string where "PolicyVersion \<equiv> ''auto-v1''"
abbreviation ReasonManualRule :: string where "ReasonManualRule \<equiv> ''manual_rule''"
abbreviation ReasonOfficialRule :: string where "ReasonOfficialRule \<equiv> ''official_rule''"
abbreviation ReasonFreshDNSObservation :: string where
  "ReasonFreshDNSObservation \<equiv> ''fresh_dns_observation''"
abbreviation ReasonFreshCommunityObservation :: string where
  "ReasonFreshCommunityObservation \<equiv> ''fresh_community_observation''"
abbreviation ReasonStaleObservation :: string where "ReasonStaleObservation \<equiv> ''stale_observation''"
abbreviation ReasonInvalidResource :: string where "ReasonInvalidResource \<equiv> ''invalid_resource''"
abbreviation ReasonUnsupportedByTarget :: string where "ReasonUnsupportedByTarget \<equiv> ''unsupported_by_target''"
abbreviation ReasonNotRequired :: string where
  "ReasonNotRequired \<equiv> ''not_required_for_domain_capable_target''"
abbreviation ReasonWideNetworkExpansion :: string where
  "ReasonWideNetworkExpansion \<equiv> ''wide_network_expansion''"
abbreviation ReasonSharedCDNorCloud :: string where "ReasonSharedCDNorCloud \<equiv> ''shared_cdn_or_cloud''"
abbreviation ReasonRuleLimitExceeded :: string where "ReasonRuleLimitExceeded \<equiv> ''rule_limit_exceeded''"
abbreviation ReasonLosslessCollapsed :: string where "ReasonLosslessCollapsed \<equiv> ''lossless_collapsed''"
abbreviation ReasonSourceDegraded :: string where "ReasonSourceDegraded \<equiv> ''source_degraded''"
abbreviation ReasonSpecialUseDestination :: string where
  "ReasonSpecialUseDestination \<equiv> ''special_use_destination''"
abbreviation ReasonPrefixTooWide :: string where "ReasonPrefixTooWide \<equiv> ''prefix_too_wide''"
abbreviation ReasonOperatorExcluded :: string where "ReasonOperatorExcluded \<equiv> ''operator_excluded''"

datatype plan_error =
    ErrNoListID | ErrNoTargetID | ErrZeroCutoff | ErrNoComponents string
  | ErrUnknownComponent string | ErrNotRoutable | ErrUnsupportedSeed RuleKind | ErrDomain domain_error
  | ErrEmptySet | ErrInvalidIdentity | ErrDuplicateIdentity string | ErrRevisionMismatch
  | ErrBuildList string plan_error
  | ErrRequiredCoverage "coverage list" "string list"
  | ErrRuleLimitExceeded nat int

fun from_domain :: "(domain_error, 'a) result \<Rightarrow> (plan_error, 'a) result" where
  "from_domain (Inl e) = Err (ErrDomain e)"
| "from_domain (Inr x) = Ok x"

definition requiredCoverageError :: "coverage list \<Rightarrow> plan_error option" where
  "requiredCoverageError cs =
     (let missing = filter (\<lambda>c. \<not> cov_complete c) cs in
      if missing = [] then None
      else Some (ErrRequiredCoverage missing (StableStrings (map cov_list missing))))"

section \<open>What may be routed\<close>

definition minRoutablePrefixBitsV4 :: int where "minRoutablePrefixBitsV4 = 8"
definition minRoutablePrefixBitsV6 :: int where "minRoutablePrefixBitsV6 = 16"
definition minCommunityPrefixBitsV4 :: int where "minCommunityPrefixBitsV4 = 16"
definition minCommunityPrefixBitsV6 :: int where "minCommunityPrefixBitsV6 = 32"

definition namesFirst :: "sighting \<Rightarrow> nat" where
  "namesFirst s = (if res_kind (si_resource s) = ResourceDomain then 0 else 1)"

definition admissionOrder :: "sighting list \<Rightarrow> sighting list" where
  "admissionOrder ss = sort_key namesFirst ss"

text \<open>The reason a value is refused, none for a value that may be routed.\<close>

definition routableValue :: "route_rule \<Rightarrow> string option" where
  "routableValue r =
     (if kind_is_ip (rr_kind r) then
        (if \<not> RoutableDestination (rr_addr r) then Some ReasonSpecialUseDestination else None)
      else if kind_is_prefix (rr_kind r) then
        (let p = rr_prefix r;
             minimum = (if is4 (unmap (pfx_addr p)) then minRoutablePrefixBitsV4 else minRoutablePrefixBitsV6)
         in if \<not> RoutableDestination (pfx_addr p) then Some ReasonSpecialUseDestination
            else if pfx_bits p < minimum then Some ReasonPrefixTooWide
            else if \<not> RoutablePrefix p then Some ReasonSpecialUseDestination
            else None)
      else None)"

definition admissibleValue :: "route_rule \<Rightarrow> string option" where
  "admissibleValue r =
     (case routableValue r of
        Some reason \<Rightarrow> Some reason
      | None \<Rightarrow>
          if kind_is_prefix (rr_kind r) \<and> rr_class r = SourceCommunity \<and>
             pfx_bits (rr_prefix r) <
               (if is4 (unmap (pfx_addr (rr_prefix r))) then minCommunityPrefixBitsV4 else minCommunityPrefixBitsV6)
          then Some ReasonPrefixTooWide else None)"

fun supportsRule :: "RuleKind \<Rightarrow> target_constraints \<Rightarrow> bool" where
  "supportsRule RuleDomainExact c = tc_domain_exact c"
| "supportsRule RuleDomainSuffix c = tc_domain_suffix c"
| "supportsRule RuleIPv4 c = tc_ipv4 c"
| "supportsRule RuleIPv6 c = tc_ipv6 c"
| "supportsRule RulePrefix4 c = (tc_prefixes c \<and> tc_ipv4 c)"
| "supportsRule RulePrefix6 c = (tc_prefixes c \<and> tc_ipv6 c)"
| "supportsRule (RuleOther s) c = False"

definition provenance :: "string \<Rightarrow> string list" where
  "provenance v = (if v = [] then [] else [v])"

section \<open>Candidates\<close>

type_synonym components = "(string \<times> component_def) list"

definition known_component :: "components \<Rightarrow> string \<Rightarrow> bool" where
  "known_component cs i \<longleftrightarrow> map_of cs i \<noteq> None"

definition seedRule :: "seed \<Rightarrow> string \<Rightarrow> (plan_error, route_rule) result" where
  "seedRule s l =
     (let reasons = (if seed_class s = SourceOfficial then [ReasonOfficialRule] else [ReasonManualRule]);
          ref = (if seed_source s = [] then ''seed:'' @ seed_value s else seed_source s)
      in case seed_kind s of
           RuleOther k \<Rightarrow> Err (ErrUnsupportedSeed (RuleOther k))
         | k \<Rightarrow>
             if kind_is_domain k then
               from_domain (new_domain_rule k (seed_value s) l (seed_component s) (seed_class s) reasons (provenance ref))
             else if kind_is_ip k then
               (case ParseAddr (seed_value s) of
                  Inl e \<Rightarrow> Err (ErrDomain e)
                | Inr a \<Rightarrow> from_domain (new_addr_rule a l (seed_component s) (seed_class s) reasons (provenance ref)))
             else
               (case ParsePrefix (seed_value s) of
                  Inl e \<Rightarrow> Err (ErrDomain e)
                | Inr p \<Rightarrow> from_domain (new_prefix_rule p l (seed_component s) (seed_class s) reasons (provenance ref))))"

definition sightingRule :: "sighting \<Rightarrow> string \<Rightarrow> components \<Rightarrow> (plan_error, route_rule) result" where
  "sightingRule s l cs =
     (let comp = (if si_component s = [] then ''web'' else si_component s) in
      if \<not> known_component cs comp then Err (ErrUnknownComponent comp)
      else if (\<exists>k \<in> {ResourceIP, ResourcePrefix, ResourceDomain}. res_kind (si_resource s) = k) then
        (if \<not> resource_valid (si_resource s) then Err (ErrDomain ErrInvalidAddr)
         else
           let reason = (if si_class s = SourceCommunity then ReasonFreshCommunityObservation
                         else if si_class s = SourceOfficial then ReasonOfficialRule
                         else ReasonFreshDNSObservation);
               cls = (if si_class s = [] then SourceObserved else si_class s);
               ref = (if si_source s = [] then sighting_fingerprint (s\<lparr>si_class := cls\<rparr>) else si_source s);
               made = (case res_kind (si_resource s) of
                   ResourcePrefix \<Rightarrow> new_prefix_rule (res_prefix (si_resource s)) l comp cls [reason] (provenance ref)
                 | ResourceDomain \<Rightarrow>
                     new_domain_rule RuleDomainSuffix (res_domain (si_resource s)) l comp cls [reason] (provenance ref)
                 | _ \<Rightarrow> new_addr_rule (res_addr (si_resource s)) l comp cls [reason] (provenance ref))
           in case made of
                Inl e \<Rightarrow> Err (ErrDomain e)
              | Inr r \<Rightarrow> Ok (if si_until s \<noteq> 0 then r\<lparr>rr_expires := Some (si_until s)\<rparr> else r))
      else Err ErrNotRoutable)"

definition invalidCandidate :: "sighting \<Rightarrow> string \<Rightarrow> route_rule" where
  "invalidCandidate s l = empty_rule
     \<lparr>rr_kind := (if res_kind (si_resource s) = ResourceIP \<and> is4 (res_addr (si_resource s))
                  then RuleIPv4 else RuleIPv6),
      rr_action := ActionRoute, rr_list := l, rr_component := si_component s, rr_class := si_class s\<rparr>"

definition declaredNetwork :: "sighting \<Rightarrow> bool" where
  "declaredNetwork s \<longleftrightarrow>
     (si_class s = SourceOfficial \<or> si_class s = SourceCommunity) \<and> si_evidence s \<noteq> EvidenceTrusted"

section \<open>Grace\<close>

record degraded_source =
  dg_source :: string
  dg_until :: time
  dg_last :: time

definition grace_windows :: "degraded_source list \<Rightarrow> time \<Rightarrow> (string \<times> degraded_source) list" where
  "grace_windows ds cutoff =
     foldl (\<lambda>m d. if dg_source d = [] \<or> \<not> cutoff < dg_until d \<or> dg_last d = 0 then m
                  else go_set (dg_source d) d m) [] ds"

definition admissibleUnderGrace :: "sighting \<Rightarrow> (string \<times> degraded_source) list \<Rightarrow> bool" where
  "admissibleUnderGrace s grace =
     (if grace = [] \<or> si_validity s \<noteq> ValidityStale \<or> \<not> resource_valid (si_resource s) then False
      else case map_of grace (si_source s) of None \<Rightarrow> False | Some d \<Rightarrow> \<not> si_last s < dg_last d)"

section \<open>Admission\<close>

record admission =
  ad_accepted :: "route_rule list"
  ad_excluded :: "excluded list"
  ad_sufficient :: "string list"

definition exclude :: "route_rule \<Rightarrow> string \<Rightarrow> string list \<Rightarrow> string list \<Rightarrow> admission \<Rightarrow> admission" where
  "exclude r outcome reasons refs st =
     st\<lparr>ad_excluded := ad_excluded st @
          [\<lparr>ex_candidate = r, ex_outcome = outcome, ex_reasons = reasons, ex_refs = refs\<rparr>]\<rparr>"

definition accept :: "route_rule \<Rightarrow> admission \<Rightarrow> admission" where
  "accept r st = st\<lparr>ad_accepted := ad_accepted st @ [r]\<rparr>"

definition note_coverage :: "route_rule \<Rightarrow> admission \<Rightarrow> admission" where
  "note_coverage r st =
     (if kind_is_domain (rr_kind r) then st\<lparr>ad_sufficient := List.insert (rr_component r) (ad_sufficient st)\<rparr> else st)"

definition admit_seed ::
  "string \<Rightarrow> components \<Rightarrow> target_constraints \<Rightarrow> admission \<Rightarrow> seed \<Rightarrow> admission" where
  "admit_seed l cs c st raw =
     (case seed_normalize raw of
        Inl _ \<Rightarrow> exclude empty_rule ''rejected'' [ReasonInvalidResource] [seed_source raw] st
      | Inr s \<Rightarrow>
          if \<not> known_component cs (seed_component s) then st
          else case seedRule s l of
            Inl _ \<Rightarrow> exclude empty_rule ''rejected'' [ReasonInvalidResource] [seed_source s] st
          | Inr r \<Rightarrow>
              (case admissibleValue r of
                 Some reason \<Rightarrow> exclude r ''rejected'' [reason] (provenance (seed_source s)) st
               | None \<Rightarrow>
                   if \<not> supportsRule (rr_kind r) c
                   then exclude r ''rejected'' [ReasonUnsupportedByTarget] (provenance (seed_source s)) st
                   else accept r st))"

record plan_options =
  keep_addresses :: bool

record admission_context =
  cx_list :: string
  cx_components :: components
  cx_off :: "string list"
  cx_grace :: "(string \<times> degraded_source) list"
  cx_constraints :: target_constraints
  cx_cutoff :: time
  cx_options :: plan_options

text \<open>A stale observation inside a grace window: its rule now ends with the window.\<close>

definition degrade :: "admission_context \<Rightarrow> sighting \<Rightarrow> route_rule \<Rightarrow> route_rule" where
  "degrade cx s r =
     r\<lparr>rr_reasons := StableStrings (rr_reasons r @ [ReasonSourceDegraded]),
       rr_expires := map_option dg_until (map_of (cx_grace cx) (si_source s))\<rparr>"

definition redundantUnderDomains :: "sighting \<Rightarrow> route_rule \<Rightarrow> bool" where
  "redundantUnderDomains s r \<longleftrightarrow>
     kind_is_ip (rr_kind r) \<or> (kind_is_prefix (rr_kind r) \<and> si_class s \<noteq> SourceOfficial)"

definition judge_sighting ::
  "admission_context \<Rightarrow> sighting \<Rightarrow> admission \<Rightarrow> route_rule \<Rightarrow> admission" where
  "judge_sighting cx s st r =
     (case admissibleValue r of
        Some reason \<Rightarrow> exclude r ''rejected'' [reason] (provenance (si_source s)) st
      | None \<Rightarrow>
          if \<not> keep_addresses (cx_options cx) \<and> rr_component r \<in> set (ad_sufficient st) \<and>
             redundantUnderDomains s r \<and> supportsRule (rr_kind r) (cx_constraints cx)
          then exclude r ''rejected'' [ReasonNotRequired] (provenance (si_source s)) st
          else if kind_is_prefix (rr_kind r) \<and> \<not> declaredNetwork s
          then exclude r ''quarantined''
                 (ReasonWideNetworkExpansion #
                  (if si_evidence s = EvidenceTrusted then [ReasonSharedCDNorCloud] else []))
                 (provenance (si_source s)) st
          else if \<not> supportsRule (rr_kind r) (cx_constraints cx)
          then exclude r ''rejected'' [ReasonUnsupportedByTarget] (provenance (si_source s)) st
          else accept r (note_coverage r st))"

definition admit_sighting :: "admission_context \<Rightarrow> admission \<Rightarrow> sighting \<Rightarrow> admission" where
  "admit_sighting cx st s =
     (if si_list s \<noteq> [] \<and> si_list s \<noteq> cx_list cx then st
      else case sightingRule s (cx_list cx) (cx_components cx) of
        Inl _ \<Rightarrow> exclude (invalidCandidate s (cx_list cx)) ''rejected'' [ReasonInvalidResource]
                   (provenance (si_source s)) st
      | Inr r \<Rightarrow>
          if rule_value r \<in> set (cx_off cx)
          then exclude r ''rejected'' [ReasonOperatorExcluded] (provenance (si_source s)) st
          else if is_fresh s (cx_cutoff cx) then judge_sighting cx s st r
          else if \<not> admissibleUnderGrace s (cx_grace cx)
          then exclude r ''rejected'' [ReasonStaleObservation] (provenance (si_source s)) st
          else judge_sighting cx s st (degrade cx s r))"

section \<open>Merging rules\<close>

fun sourceClassPrecedence :: "SourceClass \<Rightarrow> nat" where
  "sourceClassPrecedence c =
     (if c = SourceManual then 0 else if c = SourceOfficial then 1 else if c = SourceCommunity then 2
      else if c = SourceObserved then 3 else if c = SourceMetadata then 4 else 5)"

declare sourceClassPrecedence.simps [simp del]

definition strongerClass :: "SourceClass \<Rightarrow> SourceClass \<Rightarrow> bool" where
  "strongerClass a b \<longleftrightarrow> sourceClassPrecedence a < sourceClassPrecedence b \<or>
     (sourceClassPrecedence a = sourceClassPrecedence b \<and> a < b)"

definition later_expiry :: "time option \<Rightarrow> time option \<Rightarrow> time option" where
  "later_expiry p r =
     (case p of None \<Rightarrow> r
      | Some t \<Rightarrow> (case r of None \<Rightarrow> p | Some u \<Rightarrow> if t < u then r else p))"

definition fresh_rule :: "route_rule \<Rightarrow> route_rule" where
  "fresh_rule r = r\<lparr>rr_reasons := StableStrings (rr_reasons r), rr_refs := StableStrings (rr_refs r)\<rparr>"

definition merge_rule :: "route_rule \<Rightarrow> route_rule \<Rightarrow> route_rule" where
  "merge_rule p r = p
     \<lparr>rr_class := (if strongerClass (rr_class r) (rr_class p) then rr_class r else rr_class p),
      rr_reasons := StableStrings (rr_reasons p @ rr_reasons r),
      rr_refs := StableStrings (rr_refs p @ rr_refs r),
      rr_expires := later_expiry (rr_expires p) (rr_expires r)\<rparr>"

definition dedupeRules :: "route_rule list \<Rightarrow> route_rule list" where
  "dedupeRules input = sortRules (map snd (group_fold candidate_key fresh_rule merge_rule input))"

definition group_key :: "route_rule \<Rightarrow> string" where
  "group_key r = rr_list r @ nul @ rr_component r @ nul @ rr_class r"

text \<open>\<open>strings.SplitN(key, "\\x00", 3)\<close>.\<close>

definition splitGroupKey :: "string \<Rightarrow> string \<times> string \<times> SourceClass" where
  "splitGroupKey key =
     (let a = takeWhile (\<lambda>c. c \<noteq> CHR 0x00) key; r = dropWhile (\<lambda>c. c \<noteq> CHR 0x00) key;
          b = takeWhile (\<lambda>c. c \<noteq> CHR 0x00) (tl r); q = dropWhile (\<lambda>c. c \<noteq> CHR 0x00) (tl r)
      in if r \<noteq> [] \<and> q \<noteq> [] then (a, b, tl q) else (key, ''web'', SourceObserved))"

definition covers :: "prefix \<Rightarrow> route_rule \<Rightarrow> bool" where
  "covers p r =
     (if kind_is_prefix (rr_kind r)
      then pfx_bits p \<le> pfx_bits (rr_prefix r) \<and> prefix_contains p (unmap (pfx_addr (rr_prefix r)))
      else prefix_contains p (unmap (rr_addr r)))"

definition rule_network :: "route_rule \<Rightarrow> prefix" where
  "rule_network r =
     (if kind_is_prefix (rr_kind r) then rr_prefix r
      else prefix_from (unmap (rr_addr r)) (int (bit_len (unmap (rr_addr r)))))"

definition collapsed_rule :: "route_rule list \<Rightarrow> string \<Rightarrow> prefix \<Rightarrow> (domain_error, route_rule) result" where
  "collapsed_rule grp key p =
     (let (l, comp, cls) = splitGroupKey key;
          merged = filter (covers p) grp;
          refs = StableStrings (concat (map rr_refs merged));
          reasons0 = StableStrings (concat (map rr_reasons merged));
          reasons1 = (if reasons0 = [] then [ReasonFreshDNSObservation] else reasons0);
          network = (pfx_bits p \<noteq> int (bit_len (pfx_addr p)));
          reasons = (if network \<and> 1 < length merged then StableStrings (reasons1 @ [ReasonLosslessCollapsed])
                     else reasons1);
          expires = foldl (\<lambda>e r. later_expiry e (rr_expires r)) None merged;
          made = (if network then new_prefix_rule p l comp cls reasons refs
                  else new_addr_rule (pfx_addr p) l comp cls reasons refs)
      in case made of Inl e \<Rightarrow> Err e | Inr r \<Rightarrow> Ok (r\<lparr>rr_expires := expires\<rparr>))"

definition collapse_group ::
  "(prefix list \<Rightarrow> prefix list) \<Rightarrow> string \<times> route_rule list \<Rightarrow> route_rule list" where
  "collapse_group ipset kg =
     concat (map (\<lambda>p. case collapsed_rule (snd kg) (fst kg) p of Inl _ \<Rightarrow> [] | Inr r \<Rightarrow> [r])
       (CollapseLosslessPrefixes ipset (map rule_network (snd kg))))"

definition is_address_rule :: "route_rule \<Rightarrow> bool" where
  "is_address_rule r \<longleftrightarrow> kind_is_ip (rr_kind r) \<or> kind_is_prefix (rr_kind r)"

definition collapseObserved :: "(prefix list \<Rightarrow> prefix list) \<Rightarrow> route_rule list \<Rightarrow> route_rule list" where
  "collapseObserved ipset rules =
     filter (\<lambda>r. \<not> is_address_rule r) rules @
     concat (map (collapse_group ipset) (sort_key fst (group_by group_key (filter is_address_rule rules))))"

section \<open>One list\<close>

definition buildWarnings ::
  "route_rule list \<Rightarrow> components \<Rightarrow> string \<Rightarrow> (string \<times> degraded_source) list \<Rightarrow> string list" where
  "buildWarnings rules cs l grace =
     (let covered = map rr_component (filter (\<lambda>r. rr_list r = l) rules) in
      sort (map (\<lambda>(i, c). ''required_component_without_rule:'' @ i)
              (filter (\<lambda>(i, c). comp_required c \<and> i \<notin> set covered) cs) @
            map (\<lambda>(i, d). ReasonSourceDegraded @ '':'' @ l @ '':'' @ i) grace))"

definition buildCoverage :: "route_rule list \<Rightarrow> components \<Rightarrow> string \<Rightarrow> coverage list" where
  "buildCoverage rules cs l =
     map (\<lambda>(i, c). let n = length (filter (\<lambda>r. rr_list r = l \<and> rr_component r = i) rules) in
            \<lparr>cov_list = l, cov_component = i, cov_complete = (0 < n \<or> \<not> comp_required c), cov_count = n\<rparr>)
       (sort_key fst cs)"

record list_input =
  in_def :: list_def
  in_sightings :: "sighting list"
  in_relations :: "relation list"
  in_degraded :: "degraded_source list"

definition component_map :: "component_def list \<Rightarrow> components" where
  "component_map cs = foldl (\<lambda>m c. if comp_id c \<noteq> [] then go_set (comp_id c) c m else m) [] cs"

definition seeds_admitted :: "list_def \<Rightarrow> components \<Rightarrow> target_constraints \<Rightarrow> admission" where
  "seeds_admitted d cs c =
     foldl (admit_seed (ld_id d) cs c) \<lparr>ad_accepted = [], ad_excluded = [], ad_sufficient = []\<rparr> (ld_seeds d)"

definition all_admitted :: "admission_context \<Rightarrow> admission \<Rightarrow> sighting list \<Rightarrow> admission" where
  "all_admitted cx st0 ss =
     foldl (admit_sighting cx) (foldl (\<lambda>st r. note_coverage r st) st0 (ad_accepted st0)) (admissionOrder ss)"

definition reduceRules :: "(prefix list \<Rightarrow> prefix list) \<Rightarrow> bool \<Rightarrow> route_rule list \<Rightarrow> route_rule list" where
  "reduceRules ipset prefixes_ok accepted =
     (let a = dedupeRules accepted in dedupeRules (if prefixes_ok then collapseObserved ipset a else a))"

definition limit_excluded :: "route_rule \<Rightarrow> excluded" where
  "limit_excluded r = \<lparr>ex_candidate = r, ex_outcome = ''quarantined'',
     ex_reasons = [ReasonRuleLimitExceeded], ex_refs = rr_refs r\<rparr>"

text \<open>
  \<open>limitRules\<close> is the truncation block: the canonical order decides which rules stay.
\<close>

definition limitRules :: "int \<Rightarrow> route_rule list \<Rightarrow> excluded list \<Rightarrow> route_rule list \<times> excluded list" where
  "limitRules maximum accepted excl =
     (if 0 < maximum \<and> maximum < int (length accepted)
      then let ordered = sortRules accepted in
           (take (nat maximum) ordered, excl @ map limit_excluded (drop (nat maximum) ordered))
      else (accepted, excl))"

definition buildPlan ::
  "(prefix list \<Rightarrow> prefix list) \<Rightarrow> list_input \<Rightarrow> target_def \<Rightarrow> time \<Rightarrow> bool \<Rightarrow> plan_options
   \<Rightarrow> (plan_error, routing_plan) result" where
  "buildPlan ipset input target cutoff with_relations options =
     (let d = in_def input in
      if ld_id d = [] then Err ErrNoListID
      else if td_id target = [] then Err ErrNoTargetID
      else if cutoff = 0 then Err ErrZeroCutoff
      else
        let sightings = canonicalSightings (in_sightings input);
            relations = (if with_relations then canonicalRelations (in_relations input) else []);
            grace = grace_windows (in_degraded input) cutoff;
            cs = component_map (ld_components d)
        in if cs = [] then Err (ErrNoComponents (ld_id d))
        else
          let cx = \<lparr>cx_list = ld_id d, cx_components = cs, cx_off = ld_excluded_values d, cx_grace = grace,
                cx_constraints = td_constraints target, cx_cutoff = cutoff, cx_options = options\<rparr>;
              st = all_admitted cx (seeds_admitted d cs (td_constraints target)) sightings;
              accepted = reduceRules ipset (tc_prefixes (td_constraints target)) (ad_accepted st);
              (rules, excl) = limitRules (tc_max_rules (td_constraints target)) accepted (ad_excluded st);
              plan = CanonicalizePlan
                \<lparr>pl_interface = RoutingPlanInterfaceVersion, pl_target = td_id target,
                 pl_format = (if td_format target = [] then td_id target else td_format target),
                 pl_lists = [ld_id d], pl_rules = rules, pl_excluded = excl,
                 pl_warnings = buildWarnings rules cs (ld_id d) grace,
                 pl_coverage = buildCoverage rules cs (ld_id d),
                 pl_relations = relations, pl_sightings = sightings, pl_policy = PolicyVersion,
                 pl_revision = ld_catalog_revision d, pl_cutoff = cutoff, pl_hash = []\<rparr>
          in Ok (plan\<lparr>pl_hash := SemanticHash plan target\<rparr>))"

section \<open>Several lists\<close>

definition hasPartialCoverage :: "excluded list \<Rightarrow> bool" where
  "hasPartialCoverage es \<longleftrightarrow>
     (\<exists>e \<in> set es. \<exists>r \<in> set (ex_reasons e).
        r \<in> {ReasonUnsupportedByTarget, ReasonWideNetworkExpansion, ReasonRuleLimitExceeded})"

fun check_identities :: "list_def option \<Rightarrow> list_def list \<Rightarrow> plan_error option" where
  "check_identities prev [] = None"
| "check_identities prev (d # ds) =
     (if \<not> is_ok (validate_slug (ld_id d)) then Some ErrInvalidIdentity
      else case prev of
        None \<Rightarrow> check_identities (Some d) ds
      | Some p \<Rightarrow>
          if ld_id p = ld_id d then Some (ErrDuplicateIdentity (ld_id d))
          else if ld_catalog_revision p \<noteq> ld_catalog_revision d then Some ErrRevisionMismatch
          else check_identities (Some d) ds)"

definition combine_plans :: "routing_plan \<Rightarrow> string \<Rightarrow> routing_plan \<Rightarrow> routing_plan" where
  "combine_plans c i p = c
     \<lparr>pl_lists := pl_lists c @ pl_lists p, pl_rules := pl_rules c @ pl_rules p,
      pl_excluded := pl_excluded c @ pl_excluded p,
      pl_warnings := pl_warnings c @ pl_warnings p @
        (if hasPartialCoverage (pl_excluded p)
         then [''partial_coverage:unsupported_or_quarantined:'' @ i] else []),
      pl_coverage := pl_coverage c @ pl_coverage p, pl_relations := pl_relations c @ pl_relations p,
      pl_sightings := pl_sightings c @ pl_sightings p\<rparr>"

fun build_lists ::
  "(list_input \<Rightarrow> (plan_error, routing_plan) result) \<Rightarrow> list_input list \<Rightarrow> routing_plan
   \<Rightarrow> (plan_error, routing_plan) result" where
  "build_lists build [] c = Ok c"
| "build_lists build (i # is) c =
     (case build i of
        Inl e \<Rightarrow> Err (ErrBuildList (ld_id (in_def i)) e)
      | Inr p \<Rightarrow> build_lists build is (combine_plans c (ld_id (in_def i)) p))"

text \<open>The result is the plan beside the error, as the Go function returns both.\<close>

definition BuildPlanSetWith ::
  "(prefix list \<Rightarrow> prefix list) \<Rightarrow> list_input list \<Rightarrow> target_def \<Rightarrow> time \<Rightarrow> plan_options
   \<Rightarrow> routing_plan option \<times> plan_error option" where
  "BuildPlanSetWith ipset inputs target cutoff options =
     (if inputs = [] then (None, Some ErrEmptySet)
      else
        let ordered = sort_key (ld_id \<circ> in_def) inputs in
        case check_identities None (map in_def ordered) of
          Some e \<Rightarrow> (None, Some e)
        | None \<Rightarrow>
            let unbounded = target\<lparr>td_constraints := (td_constraints target)\<lparr>tc_max_rules := 0\<rparr>\<rparr>;
                start = \<lparr>pl_interface = RoutingPlanInterfaceVersion, pl_target = td_id target,
                  pl_format = td_format target, pl_lists = [], pl_rules = [], pl_excluded = [],
                  pl_warnings = [], pl_coverage = [], pl_relations = [], pl_sightings = [],
                  pl_policy = PolicyVersion, pl_revision = ld_catalog_revision (in_def (hd ordered)),
                  pl_cutoff = cutoff, pl_hash = []\<rparr>
            in case build_lists (\<lambda>i. buildPlan ipset i unbounded cutoff True options) ordered start of
                 Inl e \<Rightarrow> (None, Some e)
               | Inr c \<Rightarrow>
                   let combined = CanonicalizePlan c;
                       plan = combined\<lparr>pl_hash := SemanticHash combined target\<rparr>
                   in case requiredCoverageError (pl_coverage plan) of
                        Some e \<Rightarrow> (Some plan, Some e)
                      | None \<Rightarrow>
                          let maximum = tc_max_rules (td_constraints target) in
                          if 0 < maximum \<and> maximum < int (length (pl_rules plan))
                          then (Some (plan\<lparr>pl_warnings :=
                                  StableStrings (pl_warnings plan @ [''partial_coverage:rule_limit''])\<rparr>),
                                Some (ErrRuleLimitExceeded (length (pl_rules plan)) maximum))
                          else (Some plan, None))"

end
