(* ===== verification/RuleReduction.thy ===== *)
theory RuleReduction
  imports BuildPlan Priority
begin

text \<open>
  What merging and collapsing do to the rules of a list: no destination is added or lost under any
  list and component, and no reason or provenance reference is lost.
\<close>

section \<open>What merging leaves alone\<close>

definition same_core :: "route_rule \<Rightarrow> route_rule \<Rightarrow> bool" where
  "same_core r s \<longleftrightarrow> rr_kind r = rr_kind s \<and> rr_domain r = rr_domain s \<and> rr_addr r = rr_addr s \<and>
     rr_prefix r = rr_prefix s \<and> rr_action r = rr_action s \<and> rr_list r = rr_list s \<and>
     rr_component r = rr_component s \<and> rr_labels r = rr_labels s"

lemma same_core_refl [simp]: "same_core r r"
  by (simp add: same_core_def)

lemma same_core_trans: "same_core r s \<Longrightarrow> same_core s t \<Longrightarrow> same_core r t"
  by (simp add: same_core_def)

lemma same_core_fresh [simp]: "same_core (fresh_rule r) r"
  by (simp add: same_core_def fresh_rule_def)

lemma same_core_merge [simp]: "same_core (merge_rule p r) p"
  by (simp add: same_core_def merge_rule_def)

lemma core_value: "same_core r s \<Longrightarrow> rule_value r = rule_value s"
  by (cases "rr_kind s") (simp_all add: same_core_def rule_value.simps)

lemma core_valid: "same_core r s \<Longrightarrow> rule_valid r = rule_valid s"
  by (cases "rr_kind s") (simp_all add: same_core_def rule_valid_def)

lemma core_wf: "same_core r s \<Longrightarrow> rule_wf r = rule_wf s"
  using core_valid [of r s] by (simp add: rule_wf_def) (simp add: same_core_def)

lemma core_matches: "same_core r s \<Longrightarrow> rule_matches r d = rule_matches s d"
  by (cases d; cases "rr_kind s") (simp_all add: same_core_def)

lemma core_candidate_key: "same_core r s \<Longrightarrow> candidate_key r = candidate_key s"
  using core_value [of r s] by (simp add: candidate_key_def same_core_def)

lemma slug_no_nul:
  assumes "is_ok (validate_slug v)"
  shows "CHR 0x00 \<notin> set v"
proof -
  have c: "\<not> is_lower CHR 0x00" "\<not> slug_char CHR 0x00"
    by (simp_all add: is_lower_def slug_char_def is_dec_def char_le_iff)
  from assms have "v \<noteq> []" "is_lower (hd v)" "\<forall>c \<in> set (tl v). slug_char c"
    by (auto simp: validate_slug_def split: if_splits)
  with c show ?thesis by (cases v) auto
qed

lemma rule_wf_slugs:
  "rule_wf r \<Longrightarrow> is_ok (validate_slug (rr_list r)) \<and> is_ok (validate_slug (rr_component r)) \<and> rr_action r = ActionRoute"
  by (auto simp: rule_wf_def rule_valid_def split: if_splits)

lemma candidate_key_eq:
  assumes "rule_wf r" "rule_wf s"
  shows "candidate_key r = candidate_key s \<longleftrightarrow>
    same_target r s \<and> rr_list r = rr_list s \<and> rr_component r = rr_component s"
proof -
  have n: "CHR 0x00 \<notin> set (rule_value r)" "CHR 0x00 \<notin> set (rule_value s)"
    "CHR 0x00 \<notin> set (kind_str (rr_kind r))" "CHR 0x00 \<notin> set (kind_str (rr_kind s))"
    "CHR 0x00 \<notin> set (rr_list r)" "CHR 0x00 \<notin> set (rr_list s)"
    using assms rule_value_no_nul nul_not_plain rule_wf_not_other rule_wf_slugs slug_no_nul by metis+
  have "candidate_key r = candidate_key s \<longleftrightarrow>
      rule_key r = rule_key s \<and> rr_list r = rr_list s \<and> rr_component r = rr_component s"
    using n by (auto simp: candidate_key_def rule_key_def overlap_key_def nul_split)
  then show ?thesis using rule_key_eq [OF assms] by simp
qed

section \<open>Merging equal candidates\<close>

lemma set_dedupe: "set (dedupeRules xs) = snd ` set (group_fold candidate_key fresh_rule merge_rule xs)"
  by (simp add: dedupeRules_def sortRules_def)

lemma dedupe_origin:
  assumes "r \<in> set (dedupeRules xs)"
  shows "\<exists>x \<in> set xs. same_core r x"
proof -
  obtain k where "(k, r) \<in> set (group_fold candidate_key fresh_rule merge_rule xs)"
    using assms by (auto simp: set_dedupe)
  then show ?thesis
  proof (rule group_fold_invariant)
    show "\<exists>x \<in> set xs. same_core (fresh_rule z) x" if "z \<in> set xs" for z
      using that same_core_fresh by blast
    show "\<exists>x \<in> set xs. same_core (merge_rule p y) x" if "\<exists>x \<in> set xs. same_core p x" for p y
      using that same_core_merge same_core_trans by blast
  qed
qed

text \<open>What a reduction must keep of a rule: owner, destinations, reasons and references.\<close>

definition represents :: "route_rule \<Rightarrow> route_rule \<Rightarrow> bool" where
  "represents r x \<longleftrightarrow> rr_list r = rr_list x \<and> rr_component r = rr_component x \<and>
     (\<forall>d. rule_matches x d \<longrightarrow> rule_matches r d) \<and>
     set (rr_reasons x) \<subseteq> set (rr_reasons r) \<and> set (rr_refs x) \<subseteq> set (rr_refs r)"

lemma represents_trans: "represents r s \<Longrightarrow> represents s t \<Longrightarrow> represents r t"
  unfolding represents_def by auto

lemma dedupe_represents:
  assumes wf: "\<forall>x \<in> set xs. rule_wf x" and x: "x \<in> set xs"
  shows "\<exists>r \<in> set (dedupeRules xs). represents r x"
proof -
  let ?Q = "\<lambda>v. set (rr_reasons x) \<subseteq> set (rr_reasons v) \<and> set (rr_refs x) \<subseteq> set (rr_refs v)"
  have "\<exists>v. (candidate_key x, v) \<in> set (group_fold candidate_key fresh_rule merge_rule xs) \<and> ?Q v"
    using x by (rule group_fold_absorbs) (auto simp: fresh_rule_def merge_rule_def StableStrings_sort_unique)
  then obtain v where v: "(candidate_key x, v) \<in> set (group_fold candidate_key fresh_rule merge_rule xs)" "?Q v"
    by blast
  have k: "candidate_key v = candidate_key x"
  proof (rule group_fold_keyed [OF _ _ v(1)])
    show "candidate_key (fresh_rule r) = candidate_key r" for r by (rule core_candidate_key) simp
    show "candidate_key (merge_rule p r) = candidate_key p" for p r by (rule core_candidate_key) simp
  qed
  have m: "v \<in> set (dedupeRules xs)" using v(1) by (force simp: set_dedupe)
  from dedupe_origin [OF m] wf have "rule_wf v" using core_wf by blast
  with k wf x have "same_target v x" "rr_list v = rr_list x" "rr_component v = rr_component x"
    using candidate_key_eq by auto
  with v(2) m show ?thesis
    using same_target_matches by (auto simp: represents_def)
qed

lemma dedupe_wf: "\<forall>x \<in> set xs. rule_wf x \<Longrightarrow> \<forall>r \<in> set (dedupeRules xs). rule_wf r"
  using dedupe_origin core_wf by blast

text \<open>The merge of rules is order-free: \<open>keyed_merge\<close> on the rules the planner makes.\<close>

definition unlabelled :: "route_rule \<Rightarrow> bool" where
  "unlabelled r \<longleftrightarrow> rule_wf r \<and> rr_labels r = [] \<and>
     (\<not> kind_is_domain (rr_kind r) \<longrightarrow> rr_domain r = []) \<and> (\<not> kind_is_ip (rr_kind r) \<longrightarrow> rr_addr r = NoAddr) \<and>
     (\<not> kind_is_prefix (rr_kind r) \<longrightarrow> rr_prefix r = no_prefix)"

lemma core_unlabelled: "same_core r s \<Longrightarrow> unlabelled r = unlabelled s"
  using core_wf [of r s] by (simp add: unlabelled_def) (simp add: same_core_def)

lemma unlabelled_core:
  assumes "unlabelled r" "unlabelled s" "candidate_key r = candidate_key s"
  shows "same_core r s"
proof -
  have w: "rule_wf r" "rule_wf s" using assms by (simp_all add: unlabelled_def)
  then have "same_target r s \<and> rr_list r = rr_list s \<and> rr_component r = rr_component s"
    using candidate_key_eq assms(3) by blast
  with rule_wf_slugs [OF w(1)] rule_wf_slugs [OF w(2)] assms(1,2) show ?thesis
    unfolding same_core_def same_target_def unlabelled_def by metis
qed

lemma rule_eqI:
  assumes "same_core r s" "rr_class r = rr_class s" "rr_reasons r = rr_reasons s" "rr_refs r = rr_refs s"
    "rr_expires r = rr_expires s"
  shows "r = s"
  using assms by (cases r; cases s) (simp add: same_core_def)

definition merge_class :: "SourceClass \<Rightarrow> SourceClass \<Rightarrow> SourceClass" where
  "merge_class p r = (if strongerClass r p then r else p)"

lemma merge_class_laws:
  "merge_class x x = x" "merge_class x y = merge_class y x"
  "merge_class (merge_class x y) z = merge_class (merge_class x z) y"
  "merge_class (merge_class x y) y = merge_class x y"
  by (auto simp: merge_class_def strongerClass_def)

lemma later_expiry_laws:
  "later_expiry x x = x" "later_expiry x y = later_expiry y x"
  "later_expiry (later_expiry x y) z = later_expiry (later_expiry x z) y"
  "later_expiry (later_expiry x y) y = later_expiry x y"
  by (auto simp: later_expiry_def split: option.splits)

lemma merge_rule_sel [simp]:
  "rr_class (merge_rule p r) = merge_class (rr_class p) (rr_class r)"
  "rr_reasons (merge_rule p r) = StableStrings (rr_reasons p @ rr_reasons r)"
  "rr_refs (merge_rule p r) = StableStrings (rr_refs p @ rr_refs r)"
  "rr_expires (merge_rule p r) = later_expiry (rr_expires p) (rr_expires r)"
  by (simp_all add: merge_rule_def merge_class_def)

lemma fresh_rule_sel [simp]:
  "rr_class (fresh_rule r) = rr_class r" "rr_reasons (fresh_rule r) = StableStrings (rr_reasons r)"
  "rr_refs (fresh_rule r) = StableStrings (rr_refs r)" "rr_expires (fresh_rule r) = rr_expires r"
  by (simp_all add: fresh_rule_def)

lemma StableStrings_eqI: "set xs = set ys \<Longrightarrow> StableStrings xs = StableStrings ys"
  unfolding StableStrings_sort_unique by (rule sort_unique_eqI)

lemma set_StableStrings [simp]: "set (StableStrings xs) = set xs"
  by (simp add: StableStrings_sort_unique)

lemma core_sides [simp]:
  "same_core (merge_rule p r) s = same_core p s" "same_core s (merge_rule p r) = same_core s p"
  "same_core (fresh_rule p) s = same_core p s" "same_core s (fresh_rule p) = same_core s p"
  by (simp_all add: same_core_def merge_rule_def fresh_rule_def)

lemma merge_rule_eqI:
  assumes "same_core p q" "merge_class (rr_class p) (rr_class r) = merge_class (rr_class q) (rr_class s)"
    "set (rr_reasons p) \<union> set (rr_reasons r) = set (rr_reasons q) \<union> set (rr_reasons s)"
    "set (rr_refs p) \<union> set (rr_refs r) = set (rr_refs q) \<union> set (rr_refs s)"
    "later_expiry (rr_expires p) (rr_expires r) = later_expiry (rr_expires q) (rr_expires s)"
  shows "merge_rule p r = merge_rule q s"
  using assms by (intro rule_eqI) (simp_all, (rule StableStrings_eqI, simp)+)

lemma set_merged [simp]:
  "set (rr_reasons (merge_rule p r)) = set (rr_reasons p) \<union> set (rr_reasons r)"
  "set (rr_refs (merge_rule p r)) = set (rr_refs p) \<union> set (rr_refs r)"
  "set (rr_reasons (fresh_rule r)) = set (rr_reasons r)" "set (rr_refs (fresh_rule r)) = set (rr_refs r)"
  by simp_all

interpretation rules: keyed_merge candidate_key fresh_rule merge_rule unlabelled
proof (unfold_locales, goal_cases)
  case (1 x)
  then show ?case using core_unlabelled same_core_fresh by blast
next
  case (2 x y)
  then show ?case using core_unlabelled same_core_merge by blast
next
  case (3 x)
  show ?case by (rule core_candidate_key) simp
next
  case (4 x y)
  show ?case by (rule core_candidate_key) simp
next
  case (5 x y)
  show ?case by (rule merge_rule_eqI) simp_all
next
  case (6 x)
  have "rr_reasons (merge_rule (fresh_rule x) x) = rr_reasons (fresh_rule x)"
    "rr_refs (merge_rule (fresh_rule x) x) = rr_refs (fresh_rule x)"
    unfolding merge_rule_sel fresh_rule_sel by (rule StableStrings_eqI, simp)+
  then show ?case
    by (intro rule_eqI) (simp_all only: core_sides same_core_refl merge_rule_sel(1,4) fresh_rule_sel(1,4)
        merge_class_laws later_expiry_laws)
next
  case (7 x y)
  then have "same_core x y" by (rule unlabelled_core)
  then show ?case
    by (intro merge_rule_eqI) (auto simp: merge_class_laws(2) later_expiry_laws(2))
next
  case (8 x y z)
  show ?case
    by (rule merge_rule_eqI) (auto simp: merge_class_laws(3) later_expiry_laws(3))
next
  case (9 x y)
  show ?case
    by (rule merge_rule_eqI) (auto simp: merge_class_laws(4) later_expiry_laws(4))
qed

lemma sort_key_same_set:
  fixes f :: "'a \<Rightarrow> 'b::linorder"
  assumes "distinct (map f xs)" "distinct (map f ys)" "set xs = set ys"
  shows "sort_key f xs = sort_key f ys"
proof -
  have "distinct xs" "distinct ys" "inj_on f (set xs)"
    using assms by (simp_all add: distinct_map)
  with assms(3) show ?thesis by (intro sort_key_perm set_to_mset) auto
qed

lemma dedupe_set:
  assumes "\<forall>x \<in> set xs. unlabelled x" "set xs = set ys"
  shows "dedupeRules xs = dedupeRules ys"
proof -
  let ?g = "\<lambda>xs. map snd (group_fold candidate_key fresh_rule merge_rule xs)"
  have kf: "candidate_key (fresh_rule r) = candidate_key r" "candidate_key (merge_rule p r) = candidate_key p" for p r
    by (rule core_candidate_key, simp)+
  have k: "distinct (map candidate_key (?g zs))" for zs
    by (rule group_fold_snd_distinct) (rule kf)+
  have ks: "rule_sort_key r = rule_sort_key s \<Longrightarrow> candidate_key r = candidate_key s" for r s
    by (simp add: rule_sort_key_def candidate_key_def)
  have "distinct (map rule_sort_key (?g zs))" for zs
    using k [of zs] ks unfolding distinct_map inj_on_def by blast
  moreover have "set (?g xs) = set (?g ys)"
    using rules.group_fold_set [OF assms] by simp
  ultimately show ?thesis
    unfolding dedupeRules_def sortRules_def by (intro sort_key_same_set) auto
qed

text \<open>
  Merging the rules of a list forgets how they were read: the result depends only on the set
  of candidate rules, not on their order or repetition, so the strongest class, the union of
  reasons and references and the latest expiry win whatever came first.
\<close>

theorem dedupeRules_order_free:
  assumes "\<forall>x \<in> set xs. unlabelled x" "set xs = set ys"
  shows "dedupeRules xs = dedupeRules ys"
  using assms by (rule dedupe_set)

theorem dedupeRules_order_free_witness:
  "dedupeRules [sample_rule RuleIPv4 (V4 0x08080808) no_prefix ''a'', sample_rule RuleIPv4 (V4 0x08080809) no_prefix ''a''] =
   dedupeRules [sample_rule RuleIPv4 (V4 0x08080809) no_prefix ''a'', sample_rule RuleIPv4 (V4 0x08080808) no_prefix ''a'',
     sample_rule RuleIPv4 (V4 0x08080809) no_prefix ''a'']"
  by (rule dedupeRules_order_free)
    (auto simp: unlabelled_def sample_rule_def mk_rule_def rule_wf_def rule_valid_def validate_slug_def
      slug_char_def is_lower_def is_dec_def char_le_iff)

section \<open>Collapsing\<close>

lemma splitGroupKey_parts:
  assumes "CHR 0x00 \<notin> set a" "CHR 0x00 \<notin> set b"
  shows "splitGroupKey (a @ nul @ b @ nul @ c) = (a, b, c)"
proof -
  have t: "takeWhile (\<lambda>c. c \<noteq> CHR 0x00) (u @ CHR 0x00 # v) = u \<and>
      dropWhile (\<lambda>c. c \<noteq> CHR 0x00) (u @ CHR 0x00 # v) = CHR 0x00 # v" if "CHR 0x00 \<notin> set u" for u v
    using that by (induction u) auto
  show ?thesis
    using t [OF assms(1), of "b @ CHR 0x00 # c"] t [OF assms(2), of c]
    by (simp add: splitGroupKey_def nul_def)
qed

text \<open>An address is the network of its full width.\<close>

lemma host_network:
  assumes "plain_addr a"
  shows "plain_prefix (prefix_from a (int (bit_len a)))"
    "prefix_from a (int (bit_len a)) = Prefix a (int (bit_len a))"
    "masked (prefix_from a (int (bit_len a))) = prefix_from a (int (bit_len a))"
    "prefix_contains (prefix_from a (int (bit_len a))) b \<longleftrightarrow> b = a"
proof -
  show "plain_prefix (prefix_from a (int (bit_len a)))"
    using assms by (intro plain_prefix_from_plain) auto
  show "prefix_from a (int (bit_len a)) = Prefix a (int (bit_len a))"
    using assms by (cases a) (auto simp: prefix_from_def plain_addr_def)
  show "masked (prefix_from a (int (bit_len a))) = prefix_from a (int (bit_len a))"
    using assms by (cases a) (auto simp: prefix_from_def plain_addr_def masked_def clear_low_def)
  show "prefix_contains (prefix_from a (int (bit_len a))) b \<longleftrightarrow> b = a"
    using host_prefix_set [OF assms] by (auto simp: prefix_set_def)
qed

lemma rule_network_facts:
  assumes "rule_wf r" "is_address_rule r"
  shows "plain_prefix (rule_network r)" "masked (rule_network r) = rule_network r"
    "rule_matches r (DAddr a) \<longleftrightarrow> prefix_contains (rule_network r) a" "\<not> rule_matches r (DName n)"
    "prefix_covers q (rule_network r) \<Longrightarrow> covers q r"
proof -
  consider (p) "kind_is_prefix (rr_kind r)" | (i) "kind_is_ip (rr_kind r)" "\<not> kind_is_prefix (rr_kind r)"
    using assms(2) by (auto simp: is_address_rule_def kind_is_ip_def)
  then have "plain_prefix (rule_network r) \<and> masked (rule_network r) = rule_network r \<and>
    (\<forall>a. rule_matches r (DAddr a) \<longleftrightarrow> prefix_contains (rule_network r) a) \<and>
    (\<forall>q. prefix_covers q (rule_network r) \<longrightarrow> covers q r)"
  proof cases
    case p
    then have "\<not> kind_is_ip (rr_kind r)" by (auto simp: kind_is_ip_def)
    with p rule_wf_prefix [OF assms(1) p] show ?thesis
      by (auto simp: rule_network_def covers_def prefix_covers_def plain_prefix_def plain_addr_def)
  next
    case i
    have a: "plain_addr (rr_addr r)" using rule_wf_ip(1) [OF assms(1) i(1)] .
    then have u: "unmap (rr_addr r) = rr_addr r" by (simp add: plain_addr_def)
    show ?thesis
      using i host_network [OF a] by (auto simp: rule_network_def u covers_def prefix_covers_def)
  qed
  then show "plain_prefix (rule_network r)" "masked (rule_network r) = rule_network r"
    "rule_matches r (DAddr a) \<longleftrightarrow> prefix_contains (rule_network r) a"
    "prefix_covers q (rule_network r) \<Longrightarrow> covers q r" by blast+
  show "\<not> rule_matches r (DName n)"
    using assms(2) by (auto simp: is_address_rule_def kind_is_ip_def kind_is_prefix_def)
qed

text \<open>Every prefix of a collapsed group becomes a well-formed rule of the group's owner.\<close>

lemma new_prefix_rule_wf:
  assumes "plain_prefix p" "masked p = p" "is_ok (validate_slug l)" "is_ok (validate_slug c)"
  shows "\<exists>r. new_prefix_rule p l c cls reasons refs = Ok r \<and> rule_wf r \<and> is_address_rule r \<and>
    rr_list r = l \<and> rr_component r = c \<and> rr_class r = cls \<and> rr_reasons r = reasons \<and> rr_refs r = refs \<and>
    rr_kind r = (if is4 (pfx_addr p) then RulePrefix4 else RulePrefix6) \<and> unlabelled r \<and>
    (\<forall>a. rule_matches r (DAddr a) \<longleftrightarrow> prefix_contains p a)"
proof -
  have "is4 (pfx_addr p) \<or> is6 (pfx_addr p)" "\<not> is4in6 (pfx_addr p)" "prefix_valid p" "addr_zone (pfx_addr p) = []"
    using assms(1) by (cases "pfx_addr p"; auto simp: plain_prefix_def plain_addr_def prefix_valid_def)+
  then show ?thesis
    using assms by (auto simp: new_prefix_rule_def unmap_prefix_plain_id mk_rule_def rule_wf_def rule_valid_def
        is_address_rule_def Let_def unlabelled_def)
qed

lemma new_addr_rule_wf:
  assumes "plain_addr a" "is_ok (validate_slug l)" "is_ok (validate_slug c)"
  shows "\<exists>r. new_addr_rule a l c cls reasons refs = Ok r \<and> rule_wf r \<and> is_address_rule r \<and>
    rr_list r = l \<and> rr_component r = c \<and> rr_class r = cls \<and> rr_reasons r = reasons \<and> rr_refs r = refs \<and>
    rr_kind r = (if is4 a then RuleIPv4 else RuleIPv6) \<and> unlabelled r \<and>
    (\<forall>b. rule_matches r (DAddr b) \<longleftrightarrow> b = a)"
proof -
  have "is4 a \<or> is6 a" "\<not> is4in6 a" "addr_valid a" "addr_zone a = []" "unmap a = a"
    using assms(1) by (cases a; auto simp: plain_addr_def)+
  then show ?thesis
    using assms by (auto simp: new_addr_rule_def mk_rule_def rule_wf_def rule_valid_def
        is_address_rule_def Let_def unlabelled_def)
qed

lemma wf_expires [simp]: "rule_wf (r\<lparr>rr_expires := e\<rparr>) = rule_wf r" "unlabelled (r\<lparr>rr_expires := e\<rparr>) = unlabelled r"
  "is_address_rule (r\<lparr>rr_expires := e\<rparr>) = is_address_rule r"
  "rule_matches (r\<lparr>rr_expires := e\<rparr>) d = rule_matches r d"
proof -
  have c: "same_core (r\<lparr>rr_expires := e\<rparr>) r" by (simp add: same_core_def)
  show "rule_wf (r\<lparr>rr_expires := e\<rparr>) = rule_wf r" by (rule core_wf [OF c])
  show "unlabelled (r\<lparr>rr_expires := e\<rparr>) = unlabelled r" by (rule core_unlabelled [OF c])
  show "rule_matches (r\<lparr>rr_expires := e\<rparr>) d = rule_matches r d" by (rule core_matches [OF c])
qed (simp add: is_address_rule_def)

definition group_ok :: "string \<Rightarrow> route_rule list \<Rightarrow> bool" where
  "group_ok key grp \<longleftrightarrow> grp \<noteq> [] \<and> (\<forall>x \<in> set grp. rule_wf x \<and> is_address_rule x \<and> group_key x = key)"

lemma group_ok_split:
  assumes "group_ok key grp" "x \<in> set grp"
  shows "splitGroupKey key = (rr_list x, rr_component x, rr_class x)"
proof -
  have "key = rr_list x @ nul @ rr_component x @ nul @ rr_class x" "rule_wf x"
    using assms by (auto simp: group_ok_def group_key_def)
  then show ?thesis
    using splitGroupKey_parts rule_wf_slugs [of x] slug_no_nul by metis
qed

lemma collapsed_rule_facts:
  assumes g: "group_ok key grp" and x: "x \<in> set grp" and q: "plain_prefix q" "masked q = q"
  shows "\<exists>r. collapsed_rule grp key q = Ok r \<and> rule_wf r \<and> is_address_rule r \<and> unlabelled r \<and>
    rr_list r = rr_list x \<and> rr_component r = rr_component x \<and> rr_class r = rr_class x \<and>
    (\<forall>a. rule_matches r (DAddr a) \<longleftrightarrow> prefix_contains q a) \<and>
    rr_kind r = (if pfx_bits q \<noteq> int (bit_len (pfx_addr q))
                 then (if is4 (pfx_addr q) then RulePrefix4 else RulePrefix6)
                 else (if is4 (pfx_addr q) then RuleIPv4 else RuleIPv6)) \<and>
    (\<forall>y \<in> set grp. covers q y \<longrightarrow> set (rr_reasons y) \<subseteq> set (rr_reasons r) \<and> set (rr_refs y) \<subseteq> set (rr_refs r))"
proof -
  let ?m = "filter (covers q) grp"
  let ?refs = "StableStrings (concat (map rr_refs ?m))" and ?r0 = "StableStrings (concat (map rr_reasons ?m))"
  let ?r1 = "if ?r0 = [] then [ReasonFreshDNSObservation] else ?r0"
  let ?net = "pfx_bits q \<noteq> int (bit_len (pfx_addr q))"
  define reasons where "reasons = (if ?net \<and> 1 < length ?m then StableStrings (?r1 @ [ReasonLosslessCollapsed]) else ?r1)"
  have keep: "\<forall>y \<in> set grp. covers q y \<longrightarrow> set (rr_reasons y) \<subseteq> set reasons \<and> set (rr_refs y) \<subseteq> set ?refs"
  proof (intro ballI impI conjI)
    fix y
    assume "y \<in> set grp" "covers q y"
    then have "set (rr_reasons y) \<subseteq> set ?r0" by auto
    moreover have "set ?r0 \<subseteq> set ?r1" by (cases "?r0 = []") (simp_all only: if_True if_False list.set, simp_all)
    moreover have "set ?r1 \<subseteq> set reasons" by (auto simp: reasons_def)
    ultimately show "set (rr_reasons y) \<subseteq> set reasons" by blast
    show "set (rr_refs y) \<subseteq> set ?refs" using \<open>y \<in> set grp\<close> \<open>covers q y\<close> by auto
  qed
  have sl: "is_ok (validate_slug (rr_list x))" "is_ok (validate_slug (rr_component x))"
    using g x rule_wf_slugs by (auto simp: group_ok_def)
  have e: "collapsed_rule grp key q =
      (case (if ?net then new_prefix_rule q (rr_list x) (rr_component x) (rr_class x) reasons ?refs
             else new_addr_rule (pfx_addr q) (rr_list x) (rr_component x) (rr_class x) reasons ?refs) of
         Inl e \<Rightarrow> Err e
       | Inr r \<Rightarrow> Ok (r\<lparr>rr_expires := foldl (\<lambda>e r. later_expiry e (rr_expires r)) None ?m\<rparr>))"
    unfolding collapsed_rule_def group_ok_split [OF g x] Let_def prod.case reasons_def ..
  show ?thesis
  proof (cases ?net)
    case True
    from new_prefix_rule_wf [OF q sl, of "rr_class x" reasons ?refs] obtain r where
      r: "new_prefix_rule q (rr_list x) (rr_component x) (rr_class x) reasons ?refs = Ok r" "rule_wf r" "is_address_rule r"
        "rr_list r = rr_list x" "rr_component r = rr_component x" "rr_class r = rr_class x" "rr_reasons r = reasons"
        "rr_refs r = ?refs" "rr_kind r = (if is4 (pfx_addr q) then RulePrefix4 else RulePrefix6)" "unlabelled r"
        "\<forall>a. rule_matches r (DAddr a) \<longleftrightarrow> prefix_contains q a" by blast
    show ?thesis unfolding e using True r keep by simp
  next
    case False
    have a: "plain_addr (pfx_addr q)" using q(1) by (simp add: plain_prefix_def)
    have h: "prefix_contains q b \<longleftrightarrow> b = pfx_addr q" for b
      using host_network(4) [OF a, of b] plain_prefix_from [OF q(1)] False by simp
    from new_addr_rule_wf [OF a sl, of "rr_class x" reasons ?refs] obtain r where
      r: "new_addr_rule (pfx_addr q) (rr_list x) (rr_component x) (rr_class x) reasons ?refs = Ok r" "rule_wf r" "is_address_rule r"
        "rr_list r = rr_list x" "rr_component r = rr_component x" "rr_class r = rr_class x" "rr_reasons r = reasons"
        "rr_refs r = ?refs" "rr_kind r = (if is4 (pfx_addr q) then RuleIPv4 else RuleIPv6)" "unlabelled r"
        "\<forall>b. rule_matches r (DAddr b) \<longleftrightarrow> b = pfx_addr q" by blast
    show ?thesis unfolding e using False r keep h by simp
  qed
qed

text \<open>The collapse of one group.\<close>

lemma collapse_group_facts:
  assumes ip: "ip_set ipset" and g: "group_ok key grp" and x0: "x0 \<in> set grp"
  shows "\<forall>r \<in> set (collapse_group ipset (key, grp)). rule_wf r \<and> unlabelled r \<and> is_address_rule r \<and>
      rr_list r = rr_list x0 \<and> rr_component r = rr_component x0 \<and> rr_class r = rr_class x0 \<and>
      (\<forall>a. rule_matches r (DAddr a) \<longrightarrow> (\<exists>x \<in> set grp. rule_matches x (DAddr a)))"
    and "\<forall>x \<in> set grp. \<exists>r \<in> set (collapse_group ipset (key, grp)). represents r x"
proof -
  let ?in = "map rule_network grp"
  have wf: "rule_wf x" "is_address_rule x" if "x \<in> set grp" for x using g that by (auto simp: group_ok_def)
  have c: "canonical_prefixes ?in"
    using rule_network_facts(1,2) wf by (auto simp: canonical_prefixes_def)
  have cp: "CollapseLosslessPrefixes ipset ?in = ipset ?in" by (rule collapse_canonical [OF c])
  have q: "plain_prefix q" "masked q = q" if "q \<in> set (ipset ?in)" for q
    using ip_set.canonical [OF ip c] that by (auto simp: canonical_prefixes_def)
  have mem: "r \<in> set (collapse_group ipset (key, grp)) \<longleftrightarrow>
      (\<exists>q \<in> set (ipset ?in). collapsed_rule grp key q = Ok r)" for r
    unfolding collapse_group_def snd_conv fst_conv cp by (auto split: sum.splits) metis
  have name: "\<not> rule_matches y (DName n)" if "is_address_rule y" for y n
    using that by (auto simp: is_address_rule_def kind_is_ip_def kind_is_prefix_def)
  show "\<forall>r \<in> set (collapse_group ipset (key, grp)). rule_wf r \<and> unlabelled r \<and> is_address_rule r \<and>
      rr_list r = rr_list x0 \<and> rr_component r = rr_component x0 \<and> rr_class r = rr_class x0 \<and>
      (\<forall>a. rule_matches r (DAddr a) \<longrightarrow> (\<exists>x \<in> set grp. rule_matches x (DAddr a)))"
  proof
    fix r
    assume "r \<in> set (collapse_group ipset (key, grp))"
    then obtain p where p: "p \<in> set (ipset ?in)" "collapsed_rule grp key p = Ok r" unfolding mem by blast
    from collapsed_rule_facts [OF g x0 q [OF p(1)]] obtain r' where r': "collapsed_rule grp key p = Ok r'"
      "rule_wf r'" "unlabelled r'" "is_address_rule r'" "rr_list r' = rr_list x0"
      "rr_component r' = rr_component x0" "rr_class r' = rr_class x0"
      "\<forall>a. rule_matches r' (DAddr a) \<longleftrightarrow> prefix_contains p a" by blast
    with p(2) have "r' = r" by simp
    note f = r'(2-) [unfolded this]
    have "\<exists>x \<in> set grp. rule_matches x (DAddr a)" if "rule_matches r (DAddr a)" for a
    proof -
      have "prefix_contains p a" using that f(7) by simp
      then obtain x where "x \<in> set grp" "prefix_contains (rule_network x) a"
        using ip_set.covers_only [OF ip c p(1)] by auto
      then show ?thesis using rule_network_facts(3) wf by blast
    qed
    with f show "rule_wf r \<and> unlabelled r \<and> is_address_rule r \<and> rr_list r = rr_list x0 \<and>
      rr_component r = rr_component x0 \<and> rr_class r = rr_class x0 \<and>
      (\<forall>a. rule_matches r (DAddr a) \<longrightarrow> (\<exists>x \<in> set grp. rule_matches x (DAddr a)))" by blast
  qed
  show "\<forall>x \<in> set grp. \<exists>r \<in> set (collapse_group ipset (key, grp)). represents r x"
  proof
    fix x
    assume x: "x \<in> set grp"
    then have "rule_network x \<in> set ?in" by simp
    from ip_set.covers_all [OF ip c this] obtain p where
      p: "p \<in> set (ipset ?in)" "prefix_covers p (rule_network x)" by blast
    from collapsed_rule_facts [OF g x q [OF p(1)]] obtain r where
      r: "collapsed_rule grp key p = Ok r" "rr_list r = rr_list x" "rr_component r = rr_component x"
        "\<forall>a. rule_matches r (DAddr a) \<longleftrightarrow> prefix_contains p a"
        "\<forall>y \<in> set grp. covers p y \<longrightarrow> set (rr_reasons y) \<subseteq> set (rr_reasons r) \<and> set (rr_refs y) \<subseteq> set (rr_refs r)"
      by blast
    have "covers p x" using rule_network_facts(5) wf [OF x] p(2) by blast
    with r(5) x have rr: "set (rr_reasons x) \<subseteq> set (rr_reasons r)" "set (rr_refs x) \<subseteq> set (rr_refs r)" by blast+
    have "rule_matches r d" if "rule_matches x d" for d
    proof (cases d)
      case (DAddr a)
      then have "prefix_contains (rule_network x) a" using that rule_network_facts(3) wf [OF x] by simp
      then have "prefix_contains p a" using prefix_covers_subset [OF p(2)] by auto
      with r(4) DAddr show ?thesis by simp
    next
      case (DName n)
      with name [OF wf(2) [OF x]] that show ?thesis by simp
    qed
    then have "represents r x" using r(2,3) rr by (simp add: represents_def)
    with mem p(1) r(1) show "\<exists>r \<in> set (collapse_group ipset (key, grp)). represents r x" by blast
  qed
qed

lemma address_group_ok:
  assumes "\<forall>x \<in> set xs. rule_wf x" "(k, grp) \<in> set (group_by group_key (filter is_address_rule xs))"
  shows "group_ok k grp" "set grp \<subseteq> set xs"
  using assms by (auto simp: group_by_mem group_ok_def)

lemma collapse_origin:
  assumes ip: "ip_set ipset" and wf: "\<forall>x \<in> set xs. unlabelled x" and r: "r \<in> set (collapseObserved ipset xs)"
  shows "unlabelled r \<and> (r \<in> set xs \<or> is_address_rule r \<and>
    (\<forall>a. rule_matches r (DAddr a) \<longrightarrow>
       (\<exists>x \<in> set xs. is_address_rule x \<and> rr_list x = rr_list r \<and> rr_component x = rr_component r \<and>
         rr_class x = rr_class r \<and> rule_matches x (DAddr a))))"
proof -
  have w: "\<forall>x \<in> set xs. rule_wf x" using wf by (simp add: unlabelled_def)
  from r consider "r \<in> set xs" |
    k grp where "(k, grp) \<in> set (group_by group_key (filter is_address_rule xs))" "r \<in> set (collapse_group ipset (k, grp))"
    by (auto simp: collapseObserved_def)
  then show ?thesis
  proof cases
    case 1
    with wf show ?thesis by blast
  next
    case (2 k grp)
    note g = address_group_ok [OF w 2(1)]
    obtain x0 where x0: "x0 \<in> set grp" using g(1) hd_in_set [of grp] unfolding group_ok_def by blast
    have same: "rr_list x = rr_list x0 \<and> rr_component x = rr_component x0 \<and> rr_class x = rr_class x0"
      if "x \<in> set grp" for x
      using group_ok_split [OF g(1) that] group_ok_split [OF g(1) x0] by simp
    have addr: "is_address_rule x" if "x \<in> set grp" for x using g(1) that by (simp add: group_ok_def)
    from collapse_group_facts(1) [OF ip g(1) x0] 2(2) have
      f: "unlabelled r" "is_address_rule r" "rr_list r = rr_list x0" "rr_component r = rr_component x0"
        "rr_class r = rr_class x0" "\<forall>a. rule_matches r (DAddr a) \<longrightarrow> (\<exists>x \<in> set grp. rule_matches x (DAddr a))"
      by blast+
    have "\<exists>x \<in> set xs. is_address_rule x \<and> rr_list x = rr_list r \<and> rr_component x = rr_component r \<and>
         rr_class x = rr_class r \<and> rule_matches x (DAddr a)" if "rule_matches r (DAddr a)" for a
      using f(3-6) that same addr g(2) by (metis subsetD)
    with f(1,2) show ?thesis by blast
  qed
qed

lemma represents_refl [simp]: "represents r r"
  by (simp add: represents_def)

lemma collapse_represents:
  assumes ip: "ip_set ipset" and wf: "\<forall>x \<in> set xs. rule_wf x" and x: "x \<in> set xs"
  shows "\<exists>r \<in> set (collapseObserved ipset xs). represents r x"
proof (cases "is_address_rule x")
  case False
  then have "x \<in> set (collapseObserved ipset xs)" using x by (simp add: collapseObserved_def)
  then show ?thesis using represents_refl by blast
next
  case True
  let ?grp = "filter (\<lambda>y. group_key y = group_key x) (filter is_address_rule xs)"
  have xg: "x \<in> set ?grp" using x True by simp
  then have "?grp \<noteq> []" by (metis list.set(1) empty_iff)
  then have m: "(group_key x, ?grp) \<in> set (group_by group_key (filter is_address_rule xs))"
    unfolding group_by_mem by blast
  from collapse_group_facts(2) [OF ip address_group_ok(1) [OF wf m] xg] xg
  obtain r where r: "r \<in> set (collapse_group ipset (group_key x, ?grp))" "represents r x" by blast
  have "r \<in> set (collapseObserved ipset xs)"
    unfolding collapseObserved_def set_append set_concat set_map set_sort using m r(1) by blast
  with r(2) show ?thesis by blast
qed

section \<open>The whole reduction\<close>

lemma dedupe_unlabelled: "\<forall>x \<in> set xs. unlabelled x \<Longrightarrow> \<forall>r \<in> set (dedupeRules xs). unlabelled r"
  using dedupe_origin core_unlabelled by blast

lemma unlabelled_wf: "unlabelled r \<Longrightarrow> rule_wf r"
  by (simp add: unlabelled_def)

lemma reduce_represents:
  assumes ip: "ip_set ipset" and wf: "\<forall>x \<in> set xs. unlabelled x" and x: "x \<in> set xs"
  shows "\<exists>r \<in> set (reduceRules ipset p xs). represents r x"
proof -
  let ?a = "dedupeRules xs"
  let ?b = "if p then collapseObserved ipset ?a else ?a"
  have wa: "\<forall>x \<in> set ?a. unlabelled x" using wf by (rule dedupe_unlabelled)
  have wb: "\<forall>x \<in> set ?b. unlabelled x" using wa collapse_origin [OF ip wa] by auto
  obtain r1 where r1: "r1 \<in> set ?a" "represents r1 x"
    using dedupe_represents wf x unlabelled_wf by blast
  obtain r2 where r2: "r2 \<in> set ?b" "represents r2 r1"
  proof (cases p)
    case True
    with collapse_represents [OF ip _ r1(1)] wa unlabelled_wf that show ?thesis by auto
  next
    case False
    with r1(1) that [of r1] show ?thesis by simp
  qed
  obtain r3 where "r3 \<in> set (dedupeRules ?b)" "represents r3 r2"
    using dedupe_represents [of ?b r2] wb r2(1) unlabelled_wf by blast
  with r1(2) r2(2) represents_trans show ?thesis
    unfolding reduceRules_def Let_def by blast
qed

lemma reduce_origin:
  assumes ip: "ip_set ipset" and wf: "\<forall>x \<in> set xs. unlabelled x" and r: "r \<in> set (reduceRules ipset p xs)"
  shows "unlabelled r \<and> (\<forall>d. rule_matches r d \<longrightarrow>
      (\<exists>x \<in> set xs. rr_list x = rr_list r \<and> rr_component x = rr_component r \<and>
         is_address_rule x = is_address_rule r \<and> rule_matches x d)) \<and>
    ((\<exists>x \<in> set xs. rr_kind x = rr_kind r) \<or> p \<and> is_address_rule r)"
proof -
  let ?a = "dedupeRules xs"
  let ?b = "if p then collapseObserved ipset ?a else ?a"
  have wa: "\<forall>x \<in> set ?a. unlabelled x" using wf by (rule dedupe_unlabelled)
  from r obtain y where y: "y \<in> set ?b" "same_core r y"
    using dedupe_origin unfolding reduceRules_def Let_def by blast
  have core: "same_core u v \<Longrightarrow> rr_list u = rr_list v \<and> rr_component u = rr_component v \<and>
      rr_kind u = rr_kind v \<and> is_address_rule u = is_address_rule v" for u v
    by (simp add: same_core_def is_address_rule_def)
  have orig: "\<exists>x \<in> set xs. rr_list x = rr_list z \<and> rr_component x = rr_component z \<and> rr_kind x = rr_kind z \<and>
      is_address_rule x = is_address_rule z \<and> (\<forall>d. rule_matches x d = rule_matches z d)" if "z \<in> set ?a" for z
  proof -
    have "\<exists>x \<in> set xs. same_core z x" using dedupe_origin [OF that] .
    then obtain x where x: "x \<in> set xs" "same_core z x" by blast
    with core [OF x(2)] core_matches [OF x(2)] show ?thesis by (intro bexI [of _ x]) simp_all
  qed
  have "unlabelled y \<and> (y \<in> set ?a \<or> p \<and> is_address_rule y \<and> (\<forall>a. rule_matches y (DAddr a) \<longrightarrow>
      (\<exists>x \<in> set ?a. is_address_rule x \<and> rr_list x = rr_list y \<and> rr_component x = rr_component y \<and>
        rule_matches x (DAddr a))))"
    using y(1) wa collapse_origin [OF ip wa, of y] by (cases p) auto
  then have u: "unlabelled r" and cases: "y \<in> set ?a \<or> p \<and> is_address_rule y \<and> (\<forall>a. rule_matches y (DAddr a) \<longrightarrow>
      (\<exists>x \<in> set ?a. is_address_rule x \<and> rr_list x = rr_list y \<and> rr_component x = rr_component y \<and>
        rule_matches x (DAddr a)))"
    using core_unlabelled [OF y(2)] by auto
  note ry = core [OF y(2)] core_matches [OF y(2)]
  from cases show ?thesis
  proof
    assume "y \<in> set ?a"
    from orig [OF this] ry u show ?thesis by metis
  next
    assume a: "p \<and> is_address_rule y \<and> (\<forall>a. rule_matches y (DAddr a) \<longrightarrow>
      (\<exists>x \<in> set ?a. is_address_rule x \<and> rr_list x = rr_list y \<and> rr_component x = rr_component y \<and>
        rule_matches x (DAddr a)))"
    have "\<exists>x \<in> set xs. rr_list x = rr_list r \<and> rr_component x = rr_component r \<and>
         is_address_rule x = is_address_rule r \<and> rule_matches x d" if "rule_matches r d" for d
    proof (cases d)
      case (DAddr b)
      have "rule_matches y (DAddr b)" using ry(2) that DAddr by blast
      with a DAddr obtain z where z: "z \<in> set ?a" "is_address_rule z" "rr_list z = rr_list y"
        "rr_component z = rr_component y" "rule_matches z d" by blast
      from orig [OF z(1)] obtain x where "x \<in> set xs" "rr_list x = rr_list z" "rr_component x = rr_component z"
        "is_address_rule x = is_address_rule z" "rule_matches x d = rule_matches z d" by blast
      with z ry(1) a show ?thesis by (intro bexI [of _ x]) simp_all
    next
      case (DName n)
      with a ry that show ?thesis by (auto simp: is_address_rule_def kind_is_ip_def kind_is_prefix_def)
    qed
    with a ry u show ?thesis by blast
  qed
qed

text \<open>
  C7. Merging and collapsing are lossless and add nothing: under every list and component the
  reduced rules route exactly the destinations of the candidates, and for every candidate some
  reduced rule routes all of it and carries all its reasons and provenance references.
\<close>

theorem reduceRules_lossless:
  assumes "ip_set ipset" "\<forall>x \<in> set xs. unlabelled x"
  shows "((\<exists>r \<in> set (reduceRules ipset p xs). rr_list r = l \<and> rr_component r = c \<and> rule_matches r d) \<longleftrightarrow>
          (\<exists>x \<in> set xs. rr_list x = l \<and> rr_component x = c \<and> rule_matches x d)) \<and>
    (\<forall>x \<in> set xs. \<exists>r \<in> set (reduceRules ipset p xs). represents r x)"
proof (intro conjI ballI iffI)
  assume "\<exists>r \<in> set (reduceRules ipset p xs). rr_list r = l \<and> rr_component r = c \<and> rule_matches r d"
  then show "\<exists>x \<in> set xs. rr_list x = l \<and> rr_component x = c \<and> rule_matches x d"
    using reduce_origin [OF assms] by metis
next
  assume "\<exists>x \<in> set xs. rr_list x = l \<and> rr_component x = c \<and> rule_matches x d"
  then obtain x where x: "x \<in> set xs" "rr_list x = l" "rr_component x = c" "rule_matches x d" by blast
  obtain r where "r \<in> set (reduceRules ipset p xs)" "represents r x" using reduce_represents [OF assms x(1)] by blast
  with x show "\<exists>r \<in> set (reduceRules ipset p xs). rr_list r = l \<and> rr_component r = c \<and> rule_matches r d"
    by (auto simp: represents_def)
qed (use reduce_represents [OF assms] in blast)

theorem reduceRules_lossless_witness:
  "\<exists>r \<in> set (reduceRules maximal_prefixes True
      [sample_rule RuleIPv4 (V4 0x08080808) no_prefix ''a'', sample_rule RulePrefix4 NoAddr (Prefix (V4 0x08080000) 16) ''a'']).
    rr_list r = ''a'' \<and> rr_component r = ''core'' \<and> rule_matches r (DAddr (V4 0x08080808))"
proof -
  let ?xs = "[sample_rule RuleIPv4 (V4 0x08080808) no_prefix ''a'', sample_rule RulePrefix4 NoAddr (Prefix (V4 0x08080000) 16) ''a'']"
  have u: "\<forall>x \<in> set ?xs. unlabelled x"
    by (simp add: unlabelled_def sample_rule_def mk_rule_def rule_wf_def rule_valid_def validate_slug_def
        slug_char_def is_lower_def is_dec_def char_le_iff prefix_valid_def masked_def prefix_from_def
        clear_low_def drop_bit_eq_div push_bit_eq_mult)
  show ?thesis
    using reduceRules_lossless [OF maximal.ip_set_axioms u, of True "''a''" "''core''" "DAddr (V4 0x08080808)"]
    by (simp add: sample_rule_def mk_rule_def)
qed

end
