(* ===== verification/PlanLaws.thy ===== *)
theory PlanLaws
  imports RuleReduction
begin

text \<open>
  The policy of \<open>build_plan.go\<close>: what an admitted rule satisfies, that nothing offered disappears
  without a record, that a returned plan routes only public destinations the target supports, and
  what a plan returned without an error guarantees.
\<close>

section \<open>Candidates are well-formed\<close>

text \<open>
  What the types of \<open>net/netip\<close> guarantee of a stored resource, and no zone, which neither a
  resolver nor the string boundary produces.
\<close>

definition sighting_wf :: "sighting \<Rightarrow> bool" where
  "sighting_wf s \<longleftrightarrow>
     (res_kind (si_resource s) = ResourceIP \<longrightarrow> addr_zone (res_addr (si_resource s)) = []) \<and>
     (res_kind (si_resource s) = ResourcePrefix \<longrightarrow> prefix_wf (res_prefix (si_resource s)))"

lemma new_domain_rule_wf:
  assumes "new_domain_rule k v l c cls reasons refs = Ok r"
    "is_ok (validate_slug l)" "is_ok (validate_slug c)"
  shows "unlabelled r \<and> rr_list r = l \<and> rr_component r = c \<and> rr_kind r = k"
proof -
  obtain d where d: "normalize_domain v = Ok d" and r: "r = mk_rule k d NoAddr no_prefix l c cls reasons refs"
    and k: "k = RuleDomainExact \<or> k = RuleDomainSuffix"
    using assms(1) by (auto simp: new_domain_rule_def split: if_splits sum.splits)
  have "normalize_domain d = Ok d" using d by (rule normalize_domain_fixed)
  with k assms(2,3) show ?thesis
    by (auto simp: r mk_rule_def unlabelled_def rule_wf_def rule_valid_def)
qed

lemma new_addr_rule_plain:
  assumes "new_addr_rule a l c cls reasons refs = Ok r" "addr_zone a = []"
    "is_ok (validate_slug l)" "is_ok (validate_slug c)"
  shows "unlabelled r \<and> rr_list r = l \<and> rr_component r = c \<and> kind_is_ip (rr_kind r)"
proof -
  have v: "addr_valid a" using assms(1) by (auto simp: new_addr_rule_def split: if_splits)
  have p: "plain_addr (unmap a)"
    using v assms(2) not_4in6_unmap [of a] by (cases a) (auto simp: plain_addr_def)
  have "unmap (unmap a) = unmap a" using p by (simp add: plain_addr_def)
  then have e: "new_addr_rule (unmap a) l c cls reasons refs = Ok r"
    using assms(1) v p by (simp add: new_addr_rule_def plain_addr_def)
  from new_addr_rule_wf [OF p assms(3,4), of cls reasons refs] e show ?thesis by auto
qed

lemma new_prefix_rule_plain:
  assumes "new_prefix_rule p l c cls reasons refs = Ok r" "prefix_wf p"
    "is_ok (validate_slug l)" "is_ok (validate_slug c)"
  shows "unlabelled r \<and> rr_list r = l \<and> rr_component r = c \<and> kind_is_prefix (rr_kind r)"
proof -
  obtain q where q: "unmap_prefix p = Ok q" using assms(1) by (auto simp: new_prefix_rule_def split: sum.splits)
  have pl: "plain_prefix q" using unmap_prefix_plain [OF assms(2) q] .
  then have m: "plain_prefix (masked q)" "masked (masked q) = masked q" by (simp_all add: plain_masked)
  have "new_prefix_rule (masked q) l c cls reasons refs = Ok r"
    using assms(1) q m by (simp add: new_prefix_rule_def unmap_prefix_plain_id)
  with new_prefix_rule_wf [OF m assms(3,4), of cls reasons refs] show ?thesis by auto
qed


lemma seedRule_wf:
  assumes "seedRule s l = Ok r" "is_ok (validate_slug l)" "is_ok (validate_slug (seed_component s))"
  shows "unlabelled r \<and> rr_list r = l \<and> rr_component r = seed_component s"
proof -
  let ?reasons = "if seed_class s = SourceOfficial then [ReasonOfficialRule] else [ReasonManualRule]"
  let ?ref = "provenance (if seed_source s = [] then ''seed:'' @ seed_value s else seed_source s)"
  consider (d) "kind_is_domain (seed_kind s)"
      "new_domain_rule (seed_kind s) (seed_value s) l (seed_component s) (seed_class s) ?reasons ?ref = Ok r"
    | (i) a where "ParseAddr (seed_value s) = Ok a"
      "new_addr_rule a l (seed_component s) (seed_class s) ?reasons ?ref = Ok r"
    | (x) p where "ParsePrefix (seed_value s) = Ok p"
      "new_prefix_rule p l (seed_component s) (seed_class s) ?reasons ?ref = Ok r"
    using assms(1)
    by (cases "seed_kind s") (auto simp: seedRule_def Let_def kind_is_domain_def kind_is_ip_def from_domain.simps
        elim!: from_domain.elims split: sum.splits if_splits)
  then show ?thesis
  proof cases
    case d
    from new_domain_rule_wf [OF d(2) assms(2,3)] show ?thesis by simp
  next
    case i
    from ParseAddr_Ok [OF i(1)] have "addr_zone a = []" by (simp add: plain_addr_def)
    from new_addr_rule_plain [OF i(2) this assms(2,3)] show ?thesis by simp
  next
    case x
    from ParsePrefix_Ok [OF x(1)] have "prefix_wf p" by (simp add: canonical_prefix_def plain_prefix_wf)
    from new_prefix_rule_plain [OF x(2) this assms(2,3)] show ?thesis by simp
  qed
qed

definition sighting_component :: "sighting \<Rightarrow> string" where
  "sighting_component s = (if si_component s = [] then ''web'' else si_component s)"

lemma sightingRule_wf:
  assumes "sightingRule s l cs = Ok r" "sighting_wf s" "is_ok (validate_slug l)"
    "\<And>c. known_component cs c \<Longrightarrow> is_ok (validate_slug c)"
  shows "unlabelled r \<and> rr_list r = l \<and> rr_component r = sighting_component s \<and>
    known_component cs (rr_component r)"
proof -
  have k: "known_component cs (sighting_component s)"
    using assms(1) by (auto simp: sightingRule_def Let_def sighting_component_def split: if_splits)
  note slugs = assms(3) assms(4) [OF k]
  obtain cls reasons refs q where q: "r = q \<or> r = q\<lparr>rr_expires := Some (si_until s)\<rparr>"
    and made: "(case res_kind (si_resource s) of
        ResourcePrefix \<Rightarrow> new_prefix_rule (res_prefix (si_resource s)) l (sighting_component s) cls reasons refs
      | ResourceDomain \<Rightarrow> new_domain_rule RuleDomainSuffix (res_domain (si_resource s)) l (sighting_component s) cls reasons refs
      | _ \<Rightarrow> new_addr_rule (res_addr (si_resource s)) l (sighting_component s) cls reasons refs) = Ok q"
    and kind: "res_kind (si_resource s) = ResourceIP \<or> res_kind (si_resource s) = ResourcePrefix \<or> res_kind (si_resource s) = ResourceDomain"
    using assms(1) unfolding sightingRule_def Let_def sighting_component_def [symmetric]
    by (auto split: if_splits sum.splits)
  have "unlabelled q \<and> rr_list q = l \<and> rr_component q = sighting_component s"
  proof (cases "res_kind (si_resource s)")
    case ResourceDomain
    with made new_domain_rule_wf slugs show ?thesis by auto
  next
    case ResourceIP
    with assms(2) have z: "addr_zone (res_addr (si_resource s)) = []" by (simp add: sighting_wf_def)
    from ResourceIP made have "new_addr_rule (res_addr (si_resource s)) l (sighting_component s) cls reasons refs = Ok q"
      by simp
    from new_addr_rule_plain [OF this z slugs] show ?thesis by simp
  next
    case ResourcePrefix
    with assms(2) have z: "prefix_wf (res_prefix (si_resource s))" by (simp add: sighting_wf_def)
    from ResourcePrefix made have "new_prefix_rule (res_prefix (si_resource s)) l (sighting_component s) cls reasons refs = Ok q"
      by simp
    from new_prefix_rule_plain [OF this z slugs] show ?thesis by simp
  qed (use kind in auto)
  with q k show ?thesis by auto
qed

section \<open>Admission, one step at a time\<close>

text \<open>
  What an accepted rule always satisfies, the evidence it must rest on, and what answers a
  sighting: either an accepted rule or an exclusion with a reason.
\<close>

definition admitted :: "admission_context \<Rightarrow> route_rule \<Rightarrow> bool" where
  "admitted cx r \<longleftrightarrow> unlabelled r \<and> rr_list r = cx_list cx \<and>
     known_component (cx_components cx) (rr_component r) \<and> admissibleValue r = None \<and>
     supportsRule (rr_kind r) (cx_constraints cx)"

definition own_sighting :: "string \<Rightarrow> sighting \<Rightarrow> bool" where
  "own_sighting l s \<longleftrightarrow> si_list s = [] \<or> si_list s = l"

definition from_seed :: "list_def \<Rightarrow> components \<Rightarrow> route_rule \<Rightarrow> bool" where
  "from_seed d cs r \<longleftrightarrow> (\<exists>raw \<in> set (ld_seeds d). \<exists>s. seed_normalize raw = Ok s \<and>
     known_component cs (seed_component s) \<and> seedRule s (ld_id d) = Ok r)"

definition from_sighting :: "admission_context \<Rightarrow> sighting list \<Rightarrow> route_rule \<Rightarrow> bool" where
  "from_sighting cx ss r \<longleftrightarrow> (\<exists>s \<in> set ss. own_sighting (cx_list cx) s \<and>
     (\<exists>q. sightingRule s (cx_list cx) (cx_components cx) = Ok q \<and> same_core r q \<and>
        rule_value q \<notin> set (cx_off cx)) \<and>
     (is_fresh s (cx_cutoff cx) \<or> admissibleUnderGrace s (cx_grace cx)) \<and>
     (kind_is_prefix (rr_kind r) \<longrightarrow> declaredNetwork s))"

definition answers_rule :: "admission_context \<Rightarrow> sighting \<Rightarrow> route_rule \<Rightarrow> bool" where
  "answers_rule cx s r \<longleftrightarrow> (\<exists>q. sightingRule s (cx_list cx) (cx_components cx) = Ok q \<and> same_core r q \<and>
     set (rr_reasons q) \<subseteq> set (rr_reasons r) \<and> rr_refs r = rr_refs q)"

definition answers_excluded :: "admission_context \<Rightarrow> sighting \<Rightarrow> excluded \<Rightarrow> bool" where
  "answers_excluded cx s e \<longleftrightarrow> ex_reasons e \<noteq> [] \<and> ex_refs e = provenance (si_source s) \<and>
     (ex_candidate e = invalidCandidate s (cx_list cx) \<or>
      (\<exists>q. sightingRule s (cx_list cx) (cx_components cx) = Ok q \<and> same_core (ex_candidate e) q))"

lemma exclude_sel [simp]:
  "ad_accepted (exclude r out rs refs st) = ad_accepted st"
  "ad_excluded (exclude r out rs refs st) = ad_excluded st @
     [\<lparr>ex_candidate = r, ex_outcome = out, ex_reasons = rs, ex_refs = refs\<rparr>]"
  by (simp_all add: exclude_def)

lemma accept_sel [simp]:
  "ad_accepted (accept r st) = ad_accepted st @ [r]" "ad_excluded (accept r st) = ad_excluded st"
  by (simp_all add: accept_def)

lemma note_coverage_sel [simp]:
  "ad_accepted (note_coverage r st) = ad_accepted st" "ad_excluded (note_coverage r st) = ad_excluded st"
  by (simp_all add: note_coverage_def)

lemma degrade_core [simp]: "same_core (degrade cx s r) r"
  by (simp add: same_core_def degrade_def)

lemma judge_cases:
  shows "(\<exists>e. ad_excluded (judge_sighting cx s st r) = ad_excluded st @ [e] \<and>
            ad_accepted (judge_sighting cx s st r) = ad_accepted st \<and>
            ex_candidate e = r \<and> ex_reasons e \<noteq> [] \<and> ex_refs e = provenance (si_source s)) \<or>
     (ad_accepted (judge_sighting cx s st r) = ad_accepted st @ [r] \<and>
      ad_excluded (judge_sighting cx s st r) = ad_excluded st \<and> admissibleValue r = None \<and>
      supportsRule (rr_kind r) (cx_constraints cx) \<and> (kind_is_prefix (rr_kind r) \<longrightarrow> declaredNetwork s))"
  by (cases "admissibleValue r") (auto simp: judge_sighting_def)

lemma admit_sighting_cases:
  assumes "sighting_wf s" "is_ok (validate_slug (cx_list cx))"
    "\<And>c. known_component (cx_components cx) c \<Longrightarrow> is_ok (validate_slug c)"
  obtains (foreign) "\<not> own_sighting (cx_list cx) s" "admit_sighting cx st s = st"
  | (excluded) e where "ad_excluded (admit_sighting cx st s) = ad_excluded st @ [e]"
      "ad_accepted (admit_sighting cx st s) = ad_accepted st" "answers_excluded cx s e"
  | (accepted) r where "ad_accepted (admit_sighting cx st s) = ad_accepted st @ [r]"
      "ad_excluded (admit_sighting cx st s) = ad_excluded st"
      "admitted cx r" "from_sighting cx [s] r" "answers_rule cx s r"
proof (cases "own_sighting (cx_list cx) s")
  case False
  then have "admit_sighting cx st s = st" by (simp add: admit_sighting_def own_sighting_def)
  with False show ?thesis by (rule foreign)
next
  case own: True
  then have nf: "\<not> (si_list s \<noteq> [] \<and> si_list s \<noteq> cx_list cx)" by (auto simp: own_sighting_def)
  show ?thesis
  proof (cases "sightingRule s (cx_list cx) (cx_components cx)")
    case (Inl err)
    show ?thesis
      by (rule excluded) (use nf Inl in \<open>auto simp: admit_sighting_def answers_excluded_def\<close>)
  next
    case (Inr q)
    note wf = sightingRule_wf [OF Inr assms]
    have judged: thesis if j: "admit_sighting cx st s = judge_sighting cx s st r" and core: "same_core r q"
      and more: "set (rr_reasons q) \<subseteq> set (rr_reasons r)" "rr_refs r = rr_refs q"
      and ok: "rule_value q \<notin> set (cx_off cx)" "is_fresh s (cx_cutoff cx) \<or> admissibleUnderGrace s (cx_grace cx)" for r
    proof -
      note same = core [unfolded same_core_def]
      from judge_cases [of cx s st r] show thesis
      proof (elim disjE exE conjE)
        fix e assume "ad_excluded (judge_sighting cx s st r) = ad_excluded st @ [e]"
          "ad_accepted (judge_sighting cx s st r) = ad_accepted st"
          "ex_candidate e = r" "ex_reasons e \<noteq> []" "ex_refs e = provenance (si_source s)"
        with Inr core j show thesis by (intro excluded) (auto simp: answers_excluded_def)
      next
        assume a: "ad_accepted (judge_sighting cx s st r) = ad_accepted st @ [r]"
          "ad_excluded (judge_sighting cx s st r) = ad_excluded st" "admissibleValue r = None"
          "supportsRule (rr_kind r) (cx_constraints cx)" "kind_is_prefix (rr_kind r) \<longrightarrow> declaredNetwork s"
        have "unlabelled r" "rr_list r = cx_list cx" "known_component (cx_components cx) (rr_component r)"
          using wf core_unlabelled [OF core] same by metis+
        with a have "admitted cx r" by (simp add: admitted_def)
        moreover have "from_sighting cx [s] r"
          unfolding from_sighting_def using own Inr core ok a(5) by (intro bexI [of _ s]) auto
        moreover have "answers_rule cx s r" unfolding answers_rule_def using Inr core more by blast
        ultimately show thesis using a j by (intro accepted) simp_all
      qed
    qed
    consider (off) "rule_value q \<in> set (cx_off cx)"
      | (fresh) "rule_value q \<notin> set (cx_off cx)" "is_fresh s (cx_cutoff cx)"
      | (stale) "rule_value q \<notin> set (cx_off cx)" "\<not> is_fresh s (cx_cutoff cx)"
          "\<not> admissibleUnderGrace s (cx_grace cx)"
      | (grace) "rule_value q \<notin> set (cx_off cx)" "\<not> is_fresh s (cx_cutoff cx)"
          "admissibleUnderGrace s (cx_grace cx)" by blast
    then show ?thesis
    proof cases
      case off
      then show ?thesis
        using nf Inr by (intro excluded) (auto simp: admit_sighting_def answers_excluded_def)
    next
      case fresh
      then show ?thesis using nf Inr by (intro judged [of q]) (auto simp: admit_sighting_def)
    next
      case stale
      then show ?thesis
        using nf Inr by (intro excluded) (auto simp: admit_sighting_def answers_excluded_def)
    next
      case grace
      have "set (rr_reasons q) \<subseteq> set (rr_reasons (degrade cx s q))" "rr_refs (degrade cx s q) = rr_refs q"
        by (auto simp: degrade_def)
      with grace show ?thesis
        using nf Inr by (intro judged [of "degrade cx s q"]) (auto simp: admit_sighting_def)
    qed
  qed
qed

section \<open>The whole admission of a list\<close>

lemma admit_seed_cases:
  assumes "is_ok (validate_slug l)" "\<And>c. known_component cs c \<Longrightarrow> is_ok (validate_slug c)"
  shows "ad_accepted (admit_seed l cs c st raw) = ad_accepted st \<or>
    (\<exists>r s. ad_accepted (admit_seed l cs c st raw) = ad_accepted st @ [r] \<and> seed_normalize raw = Ok s \<and>
       known_component cs (seed_component s) \<and> seedRule s l = Ok r \<and> unlabelled r \<and> rr_list r = l \<and>
       known_component cs (rr_component r) \<and> admissibleValue r = None \<and> supportsRule (rr_kind r) c)"
proof (cases "seed_normalize raw")
  case (Inl e)
  then show ?thesis by (simp add: admit_seed_def)
next
  case (Inr s)
  show ?thesis
  proof (cases "known_component cs (seed_component s)")
    case False
    with Inr show ?thesis by (simp add: admit_seed_def)
  next
    case True
    show ?thesis
    proof (cases "seedRule s l")
      case (Inl e)
      with Inr show ?thesis by (simp add: admit_seed_def)
    next
      case r: (Inr r)
      from seedRule_wf [OF r assms(1) assms(2) [OF True]]
      have "unlabelled r" "rr_list r = l" "known_component cs (rr_component r)" using True by simp_all
      with Inr True r show ?thesis
        by (cases "admissibleValue r") (simp_all add: admit_seed_def)
    qed
  qed
qed

definition seed_facts :: "list_def \<Rightarrow> admission_context \<Rightarrow> route_rule \<Rightarrow> bool" where
  "seed_facts d cx r \<longleftrightarrow> admitted cx r \<and> from_seed d (cx_components cx) r"

lemma seeds_admitted_facts:
  assumes "is_ok (validate_slug (ld_id d))" "\<And>c. known_component cs c \<Longrightarrow> is_ok (validate_slug c)"
    and cx: "cx_list cx = ld_id d" "cx_components cx = cs" "cx_constraints cx = c"
  shows "\<forall>r \<in> set (ad_accepted (seeds_admitted d cs c)). seed_facts d cx r"
proof -
  have "\<forall>r \<in> set (ad_accepted (foldl (admit_seed (ld_id d) cs c) st raws)). seed_facts d cx r"
    if "set raws \<subseteq> set (ld_seeds d)" "\<forall>r \<in> set (ad_accepted st). seed_facts d cx r" for st raws
    using that
  proof (induction raws arbitrary: st)
    case (Cons raw raws)
    have raw: "raw \<in> set (ld_seeds d)" using Cons.prems by simp
    have new: "seed_facts d cx r" if "seed_normalize raw = Ok s" "known_component cs (seed_component s)"
      "seedRule s (ld_id d) = Ok r" "unlabelled r" "rr_list r = ld_id d" "known_component cs (rr_component r)"
      "admissibleValue r = None" "supportsRule (rr_kind r) c" for r s
      using that raw unfolding seed_facts_def admitted_def from_seed_def cx by blast
    have "\<forall>r \<in> set (ad_accepted (admit_seed (ld_id d) cs c st raw)). seed_facts d cx r"
      using admit_seed_cases [OF assms(1,2), of cs c st raw] Cons.prems(2) new by auto
    with Cons show ?case by simp
  qed simp
  from this [of "ld_seeds d" "\<lparr>ad_accepted = [], ad_excluded = [], ad_sufficient = []\<rparr>"]
  show ?thesis by (simp add: seeds_admitted_def)
qed

lemma fold_admit_facts:
  assumes wf: "\<forall>s \<in> set ss. sighting_wf s" and slug: "is_ok (validate_slug (cx_list cx))"
    "\<And>c. known_component (cx_components cx) c \<Longrightarrow> is_ok (validate_slug c)"
  shows "set (ad_accepted st) \<subseteq> set (ad_accepted (foldl (admit_sighting cx) st ss)) \<and> set (ad_excluded st) \<subseteq> set (ad_excluded (foldl (admit_sighting cx) st ss)) \<and>
    (\<forall>r \<in> set (ad_accepted (foldl (admit_sighting cx) st ss)). r \<in> set (ad_accepted st) \<or> admitted cx r \<and> from_sighting cx ss r) \<and>
    (\<forall>s \<in> set ss. own_sighting (cx_list cx) s \<longrightarrow>
       (\<exists>r \<in> set (ad_accepted (foldl (admit_sighting cx) st ss)). answers_rule cx s r) \<or>
       (\<exists>e \<in> set (ad_excluded (foldl (admit_sighting cx) st ss)). answers_excluded cx s e))"
  using wf
proof (induction ss arbitrary: st)
  case (Cons s ss)
  let ?st = "admit_sighting cx st s"
  have ih: "set (ad_accepted ?st) \<subseteq> set (ad_accepted (foldl (admit_sighting cx) ?st ss))"
    "set (ad_excluded ?st) \<subseteq> set (ad_excluded (foldl (admit_sighting cx) ?st ss))"
    "\<forall>r \<in> set (ad_accepted (foldl (admit_sighting cx) ?st ss)).
       r \<in> set (ad_accepted ?st) \<or> admitted cx r \<and> from_sighting cx ss r"
    "\<forall>s \<in> set ss. own_sighting (cx_list cx) s \<longrightarrow>
       (\<exists>r \<in> set (ad_accepted (foldl (admit_sighting cx) ?st ss)). answers_rule cx s r) \<or>
       (\<exists>e \<in> set (ad_excluded (foldl (admit_sighting cx) ?st ss)). answers_excluded cx s e)"
    using Cons.IH [of ?st] Cons.prems by auto
  have more: "from_sighting cx (s # ss) r" if "from_sighting cx ss r \<or> from_sighting cx [s] r" for r
    using that by (auto simp: from_sighting_def)
  have "set (ad_accepted st) \<subseteq> set (ad_accepted ?st) \<and> set (ad_excluded st) \<subseteq> set (ad_excluded ?st) \<and>
    (\<forall>r \<in> set (ad_accepted ?st). r \<in> set (ad_accepted st) \<or> admitted cx r \<and> from_sighting cx [s] r) \<and>
    (own_sighting (cx_list cx) s \<longrightarrow> (\<exists>r \<in> set (ad_accepted ?st). answers_rule cx s r) \<or>
       (\<exists>e \<in> set (ad_excluded ?st). answers_excluded cx s e))"
    by (rule admit_sighting_cases [of s cx st, OF _ slug]) (use Cons.prems in auto)
  with ih more show ?case by (simp add: subset_iff) blast
qed simp

lemma fold_note [simp]:
  "ad_accepted (foldl (\<lambda>st r. note_coverage r st) st rs) = ad_accepted st"
  "ad_excluded (foldl (\<lambda>st r. note_coverage r st) st rs) = ad_excluded st"
  by (induction rs arbitrary: st) simp_all

lemma set_admissionOrder [simp]: "set (admissionOrder ss) = set ss"
  by (simp add: admissionOrder_def)

lemma all_admitted_facts:
  assumes "\<forall>s \<in> set ss. sighting_wf s" "is_ok (validate_slug (cx_list cx))"
    "\<And>c. known_component (cx_components cx) c \<Longrightarrow> is_ok (validate_slug c)"
  shows "set (ad_accepted st) \<subseteq> set (ad_accepted (all_admitted cx st ss))"
    "set (ad_excluded st) \<subseteq> set (ad_excluded (all_admitted cx st ss))"
    "\<forall>r \<in> set (ad_accepted (all_admitted cx st ss)).
       r \<in> set (ad_accepted st) \<or> admitted cx r \<and> from_sighting cx ss r"
    "\<forall>s \<in> set ss. own_sighting (cx_list cx) s \<longrightarrow>
       (\<exists>r \<in> set (ad_accepted (all_admitted cx st ss)). answers_rule cx s r) \<or>
       (\<exists>e \<in> set (ad_excluded (all_admitted cx st ss)). answers_excluded cx s e)"
proof -
  have o: "from_sighting cx (admissionOrder ss) r = from_sighting cx ss r" for r
    by (simp add: from_sighting_def)
  note f = fold_admit_facts [of "admissionOrder ss" cx "foldl (\<lambda>st r. note_coverage r st) st (ad_accepted st)",
      OF _ assms(2,3), unfolded o, simplified, folded all_admitted_def]
  show "set (ad_accepted st) \<subseteq> set (ad_accepted (all_admitted cx st ss))"
    "set (ad_excluded st) \<subseteq> set (ad_excluded (all_admitted cx st ss))"
    "\<forall>r \<in> set (ad_accepted (all_admitted cx st ss)).
       r \<in> set (ad_accepted st) \<or> admitted cx r \<and> from_sighting cx ss r"
    "\<forall>s \<in> set ss. own_sighting (cx_list cx) s \<longrightarrow>
       (\<exists>r \<in> set (ad_accepted (all_admitted cx st ss)). answers_rule cx s r) \<or>
       (\<exists>e \<in> set (ad_excluded (all_admitted cx st ss)). answers_excluded cx s e)"
    using f assms(1) by blast+
qed

end
