(* ===== verification/PlanSet.thy ===== *)
theory PlanSet
  imports PlanLaws
begin

text \<open>
  The guarantees of the plan of several lists, \<open>BuildPlanSetWith\<close> of \<open>build_plan.go\<close>: only public
  destinations the target supports, each with evidence under its own list; every observation
  answered by a rule or an exclusion; a plan without an error covers every required component within
  the rule limit; and the order of lists and observations does not matter.
\<close>

section \<open>Admissible rules route public destinations\<close>

definition routes_publicly :: "route_rule \<Rightarrow> bool" where
  "routes_publicly r \<longleftrightarrow> (\<forall>a. rule_matches r (DAddr a) \<and> \<not> is4in6 a \<longrightarrow> RoutableDestination a)"

lemma admissible_public:
  assumes "rule_wf r" "admissibleValue r = None"
  shows "routes_publicly r"
proof -
  have ok: "routableValue r = None" using assms(2) by (simp add: admissibleValue_def split: option.splits)
  consider (d) "kind_is_domain (rr_kind r)" | (i) "kind_is_ip (rr_kind r)" | (x) "kind_is_prefix (rr_kind r)"
    using rule_wf_kind [OF assms(1)] by blast
  then show ?thesis
  proof cases
    case d
    then show ?thesis by (auto simp: routes_publicly_def kind_is_domain_def kind_is_ip_def kind_is_prefix_def)
  next
    case i
    then have "\<not> kind_is_prefix (rr_kind r)" by (auto simp: kind_is_ip_def)
    with i ok show ?thesis by (auto simp: routes_publicly_def routableValue_def split: if_splits)
  next
    case x
    then have n: "\<not> kind_is_ip (rr_kind r)" by (auto simp: kind_is_ip_def)
    with x ok have p: "RoutablePrefix (rr_prefix r)" by (auto simp: routableValue_def Let_def split: if_splits)
    have pl: "plain_prefix (rr_prefix r)" using rule_wf_prefix [OF assms(1) x] by blast
    from routable_prefix_iff [OF plain_prefix_wf [OF pl]] p
    obtain q where "unmap_prefix (rr_prefix r) = Ok q"
      "\<forall>a. prefix_contains q a \<and> \<not> is4in6 a \<longrightarrow> RoutableDestination a" by blast
    with unmap_prefix_plain_id [OF pl] n show ?thesis by (auto simp: routes_publicly_def)
  qed
qed

section \<open>One list\<close>

definition input_wf :: "list_input \<Rightarrow> bool" where
  "input_wf i \<longleftrightarrow> (\<forall>c \<in> set (ld_components (in_def i)). comp_id c = [] \<or> is_ok (validate_slug (comp_id c))) \<and>
     (\<forall>s \<in> set (in_sightings i). sighting_wf s)"

definition list_context :: "list_input \<Rightarrow> target_def \<Rightarrow> time \<Rightarrow> plan_options \<Rightarrow> admission_context" where
  "list_context i target cutoff options =
     \<lparr>cx_list = ld_id (in_def i), cx_components = component_map (ld_components (in_def i)),
      cx_off = ld_excluded_values (in_def i), cx_grace = grace_windows (in_degraded i) cutoff,
      cx_constraints = td_constraints target, cx_cutoff = cutoff, cx_options = options\<rparr>"

text \<open>The evidence for a destination: a seed of the list, or an admitted observation of it.\<close>

definition evident :: "list_input \<Rightarrow> admission_context \<Rightarrow> route_rule \<Rightarrow> bool" where
  "evident i cx x \<longleftrightarrow> from_seed (in_def i) (cx_components cx) x \<or>
     from_sighting cx (canonicalSightings (in_sightings i)) x"

definition routed_rule :: "list_input \<Rightarrow> admission_context \<Rightarrow> route_rule \<Rightarrow> bool" where
  "routed_rule i cx r \<longleftrightarrow> unlabelled r \<and> rr_list r = cx_list cx \<and>
     known_component (cx_components cx) (rr_component r) \<and> supportsRule (rr_kind r) (cx_constraints cx) \<and>
     routes_publicly r \<and>
     (\<forall>d. rule_matches r d \<longrightarrow> (\<exists>x. evident i cx x \<and> rr_list x = rr_list r \<and>
        rr_component x = rr_component r \<and> rule_matches x d))"

definition answered :: "admission_context \<Rightarrow> route_rule list \<Rightarrow> excluded list \<Rightarrow> sighting \<Rightarrow> bool" where
  "answered cx rules excl s \<longleftrightarrow>
     (\<exists>r \<in> set rules. \<exists>q. sightingRule s (cx_list cx) (cx_components cx) = Ok q \<and> represents r q) \<or>
     (\<exists>e \<in> set excl. answers_excluded cx s e)"

definition component_step :: "components \<Rightarrow> component_def \<Rightarrow> components" where
  "component_step m c = (if comp_id c \<noteq> [] then go_set (comp_id c) c m else m)"

lemma component_map_step: "component_map cs = foldl component_step [] cs"
  by (simp add: component_map_def component_step_def [abs_def])

lemma component_map_lookup:
  assumes "map_of (component_map cs) k = Some c"
  shows "c \<in> set cs \<and> comp_id c = k \<and> k \<noteq> []"
proof -
  have "map_of (foldl component_step [] xs) k = Some c \<longrightarrow> c \<in> set xs \<and> comp_id c = k \<and> k \<noteq> []" for xs
    by (induction xs rule: rev_induct) (auto simp: component_step_def go_set_def map_of_upsert)
  with assms show ?thesis by (simp add: component_map_step)
qed

lemma component_map_distinct: "distinct (map fst (component_map cs))"
  unfolding component_map_step
  by (induction cs rule: rev_induct) (auto simp: component_step_def go_set_def distinct_upsert)

lemma known_slug:
  "input_wf i \<Longrightarrow> known_component (component_map (ld_components (in_def i))) c \<Longrightarrow> is_ok (validate_slug c)"
  using component_map_lookup unfolding known_component_def input_wf_def by fastforce

lemma canonicalSightings_origin:
  assumes "s \<in> set (canonicalSightings ss)"
  shows "\<exists>x \<in> set ss. si_resource s = si_resource x \<and> si_list s = si_list x"
proof -
  from assms obtain k v where v: "(k, v) \<in> set (group_fold sighting_key (\<lambda>s. s) merge_sighting ss)"
    and s: "s = expose_fingerprint v"
    by (auto simp: canonicalSightings_def)
  have "\<exists>x \<in> set ss. si_resource v = si_resource x \<and> si_list v = si_list x"
    by (rule group_fold_invariant [OF v]) (auto simp: merge_sighting_def)
  then show ?thesis by (simp add: s expose_fingerprint_def)
qed

lemma canonicalSightings_wf: "input_wf i \<Longrightarrow> \<forall>s \<in> set (canonicalSightings (in_sightings i)). sighting_wf s"
  using canonicalSightings_origin unfolding input_wf_def sighting_wf_def by metis

text \<open>The family of a destination decides which target capability it needs.\<close>

lemma address_rule_family:
  assumes "rule_wf r" "is_address_rule r" "rule_matches r (DAddr a)"
  shows "rr_kind r = (if kind_is_ip (rr_kind r) then if is4 a then RuleIPv4 else RuleIPv6
    else if is4 a then RulePrefix4 else RulePrefix6)"
proof -
  have fam: "is4 (pfx_addr p) = is4 a" if "prefix_contains p a" for p
    using that by (cases a; cases "pfx_addr p") (auto simp: prefix_contains_def)
  have six: "is6 b \<Longrightarrow> \<not> is4 b" for b by (cases b) auto
  have "rule_valid r" using assms(1) by (simp add: rule_wf_def)
  with assms(2,3) fam [of "rr_prefix r"] six show ?thesis
    by (cases "rr_kind r") (auto simp: rule_valid_def is_address_rule_def kind_is_ip_def kind_is_prefix_def split: if_splits)
qed

lemma reduced_supported:
  assumes ip: "ip_set ipset" and ok: "\<forall>x \<in> set xs. unlabelled x \<and> supportsRule (rr_kind x) c"
    and r: "r \<in> set (reduceRules ipset (tc_prefixes c) xs)"
  shows "supportsRule (rr_kind r) c"
proof (cases "\<exists>x \<in> set xs. rr_kind x = rr_kind r")
  case True
  with ok show ?thesis by auto
next
  case False
  from ok have u: "\<forall>x \<in> set xs. unlabelled x" by blast
  note o = reduce_origin [OF ip u r]
  from o False have p: "tc_prefixes c" "is_address_rule r" "unlabelled r" by auto
  obtain d where d: "rule_matches r d" using rule_matches_something unlabelled_wf p(3) by blast
  then obtain a where a: "rule_matches r (DAddr a)"
    using p(2) by (cases d) (auto simp: is_address_rule_def kind_is_ip_def kind_is_prefix_def)
  with o p(2) obtain x where x: "x \<in> set xs" "is_address_rule x" "rule_matches x (DAddr a)" by blast
  have "supportsRule (rr_kind x) c" using ok x(1) by blast
  with address_rule_family [OF unlabelled_wf [OF p(3)] p(2) a]
    address_rule_family [OF unlabelled_wf x(2,3)] ok x(1) p(1) show ?thesis
    by (cases "is4 a"; cases "kind_is_ip (rr_kind r)"; cases "kind_is_ip (rr_kind x)") auto
qed

lemma reduced_public:
  assumes "ip_set ipset" "\<forall>x \<in> set xs. unlabelled x \<and> routes_publicly x" "r \<in> set (reduceRules ipset p xs)"
  shows "routes_publicly r"
  using reduce_origin [OF assms(1) _ assms(3)] assms(2) unfolding routes_publicly_def by metis

lemma canonical_rule_core: "unlabelled r \<Longrightarrow> same_core (canonical_rule r) r"
  by (simp add: same_core_def canonical_rule_def unlabelled_def StableStrings_sort_unique)

lemma routed_core:
  assumes "same_core r s" "routed_rule i cx s"
  shows "routed_rule i cx r"
proof -
  have "rr_kind r = rr_kind s" "rr_list r = rr_list s" "rr_component r = rr_component s"
    using assms(1) by (simp_all add: same_core_def)
  with assms(2) core_unlabelled [OF assms(1)] core_matches [OF assms(1)] show ?thesis
    unfolding routed_rule_def routes_publicly_def by metis
qed

text \<open>The admission \<open>buildPlan\<close> runs, and what its plan keeps of it.\<close>

definition list_admission :: "list_input \<Rightarrow> target_def \<Rightarrow> time \<Rightarrow> plan_options \<Rightarrow> admission" where
  "list_admission i target cutoff options =
     all_admitted (list_context i target cutoff options)
       (seeds_admitted (in_def i) (component_map (ld_components (in_def i))) (td_constraints target))
       (canonicalSightings (in_sightings i))"

lemma buildPlan_Ok:
  assumes "buildPlan ipset i target cutoff rel options = Ok plan"
  defines "st \<equiv> list_admission i target cutoff options"
  defines "lim \<equiv> limitRules (tc_max_rules (td_constraints target))
     (reduceRules ipset (tc_prefixes (td_constraints target)) (ad_accepted st)) (ad_excluded st)"
  shows "set (pl_rules plan) = canonical_rule ` set (fst lim)"
    "set (pl_excluded plan) = canonical_excluded ` set (snd lim)"
    "pl_coverage plan = buildCoverage (fst lim) (component_map (ld_components (in_def i))) (ld_id (in_def i))"
    "length (pl_rules plan) = length (fst lim)"
proof -
  have cov: "sort_key coverage_sort_key (buildCoverage rs cs l) = buildCoverage rs cs l" for rs cs l
  proof (rule sort_key_sorted_id)
    have "map coverage_sort_key (buildCoverage rs cs l) = map (\<lambda>c. (l, c)) (map fst (sort_key fst cs))"
      by (simp add: buildCoverage_def coverage_sort_key_def split_beta Let_def comp_def)
    moreover have "sorted (map (\<lambda>c. (l, c)) ks)" if "sorted ks" for ks :: "string list"
      using that by (induction ks) (auto simp: less_eq_prod_def)
    from this [of "map fst (sort_key fst cs)"] have "sorted (map (\<lambda>c. (l, c)) (map fst (sort_key fst cs)))" by simp
    ultimately show "sorted (map coverage_sort_key (buildCoverage rs cs l))" by metis
  qed
  obtain core where core: "plan = (CanonicalizePlan core)\<lparr>pl_hash := SemanticHash (CanonicalizePlan core) target\<rparr>"
    "pl_rules core = fst lim" "pl_excluded core = snd lim"
    "pl_coverage core = buildCoverage (fst lim) (component_map (ld_components (in_def i))) (ld_id (in_def i))"
    using assms(1) unfolding buildPlan_def Let_def lim_def st_def list_admission_def list_context_def
    by (auto simp: split_beta split: if_splits)
  then show "set (pl_rules plan) = canonical_rule ` set (fst lim)"
    "set (pl_excluded plan) = canonical_excluded ` set (snd lim)"
    "pl_coverage plan = buildCoverage (fst lim) (component_map (ld_components (in_def i))) (ld_id (in_def i))"
    "length (pl_rules plan) = length (fst lim)"
    by (simp_all add: CanonicalizePlan_def sortRules_def cov)
qed

lemma limit_subset: "set (fst (limitRules m rs es)) \<subseteq> set rs" "set es \<subseteq> set (snd (limitRules m rs es))"
  using set_take_subset [of "nat m" "sortRules rs"]
  by (auto simp: limitRules_def Let_def sortRules_def)

lemma list_admission_facts:
  fixes target :: target_def and cutoff :: time and options :: plan_options
  assumes wf: "input_wf i" and slug: "is_ok (validate_slug (ld_id (in_def i)))"
  defines "cx \<equiv> list_context i target cutoff options"
  defines "st \<equiv> list_admission i target cutoff options"
  shows "\<forall>x \<in> set (ad_accepted st). admitted cx x \<and> evident i cx x"
    "\<forall>s \<in> set (canonicalSightings (in_sightings i)). own_sighting (cx_list cx) s \<longrightarrow>
       (\<exists>r \<in> set (ad_accepted st). answers_rule cx s r) \<or> (\<exists>e \<in> set (ad_excluded st). answers_excluded cx s e)"
proof -
  let ?cs = "component_map (ld_components (in_def i))"
  have cx: "cx_list cx = ld_id (in_def i)" "cx_components cx = ?cs" "cx_constraints cx = td_constraints target"
    by (simp_all add: cx_def list_context_def)
  have known: "known_component ?cs c \<Longrightarrow> is_ok (validate_slug c)" for c using known_slug [OF wf] .
  note seeds = seeds_admitted_facts [OF slug known cx]
  note f = all_admitted_facts [of "canonicalSightings (in_sightings i)" cx
      "seeds_admitted (in_def i) ?cs (td_constraints target)", unfolded cx,
      OF canonicalSightings_wf [OF wf] slug known]
  have st: "st = all_admitted cx (seeds_admitted (in_def i) ?cs (td_constraints target))
      (canonicalSightings (in_sightings i))"
    by (simp add: st_def list_admission_def cx_def)
  show "\<forall>x \<in> set (ad_accepted st). admitted cx x \<and> evident i cx x"
    using seeds f(3) cx(2) unfolding st evident_def seed_facts_def by auto
  show "\<forall>s \<in> set (canonicalSightings (in_sightings i)). own_sighting (cx_list cx) s \<longrightarrow>
       (\<exists>r \<in> set (ad_accepted st). answers_rule cx s r) \<or> (\<exists>e \<in> set (ad_excluded st). answers_excluded cx s e)"
    using f(4) cx(1) unfolding st by simp
qed

lemma list_plan_routed:
  assumes "ip_set ipset" "input_wf i" "is_ok (validate_slug (ld_id (in_def i)))"
    "buildPlan ipset i target cutoff rel options = Ok plan" "r \<in> set (pl_rules plan)"
  shows "routed_rule i (list_context i target cutoff options) r"
proof -
  let ?cx = "list_context i target cutoff options"
  let ?xs = "ad_accepted (list_admission i target cutoff options)"
  have cx: "cx_constraints ?cx = td_constraints target" by (simp add: list_context_def)
  note adm = list_admission_facts(1) [OF assms(2,3), of target cutoff options]
  have u: "\<forall>x \<in> set ?xs. unlabelled x" using adm by (simp add: admitted_def)
  obtain q where q: "q \<in> set (reduceRules ipset (tc_prefixes (td_constraints target)) ?xs)"
    and r: "r = canonical_rule q"
    using buildPlan_Ok(1) [OF assms(4)] assms(5) limit_subset(1) by blast
  note o = reduce_origin [OF assms(1) u q]
  have sup: "supportsRule (rr_kind q) (td_constraints target)"
    by (rule reduced_supported [OF assms(1) _ q]) (use adm in \<open>simp add: admitted_def cx\<close>)
  have pub: "routes_publicly q"
    by (rule reduced_public [OF assms(1) _ q])
      (use adm in \<open>simp add: admitted_def admissible_public unlabelled_wf\<close>)
  have wf: "rule_wf q" using o unlabelled_wf by blast
  have src: "\<exists>x \<in> set ?xs. rr_list x = rr_list q \<and> rr_component x = rr_component q \<and> rule_matches x d"
    if "rule_matches q d" for d using o that by blast
  then have "\<exists>x \<in> set ?xs. rr_list x = rr_list q \<and> rr_component x = rr_component q"
    using rule_matches_something [OF wf] by blast
  then have "rr_list q = cx_list ?cx \<and> known_component (cx_components ?cx) (rr_component q)"
    using adm unfolding admitted_def by metis
  with o sup pub src adm have "routed_rule i ?cx q"
    unfolding routed_rule_def cx by metis
  with routed_core [OF canonical_rule_core] o r show ?thesis by metis
qed

lemma represents_canonical: "unlabelled q \<Longrightarrow> represents q x \<Longrightarrow> represents (canonical_rule q) x"
  using core_matches [OF canonical_rule_core] by (simp add: represents_def canonical_rule_def)

lemma answers_canonical: "answers_excluded cx s e \<Longrightarrow> answers_excluded cx s (canonical_excluded e)"
  by (auto simp: answers_excluded_def canonical_excluded_def provenance_def StableStrings_sort_unique sort_unique_strict)

lemma list_plan_answered:
  assumes "ip_set ipset" "input_wf i" "is_ok (validate_slug (ld_id (in_def i)))"
    "buildPlan ipset i target cutoff rel options = Ok plan" "tc_max_rules (td_constraints target) = 0"
    "s \<in> set (canonicalSightings (in_sightings i))" "own_sighting (ld_id (in_def i)) s"
  shows "answered (list_context i target cutoff options) (pl_rules plan) (pl_excluded plan) s"
proof -
  let ?cx = "list_context i target cutoff options"
  let ?st = "list_admission i target cutoff options"
  let ?red = "reduceRules ipset (tc_prefixes (td_constraints target)) (ad_accepted ?st)"
  have cl: "cx_list ?cx = ld_id (in_def i)" by (simp add: list_context_def)
  note adm = list_admission_facts [OF assms(2,3), of target cutoff options]
  have u: "\<forall>x \<in> set (ad_accepted ?st). unlabelled x" using adm(1) by (simp add: admitted_def)
  note b = buildPlan_Ok(1,2) [OF assms(4), unfolded assms(5) limitRules_def, simplified]
  from adm(2) assms(6,7) cl
  consider (rule) r where "r \<in> set (ad_accepted ?st)" "answers_rule ?cx s r"
    | (out) e where "e \<in> set (ad_excluded ?st)" "answers_excluded ?cx s e" by auto
  then show ?thesis
  proof cases
    case rule
    then obtain q where q: "sightingRule s (cx_list ?cx) (cx_components ?cx) = Ok q" "same_core r q"
      "set (rr_reasons q) \<subseteq> set (rr_reasons r)" "rr_refs r = rr_refs q"
      by (auto simp: answers_rule_def)
    then have rq: "represents r q"
      using core_matches [OF q(2)] by (simp add: represents_def same_core_def)
    obtain z where z: "z \<in> set ?red" "represents z r" using reduce_represents [OF assms(1) u rule(1)] by blast
    have "unlabelled z" using reduce_origin [OF assms(1) u z(1)] by blast
    then have "represents (canonical_rule z) q"
      using represents_canonical represents_trans [OF z(2) rq] by blast
    with z(1) q(1) b(1) show ?thesis unfolding answered_def by blast
  next
    case out
    with answers_canonical [OF out(2)] b(2) show ?thesis unfolding answered_def by blast
  qed
qed

section \<open>Several lists\<close>

lemma check_identities_slugs:
  "check_identities prev ds = None \<Longrightarrow> \<forall>d \<in> set ds. is_ok (validate_slug (ld_id d))"
  by (induction ds arbitrary: prev) (auto split: if_splits option.splits)

definition unbounded :: "target_def \<Rightarrow> target_def" where
  "unbounded t = t\<lparr>td_constraints := (td_constraints t)\<lparr>tc_max_rules := 0\<rparr>\<rparr>"

lemma unbounded_sel [simp]: "tc_max_rules (td_constraints (unbounded t)) = 0"
  by (simp add: unbounded_def)

lemma supports_unbounded [simp]: "supportsRule k (td_constraints (unbounded t)) = supportsRule k (td_constraints t)"
  by (cases k) (simp_all add: unbounded_def)

lemma build_lists_Ok:
  assumes "build_lists build is c = Ok c'"
  shows "(\<forall>i \<in> set is. \<exists>p. build i = Ok p) \<and>
    set (pl_rules c') = set (pl_rules c) \<union> (\<Union>i \<in> set is. \<Union>p \<in> {p. build i = Ok p}. set (pl_rules p)) \<and>
    set (pl_excluded c') = set (pl_excluded c) \<union> (\<Union>i \<in> set is. \<Union>p \<in> {p. build i = Ok p}. set (pl_excluded p)) \<and>
    set (pl_coverage c') = set (pl_coverage c) \<union> (\<Union>i \<in> set is. \<Union>p \<in> {p. build i = Ok p}. set (pl_coverage p))"
  using assms
proof (induction "is" arbitrary: c)
  case (Cons i "is")
  then obtain p where p: "build i = Ok p" by (cases "build i") auto
  with Cons.IH [of "combine_plans c (ld_id (in_def i)) p"] Cons.prems show ?case
    by (auto simp: combine_plans_def)
qed simp

text \<open>
  The plan of one list of the set, and the plan of the set as the union of those; the semantic hash
  and the presentation aside.
\<close>

definition list_plan ::
  "(prefix list \<Rightarrow> prefix list) \<Rightarrow> list_input \<Rightarrow> target_def \<Rightarrow> time \<Rightarrow> plan_options \<Rightarrow> routing_plan \<Rightarrow> bool" where
  "list_plan ipset i target cutoff options p \<longleftrightarrow> buildPlan ipset i (unbounded target) cutoff True options = Ok p"

lemma plan_set_union:
  assumes "BuildPlanSetWith ipset inputs target cutoff options = (Some plan, err)"
  shows "(\<forall>i \<in> set inputs. is_ok (validate_slug (ld_id (in_def i))) \<and> (\<exists>p. list_plan ipset i target cutoff options p))"
    "set (pl_rules plan) = (\<Union>i \<in> set inputs. \<Union>p \<in> {p. list_plan ipset i target cutoff options p}. set (pl_rules p))"
    "set (pl_excluded plan) = (\<Union>i \<in> set inputs. \<Union>p \<in> {p. list_plan ipset i target cutoff options p}. set (pl_excluded p))"
    "set (pl_coverage plan) = (\<Union>i \<in> set inputs. \<Union>p \<in> {p. list_plan ipset i target cutoff options p}. set (pl_coverage p))"
    "err = None \<longleftrightarrow> requiredCoverageError (pl_coverage plan) = None \<and>
       (0 < tc_max_rules (td_constraints target) \<longrightarrow>
          int (length (pl_rules plan)) \<le> tc_max_rules (td_constraints target))"
proof -
  let ?ordered = "sort_key (ld_id \<circ> in_def) inputs"
  let ?b = "\<lambda>i. buildPlan ipset i (unbounded target) cutoff True options"
  define start where "start = \<lparr>pl_interface = RoutingPlanInterfaceVersion, pl_target = td_id target,
     pl_format = td_format target, pl_lists = [], pl_rules = [], pl_excluded = [],
     pl_warnings = [], pl_coverage = [], pl_relations = [], pl_sightings = [],
     pl_policy = PolicyVersion, pl_revision = ld_catalog_revision (in_def (hd ?ordered)),
     pl_cutoff = cutoff, pl_hash = []\<rparr>"
  have start: "pl_rules start = []" "pl_excluded start = []" "pl_coverage start = []"
    by (simp_all add: start_def)
  have ident: "check_identities None (map in_def ?ordered) = None"
    using assms
    by (cases "check_identities None (map in_def ?ordered)") (auto simp: BuildPlanSetWith_def Let_def split: if_splits)
  obtain c where c: "build_lists ?b ?ordered start = Ok c"
    using assms ident unfolding start_def
    by (cases "build_lists ?b ?ordered start")
      (auto simp: BuildPlanSetWith_def Let_def unbounded_def start_def split: if_splits)
  have res: "(Some plan, err) =
     (let combined = CanonicalizePlan c; plan = combined\<lparr>pl_hash := SemanticHash combined target\<rparr>
      in case requiredCoverageError (pl_coverage plan) of
           Some e \<Rightarrow> (Some plan, Some e)
         | None \<Rightarrow>
             let maximum = tc_max_rules (td_constraints target) in
             if 0 < maximum \<and> maximum < int (length (pl_rules plan))
             then (Some (plan\<lparr>pl_warnings := StableStrings (pl_warnings plan @ [''partial_coverage:rule_limit''])\<rparr>),
                   Some (ErrRuleLimitExceeded (length (pl_rules plan)) maximum))
             else (Some plan, None))"
    using assms ident c unfolding start_def
    by (simp add: BuildPlanSetWith_def Let_def unbounded_def start_def split: if_splits)
  have plan: "pl_rules plan = pl_rules (CanonicalizePlan c)" "pl_excluded plan = pl_excluded (CanonicalizePlan c)"
      "pl_coverage plan = pl_coverage (CanonicalizePlan c)"
    and fin: "err = None \<longleftrightarrow> requiredCoverageError (pl_coverage plan) = None \<and>
       (0 < tc_max_rules (td_constraints target) \<longrightarrow>
          int (length (pl_rules plan)) \<le> tc_max_rules (td_constraints target))"
    using res by (auto simp: Let_def split: option.splits if_splits)
  note u = build_lists_Ok [OF c]
  have idr: "canonical_rule r = r" if "?b i = Ok p" "r \<in> set (pl_rules p)" for i p r
    using that buildPlan_Ok(1) by fastforce
  have ide: "canonical_excluded e = e" if "?b i = Ok p" "e \<in> set (pl_excluded p)" for i p e
    using that buildPlan_Ok(2) by fastforce
  show "\<forall>i \<in> set inputs. is_ok (validate_slug (ld_id (in_def i))) \<and> (\<exists>p. list_plan ipset i target cutoff options p)"
    using check_identities_slugs [OF ident] u by (auto simp: list_plan_def)
  have "set (pl_rules plan) = canonical_rule ` set (pl_rules c)"
    by (simp add: plan CanonicalizePlan_def sortRules_def)
  also have "\<dots> = (\<lambda>r. r) ` set (pl_rules c)"
    by (rule image_cong) (use u idr start in auto)
  also have "\<dots> = set (pl_rules c)" by simp
  finally show "set (pl_rules plan) = (\<Union>i \<in> set inputs. \<Union>p \<in> {p. list_plan ipset i target cutoff options p}. set (pl_rules p))"
    using u start by (simp add: list_plan_def)
  have "set (pl_excluded plan) = canonical_excluded ` set (pl_excluded c)"
    by (simp add: plan CanonicalizePlan_def)
  also have "\<dots> = (\<lambda>e. e) ` set (pl_excluded c)"
    by (rule image_cong) (use u ide start in auto)
  also have "\<dots> = set (pl_excluded c)" by simp
  finally show "set (pl_excluded plan) = (\<Union>i \<in> set inputs. \<Union>p \<in> {p. list_plan ipset i target cutoff options p}. set (pl_excluded p))"
    using u start by (simp add: list_plan_def)
  show "set (pl_coverage plan) = (\<Union>i \<in> set inputs. \<Union>p \<in> {p. list_plan ipset i target cutoff options p}. set (pl_coverage p))"
    using u start by (simp add: plan CanonicalizePlan_def list_plan_def)
  show "err = None \<longleftrightarrow> requiredCoverageError (pl_coverage plan) = None \<and>
       (0 < tc_max_rules (td_constraints target) \<longrightarrow>
          int (length (pl_rules plan)) \<le> tc_max_rules (td_constraints target))"
    by (rule fin)
qed


text \<open>
  C2. No destination without evidence. Whatever a returned plan routes for a list and a component, a
  seed of that list or an observation of it routes: one that is fresh at the cutoff or stale inside
  an open grace window of its source, that the operator has not excluded, and that declares its
  network if it is a network.
\<close>

theorem plan_routes_evident:
  assumes "ip_set ipset" "\<forall>i \<in> set inputs. input_wf i"
    "BuildPlanSetWith ipset inputs target cutoff options = (Some plan, err)"
    "r \<in> set (pl_rules plan)" "rule_matches r d"
  shows "\<exists>i \<in> set inputs. \<exists>x. evident i (list_context i target cutoff options) x \<and>
    rr_list r = ld_id (in_def i) \<and> rr_list x = rr_list r \<and> rr_component x = rr_component r \<and> rule_matches x d"
proof -
  obtain i p where i: "i \<in> set inputs" "list_plan ipset i target cutoff options p" "r \<in> set (pl_rules p)"
    using plan_set_union(2) [OF assms(3)] assms(4) by auto
  have e: "evident i (list_context i (unbounded target) cutoff options) x =
      evident i (list_context i target cutoff options) x" for x
    by (simp add: evident_def from_sighting_def list_context_def)
  have "routed_rule i (list_context i (unbounded target) cutoff options) r"
    using i list_plan_routed assms(1,2) plan_set_union(1) [OF assms(3)] unfolding list_plan_def by blast
  then have "\<exists>x. evident i (list_context i target cutoff options) x \<and> rr_list x = rr_list r \<and>
      rr_component x = rr_component r \<and> rule_matches x d"
    and "rr_list r = cx_list (list_context i (unbounded target) cutoff options)"
    using assms(5) unfolding routed_rule_def e by blast+
  then have "\<exists>x. evident i (list_context i target cutoff options) x \<and> rr_list x = rr_list r \<and>
      rr_component x = rr_component r \<and> rule_matches x d" "rr_list r = ld_id (in_def i)"
    by (blast, simp add: list_context_def)
  with i(1) show ?thesis by blast
qed

text \<open>
  C3. Nothing offered disappears silently. Every observation a list of the set may use is answered
  in the returned plan: a rule routes all it denotes under that list and carries its reasons and its
  source, or an exclusion names the candidate, a reason and the source.
\<close>

theorem plan_answers_observations:
  assumes "ip_set ipset" "\<forall>i \<in> set inputs. input_wf i"
    "BuildPlanSetWith ipset inputs target cutoff options = (Some plan, err)"
    "i \<in> set inputs" "s \<in> set (canonicalSightings (in_sightings i))" "own_sighting (ld_id (in_def i)) s"
  shows "answered (list_context i target cutoff options) (pl_rules plan) (pl_excluded plan) s"
proof -
  obtain p where p: "list_plan ipset i target cutoff options p" "is_ok (validate_slug (ld_id (in_def i)))"
    using plan_set_union(1) [OF assms(3)] assms(4) by blast
  have "answered (list_context i (unbounded target) cutoff options) (pl_rules p) (pl_excluded p) s"
    using list_plan_answered [OF assms(1) _ p(2) p(1) [unfolded list_plan_def] _ assms(5,6)] assms(2,4) by simp
  moreover have "set (pl_rules p) \<subseteq> set (pl_rules plan)" "set (pl_excluded p) \<subseteq> set (pl_excluded plan)"
    using plan_set_union(2,3) [OF assms(3)] assms(4) p(1) by blast+
  ultimately show ?thesis
    by (auto simp: answered_def answers_excluded_def list_context_def)
qed

lemma complete_component:
  assumes "list_plan ipset i target cutoff options p"
    "map_of (component_map (ld_components (in_def i))) k = Some c" "comp_required c"
    "\<forall>v \<in> set (pl_coverage p). cov_complete v"
  shows "\<exists>r \<in> set (pl_rules p). rr_list r = ld_id (in_def i) \<and> rr_component r = k"
proof -
  note b = buildPlan_Ok [OF assms(1) [unfolded list_plan_def]]
  define rs where "rs = fst (limitRules (tc_max_rules (td_constraints (unbounded target)))
     (reduceRules ipset (tc_prefixes (td_constraints (unbounded target)))
       (ad_accepted (list_admission i (unbounded target) cutoff options)))
     (ad_excluded (list_admission i (unbounded target) cutoff options)))"
  let ?n = "length (filter (\<lambda>r. rr_list r = ld_id (in_def i) \<and> rr_component r = k) rs)"
  have "(k, c) \<in> set (component_map (ld_components (in_def i)))" using assms(2) by (rule map_of_SomeD)
  then have "\<lparr>cov_list = ld_id (in_def i), cov_component = k, cov_complete = (0 < ?n \<or> \<not> comp_required c), cov_count = ?n\<rparr>
      \<in> set (pl_coverage p)"
    unfolding b(3) rs_def by (auto simp: buildCoverage_def Let_def intro!: image_eqI [of _ _ "(k, c)"])
  with assms(3,4) have "0 < ?n" by force
  then obtain r where "r \<in> set rs" "rr_list r = ld_id (in_def i)" "rr_component r = k"
    by (auto simp: filter_empty_conv)
  moreover then have "canonical_rule r \<in> set (pl_rules p)" unfolding b(1) rs_def by blast
  ultimately show ?thesis by (intro bexI [of _ "canonical_rule r"]) (simp_all add: canonical_rule_def)
qed

text \<open>
  C4. A plan returned without an error is complete: every component a list of the set declares
  required has a rule of that list, and the number of rules is within the target's limit.
\<close>

theorem plan_success_complete:
  assumes "BuildPlanSetWith ipset inputs target cutoff options = (Some plan, None)"
  shows "(\<forall>i \<in> set inputs. \<forall>k c. map_of (component_map (ld_components (in_def i))) k = Some c \<and> comp_required c \<longrightarrow>
       (\<exists>r \<in> set (pl_rules plan). rr_list r = ld_id (in_def i) \<and> rr_component r = k)) \<and>
    (0 < tc_max_rules (td_constraints target) \<longrightarrow>
       int (length (pl_rules plan)) \<le> tc_max_rules (td_constraints target))"
proof (intro conjI ballI allI impI)
  fix i k c assume i: "i \<in> set inputs"
    and c: "map_of (component_map (ld_components (in_def i))) k = Some c \<and> comp_required c"
  obtain p where p: "list_plan ipset i target cutoff options p"
    using plan_set_union(1) [OF assms] i by blast
  have "\<forall>v \<in> set (pl_coverage plan). cov_complete v"
    using plan_set_union(5) [OF assms] by (auto simp: requiredCoverageError_def Let_def filter_empty_conv split: if_splits)
  then have "\<forall>v \<in> set (pl_coverage p). cov_complete v"
    using plan_set_union(4) [OF assms] i p by blast
  from complete_component [OF p _ _ this] c obtain r where
    "r \<in> set (pl_rules p)" "rr_list r = ld_id (in_def i)" "rr_component r = k" by blast
  with plan_set_union(2) [OF assms] i p
  show "\<exists>r \<in> set (pl_rules plan). rr_list r = ld_id (in_def i) \<and> rr_component r = k" by blast
next
  assume "0 < tc_max_rules (td_constraints target)"
  with plan_set_union(5) [OF assms]
  show "int (length (pl_rules plan)) \<le> tc_max_rules (td_constraints target)" by simp
qed

section \<open>Errors\<close>

lemma buildPlan_total:
  "(\<exists>p. buildPlan ipset i target cutoff rel options = Ok p) \<longleftrightarrow>
     ld_id (in_def i) \<noteq> [] \<and> td_id target \<noteq> [] \<and> cutoff \<noteq> 0 \<and> component_map (ld_components (in_def i)) \<noteq> []"
  by (simp add: buildPlan_def Let_def split_beta)

lemma build_lists_total:
  "(\<exists>c'. build_lists build is c = Ok c') \<longleftrightarrow> (\<forall>i \<in> set is. \<exists>p. build i = Ok p)"
  by (induction "is" arbitrary: c) (auto split: sum.splits)

lemma component_map_empty: "component_map cs = [] \<longleftrightarrow> (\<forall>c \<in> set cs. comp_id c = [])"
proof -
  have ne: "go_set k v m \<noteq> []" for k :: string and v :: component_def and m
    by (cases m) (auto simp: go_set_def split: if_splits)
  show ?thesis
    unfolding component_map_step
    by (induction cs rule: rev_induct) (auto simp: component_step_def ne)
qed

lemma slug_nonempty: "is_ok (validate_slug v) \<Longrightarrow> v \<noteq> []"
  by (auto simp: validate_slug_def)

lemma check_identities_None:
  assumes "\<forall>d \<in> set ds. is_ok (validate_slug (ld_id d)) \<and> ld_catalog_revision d = v"
    "distinct (map ld_id ds)" "\<forall>p. prev = Some p \<longrightarrow> ld_id p \<notin> ld_id ` set ds \<and> ld_catalog_revision p = v"
  shows "check_identities prev ds = None"
  using assms
proof (induction ds arbitrary: prev)
  case (Cons d ds)
  then show ?case by (cases prev) (auto simp: image_iff)
qed simp

lemma check_identities_same:
  "check_identities (Some p) ds = None \<Longrightarrow> \<forall>d \<in> set ds. ld_catalog_revision d = ld_catalog_revision p"
  by (induction ds arbitrary: p) (auto split: if_splits)

lemma check_identities_strict:
  "check_identities (Some p) ds = None \<Longrightarrow> sorted (map ld_id (p # ds)) \<Longrightarrow> sorted_wrt (<) (map ld_id (p # ds))"
proof (induction ds arbitrary: p)
  case (Cons d ds)
  then have "ld_id p < ld_id d" "sorted_wrt (<) (map ld_id (d # ds))"
    by (auto split: if_splits)
  then show ?case by (auto intro: less_trans)
qed simp

lemma check_identities_iff:
  assumes "sorted (map ld_id ds)"
  shows "check_identities None ds = None \<longleftrightarrow> (\<forall>d \<in> set ds. is_ok (validate_slug (ld_id d))) \<and>
    distinct (map ld_id ds) \<and> (\<forall>d \<in> set ds. \<forall>e \<in> set ds. ld_catalog_revision d = ld_catalog_revision e)"
proof (cases ds)
  case (Cons d es)
  show ?thesis
  proof
    assume c: "check_identities None ds = None"
    then have s: "check_identities (Some d) es = None" by (simp add: Cons split: if_splits)
    then have "sorted_wrt (<) (map ld_id ds)"
      using check_identities_strict [OF s] assms Cons by simp
    then have "distinct (map ld_id ds)" using strict_sorted_iff by blast
    with check_identities_slugs [OF c] check_identities_same [OF s] Cons
    show "(\<forall>d \<in> set ds. is_ok (validate_slug (ld_id d))) \<and>
      distinct (map ld_id ds) \<and> (\<forall>d \<in> set ds. \<forall>e \<in> set ds. ld_catalog_revision d = ld_catalog_revision e)"
      by auto
  next
    assume a: "(\<forall>d \<in> set ds. is_ok (validate_slug (ld_id d))) \<and>
      distinct (map ld_id ds) \<and> (\<forall>d \<in> set ds. \<forall>e \<in> set ds. ld_catalog_revision d = ld_catalog_revision e)"
    then have "\<forall>e \<in> set ds. is_ok (validate_slug (ld_id e)) \<and> ld_catalog_revision e = ld_catalog_revision d"
      unfolding Cons by (metis list.set_intros(1))
    with a show "check_identities None ds = None"
      by (intro check_identities_None [of ds "ld_catalog_revision d"]) simp_all
  qed
qed simp

lemma set_builder_exists:
  "(fst (BuildPlanSetWith ipset inputs target cutoff options) \<noteq> None \<longleftrightarrow>
     inputs \<noteq> [] \<and> (\<forall>i \<in> set inputs. is_ok (validate_slug (ld_id (in_def i)))) \<and>
     distinct (map (ld_id \<circ> in_def) inputs) \<and>
     (\<forall>i \<in> set inputs. \<forall>j \<in> set inputs. ld_catalog_revision (in_def i) = ld_catalog_revision (in_def j)) \<and>
     td_id target \<noteq> [] \<and> cutoff \<noteq> 0 \<and>
     (\<forall>i \<in> set inputs. \<exists>c \<in> set (ld_components (in_def i)). comp_id c \<noteq> [])) \<and>
   (fst (BuildPlanSetWith ipset inputs target cutoff options) = None \<longrightarrow>
     snd (BuildPlanSetWith ipset inputs target cutoff options) \<noteq> None)"
proof -
  let ?ordered = "sort_key (ld_id \<circ> in_def) inputs"
  let ?B = "BuildPlanSetWith ipset inputs target cutoff options"
  have ident: "check_identities None (map in_def ?ordered) = None \<longleftrightarrow>
      (\<forall>i \<in> set inputs. is_ok (validate_slug (ld_id (in_def i)))) \<and> distinct (map (ld_id \<circ> in_def) inputs) \<and>
      (\<forall>i \<in> set inputs. \<forall>j \<in> set inputs. ld_catalog_revision (in_def i) = ld_catalog_revision (in_def j))"
  proof -
    have "sorted (map ld_id (map in_def ?ordered))" using sorted_sort_key [of "ld_id \<circ> in_def" inputs] by simp
    moreover have "mset (map (ld_id \<circ> in_def) ?ordered) = mset (map (ld_id \<circ> in_def) inputs)"
      by (simp add: mset_map)
    then have "distinct (map (ld_id \<circ> in_def) ?ordered) = distinct (map (ld_id \<circ> in_def) inputs)"
      by (rule mset_eq_imp_distinct_iff)
    ultimately show ?thesis
      using check_identities_iff [of "map in_def ?ordered"] by simp
  qed
  have built: "(\<exists>c. build_lists (\<lambda>i. buildPlan ipset i (unbounded target) cutoff True options) ?ordered start = Ok c) \<longleftrightarrow>
      (\<forall>i \<in> set inputs. ld_id (in_def i) \<noteq> [] \<and> td_id target \<noteq> [] \<and> cutoff \<noteq> 0 \<and>
         (\<exists>c \<in> set (ld_components (in_def i)). comp_id c \<noteq> []))" for start
    by (simp add: build_lists_total buildPlan_total component_map_empty unbounded_def)
  have "fst ?B \<noteq> None \<longleftrightarrow> inputs \<noteq> [] \<and> check_identities None (map in_def ?ordered) = None \<and>
      (\<forall>i \<in> set inputs. ld_id (in_def i) \<noteq> [] \<and> td_id target \<noteq> [] \<and> cutoff \<noteq> 0 \<and>
         (\<exists>c \<in> set (ld_components (in_def i)). comp_id c \<noteq> []))"
  proof (cases "inputs \<noteq> [] \<and> check_identities None (map in_def ?ordered) = None")
    case False
    then show ?thesis
      by (cases "check_identities None (map in_def ?ordered)") (auto simp: BuildPlanSetWith_def Let_def)
  next
    case True
    obtain start where start: "?B = (case build_lists (\<lambda>i. buildPlan ipset i (unbounded target) cutoff True options)
         ?ordered start of
       Inl e \<Rightarrow> (None, Some e)
     | Inr c \<Rightarrow>
         let combined = CanonicalizePlan c; plan = combined\<lparr>pl_hash := SemanticHash combined target\<rparr>
         in case requiredCoverageError (pl_coverage plan) of
              Some e \<Rightarrow> (Some plan, Some e)
            | None \<Rightarrow>
                let maximum = tc_max_rules (td_constraints target) in
                if 0 < maximum \<and> maximum < int (length (pl_rules plan))
                then (Some (plan\<lparr>pl_warnings := StableStrings (pl_warnings plan @ [''partial_coverage:rule_limit''])\<rparr>),
                      Some (ErrRuleLimitExceeded (length (pl_rules plan)) maximum))
                else (Some plan, None))"
      using True unfolding BuildPlanSetWith_def Let_def unbounded_def by simp
    show ?thesis
    proof (cases "build_lists (\<lambda>i. buildPlan ipset i (unbounded target) cutoff True options) ?ordered start")
      case (Inl e)
      with built [of start] True show ?thesis unfolding start by simp
    next
      case (Inr c)
      then have "fst ?B \<noteq> None" unfolding start by (simp add: Let_def split: option.splits)
      with Inr built [of start] True show ?thesis by simp
    qed
  qed
  moreover have "fst ?B = None \<longrightarrow> snd ?B \<noteq> None"
    unfolding BuildPlanSetWith_def Let_def by (auto split: option.splits sum.splits)
  ultimately show ?thesis
    unfolding ident using slug_nonempty by (cases inputs) auto
qed

text \<open>
  C5. When the builder refuses. \<open>BuildPlanSetWith\<close> returns a plan, with an error or without, if and
  only if there is a list, the list identities are distinct valid slugs of one catalog revision, the
  target is named, the cutoff is set and every list declares a named component; in every other case it
  returns an error and no plan.
\<close>

theorem plan_exists_iff:
  "(fst (BuildPlanSetWith ipset inputs target cutoff options) \<noteq> None \<longleftrightarrow>
     inputs \<noteq> [] \<and> (\<forall>i \<in> set inputs. is_ok (validate_slug (ld_id (in_def i)))) \<and>
     distinct (map (ld_id \<circ> in_def) inputs) \<and>
     (\<forall>i \<in> set inputs. \<forall>j \<in> set inputs. ld_catalog_revision (in_def i) = ld_catalog_revision (in_def j)) \<and>
     td_id target \<noteq> [] \<and> cutoff \<noteq> 0 \<and>
     (\<forall>i \<in> set inputs. \<exists>c \<in> set (ld_components (in_def i)). comp_id c \<noteq> [])) \<and>
   (fst (BuildPlanSetWith ipset inputs target cutoff options) = None \<longrightarrow>
     snd (BuildPlanSetWith ipset inputs target cutoff options) \<noteq> None)"
  by (rule set_builder_exists)

section \<open>The order of the input\<close>

text \<open>Two readings of one list: the same set of observations, read in any order and repeated.\<close>

definition same_input :: "list_input \<Rightarrow> list_input \<Rightarrow> bool" where
  "same_input i j \<longleftrightarrow> in_def i = in_def j \<and> in_relations i = in_relations j \<and> in_degraded i = in_degraded j \<and>
     set (in_sightings i) = set (in_sightings j) \<and>
     (\<forall>s \<in> set (in_sightings i). \<forall>t \<in> set (in_sightings i). sighting_key s = sighting_key t \<longrightarrow> sightings_agree s t)"

lemma same_input_build:
  assumes "same_input i j"
  shows "buildPlan ipset i = buildPlan ipset j"
proof -
  have e: "in_def i = in_def j" "in_relations i = in_relations j" "in_degraded i = in_degraded j"
    "canonicalSightings (in_sightings i) = canonicalSightings (in_sightings j)"
    using assms canonicalSightings_set [of "in_sightings i" "in_sightings j"] by (simp_all add: same_input_def)
  show ?thesis by (intro ext) (simp only: buildPlan_def e)
qed

lemma list_all2_sort_key:
  assumes "list_all2 R xs ys" "\<And>x y. R x y \<Longrightarrow> f x = f y"
  shows "list_all2 R (sort_key f xs) (sort_key f ys)"
proof -
  have ins: "list_all2 R (insort_key f x xs) (insort_key f y ys)" if xy: "R x y" and "list_all2 R xs ys" for x y xs ys
    using that(2)
  proof (induction rule: list_all2_induct)
    case (Cons u us v vs)
    then show ?case using xy assms(2) [OF xy] assms(2) [OF Cons.hyps(1)] by simp
  qed (simp add: xy)
  from assms(1) show ?thesis
    by (induction rule: list_all2_induct) (simp_all add: ins)
qed

lemma same_inputs_build:
  assumes "list_all2 same_input is js"
  shows "build_lists (\<lambda>i. buildPlan ipset i t cutoff b options) is c =
    build_lists (\<lambda>i. buildPlan ipset i t cutoff b options) js c"
  using assms
proof (induction arbitrary: c rule: list_all2_induct)
  case (Cons i "is" j js)
  have "in_def i = in_def j" using Cons.hyps(1) by (simp add: same_input_def)
  with Cons same_input_build [OF Cons.hyps(1)] show ?case by (simp split: sum.splits)
qed simp

lemma set_builder_reads:
  assumes "list_all2 same_input is js"
  shows "BuildPlanSetWith ipset is target cutoff options = BuildPlanSetWith ipset js target cutoff options"
proof -
  let ?s = "sort_key (ld_id \<circ> in_def)"
  have o: "list_all2 same_input (?s is) (?s js)"
    using assms by (rule list_all2_sort_key) (simp add: same_input_def)
  then have d: "map in_def (?s is) = map in_def (?s js)"
    by (induction rule: list_all2_induct) (simp_all add: same_input_def)
  have h: "in_def (hd (?s is)) = in_def (hd (?s js))" if "is \<noteq> []"
    using that d by (metis hd_map map_is_Nil_conv set_empty set_sort)
  have n: "is = [] \<longleftrightarrow> js = []" using assms by (auto simp: list_all2_iff)
  show ?thesis
  proof (cases "is = []")
    case True
    with n show ?thesis by simp
  next
    case False
    from n False have "(is = []) = (js = [])" by simp
    from this d h [OF False] same_inputs_build [OF o] show ?thesis
      unfolding BuildPlanSetWith_def Let_def by (simp only:)
  qed
qed

lemma set_builder_perm:
  assumes "mset is = mset js" "distinct (map (ld_id \<circ> in_def) is)"
  shows "BuildPlanSetWith ipset is target cutoff options = BuildPlanSetWith ipset js target cutoff options"
proof -
  have "inj_on (ld_id \<circ> in_def) (set is)" using assms(2) by (simp add: distinct_map)
  with assms(1) have "sort_key (ld_id \<circ> in_def) is = sort_key (ld_id \<circ> in_def) js" by (rule sort_key_perm)
  moreover have "is = [] \<longleftrightarrow> js = []" using assms(1) by auto
  ultimately show ?thesis unfolding BuildPlanSetWith_def Let_def by (simp only:)
qed


section \<open>The limit of one list\<close>

text \<open>
  C8. Truncation. With a positive limit the plan of one list has at most that many rules; every
  reduced rule is either in the plan or recorded as quarantined with the limit as its reason and its
  provenance kept, and no quarantined rule precedes a kept one in the canonical order.
\<close>

theorem limit_accounts:
  assumes "buildPlan ipset i target cutoff rel options = Ok plan" "0 < tc_max_rules (td_constraints target)"
    "r \<in> set (reduceRules ipset (tc_prefixes (td_constraints target))
        (ad_accepted (list_admission i target cutoff options)))"
  shows "int (length (pl_rules plan)) \<le> tc_max_rules (td_constraints target) \<and>
    (canonical_rule r \<in> set (pl_rules plan) \<or>
     (canonical_excluded (limit_excluded r) \<in> set (pl_excluded plan) \<and>
      (\<forall>k \<in> set (pl_rules plan). rule_sort_key k \<le> rule_sort_key r)))"
proof -
  let ?m = "tc_max_rules (td_constraints target)"
  let ?rs = "reduceRules ipset (tc_prefixes (td_constraints target))
      (ad_accepted (list_admission i target cutoff options))"
  let ?o = "sortRules ?rs"
  note b = buildPlan_Ok [OF assms(1)]
  show ?thesis
  proof (cases "?m < int (length ?rs)")
    case False
    with assms b show ?thesis by (auto simp: limitRules_def)
  next
    case True
    then have lim: "limitRules ?m ?rs es = (take (nat ?m) ?o, es @ map limit_excluded (drop (nat ?m) ?o))" for es
      using assms(2) by (simp add: limitRules_def Let_def)
    have len: "int (length (pl_rules plan)) \<le> ?m" using b(4) lim assms(2) by simp
    have sorted: "sorted (map rule_sort_key ?o)" by (simp add: sortRules_def)
    have ck: "rule_sort_key (canonical_rule k) = rule_sort_key k" for k
      by (simp add: rule_sort_key_def canonical_rule_def)
    have "r \<in> set ?o" using assms(3) by (simp add: sortRules_def)
    then have "r \<in> set (take (nat ?m) ?o) \<or> r \<in> set (drop (nat ?m) ?o)"
      by (metis UnE append_take_drop_id set_append)
    then show ?thesis
    proof
      assume "r \<in> set (take (nat ?m) ?o)"
      with b(1) lim len show ?thesis by simp
    next
      assume d: "r \<in> set (drop (nat ?m) ?o)"
      have "rule_sort_key k \<le> rule_sort_key r" if "k \<in> set (take (nat ?m) ?o)" for k
      proof -
        have "sorted (map rule_sort_key (take (nat ?m) ?o @ drop (nat ?m) ?o))" using sorted by simp
        then show ?thesis using that d unfolding map_append sorted_append by simp
      qed
      with b(1,2) lim len d ck show ?thesis by simp
    qed
  qed
qed

section \<open>Instances\<close>

definition sample_list :: list_def where
  "sample_list = \<lparr>ld_id = ''a'', ld_title = [], ld_components = [\<lparr>comp_id = ''core'', comp_required = True\<rparr>],
     ld_seeds = [], ld_dns_names = [], ld_sources = [], ld_catalog_revision = ''v'', ld_excluded_values = []\<rparr>"

definition sample_input :: list_input where
  "sample_input = \<lparr>in_def = sample_list, in_sightings = [sample_sighting 5 ValidityValid],
     in_relations = [], in_degraded = []\<rparr>"

definition sample_options :: plan_options where
  "sample_options = \<lparr>keep_addresses = False\<rparr>"

definition sample_target :: "int \<Rightarrow> target_def" where
  "sample_target m = RawJSONTarget\<lparr>td_constraints := (td_constraints RawJSONTarget)\<lparr>tc_max_rules := m\<rparr>\<rparr>"

lemma sample_list_sel [simp]:
  "in_def sample_input = sample_list" "ld_id sample_list = ''a''" "ld_seeds sample_list = []"
  "ld_components sample_list = [\<lparr>comp_id = ''core'', comp_required = True\<rparr>]"
  "ld_catalog_revision sample_list = ''v''"
  by (simp_all add: sample_input_def sample_list_def)

lemma sample_slug: "is_ok (validate_slug ''a'')" "is_ok (validate_slug ''core'')"
  by (simp_all add: validate_slug_def slug_char_def is_lower_def is_dec_def char_le_iff)

lemma sample_input_wf: "input_wf sample_input"
  using sample_slug by (simp add: input_wf_def sample_input_def sample_list_def sample_sighting_def
      sighting_wf_def mk_resource_def)

lemma sample_target_sel [simp]:
  "td_id (sample_target m) = ''raw-json''" "tc_max_rules (td_constraints (sample_target m)) = m"
  "supportsRule RuleIPv4 (td_constraints (sample_target m))"
  "tc_prefixes (td_constraints (sample_target m))" "tc_ipv4 (td_constraints (sample_target m))"
  by (simp_all add: sample_target_def RawJSONTarget_def)

lemma sample_canonical:
  "canonicalSightings (in_sightings sample_input) = [expose_fingerprint (sample_sighting 5 ValidityValid)]"
  by (simp add: canonicalSightings_def sample_input_def group_fold_def group_step_def)

lemma google_routable: "RoutableDestination (V4 0x08080808)"
  by (simp add: RoutableDestination_def Let_def excludedDestinations_def prefix_contains_def
      prefix_valid_def drop_bit_eq_div)

lemma sample_rule_of:
  "sightingRule (expose_fingerprint (sample_sighting 5 ValidityValid)) ''a'' (component_map (ld_components sample_list)) =
    Ok (mk_rule RuleIPv4 [] (V4 0x08080808) no_prefix ''a'' ''core'' SourceCommunity
      [ReasonFreshCommunityObservation] [''feed'']\<lparr>rr_expires := Some 15\<rparr>)"
  by (simp add: sightingRule_def Let_def expose_fingerprint_def sample_sighting_def mk_resource_def
      resource_valid.simps known_component_def component_map_def go_set_def new_addr_rule_def provenance_def)

lemma sample_accepted:
  "mk_rule RuleIPv4 [] (V4 0x08080808) no_prefix ''a'' ''core'' SourceCommunity
      [ReasonFreshCommunityObservation] [''feed'']\<lparr>rr_expires := Some 15\<rparr>
    \<in> set (ad_accepted (list_admission sample_input (sample_target m) 1 sample_options))"
proof -
  have adm: "admissibleValue (mk_rule RuleIPv4 [] (V4 0x08080808) no_prefix ''a'' ''core'' SourceCommunity
      [ReasonFreshCommunityObservation] [''feed'']\<lparr>rr_expires := Some 15\<rparr>) = None"
    using google_routable by (simp add: admissibleValue_def routableValue_def mk_rule_def)
  have s: "si_list (expose_fingerprint (sample_sighting 5 ValidityValid)) = ''a''"
    "is_fresh (expose_fingerprint (sample_sighting 5 ValidityValid)) 1"
    by (simp_all add: expose_fingerprint_def sample_sighting_def is_fresh_def mk_resource_def resource_valid.simps)
  have cx: "cx_list (list_context sample_input (sample_target m) 1 sample_options) = ''a''"
    "cx_components (list_context sample_input (sample_target m) 1 sample_options) = component_map (ld_components sample_list)"
    "cx_off (list_context sample_input (sample_target m) 1 sample_options) = []"
    "cx_cutoff (list_context sample_input (sample_target m) 1 sample_options) = 1"
    "cx_constraints (list_context sample_input (sample_target m) 1 sample_options) = td_constraints (sample_target m)"
    by (simp_all add: list_context_def) (simp add: sample_list_def)
  show ?thesis
    unfolding list_admission_def sample_canonical all_admitted_def admissionOrder_def seeds_admitted_def
    by (simp add: admit_sighting_def cx s sample_rule_of [simplified sample_list_sel] judge_sighting_def adm)
      (simp add: mk_rule_def)
qed

lemma sample_unbounded [simp]: "unbounded (sample_target m) = sample_target 0"
  by (simp add: unbounded_def sample_target_def)

lemma sample_set:
  obtains plan err where "BuildPlanSetWith maximal_prefixes [sample_input] (sample_target m) 1 sample_options = (Some plan, err)"
proof -
  have "fst (BuildPlanSetWith maximal_prefixes [sample_input] (sample_target m) 1 sample_options) \<noteq> None"
    using set_builder_exists [of maximal_prefixes "[sample_input]" "sample_target m" 1 sample_options] sample_slug
    by simp
  then show ?thesis using that by (metis option.exhaust prod.collapse)
qed

lemma sample_reduced:
  obtains r where "r \<in> set (reduceRules maximal_prefixes True
      (ad_accepted (list_admission sample_input (sample_target m) 1 sample_options)))"
    "rule_matches r (DAddr (V4 0x08080808))" "rr_list r = ''a''" "rr_component r = ''core''"
proof -
  have u: "\<forall>x \<in> set (ad_accepted (list_admission sample_input (sample_target m) 1 sample_options)). unlabelled x"
    using list_admission_facts(1) [OF sample_input_wf, of "sample_target m" 1 sample_options] sample_slug
    by (simp add: admitted_def)
  have m: "rule_matches (mk_rule RuleIPv4 [] (V4 0x08080808) no_prefix ''a'' ''core'' SourceCommunity
      [ReasonFreshCommunityObservation] [''feed'']\<lparr>rr_expires := Some 15\<rparr>) (DAddr (V4 0x08080808))"
    by (simp add: mk_rule_def)
  from reduce_represents [OF maximal.ip_set_axioms u sample_accepted, of True] obtain r where
    r: "r \<in> set (reduceRules maximal_prefixes True
      (ad_accepted (list_admission sample_input (sample_target m) 1 sample_options)))"
    "represents r (mk_rule RuleIPv4 [] (V4 0x08080808) no_prefix ''a'' ''core'' SourceCommunity
      [ReasonFreshCommunityObservation] [''feed'']\<lparr>rr_expires := Some 15\<rparr>)" by blast
  show ?thesis
  proof (rule that [OF r(1)])
    show "rule_matches r (DAddr (V4 0x08080808))" using r(2) m unfolding represents_def by blast
    show "rr_list r = ''a''" "rr_component r = ''core''"
      using r(2) unfolding represents_def by (simp_all add: mk_rule_def)
  qed
qed

lemma sample_routed:
  assumes "BuildPlanSetWith maximal_prefixes [sample_input] (sample_target m) 1 sample_options = (Some plan, err)"
  obtains r where "r \<in> set (pl_rules plan)" "rule_matches r (DAddr (V4 0x08080808))"
proof -
  obtain q where q: "q \<in> set (reduceRules maximal_prefixes True
      (ad_accepted (list_admission sample_input (sample_target 0) 1 sample_options)))"
    "rule_matches q (DAddr (V4 0x08080808))" by (rule sample_reduced)
  obtain p where p: "list_plan maximal_prefixes sample_input (sample_target m) 1 sample_options p"
    using plan_set_union(1) [OF assms] by auto
  have "canonical_rule q \<in> set (pl_rules p)"
    using q(1) buildPlan_Ok(1) [OF p [unfolded list_plan_def]] by (simp add: limitRules_def)
  then have "canonical_rule q \<in> set (pl_rules plan)" using plan_set_union(2) [OF assms] p by auto
  moreover have "rule_matches (canonical_rule q) (DAddr (V4 0x08080808))"
    using q(2) by (simp add: canonical_rule_def)
  ultimately show ?thesis by (rule that)
qed

lemma sample_inputs_wf: "\<forall>i \<in> set [sample_input]. input_wf i"
  using sample_input_wf by simp

theorem plan_exists_iff_witness:
  "fst (BuildPlanSetWith maximal_prefixes [sample_input] (sample_target 0) 1 sample_options) \<noteq> None \<and>
   fst (BuildPlanSetWith maximal_prefixes [sample_input] (sample_target 0) 0 sample_options) = None \<and>
   snd (BuildPlanSetWith maximal_prefixes [sample_input] (sample_target 0) 0 sample_options) \<noteq> None"
  using plan_exists_iff [of maximal_prefixes "[sample_input]" "sample_target 0" 1 sample_options]
    plan_exists_iff [of maximal_prefixes "[sample_input]" "sample_target 0" 0 sample_options] sample_slug
  by simp


theorem plan_routes_evident_witness:
  "\<exists>x. evident sample_input (list_context sample_input (sample_target 0) 1 sample_options) x \<and>
     rr_list x = ''a'' \<and> rule_matches x (DAddr (V4 0x08080808))"
proof -
  obtain plan err where b: "BuildPlanSetWith maximal_prefixes [sample_input] (sample_target 0) 1 sample_options = (Some plan, err)"
    by (rule sample_set)
  obtain r where r: "r \<in> set (pl_rules plan)" "rule_matches r (DAddr (V4 0x08080808))"
    using b by (rule sample_routed)
  from plan_routes_evident [OF maximal.ip_set_axioms sample_inputs_wf b r] obtain i x where
    "i = sample_input" "evident i (list_context i (sample_target 0) 1 sample_options) x"
    "rr_list r = ld_id (in_def i)" "rr_list x = rr_list r" "rule_matches x (DAddr (V4 0x08080808))"
    by auto
  then show ?thesis by (metis sample_list_sel(1,2))
qed

theorem plan_answers_observations_witness:
  "\<exists>plan err. BuildPlanSetWith maximal_prefixes [sample_input] (sample_target 0) 1 sample_options = (Some plan, err) \<and>
     answered (list_context sample_input (sample_target 0) 1 sample_options) (pl_rules plan) (pl_excluded plan)
       (expose_fingerprint (sample_sighting 5 ValidityValid))"
proof -
  obtain plan err where b: "BuildPlanSetWith maximal_prefixes [sample_input] (sample_target 0) 1 sample_options = (Some plan, err)"
    by (rule sample_set)
  have o: "own_sighting (ld_id (in_def sample_input)) (expose_fingerprint (sample_sighting 5 ValidityValid))"
    by (simp add: own_sighting_def expose_fingerprint_def sample_sighting_def)
  have "answered (list_context sample_input (sample_target 0) 1 sample_options) (pl_rules plan) (pl_excluded plan)
      (expose_fingerprint (sample_sighting 5 ValidityValid))"
    by (rule plan_answers_observations [OF maximal.ip_set_axioms sample_inputs_wf b _ _ o])
      (simp_all add: sample_canonical)
  with b show ?thesis by blast
qed

lemma sample_success:
  obtains plan where "BuildPlanSetWith maximal_prefixes [sample_input] (sample_target 0) 1 sample_options = (Some plan, None)"
proof -
  obtain plan err where b: "BuildPlanSetWith maximal_prefixes [sample_input] (sample_target 0) 1 sample_options = (Some plan, err)"
    by (rule sample_set)
  obtain q where q: "q \<in> set (reduceRules maximal_prefixes True
      (ad_accepted (list_admission sample_input (sample_target 0) 1 sample_options)))"
    "rr_list q = ''a''" "rr_component q = ''core''" by (rule sample_reduced)
  have "cov_complete v" if v: "v \<in> set (pl_coverage plan)" for v
  proof -
    obtain p where p: "list_plan maximal_prefixes sample_input (sample_target 0) 1 sample_options p" "v \<in> set (pl_coverage p)"
      using plan_set_union(4) [OF b] v by auto
    with buildPlan_Ok(3) [OF p(1) [unfolded list_plan_def]] q show ?thesis
      by (auto simp: limitRules_def buildCoverage_def Let_def component_map_def go_set_def filter_empty_conv)
  qed
  then have "requiredCoverageError (pl_coverage plan) = None" by (simp add: requiredCoverageError_def)
  with plan_set_union(5) [OF b] b have
    "BuildPlanSetWith maximal_prefixes [sample_input] (sample_target 0) 1 sample_options = (Some plan, None)" by simp
  then show ?thesis by (rule that)
qed

theorem plan_success_complete_witness:
  "\<exists>plan. BuildPlanSetWith maximal_prefixes [sample_input] (sample_target 0) 1 sample_options = (Some plan, None) \<and>
     (\<exists>r \<in> set (pl_rules plan). rr_list r = ''a'' \<and> rr_component r = ''core'')"
proof -
  obtain plan where b: "BuildPlanSetWith maximal_prefixes [sample_input] (sample_target 0) 1 sample_options = (Some plan, None)"
    by (rule sample_success)
  have "map_of (component_map (ld_components (in_def sample_input))) ''core'' = Some \<lparr>comp_id = ''core'', comp_required = True\<rparr>"
    by (simp add: component_map_def go_set_def)
  with plan_success_complete [OF b] b show ?thesis by fastforce
qed

definition sample_input2 :: list_input where
  "sample_input2 = sample_input\<lparr>in_def := sample_list\<lparr>ld_id := ''b''\<rparr>\<rparr>"

lemma sample_same_input: "same_input sample_input (sample_input\<lparr>in_sightings := [sample_sighting 5 ValidityValid, sample_sighting 5 ValidityValid]\<rparr>)"
  by (simp add: same_input_def sample_input_def sightings_agree_def)

lemma same_input_refl: "(\<forall>s \<in> set (in_sightings i). \<forall>t \<in> set (in_sightings i). sighting_key s = sighting_key t \<longrightarrow> sightings_agree s t) \<Longrightarrow> same_input i i"
  by (simp add: same_input_def)


theorem limit_accounts_witness:
  "\<exists>plan r. buildPlan maximal_prefixes sample_input (sample_target 1) 1 True sample_options = Ok plan \<and>
     int (length (pl_rules plan)) \<le> 1 \<and>
     (canonical_rule r \<in> set (pl_rules plan) \<or> canonical_excluded (limit_excluded r) \<in> set (pl_excluded plan))"
proof -
  obtain plan where b: "buildPlan maximal_prefixes sample_input (sample_target 1) 1 True sample_options = Ok plan"
    using buildPlan_total [of maximal_prefixes sample_input "sample_target 1" 1 True sample_options]
    by (auto simp: component_map_def go_set_def)
  obtain r where r: "r \<in> set (reduceRules maximal_prefixes True
      (ad_accepted (list_admission sample_input (sample_target 1) 1 sample_options)))" by (rule sample_reduced)
  from limit_accounts [OF b] r b show ?thesis by fastforce
qed

end
