(* ===== verification/Documents.thy ===== *)
theory Documents
  imports Domain GoMap
begin

text \<open>
  What the text formats of \<open>internal/renderers\<close> share: sequencing of fallible steps, the splitting of
  a payload into lines, the canonical order of prefixes, and the discipline of every \<open>Parse\<close>: scan the
  document, render the reading again and require the same bytes. The locale \<open>canonical_document\<close>
  states that discipline once; every format interprets it on its own functions.
\<close>

datatype render_error =
    ErrPlanRule | ErrPlanKind | ErrPlanPrefix | ErrEntry string | ErrNoEntries | ErrEntryBound
  | ErrLineBound | ErrByteBound | ErrSize | ErrEnding | ErrByte | ErrHeader | ErrCommand string
  | ErrDuplicateEntry | ErrNotCanonical | ErrGroupName | ErrGroupIdentity | ErrDescription | ErrGroupBound
  | ErrPrefixName

section \<open>Sequencing\<close>

definition then_do :: "('e, 'a) result \<Rightarrow> ('a \<Rightarrow> ('e, 'b) result) \<Rightarrow> ('e, 'b) result" where
  "then_do r f = (case r of Inl e \<Rightarrow> Err e | Inr x \<Rightarrow> f x)"

lemma then_do_Ok [simp]: "then_do (Ok x) f = f x" "then_do (Err e) f = Err e"
  by (simp_all add: then_do_def)

lemma then_do_eq_Ok [simp]: "then_do r f = Ok y \<longleftrightarrow> (\<exists>x. r = Ok x \<and> f x = Ok y)"
  by (cases r) auto

text \<open>A loop that stops at the first error.\<close>

fun traverse :: "('a \<Rightarrow> ('e, 'b) result) \<Rightarrow> 'a list \<Rightarrow> ('e, 'b list) result" where
  "traverse f [] = Ok []"
| "traverse f (x # xs) = then_do (f x) (\<lambda>y. then_do (traverse f xs) (\<lambda>ys. Ok (y # ys)))"

lemma traverse_Ok: "traverse f xs = Ok ys \<longleftrightarrow> list_all2 (\<lambda>x y. f x = Ok y) xs ys"
proof (induction xs arbitrary: ys)
  case (Cons x xs)
  then show ?case by (cases ys) auto
qed auto

lemma traverse_Ok_map: "traverse f xs = Ok ys \<Longrightarrow> (\<And>x y. f x = Ok y \<Longrightarrow> y = g x) \<Longrightarrow> ys = map g xs"
  unfolding traverse_Ok by (induction rule: list_all2_induct) auto

lemma traverse_all: "(\<And>x. x \<in> set xs \<Longrightarrow> f x = Ok (g x)) \<Longrightarrow> traverse f xs = Ok (map g xs)"
  by (induction xs) auto

lemma traverse_Err: "traverse f xs = Err e \<Longrightarrow> \<exists>x \<in> set xs. f x = Err e"
  by (induction xs) (auto simp: then_do_def split: sum.splits)

lemma traverse_mem: "traverse f xs = Ok ys \<Longrightarrow> x \<in> set xs \<Longrightarrow> \<exists>y \<in> set ys. f x = Ok y"
  unfolding traverse_Ok by (induction rule: list_all2_induct) auto

lemma traverse_origin: "traverse f xs = Ok ys \<Longrightarrow> y \<in> set ys \<Longrightarrow> \<exists>x \<in> set xs. f x = Ok y"
  unfolding traverse_Ok by (induction rule: list_all2_induct) auto

lemma traverse_ex:
  assumes "traverse f xs = Ok ys" "\<And>x y. f x = Ok y \<Longrightarrow> P x = Q y"
  shows "(\<exists>x \<in> set xs. P x) \<longleftrightarrow> (\<exists>y \<in> set ys. Q y)"
  using assms(1) unfolding traverse_Ok by (induction rule: list_all2_induct) (auto simp: assms(2))

section \<open>Canonical documents\<close>

text \<open>
  \<open>parse\<close> scans a payload, brings the reading into canonical form (\<open>finish\<close>), renders it and accepts
  it only if the bytes agree. The law a format owes: what it renders it can scan, and the reading
  renders to the same bytes.
\<close>

locale canonical_document =
  fixes render :: "'d \<Rightarrow> (render_error, string) result"
    and scan :: "string \<Rightarrow> (render_error, 'd) result"
    and finish :: "'d \<Rightarrow> (render_error, 'd) result"
    and parse :: "string \<Rightarrow> (render_error, 'd) result"
  assumes parse_eq: "parse p = then_do (scan p) (\<lambda>s. then_do (finish s) (\<lambda>c. then_do (render c) (\<lambda>q.
      if q = p then Ok c else Err ErrNotCanonical)))"
    and scan_render: "render d = Ok p \<Longrightarrow> \<exists>s c. scan p = Ok s \<and> finish s = Ok c \<and> render c = Ok p"
begin

lemma accepted_rendered: "parse p = Ok c \<Longrightarrow> render c = Ok p"
  by (auto simp: parse_eq split: if_splits)

lemma rendered_accepted: "render d = Ok p \<Longrightarrow> \<exists>c. parse p = Ok c \<and> render c = Ok p"
  using scan_render [of d p] by (auto simp: parse_eq)

lemma accepts_iff: "is_ok (parse p) \<longleftrightarrow> (\<exists>d. render d = Ok p)"
  using accepted_rendered rendered_accepted unfolding is_ok_iff by blast

lemma one_reading: "parse p = Ok c \<Longrightarrow> parse q = Ok c \<Longrightarrow> p = q"
  by (metis accepted_rendered sum.inject(2))

end

section \<open>Distinct values in a fixed order\<close>

text \<open>\<open>seen[key(v)] = v\<close> over a list, then the values sorted.\<close>

definition collect :: "('a \<Rightarrow> string) \<Rightarrow> 'a list \<Rightarrow> (string \<times> 'a) list" where
  "collect key xs = foldl (\<lambda>m x. go_set (key x) x m) [] xs"

definition ordered_values :: "('a \<Rightarrow> string) \<Rightarrow> ('a \<Rightarrow> 'k::linorder) \<Rightarrow> 'a list \<Rightarrow> 'a list" where
  "ordered_values key ord xs = sort_key ord (map snd (collect key xs))"

lemma collect_facts:
  "distinct (map fst (collect key xs)) \<and> fst ` set (collect key xs) = key ` set xs \<and>
   (\<forall>(k, v) \<in> set (collect key xs). v \<in> set xs \<and> k = key v)"
proof (induction xs rule: rev_induct)
  case Nil
  then show ?case by (simp add: collect_def)
next
  case (snoc x xs)
  have step: "collect key (xs @ [x]) = upsert (key x) (\<lambda>_. x) (collect key xs)"
    by (simp add: collect_def go_set_def)
  have d: "distinct (map fst (collect key (xs @ [x])))"
    using snoc by (simp add: step distinct_upsert)
  have "v \<in> set (xs @ [x]) \<and> k = key v" if kv: "(k, v) \<in> set (collect key (xs @ [x]))" for k v
  proof -
    have "map_of (collect key (xs @ [x])) k = Some v" using d kv by (rule map_of_is_SomeI)
    then show ?thesis
      using snoc by (auto simp: step map_of_upsert dest!: map_of_SomeD split: if_splits)
  qed
  with d snoc show ?case by (auto simp: step keys_upsert)
qed

lemma collected_values:
  assumes "inj_on key (set xs)"
  shows "set (map snd (collect key xs)) = set xs" "distinct (map snd (collect key xs))"
proof -
  note f = collect_facts [of key xs]
  show "set (map snd (collect key xs)) = set xs"
  proof (intro equalityI subsetI)
    fix x assume x: "x \<in> set xs"
    then have "key x \<in> fst ` set (collect key xs)" using f by simp
    then obtain v where v: "(key x, v) \<in> set (collect key xs)" by force
    with f have "v \<in> set xs" "key x = key v" by auto
    with assms x have "v = x" by (auto dest: inj_onD)
    with v show "x \<in> set (map snd (collect key xs))" by force
  qed (use f in auto)
  have "map fst (collect key xs) = map key (map snd (collect key xs))"
    using f by (auto intro!: map_cong)
  with f have "distinct (map key (map snd (collect key xs)))" by metis
  then show "distinct (map snd (collect key xs))" unfolding distinct_map [of key] by blast
qed

lemma ordered_set: "inj_on key (set xs) \<Longrightarrow> set (ordered_values key ord xs) = set xs"
  using collected_values(1) by (simp add: ordered_values_def)

lemma ordered_distinct: "inj_on key (set xs) \<Longrightarrow> distinct (ordered_values key ord xs)"
  using collected_values(2) by (simp add: ordered_values_def)

lemma ordered_eqI:
  assumes "inj_on key (set xs)" "inj_on ord (set xs)" "set xs = set ys"
  shows "ordered_values key ord xs = ordered_values key ord ys"
  unfolding ordered_values_def
proof (rule sort_key_perm)
  have k: "inj_on key (set ys)" using assms(1,3) by simp
  show "mset (map snd (collect key xs)) = mset (map snd (collect key ys))"
    using collected_values [OF assms(1)] collected_values [OF k] assms(3)
    by (metis set_eq_iff_mset_eq_distinct)
  show "inj_on ord (set (map snd (collect key xs)))"
    using collected_values(1) [OF assms(1)] assms(2) by simp
qed

lemma ordered_idem:
  "inj_on key (set xs) \<Longrightarrow> inj_on ord (set xs) \<Longrightarrow>
   ordered_values key ord (ordered_values key ord xs) = ordered_values key ord xs"
  by (rule ordered_eqI) (simp_all add: ordered_set)

section \<open>Lines\<close>

lemma split_lines_concat:
  assumes "\<forall>l \<in> set ls. c \<notin> set l" "ls \<noteq> []"
  shows "split_on c (butlast (concat (map (\<lambda>l. l @ [c]) ls))) = ls"
proof -
  have "butlast (concat (map (\<lambda>l. l @ [c]) ls)) = join [c] ls"
    using assms(2)
  proof (induction ls)
    case (Cons l ls)
    then show ?case by (cases "ls = []") (simp_all add: join_Cons butlast_append)
  qed simp
  with assms show ?thesis by (simp add: split_join)
qed

lemma length_concat_le: "(\<And>x. x \<in> set xs \<Longrightarrow> length (f x) \<le> n) \<Longrightarrow> length (concat (map f xs)) \<le> n * length xs"
proof (induction xs)
  case (Cons x xs)
  have "length (f x) \<le> n" "length (concat (map f xs)) \<le> n * length xs" using Cons by auto
  then show ?case by simp
qed simp

text \<open>Prefixes are ordered by address and then by width.\<close>

definition prefix_order :: "prefix \<Rightarrow> (nat \<times> nat \<times> string) \<times> int" where
  "prefix_order p = (addr_key (pfx_addr p), pfx_bits p)"

lemma inj_prefix_order: "inj_on prefix_order A"
  by (auto simp: inj_on_def prefix_order_def addr_key_inj prefix.expand)

lemma inj_prefix_string: "\<forall>p \<in> A. plain_prefix p \<Longrightarrow> inj_on prefix_string A"
  by (auto simp: inj_on_def prefix_string_inj)

section \<open>Names in a document\<close>

definition check_name :: "string \<Rightarrow> (render_error, string) result" where
  "check_name v = (case normalize_domain v of
     Inl _ \<Rightarrow> Err (ErrEntry v) | Inr n \<Rightarrow> if n = v then Ok v else Err (ErrEntry v))"

lemma check_name_Ok [simp]: "check_name v = Ok w \<longleftrightarrow> w = v \<and> normalize_domain v = Ok v"
  by (auto simp: check_name_def split: sum.splits)

lemma canonical_name_chars:
  assumes "normalize_domain v = Ok v"
  shows "v \<noteq> []" "length v \<le> 253" "\<forall>c \<in> set v. label_char c \<or> c = CHR ''.''"
proof -
  have "domain_syntax v"
    using assms domain_syntax_lower [of "trim_dot v"] by (simp add: normalize_domain_iff)
  then show "v \<noteq> []" "length v \<le> 253" "\<forall>c \<in> set v. label_char c \<or> c = CHR ''.''"
    using domain_syntax_chars by (auto simp: domain_syntax_def)
qed

text \<open>A character of a canonical line: neither a line end nor white space.\<close>

definition line_char :: "char \<Rightarrow> bool" where
  "line_char c \<longleftrightarrow> c \<noteq> CHR 0x0A \<and> c \<noteq> CHR 0x0D \<and> \<not> domain_space c"

lemma label_char_line: "label_char c \<or> c = CHR ''.'' \<Longrightarrow> line_char c"
  by (auto simp: line_char_def label_char_def is_lower_def is_upper_def is_dec_def domain_space_def char_le_iff)

lemma label_char_plain:
  "label_char c \<or> c = CHR ''.'' \<Longrightarrow> c \<noteq> CHR '' '' \<and> c \<noteq> CHR ''/'' \<and> c \<noteq> CHR '':''"
  by (auto simp: label_char_def is_lower_def is_upper_def is_dec_def char_le_iff)

lemma name_no_char:
  assumes "normalize_domain v = Ok v"
  shows "CHR ''/'' \<notin> set v" "CHR '' '' \<notin> set v" "CHR '':'' \<notin> set v" "list_all line_char v"
proof -
  have all: "line_char c \<and> c \<noteq> CHR '' '' \<and> c \<noteq> CHR ''/'' \<and> c \<noteq> CHR '':''" if "c \<in> set v" for c
    using label_char_plain [OF bspec [OF canonical_name_chars(3) [OF assms] that]]
      label_char_line [OF bspec [OF canonical_name_chars(3) [OF assms] that]] by (intro conjI) simp_all
  show "CHR ''/'' \<notin> set v" using all [of "CHR ''/''"] by blast
  show "CHR '' '' \<notin> set v" using all [of "CHR '' ''"] by blast
  show "CHR '':'' \<notin> set v" using all [of "CHR '':''"] by blast
  show "list_all line_char v" using all by (simp add: list_all_iff)
qed

lemma line_char_ends: "list_all line_char l \<Longrightarrow> CHR 0x0A \<notin> set l \<and> CHR 0x0D \<notin> set l"
  by (auto simp: list_all_iff line_char_def)

text \<open>\<open>slices.Sorted\<close> of the distinct names.\<close>

definition name_values :: "string list \<Rightarrow> string list" where
  "name_values names = ordered_values (\<lambda>s. s) (\<lambda>s. s) names"

lemma set_name_values [simp]: "set (name_values xs) = set xs"
  by (simp add: name_values_def ordered_set)

lemma distinct_name_values [simp]: "distinct (name_values xs)"
  by (simp add: name_values_def ordered_distinct)

lemma name_values_idem [simp]: "name_values (name_values xs) = name_values xs"
  by (simp add: name_values_def ordered_idem)

lemma name_values_Nil [simp]: "name_values xs = [] \<longleftrightarrow> xs = []"
  by (metis set_empty set_name_values)

section \<open>Payloads of lines ended by a line feed\<close>

abbreviation LF :: char where "LF \<equiv> CHR 0x0A"

definition unlines :: "string list \<Rightarrow> string" where
  "unlines ls = concat (map (\<lambda>l. l @ [LF]) ls)"

definition payload_lines :: "nat \<Rightarrow> string \<Rightarrow> (render_error, string list) result" where
  "payload_lines maximum payload =
     (if payload = [] \<or> maximum < length payload then Err ErrSize
      else if last payload \<noteq> LF then Err ErrEnding
      else if CHR 0x0D \<in> set payload then Err ErrByte
      else Ok (split_on LF (butlast payload)))"

lemma payload_lines_unlines:
  assumes "ls \<noteq> []" "\<forall>l \<in> set ls. LF \<notin> set l \<and> CHR 0x0D \<notin> set l" "length (unlines ls) \<le> maximum"
  shows "payload_lines maximum (unlines ls) = Ok ls"
proof -
  have "unlines ls \<noteq> []" using assms(1) by (cases ls) (auto simp: unlines_def)
  moreover have "last (unlines ls) = LF"
    using assms(1) by (cases ls rule: rev_cases) (auto simp: unlines_def)
  moreover have "CHR 0x0D \<notin> set (unlines ls)" using assms(2) by (auto simp: unlines_def)
  moreover have "split_on LF (butlast (unlines ls)) = ls"
    unfolding unlines_def by (rule split_lines_concat) (use assms in auto)
  ultimately show ?thesis using assms(3) by (simp add: payload_lines_def)
qed

text \<open>\<open>strings.CutPrefix\<close> and \<open>strings.Cut\<close> at one byte.\<close>

definition cut_prefix :: "string \<Rightarrow> string \<Rightarrow> string option" where
  "cut_prefix p s = (if take (length p) s = p then Some (drop (length p) s) else None)"

definition cut_at :: "char \<Rightarrow> string \<Rightarrow> (string \<times> string) option" where
  "cut_at c s = (if c \<in> set s then Some (takeWhile (\<lambda>x. x \<noteq> c) s, tl (dropWhile (\<lambda>x. x \<noteq> c) s)) else None)"

lemma cut_prefix_append [simp]: "cut_prefix p (p @ s) = Some s"
  by (simp add: cut_prefix_def)

lemma cut_at_append [simp]: "c \<notin> set x \<Longrightarrow> cut_at c (x @ c # y) = Some (x, y)"
  by (induction x) (auto simp: cut_at_def)

section \<open>A plan of one name\<close>

definition sample_name_plan :: "RuleKind \<Rightarrow> routing_plan" where
  "sample_name_plan k = \<lparr>pl_interface = [], pl_target = [], pl_format = [], pl_lists = [],
     pl_rules = [mk_rule k ''example.com'' NoAddr no_prefix ''a'' ''core'' SourceManual [] []],
     pl_excluded = [], pl_warnings = [], pl_coverage = [], pl_relations = [], pl_sightings = [],
     pl_policy = [], pl_revision = [], pl_cutoff = 1, pl_hash = []\<rparr>"

lemma example_name: "normalize_domain ''example.com'' = Ok ''example.com''"
  by (simp add: normalize_domain_def trim_dot_def domain_space_def label_ok_def label_char_def
      is_lower_def is_upper_def is_dec_def char_le_iff to_lower_def lower_def Let_def)

lemma sample_name_rule:
  "rule_valid (mk_rule RuleDomainSuffix ''example.com'' NoAddr no_prefix ''a'' ''core'' SourceManual [] [])"
  "rule_valid (mk_rule RuleDomainExact ''example.com'' NoAddr no_prefix ''a'' ''core'' SourceManual [] [])"
  using example_name by (simp_all add: mk_rule_def rule_valid_def validate_slug_def
        slug_char_def is_lower_def is_dec_def char_le_iff)

end
