(* ===== verification/KeeneticBat.thy ===== *)
theory KeeneticBat
  imports Documents Overlaps
begin

text \<open>
  \<open>internal/renderers/keenetic\<close>: the IPv4 \<open>route ADD\<close> BAT dialect. \<open>bat_project\<close> is \<open>projectPlan\<close>,
  \<open>bat_rules\<close> is \<open>projectedRules\<close>, \<open>bat_render\<close> is \<open>renderRules\<close> and \<open>bat_parse\<close> is \<open>Parse\<close>, split into
  the scan of the lines and the comparison with the canonical form.
\<close>

section \<open>Rendering\<close>

definition bat_max_lines :: nat where "bat_max_lines = 1024"
definition bat_max_bytes :: nat where "bat_max_bytes = 131072"
definition bat_max_line :: nat where "bat_max_line = 96"

definition bat_refused :: "prefix \<Rightarrow> bool" where
  "bat_refused p \<longleftrightarrow> \<not> prefix_valid p \<or> \<not> is4 (pfx_addr p) \<or> pfx_bits p \<le> 0"

definition bat_route :: "route_rule \<Rightarrow> (render_error, prefix) result" where
  "bat_route r =
     (if \<not> rule_valid r \<or> rr_action r \<noteq> ActionRoute then Err ErrPlanRule
      else case rr_kind r of
        RuleIPv4 \<Rightarrow> (let p = prefix_from (rr_addr r) 32 in if bat_refused p then Err ErrPlanPrefix else Ok p)
      | RulePrefix4 \<Rightarrow> (let p = masked (rr_prefix r) in if bat_refused p then Err ErrPlanPrefix else Ok p)
      | _ \<Rightarrow> Err ErrPlanKind)"

definition bat_project :: "routing_plan \<Rightarrow> (render_error, prefix list) result" where
  "bat_project plan = traverse bat_route (pl_rules plan)"

definition bat_entry :: "prefix \<Rightarrow> (render_error, prefix) result" where
  "bat_entry p = (if bat_refused (masked p) then Err (ErrEntry (prefix_string p)) else Ok (masked p))"

definition bat_rules :: "prefix list \<Rightarrow> (render_error, prefix list) result" where
  "bat_rules ps = then_do (traverse bat_entry ps) (\<lambda>qs. Ok (ordered_values prefix_string prefix_order qs))"

definition bat_canonical :: "prefix list \<Rightarrow> (render_error, prefix list) result" where
  "bat_canonical ps = then_do (bat_rules ps) (\<lambda>qs. if qs = [] then Err ErrNoEntries else Ok qs)"

text \<open>\<open>net.CIDRMask(ones, 32)\<close> and \<open>net.IPMask.Size\<close>, none for a mask that is not contiguous.\<close>

definition cidr_mask :: "nat \<Rightarrow> 32 word" where
  "cidr_mask n = push_bit (32 - n) (- 1)"

definition mask_ones :: "32 word \<Rightarrow> nat option" where
  "mask_ones w = find (\<lambda>n. cidr_mask n = w) [0..<33]"

definition crlf :: string where
  "crlf = [CHR 0x0D, CHR 0x0A]"

definition bat_line :: "prefix \<Rightarrow> string" where
  "bat_line p = ''route ADD '' @ addr_string (pfx_addr p) @ '' MASK '' @
     join ''.'' (map dec (octets (cidr_mask (nat (pfx_bits p))))) @ '' 0.0.0.0'' @ crlf"

definition bat_render :: "prefix list \<Rightarrow> (render_error, string) result" where
  "bat_render input = then_do (bat_canonical input) (\<lambda>rules.
     if bat_max_lines < length rules then Err ErrEntryBound
     else if \<exists>p \<in> set rules. bat_max_line < length (bat_line p) then Err ErrLineBound
     else let output = concat (map bat_line rules) in
       if bat_max_bytes < length output then Err ErrByteBound else Ok output)"

definition bat_Render :: "routing_plan \<Rightarrow> (render_error, string) result" where
  "bat_Render plan = then_do (bat_project plan) bat_render"

definition bat_count :: "routing_plan \<Rightarrow> (render_error, nat) result" where
  "bat_count plan = then_do (bat_project plan) (\<lambda>ps. then_do (bat_rules ps) (\<lambda>qs. Ok (length qs)))"

section \<open>Parsing\<close>

text \<open>
  The byte loop: every carriage return is followed by a line feed, every line feed preceded by a
  carriage return, and no other byte is a control byte or outside ASCII.
\<close>

fun bat_bytes_ok :: "string \<Rightarrow> bool" where
  "bat_bytes_ok [] = True"
| "bat_bytes_ok (c # cs) =
     (if c = CHR 0x0D then cs \<noteq> [] \<and> hd cs = CHR 0x0A \<and> bat_bytes_ok (tl cs)
      else (of_char c :: nat) < 128 \<and> 32 \<le> (of_char c :: nat) \<and> of_char c \<noteq> (127 :: nat) \<and> bat_bytes_ok cs)"

fun split_crlf :: "string \<Rightarrow> string list" where
  "split_crlf [] = [[]]"
| "split_crlf (c # cs) =
     (if c = CHR 0x0D \<and> cs \<noteq> [] \<and> hd cs = CHR 0x0A then [] # split_crlf (tl cs)
      else case split_crlf cs of [] \<Rightarrow> [[c]] | l # ls \<Rightarrow> (c # l) # ls)"

definition bat_scan_line :: "string \<Rightarrow> (render_error, prefix) result" where
  "bat_scan_line line =
     (if line = [] \<or> bat_max_line < length line then Err (ErrCommand line)
      else case split_on CHR '' '' line of
        [w0, w1, dest, w3, msk, w5] \<Rightarrow>
          if w0 \<noteq> ''route'' \<or> w1 \<noteq> ''ADD'' \<or> w3 \<noteq> ''MASK'' \<or> w5 \<noteq> ''0.0.0.0'' then Err (ErrCommand line)
          else (case (parse_addr dest, parse_addr msk) of
            (Some (V4 a), Some (V4 m)) \<Rightarrow>
              if addr_string (V4 a) \<noteq> dest \<or> addr_string (V4 m) \<noteq> msk then Err (ErrCommand line)
              else (case mask_ones m of
                None \<Rightarrow> Err (ErrCommand line)
              | Some ones \<Rightarrow>
                  if ones = 0 then Err (ErrCommand line)
                  else let p = masked (prefix_from (V4 a) (int ones)) in
                    if pfx_addr p \<noteq> V4 a then Err (ErrCommand line) else Ok p)
          | _ \<Rightarrow> Err (ErrCommand line))
      | _ \<Rightarrow> Err (ErrCommand line))"

fun bat_scan_lines :: "string list \<Rightarrow> string list \<Rightarrow> (render_error, prefix list) result" where
  "bat_scan_lines seen [] = Ok []"
| "bat_scan_lines seen (l # ls) =
     then_do (bat_scan_line l) (\<lambda>p.
       if prefix_string p \<in> set seen then Err ErrDuplicateEntry
       else then_do (bat_scan_lines (prefix_string p # seen) ls) (\<lambda>ps. Ok (p # ps)))"

definition ends_with :: "string \<Rightarrow> string \<Rightarrow> bool" where
  "ends_with s e \<longleftrightarrow> length e \<le> length s \<and> drop (length s - length e) s = e"

definition bat_scan :: "string \<Rightarrow> (render_error, prefix list) result" where
  "bat_scan payload =
     (if payload = [] \<or> bat_max_bytes < length payload then Err ErrSize
      else if length payload < 2 \<or> \<not> ends_with payload crlf then Err ErrEnding
      else if \<not> bat_bytes_ok payload then Err ErrByte
      else let body = take (length payload - 2) payload in
        if body = [] then Err ErrNoEntries
        else let lines = split_crlf body in
          if bat_max_lines < length lines then Err ErrEntryBound
          else bat_scan_lines [] lines)"

definition bat_parse :: "string \<Rightarrow> (render_error, prefix list) result" where
  "bat_parse payload = then_do (bat_scan payload) (\<lambda>rules. then_do (bat_render rules) (\<lambda>canonical.
     if canonical = payload then Ok rules else Err ErrNotCanonical))"

section \<open>Masks and lines\<close>

lemma cidr_mask_distinct: "distinct (map cidr_mask [0..<33])"
  by code_simp

lemma mask_ones_cidr: "n \<le> 32 \<Longrightarrow> mask_ones (cidr_mask n) = Some n"
proof -
  assume n: "n \<le> 32"
  obtain k where k: "mask_ones (cidr_mask n) = Some k"
  proof (cases "mask_ones (cidr_mask n)")
    case None
    then have "\<forall>k < 33. cidr_mask k \<noteq> cidr_mask n" by (simp add: mask_ones_def find_None_iff del: upt_Suc)
    with n have "cidr_mask n \<noteq> cidr_mask n" by (metis le_imp_less_Suc eval_nat_numeral(3))
    then show ?thesis by simp
  qed
  then have "cidr_mask k = cidr_mask n" "k < 33"
    by (auto simp: mask_ones_def find_Some_iff simp del: upt_Suc)
  with cidr_mask_distinct n have "k = n"
    by (auto simp: distinct_map inj_on_def simp del: upt_Suc)
  with k show ?thesis by simp
qed

definition bat_prefix :: "prefix \<Rightarrow> bool" where
  "bat_prefix p \<longleftrightarrow> (\<exists>a b. p = Prefix (V4 a) (int b) \<and> 0 < b \<and> b \<le> 32 \<and> masked p = p)"

lemma bat_entry_Ok: "bat_entry p = Ok q \<Longrightarrow> q = masked p \<and> bat_prefix q"
proof -
  assume e: "bat_entry p = Ok q"
  then have q: "q = masked p" "prefix_valid q" "is4 (pfx_addr q)" "0 < pfx_bits q"
    by (auto simp: bat_entry_def bat_refused_def split: if_splits)
  then obtain x where x: "pfx_addr p = V4 x" by (cases "pfx_addr p") (auto simp: masked_def no_prefix_def prefix_from_def split: if_splits)
  then have b: "0 < pfx_bits p" "pfx_bits p \<le> 32" and "pfx_bits q = pfx_bits p"
    using q by (auto simp: masked_def prefix_from_def no_prefix_def prefix_valid_def split: if_splits)
  then have pl: "plain_prefix p" using x by (simp add: plain_prefix_def plain_addr_def)
  have "masked q = q" using pl by (simp add: q(1) plain_masked)
  moreover have "q = Prefix (V4 (clear_low (32 - nat (pfx_bits p)) x)) (int (nat (pfx_bits p)))"
    using q(1) x b by (simp add: masked_def prefix_from_def)
  ultimately show ?thesis using b q(1) unfolding bat_prefix_def by (metis nat_le_iff of_nat_numeral zero_less_nat_eq)
qed

lemma bat_prefix_plain: "bat_prefix p \<Longrightarrow> plain_prefix p \<and> masked p = p"
  by (auto simp: bat_prefix_def plain_prefix_def plain_addr_def)

lemma bat_entry_id: "bat_prefix p \<Longrightarrow> bat_entry p = Ok p"
  by (auto simp: bat_prefix_def bat_entry_def bat_refused_def prefix_valid_def)

lemma bat_rules_Ok:
  assumes "bat_rules ps = Ok qs"
  shows "\<forall>q \<in> set qs. bat_prefix q" "set qs = masked ` set ps" "distinct qs" "bat_rules qs = Ok qs"
proof -
  obtain rs where rs: "traverse bat_entry ps = Ok rs" and qs: "qs = ordered_values prefix_string prefix_order rs"
    using assms by (auto simp: bat_rules_def)
  have all: "\<forall>r \<in> set rs. bat_prefix r" using traverse_origin [OF rs] bat_entry_Ok by blast
  have m: "rs = map masked ps" using traverse_Ok_map [OF rs] bat_entry_Ok by blast
  have inj: "inj_on prefix_string (set rs)" using all bat_prefix_plain by (auto intro: inj_prefix_string)
  have s: "set qs = set rs" unfolding qs by (rule ordered_set [OF inj])
  show "\<forall>q \<in> set qs. bat_prefix q" "set qs = masked ` set ps" using all s m by simp_all
  show "distinct qs" unfolding qs by (rule ordered_distinct [OF inj])
  have "traverse bat_entry qs = Ok (map (\<lambda>q. q) qs)"
    by (rule traverse_all) (use all s bat_entry_id in auto)
  then show "bat_rules qs = Ok qs"
    using ordered_idem [OF inj inj_prefix_order] by (simp add: bat_rules_def qs)
qed

lemma mask_text: "join ''.'' (map dec (octets w)) = addr_string (V4 w)"
  by (simp add: string4_def)

lemma string4_length: "length (string4 a) \<le> 15"
proof -
  have d: "length (dec n) \<le> 3" if "n \<in> set (octets a)" for n
    by (rule num_str_length) (use octets_bound [of a] that in auto)
  obtain x y z w where o: "octets a = [x, y, z, w]"
    using length_octets [of a] by (auto simp: length_Suc_conv eval_nat_numeral simp del: length_octets)
  have "length (dec x) \<le> 3" "length (dec y) \<le> 3" "length (dec z) \<le> 3" "length (dec w) \<le> 3"
    using d o by auto
  then show ?thesis by (simp add: string4_def o)
qed

definition bat_text :: "prefix \<Rightarrow> string" where
  "bat_text p = ''route ADD '' @ addr_string (pfx_addr p) @ '' MASK '' @
     addr_string (V4 (cidr_mask (nat (pfx_bits p)))) @ '' 0.0.0.0''"

lemma bat_line_text: "bat_line p = bat_text p @ crlf"
  by (simp add: bat_line_def bat_text_def string4_def)

lemma bat_text_length: "bat_prefix p \<Longrightarrow> length (bat_text p) \<le> 54"
proof -
  assume "bat_prefix p"
  then obtain a b where "p = Prefix (V4 a) (int b)" by (auto simp: bat_prefix_def)
  then show ?thesis
    using string4_length [of a] string4_length [of "cidr_mask b"] by (simp add: bat_text_def)
qed

definition printable :: "char \<Rightarrow> bool" where
  "printable c \<longleftrightarrow> 32 \<le> (of_char c :: nat) \<and> (of_char c :: nat) < 127"

lemma printable_string4: "c \<in> set (string4 a) \<Longrightarrow> printable c"
  using set_string4 [of c a] by (auto simp: printable_def is_dec_def less_eq_char_def)

lemma bat_text_chars:
  assumes "bat_prefix p" "c \<in> set (bat_text p)"
  shows "printable c"
proof -
  obtain a b where p: "p = Prefix (V4 a) (int b)" using assms(1) by (auto simp: bat_prefix_def)
  have w: "\<forall>d \<in> set (''route ADD '' @ '' MASK '' @ '' 0.0.0.0''). printable d" by (simp add: printable_def)
  from assms(2) p have "c \<in> set (''route ADD '' @ '' MASK '' @ '' 0.0.0.0'') \<or> c \<in> set (string4 a) \<or>
      c \<in> set (string4 (cidr_mask b))"
    unfolding bat_text_def set_append by (simp only: prefix.sel addr_string.simps nat_int Un_iff) blast
  with w printable_string4 show ?thesis by blast
qed

section \<open>What is rendered is scanned\<close>

lemma bat_text_words:
  "bat_text p = join [CHR '' ''] [''route'', ''ADD'', addr_string (pfx_addr p), ''MASK'',
     addr_string (V4 (cidr_mask (nat (pfx_bits p)))), ''0.0.0.0'']"
  by (simp add: bat_text_def)

lemma string4_no_space: "CHR '' '' \<notin> set (string4 a)"
  using set_string4 [of "CHR '' ''" a] by (auto simp: is_dec_def less_eq_char_def)

lemma bat_scan_text:
  assumes "bat_prefix p"
  shows "bat_scan_line (bat_text p) = Ok p"
proof -
  obtain a b where p: "p = Prefix (V4 a) (int b)" "0 < b" "b \<le> 32" "masked p = p"
    using assms by (auto simp: bat_prefix_def)
  have w: "split_on CHR '' '' (bat_text p) =
      [''route'', ''ADD'', string4 a, ''MASK'', string4 (cidr_mask b), ''0.0.0.0'']"
    unfolding bat_text_words p(1) using string4_no_space by (subst split_join) simp_all
  have m: "masked (prefix_from (V4 a) (int b)) = p"
    using p by (simp add: prefix_from_def)
  have "bat_text p \<noteq> []" "\<not> bat_max_line < length (bat_text p)"
    using bat_text_length [OF assms] by (simp_all add: bat_text_def bat_max_line_def)
  with p w m show ?thesis
    by (simp add: bat_scan_line_def parse_addr_string4 mask_ones_cidr)
qed

lemma bat_scan_texts:
  assumes "\<forall>p \<in> set ps. bat_prefix p" "distinct ps" "prefix_string ` set ps \<inter> set seen = {}"
  shows "bat_scan_lines seen (map bat_text ps) = Ok ps"
  using assms
proof (induction ps arbitrary: seen)
  case (Cons p ps)
  have "inj_on prefix_string (set (p # ps))"
    using Cons.prems(1) bat_prefix_plain by (intro inj_prefix_string) blast
  with Cons.prems(2) have "prefix_string p \<notin> prefix_string ` set ps"
    by (auto simp: inj_on_def)
  with Cons bat_scan_text show ?case by auto
qed simp

lemma printable_not_crlf: "printable c \<Longrightarrow> c \<noteq> CHR 0x0D \<and> c \<noteq> CHR 0x0A"
  by (auto simp: printable_def)

lemma bytes_ok_append:
  "\<forall>c \<in> set l. printable c \<Longrightarrow> bat_bytes_ok (l @ crlf @ r) = bat_bytes_ok r"
  by (induction l) (auto simp: crlf_def printable_def)

lemma bytes_ok_lines:
  "\<forall>l \<in> set ls. \<forall>c \<in> set l. printable c \<Longrightarrow> bat_bytes_ok (concat (map (\<lambda>l. l @ crlf) ls))"
proof (induction ls)
  case (Cons l ls)
  then show ?case using bytes_ok_append [of l "concat (map (\<lambda>l. l @ crlf) ls)"] by simp
qed simp

lemma split_crlf_plain: "\<forall>c \<in> set l. printable c \<Longrightarrow> split_crlf l = [l]"
  by (induction l) (auto simp: printable_def)

lemma split_crlf_append: "\<forall>c \<in> set l. printable c \<Longrightarrow> split_crlf (l @ crlf @ r) = l # split_crlf r"
  by (induction l) (auto simp: crlf_def printable_def)

lemma split_crlf_lines:
  assumes "ls \<noteq> []" "\<forall>l \<in> set ls. \<forall>c \<in> set l. printable c"
  shows "\<exists>body. concat (map (\<lambda>l. l @ crlf) ls) = body @ crlf \<and> split_crlf body = ls"
  using assms
proof (induction ls)
  case (Cons l ls)
  show ?case
  proof (cases "ls = []")
    case True
    with Cons.prems split_crlf_plain show ?thesis by simp
  next
    case False
    with Cons obtain body where "concat (map (\<lambda>l. l @ crlf) ls) = body @ crlf" "split_crlf body = ls" by auto
    with Cons.prems split_crlf_append [of l body] show ?thesis
      by (intro exI [of _ "l @ crlf @ body"]) simp
  qed
qed simp

lemma bat_render_Ok:
  assumes "bat_render ps = Ok out"
  obtains qs where "bat_canonical ps = Ok qs" "qs \<noteq> []" "\<forall>q \<in> set qs. bat_prefix q" "distinct qs"
    "length qs \<le> bat_max_lines" "out = concat (map (\<lambda>l. l @ crlf) (map bat_text qs))"
    "length out \<le> bat_max_bytes" "bat_rules qs = Ok qs" "set qs = masked ` set ps"
proof -
  obtain qs where c: "bat_canonical ps = Ok qs" and r: "bat_rules ps = Ok qs" "qs \<noteq> []"
    and "length qs \<le> bat_max_lines" "out = concat (map bat_line qs)" "length out \<le> bat_max_bytes"
    using assms by (auto simp: bat_render_def bat_canonical_def Let_def split: if_splits)
  moreover have "map bat_line qs = map (\<lambda>l. l @ crlf) (map bat_text qs)" by (simp add: bat_line_text)
  ultimately show ?thesis using that bat_rules_Ok [OF r(1)] by simp
qed

lemma bat_scan_rendered:
  assumes "bat_render ps = Ok out"
  shows "\<exists>qs. bat_canonical ps = Ok qs \<and> bat_scan out = Ok qs \<and> bat_render qs = Ok out"
proof -
  obtain qs where q: "bat_canonical ps = Ok qs" "qs \<noteq> []" "\<forall>q \<in> set qs. bat_prefix q" "distinct qs"
    "length qs \<le> bat_max_lines" "out = concat (map (\<lambda>l. l @ crlf) (map bat_text qs))"
    "length out \<le> bat_max_bytes" "bat_rules qs = Ok qs"
    using bat_render_Ok [OF assms] by metis
  have chars: "\<forall>l \<in> set (map bat_text qs). \<forall>c \<in> set l. printable c"
    using q(3) bat_text_chars by auto
  obtain body where b: "out = body @ crlf" "split_crlf body = map bat_text qs"
    using split_crlf_lines [of "map bat_text qs"] chars q(2,6) by auto
  have "body \<noteq> []"
  proof
    assume "body = []"
    with b(2) have "map bat_text qs = [[]]" by simp
    then show False by (auto simp: bat_text_def)
  qed
  moreover have "bat_bytes_ok out" unfolding q(6) by (rule bytes_ok_lines) (use chars in simp)
  moreover have "bat_scan_lines [] (map bat_text qs) = Ok qs"
    by (rule bat_scan_texts) (use q in auto)
  ultimately have "bat_scan out = Ok qs"
    using q(5,7) b by (simp add: bat_scan_def ends_with_def crlf_def)
  moreover have "bat_canonical qs = bat_canonical ps"
    using q(1,2,8) by (simp add: bat_canonical_def [of qs])
  then have "bat_render qs = bat_render ps" by (simp only: bat_render_def)
  ultimately show ?thesis using assms q(1) by auto
qed

interpretation bat: canonical_document bat_render bat_scan Ok bat_parse
proof
  show "bat_parse p = then_do (bat_scan p) (\<lambda>s. then_do (Ok s) (\<lambda>c. then_do (bat_render c) (\<lambda>q.
      if q = p then Ok c else Err ErrNotCanonical)))" for p
    by (simp add: bat_parse_def)
  show "\<exists>s c. bat_scan p = Ok s \<and> Ok s = Ok c \<and> bat_render c = Ok p" if "bat_render d = Ok p" for d p
    using bat_scan_rendered [OF that] by auto
qed

text \<open>
  \<open>Parse\<close> of the Keenetic format accepts exactly what the renderer can produce: a payload is
  accepted if and only if it is the rendering of some route set.
\<close>

theorem bat_parse_exact: "is_ok (bat_parse p) = (\<exists>rules. bat_render rules = Ok p)"
  by (rule bat.accepts_iff)

section \<open>From the plan to the router\<close>

lemma bat_route_matches:
  assumes "bat_route r = Ok p"
  shows "plain_prefix p" "prefix_contains (masked p) a \<longleftrightarrow> rule_matches r (DAddr a)"
proof -
  have v: "rule_valid r" using assms by (auto simp: bat_route_def split: if_splits)
  have "plain_prefix p \<and> (prefix_contains (masked p) a \<longleftrightarrow> rule_matches r (DAddr a))"
  proof (cases "rr_kind r")
    case RuleIPv4
    with v obtain x where x: "rr_addr r = V4 x" by (cases "rr_addr r") (auto simp: rule_valid_def split: if_splits)
    with RuleIPv4 assms have p: "p = prefix_from (V4 x) (int (bit_len (V4 x)))"
      by (auto simp: bat_route_def Let_def split: if_splits)
    have "plain_addr (V4 x)" by (simp add: plain_addr_def)
    from host_prefix_set [OF this] have "prefix_contains p a \<longleftrightarrow> a = V4 x"
      unfolding p by (auto simp: prefix_set_def)
    moreover have "masked p = p" "plain_prefix p"
      by (simp_all add: p masked_def prefix_from_def clear_low_def plain_prefix_def plain_addr_def)
    ultimately show ?thesis using RuleIPv4 x by simp
  next
    case RulePrefix4
    then have q: "rr_prefix r = masked (rr_prefix r)" "prefix_valid (rr_prefix r)" "is4 (pfx_addr (rr_prefix r))"
      using v by (auto simp: rule_valid_def split: if_splits)
    have "p = masked (rr_prefix r)" using RulePrefix4 assms by (auto simp: bat_route_def Let_def split: if_splits)
    then have p: "p = rr_prefix r" "masked p = p" using q(1) by simp_all
    have "rule_wf r"
      using v RulePrefix4 q(3) by (cases "pfx_addr (rr_prefix r)") (auto simp: rule_wf_def)
    then have "plain_prefix p" using rule_wf_prefix RulePrefix4 p(1) by auto
    with p RulePrefix4 show ?thesis by simp
  qed (use assms v in \<open>auto simp: bat_route_def split: if_splits\<close>)
  then show "plain_prefix p" "prefix_contains (masked p) a \<longleftrightarrow> rule_matches r (DAddr a)" by simp_all
qed

text \<open>
  C33. What the router is asked to route is what the plan routes. If a plan renders, the rendered file
  parses, the parsed prefixes contain exactly the addresses the plan's rules match, no name rule was
  dropped on the way, and the number of parsed routes is the projected count.
\<close>

theorem bat_file_routes_plan:
  assumes "bat_Render plan = Ok out"
  shows "\<exists>routes. bat_parse out = Ok routes \<and> bat_count plan = Ok (length routes) \<and> distinct routes \<and>
    (\<forall>d. (\<exists>r \<in> set (pl_rules plan). rule_matches r d) =
      (\<exists>a. d = DAddr a \<and> (\<exists>q \<in> set routes. prefix_contains q a)))"
proof -
  obtain ps where ps: "traverse bat_route (pl_rules plan) = Ok ps" "bat_render ps = Ok out"
    using assms by (auto simp: bat_Render_def bat_project_def)
  obtain qs where qs: "bat_canonical ps = Ok qs" "distinct qs" "set qs = masked ` set ps"
    using bat_render_Ok [OF ps(2)] by metis
  from bat_scan_rendered [OF ps(2)] qs(1) have p: "bat_parse out = Ok qs" by (auto simp: bat_parse_def)
  have c: "bat_count plan = Ok (length qs)"
    using qs(1) ps(1) by (auto simp: bat_count_def bat_project_def bat_canonical_def split: if_splits)
  have dom: "\<not> rule_matches r (DName n)" if "bat_route r = Ok q" for r q n
    using that by (cases "rr_kind r") (auto simp: bat_route_def split: if_splits)
  have "(\<exists>r \<in> set (pl_rules plan). rule_matches r d) \<longleftrightarrow>
      (\<exists>a. d = DAddr a \<and> (\<exists>q \<in> set qs. prefix_contains q a))" for d
  proof (cases d)
    case (DName n)
    with traverse_mem [OF ps(1)] dom show ?thesis by blast
  next
    case (DAddr a)
    have "(\<exists>q \<in> set qs. prefix_contains q a) \<longleftrightarrow> (\<exists>q \<in> set ps. prefix_contains (masked q) a)"
      by (simp add: qs(3))
    also have "\<dots> \<longleftrightarrow> (\<exists>r \<in> set (pl_rules plan). rule_matches r (DAddr a))"
      using traverse_mem [OF ps(1)] traverse_origin [OF ps(1)] bat_route_matches(2) by meson
    finally show ?thesis using DAddr by simp
  qed
  with p c qs(2) show ?thesis by blast
qed

definition sample_bat_plan :: routing_plan where
  "sample_bat_plan = \<lparr>pl_interface = [], pl_target = [], pl_format = [], pl_lists = [],
     pl_rules = [mk_rule RuleIPv4 [] (V4 0x08080808) no_prefix ''a'' ''core'' SourceManual [] []],
     pl_excluded = [], pl_warnings = [], pl_coverage = [], pl_relations = [], pl_sightings = [],
     pl_policy = [], pl_revision = [], pl_cutoff = 1, pl_hash = []\<rparr>"

text \<open>
  The bounds of a line and of the artifact never refuse a route set: at most 1024 lines of at most
  56 bytes are rendered, so only an unsupported prefix, an empty set or too many routes fail.
\<close>

lemma bat_output_length:
  assumes "\<forall>q \<in> set qs. bat_prefix q" "length qs \<le> bat_max_lines"
  shows "\<forall>q \<in> set qs. length (bat_line q) \<le> 56" "length (concat (map bat_line qs)) \<le> 57344"
proof -
  show a: "\<forall>q \<in> set qs. length (bat_line q) \<le> 56"
    using assms(1) bat_text_length by (auto simp: bat_line_text crlf_def)
  have "length (concat (map bat_line qs)) \<le> 56 * length qs"
    by (rule length_concat_le) (use a in auto)
  with assms(2) show "length (concat (map bat_line qs)) \<le> 57344" by (simp add: bat_max_lines_def)
qed

text \<open>
  The bounds of the Keenetic renderer. Only three things refuse a route set: a prefix that is not
  a non-default IPv4 network, no route at all, and more than 1024 distinct routes. The line and byte
  bounds are never reached; the payload of a rendered set has at most 57344 bytes.
\<close>

theorem bat_render_bounds:
  "(\<exists>out. bat_render ps = Ok out \<and> length out \<le> 57344) = (ps \<noteq> [] \<and>
     filter (\<lambda>p. bat_refused (masked p)) ps = [] \<and> card (masked ` set ps) \<le> 1024) \<and>
   bat_render ps \<noteq> Err ErrLineBound \<and> bat_render ps \<noteq> Err ErrByteBound"
proof (cases "bat_rules ps")
  case (Inl e)
  then have t: "traverse bat_entry ps = Err e"
    by (cases "traverse bat_entry ps") (auto simp: bat_rules_def)
  from traverse_Err [OF t] obtain p where p: "p \<in> set ps" "bat_entry p = Err e" by blast
  then have "bat_refused (masked p)" "e = ErrEntry (prefix_string p)"
    by (auto simp: bat_entry_def split: if_splits)
  moreover have "bat_render ps = Err e" by (simp add: bat_render_def bat_canonical_def Inl)
  ultimately show ?thesis using p(1) by (auto simp: filter_empty_conv)
next
  case (Inr qs)
  note f = bat_rules_Ok [OF Inr]
  have ok: "filter (\<lambda>p. bat_refused (masked p)) ps = []"
  proof -
    obtain rs where "traverse bat_entry ps = Ok rs" using Inr by (auto simp: bat_rules_def)
    then show ?thesis
      using traverse_mem [of bat_entry ps rs] by (force simp: filter_empty_conv bat_entry_def split: if_splits)
  qed
  have card: "card (masked ` set ps) = length qs" using f(2,3) distinct_card by metis
  have ne: "qs = [] \<longleftrightarrow> ps = []" using f(2) by (metis image_is_empty set_empty)
  show ?thesis
  proof (cases "qs \<noteq> [] \<and> length qs \<le> bat_max_lines")
    case False
    then have "bat_render ps = Err ErrNoEntries \<or> bat_render ps = Err ErrEntryBound"
      by (auto simp: bat_render_def bat_canonical_def Inr)
    with False ne card ok show ?thesis by (auto simp: bat_max_lines_def)
  next
    case True
    note b = bat_output_length [OF f(1) conjunct2 [OF True]]
    have "\<not> (\<exists>p \<in> set qs. bat_max_line < length (bat_line p))"
      using b(1) by (force simp: bat_max_line_def)
    then have "bat_render ps = Ok (concat (map bat_line qs))"
      using True b(2) by (simp add: bat_render_def bat_canonical_def Inr bat_max_bytes_def)
    with b(2) True ne card ok show ?thesis by (simp add: bat_max_lines_def)
  qed
qed

lemma sample_bat: "\<exists>out. bat_Render sample_bat_plan = Ok out"
proof -
  let ?p = "Prefix (V4 0x08080808) 32"
  have m: "masked ?p = ?p" by (simp add: masked_def prefix_from_def clear_low_def)
  have s: "bat_project sample_bat_plan = Ok [?p]"
    by (simp add: bat_project_def sample_bat_plan_def bat_route_def mk_rule_def rule_valid_def validate_slug_def
        slug_char_def is_lower_def is_dec_def char_le_iff bat_refused_def prefix_from_def prefix_valid_def)
  have e: "bat_rules [?p] = Ok [?p]"
    by (simp add: bat_rules_def bat_entry_def m bat_refused_def prefix_valid_def ordered_values_def collect_def go_set_def)
  note b = bat_output_length [OF bat_rules_Ok(1) [OF e]]
  have "\<not> (bat_max_line < length (bat_line ?p))" "\<not> (bat_max_bytes < length (bat_line ?p))"
    using b by (simp_all add: bat_max_lines_def bat_max_line_def bat_max_bytes_def)
  then show ?thesis
    by (simp add: bat_Render_def s bat_render_def bat_canonical_def e bat_max_lines_def)
qed

theorem bat_file_routes_plan_witness:
  "\<exists>out routes. bat_Render sample_bat_plan = Ok out \<and> bat_parse out = Ok routes \<and>
     (\<exists>q \<in> set routes. prefix_contains q (V4 0x08080808))"
proof -
  obtain out where o: "bat_Render sample_bat_plan = Ok out" using sample_bat by blast
  have "\<exists>r \<in> set (pl_rules sample_bat_plan). rule_matches r (DAddr (V4 0x08080808))"
    by (simp add: sample_bat_plan_def mk_rule_def)
  with bat_file_routes_plan [OF o] o show ?thesis by blast
qed

end
