(* ===== verification/OpenwrtNftset.thy ===== *)
theory OpenwrtNftset
  imports Documents Overlaps
begin

text \<open>
  \<open>internal/renderers/openwrtnftset\<close>: the dnsmasq fragment that fills an nftables set. \<open>nft_project\<close> is
  \<open>projectPlan\<close>, \<open>nft_rules\<close> is \<open>projectedRules\<close>, \<open>nft_render\<close> is \<open>renderRules\<close>, and \<open>nft_parse\<close> is
  \<open>Parse\<close>. A rule is its suffix.
\<close>

definition nft_header :: string where "nft_header = ''# routevane openwrt-nftset-conf-v1''"
definition nft_max_lines :: nat where "nft_max_lines = 4096"
definition nft_max_bytes :: nat where "nft_max_bytes = 262144"
definition nft_max_line :: nat where "nft_max_line = 320"

definition set_specification :: string where
  "set_specification = ''4#'' @ ''inet'' @ ''#'' @ ''fw4'' @ ''#'' @ ''routevane4'' @ '',6#'' @ ''inet'' @ ''#'' @
     ''fw4'' @ ''#'' @ ''routevane6''"

definition nft_suffix :: "route_rule \<Rightarrow> (render_error, string) result" where
  "nft_suffix r =
     (if \<not> rule_valid r \<or> rr_action r \<noteq> ActionRoute then Err ErrPlanRule
      else if rr_kind r \<noteq> RuleDomainSuffix then Err ErrPlanKind
      else Ok (rule_value r))"

definition nft_project :: "routing_plan \<Rightarrow> (render_error, string list) result" where
  "nft_project plan = traverse nft_suffix (pl_rules plan)"

definition nft_rules :: "string list \<Rightarrow> (render_error, string list) result" where
  "nft_rules rs = then_do (traverse check_name rs) (\<lambda>ns. Ok (name_values ns))"

definition nft_canonical :: "string list \<Rightarrow> (render_error, string list) result" where
  "nft_canonical rs = then_do (nft_rules rs) (\<lambda>ns.
     if ns = [] then Err ErrNoEntries else if nft_max_lines < length ns then Err ErrEntryBound else Ok ns)"

definition nft_line :: "string \<Rightarrow> string" where
  "nft_line name = ''nftset=/'' @ name @ ''/'' @ set_specification"

definition nft_render :: "string list \<Rightarrow> (render_error, string) result" where
  "nft_render input = then_do (nft_canonical input) (\<lambda>ns.
     if \<exists>n \<in> set ns. nft_max_line < length (nft_line n) then Err ErrLineBound
     else let output = unlines (nft_header # map nft_line ns) in
       if nft_max_bytes < length output then Err ErrByteBound else Ok output)"

definition nft_Render :: "routing_plan \<Rightarrow> (render_error, string) result" where
  "nft_Render plan = then_do (nft_project plan) nft_render"

definition nft_count :: "routing_plan \<Rightarrow> (render_error, nat) result" where
  "nft_count plan = then_do (nft_project plan) (\<lambda>rs. then_do (nft_rules rs) (\<lambda>ns. Ok (length ns)))"

definition nft_directive :: "string \<Rightarrow> (render_error, string) result" where
  "nft_directive line =
     (if line = [] \<or> nft_max_line < length line then Err (ErrCommand line)
      else if trim_space line \<noteq> line then Err (ErrCommand line)
      else case cut_prefix ''nftset=/'' line of
        None \<Rightarrow> Err (ErrCommand line)
      | Some body \<Rightarrow> (case cut_at CHR ''/'' body of
          None \<Rightarrow> Err (ErrCommand line)
        | Some (name, sets) \<Rightarrow> then_do (check_name name) (\<lambda>n.
            if sets \<noteq> set_specification then Err (ErrCommand line) else Ok n)))"

definition nft_scan :: "string \<Rightarrow> (render_error, string list) result" where
  "nft_scan payload = then_do (payload_lines nft_max_bytes payload) (\<lambda>lines.
     if lines = [] \<or> hd lines \<noteq> nft_header then Err ErrHeader
     else let directives = tl lines in
       if directives = [] then Err ErrNoEntries
       else if nft_max_lines < length directives then Err ErrEntryBound
       else traverse nft_directive directives)"

definition nft_parse :: "string \<Rightarrow> (render_error, string list) result" where
  "nft_parse payload = then_do (nft_scan payload) (\<lambda>rules. then_do (nft_canonical rules) (\<lambda>canonical.
     then_do (nft_render canonical) (\<lambda>rendered.
       if rendered = payload then Ok canonical else Err ErrNotCanonical)))"

section \<open>What is rendered is scanned\<close>

lemma nft_rules_Ok:
  assumes "nft_rules rs = Ok ns"
  shows "set ns = set rs" "\<forall>n \<in> set ns. normalize_domain n = Ok n" "nft_rules ns = Ok ns" "distinct ns"
proof -
  have "traverse check_name rs = Ok rs" and ns: "ns = name_values rs"
    using assms traverse_Ok_map [of check_name rs _ "\<lambda>v. v"] by (auto simp: nft_rules_def)
  then have names: "\<forall>n \<in> set rs. normalize_domain n = Ok n"
    using traverse_mem [of check_name rs rs] by fastforce
  then show "set ns = set rs" "\<forall>n \<in> set ns. normalize_domain n = Ok n" by (simp_all add: ns)
  have "traverse check_name ns = Ok (map (\<lambda>n. n) ns)"
    by (rule traverse_all) (use names ns in simp)
  then show "nft_rules ns = Ok ns" by (simp add: nft_rules_def ns)
  show "distinct ns" by (simp add: ns)
qed

lemma set_specification_plain: "list_all line_char set_specification" "length set_specification = 43"
  by (simp_all add: set_specification_def domain_space_def line_char_def)

lemma nft_line_facts:
  assumes "normalize_domain n = Ok n"
  shows "length (nft_line n) \<le> 305" "LF \<notin> set (nft_line n)" "CHR 0x0D \<notin> set (nft_line n)"
    "nft_directive (nft_line n) = Ok n"
proof -
  note c = canonical_name_chars [OF assms] name_no_char [OF assms]
  show l: "length (nft_line n) \<le> 305" using c(2) by (simp add: nft_line_def set_specification_plain)
  have ch: "list_all line_char (nft_line n)"
    using c(7) by (simp add: nft_line_def set_specification_plain) (simp add: line_char_def domain_space_def)
  then show "LF \<notin> set (nft_line n)" "CHR 0x0D \<notin> set (nft_line n)" using line_char_ends by simp_all
  have "trim_space (nft_line n) = nft_line n"
    using ch by (intro trim_space_id) (simp add: list_all_iff line_char_def)
  moreover have "cut_prefix ''nftset=/'' (nft_line n) = Some (n @ CHR ''/'' # set_specification)"
    unfolding nft_line_def by (subst cut_prefix_append) simp
  moreover have "nft_line n \<noteq> []" by (simp add: nft_line_def)
  ultimately show "nft_directive (nft_line n) = Ok n"
    using l assms c(4) by (simp add: nft_directive_def nft_max_line_def)
qed

lemma nft_header_plain: "LF \<notin> set nft_header" "CHR 0x0D \<notin> set nft_header"
  by (simp_all add: nft_header_def)

lemma nft_scan_rendered:
  assumes "nft_render rs = Ok out"
  shows "\<exists>ns. nft_canonical rs = Ok ns \<and> nft_scan out = Ok ns \<and> nft_canonical ns = Ok ns \<and> nft_render ns = Ok out"
proof -
  obtain ns where r: "nft_rules rs = Ok ns" "ns \<noteq> []" "length ns \<le> nft_max_lines"
    and c: "nft_canonical rs = Ok ns"
    and out: "out = unlines (nft_header # map nft_line ns)" "length out \<le> nft_max_bytes"
    using assms by (auto simp: nft_render_def nft_canonical_def Let_def split: if_splits)
  note f = nft_rules_Ok [OF r(1)]
  have "payload_lines nft_max_bytes out = Ok (nft_header # map nft_line ns)"
    unfolding out(1) by (rule payload_lines_unlines) (use f(2) nft_line_facts nft_header_plain out in auto)
  moreover have "traverse nft_directive (map nft_line ns) = Ok ns"
    using f(2) nft_line_facts(4) by (induction ns) auto
  ultimately have "nft_scan out = Ok ns"
    using r(2,3) by (simp add: nft_scan_def)
  moreover have cn: "nft_canonical ns = Ok ns" using f(3) r(2,3) by (simp add: nft_canonical_def)
  then have "nft_render ns = Ok out" using assms c by (simp add: nft_render_def)
  ultimately show ?thesis using c cn by blast
qed

interpretation nft: canonical_document nft_render nft_scan nft_canonical nft_parse
proof
  show "nft_parse p = then_do (nft_scan p) (\<lambda>s. then_do (nft_canonical s) (\<lambda>c. then_do (nft_render c) (\<lambda>q.
      if q = p then Ok c else Err ErrNotCanonical)))" for p
    by (simp add: nft_parse_def)
  show "\<exists>s c. nft_scan p = Ok s \<and> nft_canonical s = Ok c \<and> nft_render c = Ok p" if "nft_render d = Ok p" for d p
    using nft_scan_rendered [OF that] by blast
qed

text \<open>
  C34. The dnsmasq fragment carries the plan. If a plan renders, its fragment parses to the distinct
  suffixes of the plan in byte order, a name is under a parsed suffix if and only if a rule of the plan
  routes it, and the projected count is the number of directives.
\<close>

theorem nft_file_routes_plan:
  assumes "nft_Render plan = Ok out"
  shows "\<exists>names. nft_parse out = Ok names \<and> nft_count plan = Ok (length names) \<and> distinct names \<and>
    (\<forall>d. (\<exists>r \<in> set (pl_rules plan). rule_matches r d) =
      (\<exists>n. d = DName n \<and> (\<exists>s \<in> set names. n = s \<or> suffix (CHR ''.'' # s) n)))"
proof -
  obtain rs where rs: "traverse nft_suffix (pl_rules plan) = Ok rs" "nft_render rs = Ok out"
    using assms by (auto simp: nft_Render_def nft_project_def)
  obtain ns where ns: "nft_canonical rs = Ok ns" "nft_parse out = Ok ns"
    using nft_scan_rendered [OF rs(2)] by (auto simp: nft_parse_def)
  then have r: "nft_rules rs = Ok ns" by (auto simp: nft_canonical_def split: if_splits)
  note f = nft_rules_Ok [OF r]
  have c: "nft_count plan = Ok (length ns)" using rs(1) r by (simp add: nft_count_def nft_project_def)
  have m: "rule_matches r d \<longleftrightarrow> (\<exists>n. d = DName n \<and> (n = s \<or> suffix (CHR ''.'' # s) n))"
    if "nft_suffix r = Ok s" for r s d
  proof -
    have "rr_kind r = RuleDomainSuffix" "normalize_domain (rr_domain r) = Ok (rr_domain r)" "s = rule_value r"
      using that by (auto simp: nft_suffix_def rule_valid_def split: if_splits)
    then have k: "rr_kind r = RuleDomainSuffix" "s = rr_domain r"
      by (simp_all add: rule_value.simps normalize_domain_value_id)
    show ?thesis using k by (cases d) simp_all
  qed
  have "(\<exists>r \<in> set (pl_rules plan). rule_matches r d) \<longleftrightarrow>
      (\<exists>n. d = DName n \<and> (\<exists>s \<in> set ns. n = s \<or> suffix (CHR ''.'' # s) n))" for d
  proof -
    have "(\<exists>r \<in> set (pl_rules plan). rule_matches r d) \<longleftrightarrow>
        (\<exists>s \<in> set rs. \<exists>n. d = DName n \<and> (n = s \<or> suffix (CHR ''.'' # s) n))"
      by (rule traverse_ex [OF rs(1)]) (rule m)
    then show ?thesis unfolding f(1) by blast
  qed
  with ns(2) c f(4) show ?thesis by blast
qed

lemma sample_nft: "nft_project (sample_name_plan RuleDomainSuffix) = Ok [''example.com'']"
  using sample_name_rule(1) normalize_domain_value_id [OF example_name]
  by (simp add: nft_project_def sample_name_plan_def nft_suffix_def)
    (simp add: mk_rule_def rule_value.simps)

theorem nft_file_routes_plan_witness:
  "\<exists>out names. nft_Render (sample_name_plan RuleDomainSuffix) = Ok out \<and> nft_parse out = Ok names \<and>
     ''example.com'' \<in> set names"
proof -
  have c: "nft_canonical [''example.com''] = Ok [''example.com'']"
    using example_name by (simp add: nft_canonical_def nft_rules_def name_values_def ordered_values_def
        collect_def go_set_def nft_max_lines_def)
  note l = nft_line_facts(1) [OF example_name]
  have u: "length (unlines [nft_header, nft_line ''example.com'']) \<le> nft_max_bytes"
    using l by (simp add: unlines_def nft_header_def nft_max_bytes_def)
  from l have "\<not> nft_max_line < length (nft_line ''example.com'')" by (simp add: nft_max_line_def)
  with u have o: "nft_Render (sample_name_plan RuleDomainSuffix) = Ok (unlines [nft_header, nft_line ''example.com''])"
    by (simp add: nft_Render_def sample_nft nft_render_def c Let_def)
  have "\<exists>r \<in> set (pl_rules (sample_name_plan RuleDomainSuffix)). rule_matches r (DName ''example.com'')"
    by (simp add: sample_name_plan_def mk_rule_def)
  with nft_file_routes_plan [OF o] obtain names s where
    "nft_parse (unlines [nft_header, nft_line ''example.com'']) = Ok names" "s \<in> set names"
    "''example.com'' = s \<or> suffix (CHR ''.'' # s) ''example.com''" by blast
  moreover have "nft_parse (unlines [nft_header, nft_line ''example.com'']) = Ok [''example.com'']"
    using nft_scan_rendered [of "[''example.com'']"] c o by (auto simp: nft_Render_def sample_nft nft_parse_def)
  ultimately show ?thesis using o by auto
qed

end
