(* ===== verification/Mikrotik.thy ===== *)
theory Mikrotik
  imports Documents RuleReduction
begin

text \<open>
  \<open>internal/renderers/mikrotik\<close>: the RouterOS script of firewall address lists. A script is two
  sections of entries; an entry is a prefix or a name. \<open>mik_parse\<close> tries the current two-step
  replacement form first and then the one form published documents used before it.
\<close>

record script =
  sc_ipv4 :: "string list"
  sc_ipv6 :: "string list"
  sc_legacy :: bool

definition empty_script :: script where
  "empty_script = \<lparr>sc_ipv4 = [], sc_ipv6 = [], sc_legacy = False\<rparr>"

definition mik_header :: string where "mik_header = ''# routevane mikrotik-address-list-rsc-v1''"
definition mik_max_lines :: nat where "mik_max_lines = 4096"
definition mik_max_bytes :: nat where "mik_max_bytes = 262144"
definition mik_max_line :: nat where "mik_max_line = 320"
definition section4 :: string where "section4 = ''/ip firewall address-list''"
definition section6 :: string where "section6 = ''/ipv6 firewall address-list''"

definition list_for :: "string \<Rightarrow> string" where
  "list_for sect = (if sect = section6 then ''routevane6'' else ''routevane4'')"

section \<open>From the plan\<close>

definition mik_add4 :: "string \<Rightarrow> script \<Rightarrow> script" where
  "mik_add4 v sc = sc\<lparr>sc_ipv4 := sc_ipv4 sc @ [v]\<rparr>"

definition mik_add6 :: "string \<Rightarrow> script \<Rightarrow> script" where
  "mik_add6 v sc = sc\<lparr>sc_ipv6 := sc_ipv6 sc @ [v]\<rparr>"

definition mik_route :: "script \<Rightarrow> route_rule \<Rightarrow> (render_error, script) result" where
  "mik_route sc r =
     (if \<not> rule_valid r \<or> rr_action r \<noteq> ActionRoute then Err ErrPlanRule
      else case rr_kind r of
        RuleDomainExact \<Rightarrow> Ok (mik_add6 (rule_value r) (mik_add4 (rule_value r) sc))
      | RuleIPv4 \<Rightarrow> Ok (mik_add4 (prefix_string (prefix_from (rr_addr r) 32)) sc)
      | RuleIPv6 \<Rightarrow> Ok (mik_add6 (prefix_string (prefix_from (rr_addr r) 128)) sc)
      | RulePrefix4 \<Rightarrow> Ok (mik_add4 (prefix_string (masked (rr_prefix r))) sc)
      | RulePrefix6 \<Rightarrow> Ok (mik_add6 (prefix_string (masked (rr_prefix r))) sc)
      | _ \<Rightarrow> Err ErrPlanKind)"

fun mik_routes :: "script \<Rightarrow> route_rule list \<Rightarrow> (render_error, script) result" where
  "mik_routes sc [] = Ok sc"
| "mik_routes sc (r # rs) = then_do (mik_route sc r) (\<lambda>sc'. mik_routes sc' rs)"

definition mik_project :: "routing_plan \<Rightarrow> (render_error, script) result" where
  "mik_project plan = mik_routes empty_script (pl_rules plan)"

section \<open>Canonical sections\<close>

definition mik_entry :: "bool \<Rightarrow> string \<Rightarrow> (render_error, prefix + string) result" where
  "mik_entry want4 v =
     (if trim_space v \<noteq> v \<or> v = [] then Err (ErrEntry v)
      else if parse_addr v \<noteq> None then Err (ErrEntry v)
      else if CHR ''/'' \<in> set v then
        (case ParsePrefix v of
           Inl _ \<Rightarrow> Err (ErrEntry v)
         | Inr p \<Rightarrow> if prefix_string p \<noteq> v \<or> is4 (pfx_addr p) \<noteq> want4 then Err (ErrEntry v) else Ok (Inl p))
      else then_do (check_name v) (\<lambda>n. Ok (Inr n)))"

definition lefts :: "('a + 'b) list \<Rightarrow> 'a list" where
  "lefts es = concat (map (\<lambda>e. case e of Inl p \<Rightarrow> [p] | Inr _ \<Rightarrow> []) es)"

definition rights :: "('a + 'b) list \<Rightarrow> 'b list" where
  "rights es = concat (map (\<lambda>e. case e of Inl _ \<Rightarrow> [] | Inr n \<Rightarrow> [n]) es)"

definition mik_section :: "bool \<Rightarrow> string list \<Rightarrow> (render_error, string list) result" where
  "mik_section want4 vs = then_do (traverse (mik_entry want4) vs) (\<lambda>es.
     Ok (map prefix_string (ordered_values prefix_string prefix_order (lefts es)) @ name_values (rights es)))"

definition mik_projected :: "script \<Rightarrow> (render_error, script) result" where
  "mik_projected sc = then_do (mik_section True (sc_ipv4 sc)) (\<lambda>v4.
     then_do (mik_section False (sc_ipv6 sc)) (\<lambda>v6.
       Ok \<lparr>sc_ipv4 = v4, sc_ipv6 = v6, sc_legacy = sc_legacy sc\<rparr>))"

definition script_size :: "script \<Rightarrow> nat" where
  "script_size sc = length (sc_ipv4 sc) + length (sc_ipv6 sc)"

definition mik_canonical :: "script \<Rightarrow> (render_error, script) result" where
  "mik_canonical sc = then_do (mik_projected sc) (\<lambda>c.
     if script_size c = 0 then Err ErrNoEntries
     else if mik_max_lines < script_size c then Err ErrEntryBound else Ok c)"

section \<open>Rendering\<close>

definition removal :: "string \<Rightarrow> string" where
  "removal sect = ''remove [find list='' @ list_for sect @ '']''"

definition removal_static :: "string \<Rightarrow> string" where
  "removal_static sect = ''remove [find list='' @ list_for sect @ '' !dynamic]''"

definition add_line :: "string \<Rightarrow> string \<Rightarrow> string" where
  "add_line sect entry = ''add address='' @ entry @ '' list='' @ list_for sect"

definition section_lines :: "bool \<Rightarrow> string \<Rightarrow> string list \<Rightarrow> string list" where
  "section_lines legacy sect entries =
     (if legacy \<and> entries = [] then []
      else sect # (if legacy then [] else [removal_static sect]) @ removal sect # map (add_line sect) entries)"

definition script_lines :: "script \<Rightarrow> string list" where
  "script_lines sc = section_lines (sc_legacy sc) section4 (sc_ipv4 sc) @ section_lines (sc_legacy sc) section6 (sc_ipv6 sc)"

definition mik_render :: "script \<Rightarrow> (render_error, string) result" where
  "mik_render input = then_do (mik_canonical input) (\<lambda>sc.
     if (\<exists>e \<in> set (sc_ipv4 sc). mik_max_line < length (add_line section4 e)) \<or>
        (\<exists>e \<in> set (sc_ipv6 sc). mik_max_line < length (add_line section6 e)) then Err ErrLineBound
     else let output = unlines (mik_header # script_lines sc) in
       if mik_max_bytes < length output then Err ErrByteBound else Ok output)"

definition mik_Render :: "routing_plan \<Rightarrow> (render_error, string) result" where
  "mik_Render plan = then_do (mik_project plan) mik_render"

definition mik_count :: "routing_plan \<Rightarrow> (render_error, nat) result" where
  "mik_count plan = then_do (mik_project plan) (\<lambda>sc. then_do (mik_projected sc) (\<lambda>c. Ok (script_size c)))"

section \<open>Parsing\<close>

definition parse_add :: "string \<Rightarrow> string \<Rightarrow> (render_error, string) result" where
  "parse_add line lst =
     (case cut_prefix ''add address='' line of
        None \<Rightarrow> Err (ErrCommand line)
      | Some rest \<Rightarrow> (case cut_at CHR '' '' rest of
          None \<Rightarrow> Err (ErrCommand line)
        | Some (v, sfx) \<Rightarrow>
            if sfx \<noteq> ''list='' @ lst \<or> v = [] then Err (ErrCommand line) else Ok v))"

fun mik_body :: "string \<Rightarrow> string list \<Rightarrow> script \<Rightarrow> (render_error, script) result" where
  "mik_body current [] sc = Ok sc"
| "mik_body current (line # rest) sc =
     (if line = [] \<or> mik_max_line < length line \<or> trim_space line \<noteq> line then Err (ErrCommand line)
      else if line = section4 \<or> line = section6 then
        (if current = line \<or> (line = section4 \<and> current = section6) then Err (ErrCommand line)
         else if rest = [] \<or> (hd rest \<noteq> removal line \<and> hd rest \<noteq> removal_static line) then Err (ErrCommand line)
         else mik_body line rest sc)
      else if take 7 line = ''remove '' then
        (if current = [] then Err (ErrCommand line)
         else if line \<noteq> removal current \<and> line \<noteq> removal_static current then Err (ErrCommand line)
         else mik_body current rest sc)
      else if take 4 line = ''add '' then
        (if current = [] then Err (ErrCommand line)
         else then_do (parse_add line (list_for current)) (\<lambda>v.
           mik_body current rest (if current = section4 then mik_add4 v sc else mik_add6 v sc)))
      else Err (ErrCommand line))"

definition mik_scan :: "string \<Rightarrow> (render_error, script) result" where
  "mik_scan payload = then_do (payload_lines mik_max_bytes payload) (\<lambda>lines.
     if lines = [] \<or> hd lines \<noteq> mik_header then Err ErrHeader
     else if mik_max_lines + 6 < length (tl lines) then Err ErrEntryBound
     else mik_body [] (tl lines) empty_script)"

definition mik_parse :: "string \<Rightarrow> (render_error, script) result" where
  "mik_parse payload = then_do (mik_scan payload) (\<lambda>sc. then_do (mik_canonical sc) (\<lambda>c.
     if mik_render c = Ok payload then Ok c
     else then_do (mik_render (c\<lparr>sc_legacy := True\<rparr>)) (\<lambda>rendered.
       if rendered = payload then Ok (c\<lparr>sc_legacy := True\<rparr>) else Err ErrNotCanonical)))"

section \<open>Sections are canonical\<close>

lemma lefts_simps [simp]: "lefts [] = []" "lefts (Inl p # es) = p # lefts es" "lefts (Inr n # es) = lefts es"
  "lefts (xs @ ys) = lefts xs @ lefts ys"
  by (simp_all add: lefts_def)

lemma rights_simps [simp]: "rights [] = []" "rights (Inl p # es) = rights es" "rights (Inr n # es) = n # rights es"
  "rights (xs @ ys) = rights xs @ rights ys"
  by (simp_all add: rights_def)

lemma lefts_Inl [simp]: "lefts (map Inl ps) = ps" "rights (map Inl ps) = []" "lefts (map Inr ns) = []" "rights (map Inr ns) = ns"
  by (induction ps) (auto, induction ns, auto, induction ns, auto)

definition entry_text :: "prefix + string \<Rightarrow> string" where
  "entry_text e = (case e of Inl p \<Rightarrow> prefix_string p | Inr n \<Rightarrow> n)"

lemma mik_entry_Ok:
  assumes "mik_entry want4 v = Ok e"
  shows "entry_text e = v" "trim_space v = v" "v \<noteq> []" "parse_addr v = None"
    "case e of Inl p \<Rightarrow> canonical_prefix p \<and> ParsePrefix v = Ok p \<and> is4 (pfx_addr p) = want4
      | Inr n \<Rightarrow> normalize_domain n = Ok n"
  using assms ParsePrefix_Ok
  by (auto simp: mik_entry_def entry_text_def split: if_splits sum.splits)

lemma mik_entry_again: "mik_entry want4 v = Ok e \<Longrightarrow> mik_entry want4 (entry_text e) = Ok e"
  using mik_entry_Ok(1) by metis

lemma mem_lefts: "p \<in> set (lefts es) \<longleftrightarrow> Inl p \<in> set es"
  by (induction es rule: rev_induct) (auto simp: lefts_def split: sum.splits)

lemma mem_rights: "n \<in> set (rights es) \<longleftrightarrow> Inr n \<in> set es"
  by (induction es rule: rev_induct) (auto simp: rights_def split: sum.splits)

lemma mik_section_Ok:
  assumes "mik_section want4 vs = Ok out"
  shows "set out = set vs" "mik_section want4 out = Ok out" "\<forall>v \<in> set out. \<exists>e. mik_entry want4 v = Ok e"
    "distinct out"
proof -
  obtain es where es: "traverse (mik_entry want4) vs = Ok es"
    and out: "out = map prefix_string (ordered_values prefix_string prefix_order (lefts es)) @ name_values (rights es)"
    using assms by (auto simp: mik_section_def)
  let ?ps = "ordered_values prefix_string prefix_order (lefts es)"
  let ?ns = "name_values (rights es)"
  have src: "\<exists>v \<in> set vs. mik_entry want4 v = Ok e" if "e \<in> set es" for e
    using traverse_origin [OF es that] .
  have pl: "plain_prefix p" if "p \<in> set (lefts es)" for p
    using src [of "Inl p"] that mik_entry_Ok(5) [of want4 _ "Inl p"] by (auto simp: mem_lefts canonical_prefix_def)
  have inj: "inj_on prefix_string (set (lefts es))" using pl by (auto intro: inj_prefix_string)
  have sp: "set ?ps = set (lefts es)" by (rule ordered_set [OF inj])
  have texts: "entry_text ` set es = set vs"
  proof
    show "entry_text ` set es \<subseteq> set vs"
    proof
      fix t assume "t \<in> entry_text ` set es"
      then obtain e v where "e \<in> set es" "t = entry_text e" "v \<in> set vs" "mik_entry want4 v = Ok e"
        using src by blast
      then show "t \<in> set vs" using mik_entry_Ok(1) by metis
    qed
    show "set vs \<subseteq> entry_text ` set es"
    proof
      fix v assume "v \<in> set vs"
      with traverse_mem [OF es] obtain e where "e \<in> set es" "mik_entry want4 v = Ok e" by blast
      then show "v \<in> entry_text ` set es" using mik_entry_Ok(1) by (metis image_eqI)
    qed
  qed
  have "prefix_string ` set (lefts es) \<union> set (rights es) = entry_text ` set es"
  proof (intro equalityI subsetI)
    fix t assume "t \<in> entry_text ` set es"
    then obtain e where e: "e \<in> set es" "t = entry_text e" by blast
    show "t \<in> prefix_string ` set (lefts es) \<union> set (rights es)"
    proof (cases e)
      case (Inl p)
      with e have "p \<in> set (lefts es)" "t = prefix_string p" by (simp_all add: mem_lefts entry_text_def)
      then show ?thesis by blast
    next
      case (Inr n)
      with e have "t \<in> set (rights es)" by (simp add: mem_rights entry_text_def)
      then show ?thesis by blast
    qed
  next
    fix t assume "t \<in> prefix_string ` set (lefts es) \<union> set (rights es)"
    then consider p where "Inl p \<in> set es" "t = entry_text (Inl p)" | "Inr t \<in> set es" "t = entry_text (Inr t)"
      by (auto simp: mem_lefts mem_rights entry_text_def)
    then show "t \<in> entry_text ` set es" by cases blast+
  qed
  with texts sp show so: "set out = set vs" by (simp add: out)
  have again: "mik_entry want4 (entry_text e) = Ok e" if "e \<in> set es" for e
    using src [OF that] mik_entry_again by blast
  have tp: "mik_entry want4 (prefix_string p) = Ok (Inl p)" if "p \<in> set ?ps" for p
    using again [of "Inl p"] that sp by (simp add: entry_text_def mem_lefts)
  have tn: "mik_entry want4 n = Ok (Inr n)" if "n \<in> set ?ns" for n
    using again [of "Inr n"] that by (simp add: entry_text_def mem_rights)
  show "\<forall>v \<in> set out. \<exists>e. mik_entry want4 v = Ok e" using tp tn by (auto simp: out)
  have "traverse (mik_entry want4) (map prefix_string ps @ ns) = Ok (map Inl ps @ map Inr ns)"
    if "\<And>p. p \<in> set ps \<Longrightarrow> mik_entry want4 (prefix_string p) = Ok (Inl p)"
      "\<And>n. n \<in> set ns \<Longrightarrow> mik_entry want4 n = Ok (Inr n)" for ps ns
    using that by (induction ps) (simp_all, induction ns, simp_all)
  from this [of ?ps ?ns] tp tn have "traverse (mik_entry want4) out = Ok (map Inl ?ps @ map Inr ?ns)"
    unfolding out by blast
  then show "mik_section want4 out = Ok out"
    by (simp add: mik_section_def ordered_idem [OF inj inj_prefix_order]) (simp add: out)
  have "prefix_string p \<noteq> n" if "p \<in> set ?ps" "n \<in> set ?ns" for p n
    using tp [OF that(1)] tn [OF that(2)] by auto
  moreover have "distinct (map prefix_string ?ps)"
    using ordered_distinct [OF inj] inj sp by (simp add: distinct_map)
  ultimately show "distinct out" by (auto simp: out)
qed

lemma mik_projected_Ok:
  assumes "mik_projected sc = Ok c"
  shows "mik_projected c = Ok c" "mik_projected (c\<lparr>sc_legacy := b\<rparr>) = Ok (c\<lparr>sc_legacy := b\<rparr>)"
    "mik_projected (sc\<lparr>sc_legacy := b\<rparr>) = Ok (c\<lparr>sc_legacy := b\<rparr>)" "sc_legacy c = sc_legacy sc"
    "\<forall>v \<in> set (sc_ipv4 c). \<exists>e. mik_entry True v = Ok e" "\<forall>v \<in> set (sc_ipv6 c). \<exists>e. mik_entry False v = Ok e"
proof -
  obtain v4 v6 where v: "mik_section True (sc_ipv4 sc) = Ok v4" "mik_section False (sc_ipv6 sc) = Ok v6"
    "c = \<lparr>sc_ipv4 = v4, sc_ipv6 = v6, sc_legacy = sc_legacy sc\<rparr>"
    using assms by (auto simp: mik_projected_def)
  note f = mik_section_Ok [OF v(1)] mik_section_Ok [OF v(2)]
  show "mik_projected c = Ok c" "mik_projected (c\<lparr>sc_legacy := b\<rparr>) = Ok (c\<lparr>sc_legacy := b\<rparr>)"
    "mik_projected (sc\<lparr>sc_legacy := b\<rparr>) = Ok (c\<lparr>sc_legacy := b\<rparr>)" "sc_legacy c = sc_legacy sc"
    using v f(2,6) by (simp_all add: mik_projected_def)
  show "\<forall>v \<in> set (sc_ipv4 c). \<exists>e. mik_entry True v = Ok e" "\<forall>v \<in> set (sc_ipv6 c). \<exists>e. mik_entry False v = Ok e"
    using f(3,7) v(3) by simp_all
qed

text \<open>An entry is one word.\<close>

lemma entry_chars:
  assumes "mik_entry want4 v = Ok e"
  shows "v \<noteq> []" "CHR '' '' \<notin> set v" "LF \<notin> set v" "CHR 0x0D \<notin> set v"
proof -
  note f = mik_entry_Ok [OF assms]
  show "v \<noteq> []" by (rule f(3))
  have "list_all line_char v \<and> CHR '' '' \<notin> set v"
  proof (cases e)
    case (Inl p)
    then have pl: "plain_prefix p" and v: "v = prefix_string p"
      using f(1,5) by (simp_all add: canonical_prefix_def entry_text_def)
    have sp: "\<not> domain_space c" if "c \<in> set v" for c
      using prefix_string_chars [OF pl] that v plain_chars_not_space by blast
    have "domain_space CHR 0x0A" "domain_space CHR 0x0D" "domain_space CHR '' ''" by (simp_all add: domain_space_def)
    with sp show ?thesis by (auto simp: list_all_iff line_char_def)
  next
    case (Inr n)
    with f(1,5) have "normalize_domain v = Ok v" by (simp add: entry_text_def)
    from name_no_char [OF this] show ?thesis by simp
  qed
  then show "CHR '' '' \<notin> set v" "LF \<notin> set v" "CHR 0x0D \<notin> set v" using line_char_ends by auto
qed

lemma trim_space_ends: "s \<noteq> [] \<Longrightarrow> \<not> domain_space (hd s) \<Longrightarrow> \<not> domain_space (last s) \<Longrightarrow> trim_space s = s"
proof -
  assume a: "s \<noteq> []" "\<not> domain_space (hd s)" "\<not> domain_space (last s)"
  have "dropWhile domain_space s = s" using a by (cases s) auto
  moreover have "dropWhile domain_space (rev s) = rev s" using a by (cases s rule: rev_cases) auto
  ultimately show ?thesis by (simp add: trim_space_def)
qed

section \<open>What is rendered is scanned\<close>

definition mik_append :: "string \<Rightarrow> string list \<Rightarrow> script \<Rightarrow> script" where
  "mik_append sect vs sc =
     (if sect = section4 then sc\<lparr>sc_ipv4 := sc_ipv4 sc @ vs\<rparr> else sc\<lparr>sc_ipv6 := sc_ipv6 sc @ vs\<rparr>)"

lemma mik_append_add:
  "mik_append sect vs (if sect = section4 then mik_add4 v sc else mik_add6 v sc) = mik_append sect (v # vs) sc"
  by (simp add: mik_append_def mik_add4_def mik_add6_def)

lemma sections: "section4 \<noteq> section6" "section4 \<noteq> []" "section6 \<noteq> []"
  by (simp_all add: section4_def section6_def)

definition is_section :: "string \<Rightarrow> bool" where
  "is_section sect \<longleftrightarrow> sect = section4 \<or> sect = section6"

lemma list_for_section: "is_section sect \<Longrightarrow> list_for sect = ''routevane4'' \<or> list_for sect = ''routevane6''"
  by (simp add: list_for_def)

lemma add_line_scan:
  assumes "is_section sect" "v \<noteq> []" "CHR '' '' \<notin> set v" "length (add_line sect v) \<le> mik_max_line"
  shows "mik_body sect (add_line sect v # rest) sc =
    mik_body sect rest (if sect = section4 then mik_add4 v sc else mik_add6 v sc)"
proof -
  have ne: "add_line sect v \<noteq> []" "hd (add_line sect v) = CHR ''a''" by (simp_all add: add_line_def)
  have last: "last (add_line sect v) \<in> {CHR ''4'', CHR ''6''}"
    using list_for_section [OF assms(1)] by (auto simp: add_line_def)
  have t: "trim_space (add_line sect v) = add_line sect v"
    by (rule trim_space_ends) (use ne last in \<open>auto simp: domain_space_def\<close>)
  have k: "add_line sect v \<noteq> section4" "add_line sect v \<noteq> section6" "take 7 (add_line sect v) \<noteq> ''remove ''"
    "take 4 (add_line sect v) = ''add ''"
    by (simp_all add: add_line_def section4_def section6_def)
  have "cut_prefix ''add address='' (add_line sect v) = Some (v @ CHR '' '' # ''list='' @ list_for sect)"
    unfolding add_line_def by (subst cut_prefix_append) simp
  then have p: "parse_add (add_line sect v) (list_for sect) = Ok v"
    using assms(2,3) by (simp add: parse_add_def)
  have "sect \<noteq> []" using assms(1) sections by (auto simp: is_section_def)
  with ne t k p assms(4) show ?thesis by simp
qed

lemma add_lines_scan:
  assumes "is_section sect" "\<forall>v \<in> set vs. v \<noteq> [] \<and> CHR '' '' \<notin> set v \<and> length (add_line sect v) \<le> mik_max_line"
  shows "mik_body sect (map (add_line sect) vs @ rest) sc = mik_body sect rest (mik_append sect vs sc)"
  using assms(2)
proof (induction vs arbitrary: sc)
  case Nil
  then show ?case by (simp add: mik_append_def)
next
  case (Cons v vs)
  then show ?case using add_line_scan [OF assms(1)] by (simp add: mik_append_add)
qed

lemma removal_scan:
  assumes "is_section sect" "line = removal sect \<or> line = removal_static sect"
  shows "mik_body sect (line # rest) sc = mik_body sect rest sc"
proof -
  have ne: "line \<noteq> []" "hd line = CHR ''r''" "last line = CHR '']''" "take 7 line = ''remove ''"
    using assms(2) by (auto simp: removal_def removal_static_def)
  have t: "trim_space line = line"
    by (rule trim_space_ends) (use ne in \<open>auto simp: domain_space_def\<close>)
  have l: "length line \<le> mik_max_line"
    using assms(2) list_for_section [OF assms(1)] by (auto simp: removal_def removal_static_def mik_max_line_def)
  have "line \<noteq> section4" "line \<noteq> section6"
    using ne by (auto simp: section4_def section6_def)
  moreover have "sect \<noteq> []" using assms(1) sections by (auto simp: is_section_def)
  ultimately show ?thesis using ne(1,4) t l assms(2) by auto
qed

lemma section_line_scan:
  assumes "is_section sect" "cur = [] \<or> (cur = section4 \<and> sect = section6)" "rest \<noteq> []"
    "hd rest = removal sect \<or> hd rest = removal_static sect"
  shows "mik_body cur (sect # rest) sc = mik_body sect rest sc"
proof -
  have "trim_space sect = sect"
    by (rule trim_space_ends) (use assms(1) in \<open>auto simp: is_section_def section4_def section6_def domain_space_def\<close>)
  moreover have "sect \<noteq> []" "length sect \<le> mik_max_line" "cur \<noteq> sect" "\<not> (sect = section4 \<and> cur = section6)"
    using assms(1,2) sections by (auto simp: is_section_def section4_def section6_def mik_max_line_def)
  ultimately show ?thesis using assms(1,3,4) by (auto simp: is_section_def)
qed

lemma section_lines_scan:
  assumes "is_section sect" "cur = [] \<or> (cur = section4 \<and> sect = section6)"
    "\<forall>v \<in> set vs. v \<noteq> [] \<and> CHR '' '' \<notin> set v \<and> length (add_line sect v) \<le> mik_max_line"
  shows "mik_body cur (section_lines legacy sect vs @ rest) sc =
    mik_body (if legacy \<and> vs = [] then cur else sect) rest (mik_append sect vs sc)"
proof (cases "legacy \<and> vs = []")
  case True
  then show ?thesis by (simp add: section_lines_def mik_append_def)
next
  case False
  show ?thesis
    using False section_line_scan [OF assms(1,2)] removal_scan [OF assms(1)] add_lines_scan [OF assms(1,3)]
    by (auto simp: section_lines_def)
qed

lemma mik_render_Ok:
  assumes "mik_render sc = Ok out"
  obtains c where "mik_projected sc = Ok c" "mik_canonical sc = Ok c" "script_size c \<noteq> 0" "script_size c \<le> mik_max_lines"
    "\<forall>e \<in> set (sc_ipv4 c). length (add_line section4 e) \<le> mik_max_line"
    "\<forall>e \<in> set (sc_ipv6 c). length (add_line section6 e) \<le> mik_max_line"
    "out = unlines (mik_header # script_lines c)" "length out \<le> mik_max_bytes"
  using assms that by (auto simp: mik_render_def mik_canonical_def Let_def not_less split: if_splits)

definition fresh_script :: "script \<Rightarrow> script" where
  "fresh_script c = c\<lparr>sc_legacy := False\<rparr>"

lemma script_lines_plain:
  assumes "mik_projected sc = Ok c" "l \<in> set (mik_header # script_lines c)"
  shows "LF \<notin> set l \<and> CHR 0x0D \<notin> set l"
proof -
  note f = mik_projected_Ok(5,6) [OF assms(1)]
  have h: "LF \<notin> set mik_header \<and> CHR 0x0D \<notin> set mik_header" by (simp add: mik_header_def)
  have lf: "LF \<notin> set (list_for s) \<and> CHR 0x0D \<notin> set (list_for s)" for s by (simp add: list_for_def)
  have rm: "LF \<notin> set (removal s) \<and> CHR 0x0D \<notin> set (removal s)"
    "LF \<notin> set (removal_static s) \<and> CHR 0x0D \<notin> set (removal_static s)" for s
    using lf [of s] by (simp_all add: removal_def removal_static_def)
  have sc: "LF \<notin> set section4 \<and> CHR 0x0D \<notin> set section4" "LF \<notin> set section6 \<and> CHR 0x0D \<notin> set section6"
    by (simp_all add: section4_def section6_def)
  have ad: "LF \<notin> set (add_line s v) \<and> CHR 0x0D \<notin> set (add_line s v)" if "mik_entry b v = Ok e" for s v b e
    using lf [of s] entry_chars [OF that] by (simp add: add_line_def)
  from assms(2) consider "l = mik_header" | "l = section4 \<or> l = section6"
    | s where "l = removal s \<or> l = removal_static s"
    | v where "l = add_line section4 v" "v \<in> set (sc_ipv4 c)" | v where "l = add_line section6 v" "v \<in> set (sc_ipv6 c)"
    by (auto simp: script_lines_def section_lines_def split: if_splits)
  then show ?thesis
  proof cases
    case (4 v)
    with f ad show ?thesis by blast
  next
    case (5 v)
    with f ad show ?thesis by blast
  qed (use h sc rm in auto)
qed

lemma mik_scan_rendered:
  assumes "mik_render sc = Ok out" "mik_projected sc = Ok c"
  shows "mik_scan out = Ok (fresh_script c)"
proof -
  from assms(1) obtain c' where c': "mik_projected sc = Ok c'" "script_size c' \<noteq> 0" "script_size c' \<le> mik_max_lines"
    "\<forall>e \<in> set (sc_ipv4 c'). length (add_line section4 e) \<le> mik_max_line"
    "\<forall>e \<in> set (sc_ipv6 c'). length (add_line section6 e) \<le> mik_max_line"
    "out = unlines (mik_header # script_lines c')" "length out \<le> mik_max_bytes" by (rule mik_render_Ok)
  have cc: "c' = c" using c'(1) assms(2) by simp
  note c = c' [unfolded cc]
  note f = mik_projected_Ok(5,6) [OF assms(2)]
  have e: "\<forall>v \<in> set vs. v \<noteq> [] \<and> CHR '' '' \<notin> set v \<and> length (add_line sect v) \<le> mik_max_line"
    if src: "\<forall>v \<in> set vs. \<exists>e. mik_entry b v = Ok e"
      and len: "\<forall>v \<in> set vs. length (add_line sect v) \<le> mik_max_line" for vs b sect
  proof
    fix v assume v: "v \<in> set vs"
    with src obtain e where "mik_entry b v = Ok e" by blast
    from entry_chars(1,2) [OF this] len v
    show "v \<noteq> [] \<and> CHR '' '' \<notin> set v \<and> length (add_line sect v) \<le> mik_max_line" by simp
  qed
  note e4 = e [OF f(1) c(4)] and e6 = e [OF f(2) c(5)]
  have pl: "payload_lines mik_max_bytes out = Ok (mik_header # script_lines c)"
    unfolding c(6) by (rule payload_lines_unlines) (use script_lines_plain [OF assms(2)] c(6,7) in auto)
  have len: "length (script_lines c) \<le> mik_max_lines + 6"
    using c(3) by (auto simp: script_lines_def section_lines_def script_size_def)
  have s4: "is_section section4" and s6: "is_section section6" by (simp_all add: is_section_def)
  have "mik_body [] (script_lines c) empty_script =
      mik_body (if sc_legacy c \<and> sc_ipv4 c = [] then [] else section4)
        (section_lines (sc_legacy c) section6 (sc_ipv6 c) @ []) (mik_append section4 (sc_ipv4 c) empty_script)"
    unfolding script_lines_def using section_lines_scan [OF s4 _ e4, of "[]"] by simp
  also have "\<dots> = Ok (mik_append section6 (sc_ipv6 c) (mik_append section4 (sc_ipv4 c) empty_script))"
    using section_lines_scan [OF s6 _ e6, of "if sc_legacy c \<and> sc_ipv4 c = [] then [] else section4"
        "sc_legacy c" "[]"] by simp
  also have "mik_append section6 (sc_ipv6 c) (mik_append section4 (sc_ipv4 c) empty_script) = fresh_script c"
    using sections by (simp add: mik_append_def empty_script_def fresh_script_def)
  finally show ?thesis using pl len by (simp add: mik_scan_def)
qed

lemma mik_canonical_fresh:
  assumes "mik_projected sc = Ok c" "script_size c \<noteq> 0" "script_size c \<le> mik_max_lines"
  shows "mik_canonical (c\<lparr>sc_legacy := b\<rparr>) = Ok (c\<lparr>sc_legacy := b\<rparr>)"
  using mik_projected_Ok(2) [OF assms(1), of b] assms(2,3) by (simp add: mik_canonical_def script_size_def)

lemma mik_render_canonical:
  assumes "mik_render sc = Ok out" "mik_projected sc = Ok c"
  shows "mik_render (c\<lparr>sc_legacy := sc_legacy sc\<rparr>) = Ok out"
proof -
  have "mik_canonical sc = Ok c" "script_size c \<noteq> 0" "script_size c \<le> mik_max_lines"
    by (rule mik_render_Ok [OF assms(1)], use assms(2) in simp)+
  moreover have "c\<lparr>sc_legacy := sc_legacy sc\<rparr> = c" using mik_projected_Ok(4) [OF assms(2)] by (cases c) simp
  ultimately have "mik_canonical (c\<lparr>sc_legacy := sc_legacy sc\<rparr>) = mik_canonical sc"
    using mik_canonical_fresh [OF assms(2), of "sc_legacy sc"] by simp
  with assms(1) show ?thesis by (simp only: mik_render_def)
qed

lemma mik_parse_rendered:
  assumes "mik_render sc = Ok out" "mik_projected sc = Ok c"
  shows "mik_parse out = Ok (if mik_render (fresh_script c) = Ok out then fresh_script c else c\<lparr>sc_legacy := True\<rparr>)"
proof -
  have sz: "script_size c \<noteq> 0" "script_size c \<le> mik_max_lines"
    by (rule mik_render_Ok [OF assms(1)], use assms(2) in simp)+
  have c: "mik_canonical (fresh_script c) = Ok (fresh_script c)"
    unfolding fresh_script_def by (rule mik_canonical_fresh [OF assms(2) sz])
  have r: "mik_render (c\<lparr>sc_legacy := sc_legacy sc\<rparr>) = Ok out" by (rule mik_render_canonical [OF assms])
  have "mik_render (c\<lparr>sc_legacy := True\<rparr>) = Ok out" if "mik_render (fresh_script c) \<noteq> Ok out"
    using r that by (cases "sc_legacy sc") (auto simp: fresh_script_def)
  then show ?thesis
    using mik_scan_rendered [OF assms] c by (auto simp: mik_parse_def fresh_script_def)
qed

lemma mik_parse_accepted:
  assumes "mik_parse p = Ok c"
  shows "mik_render c = Ok p"
  using assms by (auto simp: mik_parse_def split: if_splits)

text \<open>
  \<open>Parse\<close> of the RouterOS format accepts exactly the scripts the renderer can produce, in the
  current form or in the published one-removal form, and never a mixture.
\<close>

theorem mik_parse_exact: "is_ok (mik_parse p) = (\<exists>sc. mik_render sc = Ok p)"
proof
  assume "is_ok (mik_parse p)"
  then show "\<exists>sc. mik_render sc = Ok p" using mik_parse_accepted unfolding is_ok_iff by blast
next
  assume "\<exists>sc. mik_render sc = Ok p"
  then obtain sc where sc: "mik_render sc = Ok p" ..
  then obtain c where "mik_projected sc = Ok c" by (rule mik_render_Ok)
  from mik_parse_rendered [OF sc this] show "is_ok (mik_parse p)" by simp
qed

section \<open>From the plan to the router\<close>

text \<open>What a rule contributes to the section of a family.\<close>

definition family_kind :: "bool \<Rightarrow> RuleKind \<Rightarrow> bool" where
  "family_kind want4 k \<longleftrightarrow> (if want4 then k = RuleIPv4 \<or> k = RulePrefix4 else k = RuleIPv6 \<or> k = RulePrefix6)"

definition rule_entries :: "bool \<Rightarrow> route_rule \<Rightarrow> string list" where
  "rule_entries want4 r =
     (if rr_kind r = RuleDomainExact then [rr_domain r]
      else if family_kind want4 (rr_kind r) then [prefix_string (rule_network r)] else [])"

lemma rule_entry_network:
  assumes "rule_wf r" "is_address_rule r"
  shows "kind_is_ip (rr_kind r) \<Longrightarrow> prefix_from (rr_addr r) (if rr_kind r = RuleIPv4 then 32 else 128) = rule_network r"
    "kind_is_prefix (rr_kind r) \<Longrightarrow> masked (rr_prefix r) = rule_network r"
    "is4 (pfx_addr (rule_network r)) \<longleftrightarrow> family_kind True (rr_kind r)"
proof -
  have v: "rule_valid r" using assms(1) by (simp add: rule_wf_def)
  show "prefix_from (rr_addr r) (if rr_kind r = RuleIPv4 then 32 else 128) = rule_network r"
    if "kind_is_ip (rr_kind r)"
    using that v by (cases "rr_kind r"; cases "rr_addr r")
      (auto simp: rule_network_def rule_valid_def kind_is_ip_def kind_is_prefix_def split: if_splits)
  show "masked (rr_prefix r) = rule_network r" if "kind_is_prefix (rr_kind r)"
    using that v by (cases "rr_kind r") (auto simp: rule_network_def rule_valid_def kind_is_prefix_def split: if_splits)
  have six: "is6 b \<Longrightarrow> \<not> is4 b" for b by (cases b) auto
  have wz: "is4 (without_zone b) = is4 b" for b by (cases b) auto
  show "is4 (pfx_addr (rule_network r)) \<longleftrightarrow> family_kind True (rr_kind r)"
    using assms(2) v six
    by (cases "rr_kind r") (auto simp: rule_network_def rule_valid_def kind_is_ip_def kind_is_prefix_def wz
        is_address_rule_def family_kind_def prefix_from_def split: if_splits)
qed

lemma mik_route_entries:
  assumes "mik_route sc r = Ok sc'" "rule_wf r"
  shows "sc_ipv4 sc' = sc_ipv4 sc @ rule_entries True r \<and> sc_ipv6 sc' = sc_ipv6 sc @ rule_entries False r \<and>
    sc_legacy sc' = sc_legacy sc \<and> (rr_kind r = RuleDomainExact \<or> is_address_rule r)"
proof -
  have n: "normalize_domain (rr_domain r) = Ok (rr_domain r)" if "rr_kind r = RuleDomainExact"
    using that assms(2) by (auto simp: rule_wf_def rule_valid_def split: if_splits)
  show ?thesis
  proof (cases "is_address_rule r")
    case True
    note e = rule_entry_network [OF assms(2) True]
    from True assms(1) e(1,2) show ?thesis
      by (cases "rr_kind r")
        (auto simp: mik_route_def mik_add4_def mik_add6_def rule_entries_def family_kind_def is_address_rule_def
          kind_is_ip_def kind_is_prefix_def split: if_splits)
  next
    case False
    with assms(1) n show ?thesis
      by (cases "rr_kind r")
        (auto simp: mik_route_def mik_add4_def mik_add6_def rule_entries_def is_address_rule_def kind_is_ip_def
          kind_is_prefix_def rule_value.simps normalize_domain_value_id split: if_splits)
  qed
qed

lemma mik_routes_entries:
  assumes "mik_routes sc rs = Ok sc'" "\<forall>r \<in> set rs. rule_wf r"
  shows "set (sc_ipv4 sc') = set (sc_ipv4 sc) \<union> (\<Union>r \<in> set rs. set (rule_entries True r)) \<and>
    set (sc_ipv6 sc') = set (sc_ipv6 sc) \<union> (\<Union>r \<in> set rs. set (rule_entries False r)) \<and>
    sc_legacy sc' = sc_legacy sc \<and> (\<forall>r \<in> set rs. rr_kind r = RuleDomainExact \<or> is_address_rule r)"
  using assms
proof (induction rs arbitrary: sc)
  case (Cons r rs)
  then obtain sc1 where s: "mik_route sc r = Ok sc1" "mik_routes sc1 rs = Ok sc'" by auto
  from mik_route_entries [OF s(1)] Cons.IH [OF s(2)] Cons.prems(2) show ?case by auto
qed simp

text \<open>The addresses of a section, read back from its entries.\<close>

definition section_addr :: "string list \<Rightarrow> addr \<Rightarrow> bool" where
  "section_addr vs a \<longleftrightarrow> (\<exists>v \<in> set vs. \<exists>p. ParsePrefix v = Ok p \<and> prefix_contains p a)"

lemma ParsePrefix_slash: "ParsePrefix v = Ok p \<Longrightarrow> CHR ''/'' \<in> set v"
  by (auto simp: ParsePrefix_def parse_prefix_def split_last_def split: if_splits option.splits)

lemma rule_entries_addr:
  assumes "rule_wf r" "rr_kind r = RuleDomainExact \<or> is_address_rule r"
  shows "rule_matches r (DAddr a) \<longleftrightarrow>
    (\<exists>v \<in> set (rule_entries (is4 a) r). \<exists>p. ParsePrefix v = Ok p \<and> prefix_contains p a)"
proof (cases "is_address_rule r")
  case False
  then have k: "rr_kind r = RuleDomainExact" using assms(2) by simp
  then have "normalize_domain (rr_domain r) = Ok (rr_domain r)"
    using assms(1) by (auto simp: rule_wf_def rule_valid_def split: if_splits)
  from name_no_char(1) [OF this] k ParsePrefix_slash show ?thesis
    by (auto simp: rule_entries_def kind_is_ip_def kind_is_prefix_def)
next
  case True
  note f = rule_network_facts [OF assms(1) True]
  have c: "ParsePrefix (prefix_string (rule_network r)) = Ok (rule_network r)"
    by (rule ParsePrefix_string) (simp add: canonical_prefix_def f)
  have nk: "rr_kind r \<noteq> RuleDomainExact" using True by (auto simp: is_address_rule_def kind_is_ip_def kind_is_prefix_def)
  have fam: "is4 (pfx_addr (rule_network r)) = is4 a" if "prefix_contains (rule_network r) a"
    using that by (cases a; cases "pfx_addr (rule_network r)") (auto simp: prefix_contains_def)
  have both: "family_kind False (rr_kind r) = (\<not> family_kind True (rr_kind r))"
    using True by (auto simp: family_kind_def is_address_rule_def kind_is_ip_def kind_is_prefix_def)
  show ?thesis
    using f(3) c nk fam both rule_entry_network(3) [OF assms(1) True]
    by (cases "is4 a") (auto simp: rule_entries_def)
qed

lemma rule_entries_name:
  assumes "\<forall>r \<in> rs. rule_wf r \<and> (rr_kind r = RuleDomainExact \<or> is_address_rule r)"
  shows "(\<exists>r \<in> rs. rule_matches r (DName n)) \<longleftrightarrow>
    (\<exists>r \<in> rs. n \<in> set (rule_entries True r)) \<and> (\<exists>r \<in> rs. n \<in> set (rule_entries False r))"
proof -
  have m: "rule_matches r (DName n) \<longleftrightarrow> rr_kind r = RuleDomainExact \<and> n = rr_domain r"
    if "rr_kind r = RuleDomainExact \<or> is_address_rule r" for r
    using that by (cases "rr_kind r") (auto simp: is_address_rule_def kind_is_ip_def kind_is_prefix_def)
  have e: "n \<in> set (rule_entries b r) \<longleftrightarrow> rr_kind r = RuleDomainExact \<and> n = rr_domain r \<or>
      is_address_rule r \<and> is4 (pfx_addr (rule_network r)) = b \<and> n = prefix_string (rule_network r)"
    if "rule_wf r" "rr_kind r = RuleDomainExact \<or> is_address_rule r" for r b
  proof -
    have "family_kind b (rr_kind r) \<longleftrightarrow> is_address_rule r \<and> is4 (pfx_addr (rule_network r)) = b"
      using rule_entry_network(3) [OF that(1)]
      by (cases "is_address_rule r")
        (auto simp: family_kind_def is_address_rule_def kind_is_ip_def kind_is_prefix_def)
    then show ?thesis
      using that(2) by (auto simp: rule_entries_def is_address_rule_def kind_is_ip_def kind_is_prefix_def)
  qed
  have clash: "False" if "r \<in> rs" "s \<in> rs" "is_address_rule r" "is_address_rule s"
    "is4 (pfx_addr (rule_network r))" "\<not> is4 (pfx_addr (rule_network s))"
    "prefix_string (rule_network r) = prefix_string (rule_network s)" for r s
  proof -
    have "plain_prefix (rule_network r)" "plain_prefix (rule_network s)"
      using rule_network_facts(1) assms that(1-4) by blast+
    with that(5-7) show False using prefix_string_inj by metis
  qed
  show ?thesis
  proof
    assume "\<exists>r \<in> rs. rule_matches r (DName n)"
    then obtain r where "r \<in> rs" "rule_matches r (DName n)" by blast
    with m e assms show "(\<exists>r \<in> rs. n \<in> set (rule_entries True r)) \<and> (\<exists>r \<in> rs. n \<in> set (rule_entries False r))"
      by meson
  next
    assume "(\<exists>r \<in> rs. n \<in> set (rule_entries True r)) \<and> (\<exists>r \<in> rs. n \<in> set (rule_entries False r))"
    then obtain r s where rs: "r \<in> rs" "n \<in> set (rule_entries True r)" "s \<in> rs" "n \<in> set (rule_entries False s)" by blast
    with assms have w: "rule_wf r" "rule_wf s" "rr_kind r = RuleDomainExact \<or> is_address_rule r"
      "rr_kind s = RuleDomainExact \<or> is_address_rule s" by blast+
    from rs(2) [unfolded e [OF w(1,3)]] rs(4) [unfolded e [OF w(2,4)]] clash [OF rs(1,3)] m rs(1,3) w(3,4)
    show "\<exists>r \<in> rs. rule_matches r (DName n)" by metis
  qed
qed

text \<open>
  C35. The RouterOS script carries the plan. If a plan renders, the script parses to the current form,
  the addresses its section of a family denotes are exactly the addresses of that family the plan
  routes, a name is in both sections if and only if a rule names it exactly, and the projected count
  is the number of entries.
\<close>

theorem mik_file_routes_plan:
  assumes "mik_Render plan = Ok out" "\<forall>r \<in> set (pl_rules plan). rule_wf r"
  shows "\<exists>c. mik_parse out = Ok c \<and> \<not> sc_legacy c \<and> mik_count plan = Ok (script_size c) \<and>
    (\<forall>a. (\<exists>r \<in> set (pl_rules plan). rule_matches r (DAddr a)) =
      section_addr (if is4 a then sc_ipv4 c else sc_ipv6 c) a) \<and>
    (\<forall>n. (\<exists>r \<in> set (pl_rules plan). rule_matches r (DName n)) = (n \<in> set (sc_ipv4 c) \<and> n \<in> set (sc_ipv6 c)))"
proof -
  obtain sc where sc: "mik_routes empty_script (pl_rules plan) = Ok sc" "mik_render sc = Ok out"
    using assms(1) by (auto simp: mik_Render_def mik_project_def)
  obtain c where c: "mik_projected sc = Ok c" using sc(2) by (rule mik_render_Ok)
  note e = mik_routes_entries [OF sc(1) assms(2)]
  have leg: "\<not> sc_legacy c" using e mik_projected_Ok(4) [OF c] by (simp add: empty_script_def)
  have fr: "fresh_script c = c" using leg by (cases c) (simp add: fresh_script_def)
  have "c\<lparr>sc_legacy := sc_legacy sc\<rparr> = c" using mik_projected_Ok(4) [OF c] by (cases c) simp
  then have "mik_render (fresh_script c) = Ok out" using mik_render_canonical [OF sc(2) c] fr by simp
  then have p: "mik_parse out = Ok c" using mik_parse_rendered [OF sc(2) c] fr by simp
  have cnt: "mik_count plan = Ok (script_size c)" using sc(1) c by (simp add: mik_count_def mik_project_def)
  have s: "set (sc_ipv4 c) = (\<Union>r \<in> set (pl_rules plan). set (rule_entries True r))"
    "set (sc_ipv6 c) = (\<Union>r \<in> set (pl_rules plan). set (rule_entries False r))"
    using c e mik_section_Ok(1) by (auto simp: mik_projected_def empty_script_def)
  have k: "\<forall>r \<in> set (pl_rules plan). rule_wf r \<and> (rr_kind r = RuleDomainExact \<or> is_address_rule r)"
    using e assms(2) by blast
  have "(\<exists>r \<in> set (pl_rules plan). rule_matches r (DAddr a)) =
      section_addr (if is4 a then sc_ipv4 c else sc_ipv6 c) a" for a
  proof -
    have "(\<exists>r \<in> set (pl_rules plan). rule_matches r (DAddr a)) \<longleftrightarrow>
       (\<exists>r \<in> set (pl_rules plan). \<exists>v \<in> set (rule_entries (is4 a) r). \<exists>p. ParsePrefix v = Ok p \<and> prefix_contains p a)"
      using k rule_entries_addr by (metis (no_types, lifting))
    then show ?thesis using s by (cases "is4 a") (auto simp: section_addr_def)
  qed
  moreover have "(\<exists>r \<in> set (pl_rules plan). rule_matches r (DName n)) = (n \<in> set (sc_ipv4 c) \<and> n \<in> set (sc_ipv6 c))" for n
    using rule_entries_name [OF k] s by simp
  ultimately show ?thesis using p leg cnt by blast
qed

lemma sample_mik_entries: "mik_section b [''example.com''] = Ok [''example.com'']"
proof -
  have "parse_addr ''example.com'' = None"
  proof (rule ccontr)
    assume "parse_addr ''example.com'' \<noteq> None"
    then obtain a where "parse_addr ''example.com'' = Some a" by auto
    from parse_addr_chars [OF this] show False by (auto simp: is_hex_def is_dec_def char_le_iff)
  qed
  moreover have "trim_space ''example.com'' = ''example.com''"
    by (rule trim_space_id) (simp add: domain_space_def)
  ultimately have "mik_entry b ''example.com'' = Ok (Inr ''example.com'')"
    using example_name by (simp add: mik_entry_def)
  then show ?thesis
    by (simp add: mik_section_def ordered_values_def collect_def name_values_def go_set_def)
qed

lemma sample_mik: "\<exists>out. mik_Render (sample_name_plan RuleDomainExact) = Ok out"
proof -
  let ?sc = "\<lparr>sc_ipv4 = [''example.com''], sc_ipv6 = [''example.com''], sc_legacy = False\<rparr>"
  have p: "mik_project (sample_name_plan RuleDomainExact) = Ok ?sc"
    using sample_name_rule(2) normalize_domain_value_id [OF example_name]
    by (simp add: mik_project_def sample_name_plan_def mik_route_def)
      (simp add: mk_rule_def rule_value.simps mik_add4_def mik_add6_def empty_script_def)
  have c: "mik_canonical ?sc = Ok ?sc"
    by (simp add: mik_canonical_def mik_projected_def sample_mik_entries script_size_def mik_max_lines_def)
  have "length (add_line section4 ''example.com'') \<le> mik_max_line" "length (add_line section6 ''example.com'') \<le> mik_max_line"
    by (simp_all add: add_line_def list_for_def mik_max_line_def)
  moreover have "length (unlines (mik_header # script_lines ?sc)) \<le> mik_max_bytes"
    by (simp add: unlines_def script_lines_def section_lines_def mik_header_def section4_def section6_def
        removal_def removal_static_def add_line_def list_for_def mik_max_bytes_def)
  ultimately show ?thesis by (simp add: mik_Render_def p mik_render_def c)
qed

theorem mik_file_routes_plan_witness:
  "\<exists>out c. mik_Render (sample_name_plan RuleDomainExact) = Ok out \<and> mik_parse out = Ok c \<and>
     ''example.com'' \<in> set (sc_ipv4 c) \<and> ''example.com'' \<in> set (sc_ipv6 c)"
proof -
  obtain out where o: "mik_Render (sample_name_plan RuleDomainExact) = Ok out" using sample_mik by blast
  have w: "\<forall>r \<in> set (pl_rules (sample_name_plan RuleDomainExact)). rule_wf r"
    using sample_name_rule(2) by (simp add: sample_name_plan_def rule_wf_def) (simp add: mk_rule_def)
  have "\<exists>r \<in> set (pl_rules (sample_name_plan RuleDomainExact)). rule_matches r (DName ''example.com'')"
    by (simp add: sample_name_plan_def mk_rule_def)
  with mik_file_routes_plan [OF o w] o show ?thesis by blast
qed

end
