(* ===== verification/GoUtf8.thy ===== *)
theory GoUtf8
  imports GoText
begin

text \<open>
  \<open>unicode/utf8\<close> and the white space of \<open>unicode\<close> on byte strings: a string is cut into the encodings of
  its runes, an invalid byte alone standing for U+FFFD.
\<close>

text \<open>The width of the encoding at the head of a string, 0 if there is no valid one.\<close>

fun seq_width :: "nat \<Rightarrow> nat list \<Rightarrow> nat" where
  "seq_width b r =
     (if b < 128 then 1
      else if 194 \<le> b \<and> b \<le> 223 then (case r of c1 # _ \<Rightarrow> if cont c1 then 2 else 0 | _ \<Rightarrow> 0)
      else if 224 \<le> b \<and> b \<le> 239 then
        (case r of c1 # c2 # _ \<Rightarrow>
           if cont c1 \<and> (b = 224 \<longrightarrow> 160 \<le> c1) \<and> (b = 237 \<longrightarrow> c1 \<le> 159) \<and> cont c2 then 3 else 0
         | _ \<Rightarrow> 0)
      else if 240 \<le> b \<and> b \<le> 244 then
        (case r of c1 # c2 # c3 # _ \<Rightarrow>
           if cont c1 \<and> (b = 240 \<longrightarrow> 144 \<le> c1) \<and> (b = 244 \<longrightarrow> c1 \<le> 143) \<and> cont c2 \<and> cont c3 then 4 else 0
         | _ \<Rightarrow> 0)
      else 0)"

declare seq_width.simps [simp del]

fun rune_width :: "string \<Rightarrow> nat" where
  "rune_width [] = 0"
| "rune_width (c # cs) = seq_width (byte c) (map byte (take 3 cs))"

function chunks :: "string \<Rightarrow> string list" where
  "chunks s = (if s = [] then [] else let n = max 1 (rune_width s) in take n s # chunks (drop n s))"
  by auto

termination chunks
  by (relation "measure length") auto

declare chunks.simps [simp del]

definition valid_utf8 :: "string \<Rightarrow> bool" where
  "valid_utf8 s \<longleftrightarrow> list_all (\<lambda>c. rune_width c \<noteq> 0) (chunks s)"

definition chunk_rune :: "string \<Rightarrow> nat" where
  "chunk_rune s =
     (case map byte s of
        [b] \<Rightarrow> if b < 128 then b else 65533
      | [b, c1] \<Rightarrow> (b - 192) * 64 + (c1 - 128)
      | [b, c1, c2] \<Rightarrow> ((b - 224) * 64 + (c1 - 128)) * 64 + (c2 - 128)
      | [b, c1, c2, c3] \<Rightarrow> (((b - 240) * 64 + (c1 - 128)) * 64 + (c2 - 128)) * 64 + (c3 - 128)
      | _ \<Rightarrow> 65533)"

definition rune_codes :: "string \<Rightarrow> nat list" where
  "rune_codes s = map chunk_rune (chunks s)"

definition rune_space :: "nat \<Rightarrow> bool" where
  "rune_space r \<longleftrightarrow> r \<in> {9, 10, 11, 12, 13, 32, 0x85, 0xA0, 0x1680, 0x2028, 0x2029, 0x202F, 0x205F, 0x3000} \<or>
     (0x2000 \<le> r \<and> r \<le> 0x200A)"

text \<open>\<open>strings.Fields\<close>.\<close>

fun string_fields_from :: "string \<Rightarrow> string list \<Rightarrow> string list" where
  "string_fields_from cur [] = (if cur = [] then [] else [cur])"
| "string_fields_from cur (c # cs) =
     (if rune_space (chunk_rune c) then (if cur = [] then string_fields_from [] cs else cur # string_fields_from [] cs)
      else string_fields_from (cur @ c) cs)"

definition string_fields :: "string \<Rightarrow> string list" where
  "string_fields s = string_fields_from [] (chunks s)"

text \<open>The size \<open>utf8.DecodeLastRuneInString\<close> reports.\<close>

definition rune_start :: "char \<Rightarrow> bool" where
  "rune_start c \<longleftrightarrow> \<not> cont (byte c)"

definition last_rune_size :: "string \<Rightarrow> nat" where
  "last_rune_size s =
     (if s = [] then 0
      else if byte (last s) < 128 then 1
      else let m = length (takeWhile (\<lambda>c. \<not> rune_start c) (take 3 (rev (butlast s))));
               tail = drop (length s - 2 - m) s
           in if rune_width tail = length tail then length tail else 1)"

lemma last_rune_size_pos: "s \<noteq> [] \<Longrightarrow> 1 \<le> last_rune_size s"
proof -
  assume ne: "s \<noteq> []"
  let ?m = "length (takeWhile (\<lambda>c. \<not> rune_start c) (take 3 (rev (butlast s))))"
  have "1 \<le> length (drop (length s - 2 - ?m) s)" using ne by (cases s) auto
  then show ?thesis by (auto simp: last_rune_size_def Let_def)
qed

section \<open>Valid strings\<close>

lemma seq_width_le: "seq_width b r \<le> 4 \<and> seq_width b r \<le> Suc (length r)"
  by (auto simp: seq_width.simps split: list.splits)

lemma rune_width_le: "rune_width s \<le> 4" "rune_width s \<le> length s"
proof -
  show "rune_width s \<le> 4" using seq_width_le by (cases s) auto
  show "rune_width s \<le> length s"
  proof (cases s)
    case (Cons c cs)
    then show ?thesis using seq_width_le [of "byte c" "map byte (take 3 cs)"] by (auto simp: min_def split: if_splits)
  qed simp
qed

lemma seq_width_more: "seq_width b r \<noteq> 0 \<Longrightarrow> seq_width b (r @ q) = seq_width b r"
  by (auto simp: seq_width.simps split: list.splits if_splits)

lemma seq_width_exact: "seq_width b r = n \<Longrightarrow> n \<noteq> 0 \<Longrightarrow> seq_width b (take (n - 1) r) = n"
  by (auto simp: seq_width.simps split: list.splits if_splits)

lemma rune_width_more:
  assumes "rune_width s \<noteq> 0"
  shows "rune_width (s @ t) = rune_width s"
proof -
  obtain c cs where s: "s = c # cs" using assms by (cases s) auto
  have "take 3 (cs @ t) = take 3 cs @ take (3 - length cs) t" by simp
  with assms s seq_width_more [of "byte c" "map byte (take 3 cs)" "map byte (take (3 - length cs) t)"]
  show ?thesis by simp
qed

lemma rune_width_take:
  assumes "rune_width s = n" "n \<noteq> 0"
  shows "rune_width (take n s) = n"
proof -
  obtain c cs where s: "s = c # cs" using assms by (cases s) auto
  obtain k where k: "n = Suc k" using assms(2) by (cases n) auto
  have "k \<le> 3" using rune_width_le(1) [of s] assms(1) k by simp
  then have "map byte (take 3 (take k cs)) = take k (map byte (take 3 cs))"
    by (simp add: take_map min_def)
  with seq_width_exact [of "byte c" "map byte (take 3 cs)" n] assms s k show ?thesis by simp
qed

lemma chunks_Nil [simp]: "chunks [] = []"
  by (subst chunks.simps) simp

lemma chunks_step: "rune_width s \<noteq> 0 \<Longrightarrow> chunks s = take (rune_width s) s # chunks (drop (rune_width s) s)"
  by (subst chunks.simps) (auto simp: max_def Let_def)

lemma chunks_bad: "s \<noteq> [] \<Longrightarrow> rune_width s = 0 \<Longrightarrow> chunks s = [hd s] # chunks (tl s)"
  by (subst chunks.simps) (cases s, auto)

lemma valid_utf8_Nil [simp]: "valid_utf8 []"
  by (simp add: valid_utf8_def)

lemma valid_utf8_step:
  assumes "s \<noteq> []"
  shows "valid_utf8 s \<longleftrightarrow> rune_width s \<noteq> 0 \<and> valid_utf8 (drop (rune_width s) s)"
proof (cases "rune_width s = 0")
  case True
  have "rune_width [hd s] = 0"
  proof (rule ccontr)
    assume n: "rune_width [hd s] \<noteq> 0"
    have "s = [hd s] @ tl s" using assms by simp
    with rune_width_more [OF n, of "tl s"] n True show False by metis
  qed
  with True assms show ?thesis by (simp add: valid_utf8_def chunks_bad)
next
  case False
  then show ?thesis
    using rune_width_take [OF refl False] by (simp add: valid_utf8_def chunks_step)
qed

lemma valid_utf8_append: "valid_utf8 s \<Longrightarrow> valid_utf8 t \<Longrightarrow> valid_utf8 (s @ t)"
proof (induction "length s" arbitrary: s rule: less_induct)
  case less
  show ?case
  proof (cases "s = []")
    case False
    let ?n = "rune_width s"
    have n: "?n \<noteq> 0" "valid_utf8 (drop ?n s)" using less.prems(1) False by (simp_all add: valid_utf8_step)
    have "valid_utf8 (drop ?n s @ t)" using less.hyps [of "drop ?n s"] n less.prems(2) False by simp
    moreover have "drop ?n (s @ t) = drop ?n s @ t" using rune_width_le(2) [of s] by simp
    ultimately show ?thesis
      using False n(1) rune_width_more [OF n(1), of t] by (simp add: valid_utf8_step [of "s @ t"])
  qed (use less.prems in simp)
qed

text \<open>A valid string ends in the encoding of one rune.\<close>

lemma valid_utf8_last:
  assumes "valid_utf8 s" "s \<noteq> []"
  shows "\<exists>p q. s = p @ q \<and> valid_utf8 p \<and> q \<noteq> [] \<and> rune_width q = length q"
  using assms
proof (induction "length s" arbitrary: s rule: less_induct)
  case less
  let ?n = "rune_width s"
  have n: "?n \<noteq> 0" "valid_utf8 (drop ?n s)" using less.prems by (simp_all add: valid_utf8_step)
  have w: "rune_width (take ?n s) = ?n" by (rule rune_width_take [OF refl n(1)])
  have len: "length (take ?n s) = ?n" using rune_width_le(2) [of s] by simp
  show ?case
  proof (cases "drop ?n s = []")
    case True
    then have "s = take ?n s" by simp
    with w len n(1) less.prems show ?thesis
      by (intro exI [of _ "[]"] exI [of _ s]) simp
  next
    case False
    from less.hyps [OF _ n(2) False] n(1) less.prems(2) obtain p q where
      pq: "drop ?n s = p @ q" "valid_utf8 p" "q \<noteq> []" "rune_width q = length q" by auto
    have "valid_utf8 (take ?n s)" using w n(1) len by (subst valid_utf8_step) auto
    then have "valid_utf8 (take ?n s @ p)" using pq(2) by (rule valid_utf8_append)
    moreover have "s = (take ?n s @ p) @ q" using pq(1) append_take_drop_id [of ?n s] by simp
    ultimately show ?thesis using pq(3,4) by blast
  qed
qed

lemma seq_width_tail:
  "seq_width b r = Suc (length r) \<Longrightarrow> (128 \<le> b \<longrightarrow> r \<noteq> [] \<and> \<not> cont b) \<and> (\<forall>x \<in> set r. cont x) \<and> length r \<le> 3"
  by (auto simp: seq_width.simps cont_def split: list.splits if_splits)

lemma rune_tail:
  assumes "rune_width (c # cs) = Suc (length cs)"
  shows "\<forall>x \<in> set cs. \<not> rune_start x" "length cs \<le> 3" "128 \<le> byte c \<longrightarrow> cs \<noteq> [] \<and> rune_start c"
proof -
  have "length cs \<le> 3" using rune_width_le(1) [of "c # cs"] assms by simp
  then have "seq_width (byte c) (map byte cs) = Suc (length (map byte cs))" using assms by simp
  from seq_width_tail [OF this] show "\<forall>x \<in> set cs. \<not> rune_start x" "length cs \<le> 3"
    "128 \<le> byte c \<longrightarrow> cs \<noteq> [] \<and> rune_start c" by (auto simp: rune_start_def)
qed

lemma last_rune_size_valid:
  assumes "s = p @ q" "q \<noteq> []" "rune_width q = length q"
  shows "last_rune_size s = length q"
proof -
  obtain c cs where q: "q = c # cs" using assms(2) by (cases q) auto
  note t = rune_tail [OF assms(3) [unfolded q length_Cons]]
  show ?thesis
  proof (cases "cs = []")
    case True
    with t(3) have "byte c < 128" by (auto simp: not_less)
    then show ?thesis by (simp add: last_rune_size_def assms(1) q True)
  next
    case False
    then obtain ds d where cs: "cs = ds @ [d]" by (cases cs rule: rev_cases) auto
    have hi: "\<not> byte (last s) < 128"
      using t(1) by (simp add: assms(1) q cs rune_start_def cont_def)
    have c: "rune_start c"
    proof -
      have "128 \<le> byte c"
      proof (rule ccontr)
        assume "\<not> 128 \<le> byte c"
        then have "rune_width (c # cs) = 1" by (simp add: seq_width.simps)
        with assms(3) q False show False by simp
      qed
      with t(3) show ?thesis by simp
    qed
    have "rev (butlast s) = rev ds @ c # rev p" by (simp add: assms(1) q cs butlast_append)
    moreover have "length ds \<le> 2" using t(2) cs by simp
    then have "take 3 (rev ds @ c # rev p) = rev ds @ c # take (2 - length ds) (rev p)"
      by (cases ds; cases "tl ds"; cases "tl (tl ds)") (auto simp: numeral_eq_Suc)
    moreover have "takeWhile (\<lambda>c. \<not> rune_start c) (rev ds @ c # take (2 - length ds) (rev p)) = rev ds"
      using t(1) cs c by (subst takeWhile_append2) auto
    ultimately have m: "length (takeWhile (\<lambda>c. \<not> rune_start c) (take 3 (rev (butlast s)))) = length ds" by simp
    have "drop (length s - 2 - length ds) s = q" by (simp add: assms(1) q cs)
    then have "last_rune_size s = (if rune_width q = length q then length q else 1)"
      using m hi assms(1,2) unfolding last_rune_size_def Let_def by simp
    with assms(3) show ?thesis by simp
  qed
qed

lemma drop_last_rune:
  assumes "valid_utf8 s" "s \<noteq> []"
  shows "1 \<le> last_rune_size s" "last_rune_size s \<le> length s" "valid_utf8 (take (length s - last_rune_size s) s)"
proof -
  obtain p q where pq: "s = p @ q" "valid_utf8 p" "q \<noteq> []" "rune_width q = length q"
    using valid_utf8_last [OF assms] by blast
  note l = last_rune_size_valid [OF pq(1,3,4)]
  show "1 \<le> last_rune_size s" "last_rune_size s \<le> length s" "valid_utf8 (take (length s - last_rune_size s) s)"
    using pq l by (simp_all add: Suc_leI)
qed

lemma valid_utf8_ascii: "list_all (\<lambda>c. byte c < 128) s \<Longrightarrow> valid_utf8 s"
proof (induction s)
  case (Cons c s)
  then have "rune_width (c # s) = 1" by (simp add: seq_width.simps)
  with Cons show ?case by (simp add: valid_utf8_step)
qed simp

lemma valid_utf8_Cons_ascii: "byte c < 128 \<Longrightarrow> valid_utf8 (c # s) \<longleftrightarrow> valid_utf8 s"
  by (simp add: valid_utf8_step seq_width.simps)

lemma valid_utf8_snoc_ascii:
  assumes "valid_utf8 (s @ [c])" "byte c < 128"
  shows "valid_utf8 s"
proof -
  have "last_rune_size (s @ [c]) = 1" using assms(2) by (simp add: last_rune_size_def)
  with drop_last_rune(3) [OF assms(1)] show ?thesis by simp
qed

section \<open>Control characters\<close>

definition control_byte :: "char \<Rightarrow> bool" where
  "control_byte c \<longleftrightarrow> byte c < 32 \<or> byte c = 127"

definition control_rune :: "nat \<Rightarrow> bool" where
  "control_rune r \<longleftrightarrow> r < 32 \<or> r = 127"

lemma concat_chunks [simp]: "concat (chunks s) = s"
proof (induction s rule: chunks.induct)
  case (1 s)
  then show ?case by (cases "s = []") (simp_all add: chunks.simps [of s] Let_def)
qed

lemma control_chunk2:
  "seq_width a [b] = 2 \<Longrightarrow> \<not> control_rune ((a - 192) * 64 + (b - 128)) \<and> 127 < a \<and> 127 < b"
  by (auto simp: seq_width.simps cont_def control_rune_def split: if_splits)

lemma control_chunk3:
  assumes "seq_width a [b, c] = 3"
  shows "\<not> control_rune (((a - 224) * 64 + (b - 128)) * 64 + (c - 128)) \<and> 127 < a \<and> 127 < b \<and> 127 < c"
proof -
  from assms have *: "224 \<le> a" "cont b" "cont c" "a = 224 \<longrightarrow> 160 \<le> b" 
    by (auto simp: seq_width.simps split: if_splits)
  then have "32 \<le> (a - 224) * 64 + (b - 128)" by (cases "a = 224") (auto simp: cont_def)
  with * show ?thesis by (auto simp: control_rune_def cont_def)
qed

lemma control_chunk4:
  assumes "seq_width a [b, c, d] = 4"
  shows "\<not> control_rune ((((a - 240) * 64 + (b - 128)) * 64 + (c - 128)) * 64 + (d - 128)) \<and> 127 < a \<and> 127 < b \<and> 127 < c \<and> 127 < d"
proof -
  from assms have *: "240 \<le> a" "cont b" "cont c" "cont d" "a = 240 \<longrightarrow> 144 \<le> b" 
    by (auto simp: seq_width.simps split: if_splits)
  then have "16 \<le> (a - 240) * 64 + (b - 128)" by (cases "a = 240") (auto simp: cont_def)
  then have "16 * 64 \<le> ((a - 240) * 64 + (b - 128)) * 64 + (c - 128)"
    by (rule order_trans [OF mult_le_mono1 le_add1])
  then have "16 * 64 * 64 \<le> (((a - 240) * 64 + (b - 128)) * 64 + (c - 128)) * 64 + (d - 128)"
    by (rule order_trans [OF mult_le_mono1 le_add1])
  with * show ?thesis by (auto simp: control_rune_def cont_def)
qed

lemma control_chunk:
  assumes "rune_width c = length c \<or> (length c = 1 \<and> 128 \<le> byte (hd c))" "c \<noteq> []"
  shows "control_rune (chunk_rune c) \<longleftrightarrow> (\<exists>x \<in> set c. control_byte x)"
proof -
  obtain x xs where c: "c = x # xs" using assms(2) by (cases c) auto
  have "length xs \<le> 3" using assms(1) rune_width_le(1) [of c] c by auto
  then consider "xs = []" | y where "xs = [y]" | y z where "xs = [y, z]" | y z w where "xs = [y, z, w]"
    by (cases xs; cases "tl xs"; cases "tl (tl xs)"; cases "tl (tl (tl xs))") auto
  then show ?thesis
  proof cases
    case 1 then show ?thesis using c by (simp add: chunk_rune_def control_rune_def control_byte_def)
  next
    case 2
    with assms c have "seq_width (byte x) [byte y] = 2" by simp
    from control_chunk2 [OF this] 2 c show ?thesis by (simp add: chunk_rune_def control_byte_def del: Nat.add_diff_assoc Nat.add_diff_assoc2)
  next
    case 3
    with assms c have "seq_width (byte x) [byte y, byte z] = 3" by simp
    from control_chunk3 [OF this] 3 c show ?thesis by (simp add: chunk_rune_def control_byte_def del: Nat.add_diff_assoc Nat.add_diff_assoc2)
  next
    case 4
    with assms c have "seq_width (byte x) [byte y, byte z, byte w] = 4" by (simp add: numeral_eq_Suc)
    from control_chunk4 [OF this] 4 c show ?thesis by (simp add: chunk_rune_def control_byte_def del: Nat.add_diff_assoc Nat.add_diff_assoc2)
  qed
qed

lemma chunks_shape: "c \<in> set (chunks s) \<Longrightarrow> c \<noteq> [] \<and> (rune_width c = length c \<or> (length c = 1 \<and> 128 \<le> byte (hd c)))"
proof (induction s rule: chunks.induct)
  case (1 s)
  have s: "s \<noteq> []" using 1 by auto
  consider "c = take (max 1 (rune_width s)) s" | "c \<in> set (chunks (drop (max 1 (rune_width s)) s))"
    using 1(2) s by (subst (asm) chunks.simps) (auto simp: Let_def)
  then show ?case
  proof cases
    case 1
    show ?thesis
    proof (cases "rune_width s = 0")
      case True
      then have "c = [hd s]" using 1 s by (cases s) auto
      moreover have "128 \<le> byte (hd s)" using True s by (cases s) (auto simp: seq_width.simps split: if_splits)
      ultimately show ?thesis by simp
    next
      case False
      then show ?thesis using 1 s rune_width_take [OF refl False] rune_width_le(2) [of s] by (simp add: max_def min_def)
    qed
  qed (use 1(1) s in blast)
qed

lemma control_runes: "(\<exists>r \<in> set (rune_codes s). control_rune r) \<longleftrightarrow> (\<exists>c \<in> set s. control_byte c)"
proof -
  have "(\<exists>r \<in> set (rune_codes s). control_rune r) \<longleftrightarrow> (\<exists>k \<in> set (chunks s). \<exists>c \<in> set k. control_byte c)"
    using chunks_shape control_chunk by (auto simp: rune_codes_def)
  also have "\<dots> \<longleftrightarrow> (\<exists>c \<in> set (concat (chunks s)). control_byte c)" by (simp only: set_concat) blast
  finally show ?thesis by simp
qed

end
