(* ===== verification/ManagedRoutes.thy ===== *)
theory ManagedRoutes
  imports GoUtf8 Documents
begin

text \<open>
  \<open>internal/application/managed_routes.go\<close>: the ledger of the routes Routevane owns on a device, the
  reconciliation of an output's desired routes with it and with the observed routes, and the check of
  the result. Maps keyed by prefix are lists of distinct prefixes with their values.
\<close>

datatype managed_error =
    ErrScope | ErrRoute | ErrDuplicateRoute | ErrClaim | ErrClaimWithoutRoute | ErrDuplicateClaim
  | ErrRouteWithoutClaim | ErrForeignDescription | ErrDescriptionMismatch | ErrOutput | ErrDesired | ErrCurrent
  | ErrNotMatching "prefix list" "prefix list" "prefix list"

record route_scope =
  scope_endpoint :: string
  scope_target :: string
  scope_interface :: string

record route_spec =
  sp_prefix :: prefix
  sp_description :: string
  sp_labels :: "string list"

record managed_route =
  mr_prefix :: prefix
  mr_description :: string
  mr_created :: bool

record route_claim =
  cl_output :: string
  cl_prefix :: prefix
  cl_description :: string
  cl_labels :: "string list"

record ownership =
  ow_scope :: route_scope
  ow_routes :: "managed_route list"
  ow_claims :: "route_claim list"

record mutation =
  mu_upsert :: "route_spec list"
  mu_remove :: "prefix list"

section \<open>Labels and descriptions\<close>

definition MaxManagedRouteDescriptionBytes :: nat where
  "MaxManagedRouteDescriptionBytes = 96"

definition validManagedRouteScope :: "route_scope \<Rightarrow> bool" where
  "validManagedRouteScope s \<longleftrightarrow>
     (\<forall>v \<in> set [scope_endpoint s, scope_target s, scope_interface s].
        v \<noteq> [] \<and> length v \<le> 512 \<and> valid_utf8 v \<and> (\<forall>r \<in> set (rune_codes v). \<not> control_rune r)) \<and>
     length (scope_target s) \<le> 64 \<and> length (rune_codes (scope_interface s)) \<le> 120"

definition validManagedLabel :: "string \<Rightarrow> bool" where
  "validManagedLabel l =
     (if \<not> valid_utf8 l \<or> length l < 3 \<or> 1024 < length l \<or> hd l \<noteq> CHR ''('' \<or> last l \<noteq> CHR '')'' then False
      else let segments = split_on CHR ''/'' (butlast (tl l)) in
        if length segments \<noteq> 2 \<or> segments ! 0 = [] \<or> segments ! 1 = [] then False
        else (\<forall>s \<in> set segments. s = join '' '' (string_fields s) \<and> (\<forall>c \<in> set s. c \<notin> set ''()+'' \<and> c \<noteq> CHR 0x5C)) \<and>
          (\<forall>r \<in> set (rune_codes l). \<not> control_rune r))"

definition validManagedDescription :: "string \<Rightarrow> bool" where
  "validManagedDescription d \<longleftrightarrow> valid_utf8 d \<and> length d \<le> MaxManagedRouteDescriptionBytes \<and>
     (\<forall>r \<in> set (rune_codes d). \<not> control_rune r)"

definition canonicalManagedLabels :: "string list \<Rightarrow> string list option" where
  "canonicalManagedLabels labels =
     (let stable = StableStrings labels in if \<forall>l \<in> set stable. validManagedLabel l then Some stable else None)"

definition ellipsis :: string where
  "ellipsis = [CHR 0xE2, CHR 0x80, CHR 0xA6]"

function shrink :: "nat \<Rightarrow> string \<Rightarrow> string" where
  "shrink budget inner =
     (if length inner \<le> budget then inner
      else shrink budget (take (length inner - max 1 (last_rune_size inner)) inner))"
  by auto

termination shrink
  by (relation "measure (\<lambda>(budget, inner). length inner)") auto

declare shrink.simps [simp del]

text \<open>
  The loop as it is written: every turn cuts exactly what \<open>DecodeLastRuneInString\<close> reports, so it would
  not end if that were ever zero bytes. \<open>shrink\<close> is the same cut with the step bounded from below, which
  makes it a total function; \<open>label_cut_terminates\<close> shows that the loop returns and that they agree.
\<close>

partial_function (option) shrink_loop :: "nat \<Rightarrow> string \<Rightarrow> string option" where
  "shrink_loop budget inner =
     (if length inner \<le> budget then Some inner
      else shrink_loop budget (take (length inner - last_rune_size inner) inner))"

definition truncateManagedLabel :: "string \<Rightarrow> int \<Rightarrow> string" where
  "truncateManagedLabel label maximum =
     (if int (length label) \<le> maximum then label
      else let unopened = (if label \<noteq> [] \<and> hd label = CHR ''('' then tl label else label);
               inner = (if unopened \<noteq> [] \<and> last unopened = CHR '')'' then butlast unopened else unopened);
               budget = maximum - 2 - int (length ellipsis)
           in if budget < 0 then ''()'' else ''('' @ shrink (nat budget) inner @ ellipsis @ '')'')"

definition CompactManagedRouteDescription :: "string list \<Rightarrow> string" where
  "CompactManagedRouteDescription labels =
     (case canonicalManagedLabels labels of
        None \<Rightarrow> []
      | Some [] \<Rightarrow> []
      | Some (l # ls) \<Rightarrow>
          let suffix = (if ls = [] then [] else '' +'' @ dec (length ls)) in
          truncateManagedLabel l (int MaxManagedRouteDescriptionBytes - int (length suffix)) @ suffix)"

section \<open>Specifications and the ledger\<close>

definition managed_prefix :: "prefix \<Rightarrow> bool" where
  "managed_prefix p \<longleftrightarrow> prefix_valid p \<and> is4 (pfx_addr p) \<and> p = masked p"

definition valid_spec :: "route_spec \<Rightarrow> bool" where
  "valid_spec s \<longleftrightarrow> managed_prefix (sp_prefix s) \<and> canonicalManagedLabels (sp_labels s) = Some (sp_labels s) \<and>
     sp_description s = CompactManagedRouteDescription (sp_labels s)"

definition stable_labels :: "string list \<Rightarrow> string list" where
  "stable_labels ls = (case canonicalManagedLabels ls of None \<Rightarrow> [] | Some s \<Rightarrow> s)"

definition labels_of :: "prefix \<Rightarrow> (prefix \<times> string list) list \<Rightarrow> string list" where
  "labels_of p entries = concat (map snd (filter (\<lambda>e. fst e = p) entries))"

definition canonicalDesiredSpecs :: "route_spec list \<Rightarrow> route_spec list option" where
  "canonicalDesiredSpecs specs =
     (if \<exists>s \<in> set specs. \<not> valid_spec s then None
      else Some (sort_key (\<lambda>s. prefix_string (sp_prefix s))
        (map (\<lambda>p. let ls = stable_labels (labels_of p (map (\<lambda>s. (sp_prefix s, sp_labels s)) specs)) in
               \<lparr>sp_prefix = p, sp_description = CompactManagedRouteDescription ls, sp_labels = ls\<rparr>)
             (remdups (map sp_prefix specs)))))"

definition currentSpecMap :: "route_spec list \<Rightarrow> (prefix \<Rightarrow> route_spec option) option" where
  "currentSpecMap specs =
     (if (\<exists>s \<in> set specs. \<not> managed_prefix (sp_prefix s) \<or> \<not> valid_utf8 (sp_description s)) \<or>
         \<not> distinct (map sp_prefix specs) then None
      else Some (map_of (map (\<lambda>s. (sp_prefix s, s)) specs)))"

definition isHexID :: "string \<Rightarrow> bool" where
  "isHexID v \<longleftrightarrow> length v = 32 \<and> to_lower v = v \<and> (\<forall>c \<in> set v. is_hex c)"

definition claim_valid :: "route_claim \<Rightarrow> bool" where
  "claim_valid c \<longleftrightarrow> isHexID (cl_output c) \<and> managed_prefix (cl_prefix c) \<and>
     canonicalManagedLabels (cl_labels c) = Some (cl_labels c) \<and>
     cl_description c = CompactManagedRouteDescription (cl_labels c)"

definition claim_labels :: "route_claim list \<Rightarrow> prefix \<Rightarrow> string list" where
  "claim_labels cs p = labels_of p (map (\<lambda>c. (cl_prefix c, cl_labels c)) cs)"

definition claim_key :: "route_claim \<Rightarrow> string \<times> prefix" where
  "claim_key c = (cl_output c, cl_prefix c)"

fun check_claims :: "prefix set \<Rightarrow> (string \<times> prefix) set \<Rightarrow> route_claim list \<Rightarrow> managed_error option" where
  "check_claims routes seen [] = None"
| "check_claims routes seen (c # cs) =
     (if \<not> claim_valid c then Some ErrClaim
      else if cl_prefix c \<notin> routes then Some ErrClaimWithoutRoute
      else if claim_key c \<in> seen then Some ErrDuplicateClaim
      else check_claims routes (insert (claim_key c) seen) cs)"

fun check_routes :: "prefix set \<Rightarrow> managed_route list \<Rightarrow> managed_error option" where
  "check_routes seen [] = None"
| "check_routes seen (r # rs) =
     (if \<not> managed_prefix (mr_prefix r) \<or> \<not> validManagedDescription (mr_description r) then Some ErrRoute
      else if mr_prefix r \<in> seen then Some ErrDuplicateRoute
      else check_routes (insert (mr_prefix r) seen) rs)"

definition validateManagedRouteOwnership :: "ownership \<Rightarrow> managed_error option" where
  "validateManagedRouteOwnership st =
     (if \<not> validManagedRouteScope (ow_scope st) then Some ErrScope
      else case check_routes {} (ow_routes st) of
        Some e \<Rightarrow> Some e
      | None \<Rightarrow> (case check_claims (set (map mr_prefix (ow_routes st))) {} (ow_claims st) of
          Some e \<Rightarrow> Some e
        | None \<Rightarrow>
            if length (remdups (map cl_prefix (ow_claims st))) \<noteq> length (ow_routes st) then Some ErrRouteWithoutClaim
            else if \<exists>r \<in> set (ow_routes st). \<not> mr_created r \<and> mr_description r \<noteq> [] then Some ErrForeignDescription
            else if \<exists>r \<in> set (ow_routes st). mr_created r \<and>
                CompactManagedRouteDescription (claim_labels (ow_claims st) (mr_prefix r)) \<noteq> [] \<and>
                mr_description r \<noteq> CompactManagedRouteDescription (claim_labels (ow_claims st) (mr_prefix r))
              then Some ErrDescriptionMismatch
            else None))"

section \<open>Reconciliation\<close>

definition claims_after :: "string \<Rightarrow> route_claim list \<Rightarrow> route_spec list \<Rightarrow> route_claim list" where
  "claims_after out claims desired =
     filter (\<lambda>c. cl_output c \<noteq> out) claims @
     map (\<lambda>s. \<lparr>cl_output = out, cl_prefix = sp_prefix s, cl_description = sp_description s, cl_labels = sp_labels s\<rparr>) desired"

definition prior_route :: "managed_route list \<Rightarrow> prefix \<Rightarrow> managed_route option" where
  "prior_route rs p = map_of (map (\<lambda>r. (mr_prefix r, r)) rs) p"

text \<open>One claimed prefix: its description, whether Routevane owns it, and the change it needs.\<close>

definition route_created :: "managed_route option \<Rightarrow> route_spec option \<Rightarrow> bool" where
  "route_created known observed =
     (case observed of None \<Rightarrow> True | Some _ \<Rightarrow> (case known of None \<Rightarrow> False | Some r \<Rightarrow> mr_created r))"

definition route_description :: "managed_route option \<Rightarrow> string list \<Rightarrow> string" where
  "route_description known ls =
     (let d = CompactManagedRouteDescription ls in
      case known of
        Some r \<Rightarrow> if d = [] \<and> mr_created r \<and> mr_description r \<noteq> [] then mr_description r else d
      | None \<Rightarrow> d)"

definition route_upsert :: "managed_route option \<Rightarrow> route_spec option \<Rightarrow> string \<Rightarrow> bool" where
  "route_upsert known observed d =
     (case observed of
        None \<Rightarrow> True
      | Some o' \<Rightarrow> (case known of None \<Rightarrow> False | Some r \<Rightarrow> mr_created r \<and> sp_description o' \<noteq> d))"

definition claimed_prefixes :: "route_claim list \<Rightarrow> prefix list" where
  "claimed_prefixes claims = remdups (map cl_prefix claims)"

definition wanted_labels :: "route_claim list \<Rightarrow> prefix \<Rightarrow> string list" where
  "wanted_labels claims p = stable_labels (claim_labels claims p)"

definition wanted_description :: "ownership \<Rightarrow> route_claim list \<Rightarrow> prefix \<Rightarrow> string" where
  "wanted_description prior claims p = route_description (prior_route (ow_routes prior) p) (wanted_labels claims p)"

definition wanted_created :: "ownership \<Rightarrow> (prefix \<Rightarrow> route_spec option) \<Rightarrow> prefix \<Rightarrow> bool" where
  "wanted_created prior cur p = route_created (prior_route (ow_routes prior) p) (cur p)"

definition reconciled_upserts ::
  "ownership \<Rightarrow> (prefix \<Rightarrow> route_spec option) \<Rightarrow> route_claim list \<Rightarrow> route_spec list" where
  "reconciled_upserts prior cur claims =
     map (\<lambda>p. \<lparr>sp_prefix = p, sp_description = wanted_description prior claims p, sp_labels = wanted_labels claims p\<rparr>)
       (filter (\<lambda>p. route_upsert (prior_route (ow_routes prior) p) (cur p) (wanted_description prior claims p))
         (claimed_prefixes claims))"

definition reconciled_removals ::
  "ownership \<Rightarrow> (prefix \<Rightarrow> route_spec option) \<Rightarrow> route_claim list \<Rightarrow> prefix list" where
  "reconciled_removals prior cur claims =
     map mr_prefix (filter (\<lambda>r. mr_created r \<and> mr_prefix r \<notin> set (claimed_prefixes claims) \<and> cur (mr_prefix r) \<noteq> None)
       (ow_routes prior))"

definition reconciled_routes ::
  "ownership \<Rightarrow> (prefix \<Rightarrow> route_spec option) \<Rightarrow> route_claim list \<Rightarrow> managed_route list" where
  "reconciled_routes prior cur claims =
     map (\<lambda>p. \<lparr>mr_prefix = p,
            mr_description = (if wanted_created prior cur p then wanted_description prior claims p else []),
            mr_created = wanted_created prior cur p\<rparr>)
       (claimed_prefixes claims)"

definition reconciled_mutation ::
  "ownership \<Rightarrow> (prefix \<Rightarrow> route_spec option) \<Rightarrow> route_claim list \<Rightarrow> mutation" where
  "reconciled_mutation prior cur claims =
     \<lparr>mu_upsert = sort_key (\<lambda>s. prefix_string (sp_prefix s)) (reconciled_upserts prior cur claims),
      mu_remove = sort_key prefix_string (reconciled_removals prior cur claims)\<rparr>"

definition claim_order :: "route_claim \<Rightarrow> string \<times> string" where
  "claim_order c = (cl_output c, prefix_string (cl_prefix c))"

definition reconciled_ownership ::
  "ownership \<Rightarrow> (prefix \<Rightarrow> route_spec option) \<Rightarrow> route_claim list \<Rightarrow> ownership" where
  "reconciled_ownership prior cur claims =
     \<lparr>ow_scope = ow_scope prior,
      ow_routes = sort_key (\<lambda>r. prefix_string (mr_prefix r)) (reconciled_routes prior cur claims),
      ow_claims = sort_key claim_order claims\<rparr>"

definition reconcileManagedRoutes ::
  "ownership \<Rightarrow> string \<Rightarrow> route_spec list \<Rightarrow> route_spec list \<Rightarrow> (managed_error, mutation \<times> ownership) result" where
  "reconcileManagedRoutes prior out desired0 current =
     (if \<not> isHexID out then Err ErrOutput
      else case validateManagedRouteOwnership prior of
        Some e \<Rightarrow> Err e
      | None \<Rightarrow> (case canonicalDesiredSpecs desired0 of
          None \<Rightarrow> Err ErrDesired
        | Some desired \<Rightarrow> (case currentSpecMap current of
            None \<Rightarrow> Err ErrCurrent
          | Some cur \<Rightarrow>
              let claims = claims_after out (ow_claims prior) desired;
                  next = reconciled_ownership prior cur claims
              in case validateManagedRouteOwnership next of
                   Some e \<Rightarrow> Err e
                 | None \<Rightarrow> Ok (reconciled_mutation prior cur claims, next))))"

definition verifyManagedRouteMutation ::
  "ownership \<Rightarrow> mutation \<Rightarrow> route_spec list \<Rightarrow> managed_error option" where
  "verifyManagedRouteMutation next m current =
     (case currentSpecMap current of
        None \<Rightarrow> Some ErrCurrent
      | Some cur \<Rightarrow>
          let missing = filter (\<lambda>p. cur p = None) (map mr_prefix (ow_routes next));
              mismatched = map mr_prefix (filter (\<lambda>r. case cur (mr_prefix r) of None \<Rightarrow> False
                 | Some s \<Rightarrow> mr_created r \<and> sp_description s \<noteq> mr_description r) (ow_routes next));
              remaining = filter (\<lambda>p. cur p \<noteq> None) (mu_remove m)
          in if missing = [] \<and> mismatched = [] \<and> remaining = [] then None
             else Some (ErrNotMatching missing mismatched remaining))"

end
