(* ===== verification/RouteLedger.thy ===== *)
theory RouteLedger
  imports ManagedRoutes
begin

text \<open>
  What the reconciliation of managed routes promises: device comments stay within their byte bound and
  are well-formed text, the ledger it returns is always valid, only routes Routevane created are changed
  or removed, and a device that applied the mutation needs no further one.
\<close>

section \<open>Compact descriptions\<close>

lemma dec_length:
  assumes "n < 10 ^ k" "0 < k"
  shows "length (dec n) \<le> k"
  using assms
proof (induction k arbitrary: n)
  case (Suc k)
  show ?case
  proof (cases "n < 10")
    case True
    then show ?thesis by (simp add: num_str.simps)
  next
    case False
    then have "k \<noteq> 0" using Suc.prems(1) by (cases k) auto
    moreover have "n div 10 < 10 ^ k" using Suc.prems(1) by auto
    ultimately have "length (dec (n div 10)) \<le> k" using Suc.IH by simp
    with False show ?thesis by (subst num_str.simps) auto
  qed
qed simp

definition clean_text :: "string \<Rightarrow> bool" where
  "clean_text s \<longleftrightarrow> valid_utf8 s \<and> (\<forall>c \<in> set s. \<not> control_byte c)"

lemma validManagedDescription_clean:
  "validManagedDescription d \<longleftrightarrow> clean_text d \<and> length d \<le> 96"
  using control_runes [of d] by (auto simp: validManagedDescription_def clean_text_def MaxManagedRouteDescriptionBytes_def)

lemma clean_text_Nil [simp]: "clean_text []"
  by (simp add: clean_text_def)

lemma clean_text_append: "clean_text s \<Longrightarrow> clean_text t \<Longrightarrow> clean_text (s @ t)"
  by (auto simp: clean_text_def valid_utf8_append)

lemma clean_text_printable: "list_all (\<lambda>c. 32 \<le> byte c \<and> byte c < 127) s \<Longrightarrow> clean_text s"
  by (force simp: clean_text_def control_byte_def list_all_iff intro!: valid_utf8_ascii)

lemma clean_text_dec: "clean_text (dec n)"
proof (rule clean_text_printable)
  have "is_dec c \<Longrightarrow> 32 \<le> byte c \<and> byte c < 127" for c :: char
    by (auto simp: is_dec_def less_eq_char_def)
  then show "list_all (\<lambda>c. 32 \<le> byte c \<and> byte c < 127) (dec n)"
    using num_str_dec [of n] by (auto simp: list_all_iff)
qed

lemma clean_ellipsis: "clean_text ellipsis"
  by (simp add: clean_text_def ellipsis_def valid_utf8_step seq_width.simps cont_def control_byte_def)

text \<open>
  C32. The loop that cuts a managed label to its byte budget terminates on every string, valid UTF-8 or not, and
  for every budget: it returns what the total function \<open>shrink\<close> computes, a leading part of the label that fits
  the budget, and a label that fits is returned as it is. Not returning would be the value \<open>None\<close>.
\<close>

theorem label_cut_terminates:
  "\<exists>n. shrink_loop budget inner = Some (take n inner) \<and> shrink budget inner = take n inner \<and>
     min n (length inner) \<le> budget \<and> (n = length inner \<or> budget < length inner)"
proof (induction budget inner rule: shrink.induct)
  case (1 b s)
  show ?case
  proof (cases "length s \<le> b")
    case True
    then show ?thesis by (intro exI [of _ "length s"]) (simp add: shrink_loop.simps shrink.simps)
  next
    case False
    then have ne: "s \<noteq> []" by auto
    let ?k = "length s - last_rune_size s"
    have m: "max 1 (last_rune_size s) = last_rune_size s" using last_rune_size_pos [OF ne] by simp
    obtain n where n: "shrink_loop b (take ?k s) = Some (take n (take ?k s))"
        "shrink b (take ?k s) = take n (take ?k s)" "min n (length (take ?k s)) \<le> b"
      using 1 False m by (metis (no_types))
    have "shrink_loop b s = Some (take (min n ?k) s)" "shrink b s = take (min n ?k) s"
      using n(1,2) False m by (simp_all add: shrink_loop.simps [of b s] shrink.simps [of b s])
    moreover have "min (min n ?k) (length s) \<le> b" using n(3) by simp
    ultimately show ?thesis using False by (intro exI [of _ "min n ?k"]) simp
  qed
qed

lemma shrink_clean: "clean_text s \<Longrightarrow> clean_text (shrink b s) \<and> length (shrink b s) \<le> b"
proof (induction b s rule: shrink.induct)
  case (1 b s)
  show ?case
  proof (cases "length s \<le> b")
    case True
    with 1(2) show ?thesis by (simp add: shrink.simps)
  next
    case False
    have u: "valid_utf8 s" "s \<noteq> []" using 1(2) False by (auto simp: clean_text_def)
    have "clean_text (take (length s - max 1 (last_rune_size s)) s)"
      using drop_last_rune [OF u] 1(2) by (auto simp: clean_text_def max_def dest: in_set_takeD)
    with 1(1) False show ?thesis by (subst (1 2) shrink.simps) simp
  qed
qed

lemma validManagedLabel_clean:
  assumes "validManagedLabel l"
  obtains m where "l = ''('' @ m @ '')''" "clean_text m" "clean_text l"
proof -
  have v: "valid_utf8 l" "3 \<le> length l" "hd l = CHR ''(''" "last l = CHR '')''" and r: "\<forall>r \<in> set (rune_codes l). \<not> control_rune r"
    using assms by (auto simp: validManagedLabel_def Let_def split: if_splits)
  from v(2) obtain x t where t: "l = x # t" "t \<noteq> []" by (cases l; cases "tl l") auto
  then obtain m y where "t = m @ [y]" by (cases t rule: rev_cases) auto
  with t have m: "l = x # m @ [y]" by simp
  with v have l: "l = ''('' @ m @ '')''" by simp
  have "\<forall>c \<in> set l. \<not> control_byte c" using control_runes [of l] r by blast
  moreover have "valid_utf8 m"
  proof -
    have "valid_utf8 (m @ [CHR '')''])" using v(1) l valid_utf8_Cons_ascii [of "CHR ''(''" "m @ [CHR '')'']"] by simp
    then show ?thesis by (rule valid_utf8_snoc_ascii) simp
  qed
  ultimately show ?thesis using that l v(1) by (auto simp: clean_text_def)
qed

lemma truncateManagedLabel_bound:
  assumes "validManagedLabel l" "2 \<le> k"
  shows "clean_text (truncateManagedLabel l k) \<and> int (length (truncateManagedLabel l k)) \<le> k \<and> truncateManagedLabel l k \<noteq> []"
proof -
  obtain m where m: "l = ''('' @ m @ '')''" "clean_text m" "clean_text l"
    using validManagedLabel_clean [OF assms(1)] by blast
  have p: "clean_text ''(''" "clean_text '')''" "clean_text ''()''" by (simp_all add: clean_text_printable)
  show ?thesis
  proof (cases "int (length l) \<le> k")
    case True
    with m show ?thesis by (simp add: truncateManagedLabel_def)
  next
    case False
    show ?thesis
    proof (cases "k - 2 - int (length ellipsis) < 0")
      case True
      with False assms(2) m p show ?thesis by (simp add: truncateManagedLabel_def)
    next
      case b: False
      define b where "b = nat (k - 2 - int (length ellipsis))"
      have t: "truncateManagedLabel l k = ''('' @ shrink b m @ ellipsis @ '')''"
        using False b m(1) by (simp add: truncateManagedLabel_def b_def)
      have "clean_text (shrink b m)" "length (shrink b m) \<le> b" using shrink_clean [OF m(2)] by auto
      moreover have "int b = k - 2 - int (length ellipsis)" using b by (simp add: b_def)
      ultimately show ?thesis
        unfolding t by (simp add: clean_text_append [OF p(1), simplified] clean_text_append clean_ellipsis p)
    qed
  qed
qed

lemma compact_description_bound:
  assumes "length labels < 10 ^ 20"
  shows "validManagedDescription (CompactManagedRouteDescription labels)"
proof (cases "canonicalManagedLabels labels")
  case None
  then show ?thesis by (simp add: CompactManagedRouteDescription_def validManagedDescription_clean)
next
  case (Some ls)
  show ?thesis
  proof (cases ls)
    case Nil
    with Some show ?thesis by (simp add: CompactManagedRouteDescription_def validManagedDescription_clean)
  next
    case (Cons l r)
    have ls: "ls = StableStrings labels" "validManagedLabel l"
      using Some Cons by (auto simp: canonicalManagedLabels_def Let_def split: if_splits)
    have "length ls \<le> length labels"
    proof -
      have "length ls = card (set labels)"
        using distinct_card [OF distinct_sort_unique, of labels] by (simp add: ls StableStrings_sort_unique)
      then show ?thesis using card_length [of labels] by simp
    qed
    then have "length (dec (length r)) \<le> 20" using assms Cons by (intro dec_length) auto
    define s where "s = (if r = [] then [] else '' +'' @ dec (length r))"
    have s: "length s \<le> 22" "clean_text s"
      using \<open>length (dec (length r)) \<le> 20\<close>
      using clean_text_append [OF clean_text_printable [of "'' +''"] clean_text_dec [of "length r"]] by (simp_all add: s_def)
    have "CompactManagedRouteDescription labels = truncateManagedLabel l (96 - int (length s)) @ s"
      using Some Cons by (simp add: CompactManagedRouteDescription_def MaxManagedRouteDescriptionBytes_def s_def Let_def)
    moreover have "2 \<le> 96 - int (length s)" using s(1) by linarith
    note truncateManagedLabel_bound [OF ls(2) this]
    ultimately show ?thesis using s(2) by (auto simp: validManagedDescription_clean intro: clean_text_append)
  qed
qed


section \<open>The ledger invariant\<close>

definition ledger_ok :: "ownership \<Rightarrow> bool" where
  "ledger_ok st \<longleftrightarrow> validManagedRouteScope (ow_scope st) \<and>
     (\<forall>r \<in> set (ow_routes st). managed_prefix (mr_prefix r) \<and> validManagedDescription (mr_description r)) \<and>
     distinct (map mr_prefix (ow_routes st)) \<and>
     (\<forall>c \<in> set (ow_claims st). claim_valid c) \<and> distinct (map claim_key (ow_claims st)) \<and>
     cl_prefix ` set (ow_claims st) = mr_prefix ` set (ow_routes st) \<and>
     (\<forall>r \<in> set (ow_routes st). \<not> mr_created r \<longrightarrow> mr_description r = []) \<and>
     (\<forall>r \<in> set (ow_routes st). mr_created r \<longrightarrow>
        CompactManagedRouteDescription (claim_labels (ow_claims st) (mr_prefix r)) \<in> {[], mr_description r})"

lemma check_routes_None:
  "check_routes seen rs = None \<longleftrightarrow>
     (\<forall>r \<in> set rs. managed_prefix (mr_prefix r) \<and> validManagedDescription (mr_description r)) \<and>
     distinct (map mr_prefix rs) \<and> mr_prefix ` set rs \<inter> seen = {}"
  by (induction rs arbitrary: seen) auto

lemma check_claims_None:
  "check_claims routes seen cs = None \<longleftrightarrow>
     (\<forall>c \<in> set cs. claim_valid c) \<and> cl_prefix ` set cs \<subseteq> routes \<and> distinct (map claim_key cs) \<and> claim_key ` set cs \<inter> seen = {}"
  by (induction cs arbitrary: seen) auto

lemma validate_ledger: "validateManagedRouteOwnership st = None \<longleftrightarrow> ledger_ok st"
proof -
  have card: "length (remdups (map cl_prefix (ow_claims st))) = length (ow_routes st) \<longleftrightarrow>
      cl_prefix ` set (ow_claims st) = mr_prefix ` set (ow_routes st)"
    if "distinct (map mr_prefix (ow_routes st))" "cl_prefix ` set (ow_claims st) \<subseteq> mr_prefix ` set (ow_routes st)"
  proof -
    have "length (ow_routes st) = card (mr_prefix ` set (ow_routes st))"
      using distinct_card [OF that(1)] by simp
    moreover have "length (remdups (map cl_prefix (ow_claims st))) = card (cl_prefix ` set (ow_claims st))"
      by (simp add: length_remdups_card_conv)
    ultimately show ?thesis using that(2) card_subset_eq [of "mr_prefix ` set (ow_routes st)"] by (metis finite_imageI finite_set)
  qed
  show ?thesis
  proof
    assume v: "validateManagedRouteOwnership st = None"
    then have r: "check_routes {} (ow_routes st) = None"
      and c: "check_claims (set (map mr_prefix (ow_routes st))) {} (ow_claims st) = None"
      by (auto simp: validateManagedRouteOwnership_def split: if_splits option.splits)
    have d: "distinct (map mr_prefix (ow_routes st))" "cl_prefix ` set (ow_claims st) \<subseteq> mr_prefix ` set (ow_routes st)"
      using r c by (auto simp: check_routes_None check_claims_None)
    from v r c have "cl_prefix ` set (ow_claims st) = mr_prefix ` set (ow_routes st)" "validManagedRouteScope (ow_scope st)"
      "\<forall>r \<in> set (ow_routes st). \<not> mr_created r \<longrightarrow> mr_description r = []"
      "\<forall>r \<in> set (ow_routes st). mr_created r \<longrightarrow>
        CompactManagedRouteDescription (claim_labels (ow_claims st) (mr_prefix r)) \<in> {[], mr_description r}"
      unfolding validateManagedRouteOwnership_def card [OF d, symmetric] by (fastforce split: if_splits)+
    with r c show "ledger_ok st" by (simp add: ledger_ok_def check_routes_None check_claims_None)
  next
    assume l: "ledger_ok st"
    then have r: "check_routes {} (ow_routes st) = None"
      and c: "check_claims (set (map mr_prefix (ow_routes st))) {} (ow_claims st) = None"
      by (auto simp: ledger_ok_def check_routes_None check_claims_None)
    have d: "distinct (map mr_prefix (ow_routes st))" "cl_prefix ` set (ow_claims st) \<subseteq> mr_prefix ` set (ow_routes st)"
      using l by (auto simp: ledger_ok_def)
    from l r c show "validateManagedRouteOwnership st = None"
      using card [OF d] by (fastforce simp: validateManagedRouteOwnership_def ledger_ok_def)
  qed
qed

section \<open>Labels\<close>

lemma canonicalManagedLabels_iff:
  "canonicalManagedLabels ls = Some k \<longleftrightarrow> k = sort_unique ls \<and> (\<forall>l \<in> set ls. validManagedLabel l)"
  by (auto simp: canonicalManagedLabels_def StableStrings_sort_unique)

lemma stable_labels_set: "stable_labels ls = (if \<forall>l \<in> set ls. validManagedLabel l then sort_unique ls else [])"
  by (auto simp: stable_labels_def canonicalManagedLabels_def StableStrings_sort_unique)

lemma compact_set_cong: "set ls = set ks \<Longrightarrow> CompactManagedRouteDescription ls = CompactManagedRouteDescription ks"
  using sort_unique_eqI [of ls ks]
  by (simp add: CompactManagedRouteDescription_def canonicalManagedLabels_def StableStrings_sort_unique)

lemma compact_stable: "CompactManagedRouteDescription (stable_labels ls) = CompactManagedRouteDescription ls"
proof (cases "\<forall>l \<in> set ls. validManagedLabel l")
  case True
  then show ?thesis by (auto simp: stable_labels_set intro: compact_set_cong)
next
  case False
  then show ?thesis
    by (auto simp: stable_labels_set CompactManagedRouteDescription_def canonicalManagedLabels_def StableStrings_sort_unique)
qed

lemma labels_of_set: "set (labels_of p es) = (\<Union>e \<in> {e \<in> set es. fst e = p}. set (snd e))"
  by (auto simp: labels_of_def)

lemma claim_labels_set: "set (claim_labels cs p) = (\<Union>c \<in> {c \<in> set cs. cl_prefix c = p}. set (cl_labels c))"
  by (auto simp: claim_labels_def labels_of_set)

lemma claim_labels_cong: "set cs = set ds \<Longrightarrow>
  CompactManagedRouteDescription (claim_labels cs p) = CompactManagedRouteDescription (claim_labels ds p)"
  by (rule compact_set_cong) (simp add: claim_labels_set)

lemma labels_of_length: "length (labels_of p es) \<le> length (concat (map snd es))"
  by (induction es) (auto simp: labels_of_def)


section \<open>Reconciliation keeps the ledger valid\<close>

lemma managed_prefix_plain: "managed_prefix p \<Longrightarrow> plain_prefix p"
proof -
  assume m: "managed_prefix p"
  then obtain a where a: "pfx_addr p = V4 a" by (cases "pfx_addr p") (auto simp: managed_prefix_def)
  have "0 \<le> pfx_bits p" using m by (simp add: managed_prefix_def prefix_valid_def)
  moreover have "\<not> 32 < pfx_bits p"
  proof
    assume "32 < pfx_bits p"
    then have "masked p = no_prefix" by (simp add: masked_def a)
    moreover have "masked p = p" using m by (simp add: managed_prefix_def)
    ultimately show False using a by (simp add: no_prefix_def)
  qed
  ultimately have "0 \<le> pfx_bits p" "\<not> 32 < pfx_bits p" .
  with a \<open>0 \<le> pfx_bits p\<close> show ?thesis by (simp add: plain_prefix_def plain_addr_def)
qed

lemma managed_string_inj: "managed_prefix p \<Longrightarrow> managed_prefix q \<Longrightarrow> prefix_string p = prefix_string q \<longleftrightarrow> p = q"
  by (simp add: prefix_string_inj managed_prefix_plain)

definition total_labels :: "ownership \<Rightarrow> route_spec list \<Rightarrow> nat" where
  "total_labels prior desired = length (concat (map cl_labels (ow_claims prior))) + length (concat (map sp_labels desired))"

lemma desired_specs:
  assumes "canonicalDesiredSpecs specs = Some d"
  shows "distinct (map sp_prefix d)" "sp_prefix ` set d = sp_prefix ` set specs"
    "s \<in> set d \<Longrightarrow> valid_spec s \<and> length (sp_labels s) \<le> length (concat (map sp_labels specs))"
proof -
  define f where "f p = stable_labels (labels_of p (map (\<lambda>s. (sp_prefix s, sp_labels s)) specs))" for p
  define g where "g = (\<lambda>p. \<lparr>sp_prefix = p, sp_description = CompactManagedRouteDescription (f p), sp_labels = f p\<rparr>)"
  have v: "\<forall>s \<in> set specs. valid_spec s"
    and d: "d = sort_key (\<lambda>s. prefix_string (sp_prefix s)) (map g (remdups (map sp_prefix specs)))"
    using assms by (auto simp: canonicalDesiredSpecs_def f_def g_def Let_def split: if_splits)
  have "mset (map sp_prefix d) = mset (remdups (map sp_prefix specs))"
    by (simp add: d g_def image_mset.compositionality comp_def)
  then show "distinct (map sp_prefix d)"
    by (metis distinct_remdups mset_eq_imp_distinct_iff)
  show "sp_prefix ` set d = sp_prefix ` set specs"
    by (auto simp: d g_def image_image)
  assume s: "s \<in> set d"
  then obtain p where p: "s = g p" "p \<in> sp_prefix ` set specs" by (auto simp: d)
  let ?ls = "labels_of p (map (\<lambda>s. (sp_prefix s, sp_labels s)) specs)"
  have "\<forall>l \<in> set ?ls. validManagedLabel l"
    using v by (auto simp: labels_of_set valid_spec_def canonicalManagedLabels_iff)
  then have f: "f p = sort_unique ?ls" "\<forall>l \<in> set (f p). validManagedLabel l" by (auto simp: f_def stable_labels_set)
  have "length (f p) \<le> length ?ls"
    using distinct_card [OF distinct_sort_unique, of ?ls] card_length [of ?ls] by (simp add: f(1))
  also have "\<dots> \<le> length (concat (map sp_labels specs))"
    using labels_of_length [of p "map (\<lambda>s. (sp_prefix s, sp_labels s)) specs"] by (simp add: comp_def)
  finally have "length (f p) \<le> length (concat (map sp_labels specs))" .
  moreover have "managed_prefix p" using v p(2) by (auto simp: valid_spec_def)
  moreover have "canonicalManagedLabels (f p) = Some (f p)"
    using f by (auto simp: canonicalManagedLabels_iff sort_unique_idem)
  ultimately show "valid_spec s \<and> length (sp_labels s) \<le> length (concat (map sp_labels specs))"
    using p(1) by (simp add: valid_spec_def g_def)
qed

lemma map_of_self: "map_of (map (\<lambda>x. (f x, x)) xs) k = Some y \<Longrightarrow> y \<in> set xs \<and> f y = k"
  by (auto dest!: map_of_SomeD)

lemma map_of_self_mem:
  "distinct (map f xs) \<Longrightarrow> y \<in> set xs \<Longrightarrow> map_of (map (\<lambda>x. (f x, x)) xs) (f y) = Some y"
  by (rule map_of_is_SomeI) (auto simp: comp_def)

lemma map_of_self_None: "map_of (map (\<lambda>x. (f x, x)) xs) k = None \<longleftrightarrow> k \<notin> f ` set xs"
  by (auto simp: map_of_eq_None_iff image_image)

lemma prior_route_SomeD: "prior_route rs p = Some r \<Longrightarrow> r \<in> set rs \<and> mr_prefix r = p"
  unfolding prior_route_def by (rule map_of_self)

lemma prior_route_mem: "distinct (map mr_prefix rs) \<Longrightarrow> r \<in> set rs \<Longrightarrow> prior_route rs (mr_prefix r) = Some r"
  unfolding prior_route_def by (rule map_of_self_mem)

lemma claims_after_set:
  "set (claims_after out cs d) = {c \<in> set cs. cl_output c \<noteq> out} \<union>
     (\<lambda>s. \<lparr>cl_output = out, cl_prefix = sp_prefix s, cl_description = sp_description s, cl_labels = sp_labels s\<rparr>) ` set d"
  by (auto simp: claims_after_def)

lemma claims_after_ok:
  assumes "isHexID out" "\<forall>c \<in> set cs. claim_valid c" "distinct (map claim_key cs)"
    "\<forall>s \<in> set d. valid_spec s" "distinct (map sp_prefix d)"
  shows "\<forall>c \<in> set (claims_after out cs d). claim_valid c" "distinct (map claim_key (claims_after out cs d))"
proof -
  show "\<forall>c \<in> set (claims_after out cs d). claim_valid c"
    using assms(1,2,4) by (auto simp: claims_after_set claim_valid_def valid_spec_def)
  have "distinct (map (\<lambda>s. (out, sp_prefix s)) d)"
    using assms(5) by (auto simp: distinct_map inj_on_def)
  moreover have "distinct (map claim_key (filter (\<lambda>c. cl_output c \<noteq> out) cs))"
    using assms(3) by (rule distinct_map_filter)
  ultimately show "distinct (map claim_key (claims_after out cs d))"
    by (auto simp: claims_after_def claim_key_def comp_def)
qed

lemma claims_after_labels:
  assumes "distinct (map sp_prefix d)"
    "\<forall>s \<in> set d. length (sp_labels s) \<le> length (concat (map sp_labels desired))"
  shows "length (claim_labels (claims_after out (ow_claims prior) d) p) \<le> total_labels prior desired"
proof -
  have app: "claim_labels (a @ b) p = claim_labels a p @ claim_labels b p" for a b
    by (simp add: claim_labels_def labels_of_def)
  let ?c = "\<lambda>s. \<lparr>cl_output = out, cl_prefix = sp_prefix s, cl_description = sp_description s, cl_labels = sp_labels s\<rparr>"
  have "length (claim_labels (filter (\<lambda>c. cl_output c \<noteq> out) cs) p) \<le> length (concat (map cl_labels cs))" for cs
    by (induction cs) (auto simp: claim_labels_def labels_of_def)
  moreover have "length (claim_labels (map ?c d) p) \<le> length (concat (map sp_labels desired))"
    using assms
  proof (induction d)
    case (Cons s d)
    show ?case
    proof (cases "sp_prefix s = p")
      case True
      then have "p \<notin> sp_prefix ` set d" using Cons.prems by auto
      then have "set (claim_labels (map ?c d) p) = {}" by (auto simp: claim_labels_set)
      moreover have "claim_labels (map ?c (s # d)) p = sp_labels s @ claim_labels (map ?c d) p"
        using True by (simp add: claim_labels_def labels_of_def)
      ultimately show ?thesis using Cons.prems by (simp del: list.map)
    next
      case False
      with Cons show ?thesis by (simp add: claim_labels_def labels_of_def)
    qed
  qed (simp add: claim_labels_def labels_of_def)
  ultimately show ?thesis by (simp add: claims_after_def app total_labels_def add_le_mono)
qed

lemma stable_length: "length (stable_labels ls) \<le> length ls"
  using distinct_card [OF distinct_sort_unique, of ls] card_length [of ls] by (simp add: stable_labels_set)

lemma wanted_valid:
  assumes "ledger_ok prior" "length (claim_labels claims p) < 10 ^ 20"
  shows "validManagedDescription (wanted_description prior claims p)"
proof -
  have "validManagedDescription (CompactManagedRouteDescription (wanted_labels claims p))"
    using assms(2) stable_length [of "claim_labels claims p"] by (intro compact_description_bound) (simp add: wanted_labels_def)
  with assms(1) show ?thesis
    by (auto simp: wanted_description_def route_description_def ledger_ok_def Let_def split: option.splits
        dest: prior_route_SomeD)
qed

lemma wanted_compact:
  "CompactManagedRouteDescription (claim_labels claims p) \<in> {[], wanted_description prior claims p}"
  by (auto simp: wanted_description_def route_description_def wanted_labels_def compact_stable Let_def split: option.splits)

lemma reconciled_routes_prefixes:
  "map mr_prefix (reconciled_routes prior cur claims) = remdups (map cl_prefix claims)"
  by (simp add: reconciled_routes_def comp_def claimed_prefixes_def)

lemma reconciled_ok:
  assumes "ledger_ok prior" "\<forall>c \<in> set claims. claim_valid c" "distinct (map claim_key claims)"
    "\<forall>p. length (claim_labels claims p) < 10 ^ 20"
  shows "ledger_ok (reconciled_ownership prior cur claims)"
proof -
  let ?n = "reconciled_ownership prior cur claims"
  have r: "set (ow_routes ?n) = set (reconciled_routes prior cur claims)" "set (ow_claims ?n) = set claims"
    "ow_scope ?n = ow_scope prior"
    by (simp_all add: reconciled_ownership_def)
  have "mset (map mr_prefix (ow_routes ?n)) = mset (map mr_prefix (reconciled_routes prior cur claims))"
    "mset (map claim_key (ow_claims ?n)) = mset (map claim_key claims)"
    by (simp_all add: reconciled_ownership_def)
  then have "distinct (map mr_prefix (ow_routes ?n))" "distinct (map claim_key (ow_claims ?n))"
    using assms(3) reconciled_routes_prefixes [of prior cur claims] by (metis distinct_remdups mset_eq_imp_distinct_iff)+
  moreover have "cl_prefix ` set (ow_claims ?n) = mr_prefix ` set (ow_routes ?n)"
    using arg_cong [OF reconciled_routes_prefixes [of prior cur claims], of set] by (simp add: r)
  moreover have "\<forall>p \<in> set (claimed_prefixes claims). managed_prefix p"
    using assms(2) by (auto simp: claimed_prefixes_def claim_valid_def)
  then have "\<forall>r \<in> set (ow_routes ?n). managed_prefix (mr_prefix r) \<and> validManagedDescription (mr_description r) \<and>
      (\<not> mr_created r \<longrightarrow> mr_description r = []) \<and>
      (mr_created r \<longrightarrow> CompactManagedRouteDescription (claim_labels (ow_claims ?n) (mr_prefix r)) \<in> {[], mr_description r})"
    using wanted_valid [OF assms(1)] assms(4) wanted_compact [of claims _ prior]
    by (auto simp: r(1) reconciled_routes_def claim_labels_cong [OF r(2)] validManagedDescription_clean)
  ultimately show ?thesis using assms(1,2) by (simp add: ledger_ok_def r)
qed

lemma reconcile_outcome:
  assumes "isHexID out" "ledger_ok prior" "canonicalDesiredSpecs desired = Some d" "currentSpecMap current = Some cur"
    "total_labels prior desired < 10 ^ 20"
  defines "claims \<equiv> claims_after out (ow_claims prior) d"
  shows "reconcileManagedRoutes prior out desired current =
      Ok (reconciled_mutation prior cur claims, reconciled_ownership prior cur claims)"
    "ledger_ok (reconciled_ownership prior cur claims)"
    "\<forall>c \<in> set claims. claim_valid c" "distinct (map claim_key claims)"
proof -
  note d = desired_specs [OF assms(3)]
  have c: "\<forall>c \<in> set (ow_claims prior). claim_valid c" "distinct (map claim_key (ow_claims prior))"
    using assms(2) by (auto simp: ledger_ok_def)
  have v: "\<forall>s \<in> set d. valid_spec s" using d(3) by blast
  note k = claims_after_ok [OF assms(1) c v d(1), folded claims_def]
  show "\<forall>c \<in> set claims. claim_valid c" "distinct (map claim_key claims)" by (rule k)+
  have "\<forall>s \<in> set d. length (sp_labels s) \<le> length (concat (map sp_labels desired))" using d(3) by blast
  from claims_after_labels [OF d(1) this] assms(5)
  have "\<forall>p. length (claim_labels claims p) < 10 ^ 20" unfolding claims_def by (meson le_less_trans)
  from reconciled_ok [OF assms(2) k this] show l: "ledger_ok (reconciled_ownership prior cur claims)" .
  then show "reconcileManagedRoutes prior out desired current =
      Ok (reconciled_mutation prior cur claims, reconciled_ownership prior cur claims)"
    using assms(1-4) by (simp add: reconcileManagedRoutes_def validate_ledger [symmetric] claims_def Let_def)
qed

lemma reconcile_OkD:
  assumes "reconcileManagedRoutes prior out desired current = Ok (m, next)"
  obtains d cur where "isHexID out" "ledger_ok prior" "canonicalDesiredSpecs desired = Some d"
    "currentSpecMap current = Some cur" "ledger_ok next"
    "m = reconciled_mutation prior cur (claims_after out (ow_claims prior) d)"
    "next = reconciled_ownership prior cur (claims_after out (ow_claims prior) d)"
  using assms that
  by (auto simp: reconcileManagedRoutes_def Let_def validate_ledger [symmetric] split: if_splits option.splits)


section \<open>A device that carries out the mutation\<close>

definition apply_mutation :: "mutation \<Rightarrow> route_spec list \<Rightarrow> route_spec list" where
  "apply_mutation m current =
     filter (\<lambda>s. sp_prefix s \<notin> set (mu_remove m) \<and> sp_prefix s \<notin> sp_prefix ` set (mu_upsert m)) current @ mu_upsert m"

lemma currentSpecMap_Some:
  "currentSpecMap specs = Some cur \<longleftrightarrow>
     (\<forall>s \<in> set specs. managed_prefix (sp_prefix s) \<and> valid_utf8 (sp_description s)) \<and> distinct (map sp_prefix specs) \<and>
     cur = map_of (map (\<lambda>s. (sp_prefix s, s)) specs)"
  by (auto simp: currentSpecMap_def)

lemma map_of_self_filter:
  "map_of (map (\<lambda>x. (f x, x)) (filter (\<lambda>x. P (f x)) xs)) k = (if P k then map_of (map (\<lambda>x. (f x, x)) xs) k else None)"
  by (induction xs) auto

lemma apply_mutation_observed:
  assumes "currentSpecMap current = Some cur" "distinct (map sp_prefix (mu_upsert m))"
    "\<forall>s \<in> set (mu_upsert m). managed_prefix (sp_prefix s) \<and> valid_utf8 (sp_description s)"
  obtains cur' where "currentSpecMap (apply_mutation m current) = Some cur'"
    "\<And>s. s \<in> set (mu_upsert m) \<Longrightarrow> cur' (sp_prefix s) = Some s"
    "\<And>p. p \<notin> sp_prefix ` set (mu_upsert m) \<Longrightarrow> cur' p = (if p \<in> set (mu_remove m) then None else cur p)"
proof -
  let ?k = "filter (\<lambda>s. sp_prefix s \<notin> set (mu_remove m) \<and> sp_prefix s \<notin> sp_prefix ` set (mu_upsert m)) current"
  have c: "\<forall>s \<in> set current. managed_prefix (sp_prefix s) \<and> valid_utf8 (sp_description s)" "distinct (map sp_prefix current)"
    "cur = map_of (map (\<lambda>s. (sp_prefix s, s)) current)"
    using assms(1) by (simp_all add: currentSpecMap_Some)
  have d: "distinct (map sp_prefix (apply_mutation m current))"
    using assms(2) distinct_map_filter [OF c(2)] by (auto simp: apply_mutation_def)
  have v: "\<forall>s \<in> set (apply_mutation m current). managed_prefix (sp_prefix s) \<and> valid_utf8 (sp_description s)"
    using c(1) assms(3) by (auto simp: apply_mutation_def)
  define cur' where "cur' = map_of (map (\<lambda>s. (sp_prefix s, s)) (apply_mutation m current))"
  have "currentSpecMap (apply_mutation m current) = Some cur'"
    using d v by (simp add: currentSpecMap_Some cur'_def)
  moreover have "cur' (sp_prefix s) = Some s" if "s \<in> set (mu_upsert m)" for s
    using map_of_self_mem [OF d, of s] that by (simp add: cur'_def apply_mutation_def)
  moreover have "cur' p = (if p \<in> set (mu_remove m) then None else cur p)" if "p \<notin> sp_prefix ` set (mu_upsert m)" for p
  proof -
    have "map_of (map (\<lambda>s. (sp_prefix s, s)) (mu_upsert m)) p = None"
      using that by (simp only: map_of_self_None not_False_eq_True)
    moreover have "map_of (map (\<lambda>s. (sp_prefix s, s)) ?k) p = (if p \<in> set (mu_remove m) then None else cur p)"
      using map_of_self_filter [of sp_prefix "\<lambda>q. q \<notin> set (mu_remove m) \<and> q \<notin> sp_prefix ` set (mu_upsert m)" current p] that
      by (simp add: c(3))
    ultimately show ?thesis
      unfolding cur'_def apply_mutation_def by (simp only: map_append map_of_append map_add_def) (auto split: option.splits)
  qed
  ultimately show ?thesis using that by blast
qed

lemma upserts_facts:
  assumes "ledger_ok prior" "\<forall>c \<in> set claims. claim_valid c" "\<forall>p. length (claim_labels claims p) < 10 ^ 20"
  shows "distinct (map sp_prefix (mu_upsert (reconciled_mutation prior cur claims)))"
    "\<forall>s \<in> set (mu_upsert (reconciled_mutation prior cur claims)). managed_prefix (sp_prefix s) \<and> valid_utf8 (sp_description s)"
proof -
  have "mset (map sp_prefix (mu_upsert (reconciled_mutation prior cur claims))) =
      mset (map sp_prefix (reconciled_upserts prior cur claims))"
    by (simp add: reconciled_mutation_def)
  moreover have "map sp_prefix (reconciled_upserts prior cur claims) =
      filter (\<lambda>p. route_upsert (prior_route (ow_routes prior) p) (cur p) (wanted_description prior claims p)) (claimed_prefixes claims)"
    by (simp add: reconciled_upserts_def comp_def)
  moreover have "distinct (filter P (claimed_prefixes claims))" for P
    by (simp add: claimed_prefixes_def)
  ultimately show "distinct (map sp_prefix (mu_upsert (reconciled_mutation prior cur claims)))"
    by (metis mset_eq_imp_distinct_iff)
  show "\<forall>s \<in> set (mu_upsert (reconciled_mutation prior cur claims)). managed_prefix (sp_prefix s) \<and> valid_utf8 (sp_description s)"
    using assms(2) wanted_valid [OF assms(1)] assms(3)
    by (auto simp: reconciled_mutation_def reconciled_upserts_def claimed_prefixes_def claim_valid_def
        validManagedDescription_def)
qed

lemma set_upserts:
  "s \<in> set (mu_upsert (reconciled_mutation prior cur claims)) \<longleftrightarrow>
     sp_prefix s \<in> cl_prefix ` set claims \<and> sp_description s = wanted_description prior claims (sp_prefix s) \<and>
     sp_labels s = wanted_labels claims (sp_prefix s) \<and>
     route_upsert (prior_route (ow_routes prior) (sp_prefix s)) (cur (sp_prefix s)) (wanted_description prior claims (sp_prefix s))"
  by (cases s) (auto simp: reconciled_mutation_def reconciled_upserts_def claimed_prefixes_def image_iff)

lemma set_removals:
  "p \<in> set (mu_remove (reconciled_mutation prior cur claims)) \<longleftrightarrow>
     (\<exists>r \<in> set (ow_routes prior). mr_created r \<and> mr_prefix r = p) \<and> p \<notin> cl_prefix ` set claims \<and> cur p \<noteq> None"
  by (auto simp: reconciled_mutation_def reconciled_removals_def claimed_prefixes_def)

lemma set_next_routes:
  "r \<in> set (ow_routes (reconciled_ownership prior cur claims)) \<longleftrightarrow>
     mr_prefix r \<in> cl_prefix ` set claims \<and> mr_created r = wanted_created prior cur (mr_prefix r) \<and>
     mr_description r = (if mr_created r then wanted_description prior claims (mr_prefix r) else [])"
  by (cases r) (auto simp: reconciled_ownership_def reconciled_routes_def claimed_prefixes_def image_iff)

text \<open>The observation after the mutation, at a claimed prefix and at a removed one.\<close>

lemma observed_after:
  assumes "ledger_ok prior" "\<forall>c \<in> set claims. claim_valid c" "\<forall>p. length (claim_labels claims p) < 10 ^ 20"
    "currentSpecMap current = Some cur"
  obtains cur' where "currentSpecMap (apply_mutation (reconciled_mutation prior cur claims) current) = Some cur'"
    "\<And>p. p \<in> cl_prefix ` set claims \<Longrightarrow> \<exists>o'. cur' p = Some o' \<and>
       (wanted_created prior cur p \<longrightarrow> sp_description o' = wanted_description prior claims p)"
    "\<And>p. p \<in> set (mu_remove (reconciled_mutation prior cur claims)) \<Longrightarrow> cur' p = None"
proof -
  let ?m = "reconciled_mutation prior cur claims"
  obtain cur' where c: "currentSpecMap (apply_mutation ?m current) = Some cur'"
    "\<And>s. s \<in> set (mu_upsert ?m) \<Longrightarrow> cur' (sp_prefix s) = Some s"
    "\<And>p. p \<notin> sp_prefix ` set (mu_upsert ?m) \<Longrightarrow> cur' p = (if p \<in> set (mu_remove ?m) then None else cur p)"
    using apply_mutation_observed [OF assms(4) upserts_facts [OF assms(1-3)]] by blast
  have claimed: "\<exists>o'. cur' p = Some o' \<and> (wanted_created prior cur p \<longrightarrow> sp_description o' = wanted_description prior claims p)"
    if p: "p \<in> cl_prefix ` set claims" for p
  proof (cases "route_upsert (prior_route (ow_routes prior) p) (cur p) (wanted_description prior claims p)")
    case True
    define s where "s = \<lparr>sp_prefix = p, sp_description = wanted_description prior claims p, sp_labels = wanted_labels claims p\<rparr>"
    have "s \<in> set (mu_upsert ?m)" using True p by (simp add: set_upserts s_def)
    from c(2) [OF this] show ?thesis by (simp add: s_def)
  next
    case False
    then have "p \<notin> sp_prefix ` set (mu_upsert ?m)" by (auto simp: set_upserts)
    moreover have "p \<notin> set (mu_remove ?m)" using p by (auto simp: set_removals)
    ultimately have "cur' p = cur p" using c(3) by simp
    with False show ?thesis
      by (auto simp: route_upsert_def wanted_created_def route_created_def split: option.splits)
  qed
  have "cur' p = None" if "p \<in> set (mu_remove ?m)" for p
  proof -
    have "p \<notin> sp_prefix ` set (mu_upsert ?m)" using that by (auto simp: set_upserts set_removals)
    with c(3) that show ?thesis by simp
  qed
  with claimed c(1) that show ?thesis by blast
qed


section \<open>Reconciling again\<close>

lemma claim_order_inj:
  assumes "\<forall>c \<in> set cs. claim_valid c" "distinct (map claim_key cs)"
  shows "inj_on claim_order (set cs)"
proof (rule inj_onI)
  fix x y assume xy: "x \<in> set cs" "y \<in> set cs" "claim_order x = claim_order y"
  have "managed_prefix (cl_prefix x)" "managed_prefix (cl_prefix y)" using xy(1,2) assms(1) by (auto simp: claim_valid_def)
  with xy(3) have "claim_key x = claim_key y" by (simp add: claim_order_def claim_key_def managed_string_inj)
  with xy(1,2) assms(2) show "x = y" by (metis distinct_map inj_onD)
qed

lemma claims_again:
  assumes "\<forall>c \<in> set claims. claim_valid c" "distinct (map claim_key claims)" "claims = claims_after out cs d"
  shows "sort_key claim_order (claims_after out (sort_key claim_order claims) d) = sort_key claim_order claims"
    "set (claims_after out (sort_key claim_order claims) d) = set claims"
proof -
  let ?m = "map (\<lambda>s. \<lparr>cl_output = out, cl_prefix = sp_prefix s, cl_description = sp_description s, cl_labels = sp_labels s\<rparr>) d"
  have "filter (\<lambda>c. cl_output c \<noteq> out) ?m = []" by (auto simp: filter_empty_conv)
  then have "filter (\<lambda>c. cl_output c \<noteq> out) claims = filter (\<lambda>c. cl_output c \<noteq> out) cs"
    by (simp add: assms(3) claims_after_def)
  then have "mset (filter (\<lambda>c. cl_output c \<noteq> out) (sort_key claim_order claims)) = mset (filter (\<lambda>c. cl_output c \<noteq> out) cs)"
    by (metis mset_filter mset_sort)
  then have e: "mset (claims_after out (sort_key claim_order claims) d) = mset claims"
    unfolding assms(3) by (simp only: claims_after_def mset_append)
  then show "set (claims_after out (sort_key claim_order claims) d) = set claims" by (rule mset_eq_setD)
  with e claim_order_inj [OF assms(1,2)]
  show "sort_key claim_order (claims_after out (sort_key claim_order claims) d) = sort_key claim_order claims"
    by (intro sort_key_perm) simp_all
qed

lemma prior_route_next:
  assumes "ledger_ok (reconciled_ownership prior cur claims)" "p \<in> cl_prefix ` set claims"
  shows "prior_route (ow_routes (reconciled_ownership prior cur claims)) p =
    Some \<lparr>mr_prefix = p, mr_description = (if wanted_created prior cur p then wanted_description prior claims p else []),
          mr_created = wanted_created prior cur p\<rparr>"
proof -
  let ?r = "\<lparr>mr_prefix = p, mr_description = (if wanted_created prior cur p then wanted_description prior claims p else []),
          mr_created = wanted_created prior cur p\<rparr>"
  have "?r \<in> set (ow_routes (reconciled_ownership prior cur claims))" using assms(2) by (simp add: set_next_routes)
  moreover have "distinct (map mr_prefix (ow_routes (reconciled_ownership prior cur claims)))"
    using assms(1) by (simp add: ledger_ok_def)
  ultimately show ?thesis using prior_route_mem by fastforce
qed

lemma wanted_labels_cong:
  assumes "set cs = set ds"
  shows "wanted_labels cs p = wanted_labels ds p"
proof -
  have "set (claim_labels cs p) = set (claim_labels ds p)" using assms by (simp add: claim_labels_set)
  with sort_unique_eqI [OF this] show ?thesis by (simp add: wanted_labels_def stable_labels_set)
qed

lemma reconcile_again:
  assumes "ledger_ok prior" "\<forall>c \<in> set claims. claim_valid c" "distinct (map claim_key claims)"
    "\<forall>p. length (claim_labels claims p) < 10 ^ 20" "currentSpecMap current = Some cur"
    "claims = claims_after out (ow_claims prior) d"
    "currentSpecMap (apply_mutation (reconciled_mutation prior cur claims) current) = Some cur'"
  defines "next \<equiv> reconciled_ownership prior cur claims"
  defines "claims' \<equiv> claims_after out (ow_claims next) d"
  shows "reconciled_mutation next cur' claims' = \<lparr>mu_upsert = [], mu_remove = []\<rparr>"
    "reconciled_ownership next cur' claims' = next"
proof -
  note ok = reconciled_ok [OF assms(1-4), of cur, folded next_def]
  obtain cur'' where o: "currentSpecMap (apply_mutation (reconciled_mutation prior cur claims) current) = Some cur''"
    "\<And>p. p \<in> cl_prefix ` set claims \<Longrightarrow> \<exists>o'. cur'' p = Some o' \<and>
       (wanted_created prior cur p \<longrightarrow> sp_description o' = wanted_description prior claims p)"
    "\<And>p. p \<in> set (mu_remove (reconciled_mutation prior cur claims)) \<Longrightarrow> cur'' p = None"
    by (rule observed_after [OF assms(1,2,4,5)]) metis
  have eq: "cur'' = cur'" using o(1) assms(7) by (metis option.inject)
  note seen = o(2) [unfolded eq]
  have cl: "ow_claims next = sort_key claim_order claims" by (simp add: next_def reconciled_ownership_def)
  note again = claims_again [OF assms(2,3,6), folded cl, folded claims'_def]
  note known = prior_route_next [of prior cur claims, folded next_def, OF ok]
  have created: "wanted_created next cur' p = wanted_created prior cur p" if "p \<in> cl_prefix ` set claims" for p
    using seen [OF that] known [OF that] by (auto simp: wanted_created_def route_created_def)
  have description: "wanted_description next claims' p = wanted_description prior claims p"
    if "p \<in> cl_prefix ` set claims" "wanted_created prior cur p" for p
  proof -
    have "CompactManagedRouteDescription (wanted_labels claims' p) = CompactManagedRouteDescription (claim_labels claims p)"
      unfolding wanted_labels_cong [OF again(2)] by (simp add: wanted_labels_def compact_stable)
    then show ?thesis
      using known [OF that(1)] that(2) wanted_compact [of claims p prior]
      by (auto simp: wanted_description_def [of "next"] route_description_def Let_def)
  qed
  have "\<not> route_upsert (prior_route (ow_routes next) p) (cur' p) (wanted_description next claims' p)"
    if "p \<in> cl_prefix ` set claims" for p
    using seen [OF that] known [OF that] description [OF that] by (auto simp: route_upsert_def)
  then have "\<forall>s. s \<notin> set (mu_upsert (reconciled_mutation next cur' claims'))"
    using again(2) by (auto simp: set_upserts)
  then have "mu_upsert (reconciled_mutation next cur' claims') = []" by (meson last_in_set)
  moreover have "mr_prefix ` set (ow_routes next) = cl_prefix ` set claims"
    using arg_cong [OF reconciled_routes_prefixes [of prior cur claims], of set]
    by (simp add: next_def reconciled_ownership_def)
  then have "\<forall>p. p \<notin> set (mu_remove (reconciled_mutation next cur' claims'))"
    using again(2) by (auto simp: set_removals)
  then have "mu_remove (reconciled_mutation next cur' claims') = []" by (meson last_in_set)
  ultimately show "reconciled_mutation next cur' claims' = \<lparr>mu_upsert = [], mu_remove = []\<rparr>"
    by (cases "reconciled_mutation next cur' claims'") simp
  let ?f = "\<lambda>r. prefix_string (mr_prefix r)"
  let ?g = "\<lambda>p. \<lparr>mr_prefix = p, mr_description = (if wanted_created prior cur p then wanted_description prior claims p else []),
          mr_created = wanted_created prior cur p\<rparr>"
  have r: "reconciled_routes next cur' claims' = map ?g (claimed_prefixes claims')"
    using created description again(2) by (auto simp: reconciled_routes_def claimed_prefixes_def)
  have "mset (claimed_prefixes claims') = mset (claimed_prefixes claims)"
    using again(2) by (simp add: claimed_prefixes_def set_eq_iff_mset_eq_distinct [symmetric])
  then have "mset (reconciled_routes next cur' claims') = mset (reconciled_routes prior cur claims)"
    unfolding r reconciled_routes_def [of prior] by simp
  moreover have "inj_on ?f (set (reconciled_routes next cur' claims'))"
    using assms(2) again(2)
    by (auto simp: inj_on_def reconciled_routes_def claimed_prefixes_def managed_string_inj claim_valid_def)
  ultimately have "sort_key ?f (reconciled_routes next cur' claims') = sort_key ?f (reconciled_routes prior cur claims)"
    by (rule sort_key_perm)
  with again(1) show "reconciled_ownership next cur' claims' = next"
    by (simp add: reconciled_ownership_def [of "next"] cl) (simp add: next_def reconciled_ownership_def)
qed


section \<open>Properties\<close>

definition sample_prefix :: "32 word \<Rightarrow> prefix" where
  "sample_prefix a = Prefix (V4 a) 24"

definition sample_hex :: "char \<Rightarrow> string" where
  "sample_hex c = replicate 32 c"

definition sample_ledger :: ownership where
  "sample_ledger =
     \<lparr>ow_scope = \<lparr>scope_endpoint = ''e'', scope_target = ''t'', scope_interface = ''i''\<rparr>,
      ow_routes = [\<lparr>mr_prefix = sample_prefix 0xC0000200, mr_description = ''(a/b)'', mr_created = True\<rparr>,
                   \<lparr>mr_prefix = sample_prefix 0xC6336400, mr_description = [], mr_created = False\<rparr>],
      ow_claims = [\<lparr>cl_output = sample_hex CHR ''1'', cl_prefix = sample_prefix 0xC0000200, cl_description = [], cl_labels = []\<rparr>,
                   \<lparr>cl_output = sample_hex CHR ''2'', cl_prefix = sample_prefix 0xC6336400, cl_description = [], cl_labels = []\<rparr>]\<rparr>"

definition sample_desired :: "route_spec list" where
  "sample_desired = [\<lparr>sp_prefix = sample_prefix 0xCB007100, sp_description = ''(e/f)'', sp_labels = [''(e/f)'']\<rparr>]"

definition sample_current :: "route_spec list" where
  "sample_current = [\<lparr>sp_prefix = sample_prefix 0xC0000200, sp_description = ''(a/b)'', sp_labels = []\<rparr>,
     \<lparr>sp_prefix = sample_prefix 0xC6336400, sp_description = ''x'', sp_labels = []\<rparr>]"

lemma chunks_Cons: "chunks (c # cs) = (let n = max 1 (rune_width (c # cs)) in take n (c # cs) # chunks (drop n (c # cs)))"
  by (subst chunks.simps) simp

lemmas label_eval = validManagedLabel_def validManagedDescription_def MaxManagedRouteDescriptionBytes_def valid_utf8_ascii
  rune_codes_def chunks_Cons Let_def seq_width.simps chunk_rune_def control_rune_def string_fields_def rune_space_def

lemmas prefix_eval = sample_prefix_def managed_prefix_def prefix_valid_def masked_def prefix_from_def clear_low_def

lemma compact_Nil: "CompactManagedRouteDescription [] = []"
  by (simp add: CompactManagedRouteDescription_def canonicalManagedLabels_iff canonicalManagedLabels_def StableStrings_sort_unique)

lemma compact_sample: "CompactManagedRouteDescription [''(e/f)''] = ''(e/f)''"
  by (simp add: CompactManagedRouteDescription_def canonicalManagedLabels_def StableStrings_def truncateManagedLabel_def label_eval)

lemma hex_sample: "isHexID (sample_hex CHR ''1'')" "isHexID (sample_hex CHR ''2'')"
  by (simp_all add: isHexID_def sample_hex_def to_lower_def lower_def is_upper_def is_hex_def is_dec_def char_le_iff)

lemma ledger_sample: "validateManagedRouteOwnership sample_ledger = None"
  unfolding validate_ledger
  by (simp add: ledger_ok_def sample_ledger_def validManagedRouteScope_def prefix_eval label_eval claim_valid_def hex_sample
      canonicalManagedLabels_def StableStrings_def compact_Nil claim_labels_def labels_of_def claim_key_def)

lemma inputs_sample: "canonicalDesiredSpecs sample_desired \<noteq> None" "currentSpecMap sample_current \<noteq> None"
  by (simp_all add: canonicalDesiredSpecs_def currentSpecMap_def sample_desired_def sample_current_def valid_spec_def
      prefix_eval compact_sample canonicalManagedLabels_def StableStrings_def label_eval)

lemma total_sample: "total_labels sample_ledger sample_desired < 10 ^ 20"
  by (simp add: total_labels_def sample_ledger_def sample_desired_def)

lemma sample_reconciles:
  obtains m "next" where "reconcileManagedRoutes sample_ledger (sample_hex CHR ''1'') sample_desired sample_current = Ok (m, next)"
  using reconcile_outcome(1) [OF hex_sample(1) _ _ _ total_sample] ledger_sample inputs_sample
  by (auto simp: validate_ledger)

text \<open>
  C15. Reconciliation never touches what is not Routevane's: the removed routes were created by it, are on
  the device and claimed by no output any more; an existing route is rewritten only if Routevane created it;
  the claims of the other outputs stay, this output claims exactly its desired routes, and the new ledger is
  valid.
\<close>

theorem managed_reconcile_safe:
  assumes "reconcileManagedRoutes prior out desired current = Ok (m, next)"
  shows "set (mu_remove m) \<subseteq> mr_prefix ` {r \<in> set (ow_routes prior). mr_created r} \<and>
    set (mu_remove m) \<inter> cl_prefix ` set (ow_claims next) = {} \<and>
    set (mu_remove m) \<subseteq> sp_prefix ` set current \<and>
    sp_prefix ` set (mu_upsert m) \<inter> sp_prefix ` set current \<subseteq> mr_prefix ` {r \<in> set (ow_routes prior). mr_created r} \<and>
    {c \<in> set (ow_claims next). cl_output c \<noteq> out} = {c \<in> set (ow_claims prior). cl_output c \<noteq> out} \<and>
    cl_prefix ` {c \<in> set (ow_claims next). cl_output c = out} = sp_prefix ` set desired \<and>
    validateManagedRouteOwnership next = None"
proof -
  obtain d cur where d: "canonicalDesiredSpecs desired = Some d" "currentSpecMap current = Some cur" "ledger_ok next"
    and m: "m = reconciled_mutation prior cur (claims_after out (ow_claims prior) d)"
    and n: "next = reconciled_ownership prior cur (claims_after out (ow_claims prior) d)"
    using reconcile_OkD [OF assms] by metis
  let ?cs = "claims_after out (ow_claims prior) d"
  have cur: "cur p \<noteq> None \<longleftrightarrow> p \<in> sp_prefix ` set current" for p
    using d(2) map_of_self_None [of sp_prefix current p] by (auto simp: currentSpecMap_Some)
  have cl: "set (ow_claims next) = set ?cs" by (simp add: n reconciled_ownership_def)
  have "set (mu_remove m) \<subseteq> mr_prefix ` {r \<in> set (ow_routes prior). mr_created r}"
    "set (mu_remove m) \<inter> cl_prefix ` set (ow_claims next) = {}" "set (mu_remove m) \<subseteq> sp_prefix ` set current"
    using cur unfolding m cl by (force simp: set_removals)+
  moreover have "sp_prefix ` set (mu_upsert m) \<inter> sp_prefix ` set current \<subseteq> mr_prefix ` {r \<in> set (ow_routes prior). mr_created r}"
  proof
    fix p assume "p \<in> sp_prefix ` set (mu_upsert m) \<inter> sp_prefix ` set current"
    then have "route_upsert (prior_route (ow_routes prior) p) (cur p) (wanted_description prior ?cs p)" "cur p \<noteq> None"
      using cur by (auto simp: m set_upserts)
    then obtain r where "prior_route (ow_routes prior) p = Some r" "mr_created r"
      by (auto simp: route_upsert_def split: option.splits)
    then show "p \<in> mr_prefix ` {r \<in> set (ow_routes prior). mr_created r}" by (auto dest: prior_route_SomeD)
  qed
  moreover have "{c \<in> set (ow_claims next). cl_output c \<noteq> out} = {c \<in> set (ow_claims prior). cl_output c \<noteq> out}"
    unfolding cl by (auto simp: claims_after_set)
  moreover have "{c \<in> set (ow_claims next). cl_output c = out} =
      (\<lambda>s. \<lparr>cl_output = out, cl_prefix = sp_prefix s, cl_description = sp_description s, cl_labels = sp_labels s\<rparr>) ` set d"
    unfolding cl by (auto simp: claims_after_set)
  then have "cl_prefix ` {c \<in> set (ow_claims next). cl_output c = out} = sp_prefix ` set desired"
    by (simp add: image_image desired_specs(2) [OF d(1), symmetric])
  ultimately show ?thesis using d(3) by (simp add: validate_ledger)
qed

theorem managed_reconcile_safe_witness:
  "\<exists>m next. reconcileManagedRoutes sample_ledger (sample_hex CHR ''1'') sample_desired sample_current = Ok (m, next) \<and>
     set (mu_remove m) \<subseteq> sp_prefix ` set sample_current \<and> validateManagedRouteOwnership next = None"
proof -
  obtain m "next" where r: "reconcileManagedRoutes sample_ledger (sample_hex CHR ''1'') sample_desired sample_current = Ok (m, next)"
    by (rule sample_reconciles)
  from managed_reconcile_safe [OF r]
  have "set (mu_remove m) \<subseteq> sp_prefix ` set sample_current" "validateManagedRouteOwnership next = None" by simp_all
  with r show ?thesis by metis
qed

text \<open>
  C17. Reconciliation fails only on its inputs: with a valid output id, a valid ledger, valid desired and
  observed routes, the ledger it builds always passes its own validation. The bound on the number of
  labels is far above what a 64-bit machine can hold.
\<close>

theorem managed_reconcile_total:
  assumes "total_labels prior desired < 10 ^ 20"
  shows "is_ok (reconcileManagedRoutes prior out desired current) \<longleftrightarrow>
    isHexID out \<and> validateManagedRouteOwnership prior = None \<and> canonicalDesiredSpecs desired \<noteq> None \<and>
    currentSpecMap current \<noteq> None"
proof
  assume "is_ok (reconcileManagedRoutes prior out desired current)"
  then obtain m "next" where "reconcileManagedRoutes prior out desired current = Ok (m, next)" by (auto simp: is_ok_iff)
  from reconcile_OkD [OF this] show "isHexID out \<and> validateManagedRouteOwnership prior = None \<and>
    canonicalDesiredSpecs desired \<noteq> None \<and> currentSpecMap current \<noteq> None"
    by (metis option.distinct(1) validate_ledger)
next
  assume "isHexID out \<and> validateManagedRouteOwnership prior = None \<and> canonicalDesiredSpecs desired \<noteq> None \<and>
    currentSpecMap current \<noteq> None"
  then show "is_ok (reconcileManagedRoutes prior out desired current)"
    using reconcile_outcome(1) [OF _ _ _ _ assms] by (auto simp: validate_ledger)
qed

theorem managed_reconcile_total_witness:
  "is_ok (reconcileManagedRoutes sample_ledger (sample_hex CHR ''1'') sample_desired sample_current)"
  unfolding managed_reconcile_total [OF total_sample] using hex_sample(1) ledger_sample inputs_sample by blast

text \<open>
  C16. Reconciliation converges: once the device carries out the mutation, the verification succeeds, and
  reconciling the new ledger with the new observation asks for no change and keeps the ledger as it is.
\<close>

theorem managed_reconcile_converges:
  assumes "reconcileManagedRoutes prior out desired current = Ok (m, next)" "total_labels prior desired < 10 ^ 20"
  shows "verifyManagedRouteMutation next m (apply_mutation m current) = None \<and>
    reconcileManagedRoutes next out desired (apply_mutation m current) = Ok (\<lparr>mu_upsert = [], mu_remove = []\<rparr>, next)"
proof -
  obtain d cur where i: "isHexID out" "ledger_ok prior" "canonicalDesiredSpecs desired = Some d"
      "currentSpecMap current = Some cur" "ledger_ok next"
    and m: "m = reconciled_mutation prior cur (claims_after out (ow_claims prior) d)"
    and n: "next = reconciled_ownership prior cur (claims_after out (ow_claims prior) d)"
    by (rule reconcile_OkD [OF assms(1)])
  let ?cs = "claims_after out (ow_claims prior) d"
  note c = reconcile_outcome(3,4) [OF i(1-4) assms(2)]
  have "\<forall>s \<in> set d. length (sp_labels s) \<le> length (concat (map sp_labels desired))" using desired_specs(3) [OF i(3)] by blast
  from claims_after_labels [OF desired_specs(1) [OF i(3)] this] assms(2)
  have small: "\<forall>p. length (claim_labels ?cs p) < 10 ^ 20" by (meson le_less_trans)
  obtain cur' where o: "currentSpecMap (apply_mutation m current) = Some cur'"
    and claimed: "\<And>p. p \<in> cl_prefix ` set ?cs \<Longrightarrow> \<exists>o'. cur' p = Some o' \<and>
       (wanted_created prior cur p \<longrightarrow> sp_description o' = wanted_description prior ?cs p)"
    and removed: "\<And>p. p \<in> set (mu_remove m) \<Longrightarrow> cur' p = None"
    unfolding m by (rule observed_after [OF i(2) c(1) small i(4)]) metis
  have "\<exists>o'. cur' (mr_prefix r) = Some o' \<and> (mr_created r \<longrightarrow> sp_description o' = mr_description r)"
    if "r \<in> set (ow_routes next)" for r
    using that claimed [of "mr_prefix r"] unfolding n set_next_routes by auto
  then have "verifyManagedRouteMutation next m (apply_mutation m current) = None"
    using removed by (fastforce simp: verifyManagedRouteMutation_def o filter_empty_conv Let_def split: option.splits)
  moreover have "reconciled_mutation next cur' (claims_after out (ow_claims next) d) = \<lparr>mu_upsert = [], mu_remove = []\<rparr>"
    "reconciled_ownership next cur' (claims_after out (ow_claims next) d) = next"
    using reconcile_again [OF i(2) c small i(4) refl o [unfolded m]] unfolding n by blast+
  ultimately show ?thesis
    using i by (simp add: reconcileManagedRoutes_def o validate_ledger [symmetric] Let_def)
qed

theorem managed_reconcile_converges_witness:
  "\<exists>m next. reconcileManagedRoutes sample_ledger (sample_hex CHR ''1'') sample_desired sample_current = Ok (m, next) \<and>
     verifyManagedRouteMutation next m (apply_mutation m sample_current) = None"
proof -
  obtain m "next" where r: "reconcileManagedRoutes sample_ledger (sample_hex CHR ''1'') sample_desired sample_current = Ok (m, next)"
    by (rule sample_reconciles)
  from managed_reconcile_converges [OF r total_sample]
  have "verifyManagedRouteMutation next m (apply_mutation m sample_current) = None" by simp
  with r show ?thesis by metis
qed

text \<open>
  C18. The device comment of any provenance set is well-formed UTF-8 without control characters and at most
  96 bytes long: a label is cut only between runes.
\<close>

theorem managed_description_bound:
  assumes "length labels < 10 ^ 20"
  shows "valid_utf8 (CompactManagedRouteDescription labels) \<and> length (CompactManagedRouteDescription labels) \<le> 96 \<and>
    set (rune_codes (CompactManagedRouteDescription labels)) \<inter> Collect control_rune = {}"
  using compact_description_bound [OF assms] by (auto simp: validManagedDescription_def MaxManagedRouteDescriptionBytes_def)

theorem managed_description_bound_witness:
  "length (CompactManagedRouteDescription [''(e/f)'']) \<le> 96"
  using managed_description_bound [of "[''(e/f)'']"] by simp

end
