(* ===== verification/Deploy.thy ===== *)
theory Deploy
  imports ManagedRoutes
begin

text \<open>
  \<open>internal/application/deploy.go\<close> and the ledger type of \<open>managed_fqdn.go\<close>: one deployment, from the
  probe to the rollback. The state \<open>'w\<close> is the world behind the interfaces the code calls (the device, the
  backup store, the ledgers and the clock); each call takes it and returns it. An error is the list of the
  sentinels \<open>errors.Is\<close> finds in it: \<open>%w\<close> and \<open>errors.Join\<close> keep those of the wrapped error, \<open>%v\<close> drops them.
\<close>

datatype sentinel =
    ErrDeployComposition | ErrDeviceIncompatible | ErrBackupRequired | ErrDeployFailed | ErrVerifyFailed
  | ErrRollbackFailed | ErrOwnershipPersist | ErrDeployerUnavailable | ErrConnectionInvalid | ErrAddressRejected
  | ErrDeviceUnchanged | ErrFQDNOwnershipConflict | ErrNotFound | ErrDeadlineExceeded | ErrOther string

type_synonym go_error = "sentinel list"

definition is_error :: "go_error \<Rightarrow> sentinel \<Rightarrow> bool" where
  "is_error e s \<longleftrightarrow> s \<in> set e"

record connection =
  cn_url :: string
  cn_username :: string
  cn_password :: string
  cn_interface :: string

definition Redacted :: "connection \<Rightarrow> connection" where
  "Redacted c = c\<lparr>cn_password := []\<rparr>"

record device_info =
  di_deployer :: string
  di_vendor :: string
  di_model :: string
  di_firmware :: string
  di_format :: string
  di_interface :: string

record backup_ref =
  br_id :: string
  br_path :: string
  br_hash :: string
  br_size :: int
  br_created :: time

definition Verified :: "backup_ref \<Rightarrow> bool" where
  "Verified b \<longleftrightarrow> br_id b \<noteq> [] \<and> br_path b \<noteq> [] \<and> br_hash b \<noteq> [] \<and> 0 < br_size b \<and> br_created b \<noteq> 0"

definition no_backup :: backup_ref where
  "no_backup = \<lparr>br_id = [], br_path = [], br_hash = [], br_size = 0, br_created = 0\<rparr>"

record backup_payload =
  bp_ref :: backup_ref
  bp_payload :: string

record fqdn_group =
  fg_name :: string
  fg_entries :: "string list"
  fg_description :: string
  fg_interface :: string
  fg_auto :: bool

record fqdn_ownership =
  fo_endpoint :: string
  fo_output :: string
  fo_groups :: "fqdn_group list"

record artifact =
  ar_id :: string
  ar_renderer :: string
  ar_hash :: string
  ar_content :: string
  ar_payload :: string
  ar_snapshot :: string
  ar_plan_hash :: string
  ar_plan :: string
  ar_groups :: "fqdn_group list"

text \<open>The optional interfaces of a deployer, the deployer itself and the stores, as records of operations.\<close>

record 'w route_deployer =
  rd_scope :: "target_def \<Rightarrow> connection \<Rightarrow> 'w \<Rightarrow> (go_error, route_scope) result \<times> 'w"
  rd_desired :: "artifact \<Rightarrow> 'w \<Rightarrow> (go_error, route_spec list) result \<times> 'w"
  rd_current :: "device_info \<Rightarrow> connection \<Rightarrow> 'w \<Rightarrow> (go_error, route_spec list) result \<times> 'w"
  rd_apply :: "device_info \<Rightarrow> connection \<Rightarrow> mutation \<Rightarrow> 'w \<Rightarrow> go_error option \<times> 'w"

record 'w fqdn_deployer =
  fd_endpoint :: "connection \<Rightarrow> 'w \<Rightarrow> (go_error, string) result \<times> 'w"
  fd_desired :: "device_info \<Rightarrow> artifact \<Rightarrow> 'w \<Rightarrow> (go_error, fqdn_group list) result \<times> 'w"
  fd_preview :: "device_info \<Rightarrow> connection \<Rightarrow> artifact \<Rightarrow> 'w \<Rightarrow> (go_error, string list) result \<times> 'w"

datatype run_context = CallerContext | DetachedContext

record 'w deployer =
  dp_id :: string
  dp_validate :: "connection \<Rightarrow> 'w \<Rightarrow> go_error option \<times> 'w"
  dp_probe :: "connection \<Rightarrow> 'w \<Rightarrow> (device_info \<times> go_error option) \<times> 'w"
  dp_backup :: "device_info \<Rightarrow> connection \<Rightarrow> 'w \<Rightarrow> (backup_payload \<times> go_error option) \<times> 'w"
  dp_deploy :: "device_info \<Rightarrow> connection \<Rightarrow> artifact \<Rightarrow> 'w \<Rightarrow> go_error option \<times> 'w"
  dp_verify :: "device_info \<Rightarrow> connection \<Rightarrow> artifact \<Rightarrow> 'w \<Rightarrow> go_error option \<times> 'w"
  dp_rollback :: "run_context \<Rightarrow> device_info \<Rightarrow> connection \<Rightarrow> backup_payload \<Rightarrow> 'w \<Rightarrow> go_error option \<times> 'w"
  dp_routes :: "'w route_deployer option"
  dp_fqdn :: "'w fqdn_deployer option"
  dp_mutating :: "(device_info \<Rightarrow> connection \<Rightarrow> artifact \<Rightarrow> 'w \<Rightarrow> (bool \<times> go_error option) \<times> 'w) option"

record 'w route_repository =
  rr_read :: "route_scope \<Rightarrow> 'w \<Rightarrow> (go_error, ownership) result \<times> 'w"
  rr_replace :: "ownership \<Rightarrow> 'w \<Rightarrow> go_error option \<times> 'w"

record 'w fqdn_repository =
  fr_read :: "string \<Rightarrow> string \<Rightarrow> 'w \<Rightarrow> (go_error, fqdn_ownership) result \<times> 'w"
  fr_replace :: "fqdn_ownership \<Rightarrow> 'w \<Rightarrow> go_error option \<times> 'w"

text \<open>The registry, the backup store, the clock, and \<open>net/url\<close>'s verdict on a ledger's endpoint.\<close>

record 'w deploy_env =
  de_deployers :: "(string \<times> 'w deployer) list"
  de_put_backup :: "string \<Rightarrow> time \<Rightarrow> string \<Rightarrow> 'w \<Rightarrow> (go_error, backup_ref) result \<times> 'w"
  de_now :: "'w \<Rightarrow> time \<times> 'w"
  de_endpoint_ok :: "string \<Rightarrow> bool"

record 'w deploy_request =
  rq_target :: target_def
  rq_connection :: connection
  rq_artifact :: artifact
  rq_output :: string
  rq_routes :: "'w route_repository option"
  rq_fqdn :: "'w fqdn_repository option"

section \<open>The group ledger\<close>

definition group_name_char :: "char \<Rightarrow> bool" where
  "group_name_char c \<longleftrightarrow> is_lower c \<or> is_dec c \<or> c = CHR ''-''"

definition fqdn_group_ok :: "fqdn_group \<Rightarrow> bool" where
  "fqdn_group_ok g \<longleftrightarrow> fg_name g \<noteq> [] \<and> length (fg_name g) \<le> 64 \<and> fg_interface g \<noteq> [] \<and> fg_entries g \<noteq> [] \<and>
     length (fg_entries g) \<le> 300 \<and> validManagedDescription (fg_description g) \<and> (\<forall>c \<in> set (fg_name g). group_name_char c) \<and>
     (\<forall>c \<in> set (fg_interface g). byte c \<notin> {13, 10, 0})"

definition fqdn_ownership_ok :: "(string \<Rightarrow> bool) \<Rightarrow> fqdn_ownership \<Rightarrow> bool" where
  "fqdn_ownership_ok endpoint_ok s \<longleftrightarrow> endpoint_ok (fo_endpoint s) \<and> isHexID (fo_output s) \<and> length (fo_groups s) \<le> 128 \<and>
     (\<forall>g \<in> set (fo_groups s). fqdn_group_ok g) \<and> distinct (map fg_name (fo_groups s))"

section \<open>The audited result\<close>

datatype deploy_step = StepProbe | StepBackup | StepDeploy | StepVerify | StepOwnership | StepRollback

record deploy_event =
  ev_step :: deploy_step
  ev_success :: bool
  ev_detail :: string
  ev_duration :: int

record deploy_result =
  dr_device :: "device_info option"
  dr_backup :: backup_ref
  dr_artifact :: string
  dr_applied :: bool
  dr_rolled_back :: bool
  dr_events :: "deploy_event list"

definition FailedStep :: "deploy_result \<Rightarrow> deploy_step option" where
  "FailedStep r = map_option ev_step (find (\<lambda>e. \<not> ev_success e) (rev (dr_events r)))"

definition record_step ::
  "'w deploy_env \<Rightarrow> deploy_step \<Rightarrow> time \<Rightarrow> go_error option \<Rightarrow> string \<Rightarrow> deploy_result \<Rightarrow> 'w \<Rightarrow> deploy_result \<times> 'w" where
  "record_step env step started err detail res w =
     (let (t, w') = de_now env w in
      (res\<lparr>dr_events := dr_events res @ [\<lparr>ev_step = step, ev_success = (err = None), ev_detail = detail, ev_duration = t - started\<rparr>]\<rparr>, w'))"

section \<open>Backup and recovery\<close>

definition storeVerifiedBackup ::
  "'w deploy_env \<Rightarrow> 'w deployer \<Rightarrow> device_info \<Rightarrow> connection \<Rightarrow> deploy_result \<Rightarrow> 'w \<Rightarrow>
     (go_error, backup_payload) result \<times> deploy_result \<times> 'w" where
  "storeVerifiedBackup env dep device conn res w =
     (let (started, w) = de_now env w;
          ((backup, err), w) = dp_backup dep device conn w;
          (res, w) = record_step env StepBackup started err (br_hash (bp_ref backup)) res w
      in case err of
           Some _ \<Rightarrow> (Err [ErrBackupRequired], res, w)
         | None \<Rightarrow>
             if bp_payload backup = [] then (Err [ErrBackupRequired], res, w)
             else let (t, w) = de_now env w in
               case de_put_backup env (di_deployer device) t (bp_payload backup) w of
                 (Err _, w) \<Rightarrow> (Err [ErrBackupRequired], res, w)
               | (Ok stored, w) \<Rightarrow>
                   if \<not> Verified stored then (Err [ErrBackupRequired], res, w)
                   else (Ok (backup\<lparr>bp_ref := stored\<rparr>), res, w))"

definition restoreDetached ::
  "'w deploy_env \<Rightarrow> 'w deployer \<Rightarrow> device_info \<Rightarrow> connection \<Rightarrow> backup_payload \<Rightarrow> deploy_result \<Rightarrow> 'w \<Rightarrow>
     go_error option \<times> deploy_result \<times> 'w" where
  "restoreDetached env dep device conn backup res w =
     (let (started, w) = de_now env w;
          (err, w) = dp_rollback dep DetachedContext device conn backup w;
          (res, w) = record_step env StepRollback started err (br_id (bp_ref backup)) res w
      in (err, res, w))"


section \<open>Preparation\<close>

text \<open>The ledger of DNS groups: the artifact with its owned groups and the groups it will own.\<close>

definition prepare_fqdn ::
  "'w deploy_env \<Rightarrow> 'w deploy_request \<Rightarrow> 'w deployer \<Rightarrow> device_info \<Rightarrow> 'w \<Rightarrow>
     (go_error, artifact \<times> fqdn_ownership option) result \<times> 'w" where
  "prepare_fqdn env rq dep device w =
     (case dp_fqdn dep of
        None \<Rightarrow> (Ok (rq_artifact rq, None), w)
      | Some fd \<Rightarrow> (case rq_fqdn rq of
          None \<Rightarrow> (Err [ErrDeployComposition], w)
        | Some repo \<Rightarrow>
            if \<not> isHexID (rq_output rq) then (Err [ErrDeployComposition], w)
            else case fd_endpoint fd (Redacted (rq_connection rq)) w of
              (Err e, w) \<Rightarrow> (Err e, w)
            | (Ok endpoint, w) \<Rightarrow> (case fr_read repo endpoint (rq_output rq) w of
                (Err _, w) \<Rightarrow> (Err [ErrDeployComposition], w)
              | (Ok prior, w) \<Rightarrow>
                  if fo_endpoint prior \<noteq> endpoint \<or> fo_output prior \<noteq> rq_output rq \<or>
                     \<not> fqdn_ownership_ok (de_endpoint_ok env) prior then (Err [ErrDeployComposition], w)
                  else let art = (rq_artifact rq)\<lparr>ar_groups := fo_groups prior\<rparr> in
                    case fd_desired fd device art w of
                      (Err _, w) \<Rightarrow> (Err [ErrDeployComposition], w)
                    | (Ok groups, w) \<Rightarrow> (case fd_preview fd device (rq_connection rq) art w of
                        (Err e, w) \<Rightarrow> (Err (ErrDeployFailed # e), w)
                      | (Ok _, w) \<Rightarrow>
                          (Ok (art, Some \<lparr>fo_endpoint = endpoint, fo_output = rq_output rq, fo_groups = groups\<rparr>), w)))))"

text \<open>The ledger of routes: nothing for an additive deployment, or the deployer's route interface, the
  repository, the prior ledger and the desired routes.\<close>

type_synonym 'w route_work = "'w route_deployer \<times> 'w route_repository \<times> ownership \<times> route_spec list"

definition prepare_routes ::
  "'w deploy_request \<Rightarrow> 'w deployer \<Rightarrow> artifact \<Rightarrow> 'w \<Rightarrow> (go_error, 'w route_work option) result \<times> 'w" where
  "prepare_routes rq dep art w =
     (case (dp_routes dep, rq_routes rq) of
        (Some rd, Some repo) \<Rightarrow>
          if \<not> isHexID (rq_output rq) then (Err [ErrDeployComposition], w)
          else (case rd_scope rd (rq_target rq) (Redacted (rq_connection rq)) w of
            (Err _, w) \<Rightarrow> (Err [ErrDeployComposition], w)
          | (Ok scope, w) \<Rightarrow>
              if \<not> validManagedRouteScope scope then (Err [ErrDeployComposition], w)
              else (case rr_read repo scope w of
                (Err _, w) \<Rightarrow> (Err [ErrDeployComposition], w)
              | (Ok prior, w) \<Rightarrow>
                  if ow_scope prior \<noteq> scope then (Err [ErrDeployComposition], w)
                  else if validateManagedRouteOwnership prior \<noteq> None then (Err [ErrDeployComposition], w)
                  else (case rd_desired rd art w of
                    (Err _, w) \<Rightarrow> (Err [ErrDeployComposition], w)
                  | (Ok desired, w) \<Rightarrow> (Ok (Some (rd, repo, prior, desired)), w))))
      | _ \<Rightarrow> (Ok None, w))"

section \<open>The change and its check\<close>

text \<open>The outcome of the change: whether the device may have changed, the error, and the route mutation
  with the next ledger.\<close>

record installed =
  in_changed :: bool
  in_error :: "go_error option"
  in_mutation :: mutation
  in_next :: "ownership option"

definition no_mutation :: mutation where
  "no_mutation = \<lparr>mu_upsert = [], mu_remove = []\<rparr>"

definition install ::
  "'w deploy_request \<Rightarrow> 'w deployer \<Rightarrow> device_info \<Rightarrow> artifact \<Rightarrow> 'w route_work option \<Rightarrow> 'w \<Rightarrow> installed \<times> 'w" where
  "install rq dep device art work w =
     (case work of
        Some (rd, repo, prior, desired) \<Rightarrow>
          (case rd_current rd device (rq_connection rq) w of
             (Err e, w) \<Rightarrow> (\<lparr>in_changed = False, in_error = Some (ErrDeviceUnchanged # e), in_mutation = no_mutation, in_next = None\<rparr>, w)
           | (Ok current, w) \<Rightarrow> (case reconcileManagedRoutes prior (rq_output rq) desired current of
               Err _ \<Rightarrow> (\<lparr>in_changed = False, in_error = Some [ErrDeviceUnchanged], in_mutation = no_mutation, in_next = None\<rparr>, w)
             | Ok (m, next) \<Rightarrow>
                 if length (mu_upsert m) + length (mu_remove m) > 0 then
                   (let (err, w) = rd_apply rd device (rq_connection rq) m w in
                    (\<lparr>in_changed = True, in_error = err, in_mutation = m, in_next = Some next\<rparr>, w))
                 else (\<lparr>in_changed = False, in_error = None, in_mutation = m, in_next = Some next\<rparr>, w)))
      | None \<Rightarrow> (case dp_mutating dep of
          Some deploy_with_mutation \<Rightarrow>
            (let ((changed, err), w) = deploy_with_mutation device (rq_connection rq) art w in
             (\<lparr>in_changed = changed, in_error = err, in_mutation = no_mutation, in_next = None\<rparr>, w))
        | None \<Rightarrow>
            (let (err, w) = dp_deploy dep device (rq_connection rq) art w in
             (\<lparr>in_changed = True, in_error = err, in_mutation = no_mutation, in_next = None\<rparr>, w))))"

definition check_installed ::
  "'w deploy_request \<Rightarrow> 'w deployer \<Rightarrow> device_info \<Rightarrow> artifact \<Rightarrow> 'w route_work option \<Rightarrow> installed \<Rightarrow> 'w \<Rightarrow>
     go_error option \<times> 'w" where
  "check_installed rq dep device art work ins w =
     (case work of
        Some (rd, repo, prior, desired) \<Rightarrow>
          (case rd_current rd device (rq_connection rq) w of
             (Err e, w) \<Rightarrow> (Some e, w)
           | (Ok current, w) \<Rightarrow>
               (map_option (\<lambda>_. []) (verifyManagedRouteMutation (the (in_next ins)) (in_mutation ins) current), w))
      | None \<Rightarrow> dp_verify dep device (rq_connection rq) art w)"

text \<open>The ledger to persist once the device shows the desired state, if there is one.\<close>

definition persist_ownership ::
  "'w deploy_request \<Rightarrow> 'w route_work option \<Rightarrow> fqdn_ownership option \<Rightarrow> installed \<Rightarrow> ('w \<Rightarrow> go_error option \<times> 'w) option" where
  "persist_ownership rq work next_fqdn ins =
     (case work of
        Some (rd, repo, prior, desired) \<Rightarrow> Some (rr_replace repo (the (in_next ins)))
      | None \<Rightarrow> (case (next_fqdn, rq_fqdn rq) of
          (Some next, Some repo) \<Rightarrow> Some (fr_replace repo next)
        | _ \<Rightarrow> None))"

definition confirm_installed ::
  "'w deploy_env \<Rightarrow> 'w deploy_request \<Rightarrow> 'w deployer \<Rightarrow> device_info \<Rightarrow> artifact \<Rightarrow> 'w route_work option \<Rightarrow>
     fqdn_ownership option \<Rightarrow> installed \<Rightarrow> deploy_result \<Rightarrow> 'w \<Rightarrow> go_error option \<times> deploy_result \<times> 'w" where
  "confirm_installed env rq dep device art work next_fqdn ins res w =
     (let (started, w) = de_now env w;
          (verr, w) = check_installed rq dep device art work ins w;
          (res, w) = record_step env StepVerify started verr (ar_plan_hash art) res w
      in if verr \<noteq> None then (Some [ErrVerifyFailed], res, w)
         else (case persist_ownership rq work next_fqdn ins of
           Some replace \<Rightarrow>
             (let (started, w) = de_now env w;
                  (perr, w) = replace w;
                  (res, w) = record_step env StepOwnership started perr (rq_output rq) res w
              in if perr \<noteq> None then (Some [ErrOwnershipPersist], res, w)
                 else (None, res\<lparr>dr_applied := True\<rparr>, w))
         | None \<Rightarrow> (None, res\<lparr>dr_applied := True\<rparr>, w)))"

section \<open>A deployment\<close>

definition recover ::
  "'w deploy_env \<Rightarrow> 'w deploy_request \<Rightarrow> 'w deployer \<Rightarrow> device_info \<Rightarrow> backup_payload \<Rightarrow> go_error \<Rightarrow>
     deploy_result \<Rightarrow> 'w \<Rightarrow> deploy_result \<times> go_error option \<times> 'w" where
  "recover env rq dep device backup e res w =
     (case restoreDetached env dep device (rq_connection rq) backup res w of
        (Some _, res, w) \<Rightarrow> (res, Some (ErrRollbackFailed # e), w)
      | (None, res, w) \<Rightarrow>
          (res\<lparr>dr_rolled_back := True\<rparr>,
           Some (if is_error e ErrVerifyFailed \<or> is_error e ErrOwnershipPersist then e else ErrDeployFailed # e), w))"

definition deploy_backed ::
  "'w deploy_env \<Rightarrow> 'w deploy_request \<Rightarrow> 'w deployer \<Rightarrow> device_info \<Rightarrow> artifact \<Rightarrow> 'w route_work option \<Rightarrow>
     fqdn_ownership option \<Rightarrow> backup_payload \<Rightarrow> deploy_result \<Rightarrow> 'w \<Rightarrow> deploy_result \<times> go_error option \<times> 'w" where
  "deploy_backed env rq dep device art work next_fqdn backup res w =
     (let (started, w) = de_now env w;
          (ins, w) = install rq dep device art work w;
          (res, w) = record_step env StepDeploy started (in_error ins) (ar_hash art) res w
      in case in_error ins of
           Some e \<Rightarrow>
             if is_error e ErrDeviceUnchanged \<or> is_error e ErrFQDNOwnershipConflict then (res, Some e, w)
             else if \<not> in_changed ins then (res, Some e, w)
             else recover env rq dep device backup e res w
         | None \<Rightarrow> (case confirm_installed env rq dep device art work next_fqdn ins res w of
             (None, res, w) \<Rightarrow> (res, None, w)
           | (Some e, res, w) \<Rightarrow>
               if \<not> in_changed ins then (res, Some e, w) else recover env rq dep device backup e res w))"

definition request_ok :: "'w deploy_request \<Rightarrow> bool" where
  "request_ok rq \<longleftrightarrow>
     td_id (rq_target rq) \<noteq> [] \<and> td_renderer (rq_target rq) \<noteq> [] \<and> td_format (rq_target rq) \<noteq> [] \<and>
     ar_id (rq_artifact rq) \<noteq> [] \<and> ar_payload (rq_artifact rq) \<noteq> [] \<and> ar_hash (rq_artifact rq) \<noteq> [] \<and>
     ar_renderer (rq_artifact rq) = td_renderer (rq_target rq) \<and> cn_url (rq_connection rq) \<noteq> []"

definition deploy_compatible ::
  "'w deploy_env \<Rightarrow> 'w deploy_request \<Rightarrow> 'w deployer \<Rightarrow> device_info \<Rightarrow> deploy_result \<Rightarrow> 'w \<Rightarrow>
     deploy_result \<times> go_error option \<times> 'w" where
  "deploy_compatible env rq dep device res w =
     (case prepare_fqdn env rq dep device w of
        (Err e, w) \<Rightarrow> (res, Some e, w)
      | (Ok (art, next_fqdn), w) \<Rightarrow> (case prepare_routes rq dep art w of
          (Err e, w) \<Rightarrow> (res, Some e, w)
        | (Ok work, w) \<Rightarrow> (case storeVerifiedBackup env dep device (rq_connection rq) res w of
            (Err e, res, w) \<Rightarrow> (res, Some e, w)
          | (Ok backup, res, w) \<Rightarrow>
              deploy_backed env rq dep device art work next_fqdn backup (res\<lparr>dr_backup := bp_ref backup\<rparr>) w)))"

definition DeployToDevice ::
  "'w deploy_env \<Rightarrow> 'w deploy_request \<Rightarrow> 'w \<Rightarrow> deploy_result \<times> go_error option \<times> 'w" where
  "DeployToDevice env rq w =
     (let res = \<lparr>dr_device = None, dr_backup = no_backup, dr_artifact = ar_id (rq_artifact rq), dr_applied = False,
                 dr_rolled_back = False, dr_events = []\<rparr>
      in if de_deployers env = [] \<or> \<not> request_ok rq then (res, Some [ErrDeployComposition], w)
         else case map_of (de_deployers env) (td_renderer (rq_target rq)) of
           None \<Rightarrow> (res, Some [ErrDeployerUnavailable], w)
         | Some dep \<Rightarrow> (case dp_validate dep (rq_connection rq) w of
             (Some e, w) \<Rightarrow> (res, Some (ErrConnectionInvalid # e), w)
           | (None, w) \<Rightarrow>
               let (started, w) = de_now env w;
                   ((device, perr), w) = dp_probe dep (rq_connection rq) w;
                   (res, w) = record_step env StepProbe started perr (di_firmware device) res w
               in case perr of
                    Some e \<Rightarrow> (res, Some (ErrDeployFailed # e), w)
                  | None \<Rightarrow>
                      let device = device\<lparr>di_deployer := dp_id dep\<rparr>; res = res\<lparr>dr_device := Some device\<rparr> in
                      if di_format device = [] \<or> di_format device \<noteq> td_format (rq_target rq)
                      then (res, Some [ErrDeviceIncompatible], w)
                      else deploy_compatible env rq dep device res w))"

end
