(* ===== verification/DeployLaws.thy ===== *)
theory DeployLaws
  imports Deploy
begin

text \<open>
  What a deployment promises: its audit trail follows the fixed order of steps, nothing on the device changes
  without a verified backup, and a deployment that fails leaves the device as it was or says that the
  rollback failed. What the interfaces document is stated as predicates on the observation \<open>obs\<close> of the
  device configuration in a world.
\<close>

section \<open>The audit trail\<close>

fun follows :: "(deploy_step \<times> bool) option \<Rightarrow> deploy_step \<Rightarrow> bool" where
  "follows None s = (s = StepProbe)"
| "follows (Some (StepProbe, ok)) s = (ok \<and> s = StepBackup)"
| "follows (Some (StepBackup, ok)) s = (ok \<and> s = StepDeploy)"
| "follows (Some (StepDeploy, ok)) s = (s = (if ok then StepVerify else StepRollback))"
| "follows (Some (StepVerify, ok)) s = (s = (if ok then StepOwnership else StepRollback))"
| "follows (Some (StepOwnership, ok)) s = (\<not> ok \<and> s = StepRollback)"
| "follows (Some (StepRollback, ok)) s = False"

definition last_outcome :: "deploy_event list \<Rightarrow> (deploy_step \<times> bool) option" where
  "last_outcome es = (if es = [] then None else Some (ev_step (last es), ev_success (last es)))"

inductive audited :: "deploy_event list \<Rightarrow> bool" where
  audited_start: "audited []"
| audited_step: "audited es \<Longrightarrow> follows (last_outcome es) (ev_step e) \<Longrightarrow> audited (es @ [e])"

inductive_simps audited_Nil: "audited []"
inductive_simps audited_snoc: "audited (es @ [e])"

lemma last_outcome_snoc [simp]: "last_outcome (es @ [e]) = Some (ev_step e, ev_success e)"
  by (simp add: last_outcome_def)

lemma last_outcome_Nil [simp]: "last_outcome [] = None"
  by (simp add: last_outcome_def)

lemma record_step_facts:
  assumes "record_step env step started err detail res w = (res', w')"
  shows "last_outcome (dr_events res') = Some (step, err = None)"
    "audited (dr_events res) \<Longrightarrow> follows (last_outcome (dr_events res)) step \<Longrightarrow> audited (dr_events res')"
    "dr_applied res' = dr_applied res" "dr_rolled_back res' = dr_rolled_back res" "dr_backup res' = dr_backup res"
    "w' = snd (de_now env w)"
  using assms by (auto simp: record_step_def audited_snoc split: prod.splits)

text \<open>A result that is still open: nothing applied or rolled back, and the trail ends in the given outcome.\<close>

definition open_after :: "(deploy_step \<times> bool) option \<Rightarrow> deploy_result \<Rightarrow> bool" where
  "open_after o' res \<longleftrightarrow> audited (dr_events res) \<and> last_outcome (dr_events res) = o' \<and> \<not> dr_applied res \<and> \<not> dr_rolled_back res"

lemma record_step_open:
  assumes "record_step env step started err detail res w = (res', w')" "open_after o' res" "follows o' step"
  shows "open_after (Some (step, err = None)) res'"
  using record_step_facts [OF assms(1)] assms(2,3) by (simp add: open_after_def)

lemma storeVerifiedBackup_open:
  assumes "storeVerifiedBackup env dep device conn res w = (r, res', w')" "open_after (Some (StepProbe, True)) res"
  shows "case r of Err _ \<Rightarrow> \<exists>ok. open_after (Some (StepBackup, ok)) res' | Ok b \<Rightarrow> open_after (Some (StepBackup, True)) res' \<and> Verified (bp_ref b)"
  using assms
  by (auto simp: storeVerifiedBackup_def Let_def split: prod.splits if_splits option.splits sum.splits
      dest!: record_step_open [OF _ assms(2)])

lemma restoreDetached_open:
  assumes "restoreDetached env dep device conn backup res w = (err, res', w')" "open_after o' res" "follows o' StepRollback"
  shows "open_after (Some (StepRollback, err = None)) res'"
  using assms by (auto simp: restoreDetached_def split: prod.splits dest!: record_step_open [OF _ assms(2,3)])

text \<open>How a finished result reports what happened.\<close>

definition reported :: "deploy_result \<Rightarrow> go_error option \<Rightarrow> bool" where
  "reported res err \<longleftrightarrow> audited (dr_events res) \<and>
     (dr_applied res \<longleftrightarrow> err = None) \<and>
     (dr_rolled_back res \<longleftrightarrow> last_outcome (dr_events res) = Some (StepRollback, True)) \<and>
     (dr_applied res \<longrightarrow> last_outcome (dr_events res) \<in> {Some (StepVerify, True), Some (StepOwnership, True)}) \<and>
     (last_outcome (dr_events res) = Some (StepRollback, False) \<longrightarrow> ErrRollbackFailed \<in> set (the err))"

lemma reported_refused: "open_after o' res \<Longrightarrow> o' \<notin> {Some (StepRollback, True), Some (StepRollback, False)} \<Longrightarrow> reported res (Some e)"
  by (auto simp: reported_def open_after_def)

lemma recover_reported:
  assumes "recover env rq dep device backup e res w = (res', err, w')" "open_after o' res" "follows o' StepRollback"
  shows "reported res' err"
  using assms
  by (auto simp: recover_def reported_def open_after_def split: prod.splits option.splits dest!: restoreDetached_open [OF _ assms(2,3)])

lemma confirm_installed_open:
  assumes "confirm_installed env rq dep device art work next_fqdn ins res w = (err, res', w')"
    "open_after (Some (StepDeploy, True)) res"
  shows "case err of
      None \<Rightarrow> audited (dr_events res') \<and> dr_applied res' \<and> \<not> dr_rolled_back res' \<and>
        last_outcome (dr_events res') \<in> {Some (StepVerify, True), Some (StepOwnership, True)}
    | Some _ \<Rightarrow> \<exists>s \<in> {StepVerify, StepOwnership}. open_after (Some (s, False)) res'"
proof -
  obtain st w1 verr w2 r1 w3 where v: "de_now env w = (st, w1)" "check_installed rq dep device art work ins w1 = (verr, w2)"
    "record_step env StepVerify st verr (ar_plan_hash art) res w2 = (r1, w3)" by (metis surj_pair)
  have r1: "open_after (Some (StepVerify, verr = None)) r1" by (rule record_step_open [OF v(3) assms(2)]) simp
  show ?thesis
  proof (cases "verr = None")
    case False
    with assms(1) r1 show ?thesis by (auto simp: confirm_installed_def v)
  next
    case True
    show ?thesis
    proof (cases "persist_ownership rq work next_fqdn ins")
      case None
      with assms(1) r1 True show ?thesis by (auto simp: confirm_installed_def v(1,2) v(3) [unfolded True] open_after_def)
    next
      case (Some replace)
      obtain st' w4 perr w5 r2 w6 where p: "de_now env w3 = (st', w4)" "replace w4 = (perr, w5)"
        "record_step env StepOwnership st' perr (rq_output rq) r1 w5 = (r2, w6)" by (metis surj_pair)
      have "open_after (Some (StepOwnership, perr = None)) r2" by (rule record_step_open [OF p(3) r1]) (simp add: True)
      note verr = True
      show ?thesis
      proof (cases "perr = None")
        case True
        with assms(1) \<open>open_after (Some (StepOwnership, perr = None)) r2\<close> verr Some show ?thesis
          by (auto simp: confirm_installed_def v(1,2) v(3) [unfolded verr] p(1,2) p(3) [unfolded True] open_after_def)
      next
        case False
        with assms(1) \<open>open_after (Some (StepOwnership, perr = None)) r2\<close> verr Some show ?thesis
          by (auto simp: confirm_installed_def v(1,2) v(3) [unfolded verr] p)
      qed
    qed
  qed
qed

lemma deploy_backed_reported:
  assumes "deploy_backed env rq dep device art work next_fqdn backup res w = (res', err, w')" "open_after (Some (StepBackup, True)) res"
  shows "reported res' err"
proof -
  obtain st w1 ins w2 r1 w3 where i: "de_now env w = (st, w1)" "install rq dep device art work w1 = (ins, w2)"
    "record_step env StepDeploy st (in_error ins) (ar_hash art) res w2 = (r1, w3)" by (metis surj_pair)
  have r1: "open_after (Some (StepDeploy, in_error ins = None)) r1" by (rule record_step_open [OF i(3) assms(2)]) simp
  show ?thesis
  proof (cases "in_error ins")
    case (Some e)
    then have f: "open_after (Some (StepDeploy, False)) r1" using r1 by simp
    from assms(1) Some consider "res' = r1" "err = Some e" | "recover env rq dep device backup e r1 w3 = (res', err, w')"
      by (auto simp: deploy_backed_def i(1,2) i(3) [unfolded Some] split: if_splits)
    then show ?thesis
      by cases (use reported_refused [OF f] recover_reported [OF _ f] in auto)
  next
    case None
    obtain cerr r2 w4 where c: "confirm_installed env rq dep device art work next_fqdn ins r1 w3 = (cerr, r2, w4)" by (metis surj_pair)
    have o: "open_after (Some (StepDeploy, True)) r1" using r1 None by simp
    note cf = confirm_installed_open [OF c o]
    show ?thesis
    proof (cases cerr)
      case None
      with cf \<open>in_error ins = None\<close> assms(1) show ?thesis
        by (auto simp: deploy_backed_def i(1,2) i(3) [unfolded \<open>in_error ins = None\<close>] c reported_def)
    next
      case (Some e)
      then obtain s where s: "s \<in> {StepVerify, StepOwnership}" "open_after (Some (s, False)) r2" using cf by auto
      from assms(1) Some None consider "res' = r2" "err = Some e" | "recover env rq dep device backup e r2 w4 = (res', err, w')"
        by (auto simp: deploy_backed_def i(1,2) i(3) [unfolded None] c split: if_splits)
      then show ?thesis
        by cases (use s reported_refused [OF s(2)] recover_reported [OF _ s(2)] in auto)
    qed
  qed
qed


lemma deploy_compatible_reported:
  assumes "deploy_compatible env rq dep device res w = (res', err, w')" "open_after (Some (StepProbe, True)) res"
  shows "reported res' err"
proof -
  have refused: "reported res (Some e)" for e by (rule reported_refused [OF assms(2)]) simp
  obtain f w1 where f: "prepare_fqdn env rq dep device w = (f, w1)" by (metis surj_pair)
  show ?thesis
  proof (cases f)
    case (Inl e)
    with assms(1) refused show ?thesis by (auto simp: deploy_compatible_def f)
  next
    case (Inr af)
    obtain art nf where af: "af = (art, nf)" by (cases af)
    obtain p w2 where p: "prepare_routes rq dep art w1 = (p, w2)" by (metis surj_pair)
    show ?thesis
    proof (cases p)
      case (Inl e)
      with assms(1) refused Inr show ?thesis by (auto simp: deploy_compatible_def f af p)
    next
      case work: (Inr work)
      obtain b r1 w3 where b: "storeVerifiedBackup env dep device (rq_connection rq) res w2 = (b, r1, w3)" by (metis surj_pair)
      note bo = storeVerifiedBackup_open [OF b assms(2)]
      show ?thesis
      proof (cases b)
        case (Inl e)
        then obtain ok where "open_after (Some (StepBackup, ok)) r1" using bo by auto
        then have "reported r1 (Some e)" by (rule reported_refused) simp
        with assms(1) Inr work Inl show ?thesis by (auto simp: deploy_compatible_def f af p b)
      next
        case backup: (Inr backup)
        with bo have "open_after (Some (StepBackup, True)) (r1\<lparr>dr_backup := bp_ref backup\<rparr>)" by (simp add: open_after_def)
        moreover have "deploy_backed env rq dep device art work nf backup (r1\<lparr>dr_backup := bp_ref backup\<rparr>) w3 = (res', err, w')"
          using assms(1) Inr work backup by (simp add: deploy_compatible_def f af p b)
        ultimately show ?thesis by (blast intro: deploy_backed_reported)
      qed
    qed
  qed
qed

lemma DeployToDevice_reported:
  assumes "DeployToDevice env rq w = (res', err, w')"
  shows "reported res' err"
proof -
  let ?res = "\<lparr>dr_device = None, dr_backup = no_backup, dr_artifact = ar_id (rq_artifact rq), dr_applied = False,
                 dr_rolled_back = False, dr_events = []\<rparr>"
  have s: "open_after None ?res" by (simp add: open_after_def audited_start)
  have r: "reported ?res (Some e)" for e by (rule reported_refused [OF s]) simp
  show ?thesis
  proof (cases "de_deployers env = [] \<or> \<not> request_ok rq \<or> map_of (de_deployers env) (td_renderer (rq_target rq)) = None")
    case True
    with assms r show ?thesis by (auto simp: DeployToDevice_def Let_def split: if_splits)
  next
    case False
    then obtain dep where dep: "map_of (de_deployers env) (td_renderer (rq_target rq)) = Some dep" by auto
    obtain v w1 where v: "dp_validate dep (rq_connection rq) w = (v, w1)" by (metis surj_pair)
    obtain st w2 device perr w3 r1 w4 where p: "de_now env w1 = (st, w2)" "dp_probe dep (rq_connection rq) w2 = ((device, perr), w3)"
      "record_step env StepProbe st perr (di_firmware device) ?res w3 = (r1, w4)" by (metis surj_pair)
    have r1: "open_after (Some (StepProbe, perr = None)) r1" by (rule record_step_open [OF p(3) s]) simp
    show ?thesis
    proof (cases "v = None \<and> perr = None")
      case False
      moreover have "reported r1 (Some e)" for e by (rule reported_refused [OF r1]) simp
      ultimately show ?thesis
        using assms r p \<open>\<not> (_ \<or> _ \<or> _)\<close> by (cases v; cases perr) (auto simp: DeployToDevice_def Let_def dep v)
    next
      case True
      let ?d = "device\<lparr>di_deployer := dp_id dep\<rparr>" and ?r = "r1\<lparr>dr_device := Some (device\<lparr>di_deployer := dp_id dep\<rparr>)\<rparr>"
      have o: "open_after (Some (StepProbe, True)) ?r" using r1 True by (simp add: open_after_def)
      have refused: "reported ?r (Some e)" for e by (rule reported_refused [OF o]) simp
      have "deploy_compatible env rq dep ?d ?r w4 = (res', err, w') \<or> (\<exists>e. res' = ?r \<and> err = Some e)"
        using assms False True v p dep by (auto simp: DeployToDevice_def Let_def split: if_splits)
      then show ?thesis
      proof (elim disjE exE conjE)
        assume "deploy_compatible env rq dep ?d ?r w4 = (res', err, w')"
        then show ?thesis by (rule deploy_compatible_reported [OF _ o])
      qed (simp add: refused)
    qed
  qed
qed


section \<open>The device\<close>

text \<open>The documented contract of the interfaces, for an observation of the device configuration: the reading
  operations and the stores leave it alone; a change that reports \<open>ErrDeviceUnchanged\<close> (or an ownership
  conflict), or that reports that nothing was submitted, left it alone; a successful rollback puts back what
  the backup recorded.\<close>

definition keeps :: "('w \<Rightarrow> 'd) \<Rightarrow> ('w \<Rightarrow> 'a \<times> 'w) \<Rightarrow> bool" where
  "keeps obs f \<longleftrightarrow> (\<forall>w. obs (snd (f w)) = obs w)"

lemma keepsD: "keeps obs f \<Longrightarrow> f w = (x, w') \<Longrightarrow> obs w' = obs w"
  unfolding keeps_def by (metis snd_conv)

definition routes_read_only :: "('w \<Rightarrow> 'd) \<Rightarrow> 'w route_deployer \<Rightarrow> bool" where
  "routes_read_only obs rd \<longleftrightarrow> (\<forall>t c. keeps obs (rd_scope rd t c)) \<and> (\<forall>a. keeps obs (rd_desired rd a)) \<and>
     (\<forall>d c. keeps obs (rd_current rd d c))"

definition fqdn_read_only :: "('w \<Rightarrow> 'd) \<Rightarrow> 'w fqdn_deployer \<Rightarrow> bool" where
  "fqdn_read_only obs fd \<longleftrightarrow> (\<forall>c. keeps obs (fd_endpoint fd c)) \<and> (\<forall>d a. keeps obs (fd_desired fd d a)) \<and>
     (\<forall>d c a. keeps obs (fd_preview fd d c a))"

definition ledger_apart :: "('w \<Rightarrow> 'd) \<Rightarrow> 'w route_repository \<Rightarrow> bool" where
  "ledger_apart obs repo \<longleftrightarrow> (\<forall>s. keeps obs (rr_read repo s)) \<and> (\<forall>x. keeps obs (rr_replace repo x))"

definition fqdn_ledger_apart :: "('w \<Rightarrow> 'd) \<Rightarrow> 'w fqdn_repository \<Rightarrow> bool" where
  "fqdn_ledger_apart obs repo \<longleftrightarrow> (\<forall>e i. keeps obs (fr_read repo e i)) \<and> (\<forall>x. keeps obs (fr_replace repo x))"

definition reads_only :: "('w \<Rightarrow> 'd) \<Rightarrow> 'w deploy_env \<Rightarrow> 'w deploy_request \<Rightarrow> 'w deployer \<Rightarrow> bool" where
  "reads_only obs env rq dep \<longleftrightarrow>
     keeps obs (de_now env) \<and> (\<forall>i t p. keeps obs (de_put_backup env i t p)) \<and>
     (\<forall>c. keeps obs (dp_validate dep c)) \<and> (\<forall>c. keeps obs (dp_probe dep c)) \<and>
     (\<forall>d c. keeps obs (dp_backup dep d c)) \<and> (\<forall>d c a. keeps obs (dp_verify dep d c a)) \<and>
     pred_option (fqdn_read_only obs) (dp_fqdn dep) \<and> pred_option (routes_read_only obs) (dp_routes dep) \<and>
     pred_option (ledger_apart obs) (rq_routes rq) \<and> pred_option (fqdn_ledger_apart obs) (rq_fqdn rq)"

definition refuses :: "go_error option \<Rightarrow> bool" where
  "refuses err \<longleftrightarrow> (case err of None \<Rightarrow> False | Some e \<Rightarrow> is_error e ErrDeviceUnchanged \<or> is_error e ErrFQDNOwnershipConflict)"

definition refusals_honest :: "('w \<Rightarrow> 'd) \<Rightarrow> 'w deployer \<Rightarrow> bool" where
  "refusals_honest obs dep \<longleftrightarrow>
     (\<forall>d c a w err w'. dp_deploy dep d c a w = (err, w') \<longrightarrow> refuses err \<longrightarrow> obs w' = obs w) \<and>
     pred_option (\<lambda>rd. \<forall>d c m w err w'. rd_apply rd d c m w = (err, w') \<longrightarrow> refuses err \<longrightarrow> obs w' = obs w) (dp_routes dep) \<and>
     pred_option (\<lambda>f. \<forall>d c a w changed err w'. f d c a w = ((changed, err), w') \<longrightarrow>
        refuses err \<or> \<not> changed \<longrightarrow> obs w' = obs w) (dp_mutating dep)"

definition rollback_restores :: "('w \<Rightarrow> 'd) \<Rightarrow> (string \<Rightarrow> 'd) \<Rightarrow> 'w deployer \<Rightarrow> bool" where
  "rollback_restores obs recorded dep \<longleftrightarrow>
     (\<forall>d c w b w'. dp_backup dep d c w = ((b, None), w') \<longrightarrow> recorded (bp_payload b) = obs w) \<and>
     (\<forall>x d c b w w'. dp_rollback dep x d c b w = (None, w') \<longrightarrow> obs w' = recorded (bp_payload b))"

lemma reads_onlyD:
  assumes "reads_only obs env rq dep"
  shows "de_now env w = (t, w1) \<Longrightarrow> obs w1 = obs w"
    "de_put_backup env i t' p w = (r, w1) \<Longrightarrow> obs w1 = obs w"
    "dp_validate dep c w = (v, w1) \<Longrightarrow> obs w1 = obs w" "dp_probe dep c w = (pr, w1) \<Longrightarrow> obs w1 = obs w"
    "dp_backup dep d c w = (b, w1) \<Longrightarrow> obs w1 = obs w" "dp_verify dep d c a w = (v, w1) \<Longrightarrow> obs w1 = obs w"
  by - (erule keepsD [rotated], use assms in \<open>simp add: reads_only_def\<close>)+

lemma reads_only_routes:
  assumes "reads_only obs env rq dep" "dp_routes dep = Some rd"
  shows "rd_scope rd t c w = (s, w1) \<Longrightarrow> obs w1 = obs w" "rd_desired rd a w = (ds, w1) \<Longrightarrow> obs w1 = obs w"
    "rd_current rd d c w = (ds, w1) \<Longrightarrow> obs w1 = obs w"
  by - (erule keepsD [rotated], use assms in \<open>simp add: reads_only_def routes_read_only_def\<close>)+

lemma reads_only_route_ledger:
  assumes "reads_only obs env rq dep" "rq_routes rq = Some repo"
  shows "rr_read repo s w = (x, w1) \<Longrightarrow> obs w1 = obs w" "rr_replace repo o' w = (y, w1) \<Longrightarrow> obs w1 = obs w"
  by - (erule keepsD [rotated], use assms in \<open>simp add: reads_only_def ledger_apart_def\<close>)+

lemma reads_only_fqdn:
  assumes "reads_only obs env rq dep" "dp_fqdn dep = Some fd"
  shows "fd_endpoint fd c w = (s, w1) \<Longrightarrow> obs w1 = obs w" "fd_desired fd d a w = (ds, w1) \<Longrightarrow> obs w1 = obs w"
    "fd_preview fd d c a w = (cs, w1) \<Longrightarrow> obs w1 = obs w"
  by - (erule keepsD [rotated], use assms in \<open>simp add: reads_only_def fqdn_read_only_def\<close>)+

lemma reads_only_fqdn_ledger:
  assumes "reads_only obs env rq dep" "rq_fqdn rq = Some repo"
  shows "fr_read repo e i w = (x, w1) \<Longrightarrow> obs w1 = obs w" "fr_replace repo o' w = (y, w1) \<Longrightarrow> obs w1 = obs w"
  by - (erule keepsD [rotated], use assms in \<open>simp add: reads_only_def fqdn_ledger_apart_def\<close>)+

lemma record_step_obs:
  "reads_only obs env rq dep \<Longrightarrow> record_step env step started err detail res w = (res', w') \<Longrightarrow> obs w' = obs w"
  using reads_onlyD(1) by (fastforce simp: record_step_def split: prod.splits)

lemma prepare_fqdn_obs:
  assumes "reads_only obs env rq dep" "prepare_fqdn env rq dep device w = (r, w')"
  shows "obs w' = obs w"
  using assms(2)
  by (auto simp: prepare_fqdn_def Let_def split: option.splits sum.splits prod.splits if_splits
      dest!: reads_only_fqdn [OF assms(1), rotated] reads_only_fqdn_ledger [OF assms(1), rotated])

lemma prepare_routes_obs:
  assumes "reads_only obs env rq dep" "prepare_routes rq dep art w = (r, w')"
  shows "obs w' = obs w"
  using assms(2)
  by (auto simp: prepare_routes_def split: option.splits sum.splits prod.splits if_splits
      dest!: reads_only_routes [OF assms(1), rotated] reads_only_route_ledger [OF assms(1), rotated])

lemma prepare_routes_work:
  assumes "prepare_routes rq dep art w = (Ok (Some (rd, repo, prior, desired)), w')"
  shows "dp_routes dep = Some rd" "rq_routes rq = Some repo"
  using assms by (auto simp: prepare_routes_def split: option.splits sum.splits prod.splits if_splits)


lemma storeVerifiedBackup_obs:
  assumes "reads_only obs env rq dep" "storeVerifiedBackup env dep device conn res w = (r, res', w')"
  shows "obs w' = obs w" "dr_backup res' = dr_backup res"
    "rollback_restores obs recorded dep \<Longrightarrow> r = Ok backup \<Longrightarrow> recorded (bp_payload backup) = obs w"
proof -
  obtain st w1 b err w2 r1 w3 where s: "de_now env w = (st, w1)" "dp_backup dep device conn w1 = ((b, err), w2)"
    "record_step env StepBackup st err (br_hash (bp_ref b)) res w2 = (r1, w3)" by (metis surj_pair)
  have o: "obs w3 = obs w" "obs w1 = obs w"
    using reads_onlyD(1) [OF assms(1) s(1)] reads_onlyD(5) [OF assms(1) s(2)] record_step_obs [OF assms(1) s(3)] by simp_all
  show "obs w' = obs w" "dr_backup res' = dr_backup res"
    using assms(2) s o record_step_facts(5) [OF s(3)]
    by (auto simp: storeVerifiedBackup_def Let_def split: option.splits prod.splits if_splits sum.splits
        dest!: reads_onlyD [OF assms(1)])
  assume r: "rollback_restores obs recorded dep" "r = Ok backup"
  have "err = None" "bp_payload backup = bp_payload b"
    using assms(2) s r(2)
    by (auto simp: storeVerifiedBackup_def Let_def split: option.splits prod.splits if_splits sum.splits)
  then show "recorded (bp_payload backup) = obs w"
    using r(1) s(2) o(2) unfolding rollback_restores_def by metis
qed

lemma install_obs:
  assumes "reads_only obs env rq dep" "refusals_honest obs dep" "install rq dep device art work w = (ins, w')"
    "\<forall>rd repo prior desired. work = Some (rd, repo, prior, desired) \<longrightarrow> dp_routes dep = Some rd"
  shows "obs w' = obs w \<or> (in_changed ins \<and> \<not> refuses (in_error ins))"
proof (cases work)
  case None
  show ?thesis
  proof (cases "dp_mutating dep")
    case None
    have "dp_deploy dep device (rq_connection rq) art w = (err, w1) \<Longrightarrow> refuses err \<Longrightarrow> obs w1 = obs w" for err w1
      using assms(2) unfolding refusals_honest_def by blast
    with assms(3) None \<open>work = None\<close> show ?thesis by (auto simp: install_def split: prod.splits)
  next
    case (Some f)
    have "f device (rq_connection rq) art w = ((changed, err), w1) \<Longrightarrow> refuses err \<or> \<not> changed \<Longrightarrow> obs w1 = obs w" for changed err w1
      using assms(2) Some unfolding refusals_honest_def pred_option_def by fastforce
    with assms(3) Some None show ?thesis by (fastforce simp: install_def split: prod.splits)
  qed
next
  case (Some wk)
  obtain rd repo prior desired where wk: "wk = (rd, repo, prior, desired)" by (metis surj_pair)
  have rd: "dp_routes dep = Some rd" using assms(4) Some wk by simp
  obtain c w1 where c: "rd_current rd device (rq_connection rq) w = (c, w1)" by (metis surj_pair)
  have o: "obs w1 = obs w" by (rule reads_only_routes(3) [OF assms(1) rd c])
  show ?thesis
  proof (cases c)
    case (Inl e)
    with o assms(3) show ?thesis by (auto simp: install_def Some wk c)
  next
    case (Inr current)
    have "\<forall>m err w2. rd_apply rd device (rq_connection rq) m w1 = (err, w2) \<longrightarrow> refuses err \<longrightarrow> obs w2 = obs w1"
      using assms(2) rd by (simp add: refusals_honest_def)
    then show ?thesis
      using assms(3) o
      by (auto simp: install_def Some wk c Inr split: sum.splits prod.splits if_splits)
  qed
qed

lemma check_installed_obs:
  assumes "reads_only obs env rq dep" "check_installed rq dep device art work ins w = (v, w')"
    "\<forall>rd repo prior desired. work = Some (rd, repo, prior, desired) \<longrightarrow> dp_routes dep = Some rd"
  shows "obs w' = obs w"
  using assms(2,3)
  by (auto simp: check_installed_def split: option.splits prod.splits sum.splits
      dest!: reads_onlyD(6) [OF assms(1)] reads_only_routes(3) [OF assms(1), rotated])

lemma persist_ownership_obs:
  assumes "reads_only obs env rq dep" "persist_ownership rq work next_fqdn ins = Some replace" "replace w = (err, w')"
    "\<forall>rd repo prior desired. work = Some (rd, repo, prior, desired) \<longrightarrow> rq_routes rq = Some repo"
  shows "obs w' = obs w"
  using assms(2-4)
  by (auto simp: persist_ownership_def split: option.splits prod.splits
      dest!: reads_only_route_ledger(2) [OF assms(1), rotated] reads_only_fqdn_ledger(2) [OF assms(1), rotated])

lemma confirm_installed_obs:
  assumes "reads_only obs env rq dep" "confirm_installed env rq dep device art work next_fqdn ins res w = (err, res', w')"
    "\<forall>rd repo prior desired. work = Some (rd, repo, prior, desired) \<longrightarrow> dp_routes dep = Some rd \<and> rq_routes rq = Some repo"
  shows "obs w' = obs w"
proof -
  obtain st w1 verr w2 r1 w3 where v: "de_now env w = (st, w1)" "check_installed rq dep device art work ins w1 = (verr, w2)"
    "record_step env StepVerify st verr (ar_plan_hash art) res w2 = (r1, w3)" by (metis surj_pair)
  have "obs w2 = obs w1" by (rule check_installed_obs [OF assms(1) v(2)]) (use assms(3) in blast)
  then have o: "obs w3 = obs w" using reads_onlyD(1) [OF assms(1) v(1)] record_step_obs [OF assms(1) v(3)] by simp
  show ?thesis
  proof (cases "persist_ownership rq work next_fqdn ins")
    case None
    with assms(2) v o show ?thesis by (auto simp: confirm_installed_def split: if_splits)
  next
    case (Some replace)
    obtain st' w4 perr w5 r2 w6 where p: "de_now env w3 = (st', w4)" "replace w4 = (perr, w5)"
      "record_step env StepOwnership st' perr (rq_output rq) r1 w5 = (r2, w6)" by (metis surj_pair)
    have "obs w5 = obs w4" by (rule persist_ownership_obs [OF assms(1) Some p(2)]) (use assms(3) in blast)
    then have "obs w6 = obs w" using o reads_onlyD(1) [OF assms(1) p(1)] record_step_obs [OF assms(1) p(3)] by simp
    with assms(2) v o p Some show ?thesis by (auto simp: confirm_installed_def split: if_splits)
  qed
qed

lemma recover_obs:
  assumes "reads_only obs env rq dep" "rollback_restores obs recorded dep"
    "recover env rq dep device backup e res w = (res', err, w')"
  shows "obs w' = recorded (bp_payload backup) \<or> (\<exists>e'. err = Some (ErrRollbackFailed # e'))"
proof -
  obtain st w1 rerr w2 r1 w3 where r: "de_now env w = (st, w1)"
    "dp_rollback dep DetachedContext device (rq_connection rq) backup w1 = (rerr, w2)"
    "record_step env StepRollback st rerr (br_id (bp_ref backup)) res w2 = (r1, w3)" by (metis surj_pair)
  show ?thesis
  proof (cases rerr)
    case None
    with assms(2) r(2) have "obs w2 = recorded (bp_payload backup)" by (auto simp: rollback_restores_def)
    with record_step_obs [OF assms(1) r(3)] assms(3) r None show ?thesis
      by (auto simp: recover_def restoreDetached_def split: option.splits)
  next
    case (Some x)
    with assms(3) r show ?thesis by (auto simp: recover_def restoreDetached_def)
  qed
qed


definition work_of :: "'w deploy_request \<Rightarrow> 'w deployer \<Rightarrow> 'w route_work option \<Rightarrow> bool" where
  "work_of rq dep work \<longleftrightarrow> (\<forall>rd repo prior desired. work = Some (rd, repo, prior, desired) \<longrightarrow>
     dp_routes dep = Some rd \<and> rq_routes rq = Some repo)"

lemma deploy_backed_obs:
  assumes "reads_only obs env rq dep" "refusals_honest obs dep" "rollback_restores obs recorded dep" "work_of rq dep work"
    "recorded (bp_payload backup) = obs w"
    "deploy_backed env rq dep device art work next_fqdn backup res w = (res', err, w')"
  shows "obs w' = obs w \<or> err = None \<or> (\<exists>e. err = Some (ErrRollbackFailed # e))"
proof -
  obtain st w1 ins w2 r1 w3 where i: "de_now env w = (st, w1)" "install rq dep device art work w1 = (ins, w2)"
    "record_step env StepDeploy st (in_error ins) (ar_hash art) res w2 = (r1, w3)" by (metis surj_pair)
  have o: "obs w1 = obs w" "obs w3 = obs w2"
    using reads_onlyD(1) [OF assms(1) i(1)] record_step_obs [OF assms(1) i(3)] by simp_all
  have "obs w2 = obs w1 \<or> (in_changed ins \<and> \<not> refuses (in_error ins))"
    by (rule install_obs [OF assms(1,2) i(2)]) (use assms(4) in \<open>auto simp: work_of_def\<close>)
  then have ins: "obs w3 = obs w \<or> (in_changed ins \<and> \<not> refuses (in_error ins))" using o by simp
  have undone: "obs w' = obs w \<or> (\<exists>e. err = Some (ErrRollbackFailed # e))"
    if "recover env rq dep device backup e r w4 = (res', err, w')" for e r w4
    using recover_obs [OF assms(1,3) that] assms(5) by simp
  show ?thesis
  proof (cases "in_error ins")
    case (Some e)
    then consider "refuses (in_error ins) \<or> \<not> in_changed ins" "w' = w3" | "recover env rq dep device backup e r1 w3 = (res', err, w')"
      using assms(6) i by (auto simp: deploy_backed_def refuses_def split: if_splits)
    then show ?thesis by cases (use ins undone in auto)
  next
    case None
    obtain cerr r2 w4 where c: "confirm_installed env rq dep device art work next_fqdn ins r1 w3 = (cerr, r2, w4)" by (metis surj_pair)
    have "obs w4 = obs w3" by (rule confirm_installed_obs [OF assms(1) c]) (use assms(4) in \<open>simp add: work_of_def\<close>)
    moreover consider "err = None" | e where "\<not> in_changed ins" "w' = w4" | e where "recover env rq dep device backup e r2 w4 = (res', err, w')"
      using assms(6) i None c by (cases cerr) (auto simp: deploy_backed_def split: if_splits)
    then show ?thesis by cases (use ins undone calculation in auto)
  qed
qed

lemma deploy_backed_backup:
  assumes "deploy_backed env rq dep device art work next_fqdn backup res w = (res', err, w')"
  shows "dr_backup res' = dr_backup res"
proof -
  have c: "dr_backup r2 = dr_backup r" if "confirm_installed env rq dep device art work next_fqdn ins r v = (ce, r2, v2)" for ins r v ce r2 v2
    using that by (auto simp: confirm_installed_def record_step_def split: prod.splits if_splits option.splits)
  have r: "dr_backup r2 = dr_backup r" if "recover env rq dep device backup e r v = (r2, ce, v2)" for e r v ce r2 v2
    using that by (auto simp: recover_def restoreDetached_def record_step_def split: prod.splits if_splits option.splits)
  obtain st w1 ins w2 r1 w3 where i: "de_now env w = (st, w1)" "install rq dep device art work w1 = (ins, w2)"
    "record_step env StepDeploy st (in_error ins) (ar_hash art) res w2 = (r1, w3)" by (metis surj_pair)
  have r1: "dr_backup r1 = dr_backup res" by (rule record_step_facts(5) [OF i(3)])
  show ?thesis
  proof (cases "in_error ins")
    case (Some e)
    then have "res' = r1 \<or> recover env rq dep device backup e r1 w3 = (res', err, w')"
      using assms i by (auto simp: deploy_backed_def split: if_splits)
    with r r1 show ?thesis by auto
  next
    case None
    obtain ce r2 w4 where k: "confirm_installed env rq dep device art work next_fqdn ins r1 w3 = (ce, r2, w4)" by (metis surj_pair)
    have "res' = r2 \<or> (\<exists>e. recover env rq dep device backup e r2 w4 = (res', err, w'))"
      using assms i None k by (cases ce) (auto simp: deploy_backed_def split: if_splits)
    with r r1 c [OF k] show ?thesis by auto
  qed
qed

text \<open>The stages of a deployment up to the backup change nothing.\<close>

lemma deploy_compatible_stages:
  assumes "reads_only obs env rq dep" "deploy_compatible env rq dep device res w = (res', err, w')"
  obtains "obs w' = obs w" "err \<noteq> None" "dr_backup res' = dr_backup res"
  | art nf work backup r1 w3 where "obs w3 = obs w" "work_of rq dep work"
      "deploy_backed env rq dep device art work nf backup (r1\<lparr>dr_backup := bp_ref backup\<rparr>) w3 = (res', err, w')"
      "rollback_restores obs recorded dep \<Longrightarrow> recorded (bp_payload backup) = obs w" "Verified (bp_ref backup)"
proof -
  obtain f w1 where f: "prepare_fqdn env rq dep device w = (f, w1)" by (metis surj_pair)
  have o1: "obs w1 = obs w" by (rule prepare_fqdn_obs [OF assms(1) f])
  show ?thesis
  proof (cases f)
    case (Inl e)
    with assms(2) that(1) o1 show ?thesis by (auto simp: deploy_compatible_def f)
  next
    case (Inr af)
    obtain art nf where af: "af = (art, nf)" by (cases af)
    obtain p w2 where p: "prepare_routes rq dep art w1 = (p, w2)" by (metis surj_pair)
    have o2: "obs w2 = obs w" using prepare_routes_obs [OF assms(1) p] o1 by simp
    show ?thesis
    proof (cases p)
      case (Inl e)
      with assms(2) that(1) o2 Inr show ?thesis by (auto simp: deploy_compatible_def f af p)
    next
      case work: (Inr work)
      have wo: "work_of rq dep work"
        unfolding work_of_def using prepare_routes_work p work by metis
      obtain b r1 w3 where b: "storeVerifiedBackup env dep device (rq_connection rq) res w2 = (b, r1, w3)" by (metis surj_pair)
      note s = storeVerifiedBackup_obs [OF assms(1) b]
      show ?thesis
      proof (cases b)
        case (Inl e)
        with assms(2) that(1) o2 s(1,2) Inr work show ?thesis by (auto simp: deploy_compatible_def f af p b)
      next
        case backup: (Inr backup)
        have "deploy_backed env rq dep device art work nf backup (r1\<lparr>dr_backup := bp_ref backup\<rparr>) w3 = (res', err, w')"
          using assms(2) Inr work backup by (simp add: deploy_compatible_def f af p b)
        moreover have "Verified (bp_ref backup)"
          using b backup by (auto simp: storeVerifiedBackup_def Let_def split: option.splits prod.splits if_splits sum.splits)
        moreover have "obs w3 = obs w" using s(1) o2 by simp
        moreover have "rollback_restores obs recorded dep \<Longrightarrow> recorded (bp_payload backup) = obs w"
          using s(3) backup o2 by simp
        ultimately show ?thesis using that(2) wo by blast
      qed
    qed
  qed
qed

lemma DeployToDevice_stages:
  assumes "map_of (de_deployers env) (td_renderer (rq_target rq)) = Some dep" "reads_only obs env rq dep"
    "DeployToDevice env rq w = (res', err, w')"
  obtains "obs w' = obs w" "err \<noteq> None" "dr_backup res' = no_backup"
  | device r v where "deploy_compatible env rq dep device r v = (res', err, w')" "obs v = obs w" "dr_backup r = no_backup"
proof -
  let ?res = "\<lparr>dr_device = None, dr_backup = no_backup, dr_artifact = ar_id (rq_artifact rq), dr_applied = False,
                 dr_rolled_back = False, dr_events = []\<rparr>"
  obtain v w1 where v: "dp_validate dep (rq_connection rq) w = (v, w1)" by (metis surj_pair)
  obtain st w2 device perr w3 r1 w4 where p: "de_now env w1 = (st, w2)" "dp_probe dep (rq_connection rq) w2 = ((device, perr), w3)"
    "record_step env StepProbe st perr (di_firmware device) ?res w3 = (r1, w4)" by (metis surj_pair)
  have o: "obs w1 = obs w" "obs w4 = obs w"
    using reads_onlyD(3) [OF assms(2) v] reads_onlyD(1) [OF assms(2) p(1)] reads_onlyD(4) [OF assms(2) p(2)]
      record_step_obs [OF assms(2) p(3)] by simp_all
  have b: "dr_backup r1 = no_backup" using record_step_facts(5) [OF p(3)] by simp
  let ?d = "device\<lparr>di_deployer := dp_id dep\<rparr>" and ?r = "r1\<lparr>dr_device := Some (device\<lparr>di_deployer := dp_id dep\<rparr>)\<rparr>"
  have "(obs w' = obs w \<and> err \<noteq> None \<and> dr_backup res' = no_backup) \<or> deploy_compatible env rq dep ?d ?r w4 = (res', err, w')"
    using assms(1,3) v p o b
    by (cases v; cases perr) (auto simp: DeployToDevice_def Let_def split: if_splits)
  moreover have "dr_backup ?r = no_backup" using b by simp
  ultimately show ?thesis using that o(2) by metis
qed


section \<open>Properties\<close>

text \<open>A small device for the witnesses: its world is its configuration, its change is cut short after the
  first write.\<close>

definition sample_deployer :: "string deployer" where
  "sample_deployer =
     \<lparr>dp_id = ''d'', dp_validate = (\<lambda>c w. (None, w)),
      dp_probe = (\<lambda>c w. ((\<lparr>di_deployer = [], di_vendor = [], di_model = [], di_firmware = ''1'', di_format = ''f'', di_interface = []\<rparr>, None), w)),
      dp_backup = (\<lambda>d c w. ((\<lparr>bp_ref = no_backup, bp_payload = w\<rparr>, None), w)),
      dp_deploy = (\<lambda>d c a w. (Some [ErrOther ''cut''], ''half'')),
      dp_verify = (\<lambda>d c a w. (None, w)),
      dp_rollback = (\<lambda>x d c b w. (None, bp_payload b)),
      dp_routes = None, dp_fqdn = None, dp_mutating = None\<rparr>"

definition sample_env :: "string deploy_env" where
  "sample_env = \<lparr>de_deployers = [(''r'', sample_deployer)],
     de_put_backup = (\<lambda>i t p w. (Ok \<lparr>br_id = ''b'', br_path = ''p'', br_hash = ''h'', br_size = 3, br_created = t\<rparr>, w)),
     de_now = (\<lambda>w. (5, w)), de_endpoint_ok = (\<lambda>_. True)\<rparr>"

definition broken_env :: "string deploy_env" where
  "broken_env = sample_env\<lparr>de_put_backup := (\<lambda>i t p w. (Err [ErrOther ''disk full''], w))\<rparr>"

definition sample_request :: "string deploy_request" where
  "sample_request =
     \<lparr>rq_target = RawJSONTarget\<lparr>td_id := ''t'', td_renderer := ''r'', td_format := ''f''\<rparr>,
      rq_connection = \<lparr>cn_url = ''u'', cn_username = [], cn_password = [], cn_interface = []\<rparr>,
      rq_artifact = \<lparr>ar_id = ''a'', ar_renderer = ''r'', ar_hash = ''h'', ar_content = [], ar_payload = ''x'', ar_snapshot = [],
        ar_plan_hash = [], ar_plan = [], ar_groups = []\<rparr>,
      rq_output = [], rq_routes = None, rq_fqdn = None\<rparr>"

lemmas deploy_eval = DeployToDevice_def deploy_compatible_def deploy_backed_def recover_def restoreDetached_def
  storeVerifiedBackup_def record_step_def install_def prepare_routes_def prepare_fqdn_def request_ok_def is_error_def
  Verified_def no_backup_def

lemma sample_run:
  "\<exists>res. DeployToDevice sample_env sample_request ''old'' = (res, Some [ErrDeployFailed, ErrOther ''cut''], ''old'') \<and>
     dr_rolled_back res \<and> last_outcome (dr_events res) = Some (StepRollback, True)"
  by (simp add: deploy_eval sample_env_def sample_request_def sample_deployer_def last_outcome_def)

lemma broken_run:
  "\<exists>res. DeployToDevice broken_env sample_request ''old'' = (res, Some [ErrBackupRequired], ''old'') \<and> dr_backup res = no_backup"
  by (simp add: deploy_eval sample_env_def sample_request_def sample_deployer_def broken_env_def)

lemma sample_contract:
  "map_of (de_deployers sample_env) (td_renderer (rq_target sample_request)) = Some sample_deployer"
  "map_of (de_deployers broken_env) (td_renderer (rq_target sample_request)) = Some sample_deployer"
  "reads_only id sample_env sample_request sample_deployer" "reads_only id broken_env sample_request sample_deployer"
  "refusals_honest id sample_deployer" "rollback_restores id id sample_deployer"
  by (auto simp: sample_env_def broken_env_def sample_request_def sample_deployer_def reads_only_def keeps_def
      refusals_honest_def refuses_def is_error_def rollback_restores_def)

text \<open>
  C9. A deployment that fails leaves the device as it was, or says that the rollback failed. The hypotheses
  are the documented contracts: reading operations and stores do not touch the device, a refusal marked as
  leaving the device unchanged (or reporting that nothing was submitted) did, and a successful rollback puts
  back what the backup recorded.
\<close>

theorem deploy_atomic:
  assumes "map_of (de_deployers env) (td_renderer (rq_target rq)) = Some dep" "reads_only obs env rq dep"
    "refusals_honest obs dep" "rollback_restores obs recorded dep" "DeployToDevice env rq w = (res, err, w')"
  shows "obs w' = obs w \<or> err = None \<or> (\<exists>e. err = Some (ErrRollbackFailed # e))"
  using assms(1,2,5)
proof (cases rule: DeployToDevice_stages)
  case (2 device r v)
  show ?thesis
    using assms(2) 2(1)
  proof (cases rule: deploy_compatible_stages [where recorded = recorded])
    case (2 art nf work backup r1 w3)
    have "recorded (bp_payload backup) = obs w3" using 2(1,4) assms(4) by simp
    from deploy_backed_obs [OF assms(2-4) 2(2) this 2(3)] 2(1) \<open>obs v = obs w\<close> show ?thesis by simp
  qed (use 2(2) in simp)
qed simp

theorem deploy_atomic_witness:
  "\<exists>res err w'. DeployToDevice sample_env sample_request ''old'' = (res, err, w') \<and> w' = ''old'' \<and> dr_rolled_back res"
proof -
  obtain res where r: "DeployToDevice sample_env sample_request ''old'' = (res, Some [ErrDeployFailed, ErrOther ''cut''], ''old'')"
    "dr_rolled_back res" using sample_run by blast
  have "id ''old'' = id ''old''" using deploy_atomic [OF sample_contract(1,3,5,6) r(1)] by simp
  with r show ?thesis by simp
qed

text \<open>
  C10. Without a verified backup nothing on the device changes: when the result carries no usable backup
  reference, the device configuration is the one before the deployment.
\<close>

theorem deploy_needs_backup:
  assumes "map_of (de_deployers env) (td_renderer (rq_target rq)) = Some dep" "reads_only obs env rq dep"
    "DeployToDevice env rq w = (res, err, w')" "\<not> Verified (dr_backup res)"
  shows "obs w' = obs w \<and> err \<noteq> None"
  using assms(1-3)
proof (cases rule: DeployToDevice_stages)
  case (2 device r v)
  show ?thesis
    using assms(2) 2(1)
  proof (cases rule: deploy_compatible_stages [where recorded = undefined])
    case (2 art nf work backup r1 w3)
    with deploy_backed_backup [OF 2(3)] assms(4) show ?thesis by simp
  qed (use 2(2) in simp)
qed simp

theorem deploy_needs_backup_witness:
  "\<exists>res err w'. DeployToDevice broken_env sample_request ''old'' = (res, err, w') \<and> id w' = ''old'' \<and> err \<noteq> None"
proof -
  obtain res where r: "DeployToDevice broken_env sample_request ''old'' = (res, Some [ErrBackupRequired], ''old'')"
    "dr_backup res = no_backup" using broken_run by blast
  have "\<not> Verified (dr_backup res)" by (simp add: r(2) Verified_def no_backup_def)
  from deploy_needs_backup [OF sample_contract(2,4) r(1) this] r(1) show ?thesis by simp
qed

text \<open>
  C11. The audit trail tells what happened: its steps follow the fixed order probe, backup, deploy, verify,
  ownership, with a rollback only after a failed change, check or ledger write; the deployment is applied
  exactly when it returns no error, and then its last step is a successful verification or ledger write; it
  is marked as rolled back exactly when the last step is a successful rollback, and a failed rollback is in
  the error.
\<close>

theorem deploy_audited:
  assumes "DeployToDevice env rq w = (res, err, w')"
  shows "audited (dr_events res) \<and> (dr_applied res \<longleftrightarrow> err = None) \<and>
    (dr_rolled_back res \<longleftrightarrow> last_outcome (dr_events res) = Some (StepRollback, True)) \<and>
    (dr_applied res \<longrightarrow> last_outcome (dr_events res) \<in> {Some (StepVerify, True), Some (StepOwnership, True)}) \<and>
    (last_outcome (dr_events res) = Some (StepRollback, False) \<longrightarrow> ErrRollbackFailed \<in> set (the err))"
  using DeployToDevice_reported [OF assms] unfolding reported_def .

theorem deploy_audited_witness:
  "\<exists>res err w'. DeployToDevice sample_env sample_request ''old'' = (res, err, w') \<and> audited (dr_events res) \<and>
     last_outcome (dr_events res) = Some (StepRollback, True)"
proof -
  obtain res where r: "DeployToDevice sample_env sample_request ''old'' = (res, Some [ErrDeployFailed, ErrOther ''cut''], ''old'')"
    "last_outcome (dr_events res) = Some (StepRollback, True)" using sample_run by blast
  from deploy_audited [OF r(1)] have "audited (dr_events res)" by simp
  with r show ?thesis by simp
qed

end
