(* ===== verification/DeliveryGate.thy ===== *)
theory DeliveryGate
  imports Prelude
begin

text \<open>
  \<open>internal/application/delivery_gate.go\<close> as a transition system: any number of callers (one number per
  call of \<open>Acquire\<close>), the channel of capacity one that holds the token, and the cancellation of each
  caller's context, which may happen at any moment.
\<close>

datatype phase =
    Calling        \<comment> \<open>before the first look at the context\<close>
  | Selecting      \<comment> \<open>blocked in the select\<close>
  | Owning         \<comment> \<open>the token received, the context not yet looked at again\<close>
  | Inside         \<comment> \<open>\<open>Acquire\<close> returned the release function\<close>
  | Released       \<comment> \<open>the release function has run\<close>
  | Refused        \<comment> \<open>\<open>Acquire\<close> returned the context's error\<close>

record gate =
  tokens :: nat
  phases :: "nat \<Rightarrow> phase"
  cancelled :: "nat \<Rightarrow> bool"

definition NewDeliveryGate :: gate where
  "NewDeliveryGate = \<lparr>tokens = 1, phases = (\<lambda>_. Calling), cancelled = (\<lambda>_. False)\<rparr>"

definition enter :: "nat \<Rightarrow> phase \<Rightarrow> gate \<Rightarrow> gate" where
  "enter c p g = g\<lparr>phases := (phases g)(c := p)\<rparr>"

definition put_token :: "gate \<Rightarrow> gate" where
  "put_token g = g\<lparr>tokens := tokens g + 1\<rparr>"

definition take_token :: "gate \<Rightarrow> gate" where
  "take_token g = g\<lparr>tokens := tokens g - 1\<rparr>"

text \<open>A send blocks while the channel holds its one token; a receive blocks while it holds none.\<close>

inductive gate_step :: "gate \<Rightarrow> gate \<Rightarrow> bool" where
  cancel: "gate_step g (g\<lparr>cancelled := (cancelled g)(c := True)\<rparr>)"
| refuse_first: "phases g c = Calling \<Longrightarrow> cancelled g c \<Longrightarrow> gate_step g (enter c Refused g)"
| select: "phases g c = Calling \<Longrightarrow> \<not> cancelled g c \<Longrightarrow> gate_step g (enter c Selecting g)"
| refuse_waiting: "phases g c = Selecting \<Longrightarrow> cancelled g c \<Longrightarrow> gate_step g (enter c Refused g)"
| receive: "phases g c = Selecting \<Longrightarrow> 0 < tokens g \<Longrightarrow> gate_step g (enter c Owning (take_token g))"
| refuse_owning: "phases g c = Owning \<Longrightarrow> cancelled g c \<Longrightarrow> tokens g < 1 \<Longrightarrow> gate_step g (enter c Refused (put_token g))"
| acquired: "phases g c = Owning \<Longrightarrow> \<not> cancelled g c \<Longrightarrow> gate_step g (enter c Inside g)"
| release: "phases g c = Inside \<Longrightarrow> tokens g < 1 \<Longrightarrow> gate_step g (enter c Released (put_token g))"
| release_again: "phases g c = Released \<Longrightarrow> gate_step g g"

inductive gate_reachable :: "gate \<Rightarrow> bool" where
  start: "gate_reachable NewDeliveryGate"
| step: "gate_reachable g \<Longrightarrow> gate_step g h \<Longrightarrow> gate_reachable h"

definition holds_token :: "gate \<Rightarrow> nat \<Rightarrow> bool" where
  "holds_token g c \<longleftrightarrow> phases g c = Owning \<or> phases g c = Inside"

lemma phases_enter [simp]: "phases (enter c p g) = (phases g)(c := p)"
  by (simp add: enter_def)

lemma tokens_enter [simp]: "tokens (enter c p g) = tokens g" "tokens (put_token g) = tokens g + 1"
    "tokens (take_token g) = tokens g - 1"
  by (simp_all add: enter_def put_token_def take_token_def)

lemma phases_token [simp]: "phases (put_token g) = phases g" "phases (take_token g) = phases g"
  by (simp_all add: put_token_def take_token_def)

text \<open>The token is in the channel or with exactly one caller.\<close>

definition one_token :: "gate \<Rightarrow> bool" where
  "one_token g \<longleftrightarrow> (tokens g = 1 \<and> (\<forall>c. \<not> holds_token g c)) \<or>
     (tokens g = 0 \<and> (\<exists>c. holds_token g c \<and> (\<forall>d. holds_token g d \<longrightarrow> d = c)))"

lemma one_token_start: "one_token NewDeliveryGate"
  by (simp add: one_token_def NewDeliveryGate_def holds_token_def)

lemma one_token_cong: "tokens h = tokens g \<Longrightarrow> (\<And>d. holds_token h d = holds_token g d) \<Longrightarrow> one_token g \<Longrightarrow> one_token h"
  by (simp add: one_token_def)

lemma one_token_taken: "tokens h = 0 \<Longrightarrow> holds_token h c \<Longrightarrow> (\<And>d. holds_token h d \<Longrightarrow> d = c) \<Longrightarrow> one_token h"
  unfolding one_token_def by blast

lemma one_token_free: "tokens h = 1 \<Longrightarrow> (\<And>d. \<not> holds_token h d) \<Longrightarrow> one_token h"
  unfolding one_token_def by blast

lemma one_token_held: "one_token g \<Longrightarrow> holds_token g c \<Longrightarrow> tokens g = 0 \<and> (\<forall>d. holds_token g d \<longrightarrow> d = c)"
  unfolding one_token_def by blast

lemma one_token_step: "gate_step g h \<Longrightarrow> one_token g \<Longrightarrow> one_token h"
proof (induction rule: gate_step.induct)
  case (receive g c)
  then have t: "tokens g = 1" "\<And>d. \<not> holds_token g d" unfolding one_token_def by simp_all
  show ?case
  proof (rule one_token_taken)
    fix d assume "holds_token (enter c Owning (take_token g)) d"
    with t(2) [of d] show "d = c" by (auto simp: holds_token_def split: if_splits)
  qed (simp_all add: t(1) holds_token_def)
next
  case (refuse_owning g c)
  have "holds_token g c" using refuse_owning.hyps(1) by (simp add: holds_token_def)
  from one_token_held [OF refuse_owning.prems this] have t: "tokens g = 0" "\<And>d. holds_token g d \<Longrightarrow> d = c" by blast+
  show ?case
  proof (rule one_token_free)
    fix d show "\<not> holds_token (enter c Refused (put_token g)) d"
      using t(2) [of d] by (auto simp: holds_token_def)
  qed (simp add: t(1))
next
  case (release g c)
  have "holds_token g c" using release.hyps(1) by (simp add: holds_token_def)
  from one_token_held [OF release.prems this] have t: "tokens g = 0" "\<And>d. holds_token g d \<Longrightarrow> d = c" by blast+
  show ?case
  proof (rule one_token_free)
    fix d show "\<not> holds_token (enter c Released (put_token g)) d"
      using t(2) [of d] by (auto simp: holds_token_def)
  qed (simp add: t(1))
next
  case (acquired g c)
  show ?case
    by (rule one_token_cong [OF _ _ acquired.prems]) (use acquired.hyps in \<open>auto simp: holds_token_def\<close>)
next
  case (cancel g c)
  show ?case by (rule one_token_cong [OF _ _ cancel.prems]) (simp_all add: holds_token_def)
next
  case (refuse_first g c)
  show ?case
    by (rule one_token_cong [OF _ _ refuse_first.prems]) (use refuse_first.hyps in \<open>auto simp: holds_token_def\<close>)
next
  case (select g c)
  show ?case
    by (rule one_token_cong [OF _ _ select.prems]) (use select.hyps in \<open>auto simp: holds_token_def\<close>)
next
  case (refuse_waiting g c)
  show ?case
    by (rule one_token_cong [OF _ _ refuse_waiting.prems]) (use refuse_waiting.hyps in \<open>auto simp: holds_token_def\<close>)
qed simp

lemma gate_one_token: "gate_reachable g \<Longrightarrow> one_token g"
  by (induction rule: gate_reachable.induct) (auto intro: one_token_start one_token_step)

inductive_cases gate_stepE: "gate_step g h"


definition owning_gate :: gate where
  "owning_gate = enter 0 Owning (take_token (enter 0 Selecting NewDeliveryGate))"

lemma owning_gate_reachable: "gate_reachable owning_gate"
proof -
  have "gate_reachable (enter 0 Selecting NewDeliveryGate)"
    by (rule gate_reachable.step [OF gate_reachable.start], rule gate_step.select) (simp_all add: NewDeliveryGate_def)
  then show ?thesis unfolding owning_gate_def
    by (rule gate_reachable.step, intro gate_step.receive) (simp_all add: NewDeliveryGate_def)
qed


end
