(* ===== verification/Schedule.thy ===== *)
theory Schedule
  imports Deploy
begin

text \<open>
  The timer: \<open>schedule.go\<close> (when a profile is due and what one tick does), \<open>build_attempt.go\<close> (the stable
  code of a failed build), \<open>automatic_delivery.go\<close> (the unattended delivery of what a tick built), and the
  profile, output and archive fields of \<open>publication.go\<close> and \<open>archive.go\<close> they read. The store, the clock, the
  refresh and the build are operations on a world \<open>'w\<close>.
\<close>

type_synonym refresh_interval = string

definition RefreshDefault :: refresh_interval where "RefreshDefault = []"
definition RefreshOff :: refresh_interval where "RefreshOff = ''off''"
definition RefreshDaily :: refresh_interval where "RefreshDaily = ''daily''"
definition RefreshWeekly :: refresh_interval where "RefreshWeekly = ''weekly''"

definition SettingRefreshInterval :: string where
  "SettingRefreshInterval = ''refresh.interval''"

text \<open>Durations in nanoseconds.\<close>

definition refreshDailyPeriod :: time where
  "refreshDailyPeriod = 24 * 3600 * 1000000000"

definition refreshWeeklyPeriod :: time where
  "refreshWeeklyPeriod = 7 * refreshDailyPeriod"

definition interval_valid :: "refresh_interval \<Rightarrow> bool" where
  "interval_valid i \<longleftrightarrow> i \<in> {RefreshDefault, RefreshOff, RefreshDaily, RefreshWeekly}"

definition interval_valid_default :: "refresh_interval \<Rightarrow> bool" where
  "interval_valid_default i \<longleftrightarrow> i \<in> {RefreshOff, RefreshDaily, RefreshWeekly}"

definition period :: "refresh_interval \<Rightarrow> time option" where
  "period i = (if i = RefreshDaily then Some refreshDailyPeriod
               else if i = RefreshWeekly then Some refreshWeeklyPeriod else None)"

record profile =
  pf_id :: string
  pf_name :: string
  pf_lists :: "string list"
  pf_categories :: "string list"
  pf_exclusions :: "string list"
  pf_domains :: "(string \<times> string list) list"
  pf_priority :: "string list"
  pf_interval :: refresh_interval
  pf_last :: time
  pf_last_failed :: bool
  pf_archived :: time
  pf_created :: time
  pf_updated :: time

definition Archived :: "profile \<Rightarrow> bool" where
  "Archived p \<longleftrightarrow> pf_archived p \<noteq> 0"

record profile_output =
  ou_prefix :: string
  ou_keep :: bool
  ou_id :: string
  ou_profile :: string
  ou_target :: string
  ou_device :: string
  ou_format :: string
  ou_renderer :: string
  ou_renderer_version :: string
  ou_revision :: string
  ou_created :: time
  ou_latest :: string
  ou_previous :: string

section \<open>Schedules\<close>

record schedule =
  sc_interval :: refresh_interval
  sc_effective :: refresh_interval
  sc_follows :: bool
  sc_last :: time
  sc_failed :: bool
  sc_next :: time

definition ScheduleOf :: "profile \<Rightarrow> refresh_interval \<Rightarrow> schedule" where
  "ScheduleOf p fallback =
     (let follows = (pf_interval p = RefreshDefault);
          chosen = (if follows then fallback else pf_interval p);
          effective = (if interval_valid_default chosen then chosen else RefreshOff)
      in \<lparr>sc_interval = pf_interval p, sc_effective = effective, sc_follows = follows, sc_last = pf_last p,
          sc_failed = pf_last_failed p,
          sc_next = (case period effective of None \<Rightarrow> 0 | Some d \<Rightarrow> if pf_last p = 0 then 0 else pf_last p + d)\<rparr>)"

definition due :: "schedule \<Rightarrow> time \<Rightarrow> bool" where
  "due s now = (if period (sc_effective s) = None then False
                else if sc_last s = 0 then True else \<not> now < sc_next s)"

section \<open>Failed builds\<close>

datatype build_sentinel =
    ErrRuleLimit | ErrPartialCoverage | ErrTargetChanged | ErrProfileArchived | ErrProfileChanged | ErrBuildSuperseded
  | ErrSourceFailed | ErrSourceDegraded | ErrFormatMismatch | ErrPreflight | ErrArtifactUnavailable | ErrPublicationStorage
  | ErrBuildOther string

record uncovered_list =
  uc_id :: string
  uc_title :: string

text \<open>A build error is what \<open>errors.As\<close> and \<open>errors.Is\<close> find in its tree: the first coverage refusal, the first
  rule limit and the sentinels.\<close>

record build_error =
  be_partial :: "uncovered_list list option"
  be_limit :: "(int \<times> int) option"
  be_sentinels :: "build_sentinel list"

record build_failure =
  bf_code :: string
  bf_projected :: int
  bf_maximum :: int
  bf_uncovered :: "uncovered_list list"

definition coded :: "string \<Rightarrow> build_failure" where
  "coded c = \<lparr>bf_code = c, bf_projected = 0, bf_maximum = 0, bf_uncovered = []\<rparr>"

definition ClassifyBuildFailure :: "build_error \<Rightarrow> build_failure" where
  "ClassifyBuildFailure e =
     (let is = (\<lambda>s. s \<in> set (be_sentinels e)) in
      case be_partial e of
        Some uncovered \<Rightarrow> (coded ''partial_coverage'')\<lparr>bf_uncovered := uncovered\<rparr>
      | None \<Rightarrow> (case be_limit e of
          Some (projected, maximum) \<Rightarrow> (coded ''rule_limit'')\<lparr>bf_projected := projected, bf_maximum := maximum\<rparr>
        | None \<Rightarrow> coded
            (if is ErrRuleLimit then ''rule_limit''
             else if is ErrPartialCoverage then ''partial_coverage''
             else if is ErrTargetChanged then ''target_changed''
             else if is ErrProfileArchived then ''list_archived''
             else if is ErrProfileChanged then ''profile_changed''
             else if is ErrBuildSuperseded then ''build_superseded''
             else if is ErrSourceFailed \<or> is ErrSourceDegraded then ''source_unavailable''
             else if is ErrFormatMismatch then ''profile_mismatch''
             else if is ErrPreflight then ''preflight_failed''
             else if is ErrArtifactUnavailable then ''artifact_unavailable''
             else if is ErrPublicationStorage then ''storage_failed''
             else ''build_failed'')))"

section \<open>One tick\<close>

record publication =
  pu_output :: string
  pu_target :: string
  pu_device :: string
  pu_artifact :: string

record output_failure =
  of_output :: string
  of_target :: string
  of_code :: string

record delivery_failure =
  df_output :: string
  df_device :: string
  df_artifact :: string
  df_code :: string

record scheduled_run =
  sr_profile :: string
  sr_name :: string
  sr_at :: time
  sr_built :: nat
  sr_publications :: "publication list"
  sr_failures :: "output_failure list"
  sr_delivered :: nat
  sr_delivery_failures :: "delivery_failure list"
  sr_error :: string

definition run_failed :: "scheduled_run \<Rightarrow> bool" where
  "run_failed r \<longleftrightarrow> sr_error r \<noteq> [] \<or> sr_failures r \<noteq> []"

text \<open>The store and the services of a tick; an error is its text, a missing row is told apart.\<close>

record 'w scheduler =
  sd_setting :: "string \<Rightarrow> 'w \<Rightarrow> (string, string) result \<times> 'w"
  sd_put_setting :: "string \<Rightarrow> string \<Rightarrow> time \<Rightarrow> 'w \<Rightarrow> string option \<times> 'w"
  sd_profiles :: "'w \<Rightarrow> (string, profile list) result \<times> 'w"
  sd_now :: "'w \<Rightarrow> time \<times> 'w"
  sd_refresh :: "string \<Rightarrow> 'w \<Rightarrow> string option \<times> 'w"
  sd_outputs :: "string \<Rightarrow> 'w \<Rightarrow> (string, profile_output list) result \<times> 'w"
  sd_build :: "string \<Rightarrow> 'w \<Rightarrow> (build_error, string) result \<times> 'w"
  sd_record :: "string \<Rightarrow> time \<Rightarrow> bool \<Rightarrow> 'w \<Rightarrow> (bool \<times> string) option \<times> 'w"

definition DefaultRefreshInterval :: "'w scheduler \<Rightarrow> 'w \<Rightarrow> (refresh_interval \<times> string option) \<times> 'w" where
  "DefaultRefreshInterval sd w =
     (case sd_setting sd SettingRefreshInterval w of
        (Err e, w) \<Rightarrow> ((RefreshOff, Some e), w)
      | (Ok v, w) \<Rightarrow> ((if interval_valid_default v then v else RefreshOff, None), w))"

definition SetDefaultRefreshInterval :: "'w scheduler \<Rightarrow> refresh_interval \<Rightarrow> 'w \<Rightarrow> string option \<times> 'w" where
  "SetDefaultRefreshInterval sd i w =
     (if \<not> interval_valid_default i then (Some ''invalid refresh interval'', w)
      else let (now, w) = sd_now sd w in
        if now = 0 then (Some ''clock returned zero time'', w)
        else sd_put_setting sd SettingRefreshInterval i now w)"

fun build_outputs :: "'w scheduler \<Rightarrow> profile_output list \<Rightarrow> scheduled_run \<Rightarrow> 'w \<Rightarrow> scheduled_run \<times> 'w" where
  "build_outputs sd [] run w = (run, w)"
| "build_outputs sd (ou # outputs) run w =
     (case sd_build sd (ou_id ou) w of
        (Err e, w) \<Rightarrow> build_outputs sd outputs
          (run\<lparr>sr_failures := sr_failures run @
             [\<lparr>of_output = ou_id ou, of_target = ou_target ou, of_code = bf_code (ClassifyBuildFailure e)\<rparr>]\<rparr>) w
      | (Ok artifact, w) \<Rightarrow> build_outputs sd outputs
          (run\<lparr>sr_built := sr_built run + 1,
               sr_publications := sr_publications run @
                 [\<lparr>pu_output = ou_id ou, pu_target = ou_target ou, pu_device = ou_device ou, pu_artifact = artifact\<rparr>]\<rparr>) w)"

definition run_profile :: "'w scheduler \<Rightarrow> time \<Rightarrow> profile \<Rightarrow> 'w \<Rightarrow> scheduled_run \<times> 'w" where
  "run_profile sd now p w =
     (let run = \<lparr>sr_profile = pf_id p, sr_name = pf_name p, sr_at = now, sr_built = 0, sr_publications = [], sr_failures = [],
                 sr_delivered = 0, sr_delivery_failures = [], sr_error = []\<rparr>
      in case sd_refresh sd (pf_id p) w of
           (Some e, w) \<Rightarrow> (run\<lparr>sr_error := e\<rparr>, w)
         | (None, w) \<Rightarrow> (case sd_outputs sd (pf_id p) w of
             (Err e, w) \<Rightarrow> (run\<lparr>sr_error := e\<rparr>, w)
           | (Ok outputs, w) \<Rightarrow> build_outputs sd outputs run w))"

fun run_profiles ::
  "'w scheduler \<Rightarrow> refresh_interval \<Rightarrow> time \<Rightarrow> profile list \<Rightarrow> scheduled_run list \<Rightarrow> 'w \<Rightarrow>
     (scheduled_run list \<times> string option) \<times> 'w" where
  "run_profiles sd fallback now [] runs w = ((runs, None), w)"
| "run_profiles sd fallback now (p # ps) runs w =
     (if Archived p then run_profiles sd fallback now ps runs w
      else if \<not> due (ScheduleOf p fallback) now then run_profiles sd fallback now ps runs w
      else let (run, w) = run_profile sd now p w;
               (err, w) = sd_record sd (pf_id p) now (run_failed run) w
           in case err of
                Some (False, e) \<Rightarrow> ((runs, Some e), w)
              | _ \<Rightarrow> run_profiles sd fallback now ps (runs @ [run]) w)"

definition RunDueRefreshes :: "'w scheduler \<Rightarrow> 'w \<Rightarrow> (scheduled_run list \<times> string option) \<times> 'w" where
  "RunDueRefreshes sd w =
     (case DefaultRefreshInterval sd w of
        ((_, Some e), w) \<Rightarrow> (([], Some e), w)
      | ((stored, None), w) \<Rightarrow>
          let fallback = (if period stored = None then RefreshOff else stored) in
          (case sd_profiles sd w of
             (Err e, w) \<Rightarrow> (([], Some e), w)
           | (Ok profiles, w) \<Rightarrow>
               let (now, w) = sd_now sd w in
               if now = 0 then (([], Some ''clock returned zero time''), w)
               else run_profiles sd fallback now profiles [] w))"

section \<open>Unattended delivery\<close>

record device =
  dv_id :: string
  dv_target :: string
  dv_name :: string
  dv_address :: string
  dv_account :: string
  dv_interface :: string
  dv_stored :: bool
  dv_auto :: bool
  dv_created :: time
  dv_updated :: time

record connection_snapshot =
  cs_address :: string
  cs_account :: string
  cs_interface :: string

record deploy_command =
  dc_artifact :: string
  dc_device :: string
  dc_expected :: "connection_snapshot option"
  dc_connection :: connection
  dc_confirm :: bool
  dc_saved :: string

record 'w delivery_env =
  dl_acquire :: "'w \<Rightarrow> go_error option \<times> 'w"
  dl_release :: "'w \<Rightarrow> 'w"
  dl_output :: "string \<Rightarrow> 'w \<Rightarrow> (go_error, profile_output) result \<times> 'w"
  dl_device :: "string \<Rightarrow> 'w \<Rightarrow> (go_error, device) result \<times> 'w"
  dl_credential :: "string \<Rightarrow> 'w \<Rightarrow> (go_error, string) result \<times> 'w"
  dl_deploy :: "deploy_command \<Rightarrow> 'w \<Rightarrow> go_error option \<times> 'w"

definition classifyAutomaticDeliveryFailure :: "go_error \<Rightarrow> string" where
  "classifyAutomaticDeliveryFailure e =
     (if is_error e ErrRollbackFailed then ''rollback_failed''
      else if is_error e ErrVerifyFailed then ''verification_failed''
      else if is_error e ErrBackupRequired then ''backup_failed''
      else if is_error e ErrDeviceIncompatible then ''device_incompatible''
      else if is_error e ErrConnectionInvalid then ''connection_invalid''
      else if is_error e ErrDeadlineExceeded then ''delivery_timeout''
      else ''delivery_failed'')"

text \<open>The part of \<open>deliverOne\<close> that runs while the gate is held.\<close>

definition deliver_held :: "'w delivery_env \<Rightarrow> publication \<Rightarrow> 'w \<Rightarrow> (bool \<times> string) \<times> 'w" where
  "deliver_held dl pu w =
     (case dl_output dl (pu_output pu) w of
        (Err _, w) \<Rightarrow> ((False, ''output_unavailable''), w)
      | (Ok ou, w) \<Rightarrow>
          if ou_device ou \<noteq> pu_device pu then ((False, []), w)
          else (case dl_device dl (pu_device pu) w of
            (Err _, w) \<Rightarrow> ((False, ''device_unavailable''), w)
          | (Ok d, w) \<Rightarrow>
              if \<not> dv_auto d then ((False, []), w)
              else (case dl_credential dl (dv_id d) w of
                (Err _, w) \<Rightarrow> ((False, ''credential_unavailable''), w)
              | (Ok credential, w) \<Rightarrow>
                  (case dl_deploy dl
                     \<lparr>dc_artifact = pu_artifact pu, dc_device = [], dc_expected = None,
                      dc_connection = \<lparr>cn_url = dv_address d, cn_username = dv_account d, cn_password = credential, cn_interface = dv_interface d\<rparr>,
                      dc_confirm = True, dc_saved = dv_id d\<rparr> w of
                     (Some e, w) \<Rightarrow> ((False, classifyAutomaticDeliveryFailure e), w)
                   | (None, w) \<Rightarrow> ((True, []), w)))))"

definition deliverOne :: "'w delivery_env \<Rightarrow> publication \<Rightarrow> 'w \<Rightarrow> (bool \<times> string) \<times> 'w" where
  "deliverOne dl pu w =
     (case dl_acquire dl w of
        (Some e, w) \<Rightarrow> ((False, classifyAutomaticDeliveryFailure e), w)
      | (None, w) \<Rightarrow> (case deliver_held dl pu w of (r, w) \<Rightarrow> (r, dl_release dl w)))"

definition deliveryFailed :: "publication \<Rightarrow> string \<Rightarrow> scheduled_run \<Rightarrow> scheduled_run" where
  "deliveryFailed pu code run = run\<lparr>sr_delivery_failures := sr_delivery_failures run @
     [\<lparr>df_output = pu_output pu, df_device = pu_device pu, df_artifact = pu_artifact pu, df_code = code\<rparr>]\<rparr>"

fun deliver_publications :: "'w delivery_env \<Rightarrow> publication list \<Rightarrow> scheduled_run \<Rightarrow> 'w \<Rightarrow> scheduled_run \<times> 'w" where
  "deliver_publications dl [] run w = (run, w)"
| "deliver_publications dl (pu # pus) run w =
     (if pu_device pu = [] then deliver_publications dl pus run w
      else case deliverOne dl pu w of
        ((delivered, failure), w) \<Rightarrow>
          if failure \<noteq> [] then deliver_publications dl pus (deliveryFailed pu failure run) w
          else deliver_publications dl pus (if delivered then run\<lparr>sr_delivered := sr_delivered run + 1\<rparr> else run) w)"

fun Deliver :: "'w delivery_env \<Rightarrow> scheduled_run list \<Rightarrow> 'w \<Rightarrow> scheduled_run list \<times> 'w" where
  "Deliver dl [] w = ([], w)"
| "Deliver dl (run # runs) w =
     (case deliver_publications dl (sr_publications run) run w of
        (run', w) \<Rightarrow> (case Deliver dl runs w of (runs', w) \<Rightarrow> (run' # runs', w)))"


section \<open>What a tick does\<close>

lemma build_outputs_keeps:
  assumes "build_outputs sd outputs run w = (run', w')"
  shows "sr_profile run' = sr_profile run" "sr_at run' = sr_at run" "sr_error run' = sr_error run"
    "sr_built run = length (sr_publications run) \<Longrightarrow> sr_built run' = length (sr_publications run')"
    "length (sr_publications run') + length (sr_failures run') =
       length (sr_publications run) + length (sr_failures run) + length outputs"
  using assms by (induction sd outputs run w rule: build_outputs.induct) (auto split: prod.splits sum.splits)

definition complete_run :: "profile \<Rightarrow> time \<Rightarrow> scheduled_run \<Rightarrow> bool" where
  "complete_run p now run \<longleftrightarrow> sr_profile run = pf_id p \<and> sr_at run = now \<and> sr_built run = length (sr_publications run)"

lemma run_profile_complete:
  assumes "run_profile sd now p w = (run, w')"
  shows "complete_run p now run"
  using assms
  by (auto simp: run_profile_def complete_run_def Let_def split: prod.splits sum.splits option.splits dest: build_outputs_keeps)

definition due_profiles :: "refresh_interval \<Rightarrow> time \<Rightarrow> profile list \<Rightarrow> profile list" where
  "due_profiles fallback now ps = filter (\<lambda>p. \<not> Archived p \<and> due (ScheduleOf p fallback) now) ps"

lemma run_profiles_due:
  assumes "run_profiles sd fallback now ps runs w = ((runs', None), w')"
  shows "\<exists>new. runs' = runs @ new \<and> list_all2 (\<lambda>p run. complete_run p now run) (due_profiles fallback now ps) new"
  using assms
proof (induction ps arbitrary: runs w)
  case Nil
  then show ?case by (simp add: due_profiles_def)
next
  case (Cons p ps)
  show ?case
  proof (cases "\<not> Archived p \<and> due (ScheduleOf p fallback) now")
    case False
    then have "run_profiles sd fallback now ps runs w = ((runs', None), w')" using Cons.prems by (auto split: if_splits)
    from Cons.IH [OF this] False show ?thesis by (auto simp: due_profiles_def)
  next
    case True
    obtain run w1 err w2 where r: "run_profile sd now p w = (run, w1)" "sd_record sd (pf_id p) now (run_failed run) w1 = (err, w2)"
      by (metis surj_pair)
    have "run_profiles sd fallback now ps (runs @ [run]) w2 = ((runs', None), w')"
      using Cons.prems True r by (auto split: option.splits prod.splits bool.splits)
    from Cons.IH [OF this] obtain new where
      new: "runs' = (runs @ [run]) @ new" "list_all2 (\<lambda>p run. complete_run p now run) (due_profiles fallback now ps) new" by blast
    with True run_profile_complete [OF r(1)] show ?thesis
      by (intro exI [of _ "run # new"]) (simp add: due_profiles_def)
  qed
qed

lemma period_pos: "period i = Some d \<Longrightarrow> 0 < d"
  by (auto simp: period_def refreshDailyPeriod_def refreshWeeklyPeriod_def split: if_splits)

lemma effective_period:
  "period (sc_effective (ScheduleOf p fallback)) =
     (if pf_interval p = RefreshDefault then period fallback else period (pf_interval p))"
  by (auto simp: ScheduleOf_def Let_def interval_valid_default_def period_def RefreshDefault_def RefreshOff_def RefreshDaily_def RefreshWeekly_def)

lemma due_iff:
  "due (ScheduleOf p fallback) now \<longleftrightarrow>
     (case (if pf_interval p = RefreshDefault then period fallback else period (pf_interval p)) of
        None \<Rightarrow> False | Some d \<Rightarrow> pf_last p = 0 \<or> pf_last p + d \<le> now)"
  using effective_period [of p fallback]
  by (auto simp: due_def ScheduleOf_def Let_def split: option.splits)


lemma due_fallback_off:
  "due (ScheduleOf p (if period i = None then RefreshOff else i)) now = due (ScheduleOf p i) now"
proof -
  have "period (if period i = None then RefreshOff else i) = period i"
    by (simp add: period_def RefreshOff_def RefreshDaily_def RefreshWeekly_def)
  then show ?thesis by (simp only: due_iff)
qed

text \<open>A run, finished or failed, puts the profile off for one whole period: the next tick, a minute later,
  does not try a failed profile again.\<close>

lemma failed_run_waits_a_period:
  assumes "now \<noteq> 0"
  shows "due (ScheduleOf (p\<lparr>pf_last := now, pf_last_failed := failed\<rparr>) fallback) t \<longleftrightarrow>
    (case (if pf_interval p = RefreshDefault then period fallback else period (pf_interval p)) of
       None \<Rightarrow> False | Some d \<Rightarrow> now + d \<le> t)"
  using assms by (simp add: due_iff split: option.splits)

lemma failed_profile_skips_next_tick:
  "\<not> due (ScheduleOf (p\<lparr>pf_interval := RefreshDaily, pf_last := 1, pf_last_failed := True\<rparr>) RefreshOff) (1 + 60 * 1000000000)"
  by (simp add: due_iff period_def refreshDailyPeriod_def RefreshDaily_def RefreshDefault_def)

section \<open>Properties\<close>

text \<open>
  C14. A tick attends to every due profile: when it reports no error it made one run, in order, for exactly
  the stored profiles that are not archived and due at its clock reading under the stored default, each run
  naming its profile, dated at that reading and counting the artifacts it published.
\<close>

theorem schedule_runs_due:
  assumes "RunDueRefreshes sd w = ((runs, None), w')"
  shows "\<exists>stored w1 profiles w2 now w3. DefaultRefreshInterval sd w = ((stored, None), w1) \<and>
    sd_profiles sd w1 = (Ok profiles, w2) \<and> sd_now sd w2 = (now, w3) \<and> now \<noteq> 0 \<and>
    list_all2 (\<lambda>p run. sr_profile run = pf_id p \<and> sr_at run = now \<and> sr_built run = length (sr_publications run))
      (filter (\<lambda>p. \<not> Archived p \<and> due (ScheduleOf p stored) now) profiles) runs"
proof -
  obtain stored err w1 where s: "DefaultRefreshInterval sd w = ((stored, err), w1)" by (metis surj_pair)
  obtain ps w2 where p: "sd_profiles sd w1 = (ps, w2)" by (metis surj_pair)
  obtain now w3 where n: "sd_now sd w2 = (now, w3)" by (metis surj_pair)
  from assms s have e: "err = None" by (auto simp: RunDueRefreshes_def split: option.splits)
  from assms s p e obtain profiles where pr: "ps = Ok profiles" by (cases ps) (auto simp: RunDueRefreshes_def Let_def)
  let ?f = "if period stored = None then RefreshOff else stored"
  have r: "now \<noteq> 0" "run_profiles sd ?f now profiles [] w3 = ((runs, None), w')"
    using assms s p n e pr by (auto simp: RunDueRefreshes_def Let_def split: if_splits)
  obtain new where "runs = [] @ new" "list_all2 (\<lambda>p run. complete_run p now run) (due_profiles ?f now profiles) new"
    using run_profiles_due [OF r(2)] by blast
  then have "list_all2 (\<lambda>p run. complete_run p now run) (due_profiles stored now profiles) runs"
    by (simp only: append_Nil due_profiles_def due_fallback_off)
  with s p n e pr r(1) show ?thesis unfolding complete_run_def due_profiles_def by blast
qed

definition sample_profile :: profile where
  "sample_profile = \<lparr>pf_id = ''p'', pf_name = ''n'', pf_lists = [], pf_categories = [], pf_exclusions = [], pf_domains = [],
     pf_priority = [], pf_interval = RefreshDaily, pf_last = 0, pf_last_failed = False, pf_archived = 0, pf_created = 1, pf_updated = 1\<rparr>"

definition sample_scheduler :: "nat scheduler" where
  "sample_scheduler = \<lparr>sd_setting = (\<lambda>k w. (Ok ''off'', w)), sd_put_setting = (\<lambda>k v t w. (None, w)),
     sd_profiles = (\<lambda>w. (Ok [sample_profile], w)), sd_now = (\<lambda>w. (7, w)), sd_refresh = (\<lambda>i w. (None, w)),
     sd_outputs = (\<lambda>i w. (Ok [], w)), sd_build = (\<lambda>i w. (Ok ''a'', w)), sd_record = (\<lambda>i t f w. (None, Suc w))\<rparr>"

lemmas tick_eval = RunDueRefreshes_def DefaultRefreshInterval_def interval_valid_default_def period_def run_profile_def
  ScheduleOf_def due_def Archived_def RefreshOff_def RefreshDaily_def RefreshWeekly_def RefreshDefault_def Let_def

theorem schedule_runs_due_witness:
  "\<exists>runs. RunDueRefreshes sample_scheduler 0 = ((runs, None), Suc 0) \<and> map sr_profile runs = [''p'']"
proof -
  obtain runs where r: "RunDueRefreshes sample_scheduler 0 = ((runs, None), Suc 0)"
    by (simp add: tick_eval sample_scheduler_def sample_profile_def)
  from schedule_runs_due [OF r] have "list_all2 (\<lambda>p run. sr_profile run = pf_id p) [sample_profile] runs"
    by (auto simp: tick_eval sample_scheduler_def sample_profile_def list_all2_Cons1)
  with r show ?thesis by (auto simp: list_all2_Cons1 sample_profile_def)
qed

definition delivery_reads_only :: "('w \<Rightarrow> 'd) \<Rightarrow> 'w delivery_env \<Rightarrow> bool" where
  "delivery_reads_only obs dl \<longleftrightarrow>
     (\<forall>w. obs (snd (dl_acquire dl w)) = obs w) \<and> (\<forall>w. obs (dl_release dl w) = obs w) \<and>
     (\<forall>i w. obs (snd (dl_output dl i w)) = obs w) \<and> (\<forall>i w. obs (snd (dl_device dl i w)) = obs w) \<and>
     (\<forall>i w. obs (snd (dl_credential dl i w)) = obs w)"

lemma delivery_reads:
  assumes "delivery_reads_only obs dl"
  shows "dl_acquire dl w = (x, w1) \<Longrightarrow> obs w1 = obs w" "obs (dl_release dl w) = obs w"
    "dl_output dl i w = (y, w1) \<Longrightarrow> obs w1 = obs w" "dl_device dl i w = (z, w1) \<Longrightarrow> obs w1 = obs w"
    "dl_credential dl i w = (u, w1) \<Longrightarrow> obs w1 = obs w"
  using assms unfolding delivery_reads_only_def by - ((drule arg_cong [of _ _ snd], metis snd_conv) | blast)+

text \<open>
  C12. An unattended delivery needs consent at the moment it starts: if it changes the device, then, while it
  holds the gate, the output it was built for is still bound to the device of the publication, that device
  has automatic delivery switched on, and its credential could be read.
\<close>

theorem delivery_authorised:
  assumes "delivery_reads_only obs dl" "deliverOne dl pu w = (r, w')" "obs w' \<noteq> obs w"
  shows "\<exists>w1 ou w2 d w3 c w4. dl_acquire dl w = (None, w1) \<and> dl_output dl (pu_output pu) w1 = (Ok ou, w2) \<and>
    ou_device ou = pu_device pu \<and> dl_device dl (pu_device pu) w2 = (Ok d, w3) \<and> dv_auto d \<and>
    dl_credential dl (dv_id d) w3 = (Ok c, w4)"
proof -
  note read = delivery_reads [OF assms(1)]
  obtain a w1 where a: "dl_acquire dl w = (a, w1)" by (metis surj_pair)
  obtain q w2 where q: "dl_output dl (pu_output pu) w1 = (q, w2)" by (metis surj_pair)
  obtain v w3 where v: "dl_device dl (pu_device pu) w2 = (v, w3)" by (metis surj_pair)
  have o: "obs w1 = obs w" "obs w2 = obs w" "obs w3 = obs w"
    using read(1) [OF a] read(3) [OF q] read(4) [OF v] by simp_all
  have "a = None" using assms(2,3) a o by (cases a) (auto simp: deliverOne_def)
  moreover obtain ou where "q = Ok ou" "ou_device ou = pu_device pu"
    using assms(2,3) a q o calculation read(2)
    by (cases q) (auto simp: deliverOne_def deliver_held_def split: if_splits)
  moreover obtain d where "v = Ok d" "dv_auto d"
    using assms(2,3) a q v o calculation read(2)
    by (cases v) (auto simp: deliverOne_def deliver_held_def split: if_splits)
  moreover obtain c w4 where "dl_credential dl (dv_id d) w3 = (c, w4)" by (metis surj_pair)
  moreover have "\<exists>x. c = Ok x"
    using assms(2,3) a q v o calculation read(2) read(5) [of "dv_id d" w3 c w4]
    by (cases c) (auto simp: deliverOne_def deliver_held_def split: if_splits)
  ultimately show ?thesis using a q v by blast
qed

definition sample_delivery :: "string delivery_env" where
  "sample_delivery = \<lparr>dl_acquire = (\<lambda>w. (None, w)), dl_release = id,
     dl_output = (\<lambda>i w. (Ok \<lparr>ou_prefix = [], ou_keep = False, ou_id = i, ou_profile = ''p'', ou_target = ''t'', ou_device = ''d'',
        ou_format = [], ou_renderer = [], ou_renderer_version = [], ou_revision = [], ou_created = 1, ou_latest = [], ou_previous = []\<rparr>, w)),
     dl_device = (\<lambda>i w. (Ok \<lparr>dv_id = i, dv_target = ''t'', dv_name = [], dv_address = ''u'', dv_account = [], dv_interface = [],
        dv_stored = True, dv_auto = True, dv_created = 1, dv_updated = 1\<rparr>, w)),
     dl_credential = (\<lambda>i w. (Ok ''s'', w)), dl_deploy = (\<lambda>c w. (None, dc_artifact c))\<rparr>"

definition sample_publication :: publication where
  "sample_publication = \<lparr>pu_output = ''o'', pu_target = ''t'', pu_device = ''d'', pu_artifact = ''new''\<rparr>"

theorem delivery_authorised_witness:
  "\<exists>w1 ou w2 d w3. deliverOne sample_delivery sample_publication ''old'' = ((True, []), ''new'') \<and>
     dl_output sample_delivery ''o'' w1 = (Ok ou, w2) \<and> dl_device sample_delivery ''d'' w2 = (Ok d, w3) \<and> dv_auto d"
proof -
  have r: "delivery_reads_only id sample_delivery" by (simp add: delivery_reads_only_def sample_delivery_def)
  have d: "deliverOne sample_delivery sample_publication ''old'' = ((True, []), ''new'')"
    by (simp add: deliverOne_def deliver_held_def sample_delivery_def sample_publication_def)
  have "id ''new'' \<noteq> id ''old''" by simp
  from delivery_authorised [OF r d this] d show ?thesis
    unfolding sample_publication_def publication.select_convs by blast
qed

end
