(* ===== verification/Library.thy ===== *)
theory Library
  imports GoMap GoUtf8 Domain
begin

text \<open>
  The operator's library over the shipped catalog: \<open>categories.go\<close>, \<open>removals.go\<close> and \<open>custom_lists.go\<close> of
  \<open>internal/application\<close>. The registries of the publication service are one record, the store, the clock and
  the entropy are operations on a world \<open>'w\<close>. A write reaches the store first and the registry second.
  The locks order whole operations, so an operation is one step here.
\<close>

section \<open>Names\<close>

definition has_prefix :: "string \<Rightarrow> string \<Rightarrow> bool" where
  "has_prefix s p \<longleftrightarrow> take (length p) s = p"

text \<open>\<open>strings.TrimSpace\<close>: white space is cut off both ends, rune by rune.\<close>

definition trim_runes :: "string \<Rightarrow> string" where
  "trim_runes s =
     (let space = (\<lambda>c. rune_space (chunk_rune c))
      in concat (rev (dropWhile space (rev (dropWhile space (chunks s))))))"

definition validName :: "string \<Rightarrow> nat \<Rightarrow> string option" where
  "validName name maximum =
     (let n = trim_runes name in
      if n = [] \<or> maximum < length (rune_codes n) then None
      else if \<exists>r \<in> set (rune_codes n). control_rune r then None
      else Some n)"

definition maxObjectNameRunes :: nat where "maxObjectNameRunes = 120"

definition validObjectName :: "string \<Rightarrow> string option" where
  "validObjectName name = validName name maxObjectNameRunes"

definition maxCompositionItems :: nat where "maxCompositionItems = 128"
definition maxDomainsPerList :: nat where "maxDomainsPerList = 64"
definition maxCustomLists :: nat where "maxCustomLists = maxCompositionItems"

definition CustomCategoryIDPrefix :: string where "CustomCategoryIDPrefix = ''custom-''"
definition customListIDPrefix :: string where "customListIDPrefix = ''custom-''"

definition maxCategoryTitleRunes :: nat where "maxCategoryTitleRunes = 80"
definition maxCustomCategories :: nat where "maxCustomCategories = maxCompositionItems"
definition maxCategoryMembers :: nat where "maxCategoryMembers = maxCompositionItems"
definition maxCatalogRemovals :: nat where "maxCatalogRemovals = 1024"

section \<open>What the library holds\<close>

datatype MembershipState = MembershipAdded | MembershipRemoved | MembershipOther string

datatype RemovalKind = RemovalCategory | RemovalList | RemovalOther string

datatype CategoryListDisposition = CategoryListsDetach | CategoryListsDelete | CategoryListsOther string

record custom_category =
  cc_id :: string
  cc_title :: string
  cc_created :: time
  cc_updated :: time

record membership =
  me_category :: string
  me_list :: string
  me_state :: MembershipState
  me_updated :: time

record catalog_removal =
  cr_kind :: RemovalKind
  cr_id :: string
  cr_at :: time

record category_overlay =
  ov_categories :: "custom_category list"
  ov_memberships :: "membership list"
  ov_removals :: "catalog_removal list"

record category_write =
  cw_id :: string
  cw_title :: string
  cw_memberships :: "membership list"
  cw_replace :: bool
  cw_updated :: time

record library_removal =
  lr_kind :: RemovalKind
  lr_id :: string
  lr_lists :: "string list"
  lr_at :: time

record category_detail =
  cd_id :: string
  cd_title :: string
  cd_lists :: "string list"
  cd_custom :: bool

record profile_reference =
  ref_id :: string
  ref_title :: string
  ref_archived :: time

record custom_list =
  cl_id :: string
  cl_title :: string
  cl_domains :: "string list"
  cl_created :: time
  cl_updated :: time

record custom_source =
  cs_id :: string
  cs_list :: string
  cs_url :: string
  cs_format :: string
  cs_created :: time
  cs_updated :: time

datatype DomainVerdict = DomainVerdictInclude | DomainVerdictExclude | DomainVerdictAuto | DomainVerdictOther string

record list_tuning =
  lt_disabled :: "string list"
  lt_sources :: "custom_source list"
  lt_includes :: "string list"
  lt_excludes :: "string list"

datatype library_error =
    ErrNotFound | ErrIdentityCollision | ErrCatalogCategory
  | CategoryInUse string "profile_reference list" | ListInUse string "profile_reference list"
  | InvalidDestination string | ErrZeroClock | ErrInvalid string | ErrLimit string | ErrStore string

text \<open>
  The shipped part (the composition's categories and lists) and the registries: \<open>overlay\<close> with its three maps,
  \<open>custom\<close>, \<open>tuning\<close>, and the generation a publication is checked against.
\<close>

record library =
  lb_categories :: "(string \<times> category_def) list"
  lb_definitions :: "(string \<times> list_def) list"
  lb_revision :: string
  lb_custom :: "(string \<times> custom_category) list"
  lb_membership :: "(string \<times> (string \<times> MembershipState) list) list"
  lb_removed :: "(RemovalKind \<times> string) list"
  lb_lists :: "(string \<times> custom_list) list"
  lb_tuning :: "(string \<times> list_tuning) list"
  lb_generation :: "64 word"

text \<open>The store's part in the library, the clock and the entropy.\<close>

record 'w library_store =
  st_now :: "'w \<Rightarrow> time \<times> 'w"
  st_random :: "nat \<Rightarrow> 'w \<Rightarrow> (library_error, nat list) result \<times> 'w"
  st_overlay :: "'w \<Rightarrow> (library_error, category_overlay) result \<times> 'w"
  st_create_category :: "custom_category \<Rightarrow> membership list \<Rightarrow> 'w \<Rightarrow> library_error option \<times> 'w"
  st_update_category :: "category_write \<Rightarrow> 'w \<Rightarrow> library_error option \<times> 'w"
  st_remove :: "library_removal \<Rightarrow> 'w \<Rightarrow> library_error option \<times> 'w"
  st_references :: "string list \<Rightarrow> string list \<Rightarrow> 'w \<Rightarrow> (library_error, profile_reference list) result \<times> 'w"
  st_lists :: "'w \<Rightarrow> (library_error, custom_list list) result \<times> 'w"
  st_create_list :: "custom_list \<Rightarrow> 'w \<Rightarrow> library_error option \<times> 'w"
  st_update_list :: "custom_list \<Rightarrow> 'w \<Rightarrow> library_error option \<times> 'w"
  st_tunings :: "'w \<Rightarrow> (library_error, (string \<times> list_tuning) list) result \<times> 'w"
  st_set_disabled :: "string \<Rightarrow> string \<Rightarrow> bool \<Rightarrow> 'w \<Rightarrow> library_error option \<times> 'w"
  st_create_source :: "custom_source \<Rightarrow> 'w \<Rightarrow> library_error option \<times> 'w"
  st_remove_source :: "string \<Rightarrow> 'w \<Rightarrow> library_error option \<times> 'w"
  st_set_verdicts :: "string \<Rightarrow> string list \<Rightarrow> DomainVerdict \<Rightarrow> 'w \<Rightarrow> library_error option \<times> 'w"

text \<open>\<open>randomHex\<close>: the entropy's bytes in hexadecimal.\<close>

definition randomHex :: "'w library_store \<Rightarrow> nat \<Rightarrow> 'w \<Rightarrow> (library_error, string) result \<times> 'w" where
  "randomHex st n w =
     (case st_random st n w of (Err e, w) \<Rightarrow> (Err e, w) | (Ok bytes, w) \<Rightarrow> (Ok (hex_encode bytes), w))"

definition bump :: "library \<Rightarrow> library" where
  "bump lib = lib\<lparr>lb_generation := lb_generation lib + 1\<rparr>"

section \<open>Lists\<close>

definition removedFromLibrary :: "library \<Rightarrow> RemovalKind \<Rightarrow> string \<Rightarrow> bool" where
  "removedFromLibrary lib k i \<longleftrightarrow> (k, i) \<in> set (lb_removed lib)"

definition customListDefinition :: "custom_list \<Rightarrow> string \<Rightarrow> list_def" where
  "customListDefinition l revision =
     \<lparr>ld_id = cl_id l, ld_title = cl_title l, ld_components = [\<lparr>comp_id = ''web'', comp_required = True\<rparr>],
      ld_seeds = map (\<lambda>v. \<lparr>seed_kind = RuleDomainSuffix, seed_value = v, seed_component = ''web'',
        seed_source = ''manual:custom:'' @ cl_id l, seed_class = SourceManual\<rparr>) (cl_domains l),
      ld_dns_names = [], ld_sources = [], ld_catalog_revision = revision, ld_excluded_values = []\<rparr>"

definition baseDefinition :: "library \<Rightarrow> string \<Rightarrow> list_def option" where
  "baseDefinition lib i =
     (if removedFromLibrary lib RemovalList i then None
      else case map_of (lb_definitions lib) i of
        Some d \<Rightarrow> Some d
      | None \<Rightarrow> map_option (\<lambda>l. customListDefinition l (lb_revision lib)) (map_of (lb_lists lib) i))"

definition knownList :: "library \<Rightarrow> string \<Rightarrow> bool" where
  "knownList lib i \<longleftrightarrow> baseDefinition lib i \<noteq> None"

fun normalize_domains :: "string list \<Rightarrow> string list option" where
  "normalize_domains [] = Some []"
| "normalize_domains (v # vs) =
     (case normalize_domain v of
        Inl _ \<Rightarrow> None
      | Inr d \<Rightarrow> map_option ((#) d) (normalize_domains vs))"

definition validCustomListInput :: "string \<Rightarrow> string list \<Rightarrow> (library_error, string \<times> string list) result" where
  "validCustomListInput title domains =
     (case validObjectName title of
        None \<Rightarrow> Err (ErrInvalid ''custom list title'')
      | Some t \<Rightarrow>
          if domains = [] \<or> maxDomainsPerList < length domains then Err (ErrInvalid ''custom list domains'')
          else case normalize_domains domains of
            None \<Rightarrow> Err (ErrInvalid ''custom list domains'')
          | Some ds \<Rightarrow> Ok (t, StableStrings ds))"

definition normalizedCustomList :: "custom_list \<Rightarrow> (library_error, custom_list) result" where
  "normalizedCustomList l =
     (if \<not> has_prefix (cl_id l) customListIDPrefix \<or> \<not> is_ok (validate_slug (cl_id l))
      then Err (ErrInvalid ''custom list identity'')
      else if cl_created l = 0 \<or> cl_updated l = 0 then Err (ErrInvalid ''custom list moments'')
      else case validCustomListInput (cl_title l) (cl_domains l) of
        Inl _ \<Rightarrow> Err (ErrInvalid ''stored custom list'')
      | Inr (t, ds) \<Rightarrow> Ok (l\<lparr>cl_title := t, cl_domains := ds\<rparr>))"

fun load_lists :: "custom_list list \<Rightarrow> (string \<times> custom_list) list \<Rightarrow> (library_error, (string \<times> custom_list) list) result" where
  "load_lists [] m = Ok m"
| "load_lists (l # ls) m =
     (case normalizedCustomList l of Inl e \<Rightarrow> Err e | Inr n \<Rightarrow> load_lists ls (go_set (cl_id n) n m))"

definition LoadCustomLists :: "'w library_store \<Rightarrow> library \<Rightarrow> 'w \<Rightarrow> (library_error option \<times> library) \<times> 'w" where
  "LoadCustomLists st lib w =
     (case st_lists st w of
        (Err e, w) \<Rightarrow> ((Some e, lib), w)
      | (Ok stored, w) \<Rightarrow>
          (case load_lists stored [] of
             Inl e \<Rightarrow> ((Some e, lib), w)
           | Inr m \<Rightarrow> ((None, lib\<lparr>lb_lists := m\<rparr>), w)))"

text \<open>Eight identities are tried; only a collision is retried.\<close>

fun create_list ::
  "nat \<Rightarrow> 'w library_store \<Rightarrow> string \<Rightarrow> string list \<Rightarrow> time \<Rightarrow> library \<Rightarrow> 'w
   \<Rightarrow> ((library_error, custom_list) result \<times> library) \<times> 'w" where
  "create_list 0 st title domains now lib w = ((Err ErrIdentityCollision, lib), w)"
| "create_list (Suc n) st title domains now lib w =
     (case randomHex st 8 w of
        (Err e, w) \<Rightarrow> ((Err e, lib), w)
      | (Ok h, w) \<Rightarrow>
          let l = \<lparr>cl_id = customListIDPrefix @ h, cl_title = title, cl_domains = domains,
                cl_created = now, cl_updated = now\<rparr>
          in if map_of (lb_definitions lib) (cl_id l) \<noteq> None then create_list n st title domains now lib w
          else case st_create_list st l w of
            (Some e, w) \<Rightarrow>
              if e = ErrIdentityCollision then create_list n st title domains now lib w else ((Err e, lib), w)
          | (None, w) \<Rightarrow> ((Ok l, bump (lib\<lparr>lb_lists := go_set (cl_id l) l (lb_lists lib)\<rparr>)), w))"

definition CreateCustomList ::
  "'w library_store \<Rightarrow> string \<Rightarrow> string list \<Rightarrow> library \<Rightarrow> 'w \<Rightarrow> ((library_error, custom_list) result \<times> library) \<times> 'w" where
  "CreateCustomList st title domains lib w =
     (case validCustomListInput title domains of
        Inl e \<Rightarrow> ((Err e, lib), w)
      | Inr (t, ds) \<Rightarrow>
          let (now, w) = st_now st w in
          if now = 0 then ((Err ErrZeroClock, lib), w)
          else if maxCustomLists \<le> length (lb_lists lib) then ((Err (ErrLimit ''custom list''), lib), w)
          else create_list 8 st t ds now lib w)"

definition UpdateCustomList ::
  "'w library_store \<Rightarrow> string \<Rightarrow> string \<Rightarrow> string list \<Rightarrow> library \<Rightarrow> 'w
   \<Rightarrow> ((library_error, custom_list) result \<times> library) \<times> 'w" where
  "UpdateCustomList st i title domains lib w =
     (case validCustomListInput title domains of
        Inl e \<Rightarrow> ((Err e, lib), w)
      | Inr (t, ds) \<Rightarrow>
          (case map_of (lb_lists lib) i of
             None \<Rightarrow> ((Err ErrNotFound, lib), w)
           | Some current \<Rightarrow>
               let (now, w) = st_now st w in
               if now = 0 then ((Err ErrZeroClock, lib), w)
               else
                 let u = \<lparr>cl_id = cl_id current, cl_title = t, cl_domains = ds,
                       cl_created = cl_created current, cl_updated = now\<rparr>
                 in case st_update_list st u w of
                   (Some e, w) \<Rightarrow> ((Err e, lib), w)
                 | (None, w) \<Rightarrow> ((Ok u, bump (lib\<lparr>lb_lists := go_set (cl_id u) u (lb_lists lib)\<rparr>)), w)))"

definition customLists :: "library \<Rightarrow> custom_list list" where
  "customLists lib = sort_key cl_id (map snd (lb_lists lib))"

section \<open>Categories\<close>

definition membershipRows :: "string \<Rightarrow> string list \<Rightarrow> string list \<Rightarrow> time \<Rightarrow> membership list" where
  "membershipRows c desired catalog now =
     sort_key me_list
       (map (\<lambda>l. \<lparr>me_category = c, me_list = l, me_state = MembershipAdded, me_updated = now\<rparr>)
          (filter (\<lambda>l. l \<notin> set catalog) desired) @
        map (\<lambda>l. \<lparr>me_category = c, me_list = l, me_state = MembershipRemoved, me_updated = now\<rparr>)
          (filter (\<lambda>l. l \<notin> set desired) catalog))"

definition membershipIndex :: "membership list \<Rightarrow> (string \<times> MembershipState) list" where
  "membershipIndex rows = foldl (\<lambda>m r. go_set (me_list r) (me_state r) m) [] rows"

definition verdicts :: "library \<Rightarrow> string \<Rightarrow> (string \<times> MembershipState) list" where
  "verdicts lib c = (case map_of (lb_membership lib) c of None \<Rightarrow> [] | Some v \<Rightarrow> v)"

text \<open>The catalog's own members of a category; none for one the catalog does not have.\<close>

definition shipped_lists :: "library \<Rightarrow> string \<Rightarrow> string list" where
  "shipped_lists lib c = (case map_of (lb_categories lib) c of None \<Rightarrow> [] | Some d \<Rightarrow> cat_lists d)"

definition mergedCategory :: "library \<Rightarrow> string \<Rightarrow> category_detail option" where
  "mergedCategory lib c =
     (let base = map_of (lb_categories lib) c; created = map_of (lb_custom lib) c; vs = verdicts lib c in
      if removedFromLibrary lib RemovalCategory c \<or> (base = None \<and> created = None) then None
      else
        let title = (case created of
              Some own \<Rightarrow> cc_title own
            | None \<Rightarrow> (case base of None \<Rightarrow> [] | Some b \<Rightarrow> cat_title b));
            members = filter (\<lambda>l. map_of vs l \<noteq> Some MembershipRemoved) (shipped_lists lib c) @
              map fst (filter (\<lambda>(l, state). state = MembershipAdded) vs)
        in Some \<lparr>cd_id = c, cd_title = title, cd_lists = StableStrings (filter (knownList lib) members),
             cd_custom = (base = None)\<rparr>)"

definition mergedCategories :: "library \<Rightarrow> category_detail list" where
  "mergedCategories lib =
     concat (map (\<lambda>c. case mergedCategory lib c of None \<Rightarrow> [] | Some d \<Rightarrow> [d])
       (sort_unique (map fst (lb_categories lib) @ map fst (lb_custom lib))))"

definition no_detail :: category_detail where
  "no_detail = \<lparr>cd_id = [], cd_title = [], cd_lists = [], cd_custom = False\<rparr>"

definition detail_of :: "library \<Rightarrow> string \<Rightarrow> category_detail" where
  "detail_of lib c = (case mergedCategory lib c of None \<Rightarrow> no_detail | Some d \<Rightarrow> d)"

definition validCategoryTitle :: "string \<Rightarrow> string option" where
  "validCategoryTitle title = validName title maxCategoryTitleRunes"

definition validCategoryMembers :: "library \<Rightarrow> string list \<Rightarrow> (library_error, string list) result" where
  "validCategoryMembers lib ls =
     (let members = StableStrings ls in
      if maxCategoryMembers < length members then Err (ErrInvalid ''category lists'')
      else if \<exists>l \<in> set members. \<not> is_ok (validate_slug l) \<or> \<not> knownList lib l
      then Err (ErrInvalid ''category lists'')
      else Ok members)"

fun create_category ::
  "nat \<Rightarrow> 'w library_store \<Rightarrow> string \<Rightarrow> string list \<Rightarrow> time \<Rightarrow> library \<Rightarrow> 'w
   \<Rightarrow> ((library_error, category_detail) result \<times> library) \<times> 'w" where
  "create_category 0 st title members now lib w = ((Err ErrIdentityCollision, lib), w)"
| "create_category (Suc n) st title members now lib w =
     (case randomHex st 8 w of
        (Err e, w) \<Rightarrow> ((Err e, lib), w)
      | (Ok h, w) \<Rightarrow>
          let c = \<lparr>cc_id = CustomCategoryIDPrefix @ h, cc_title = title, cc_created = now, cc_updated = now\<rparr> in
          if map_of (lb_categories lib) (cc_id c) \<noteq> None then create_category n st title members now lib w
          else
            let rows = membershipRows (cc_id c) members [] now in
            case st_create_category st c rows w of
              (Some e, w) \<Rightarrow>
                if e = ErrIdentityCollision then create_category n st title members now lib w else ((Err e, lib), w)
            | (None, w) \<Rightarrow>
                let lib = bump (lib\<lparr>lb_custom := go_set (cc_id c) c (lb_custom lib),
                      lb_membership := go_set (cc_id c) (membershipIndex rows) (lb_membership lib)\<rparr>)
                in ((Ok (detail_of lib (cc_id c)), lib), w))"

definition CreateCategory ::
  "'w library_store \<Rightarrow> string \<Rightarrow> string list \<Rightarrow> library \<Rightarrow> 'w
   \<Rightarrow> ((library_error, category_detail) result \<times> library) \<times> 'w" where
  "CreateCategory st title ls lib w =
     (case validCategoryTitle title of
        None \<Rightarrow> ((Err (ErrInvalid ''category title''), lib), w)
      | Some t \<Rightarrow>
          let (now, w) = st_now st w in
          if now = 0 then ((Err ErrZeroClock, lib), w)
          else case validCategoryMembers lib ls of
            Inl e \<Rightarrow> ((Err e, lib), w)
          | Inr members \<Rightarrow>
              if maxCustomCategories \<le> length (lb_custom lib) then ((Err (ErrLimit ''custom category''), lib), w)
              else create_category 8 st t members now lib w)"

text \<open>A partial edit: a missing field is one the request did not mention.\<close>

definition update_title :: "category_detail \<Rightarrow> string option \<Rightarrow> (library_error, string) result" where
  "update_title current title =
     (case title of
        None \<Rightarrow> Ok (cd_title current)
      | Some t \<Rightarrow>
          if \<not> cd_custom current then Err ErrCatalogCategory
          else case validCategoryTitle t of
            None \<Rightarrow> Err (ErrInvalid ''category title'')
          | Some clean \<Rightarrow> Ok clean)"

definition update_members ::
  "library \<Rightarrow> string \<Rightarrow> string list option \<Rightarrow> time \<Rightarrow> (library_error, membership list option) result" where
  "update_members lib c ls now =
     (case ls of
        None \<Rightarrow> Ok None
      | Some wanted \<Rightarrow>
          (case validCategoryMembers lib wanted of
             Inl e \<Rightarrow> Err e
           | Inr desired \<Rightarrow> Ok (Some (membershipRows c desired (shipped_lists lib c) now))))"

definition store_category :: "string \<Rightarrow> string \<Rightarrow> membership list option \<Rightarrow> time \<Rightarrow> library \<Rightarrow> library" where
  "store_category c title rows now lib =
     (let lib = (case map_of (lb_custom lib) c of
            None \<Rightarrow> lib
          | Some stored \<Rightarrow> lib\<lparr>lb_custom := go_set c (stored\<lparr>cc_title := title, cc_updated := now\<rparr>) (lb_custom lib)\<rparr>)
      in bump (case rows of
            None \<Rightarrow> lib
          | Some rs \<Rightarrow> lib\<lparr>lb_membership := go_set c (membershipIndex rs) (lb_membership lib)\<rparr>))"

definition UpdateCategory ::
  "'w library_store \<Rightarrow> string \<Rightarrow> string option \<Rightarrow> string list option \<Rightarrow> library \<Rightarrow> 'w
   \<Rightarrow> ((library_error, category_detail) result \<times> library) \<times> 'w" where
  "UpdateCategory st c title ls lib w =
     (let (now, w) = st_now st w in
      if now = 0 then ((Err ErrZeroClock, lib), w)
      else case mergedCategory lib c of
        None \<Rightarrow> ((Err ErrNotFound, lib), w)
      | Some current \<Rightarrow>
          (case update_title current title of
             Inl e \<Rightarrow> ((Err e, lib), w)
           | Inr t \<Rightarrow>
               (case update_members lib c ls now of
                  Inl e \<Rightarrow> ((Err e, lib), w)
                | Inr rows \<Rightarrow>
                    let write = \<lparr>cw_id = c, cw_title = (if cd_custom current then t else []),
                          cw_memberships = (case rows of None \<Rightarrow> [] | Some rs \<Rightarrow> rs),
                          cw_replace = (rows \<noteq> None), cw_updated = now\<rparr>
                    in case st_update_category st write w of
                      (Some e, w) \<Rightarrow> ((Err e, lib), w)
                    | (None, w) \<Rightarrow>
                        let lib = store_category c t rows now lib in ((Ok (detail_of lib c), lib), w))))"

section \<open>Reading the stored overlay back\<close>

definition normalizedCustomCategory :: "custom_category \<Rightarrow> (library_error, custom_category) result" where
  "normalizedCustomCategory c =
     (if \<not> has_prefix (cc_id c) CustomCategoryIDPrefix \<or> \<not> is_ok (validate_slug (cc_id c))
      then Err (ErrInvalid ''custom category identity'')
      else if cc_created c = 0 \<or> cc_updated c = 0 then Err (ErrInvalid ''custom category moments'')
      else case validCategoryTitle (cc_title c) of
        None \<Rightarrow> Err (ErrInvalid ''stored custom category'')
      | Some t \<Rightarrow> Ok (c\<lparr>cc_title := t\<rparr>))"

definition validStoredMembership :: "membership \<Rightarrow> bool" where
  "validStoredMembership m \<longleftrightarrow>
     is_ok (validate_slug (me_category m)) \<and> is_ok (validate_slug (me_list m)) \<and>
     (case me_state m of
        MembershipAdded \<Rightarrow> True
      | MembershipRemoved \<Rightarrow> \<not> has_prefix (me_category m) CustomCategoryIDPrefix
      | MembershipOther _ \<Rightarrow> False)"

definition validStoredRemoval :: "catalog_removal \<Rightarrow> bool" where
  "validStoredRemoval r \<longleftrightarrow>
     (case cr_kind r of RemovalOther _ \<Rightarrow> False | _ \<Rightarrow> True) \<and> is_ok (validate_slug (cr_id r)) \<and>
     \<not> has_prefix (cr_id r) CustomCategoryIDPrefix \<and> cr_at r \<noteq> 0"

fun load_categories ::
  "(string \<times> category_def) list \<Rightarrow> custom_category list \<Rightarrow> (string \<times> custom_category) list
   \<Rightarrow> (library_error, (string \<times> custom_category) list) result" where
  "load_categories catalog [] m = Ok m"
| "load_categories catalog (c # cs) m =
     (case normalizedCustomCategory c of
        Inl e \<Rightarrow> Err e
      | Inr n \<Rightarrow>
          if map_of catalog (cc_id n) \<noteq> None then Err (ErrInvalid ''collides with the catalog'')
          else load_categories catalog cs (go_set (cc_id n) n m))"

definition load_membership ::
  "(string \<times> (string \<times> MembershipState) list) list \<Rightarrow> membership
   \<Rightarrow> (string \<times> (string \<times> MembershipState) list) list" where
  "load_membership m e =
     upsert (me_category e)
       (\<lambda>old. go_set (me_list e) (me_state e) (case old of None \<Rightarrow> [] | Some v \<Rightarrow> v)) m"

definition LoadCategories :: "'w library_store \<Rightarrow> library \<Rightarrow> 'w \<Rightarrow> (library_error option \<times> library) \<times> 'w" where
  "LoadCategories st lib w =
     (case st_overlay st w of
        (Err e, w) \<Rightarrow> ((Some e, lib), w)
      | (Ok stored, w) \<Rightarrow>
          if maxCustomCategories < length (ov_categories stored)
          then ((Some (ErrInvalid ''stored categories exceed their bound''), lib), w)
          else case load_categories (lb_categories lib) (ov_categories stored) [] of
            Inl e \<Rightarrow> ((Some e, lib), w)
          | Inr custom \<Rightarrow>
              if \<not> list_all validStoredMembership (ov_memberships stored)
              then ((Some (ErrInvalid ''stored category membership''), lib), w)
              else if maxCatalogRemovals < length (ov_removals stored)
              then ((Some (ErrInvalid ''stored removals exceed their bound''), lib), w)
              else if \<not> list_all validStoredRemoval (ov_removals stored)
              then ((Some (ErrInvalid ''stored removal''), lib), w)
              else ((None, lib\<lparr>lb_custom := custom,
                lb_membership := foldl load_membership [] (ov_memberships stored),
                lb_removed := remdups (map (\<lambda>r. (cr_kind r, cr_id r)) (ov_removals stored))\<rparr>), w))"

section \<open>Deleting from the library\<close>

definition profilesNaming ::
  "'w library_store \<Rightarrow> string list \<Rightarrow> string list \<Rightarrow> 'w \<Rightarrow> (library_error, profile_reference list) result \<times> 'w" where
  "profilesNaming st categories ls w =
     (if categories = [] \<and> ls = [] then (Ok [], w) else st_references st categories ls w)"

definition forgetCategory :: "string \<Rightarrow> library \<Rightarrow> library" where
  "forgetCategory c lib =
     (let lib = (if map_of (lb_custom lib) c \<noteq> None then lib\<lparr>lb_custom := go_delete c (lb_custom lib)\<rparr>
                 else lib\<lparr>lb_removed := List.insert (RemovalCategory, c) (lb_removed lib)\<rparr>)
      in lib\<lparr>lb_membership := go_delete c (lb_membership lib)\<rparr>)"

definition forget_member :: "string \<Rightarrow> (string \<times> (string \<times> MembershipState) list) list
    \<Rightarrow> (string \<times> (string \<times> MembershipState) list) list" where
  "forget_member i m = filter (\<lambda>(c, vs). vs \<noteq> []) (map (\<lambda>(c, vs). (c, go_delete i vs)) m)"

definition forgetList :: "string \<Rightarrow> library \<Rightarrow> library" where
  "forgetList i lib = lib
     \<lparr>lb_lists := go_delete i (lb_lists lib), lb_tuning := go_delete i (lb_tuning lib),
      lb_removed := (if has_prefix i CustomCategoryIDPrefix then lb_removed lib
                     else List.insert (RemovalList, i) (lb_removed lib)),
      lb_membership := forget_member i (lb_membership lib)\<rparr>"

definition RemoveCategory ::
  "'w library_store \<Rightarrow> string \<Rightarrow> CategoryListDisposition \<Rightarrow> library \<Rightarrow> 'w
   \<Rightarrow> (library_error option \<times> library) \<times> 'w" where
  "RemoveCategory st c disposition lib w =
     (if disposition \<noteq> CategoryListsDetach \<and> disposition \<noteq> CategoryListsDelete
      then ((Some (ErrInvalid ''category list disposition''), lib), w)
      else let (now, w) = st_now st w in
      if now = 0 then ((Some ErrZeroClock, lib), w)
      else case mergedCategory lib c of
        None \<Rightarrow> ((Some ErrNotFound, lib), w)
      | Some current \<Rightarrow>
          let held = (if disposition = CategoryListsDelete then cd_lists current else []) in
          case profilesNaming st [c] held w of
            (Err e, w) \<Rightarrow> ((Some e, lib), w)
          | (Ok refs, w) \<Rightarrow>
              if refs \<noteq> [] then ((Some (CategoryInUse c refs), lib), w)
              else case st_remove st \<lparr>lr_kind = RemovalCategory, lr_id = c, lr_lists = held, lr_at = now\<rparr> w of
                (Some e, w) \<Rightarrow> ((Some e, lib), w)
              | (None, w) \<Rightarrow> ((None, bump (fold forgetList held (forgetCategory c lib))), w))"

definition RemoveList ::
  "'w library_store \<Rightarrow> string \<Rightarrow> library \<Rightarrow> 'w \<Rightarrow> (library_error option \<times> library) \<times> 'w" where
  "RemoveList st i lib w =
     (let (now, w) = st_now st w in
      if now = 0 then ((Some ErrZeroClock, lib), w)
      else if \<not> knownList lib i then ((Some ErrNotFound, lib), w)
      else case profilesNaming st [] [i] w of
        (Err e, w) \<Rightarrow> ((Some e, lib), w)
      | (Ok refs, w) \<Rightarrow>
          if refs \<noteq> [] then ((Some (ListInUse i refs), lib), w)
          else case st_remove st \<lparr>lr_kind = RemovalList, lr_id = i, lr_lists = [], lr_at = now\<rparr> w of
            (Some e, w) \<Rightarrow> ((Some e, lib), w)
          | (None, w) \<Rightarrow> ((None, bump (forgetList i lib)), w))"

end
