(* ===== verification/ListTuning.thy ===== *)
theory ListTuning
  imports Library
begin

text \<open>
  \<open>list_tuning.go\<close>: the operator's standing corrections of one list (sources switched off, added feeds,
  verdicts on destinations) and the effective definition they make, which every refresh and build reads.
\<close>

definition customSourceIDPrefix :: string where "customSourceIDPrefix = ''feed-''"

definition maxCustomSourcesPerList :: nat where "maxCustomSourcesPerList = 8"
definition maxCustomSourcesTotal :: nat where "maxCustomSourcesTotal = 64"
definition maxListVerdicts :: nat where "maxListVerdicts = 2048"
definition maxVerdictBatch :: nat where "maxVerdictBatch = 1024"
definition maxDestinationLength :: nat where "maxDestinationLength = 253"

text \<open>\<open>strings.ToValidUTF8(s, "")\<close> drops the invalid bytes.\<close>

definition invalidDestination :: "string \<Rightarrow> library_error" where
  "invalidDestination value = InvalidDestination
     (if maxDestinationLength < length value
      then concat (filter (\<lambda>c. rune_width c \<noteq> 0) (chunks (take maxDestinationLength value)))
      else value)"

definition no_tuning :: list_tuning where
  "no_tuning = \<lparr>lt_disabled = [], lt_sources = [], lt_includes = [], lt_excludes = []\<rparr>"

definition listTuning :: "library \<Rightarrow> string \<Rightarrow> list_tuning" where
  "listTuning lib i = (case map_of (lb_tuning lib) i of None \<Rightarrow> no_tuning | Some t \<Rightarrow> t)"

section \<open>The effective definition\<close>

definition customSourceRevision :: "custom_source \<Rightarrow> string" where
  "customSourceRevision s = sha256_hex (json_encode (JObj
     [(''implementation'', JStr ''routevane-custom-feed/1''), (''id'', JStr (cs_id s)),
      (''url'', JStr (cs_url s)), (''format'', JStr (cs_format s))]))"

definition customSourceDefinition :: "custom_source \<Rightarrow> string \<Rightarrow> source_def" where
  "customSourceDefinition s component =
     \<lparr>src_id = cs_id s, src_type = SourceHTTP, src_component = component, src_names = [], src_url = cs_url s,
      src_format = cs_format s, src_class = SourceCommunity, src_impl_revision = [],
      src_revision = customSourceRevision s\<rparr>"

definition firstComponentID :: "list_def \<Rightarrow> string" where
  "firstComponentID d = (case ld_components d of [] \<Rightarrow> ''web'' | c # _ \<Rightarrow> comp_id c)"

definition included_seed :: "list_def \<Rightarrow> string \<Rightarrow> seed list" where
  "included_seed base v =
     (case normalize_rule_value v of
        Inl _ \<Rightarrow> []
      | Inr (canonical, kind) \<Rightarrow>
          if canonical \<noteq> v then []
          else [\<lparr>seed_kind = kind, seed_value = v, seed_component = firstComponentID base,
                 seed_source = ''manual:tuning:'' @ ld_id base, seed_class = SourceManual\<rparr>])"

definition apply_tuning :: "list_tuning \<Rightarrow> list_def \<Rightarrow> list_def" where
  "apply_tuning t base =
     (if lt_disabled t = [] \<and> lt_sources t = [] \<and> lt_includes t = [] \<and> lt_excludes t = [] then base
      else
        let sources = filter (\<lambda>s. src_id s \<notin> set (lt_disabled t)) (ld_sources base) @
              map (\<lambda>f. customSourceDefinition f (firstComponentID base))
                (filter (\<lambda>f. cs_id f \<notin> set (lt_disabled t)) (lt_sources t));
            kept = filter (\<lambda>s. seed_value s \<notin> set (lt_excludes t)) (ld_seeds base);
            present = set (map seed_value kept);
            added = concat (map (included_seed base) (filter (\<lambda>v. v \<notin> present) (lt_includes t)))
        in base\<lparr>ld_sources := sources, ld_seeds := kept @ added,
             ld_excluded_values := (if lt_excludes t = [] then ld_excluded_values base else lt_excludes t)\<rparr>)"

definition tunedDefinition :: "library \<Rightarrow> list_def \<Rightarrow> list_def" where
  "tunedDefinition lib base = apply_tuning (listTuning lib (ld_id base)) base"

text \<open>\<open>definition\<close> of \<open>custom_lists.go\<close>.\<close>

definition list_definition :: "library \<Rightarrow> string \<Rightarrow> list_def option" where
  "list_definition lib i = map_option (tunedDefinition lib) (baseDefinition lib i)"

definition hasDefinition :: "library \<Rightarrow> string \<Rightarrow> bool" where
  "hasDefinition lib i \<longleftrightarrow> list_definition lib i \<noteq> None"

definition sourceRevisions :: "list_def \<Rightarrow> (string \<times> string) list" where
  "sourceRevisions d = foldl (\<lambda>m s. go_set (src_id s) (src_revision s) m) [] (ld_sources d)"

definition sourceKnown :: "library \<Rightarrow> list_def \<Rightarrow> string \<Rightarrow> bool" where
  "sourceKnown lib base i \<longleftrightarrow>
     i \<in> set (map src_id (ld_sources base)) \<or> i \<in> set (map cs_id (lt_sources (listTuning lib (ld_id base))))"

section \<open>Corrections\<close>

definition storeTuningLocked :: "string \<Rightarrow> list_tuning \<Rightarrow> library \<Rightarrow> library" where
  "storeTuningLocked i t lib = lib\<lparr>lb_tuning :=
     (if lt_disabled t = [] \<and> lt_sources t = [] \<and> lt_includes t = [] \<and> lt_excludes t = []
      then go_delete i (lb_tuning lib) else go_set i t (lb_tuning lib))\<rparr>"

definition withoutString :: "string list \<Rightarrow> string \<Rightarrow> string list" where
  "withoutString values dropped = filter (\<lambda>v. v \<noteq> dropped) values"

definition SetListSourceEnabled ::
  "'w library_store \<Rightarrow> string \<Rightarrow> string \<Rightarrow> bool \<Rightarrow> library \<Rightarrow> 'w \<Rightarrow> (library_error option \<times> library) \<times> 'w" where
  "SetListSourceEnabled st i source enabled lib w =
     (case baseDefinition lib i of
        None \<Rightarrow> ((Some ErrNotFound, lib), w)
      | Some base \<Rightarrow>
          if \<not> sourceKnown lib base source then ((Some ErrNotFound, lib), w)
          else case st_set_disabled st i source (\<not> enabled) w of
            (Some e, w) \<Rightarrow> ((Some e, lib), w)
          | (None, w) \<Rightarrow>
              let t = listTuning lib i;
                  kept = withoutString (lt_disabled t) source @ (if enabled then [] else [source])
              in ((None, bump (storeTuningLocked i (t\<lparr>lt_disabled := sort kept\<rparr>) lib)), w))"

definition feed_format_known :: "string \<Rightarrow> bool" where
  "feed_format_known f \<longleftrightarrow> f \<in> {''text'', ''json'', ''domain-list''}"

fun add_source ::
  "nat \<Rightarrow> 'w library_store \<Rightarrow> string \<Rightarrow> string \<Rightarrow> string \<Rightarrow> time \<Rightarrow> library \<Rightarrow> 'w
   \<Rightarrow> ((library_error, custom_source) result \<times> library) \<times> 'w" where
  "add_source 0 st i url fmt now lib w = ((Err ErrIdentityCollision, lib), w)"
| "add_source (Suc n) st i url fmt now lib w =
     (case randomHex st 8 w of
        (Err e, w) \<Rightarrow> ((Err e, lib), w)
      | (Ok h, w) \<Rightarrow>
          let feed = \<lparr>cs_id = customSourceIDPrefix @ h, cs_list = i, cs_url = url, cs_format = fmt,
                cs_created = now, cs_updated = now\<rparr>
          in case st_create_source st feed w of
            (Some e, w) \<Rightarrow>
              if e = ErrIdentityCollision then add_source n st i url fmt now lib w else ((Err e, lib), w)
          | (None, w) \<Rightarrow>
              let t = listTuning lib i in
              ((Ok feed, bump (storeTuningLocked i
                 (t\<lparr>lt_sources := sort_key cs_id (lt_sources t @ [feed])\<rparr>) lib)), w))"

text \<open>\<open>feed_url\<close> is the composition's check of a URL, absent when feeds are not available.\<close>

definition AddListSource ::
  "(string \<Rightarrow> bool) option \<Rightarrow> 'w library_store \<Rightarrow> string \<Rightarrow> string \<Rightarrow> string \<Rightarrow> library \<Rightarrow> 'w
   \<Rightarrow> ((library_error, custom_source) result \<times> library) \<times> 'w" where
  "AddListSource feed_url st i url fmt lib w =
     (if baseDefinition lib i = None then ((Err ErrNotFound, lib), w)
      else if \<not> feed_format_known fmt then ((Err (ErrInvalid ''feed format''), lib), w)
      else case feed_url of
        None \<Rightarrow> ((Err (ErrInvalid ''feed sources are not available''), lib), w)
      | Some ok \<Rightarrow>
          if \<not> ok url then ((Err (ErrInvalid ''feed URL''), lib), w)
          else if maxCustomSourcesPerList \<le> length (lt_sources (listTuning lib i)) \<or>
            maxCustomSourcesTotal \<le> sum_list (map (length \<circ> lt_sources \<circ> snd) (lb_tuning lib))
          then ((Err (ErrLimit ''feed source''), lib), w)
          else let (now, w) = st_now st w in
            if now = 0 then ((Err ErrZeroClock, lib), w)
            else add_source 8 st i url fmt now lib w)"

definition RemoveListSource ::
  "'w library_store \<Rightarrow> string \<Rightarrow> string \<Rightarrow> library \<Rightarrow> 'w \<Rightarrow> (library_error option \<times> library) \<times> 'w" where
  "RemoveListSource st i source lib w =
     (if \<not> has_prefix source customSourceIDPrefix then ((Some ErrNotFound, lib), w)
      else if source \<notin> set (map cs_id (lt_sources (listTuning lib i))) then ((Some ErrNotFound, lib), w)
      else case st_remove_source st source w of
        (Some e, w) \<Rightarrow> ((Some e, lib), w)
      | (None, w) \<Rightarrow>
          let t = listTuning lib i in
          ((None, bump (storeTuningLocked i
             (t\<lparr>lt_sources := filter (\<lambda>f. cs_id f \<noteq> source) (lt_sources t),
                lt_disabled := withoutString (lt_disabled t) source\<rparr>) lib)), w))"

fun normalize_values :: "string list \<Rightarrow> string list \<Rightarrow> (library_error, string list) result" where
  "normalize_values [] acc = Ok acc"
| "normalize_values (v # vs) acc =
     (case normalize_rule_value v of
        Inl _ \<Rightarrow> Err (invalidDestination v)
      | Inr (canonical, _) \<Rightarrow>
          normalize_values vs (if canonical \<in> set acc then acc else acc @ [canonical]))"

definition set_values :: "string list \<Rightarrow> DomainVerdict \<Rightarrow> list_tuning \<Rightarrow> list_tuning" where
  "set_values values verdict t =
     (let inc = foldl withoutString (lt_includes t) values; exc = foldl withoutString (lt_excludes t) values in
      t\<lparr>lt_includes := (if verdict = DomainVerdictInclude then sort (inc @ values) else inc),
        lt_excludes := (if verdict = DomainVerdictExclude then sort (exc @ values) else exc)\<rparr>)"

definition SetListValues ::
  "'w library_store \<Rightarrow> string \<Rightarrow> string list \<Rightarrow> DomainVerdict \<Rightarrow> library \<Rightarrow> 'w
   \<Rightarrow> (library_error option \<times> library) \<times> 'w" where
  "SetListValues st i values verdict lib w =
     (if baseDefinition lib i = None then ((Some ErrNotFound, lib), w)
      else if verdict \<notin> {DomainVerdictInclude, DomainVerdictExclude, DomainVerdictAuto}
      then ((Some (ErrInvalid ''destination verdict''), lib), w)
      else if values = [] \<or> maxVerdictBatch < length values then ((Some (ErrInvalid ''batch''), lib), w)
      else case normalize_values values [] of
        Inl e \<Rightarrow> ((Some e, lib), w)
      | Inr normalized \<Rightarrow>
          let t = listTuning lib i;
              fresh = filter (\<lambda>v. v \<notin> set (lt_includes t) \<and> v \<notin> set (lt_excludes t)) normalized
          in if verdict \<noteq> DomainVerdictAuto \<and>
                maxListVerdicts < length (lt_includes t) + length (lt_excludes t) + length fresh
          then ((Some (ErrLimit ''destination verdict''), lib), w)
          else case st_set_verdicts st i normalized verdict w of
            (Some e, w) \<Rightarrow> ((Some e, lib), w)
          | (None, w) \<Rightarrow> ((None, bump (storeTuningLocked i (set_values normalized verdict t) lib)), w))"

section \<open>Reading the stored corrections back\<close>

definition normalizedListTuning :: "string \<Rightarrow> list_tuning \<Rightarrow> (library_error, list_tuning) result" where
  "normalizedListTuning i t =
     (if \<not> is_ok (validate_slug i) then Err (ErrInvalid ''tuned list'')
      else if \<exists>v \<in> set (lt_includes t @ lt_excludes t).
        (case normalize_rule_value v of Inl _ \<Rightarrow> True | Inr (c, _) \<Rightarrow> c \<noteq> v)
      then Err (ErrInvalid ''stored destination verdict'')
      else if \<exists>v \<in> set (lt_excludes t). v \<in> set (lt_includes t)
      then Err (ErrInvalid ''both included and excluded'')
      else Ok \<lparr>lt_disabled = StableStrings (lt_disabled t), lt_sources = sort_key cs_id (lt_sources t),
        lt_includes = StableStrings (lt_includes t), lt_excludes = StableStrings (lt_excludes t)\<rparr>)"

fun load_tunings ::
  "(string \<times> list_tuning) list \<Rightarrow> (string \<times> list_tuning) list
   \<Rightarrow> (library_error, (string \<times> list_tuning) list) result" where
  "load_tunings [] m = Ok m"
| "load_tunings ((i, t) # ts) m =
     (case normalizedListTuning i t of Inl e \<Rightarrow> Err e | Inr n \<Rightarrow> load_tunings ts (go_set i n m))"

definition LoadListTuning :: "'w library_store \<Rightarrow> library \<Rightarrow> 'w \<Rightarrow> (library_error option \<times> library) \<times> 'w" where
  "LoadListTuning st lib w =
     (case st_tunings st w of
        (Err e, w) \<Rightarrow> ((Some e, lib), w)
      | (Ok stored, w) \<Rightarrow>
          (case load_tunings stored [] of
             Inl e \<Rightarrow> ((Some e, lib), w)
           | Inr m \<Rightarrow> ((None, lib\<lparr>lb_tuning := m\<rparr>), w)))"

end
