(* ===== verification/SqliteLibrary.thy ===== *)
theory SqliteLibrary
  imports ListTuning
begin

text \<open>
  \<open>internal/infrastructure/sqlite\<close>, the library's tables: \<open>categories.go\<close>, \<open>removals.go\<close>, \<open>custom_lists.go\<close>,
  \<open>list_tuning.go\<close> and the references of \<open>profiles.go\<close>. A table is a list of rows; \<open>INSERT\<close> appends and refuses a
  taken primary key, \<open>UPDATE\<close> and \<open>DELETE\<close> map and filter, \<open>ORDER BY\<close> sorts and \<open>LIMIT\<close> takes. A transaction
  that fails leaves the database as it was. What the driver, the disk and the clock do is the environment's part
  \<open>'e\<close>. Moments are stored and read back unchanged (nanoseconds, RFC 3339 for removals), domains as JSON.
\<close>

section \<open>The tables\<close>

record profile_row =
  pr_id :: string
  pr_name :: string
  pr_archived :: time
  pr_deleted :: time
  pr_categories :: "string list"
  pr_lists :: "string list"

record database =
  db_categories :: "custom_category list"
  db_memberships :: "membership list"
  db_removals :: "catalog_removal list"
  db_lists :: "custom_list list"
  db_disabled :: "(string \<times> string) list"
  db_sources :: "custom_source list"
  db_verdicts :: "(string \<times> string \<times> DomainVerdict) list"
  db_profiles :: "profile_row list"

text \<open>\<open>se_fails\<close> says whether the next transaction fails outside its own statements.\<close>

record 'e sql_env =
  se_now :: "'e \<Rightarrow> time \<times> 'e"
  se_byte :: "'e \<Rightarrow> (library_error, 8 word) result \<times> 'e"
  se_fails :: "'e \<Rightarrow> string option \<times> 'e"

type_synonym 'e world = "database \<times> 'e"

text \<open>\<open>io.ReadFull\<close> on the entropy: exactly the bytes asked for, or the reader's error.\<close>

fun read_full :: "'e sql_env \<Rightarrow> nat \<Rightarrow> 'e \<Rightarrow> (library_error, nat list) result \<times> 'e" where
  "read_full env 0 e = (Ok [], e)"
| "read_full env (Suc n) e =
     (case se_byte env e of
        (Err x, e) \<Rightarrow> (Err x, e)
      | (Ok b, e) \<Rightarrow>
          (case read_full env n e of (Err x, e) \<Rightarrow> (Err x, e) | (Ok bs, e) \<Rightarrow> (Ok (unat b # bs), e)))"

definition transact ::
  "'e sql_env \<Rightarrow> (database \<Rightarrow> (library_error, database) result) \<Rightarrow> 'e world \<Rightarrow> library_error option \<times> 'e world" where
  "transact env body w =
     (case se_fails env (snd w) of
        (Some m, e) \<Rightarrow> (Some (ErrStore m), (fst w, e))
      | (None, e) \<Rightarrow>
          (case body (fst w) of Inl err \<Rightarrow> (Some err, (fst w, e)) | Inr db \<Rightarrow> (None, (db, e))))"

definition query ::
  "'e sql_env \<Rightarrow> (database \<Rightarrow> (library_error, 'a) result) \<Rightarrow> 'e world \<Rightarrow> (library_error, 'a) result \<times> 'e world" where
  "query env body w =
     (case se_fails env (snd w) of
        (Some m, e) \<Rightarrow> (Err (ErrStore m), (fst w, e))
      | (None, e) \<Rightarrow> (body (fst w), (fst w, e)))"

definition refuse :: "library_error \<Rightarrow> 'e world \<Rightarrow> library_error option \<times> 'e world" where
  "refuse e w = (Some e, w)"

section \<open>Categories\<close>

definition customCategoryLimit :: nat where "customCategoryLimit = 256"
definition categoryMembershipLimit :: nat where "categoryMembershipLimit = 16384"
definition maxCategoryTitleLength :: nat where "maxCategoryTitleLength = 80"
definition catalogRemovalLimit :: nat where "catalogRemovalLimit = 2048"
definition removedListsLimit :: nat where "removedListsLimit = 1024"

definition validCustomCategory :: "custom_category \<Rightarrow> bool" where
  "validCustomCategory c \<longleftrightarrow> has_prefix (cc_id c) CustomCategoryIDPrefix \<and> is_ok (validate_slug (cc_id c)) \<and>
     cc_title c \<noteq> [] \<and> length (rune_codes (cc_title c)) \<le> maxCategoryTitleLength"

definition validMembership :: "membership \<Rightarrow> bool" where
  "validMembership m \<longleftrightarrow> is_ok (validate_slug (me_category m)) \<and> is_ok (validate_slug (me_list m)) \<and>
     me_updated m \<noteq> 0 \<and>
     (case me_state m of
        MembershipAdded \<Rightarrow> True
      | MembershipRemoved \<Rightarrow> \<not> has_prefix (me_category m) CustomCategoryIDPrefix
      | MembershipOther _ \<Rightarrow> False)"

definition validMemberships :: "string \<Rightarrow> membership list \<Rightarrow> bool" where
  "validMemberships c ms \<longleftrightarrow> length ms \<le> categoryMembershipLimit \<and>
     (\<forall>m \<in> set ms. me_category m = c \<and> validMembership m) \<and> distinct (map me_list ms)"

fun writeMemberships :: "membership list \<Rightarrow> database \<Rightarrow> (library_error, database) result" where
  "writeMemberships [] db = Ok db"
| "writeMemberships (m # ms) db =
     (if (me_category m, me_list m) \<in> set (map (\<lambda>r. (me_category r, me_list r)) (db_memberships db))
      then Err (ErrStore ''write category membership'')
      else writeMemberships ms (db\<lparr>db_memberships := db_memberships db @ [m]\<rparr>))"

definition create_category_rows :: "custom_category \<Rightarrow> membership list \<Rightarrow> database \<Rightarrow> (library_error, database) result" where
  "create_category_rows c ms db =
     (if cc_id c \<in> set (map cc_id (db_categories db)) then Err ErrIdentityCollision
      else writeMemberships ms (db\<lparr>db_categories := db_categories db @ [c]\<rparr>))"

definition CreateCustomCategory ::
  "'e sql_env \<Rightarrow> custom_category \<Rightarrow> membership list \<Rightarrow> 'e world \<Rightarrow> library_error option \<times> 'e world" where
  "CreateCustomCategory env c ms w =
     (if \<not> validCustomCategory c \<or> cc_created c = 0 \<or> cc_updated c = 0
      then refuse (ErrInvalid ''custom category'') w
      else if \<not> validMemberships (cc_id c) ms then refuse (ErrInvalid ''category membership'') w
      else transact env (create_category_rows c ms) w)"

definition retitle :: "category_write \<Rightarrow> database \<Rightarrow> database" where
  "retitle cw db = db\<lparr>db_categories :=
     map (\<lambda>c. if cc_id c = cw_id cw then c\<lparr>cc_title := cw_title cw, cc_updated := cw_updated cw\<rparr> else c)
       (db_categories db)\<rparr>"

definition delete_memberships :: "(membership \<Rightarrow> bool) \<Rightarrow> database \<Rightarrow> database" where
  "delete_memberships gone db = db\<lparr>db_memberships := filter (\<lambda>m. \<not> gone m) (db_memberships db)\<rparr>"

definition update_category_rows :: "category_write \<Rightarrow> database \<Rightarrow> (library_error, database) result" where
  "update_category_rows cw db =
     (if has_prefix (cw_id cw) CustomCategoryIDPrefix \<and>
         length (filter (\<lambda>c. cc_id c = cw_id cw) (db_categories db)) \<noteq> 1
      then Err ErrNotFound
      else
        let db = (if has_prefix (cw_id cw) CustomCategoryIDPrefix then retitle cw db else db) in
        if cw_replace cw
        then writeMemberships (cw_memberships cw) (delete_memberships (\<lambda>m. me_category m = cw_id cw) db)
        else Ok db)"

definition UpdateCategoryRows ::
  "'e sql_env \<Rightarrow> category_write \<Rightarrow> 'e world \<Rightarrow> library_error option \<times> 'e world" where
  "UpdateCategoryRows env cw w =
     (let custom = has_prefix (cw_id cw) CustomCategoryIDPrefix in
      if \<not> is_ok (validate_slug (cw_id cw)) \<or> cw_updated cw = 0 \<or> custom \<noteq> (cw_title cw \<noteq> []) \<or>
         (custom \<and> maxCategoryTitleLength < length (rune_codes (cw_title cw)))
      then refuse (ErrInvalid ''category write'') w
      else if \<not> validMemberships (cw_id cw) (cw_memberships cw) then refuse (ErrInvalid ''category membership'') w
      else transact env (update_category_rows cw) w)"

definition validCatalogRemoval :: "catalog_removal \<Rightarrow> bool" where
  "validCatalogRemoval r \<longleftrightarrow> (case cr_kind r of RemovalOther _ \<Rightarrow> False | _ \<Rightarrow> True) \<and>
     is_ok (validate_slug (cr_id r)) \<and> \<not> has_prefix (cr_id r) CustomCategoryIDPrefix \<and> cr_at r \<noteq> 0"

definition kind_word :: "RemovalKind \<Rightarrow> string" where
  "kind_word k = (case k of RemovalCategory \<Rightarrow> ''category'' | RemovalList \<Rightarrow> ''list'' | RemovalOther s \<Rightarrow> s)"

definition catalogRemovals :: "database \<Rightarrow> (library_error, catalog_removal list) result" where
  "catalogRemovals db =
     (let rows = take (catalogRemovalLimit + 1) (sort_key (\<lambda>r. (kind_word (cr_kind r), cr_id r)) (db_removals db)) in
      if \<not> list_all validCatalogRemoval rows then Err (ErrInvalid ''stored catalog removal'')
      else if catalogRemovalLimit < length rows then Err (ErrStore ''stored catalog removals exceed their bound'')
      else Ok rows)"

definition overlay_rows :: "database \<Rightarrow> (library_error, category_overlay) result" where
  "overlay_rows db =
     (let cs = take (customCategoryLimit + 1) (sort_key cc_id (db_categories db));
          ms = take (categoryMembershipLimit + 1) (sort_key (\<lambda>m. (me_category m, me_list m)) (db_memberships db))
      in if \<not> list_all validCustomCategory cs then Err (ErrInvalid ''stored custom category'')
      else if customCategoryLimit < length cs then Err (ErrStore ''stored custom categories exceed their bound'')
      else if \<not> list_all validMembership ms then Err (ErrInvalid ''stored category membership'')
      else if categoryMembershipLimit < length ms then Err (ErrStore ''stored category membership exceeds its bound'')
      else case catalogRemovals db of
        Inl e \<Rightarrow> Err e
      | Inr rs \<Rightarrow> Ok \<lparr>ov_categories = cs, ov_memberships = ms, ov_removals = rs\<rparr>)"

section \<open>Removals\<close>

definition validLibraryRemoval :: "library_removal \<Rightarrow> bool" where
  "validLibraryRemoval r \<longleftrightarrow> lr_kind r \<in> {RemovalCategory, RemovalList} \<and>
     is_ok (validate_slug (lr_id r)) \<and> lr_at r \<noteq> 0 \<and>
     (lr_kind r = RemovalCategory \<or> lr_lists r = []) \<and> length (lr_lists r) \<le> removedListsLimit \<and>
     (\<forall>l \<in> set (lr_lists r). is_ok (validate_slug l)) \<and> distinct (lr_lists r)"

definition recordRemoval :: "RemovalKind \<Rightarrow> string \<Rightarrow> time \<Rightarrow> database \<Rightarrow> database" where
  "recordRemoval k i at db =
     (if (k, i) \<in> set (map (\<lambda>r. (cr_kind r, cr_id r)) (db_removals db)) then db
      else db\<lparr>db_removals := db_removals db @ [\<lparr>cr_kind = k, cr_id = i, cr_at = at\<rparr>]\<rparr>)"

definition removeCategoryRows :: "string \<Rightarrow> time \<Rightarrow> database \<Rightarrow> (library_error, database) result" where
  "removeCategoryRows i at db =
     (if has_prefix i CustomCategoryIDPrefix then
        (if length (filter (\<lambda>c. cc_id c = i) (db_categories db)) \<noteq> 1 then Err ErrNotFound
         else Ok (delete_memberships (\<lambda>m. me_category m = i)
           (db\<lparr>db_categories := filter (\<lambda>c. cc_id c \<noteq> i) (db_categories db)\<rparr>)))
      else Ok (delete_memberships (\<lambda>m. me_category m = i) (recordRemoval RemovalCategory i at db)))"

definition delete_list_state :: "string \<Rightarrow> database \<Rightarrow> database" where
  "delete_list_state i db = delete_memberships (\<lambda>m. me_list m = i)
     (db\<lparr>db_verdicts := filter (\<lambda>v. fst v \<noteq> i) (db_verdicts db),
         db_disabled := filter (\<lambda>d. fst d \<noteq> i) (db_disabled db),
         db_sources := filter (\<lambda>s. cs_list s \<noteq> i) (db_sources db)\<rparr>)"

definition removeListRows :: "string \<Rightarrow> time \<Rightarrow> database \<Rightarrow> (library_error, database) result" where
  "removeListRows i at db =
     (if has_prefix i CustomCategoryIDPrefix then
        (if length (filter (\<lambda>l. cl_id l = i) (db_lists db)) \<noteq> 1 then Err ErrNotFound
         else Ok (delete_list_state i (db\<lparr>db_lists := filter (\<lambda>l. cl_id l \<noteq> i) (db_lists db)\<rparr>)))
      else Ok (delete_list_state i (recordRemoval RemovalList i at db)))"

fun remove_all_lists :: "string list \<Rightarrow> time \<Rightarrow> database \<Rightarrow> (library_error, database) result" where
  "remove_all_lists [] at db = Ok db"
| "remove_all_lists (i # is) at db =
     (case removeListRows i at db of Inl e \<Rightarrow> Err e | Inr db \<Rightarrow> remove_all_lists is at db)"

definition removal_rows :: "library_removal \<Rightarrow> database \<Rightarrow> (library_error, database) result" where
  "removal_rows r db =
     (if lr_kind r = RemovalCategory then
        (case removeCategoryRows (lr_id r) (lr_at r) db of
           Inl e \<Rightarrow> Err e
         | Inr db \<Rightarrow> remove_all_lists (lr_lists r) (lr_at r) db)
      else remove_all_lists [lr_id r] (lr_at r) db)"

definition RemoveFromLibrary ::
  "'e sql_env \<Rightarrow> library_removal \<Rightarrow> 'e world \<Rightarrow> library_error option \<times> 'e world" where
  "RemoveFromLibrary env r w =
     (if \<not> validLibraryRemoval r then refuse (ErrInvalid ''library removal'') w
      else transact env (removal_rows r) w)"

definition ProfileReferences ::
  "'e sql_env \<Rightarrow> string list \<Rightarrow> string list \<Rightarrow> 'e world
   \<Rightarrow> (library_error, profile_reference list) result \<times> 'e world" where
  "ProfileReferences env categories ls w =
     (if categories = [] \<and> ls = [] then (Ok [], w)
      else if 128 < length categories \<or> 128 < length ls \<or>
        (\<exists>i \<in> set (categories @ ls). \<not> is_ok (validate_slug i))
      then (Err (ErrInvalid ''profile reference query''), w)
      else query env (\<lambda>db. Ok
        (map (\<lambda>p. \<lparr>ref_id = pr_id p, ref_title = pr_name p, ref_archived = pr_archived p\<rparr>)
          (sort_key pr_id (filter (\<lambda>p. pr_deleted p = 0 \<and>
             ((\<exists>c \<in> set (pr_categories p). c \<in> set categories) \<or> (\<exists>l \<in> set (pr_lists p). l \<in> set ls)))
             (db_profiles db))))) w)"

section \<open>Custom lists\<close>

definition customListLimit :: nat where "customListLimit = 200"

definition validCustomList :: "custom_list \<Rightarrow> bool" where
  "validCustomList l \<longleftrightarrow> has_prefix (cl_id l) ''custom-'' \<and> is_ok (validate_slug (cl_id l)) \<and>
     cl_title l \<noteq> [] \<and> length (rune_codes (cl_title l)) \<le> 120 \<and>
     cl_domains l \<noteq> [] \<and> length (cl_domains l) \<le> 64 \<and>
     length (StableStrings (cl_domains l)) = length (cl_domains l) \<and>
     (\<forall>v \<in> set (cl_domains l). normalize_domain v = Ok v)"

text \<open>
  \<open>CHECK (length(domains_json) BETWEEN 2 AND 16384)\<close>. This and the lengths of a feed's identity and URL in
  characters are the schema's checks that the Go side does not make first.
\<close>

definition domains_json_fits :: "string list \<Rightarrow> bool" where
  "domains_json_fits ds \<longleftrightarrow> length (json_encode (jstrs ds)) \<le> 16384"

definition create_list_row :: "custom_list \<Rightarrow> database \<Rightarrow> (library_error, database) result" where
  "create_list_row l db =
     (if cl_id l \<in> set (map cl_id (db_lists db)) then Err ErrIdentityCollision
      else if \<not> domains_json_fits (cl_domains l) then Err (ErrStore ''insert custom list'')
      else Ok (db\<lparr>db_lists := db_lists db @ [l]\<rparr>))"

definition CreateCustomListRow :: "'e sql_env \<Rightarrow> custom_list \<Rightarrow> 'e world \<Rightarrow> library_error option \<times> 'e world" where
  "CreateCustomListRow env l w =
     (if \<not> validCustomList l \<or> cl_created l = 0 \<or> cl_updated l = 0 then refuse (ErrInvalid ''custom list'') w
      else transact env (create_list_row l) w)"

definition update_list_row :: "custom_list \<Rightarrow> database \<Rightarrow> (library_error, database) result" where
  "update_list_row l db =
     (if \<not> domains_json_fits (cl_domains l) \<and> cl_id l \<in> set (map cl_id (db_lists db))
      then Err (ErrStore ''update custom list'')
      else if length (filter (\<lambda>r. cl_id r = cl_id l) (db_lists db)) \<noteq> 1 then Err ErrNotFound
      else Ok (db\<lparr>db_lists := map (\<lambda>r. if cl_id r = cl_id l
        then r\<lparr>cl_title := cl_title l, cl_domains := cl_domains l, cl_updated := cl_updated l\<rparr> else r) (db_lists db)\<rparr>))"

definition UpdateCustomListRow :: "'e sql_env \<Rightarrow> custom_list \<Rightarrow> 'e world \<Rightarrow> library_error option \<times> 'e world" where
  "UpdateCustomListRow env l w =
     (if \<not> validCustomList l \<or> cl_updated l = 0 then refuse (ErrInvalid ''custom list'') w
      else transact env (update_list_row l) w)"

definition custom_list_rows :: "database \<Rightarrow> (library_error, custom_list list) result" where
  "custom_list_rows db =
     (let rows = take customListLimit (sort_key cl_id (db_lists db)) in
      if list_all validCustomList rows then Ok rows else Err (ErrInvalid ''stored custom list''))"

section \<open>Tuning\<close>

definition tuningLimit :: nat where "tuningLimit = 2048"
definition verdictLimit :: nat where "verdictLimit = 16384"

definition validCustomSource :: "custom_source \<Rightarrow> bool" where
  "validCustomSource s \<longleftrightarrow> has_prefix (cs_id s) ''feed-'' \<and> is_ok (validate_slug (cs_id s)) \<and>
     is_ok (validate_slug (cs_list s)) \<and> 12 \<le> length (cs_url s) \<and> length (cs_url s) \<le> 2048 \<and>
     feed_format_known (cs_format s)"

definition disable_row :: "string \<Rightarrow> string \<Rightarrow> bool \<Rightarrow> database \<Rightarrow> database" where
  "disable_row l s disabled db = db\<lparr>db_disabled :=
     (if disabled then (if (l, s) \<in> set (db_disabled db) then db_disabled db else db_disabled db @ [(l, s)])
      else filter (\<lambda>r. r \<noteq> (l, s)) (db_disabled db))\<rparr>"

definition SetSourceDisabled ::
  "'e sql_env \<Rightarrow> string \<Rightarrow> string \<Rightarrow> bool \<Rightarrow> 'e world \<Rightarrow> library_error option \<times> 'e world" where
  "SetSourceDisabled env l s disabled w =
     (if \<not> is_ok (validate_slug l) \<or> \<not> is_ok (validate_slug s) then refuse (ErrInvalid ''source override'') w
      else transact env (\<lambda>db. Ok (disable_row l s disabled db)) w)"

definition create_source_row :: "custom_source \<Rightarrow> database \<Rightarrow> (library_error, database) result" where
  "create_source_row s db =
     (if cs_id s \<in> set (map cs_id (db_sources db)) then Err ErrIdentityCollision
      else if length (cs_id s) < 8 \<or> length (rune_codes (cs_url s)) < 12 then Err (ErrStore ''insert custom source'')
      else Ok (db\<lparr>db_sources := db_sources db @ [s]\<rparr>))"

definition CreateCustomSource :: "'e sql_env \<Rightarrow> custom_source \<Rightarrow> 'e world \<Rightarrow> library_error option \<times> 'e world" where
  "CreateCustomSource env s w =
     (if \<not> validCustomSource s \<or> cs_created s = 0 \<or> cs_updated s = 0 then refuse (ErrInvalid ''custom source'') w
      else transact env (create_source_row s) w)"

text \<open>
  Two statements outside a transaction: when the second fails the feed is gone although an error is
  returned.
\<close>

definition RemoveCustomSource :: "'e sql_env \<Rightarrow> string \<Rightarrow> 'e world \<Rightarrow> library_error option \<times> 'e world" where
  "RemoveCustomSource env s w =
     (if \<not> has_prefix s ''feed-'' \<or> \<not> is_ok (validate_slug s) then refuse ErrNotFound w
      else case transact env (\<lambda>db.
          if length (filter (\<lambda>r. cs_id r = s) (db_sources db)) \<noteq> 1 then Err ErrNotFound
          else Ok (db\<lparr>db_sources := filter (\<lambda>r. cs_id r \<noteq> s) (db_sources db)\<rparr>)) w of
        (Some e, w) \<Rightarrow> (Some e, w)
      | (None, w) \<Rightarrow>
          transact env (\<lambda>db. Ok (db\<lparr>db_disabled := filter (\<lambda>r. snd r \<noteq> s) (db_disabled db)\<rparr>)) w)"

definition write_verdict :: "string \<Rightarrow> DomainVerdict \<Rightarrow> database \<Rightarrow> string \<Rightarrow> database" where
  "write_verdict l verdict db v = db\<lparr>db_verdicts :=
     (if verdict = DomainVerdictAuto then filter (\<lambda>r. (fst r, fst (snd r)) \<noteq> (l, v)) (db_verdicts db)
      else if (l, v) \<in> set (map (\<lambda>r. (fst r, fst (snd r))) (db_verdicts db))
      then map (\<lambda>r. if (fst r, fst (snd r)) = (l, v) then (l, v, verdict) else r) (db_verdicts db)
      else db_verdicts db @ [(l, v, verdict)])\<rparr>"

definition SetDomainVerdicts ::
  "'e sql_env \<Rightarrow> string \<Rightarrow> string list \<Rightarrow> DomainVerdict \<Rightarrow> 'e world \<Rightarrow> library_error option \<times> 'e world" where
  "SetDomainVerdicts env l values verdict w =
     (if \<not> is_ok (validate_slug l) \<or> values = [] \<or>
         verdict \<notin> {DomainVerdictInclude, DomainVerdictExclude, DomainVerdictAuto} \<or>
         (\<exists>v \<in> set values. case normalize_rule_value v of Inl _ \<Rightarrow> True | Inr (c, _) \<Rightarrow> c \<noteq> v)
      then refuse (ErrInvalid ''destination verdict'') w
      else transact env (\<lambda>db. Ok (foldl (write_verdict l verdict) db values)) w)"

text \<open>\<open>ListTunings\<close> fills one map in three passes; the rows arrive ordered and limited.\<close>

definition retune :: "(list_tuning \<Rightarrow> list_tuning) \<Rightarrow> string \<Rightarrow> (string \<times> list_tuning) list \<Rightarrow> (string \<times> list_tuning) list" where
  "retune f l m = upsert l (\<lambda>old. f (case old of None \<Rightarrow> no_tuning | Some t \<Rightarrow> t)) m"

definition disabled_pass :: "(string \<times> list_tuning) list \<Rightarrow> string \<times> string \<Rightarrow> (string \<times> list_tuning) list" where
  "disabled_pass m r = retune (\<lambda>t. t\<lparr>lt_disabled := lt_disabled t @ [snd r]\<rparr>) (fst r) m"

definition source_pass :: "(string \<times> list_tuning) list \<Rightarrow> custom_source \<Rightarrow> (string \<times> list_tuning) list" where
  "source_pass m s = retune (\<lambda>t. t\<lparr>lt_sources := lt_sources t @ [s]\<rparr>) (cs_list s) m"

definition verdict_pass ::
  "(string \<times> list_tuning) list \<Rightarrow> string \<times> string \<times> DomainVerdict \<Rightarrow> (string \<times> list_tuning) list" where
  "verdict_pass m r = retune (\<lambda>t. case snd (snd r) of
       DomainVerdictInclude \<Rightarrow> t\<lparr>lt_includes := lt_includes t @ [fst (snd r)]\<rparr>
     | _ \<Rightarrow> t\<lparr>lt_excludes := lt_excludes t @ [fst (snd r)]\<rparr>) (fst r) m"

definition tuning_rows :: "database \<Rightarrow> (library_error, (string \<times> list_tuning) list) result" where
  "tuning_rows db =
     (let disabled = take tuningLimit (sort_key (\<lambda>r. r) (db_disabled db));
          sources = take tuningLimit (sort_key cs_id (db_sources db));
          verdicts = take verdictLimit (sort_key (\<lambda>r. (fst r, fst (snd r))) (db_verdicts db))
      in if \<not> list_all validCustomSource sources then Err (ErrInvalid ''stored custom source'')
      else if \<exists>r \<in> set verdicts. snd (snd r) \<notin> {DomainVerdictInclude, DomainVerdictExclude}
      then Err (ErrInvalid ''stored destination verdict'')
      else Ok (foldl verdict_pass (foldl source_pass (foldl disabled_pass [] disabled) sources) verdicts))"

section \<open>The store as the application sees it\<close>

definition sqlite_store :: "'e sql_env \<Rightarrow> 'e world library_store" where
  "sqlite_store env =
     \<lparr>st_now = (\<lambda>(db, e). let (t, e) = se_now env e in (t, (db, e))),
      st_random = (\<lambda>n (db, e). let (r, e) = read_full env n e in (r, (db, e))),
      st_overlay = query env overlay_rows,
      st_create_category = CreateCustomCategory env,
      st_update_category = UpdateCategoryRows env,
      st_remove = RemoveFromLibrary env,
      st_references = ProfileReferences env,
      st_lists = query env custom_list_rows,
      st_create_list = CreateCustomListRow env,
      st_update_list = UpdateCustomListRow env,
      st_tunings = query env tuning_rows,
      st_set_disabled = SetSourceDisabled env,
      st_create_source = CreateCustomSource env,
      st_remove_source = RemoveCustomSource env,
      st_set_verdicts = SetDomainVerdicts env\<rparr>"

end
