(* ===== verification/LibrarySpec.thy ===== *)
theory LibrarySpec
  imports SqliteLibrary
begin

text \<open>
  What the library is, apart from how it is held: the abstract state both the registries of the service and
  the tables of the store represent, and one effect per kind of write. \<open>library_view\<close> reads the registries,
  \<open>apply_effect\<close> says what a write does.
\<close>

section \<open>The abstract library\<close>

record stored =
  so_custom :: "string \<Rightarrow> custom_category option"
  so_verdicts :: "string \<Rightarrow> string \<Rightarrow> MembershipState option"
  so_removed :: "(RemovalKind \<times> string) set"
  so_lists :: "string \<Rightarrow> custom_list option"
  so_disabled :: "(string \<times> string) set"
  so_sources :: "custom_source set"
  so_includes :: "(string \<times> string) set"
  so_excludes :: "(string \<times> string) set"

datatype effect =
    AddCategory custom_category "membership list"
  | EditCategory category_write
  | Remove library_removal
  | AddList custom_list
  | EditList custom_list
  | SetDisabled string string bool
  | AddSource custom_source
  | RemoveSource string
  | SetVerdicts string "string list" DomainVerdict

definition stated :: "membership list \<Rightarrow> string \<Rightarrow> MembershipState option" where
  "stated ms = map_of (membershipIndex ms)"

definition retitled :: "category_write \<Rightarrow> custom_category \<Rightarrow> custom_category" where
  "retitled cw c = c\<lparr>cc_title := cw_title cw, cc_updated := cw_updated cw\<rparr>"

definition relisted :: "custom_list \<Rightarrow> custom_list \<Rightarrow> custom_list" where
  "relisted l r = r\<lparr>cl_title := cl_title l, cl_domains := cl_domains l, cl_updated := cl_updated l\<rparr>"

definition drop_list :: "string \<Rightarrow> stored \<Rightarrow> stored" where
  "drop_list i v = v
     \<lparr>so_lists := (so_lists v)(i := None),
      so_removed := (if has_prefix i CustomCategoryIDPrefix then so_removed v
                     else insert (RemovalList, i) (so_removed v)),
      so_verdicts := (\<lambda>c. (so_verdicts v c)(i := None)),
      so_disabled := {r \<in> so_disabled v. fst r \<noteq> i}, so_sources := {f \<in> so_sources v. cs_list f \<noteq> i},
      so_includes := {r \<in> so_includes v. fst r \<noteq> i}, so_excludes := {r \<in> so_excludes v. fst r \<noteq> i}\<rparr>"

definition drop_category :: "string \<Rightarrow> stored \<Rightarrow> stored" where
  "drop_category c v = v
     \<lparr>so_custom := (so_custom v)(c := None),
      so_removed := (if has_prefix c CustomCategoryIDPrefix then so_removed v
                     else insert (RemovalCategory, c) (so_removed v)),
      so_verdicts := (so_verdicts v)(c := Map.empty)\<rparr>"

fun apply_effect :: "effect \<Rightarrow> stored \<Rightarrow> stored" where
  "apply_effect (AddCategory c ms) v = v
     \<lparr>so_custom := (so_custom v)(cc_id c \<mapsto> c), so_verdicts := (so_verdicts v)(cc_id c := stated ms)\<rparr>"
| "apply_effect (EditCategory cw) v = v
     \<lparr>so_custom := (so_custom v)(cw_id cw := map_option (retitled cw) (so_custom v (cw_id cw))),
      so_verdicts := (if cw_replace cw then (so_verdicts v)(cw_id cw := stated (cw_memberships cw)) else so_verdicts v)\<rparr>"
| "apply_effect (Remove r) v =
     (if lr_kind r = RemovalCategory then fold drop_list (lr_lists r) (drop_category (lr_id r) v)
      else drop_list (lr_id r) v)"
| "apply_effect (AddList l) v = v\<lparr>so_lists := (so_lists v)(cl_id l \<mapsto> l)\<rparr>"
| "apply_effect (EditList l) v = v\<lparr>so_lists := (so_lists v)(cl_id l := map_option (relisted l) (so_lists v (cl_id l)))\<rparr>"
| "apply_effect (SetDisabled i s b) v = v
     \<lparr>so_disabled := (if b then insert (i, s) (so_disabled v) else so_disabled v - {(i, s)})\<rparr>"
| "apply_effect (AddSource f) v = v\<lparr>so_sources := insert f (so_sources v)\<rparr>"
| "apply_effect (RemoveSource s) v = v
     \<lparr>so_sources := {f \<in> so_sources v. cs_id f \<noteq> s}, so_disabled := {r \<in> so_disabled v. snd r \<noteq> s}\<rparr>"
| "apply_effect (SetVerdicts i vs verdict) v = v
     \<lparr>so_includes := so_includes v - {i} \<times> set vs \<union> (if verdict = DomainVerdictInclude then {i} \<times> set vs else {}),
      so_excludes := so_excludes v - {i} \<times> set vs \<union> (if verdict = DomainVerdictExclude then {i} \<times> set vs else {})\<rparr>"

text \<open>A write that adds finds nothing under its identity, a write that edits finds what it edits.\<close>

fun effect_fits :: "effect \<Rightarrow> stored \<Rightarrow> bool" where
  "effect_fits (AddCategory c ms) v \<longleftrightarrow> so_custom v (cc_id c) = None"
| "effect_fits (AddList l) v \<longleftrightarrow> so_lists v (cl_id l) = None"
| "effect_fits (EditList l) v \<longleftrightarrow> so_lists v (cl_id l) \<noteq> None"
| "effect_fits (AddSource f) v \<longleftrightarrow> cs_id f \<notin> cs_id ` so_sources v"
| "effect_fits _ v \<longleftrightarrow> True"

fun store_step :: "'w library_store \<Rightarrow> effect \<Rightarrow> 'w \<Rightarrow> library_error option \<times> 'w" where
  "store_step st (AddCategory c ms) w = st_create_category st c ms w"
| "store_step st (EditCategory cw) w = st_update_category st cw w"
| "store_step st (Remove r) w = st_remove st r w"
| "store_step st (AddList l) w = st_create_list st l w"
| "store_step st (EditList l) w = st_update_list st l w"
| "store_step st (SetDisabled i s b) w = st_set_disabled st i s b w"
| "store_step st (AddSource f) w = st_create_source st f w"
| "store_step st (RemoveSource s) w = st_remove_source st s w"
| "store_step st (SetVerdicts i vs verdict) w = st_set_verdicts st i vs verdict w"

section \<open>The registries as an abstract library\<close>

definition library_view :: "library \<Rightarrow> stored" where
  "library_view lib =
     \<lparr>so_custom = map_of (lb_custom lib), so_verdicts = (\<lambda>c. map_of (verdicts lib c)), so_removed = set (lb_removed lib),
      so_lists = map_of (lb_lists lib),
      so_disabled = {(i, s). s \<in> set (lt_disabled (listTuning lib i))},
      so_sources = {f. \<exists>i. f \<in> set (lt_sources (listTuning lib i))},
      so_includes = {(i, v). v \<in> set (lt_includes (listTuning lib i))},
      so_excludes = {(i, v). v \<in> set (lt_excludes (listTuning lib i))}\<rparr>"

text \<open>The registries keep their slices sorted and free of repetitions, and file a feed under its list.\<close>

definition tidy_tuning :: "string \<Rightarrow> list_tuning \<Rightarrow> bool" where
  "tidy_tuning i t \<longleftrightarrow> sorted_wrt (<) (lt_disabled t) \<and> sorted_wrt (<) (lt_includes t) \<and>
     sorted_wrt (<) (lt_excludes t) \<and> sorted_wrt (<) (map cs_id (lt_sources t)) \<and>
     (\<forall>f \<in> set (lt_sources t). cs_list f = i)"

definition tidy :: "library \<Rightarrow> bool" where
  "tidy lib \<longleftrightarrow> distinct (map fst (lb_custom lib)) \<and> distinct (map fst (lb_lists lib)) \<and>
     (\<forall>c. distinct (map fst (verdicts lib c))) \<and> (\<forall>i. tidy_tuning i (listTuning lib i))"

lemma tidy_no_tuning [simp]: "tidy_tuning i no_tuning"
  by (simp add: tidy_tuning_def no_tuning_def)

subsection \<open>Readers see only the view\<close>

lemma strict_lists_eq: "sorted_wrt (<) xs \<Longrightarrow> sorted_wrt (<) ys \<Longrightarrow> set xs = set ys \<Longrightarrow> xs = (ys :: 'a::linorder list)"
  using strict_sorted_unique by blast

lemma strict_keys_eq:
  fixes k :: "'a \<Rightarrow> 'b::linorder"
  assumes "sorted_wrt (<) (map k xs)" "sorted_wrt (<) (map k ys)" "set xs = set ys"
  shows "xs = ys"
proof -
  have "map k xs = map k ys"
    using assms by (intro strict_lists_eq) (auto simp: image_def)
  moreover have "inj_on k (set xs \<union> set ys)"
    using assms(1,3) by (simp add: strict_sorted_iff distinct_map)
  ultimately show ?thesis by (metis map_inj_on)
qed

lemma listTuning_view:
  assumes "tidy a" "tidy b" "library_view a = library_view b"
  shows "listTuning a = listTuning b"
proof
  fix i
  have t: "tidy_tuning i (listTuning a i)" "tidy_tuning i (listTuning b i)"
    using assms(1,2) by (auto simp: tidy_def)
  have v: "so_disabled (library_view a) = so_disabled (library_view b)"
      "so_sources (library_view a) = so_sources (library_view b)"
      "so_includes (library_view a) = so_includes (library_view b)"
      "so_excludes (library_view a) = so_excludes (library_view b)"
    using assms(3) by simp_all
  have own: "f \<in> set (lt_sources (listTuning l j)) \<longleftrightarrow> f \<in> so_sources (library_view l) \<and> cs_list f = j" if "tidy l" for l f j
    using that by (auto simp: library_view_def tidy_def tidy_tuning_def)
  have d: "lt_disabled (listTuning a i) = lt_disabled (listTuning b i)"
    using v(1) t by (intro strict_lists_eq) (auto simp: tidy_tuning_def library_view_def set_eq_iff)
  have s: "lt_sources (listTuning a i) = lt_sources (listTuning b i)"
    using t by (intro strict_keys_eq [of cs_id]) (auto simp: tidy_tuning_def own [OF assms(1)] own [OF assms(2)] v(2))
  have n: "lt_includes (listTuning a i) = lt_includes (listTuning b i)"
    using v(3) t by (intro strict_lists_eq) (auto simp: tidy_tuning_def library_view_def set_eq_iff)
  have x: "lt_excludes (listTuning a i) = lt_excludes (listTuning b i)"
    using v(4) t by (intro strict_lists_eq) (auto simp: tidy_tuning_def library_view_def set_eq_iff)
  show "listTuning a i = listTuning b i" using d s n x by simp
qed

definition same_catalog :: "library \<Rightarrow> library \<Rightarrow> bool" where
  "same_catalog a b \<longleftrightarrow> lb_categories a = lb_categories b \<and> lb_definitions a = lb_definitions b \<and>
     lb_revision a = lb_revision b"

lemma definition_view:
  assumes "tidy a" "tidy b" "library_view a = library_view b" "same_catalog a b"
  shows "baseDefinition a = baseDefinition b" "list_definition a = list_definition b" "knownList a = knownList b"
proof -
  have "set (lb_removed a) = set (lb_removed b)" "map_of (lb_lists a) = map_of (lb_lists b)"
    using assms(3) by (simp_all add: library_view_def)
  then show b: "baseDefinition a = baseDefinition b"
    using assms(4) by (auto simp: baseDefinition_def removedFromLibrary_def same_catalog_def split: option.splits intro!: ext)
  moreover have "tunedDefinition a = tunedDefinition b"
    using listTuning_view [OF assms(1,2,3)] by (simp add: fun_eq_iff tunedDefinition_def)
  ultimately show "list_definition a = list_definition b" "knownList a = knownList b"
    by (simp_all add: list_definition_def [abs_def] knownList_def [abs_def])
qed

lemma added_members:
  "distinct (map fst vs) \<Longrightarrow> l \<in> set (map fst (filter (\<lambda>(l, s). s = MembershipAdded) vs)) \<longleftrightarrow> map_of vs l = Some MembershipAdded"
  by (force simp: map_of_eq_Some_iff)

lemma mergedCategory_members:
  assumes "mergedCategory lib c = Some d" "distinct (map fst (verdicts lib c))"
  shows "set (cd_lists d) = {l. knownList lib l \<and>
     (map_of (verdicts lib c) l = Some MembershipAdded \<or>
      (l \<in> set (shipped_lists lib c) \<and> map_of (verdicts lib c) l \<noteq> Some MembershipRemoved))}"
  using assms(1) added_members [OF assms(2)]
  by (auto simp: mergedCategory_def Let_def StableStrings_sort_unique split: if_splits)

lemma mergedCategory_view:
  assumes "tidy a" "tidy b" "library_view a = library_view b" "same_catalog a b"
  shows "mergedCategory a c = mergedCategory b c"
proof -
  have v: "set (lb_removed a) = set (lb_removed b)" "map_of (lb_custom a) = map_of (lb_custom b)"
      "map_of (verdicts a c) = map_of (verdicts b c)"
    using assms(3) by (simp_all add: library_view_def fun_eq_iff)
  have d: "distinct (map fst (verdicts a c))" "distinct (map fst (verdicts b c))" using assms(1,2) by (simp_all add: tidy_def)
  have k: "knownList a = knownList b" by (rule definition_view(3) [OF assms])
  have s: "shipped_lists a c = shipped_lists b c" "lb_categories a = lb_categories b"
    using assms(4) by (simp_all add: shipped_lists_def same_catalog_def)
  have m: "set (map fst (filter (\<lambda>(l, s). s = MembershipAdded) (verdicts a c))) =
      set (map fst (filter (\<lambda>(l, s). s = MembershipAdded) (verdicts b c)))"
    using added_members [OF d(1)] added_members [OF d(2)] v(3) by (simp only: set_eq_iff) blast
  let ?m = "\<lambda>l. filter (knownList l) (filter (\<lambda>x. map_of (verdicts l c) x \<noteq> Some MembershipRemoved) (shipped_lists l c) @
      map fst (filter (\<lambda>(l, s). s = MembershipAdded) (verdicts l c)))"
  have "StableStrings (?m a) = StableStrings (?m b)"
    unfolding StableStrings_sort_unique by (rule sort_unique_eqI) (use m v(3) k s(1) in \<open>simp only: set_filter set_append\<close>)
  then show ?thesis using v s by (simp add: mergedCategory_def removedFromLibrary_def Let_def)
qed

lemma mergedCategories_view:
  assumes "tidy a" "tidy b" "library_view a = library_view b" "same_catalog a b"
  shows "mergedCategories a = mergedCategories b"
proof -
  have "map_of (lb_custom a) = map_of (lb_custom b)" using assms(3) by (simp add: library_view_def)
  then have "fst ` set (lb_custom a) = fst ` set (lb_custom b)" by (metis dom_map_of_conv_image_fst)
  then have "sort_unique (map fst (lb_categories a) @ map fst (lb_custom a)) =
      sort_unique (map fst (lb_categories b) @ map fst (lb_custom b))"
    using assms(4) by (intro sort_unique_eqI) (simp add: same_catalog_def)
  then show ?thesis by (simp add: mergedCategories_def mergedCategory_view [OF assms])
qed

end
