(* ===== verification/LibraryTypes.thy ===== *)
theory LibraryTypes
  imports LibrarySpec
begin

text \<open>
  The type of the registries: every row the service holds is one it would accept again when it reads the
  store at start, under its own identity, sorted and without repetitions. Every write keeps it and is the
  abstract effect on what the registries represent.
\<close>

section \<open>Names keep their normal form\<close>

lemma chunks_drop: "chunks (concat (drop k (chunks s))) = drop k (chunks s)"
proof (induction k arbitrary: s)
  case (Suc k)
  show ?case
  proof (cases "s = []")
    case False
    then have "chunks s = take (max 1 (rune_width s)) s # chunks (drop (max 1 (rune_width s)) s)"
      by (subst chunks.simps) (simp add: Let_def)
    then show ?thesis using Suc.IH by simp
  qed simp
qed simp

lemma chunks_extend:
  assumes "chunks (c @ t) = c # chunks t" "t = u @ r" "c \<noteq> []"
  shows "chunks (c @ u) = c # chunks u"
proof (cases "rune_width (c @ t) = 0")
  case True
  then have c: "c = [hd c]" using assms(1,3) chunks_bad [of "c @ t"] by simp
  have "rune_width (c @ u) = 0"
  proof (rule ccontr)
    assume "rune_width (c @ u) \<noteq> 0"
    then have "rune_width ((c @ u) @ r) \<noteq> 0" using rune_width_more by metis
    with True assms(2) show False by simp
  qed
  then have "chunks (c @ u) = [hd (c @ u)] # chunks (tl (c @ u))" using assms(3) chunks_bad [of "c @ u"] by simp
  moreover have "tl (c @ u) = u" using c by (metis append_Cons append_Nil list.sel(3))
  ultimately show ?thesis using c assms(3) by (metis hd_append2)
next
  case False
  have l: "length c = rune_width (c @ t)"
    using assms(1) chunks_step [OF False] rune_width_le(2) [of "c @ t"] by (metis length_take list.inject min.absorb2)
  have "rune_width c = rune_width (c @ t)"
    using rune_width_take [OF refl False] l by simp
  moreover have "rune_width c \<noteq> 0" using calculation False by simp
  then have "rune_width (c @ u) = rune_width c" using rune_width_more by metis
  ultimately show ?thesis using l False chunks_step [of "c @ u"] by simp
qed

lemma chunks_take: "chunks (concat (take k (chunks s))) = take k (chunks s)"
proof (induction k arbitrary: s)
  case (Suc k)
  show ?case
  proof (cases "s = []")
    case False
    let ?n = "max 1 (rune_width s)"
    have st: "chunks s = take ?n s # chunks (drop ?n s)"
      using False by (subst chunks.simps) (simp add: Let_def)
    let ?c = "take ?n s" and ?t = "drop ?n s" and ?u = "concat (take k (chunks (drop ?n s)))"
    have "?t = ?u @ concat (drop k (chunks ?t))"
      by (metis append_take_drop_id concat_append concat_chunks)
    moreover have "chunks (?c @ ?t) = ?c # chunks ?t" using st by simp
    moreover have "?c \<noteq> []" using False by simp
    ultimately have "chunks (?c @ ?u) = ?c # chunks ?u" by (metis chunks_extend)
    then show ?thesis using st Suc.IH by simp
  qed simp
qed simp

lemma rev_dropWhile_rev: "\<exists>k. rev (dropWhile P (rev xs)) = take k xs"
  by (metis dropWhile_eq_drop rev_drop rev_rev_ident length_rev rev_take take_all_iff drop_rev)

definition trimmed :: "('a \<Rightarrow> bool) \<Rightarrow> 'a list \<Rightarrow> 'a list" where
  "trimmed P xs = rev (dropWhile P (rev (dropWhile P xs)))"

lemma dropWhile_fixed: "xs = [] \<or> \<not> P (hd xs) \<Longrightarrow> dropWhile P xs = xs"
  by (cases xs) auto

lemma trimmed_idem: "trimmed P (trimmed P xs) = trimmed P xs"
proof -
  let ?a = "dropWhile P xs" and ?b = "dropWhile P (rev (dropWhile P xs))"
  have b: "?b = [] \<or> \<not> P (hd ?b)" using hd_dropWhile by blast
  obtain k where k: "rev ?b = take k ?a" using rev_dropWhile_rev by blast
  have "rev ?b = [] \<or> \<not> P (hd (rev ?b))"
  proof (cases "rev ?b = []")
    case False
    then have "?a \<noteq> []" "hd (rev ?b) = hd ?a" using k by (auto simp: hd_take)
    then show ?thesis using hd_dropWhile by metis
  qed simp
  then have "dropWhile P (rev ?b) = rev ?b" by (rule dropWhile_fixed)
  then show ?thesis using b by (simp add: trimmed_def dropWhile_fixed)
qed

lemma chunks_trim: "chunks (trim_runes s) = trimmed (\<lambda>c. rune_space (chunk_rune c)) (chunks s)"
proof -
  let ?P = "\<lambda>c. rune_space (chunk_rune c)"
  let ?t = "concat (dropWhile ?P (chunks s))"
  have t: "chunks ?t = dropWhile ?P (chunks s)" by (simp add: dropWhile_eq_drop chunks_drop)
  obtain k where k: "trimmed ?P (chunks s) = take k (dropWhile ?P (chunks s))"
    using rev_dropWhile_rev unfolding trimmed_def by blast
  have "trim_runes s = concat (take k (chunks ?t))"
    using k t by (simp add: trim_runes_def trimmed_def)
  then show ?thesis using chunks_take [of k ?t] k by (simp only: t)
qed

lemma trim_runes_idem: "trim_runes (trim_runes s) = trim_runes s"
  using chunks_trim [of s] by (simp add: trim_runes_def trimmed_def [symmetric] trimmed_idem Let_def)

lemma validName_fixed: "validName n m = Some v \<Longrightarrow> validName v m = Some v"
  by (auto simp: validName_def Let_def trim_runes_idem split: if_splits)

lemma normalize_domains_ok: "normalize_domains vs = Some ds \<Longrightarrow> \<forall>d \<in> set ds. normalize_domain d = Ok d"
  by (induction vs arbitrary: ds) (auto split: sum.splits dest: normalize_domain_fixed)

lemma normalize_domains_length: "normalize_domains vs = Some ds \<Longrightarrow> length ds = length vs"
  by (induction vs arbitrary: ds) (auto split: sum.splits)

lemma normalize_domains_id: "\<forall>d \<in> set ds. normalize_domain d = Ok d \<Longrightarrow> normalize_domains ds = Some ds"
  by (induction ds) auto

lemma length_sort_unique: "length (sort_unique xs) \<le> length xs"
  by (metis card_length distinct_card distinct_sort_unique set_sort_unique)

lemma validCustomListInput_fixed:
  assumes "validCustomListInput title domains = Ok (t, ds)"
  shows "validCustomListInput t ds = Ok (t, ds)"
proof -
  obtain es where e: "validObjectName title = Some t" "domains \<noteq> []" "length domains \<le> maxDomainsPerList"
      "normalize_domains domains = Some es" "ds = StableStrings es"
    using assms by (auto simp: validCustomListInput_def split: option.splits if_splits)
  have t: "validObjectName t = Some t" using e(1) validName_fixed by (simp add: validObjectName_def)
  have n: "es \<noteq> []" "length es = length domains" using normalize_domains_length [OF e(4)] e(2) by auto
  then have l: "ds \<noteq> []" "length ds \<le> maxDomainsPerList"
    using length_sort_unique [of es] e(3,5) by (auto simp: StableStrings_sort_unique)
  have "normalize_domains ds = Some ds"
    using normalize_domains_ok [OF e(4)] e(5) by (intro normalize_domains_id) (simp add: StableStrings_sort_unique)
  moreover have "StableStrings ds = ds" using e(5) by (simp add: StableStrings_sort_unique sort_unique_idem)
  ultimately show ?thesis using t l by (simp add: validCustomListInput_def)
qed

section \<open>Generated identities\<close>

lemma hex_char_facts:
  "n < 16 \<Longrightarrow> slug_char (dg n) \<and> dg n \<noteq> CHR ''-''"
  by (drule less_16_cases) (auto simp: dg_def digit_chars_def slug_char_def is_lower_def is_dec_def)

lemma hex_encode_chars: "\<forall>b \<in> set bs. b < 256 \<Longrightarrow> c \<in> set (hex_encode bs) \<Longrightarrow> slug_char c \<and> c \<noteq> CHR ''-''"
proof -
  assume b: "\<forall>b \<in> set bs. b < 256" and "c \<in> set (hex_encode bs)"
  then obtain x where x: "x \<in> set bs" "c = dg (x div 16) \<or> c = dg (x mod 16)" by (auto simp: hex_encode_def)
  with b have "x div 16 < 16" "x mod 16 < 16" by (auto simp: less_mult_imp_div_less)
  with x(2) hex_char_facts show ?thesis by metis
qed

lemma length_hex_encode: "length (hex_encode bs) = 2 * length bs"
  by (induction bs) (auto simp: hex_encode_def)

lemma generated_slug:
  assumes "length bs = 8" "\<forall>b \<in> set bs. b < 256" "p = ''custom-'' \<or> p = ''feed-''"
  shows "is_ok (validate_slug (p @ hex_encode bs))"
proof -
  let ?h = "hex_encode bs"
  have l: "length ?h = 16" using assms(1) by (simp add: length_hex_encode)
  then have ne: "?h \<noteq> []" by auto
  then have "last ?h \<in> set ?h" by simp
  then have "last (p @ ?h) \<noteq> CHR ''-''" using ne hex_encode_chars [OF assms(2)] by simp
  moreover have "\<forall>c \<in> set p. slug_char c" using assms(3) by (auto simp: slug_char_def is_lower_def)
  then have "\<forall>c \<in> set (p @ ?h). slug_char c" using hex_encode_chars [OF assms(2)] by auto
  then have "\<forall>c \<in> set (tl (p @ ?h)). slug_char c" by (metis list.set_sel(2) tl_Nil)
  ultimately show ?thesis
    using assms(3) l by (auto simp: validate_slug_def is_lower_def)
qed

lemma has_prefix_append [simp]: "has_prefix (p @ s) p"
  by (simp add: has_prefix_def)

section \<open>The type of the registries\<close>

definition catalog_ok :: "library \<Rightarrow> bool" where
  "catalog_ok lib \<longleftrightarrow>
     (\<forall>i d. map_of (lb_definitions lib) i = Some d \<longrightarrow> is_ok (validate_slug i) \<and> \<not> has_prefix i ''custom-'' \<and>
        ld_id d = i \<and> (\<forall>s \<in> set (ld_sources d). \<not> has_prefix (src_id s) ''feed-'')) \<and>
     (\<forall>c d. map_of (lb_categories lib) c = Some d \<longrightarrow> is_ok (validate_slug c) \<and> \<not> has_prefix c ''custom-'' \<and>
        (\<forall>l \<in> set (cat_lists d). map_of (lb_definitions lib) l \<noteq> None))"

definition customs_ok :: "(string \<times> custom_category) list \<Rightarrow> bool" where
  "customs_ok m \<longleftrightarrow> distinct (map fst m) \<and> length m \<le> maxCustomCategories \<and>
     (\<forall>(i, c) \<in> set m. cc_id c = i \<and> normalizedCustomCategory c = Ok c)"

definition lists_ok :: "(string \<times> custom_list) list \<Rightarrow> bool" where
  "lists_ok m \<longleftrightarrow> distinct (map fst m) \<and> (\<forall>(i, l) \<in> set m. cl_id l = i \<and> normalizedCustomList l = Ok l)"

definition member_ok :: "string \<Rightarrow> string \<times> MembershipState \<Rightarrow> bool" where
  "member_ok c ls \<longleftrightarrow> is_ok (validate_slug c) \<and> is_ok (validate_slug (fst ls)) \<and>
     (snd ls = MembershipAdded \<or> (snd ls = MembershipRemoved \<and> \<not> has_prefix c ''custom-''))"

definition members_ok :: "(string \<times> (string \<times> MembershipState) list) list \<Rightarrow> bool" where
  "members_ok m \<longleftrightarrow> distinct (map fst m) \<and>
     (\<forall>(c, vs) \<in> set m. distinct (map fst vs) \<and> (\<forall>e \<in> set vs. member_ok c e))"

definition removed_ok :: "(RemovalKind \<times> string) set \<Rightarrow> bool" where
  "removed_ok R \<longleftrightarrow> (\<forall>(k, i) \<in> R. k \<in> {RemovalCategory, RemovalList} \<and> is_ok (validate_slug i) \<and>
     \<not> has_prefix i ''custom-'')"

definition tuning_ok :: "string \<Rightarrow> list_tuning \<Rightarrow> bool" where
  "tuning_ok i t \<longleftrightarrow> normalizedListTuning i t = Ok t \<and> distinct (map cs_id (lt_sources t)) \<and>
     (\<forall>f \<in> set (lt_sources t). cs_list f = i \<and> has_prefix (cs_id f) ''feed-'') \<and>
     (\<forall>s \<in> set (lt_disabled t). has_prefix s ''feed-'' \<longrightarrow> s \<in> cs_id ` set (lt_sources t))"

definition tunings_ok :: "(string \<times> list_tuning) list \<Rightarrow> bool" where
  "tunings_ok m \<longleftrightarrow> distinct (map fst m) \<and> (\<forall>(i, t) \<in> set m. tuning_ok i t)"

definition well_typed :: "library \<Rightarrow> bool" where
  "well_typed lib \<longleftrightarrow> catalog_ok lib \<and> customs_ok (lb_custom lib) \<and> lists_ok (lb_lists lib) \<and>
     members_ok (lb_membership lib) \<and> removed_ok (set (lb_removed lib)) \<and> tunings_ok (lb_tuning lib)"

lemma bump_simps [simp]:
  "lb_categories (bump lib) = lb_categories lib" "lb_definitions (bump lib) = lb_definitions lib"
  "lb_revision (bump lib) = lb_revision lib" "lb_custom (bump lib) = lb_custom lib"
  "lb_membership (bump lib) = lb_membership lib" "lb_removed (bump lib) = lb_removed lib"
  "lb_lists (bump lib) = lb_lists lib" "lb_tuning (bump lib) = lb_tuning lib"
  by (simp_all add: bump_def)

lemma verdicts_bump [simp]: "verdicts (bump lib) = verdicts lib" "listTuning (bump lib) = listTuning lib"
  by (simp_all add: fun_eq_iff verdicts_def listTuning_def)

lemma view_bump [simp]: "library_view (bump lib) = library_view lib"
  by (simp add: library_view_def)

lemma catalog_ok_cong: "same_catalog a b \<Longrightarrow> catalog_ok a = catalog_ok b"
  by (simp add: catalog_ok_def same_catalog_def)

lemma go_set_all: "\<forall>e \<in> set m. P e \<Longrightarrow> P (k, v) \<Longrightarrow> \<forall>e \<in> set (go_set k v m). P e"
  unfolding go_set_def by (induction k "\<lambda>_ :: 'b option. v" m rule: upsert.induct) auto

lemma go_delete_all: "\<forall>e \<in> set m. P e \<Longrightarrow> \<forall>e \<in> set (go_delete k m). P e"
  by (auto simp: go_delete_def)

lemma length_go_set: "length (go_set k v m) = (if k \<in> fst ` set m then length m else Suc (length m))"
  unfolding go_set_def by (induction k "\<lambda>_ :: 'b option. v" m rule: upsert.induct) auto

lemma length_go_delete: "length (go_delete k m) \<le> length m"
  by (simp add: go_delete_def)

lemma customs_okD:
  assumes "customs_ok m" "map_of m i = Some c"
  shows "cc_id c = i" "normalizedCustomCategory c = Ok c" "has_prefix i ''custom-''" "is_ok (validate_slug i)"
proof -
  show i: "cc_id c = i" "normalizedCustomCategory c = Ok c"
    using assms map_of_SomeD [OF assms(2)] by (auto simp: customs_ok_def)
  then show "has_prefix i ''custom-''" "is_ok (validate_slug i)"
    by (auto simp: normalizedCustomCategory_def CustomCategoryIDPrefix_def split: if_splits)
qed

lemma lists_okD:
  assumes "lists_ok m" "map_of m i = Some l"
  shows "cl_id l = i" "normalizedCustomList l = Ok l" "has_prefix i ''custom-''" "is_ok (validate_slug i)"
proof -
  show i: "cl_id l = i" "normalizedCustomList l = Ok l"
    using assms map_of_SomeD [OF assms(2)] by (auto simp: lists_ok_def)
  then show "has_prefix i ''custom-''" "is_ok (validate_slug i)"
    by (auto simp: normalizedCustomList_def customListIDPrefix_def split: if_splits)
qed

lemma verdicts_ok: "members_ok (lb_membership lib) \<Longrightarrow> distinct (map fst (verdicts lib c)) \<and> (\<forall>e \<in> set (verdicts lib c). member_ok c e)"
  by (auto simp: verdicts_def members_ok_def split: option.splits dest!: map_of_SomeD)

lemma tuning_okD:
  assumes "tuning_ok i t"
  shows "tidy_tuning i t" "is_ok (validate_slug i)"
proof -
  have n: "StableStrings (lt_disabled t) = lt_disabled t" "StableStrings (lt_includes t) = lt_includes t"
      "StableStrings (lt_excludes t) = lt_excludes t" "sort_key cs_id (lt_sources t) = lt_sources t"
    using assms by (cases t; auto simp: tuning_ok_def normalizedListTuning_def split: if_splits)+
  have "sorted (map cs_id (lt_sources t))" using n(4) by (metis sorted_sort_key)
  then show "tidy_tuning i t"
    using n(1-3) assms sorted_sort_unique unfolding tidy_tuning_def StableStrings_sort_unique tuning_ok_def
    by (metis strict_sorted_iff)
  show "is_ok (validate_slug i)" using assms by (auto simp: tuning_ok_def normalizedListTuning_def split: if_splits)
qed

lemma listTuning_ok: "tunings_ok (lb_tuning lib) \<Longrightarrow> listTuning lib i = no_tuning \<or> tuning_ok i (listTuning lib i)"
  by (auto simp: listTuning_def tunings_ok_def split: option.splits dest!: map_of_SomeD)

lemma well_typed_tidy: "well_typed lib \<Longrightarrow> tidy lib"
proof -
  assume w: "well_typed lib"
  then have "tidy_tuning i (listTuning lib i)" for i
    using listTuning_ok [of lib i] tuning_okD(1) tidy_no_tuning unfolding well_typed_def by metis
  moreover have "distinct (map fst (verdicts lib c))" for c using w verdicts_ok by (simp add: well_typed_def)
  ultimately show ?thesis using w by (simp add: tidy_def well_typed_def customs_ok_def lists_ok_def)
qed

lemma shipped_not_custom:
  assumes "well_typed lib" "map_of (lb_custom lib) c \<noteq> None"
  shows "map_of (lb_categories lib) c = None"
proof (rule ccontr)
  assume "map_of (lb_categories lib) c \<noteq> None"
  then obtain d where "map_of (lb_categories lib) c = Some d" by blast
  then have "\<not> has_prefix c ''custom-''" using assms(1) by (simp add: well_typed_def catalog_ok_def)
  moreover obtain own where own: "map_of (lb_custom lib) c = Some own" using assms(2) by blast
  have "customs_ok (lb_custom lib)" using assms(1) by (simp add: well_typed_def)
  then have "has_prefix c ''custom-''" using own by (rule customs_okD)
  ultimately show False by blast
qed

end
