(* ===== verification/LibraryEffects.thy ===== *)
theory LibraryEffects
  imports LibraryTypes
begin

text \<open>
  What each write of the service does to its registries: the abstract effect on the view, and the type kept.
\<close>

section \<open>Writes to the registries are the abstract effects\<close>

lemma verdicts_map: "map_of (verdicts lib c) =
    (case map_of (lb_membership lib) c of None \<Rightarrow> Map.empty | Some v \<Rightarrow> map_of v)"
  by (simp add: verdicts_def split: option.splits)

lemma tuning_fields [simp]:
  "listTuning (lib\<lparr>lb_custom := a\<rparr>) = listTuning lib" "listTuning (lib\<lparr>lb_membership := b\<rparr>) = listTuning lib"
  "listTuning (lib\<lparr>lb_removed := r\<rparr>) = listTuning lib" "listTuning (lib\<lparr>lb_lists := d\<rparr>) = listTuning lib"
  "verdicts (lib\<lparr>lb_custom := a\<rparr>) = verdicts lib" "verdicts (lib\<lparr>lb_tuning := t\<rparr>) = verdicts lib"
  "verdicts (lib\<lparr>lb_removed := r\<rparr>) = verdicts lib" "verdicts (lib\<lparr>lb_lists := d\<rparr>) = verdicts lib"
  by (simp_all add: fun_eq_iff listTuning_def verdicts_def)

lemma listTuning_store [simp]: "listTuning (storeTuningLocked i t lib) = (listTuning lib)(i := t)"
proof -
  have "t = no_tuning" if "lt_disabled t = []" "lt_sources t = []" "lt_includes t = []" "lt_excludes t = []"
    using that by (cases t) (simp add: no_tuning_def)
  then show ?thesis by (auto simp: fun_eq_iff listTuning_def storeTuningLocked_def)
qed

lemma verdicts_store [simp]: "verdicts (storeTuningLocked i t lib) = verdicts lib"
  by (simp add: fun_eq_iff verdicts_def storeTuningLocked_def)

lemma store_simps [simp]:
  "lb_custom (storeTuningLocked i t lib) = lb_custom lib" "lb_lists (storeTuningLocked i t lib) = lb_lists lib"
  "lb_removed (storeTuningLocked i t lib) = lb_removed lib" "lb_membership (storeTuningLocked i t lib) = lb_membership lib"
  "lb_categories (storeTuningLocked i t lib) = lb_categories lib" "lb_definitions (storeTuningLocked i t lib) = lb_definitions lib"
  "lb_revision (storeTuningLocked i t lib) = lb_revision lib"
  by (simp_all add: storeTuningLocked_def)

lemma view_add_category:
  "library_view (lib\<lparr>lb_custom := go_set (cc_id c) c (lb_custom lib),
      lb_membership := go_set (cc_id c) (membershipIndex ms) (lb_membership lib)\<rparr>) =
   apply_effect (AddCategory c ms) (library_view lib)"
  by (simp add: library_view_def verdicts_map stated_def fun_eq_iff)

lemma view_edit_category:
  assumes "map_of (lb_custom lib) (cw_id cw) \<noteq> None \<longrightarrow> cw_title cw = t" "cw_updated cw = now"
    "cw_replace cw \<longleftrightarrow> rows \<noteq> None" "rows = Some rs \<longrightarrow> cw_memberships cw = rs" "rows \<noteq> None \<longrightarrow> rs = the rows"
  shows "library_view (store_category (cw_id cw) t rows now lib) = apply_effect (EditCategory cw) (library_view lib)"
  using assms by (cases rows; cases "map_of (lb_custom lib) (cw_id cw)")
    (auto simp: store_category_def library_view_def verdicts_map stated_def retitled_def fun_eq_iff Let_def)

lemma forget_member_lookup:
  assumes "distinct (map fst m)"
  shows "(case map_of (forget_member i m) c of None \<Rightarrow> Map.empty | Some v \<Rightarrow> map_of v) =
    (case map_of m c of None \<Rightarrow> Map.empty | Some v \<Rightarrow> map_of v)(i := None)"
  using assms
proof (induction m)
  case (Cons e m)
  obtain k vs where e: "e = (k, vs)" by fastforce
  have k: "k \<notin> fst ` set m" "distinct (map fst m)" using Cons.prems e by auto
  have n: "map_of (forget_member i m) k = None"
    using k(1) by (force simp: map_of_eq_None_iff forget_member_def)
  have g: "forget_member i (e # m) = (if go_delete i vs = [] then [] else [(k, go_delete i vs)]) @ forget_member i m"
    by (simp add: e forget_member_def)
  show ?case
  proof (cases "c = k")
    case True
    have "go_delete i vs = [] \<Longrightarrow> (map_of vs)(i := None) = Map.empty"
      using map_of_go_delete [of i vs] by (metis map_of.simps(1))
    then show ?thesis using True n g e by (cases "go_delete i vs = []") (simp_all add: fun_upd_def)
  next
    case False
    then show ?thesis using Cons.IH [OF k(2)] g e by auto
  qed
qed (simp add: forget_member_def)

lemma verdicts_forgetList:
  assumes "distinct (map fst (lb_membership lib))"
  shows "map_of (verdicts (forgetList i lib) c) = (map_of (verdicts lib c))(i := None)"
  using forget_member_lookup [OF assms] unfolding verdicts_map by (simp add: forgetList_def)

lemma listTuning_forget [simp]: "listTuning (forgetList i lib) = (listTuning lib)(i := no_tuning)"
  by (simp add: fun_eq_iff listTuning_def forgetList_def)

lemma view_forgetList:
  assumes "distinct (map fst (lb_membership lib))" "tunings_ok (lb_tuning lib)"
  shows "library_view (forgetList i lib) = drop_list i (library_view lib)"
proof -
  have own: "f \<in> set (lt_sources (listTuning lib j)) \<Longrightarrow> cs_list f = j" for f j
    using listTuning_ok [OF assms(2), of j] by (auto simp: tuning_ok_def no_tuning_def)
  have s: "{f. \<exists>j. f \<in> set (lt_sources (if j = i then no_tuning else listTuning lib j))} =
      {f. (\<exists>j. f \<in> set (lt_sources (listTuning lib j))) \<and> cs_list f \<noteq> i}"
    using own by (auto simp: no_tuning_def split: if_splits)
  have "set (lb_removed (forgetList i lib)) = (if has_prefix i CustomCategoryIDPrefix then set (lb_removed lib)
      else insert (RemovalList, i) (set (lb_removed lib)))" by (simp add: forgetList_def)
  moreover have "map_of (lb_lists (forgetList i lib)) = (map_of (lb_lists lib))(i := None)"
      "lb_custom (forgetList i lib) = lb_custom lib" by (simp_all add: forgetList_def)
  ultimately show ?thesis
    using s by (auto simp: library_view_def drop_list_def verdicts_forgetList [OF assms(1)] no_tuning_def split: if_splits)
qed

lemma view_forgetCategory:
  assumes "has_prefix c CustomCategoryIDPrefix \<longleftrightarrow> map_of (lb_custom lib) c \<noteq> None"
  shows "library_view (forgetCategory c lib) = drop_category c (library_view lib)"
proof -
  have v: "map_of (verdicts (forgetCategory c lib) k) = (if k = c then Map.empty else map_of (verdicts lib k))" for k
    by (simp add: verdicts_map forgetCategory_def Let_def)
  have t: "listTuning (forgetCategory c lib) = listTuning lib" by (simp add: forgetCategory_def Let_def)
  show ?thesis
    using assms v t by (auto simp: library_view_def drop_category_def fun_eq_iff forgetCategory_def Let_def)
qed
section \<open>Writes keep the type\<close>

lemma membershipIndex_ok:
  assumes "\<forall>r \<in> set rows. member_ok c (me_list r, me_state r)"
  shows "distinct (map fst (membershipIndex rows))" "\<forall>e \<in> set (membershipIndex rows). member_ok c e"
proof -
  have "distinct (map fst (foldl (\<lambda>m r. go_set (me_list r) (me_state r) m) [] rows)) \<and>
      (\<forall>e \<in> set (foldl (\<lambda>m r. go_set (me_list r) (me_state r) m) [] rows). member_ok c e)"
    using assms
  proof (induction rows rule: rev_induct)
    case (snoc r rs)
    then show ?case
      using go_set_all [of "foldl (\<lambda>m r. go_set (me_list r) (me_state r) m) [] rs" "member_ok c" "me_list r" "me_state r"]
      by simp
  qed simp
  then show "distinct (map fst (membershipIndex rows))" "\<forall>e \<in> set (membershipIndex rows). member_ok c e"
    by (simp_all add: membershipIndex_def)
qed

lemma members_ok_set:
  assumes "members_ok m" "\<forall>r \<in> set rows. member_ok c (me_list r, me_state r)"
  shows "members_ok (go_set c (membershipIndex rows) m)"
  using assms(1) membershipIndex_ok [OF assms(2)]
    go_set_all [of m "\<lambda>(c, vs). distinct (map fst vs) \<and> (\<forall>e \<in> set vs. member_ok c e)"]
  unfolding members_ok_def by simp

lemma members_ok_delete: "members_ok m \<Longrightarrow> members_ok (go_delete c m)"
  unfolding members_ok_def using go_delete_all [of m "\<lambda>(c, vs). distinct (map fst vs) \<and> (\<forall>e \<in> set vs. member_ok c e)"] by simp

lemma members_ok_forget: "members_ok m \<Longrightarrow> members_ok (forget_member i m)"
proof -
  assume m: "members_ok m"
  have "map fst (map (\<lambda>(c, vs). (c, go_delete i vs)) m) = map fst m" by (simp add: split_beta)
  moreover have "distinct (map fst m)" using m by (simp add: members_ok_def)
  ultimately have "distinct (map fst (forget_member i m))"
    unfolding forget_member_def by (metis distinct_map_filter)
  moreover have "\<forall>(c, vs) \<in> set (forget_member i m). distinct (map fst vs) \<and> (\<forall>e \<in> set vs. member_ok c e)"
    using m by (auto simp: members_ok_def forget_member_def go_delete_def distinct_map_filter split_beta)
  ultimately show ?thesis by (simp add: members_ok_def)
qed

lemma membershipRows_ok:
  assumes "is_ok (validate_slug c)" "\<forall>l \<in> set desired. is_ok (validate_slug l)"
    "\<forall>l \<in> set catalog. is_ok (validate_slug l)" "catalog \<noteq> [] \<longrightarrow> \<not> has_prefix c ''custom-''"
  shows "\<forall>r \<in> set (membershipRows c desired catalog now). member_ok c (me_list r, me_state r)"
  using assms by (auto simp: membershipRows_def member_ok_def)

lemma customs_ok_set:
  assumes "customs_ok m" "normalizedCustomCategory c = Ok c" "length m < maxCustomCategories \<or> map_of m (cc_id c) \<noteq> None"
  shows "customs_ok (go_set (cc_id c) c m)"
proof -
  have "length (go_set (cc_id c) c m) \<le> maxCustomCategories"
    using assms(1,3) by (auto simp: length_go_set customs_ok_def map_of_eq_None_iff split: if_splits)
  then show ?thesis
    using assms(1,2) go_set_all [of m "\<lambda>(i, c). cc_id c = i \<and> normalizedCustomCategory c = Ok c" "cc_id c" c]
    by (simp add: customs_ok_def)
qed

lemma customs_ok_delete: "customs_ok m \<Longrightarrow> customs_ok (go_delete c m)"
  using go_delete_all [of m "\<lambda>(i, c). cc_id c = i \<and> normalizedCustomCategory c = Ok c" c] length_go_delete [of c m]
  by (simp add: customs_ok_def)

lemma lists_ok_set: "lists_ok m \<Longrightarrow> normalizedCustomList l = Ok l \<Longrightarrow> lists_ok (go_set (cl_id l) l m)"
  using go_set_all [of m "\<lambda>(i, l). cl_id l = i \<and> normalizedCustomList l = Ok l" "cl_id l" l]
  by (simp add: lists_ok_def)

lemma lists_ok_delete: "lists_ok m \<Longrightarrow> lists_ok (go_delete i m)"
  using go_delete_all [of m "\<lambda>(i, l). cl_id l = i \<and> normalizedCustomList l = Ok l" i]
  by (simp add: lists_ok_def)

lemma tunings_ok_set: "tunings_ok m \<Longrightarrow> tuning_ok i t \<Longrightarrow> tunings_ok (go_set i t m)"
  using go_set_all [of m "\<lambda>(i, t). tuning_ok i t" i t] by (simp add: tunings_ok_def)

lemma tunings_ok_delete: "tunings_ok m \<Longrightarrow> tunings_ok (go_delete i m)"
  using go_delete_all [of m "\<lambda>(i, t). tuning_ok i t" i] by (simp add: tunings_ok_def)

lemma well_typed_store:
  assumes "well_typed lib" "tuning_ok i t"
  shows "well_typed (storeTuningLocked i t lib)"
proof -
  have "tunings_ok (lb_tuning (storeTuningLocked i t lib))"
    using assms tunings_ok_set tunings_ok_delete by (simp add: storeTuningLocked_def well_typed_def)
  moreover have "catalog_ok (storeTuningLocked i t lib) = catalog_ok lib"
    by (rule catalog_ok_cong) (simp add: same_catalog_def)
  ultimately show ?thesis using assms(1) by (simp add: well_typed_def)
qed

lemma well_typed_bump [simp]: "well_typed (bump lib) = well_typed lib"
proof -
  have "catalog_ok (bump lib) = catalog_ok lib" by (rule catalog_ok_cong) (simp add: same_catalog_def)
  then show ?thesis by (simp add: well_typed_def)
qed

lemma base_slug:
  assumes "well_typed lib" "baseDefinition lib i = Some d"
  shows "is_ok (validate_slug i)" "ld_id d = i" "\<forall>s \<in> set (ld_sources d). \<not> has_prefix (src_id s) ''feed-''"
    "has_prefix i ''custom-'' \<longleftrightarrow> map_of (lb_definitions lib) i = None"
    "has_prefix i ''custom-'' \<Longrightarrow> map_of (lb_lists lib) i \<noteq> None"
proof -
  have w: "catalog_ok lib" "lists_ok (lb_lists lib)" using assms(1) by (simp_all add: well_typed_def)
  have c: "map_of (lb_definitions lib) i = Some e \<Longrightarrow> is_ok (validate_slug i) \<and> \<not> has_prefix i ''custom-'' \<and>
      ld_id e = i \<and> (\<forall>s \<in> set (ld_sources e). \<not> has_prefix (src_id s) ''feed-'')" for e
    using w(1) by (simp add: catalog_ok_def)
  have "is_ok (validate_slug i) \<and> ld_id d = i \<and> (\<forall>s \<in> set (ld_sources d). \<not> has_prefix (src_id s) ''feed-'') \<and>
      (has_prefix i ''custom-'' \<longleftrightarrow> map_of (lb_definitions lib) i = None) \<and>
      (has_prefix i ''custom-'' \<longrightarrow> map_of (lb_lists lib) i \<noteq> None)"
  proof (cases "map_of (lb_definitions lib) i")
    case (Some e)
    then show ?thesis using c [OF Some] assms(2) by (simp add: baseDefinition_def split: if_splits)
  next
    case None
    then obtain l where l: "map_of (lb_lists lib) i = Some l" "d = customListDefinition l (lb_revision lib)"
      using assms(2) by (auto simp: baseDefinition_def split: if_splits)
    then show ?thesis using lists_okD [OF w(2) l(1)] None by (simp add: customListDefinition_def)
  qed
  then show "is_ok (validate_slug i)" "ld_id d = i" "\<forall>s \<in> set (ld_sources d). \<not> has_prefix (src_id s) ''feed-''"
    "has_prefix i ''custom-'' \<longleftrightarrow> map_of (lb_definitions lib) i = None"
    "has_prefix i ''custom-'' \<Longrightarrow> map_of (lb_lists lib) i \<noteq> None" by blast+
qed

lemma category_facts:
  assumes "well_typed lib" "mergedCategory lib c = Some d"
  shows "is_ok (validate_slug c)" "cd_custom d \<longleftrightarrow> map_of (lb_categories lib) c = None"
    "has_prefix c ''custom-'' \<longleftrightarrow> map_of (lb_categories lib) c = None"
    "has_prefix c ''custom-'' \<longleftrightarrow> map_of (lb_custom lib) c \<noteq> None"
    "\<forall>l \<in> set (shipped_lists lib c). is_ok (validate_slug l)" "shipped_lists lib c \<noteq> [] \<longrightarrow> \<not> has_prefix c ''custom-''"
    "\<forall>l \<in> set (cd_lists d). knownList lib l" "distinct (cd_lists d)" "cd_id d = c"
proof -
  have w: "catalog_ok lib" "customs_ok (lb_custom lib)" using assms(1) by (simp_all add: well_typed_def)
  have ship: "map_of (lb_categories lib) c = Some e \<Longrightarrow> is_ok (validate_slug c) \<and> \<not> has_prefix c ''custom-'' \<and>
      (\<forall>l \<in> set (cat_lists e). map_of (lb_definitions lib) l \<noteq> None)" for e
    using w(1) by (simp add: catalog_ok_def)
  have slug: "map_of (lb_definitions lib) l \<noteq> None \<Longrightarrow> is_ok (validate_slug l)" for l
    using w(1) by (auto simp: catalog_ok_def)
  have own: "map_of (lb_custom lib) c = Some e \<Longrightarrow> has_prefix c ''custom-'' \<and> is_ok (validate_slug c)" for e
    using customs_okD(3,4) [OF w(2)] by blast
  have m: "map_of (lb_categories lib) c \<noteq> None \<or> map_of (lb_custom lib) c \<noteq> None"
    using assms(2) by (auto simp: mergedCategory_def Let_def split: if_splits)
  show "is_ok (validate_slug c)" "has_prefix c ''custom-'' \<longleftrightarrow> map_of (lb_categories lib) c = None"
    "has_prefix c ''custom-'' \<longleftrightarrow> map_of (lb_custom lib) c \<noteq> None"
    using m ship own by (cases "map_of (lb_categories lib) c"; cases "map_of (lb_custom lib) c"; simp)+
  show "\<forall>l \<in> set (shipped_lists lib c). is_ok (validate_slug l)" "shipped_lists lib c \<noteq> [] \<longrightarrow> \<not> has_prefix c ''custom-''"
    using ship slug by (cases "map_of (lb_categories lib) c"; fastforce simp: shipped_lists_def)+
  show "cd_custom d \<longleftrightarrow> map_of (lb_categories lib) c = None" "\<forall>l \<in> set (cd_lists d). knownList lib l"
    "distinct (cd_lists d)" "cd_id d = c"
    using assms(2) by (auto simp: mergedCategory_def Let_def StableStrings_sort_unique split: if_splits)
qed

end
