(* ===== verification/LibrarySync.thy ===== *)
theory LibrarySync
  imports LibraryEffects
begin

text \<open>
  The service and its store stay in step. \<open>library_contract\<close> is what the service relies on of a store, in
  terms of the abstract library; inside it every request is shown to keep the registries typed and equal,
  as an abstract library, to what the store holds.
\<close>

section \<open>Tunings\<close>

definition canonical_value :: "string \<Rightarrow> bool" where
  "canonical_value v \<longleftrightarrow> (\<exists>k. normalize_rule_value v = Ok (v, k))"

lemma canonical_value_iff:
  "(case normalize_rule_value v of Inl _ \<Rightarrow> True | Inr (c, _) \<Rightarrow> c \<noteq> v) \<longleftrightarrow> \<not> canonical_value v"
  by (cases "normalize_rule_value v") (auto simp: canonical_value_def)

lemma tuning_ok_iff:
  "tuning_ok i t \<longleftrightarrow> is_ok (validate_slug i) \<and> tidy_tuning i t \<and>
     (\<forall>v \<in> set (lt_includes t) \<union> set (lt_excludes t). canonical_value v) \<and>
     set (lt_includes t) \<inter> set (lt_excludes t) = {} \<and> (\<forall>f \<in> set (lt_sources t). has_prefix (cs_id f) ''feed-'') \<and>
     (\<forall>s \<in> set (lt_disabled t). has_prefix s ''feed-'' \<longrightarrow> s \<in> cs_id ` set (lt_sources t))"
    (is "_ \<longleftrightarrow> ?r")
proof
  assume t: "tuning_ok i t"
  have "canonical_value v" if "v \<in> set (lt_includes t) \<union> set (lt_excludes t)" for v
    using t that unfolding tuning_ok_def normalizedListTuning_def canonical_value_iff by (auto split: if_splits)
  moreover have "set (lt_includes t) \<inter> set (lt_excludes t) = {}"
    using t by (auto simp: tuning_ok_def normalizedListTuning_def split: if_splits)
  moreover have "\<forall>f \<in> set (lt_sources t). has_prefix (cs_id f) ''feed-''"
      "\<forall>s \<in> set (lt_disabled t). has_prefix s ''feed-'' \<longrightarrow> s \<in> cs_id ` set (lt_sources t)"
    using t by (simp_all add: tuning_ok_def)
  ultimately show ?r using tuning_okD [OF t] by blast
next
  assume r: ?r
  then have s: "sort_unique (lt_disabled t) = lt_disabled t" "sort_unique (lt_includes t) = lt_includes t"
      "sort_unique (lt_excludes t) = lt_excludes t" "sort_key cs_id (lt_sources t) = lt_sources t" "distinct (map cs_id (lt_sources t))"
    by (auto simp: tidy_tuning_def sort_unique_strict strict_sorted_iff intro: sort_key_sorted_id)
  have "\<not> (\<exists>v \<in> set (lt_includes t @ lt_excludes t). \<not> canonical_value v)" using r by auto
  then have "normalizedListTuning i t = Ok t"
    using r s unfolding normalizedListTuning_def canonical_value_iff by (cases t) (auto simp: StableStrings_sort_unique)
  then show "tuning_ok i t" using r s by (simp add: tuning_ok_def tidy_tuning_def)
qed

lemma listTuning_typed: "well_typed lib \<Longrightarrow> is_ok (validate_slug i) \<Longrightarrow> tuning_ok i (listTuning lib i)"
  using listTuning_ok [of lib i] by (auto simp: well_typed_def tuning_ok_iff no_tuning_def tidy_tuning_def)

lemma filed_tuning:
  assumes "well_typed lib" "listTuning lib j \<noteq> no_tuning"
  shows "tuning_ok j (listTuning lib j)"
  using assms listTuning_ok [of lib j] by (simp add: well_typed_def)

lemma filed_source:
  assumes "well_typed lib" "f \<in> set (lt_sources (listTuning lib j))"
  shows "cs_list f = j"
proof -
  have "listTuning lib j \<noteq> no_tuning" using assms(2) by (auto simp: no_tuning_def)
  from filed_tuning [OF assms(1) this] assms(2) show ?thesis by (simp add: tuning_ok_def)
qed

lemma sort_strict: "distinct xs \<Longrightarrow> sorted_wrt (<) (sort (xs :: 'a::linorder list))"
  by (simp add: strict_sorted_iff)

lemma set_without [simp]: "set (withoutString xs v) = set xs - {v}"
  by (auto simp: withoutString_def)

lemma without_strict: "sorted_wrt (<) xs \<Longrightarrow> sorted_wrt (<) (withoutString xs v)"
  by (simp add: withoutString_def sorted_wrt_filter)

lemma fold_without: "sorted_wrt (<) xs \<Longrightarrow> sorted_wrt (<) (foldl withoutString xs vs) \<and> set (foldl withoutString xs vs) = set xs - set vs"
  by (induction vs arbitrary: xs) (auto simp: without_strict)

lemma normalize_values_ok:
  "normalize_values vs acc = Ok ns \<Longrightarrow> distinct acc \<Longrightarrow> \<forall>v \<in> set acc. canonical_value v \<Longrightarrow>
     distinct ns \<and> (\<forall>v \<in> set ns. canonical_value v)"
proof (induction vs arbitrary: acc)
  case (Cons v vs)
  show ?case
  proof (cases "normalize_rule_value v")
    case (Inl e)
    then show ?thesis using Cons.prems(1) by simp
  next
    case (Inr ck)
    obtain c k where c: "normalize_rule_value v = Ok (c, k)" using Inr by (cases ck) auto
    have cc: "canonical_value c" using normalize_rule_value_text [OF c] by (simp add: canonical_value_def)
    let ?acc = "if c \<in> set acc then acc else acc @ [c]"
    have "normalize_values vs ?acc = Ok ns" using Cons.prems(1) c by simp
    moreover have "distinct ?acc" "\<forall>v \<in> set ?acc. canonical_value v" using Cons.prems(2,3) cc by auto
    ultimately show ?thesis by (rule Cons.IH)
  qed
qed simp

lemma set_values_facts:
  fixes t :: list_tuning and vs :: "string list" and verdict :: DomainVerdict
  assumes "sorted_wrt (<) (lt_includes t)" "sorted_wrt (<) (lt_excludes t)" "distinct vs"
  defines "u \<equiv> set_values vs verdict t"
  shows "sorted_wrt (<) (lt_includes u)" "sorted_wrt (<) (lt_excludes u)"
    "set (lt_includes u) = set (lt_includes t) - set vs \<union> (if verdict = DomainVerdictInclude then set vs else {})"
    "set (lt_excludes u) = set (lt_excludes t) - set vs \<union> (if verdict = DomainVerdictExclude then set vs else {})"
    "lt_disabled u = lt_disabled t" "lt_sources u = lt_sources t"
proof -
  have i: "sorted_wrt (<) (foldl withoutString (lt_includes t) vs)" "set (foldl withoutString (lt_includes t) vs) = set (lt_includes t) - set vs"
    using fold_without [OF assms(1)] by blast+
  have e: "sorted_wrt (<) (foldl withoutString (lt_excludes t) vs)" "set (foldl withoutString (lt_excludes t) vs) = set (lt_excludes t) - set vs"
    using fold_without [OF assms(2)] by blast+
  have d: "sorted_wrt (<) (sort (xs @ vs))" if "sorted_wrt (<) xs" "set xs \<inter> set vs = {}" for xs
    using that assms(3) by (intro sort_strict) (simp add: strict_sorted_iff)
  show "sorted_wrt (<) (lt_includes u)" "sorted_wrt (<) (lt_excludes u)"
    using i e d [OF i(1)] d [OF e(1)] by (auto simp: u_def set_values_def Let_def)
  show "set (lt_includes u) = set (lt_includes t) - set vs \<union> (if verdict = DomainVerdictInclude then set vs else {})"
    "set (lt_excludes u) = set (lt_excludes t) - set vs \<union> (if verdict = DomainVerdictExclude then set vs else {})"
    "lt_disabled u = lt_disabled t" "lt_sources u = lt_sources t"
    using i(2) e(2) by (auto simp: u_def set_values_def Let_def)
qed

section \<open>Requests\<close>

datatype library_request =
    ReqCreateCategory string "string list"
  | ReqUpdateCategory string "string option" "string list option"
  | ReqRemoveCategory string CategoryListDisposition
  | ReqCreateList string "string list"
  | ReqUpdateList string string "string list"
  | ReqRemoveList string
  | ReqSourceEnabled string string bool
  | ReqAddSource string string string
  | ReqRemoveSource string string
  | ReqSetValues string "string list" DomainVerdict

definition outcome :: "((library_error, 'a) result \<times> library) \<times> 'w \<Rightarrow> (library_error option \<times> library) \<times> 'w" where
  "outcome x = (case x of ((r, lib), w) \<Rightarrow> ((case r of Inl e \<Rightarrow> Some e | Inr _ \<Rightarrow> None, lib), w))"

fun serve ::
  "(string \<Rightarrow> bool) option \<Rightarrow> 'w library_store \<Rightarrow> library_request \<Rightarrow> library \<Rightarrow> 'w
   \<Rightarrow> (library_error option \<times> library) \<times> 'w" where
  "serve feed st (ReqCreateCategory title ls) lib w = outcome (CreateCategory st title ls lib w)"
| "serve feed st (ReqUpdateCategory c title ls) lib w = outcome (UpdateCategory st c title ls lib w)"
| "serve feed st (ReqRemoveCategory c d) lib w = RemoveCategory st c d lib w"
| "serve feed st (ReqCreateList title ds) lib w = outcome (CreateCustomList st title ds lib w)"
| "serve feed st (ReqUpdateList i title ds) lib w = outcome (UpdateCustomList st i title ds lib w)"
| "serve feed st (ReqRemoveList i) lib w = RemoveList st i lib w"
| "serve feed st (ReqSourceEnabled i s b) lib w = SetListSourceEnabled st i s b lib w"
| "serve feed st (ReqAddSource i url fmt) lib w = outcome (AddListSource feed st i url fmt lib w)"
| "serve feed st (ReqRemoveSource i s) lib w = RemoveListSource st i s lib w"
| "serve feed st (ReqSetValues i vs v) lib w = SetListValues st i vs v lib w"

section \<open>The contract with the store\<close>

locale library_contract =
  fixes st :: "'w library_store" and holds :: "'w \<Rightarrow> stored" and sound :: "'w \<Rightarrow> bool"
  assumes now_keeps: "st_now st w = (t, w') \<Longrightarrow> sound w \<Longrightarrow> sound w' \<and> holds w' = holds w"
    and random_keeps: "st_random st n w = (r, w') \<Longrightarrow> sound w \<Longrightarrow> sound w' \<and> holds w' = holds w"
    and random_bytes: "st_random st n w = (Ok bs, w') \<Longrightarrow> length bs = n \<and> (\<forall>b \<in> set bs. b < 256)"
    and references_keep: "st_references st cs ls w = (rr, w') \<Longrightarrow> sound w \<Longrightarrow> sound w' \<and> holds w' = holds w"
    and unique_feeds: "sound w \<Longrightarrow> f \<in> so_sources (holds w) \<Longrightarrow> g \<in> so_sources (holds w) \<Longrightarrow> cs_id f = cs_id g \<Longrightarrow> f = g"
    and step_done: "store_step st eff w = (None, w') \<Longrightarrow> sound w \<Longrightarrow>
      sound w' \<and> effect_fits eff (holds w) \<and> holds w' = apply_effect eff (holds w)"
    and step_failed: "store_step st eff w = (Some e, w') \<Longrightarrow> sound w \<Longrightarrow>
      sound w' \<and> ((\<forall>s. eff \<noteq> RemoveSource s) \<longrightarrow> holds w' = holds w)"
begin

definition in_sync :: "library \<Rightarrow> 'w \<Rightarrow> bool" where
  "in_sync lib w \<longleftrightarrow> well_typed lib \<and> sound w \<and> library_view lib = holds w"

definition kept :: "library \<Rightarrow> library \<Rightarrow> 'w \<Rightarrow> bool" where
  "kept lib lib' w \<longleftrightarrow> in_sync lib' w \<and> same_catalog lib lib'"

lemma kept_refl: "in_sync lib w \<Longrightarrow> kept lib lib w"
  by (simp add: kept_def same_catalog_def)

lemma sync_now: "st_now st w = (t, w') \<Longrightarrow> in_sync lib w \<Longrightarrow> in_sync lib w'"
  using now_keeps by (simp add: in_sync_def)

lemma sync_hex:
  assumes "randomHex st n w = (r, w')" "in_sync lib w"
  shows "in_sync lib w'" "r = Ok h \<Longrightarrow> \<exists>bs. h = hex_encode bs \<and> length bs = n \<and> (\<forall>b \<in> set bs. b < 256)"
  using assms random_keeps random_bytes
  by (auto simp: randomHex_def in_sync_def split: prod.splits sum.splits)

lemma sync_refs: "profilesNaming st cs ls w = (r, w') \<Longrightarrow> in_sync lib w \<Longrightarrow> in_sync lib w'"
  using references_keep by (auto simp: profilesNaming_def in_sync_def split: if_splits)

lemma sync_failed: "store_step st eff w = (Some e, w') \<Longrightarrow> in_sync lib w \<Longrightarrow> \<forall>s. eff \<noteq> RemoveSource s \<Longrightarrow> in_sync lib w'"
  using step_failed by (simp add: in_sync_def)

lemma sync_fits: "store_step st eff w = (None, w') \<Longrightarrow> in_sync lib w \<Longrightarrow> effect_fits eff (library_view lib)"
  using step_done by (simp add: in_sync_def)

lemma sync_done:
  assumes "store_step st eff w = (None, w')" "in_sync lib w"
    "library_view lib' = apply_effect eff (library_view lib)" "well_typed lib'" "same_catalog lib lib'"
  shows "kept lib lib' w'"
  using assms step_done by (simp add: in_sync_def kept_def)

subsection \<open>Categories\<close>

lemma create_category_kept:
  assumes "in_sync lib w" "validCategoryTitle t = Some t" "now \<noteq> 0" "\<forall>l \<in> set members. is_ok (validate_slug l)"
    "length (lb_custom lib) < maxCustomCategories" "create_category n st t members now lib w = ((r, lib'), w')"
  shows "kept lib lib' w'"
  using assms(1,6)
proof (induction n arbitrary: w)
  case 0
  then show ?case by (simp add: kept_refl)
next
  case (Suc n)
  obtain hr w1 where h: "randomHex st 8 w = (hr, w1)" by (cases "randomHex st 8 w")
  note s1 = sync_hex [OF h Suc.prems(1)]
  show ?case
  proof (cases hr)
    case (Inl e)
    then show ?thesis using Suc.prems(2) h s1(1) by (simp add: kept_refl)
  next
    case (Inr hx)
    then obtain bs where bs: "hx = hex_encode bs" "length bs = 8" "\<forall>b \<in> set bs. b < 256" using s1(2) by blast
    define c where "c = \<lparr>cc_id = CustomCategoryIDPrefix @ hx, cc_title = t, cc_created = now, cc_updated = now\<rparr>"
    define rows where "rows = membershipRows (cc_id c) members [] now"
    have slug: "is_ok (validate_slug (cc_id c))"
      using generated_slug [OF bs(2,3), of "''custom-''"] by (simp add: c_def CustomCategoryIDPrefix_def bs(1))
    then have nc: "normalizedCustomCategory c = Ok c"
      using assms(2,3) by (simp add: normalizedCustomCategory_def c_def)
    show ?thesis
    proof (cases "map_of (lb_categories lib) (cc_id c) \<noteq> None")
      case True
      then have "create_category n st t members now lib w1 = ((r, lib'), w')"
        using Suc.prems(2) h Inr by (simp add: c_def Let_def)
      then show ?thesis using Suc.IH s1(1) by blast
    next
      case False
      obtain cr w2 where cr: "st_create_category st c rows w1 = (cr, w2)" by (cases "st_create_category st c rows w1")
      have st: "store_step st (AddCategory c rows) w1 = (cr, w2)" using cr by simp
      show ?thesis
      proof (cases cr)
        case (Some e)
        then have s2: "in_sync lib w2" using sync_failed st s1(1) by blast
        have "(if e = ErrIdentityCollision then create_category n st t members now lib w2 else ((Err e, lib), w2)) = ((r, lib'), w')"
          using Suc.prems(2) h Inr False cr Some by (simp add: c_def rows_def Let_def)
        then show ?thesis using Suc.IH s2 by (auto simp: kept_refl split: if_splits)
      next
        case None
        define lib1 where "lib1 = lib\<lparr>lb_custom := go_set (cc_id c) c (lb_custom lib),
            lb_membership := go_set (cc_id c) (membershipIndex rows) (lb_membership lib)\<rparr>"
        have l: "lib' = bump lib1" "w' = w2"
          using Suc.prems(2) h Inr False cr None by (auto simp: c_def rows_def lib1_def Let_def)
        have wt: "well_typed lib" using s1(1) by (simp add: in_sync_def)
        have "\<forall>r \<in> set rows. member_ok (cc_id c) (me_list r, me_state r)"
          unfolding rows_def using slug assms(4) by (intro membershipRows_ok) auto
        then have "well_typed lib1"
          using wt customs_ok_set [OF _ nc] assms(5) members_ok_set catalog_ok_cong [of lib1 lib]
          by (simp add: well_typed_def lib1_def same_catalog_def)
        moreover have "library_view lib1 = apply_effect (AddCategory c rows) (library_view lib)"
          unfolding lib1_def by (rule view_add_category)
        ultimately show ?thesis
          using sync_done [OF st [unfolded None] s1(1), of "bump lib1"] by (simp add: l same_catalog_def lib1_def)
      qed
    qed
  qed
qed

lemma validCategoryTitle_fixed: "validCategoryTitle x = Some t \<Longrightarrow> validCategoryTitle t = Some t"
  using validName_fixed by (simp add: validCategoryTitle_def)

lemma validCategoryMembers_ok: "validCategoryMembers lib ls = Ok ms \<Longrightarrow> \<forall>l \<in> set ms. is_ok (validate_slug l) \<and> knownList lib l"
  by (auto simp: validCategoryMembers_def Let_def split: if_splits)

lemma CreateCategory_kept:
  assumes "in_sync lib w" "CreateCategory st title ls lib w = ((r, lib'), w')"
  shows "kept lib lib' w'"
proof (cases "validCategoryTitle title")
  case None
  then show ?thesis using assms by (auto simp: CreateCategory_def kept_refl)
next
  case (Some t)
  obtain now w1 where n: "st_now st w = (now, w1)" by (cases "st_now st w")
  have s1: "in_sync lib w1" using sync_now [OF n assms(1)] .
  show ?thesis
  proof (cases "now = 0 \<or> maxCustomCategories \<le> length (lb_custom lib) \<or> (\<exists>e. validCategoryMembers lib ls = Err e)")
    case True
    then have "lib' = lib \<and> w' = w1"
      using assms(2) Some n by (auto simp: CreateCategory_def split: if_splits sum.splits)
    then show ?thesis using s1 by (simp add: kept_refl)
  next
    case False
    then obtain ms where ms: "validCategoryMembers lib ls = Ok ms" by (cases "validCategoryMembers lib ls") auto
    have c: "create_category 8 st t ms now lib w1 = ((r, lib'), w')"
      using assms(2) Some n ms False by (simp add: CreateCategory_def)
    show ?thesis
      by (rule create_category_kept [OF s1 validCategoryTitle_fixed [OF Some] _ _ _ c])
        (use False validCategoryMembers_ok [OF ms] in auto)
  qed
qed

lemma update_title_ok:
  assumes "well_typed lib" "mergedCategory lib c = Some d" "update_title d title = Ok t" "map_of (lb_custom lib) c = Some own"
  shows "validCategoryTitle t = Some t"
proof (cases title)
  case None
  have "cd_title d = cc_title own" using assms(2,4) by (auto simp: mergedCategory_def Let_def split: if_splits)
  moreover have "normalizedCustomCategory own = Ok own"
    using assms(1,4) customs_okD(2) by (auto simp: well_typed_def)
  ultimately show ?thesis
    using assms(3) None by (cases own) (auto simp: update_title_def normalizedCustomCategory_def split: if_splits option.splits)
next
  case (Some x)
  then show ?thesis
    using assms(3) validCategoryTitle_fixed by (auto simp: update_title_def split: if_splits option.splits)
qed

lemma store_category_typed:
  assumes "well_typed lib" "is_ok (validate_slug c)" "now \<noteq> 0"
    "map_of (lb_custom lib) c \<noteq> None \<longrightarrow> validCategoryTitle t = Some t"
    "\<forall>rs. rows = Some rs \<longrightarrow> (\<forall>r \<in> set rs. member_ok c (me_list r, me_state r))"
  shows "well_typed (store_category c t rows now lib)" "same_catalog lib (store_category c t rows now lib)"
proof -
  define lib1 where "lib1 = (case map_of (lb_custom lib) c of None \<Rightarrow> lib
    | Some stored \<Rightarrow> lib\<lparr>lb_custom := go_set c (stored\<lparr>cc_title := t, cc_updated := now\<rparr>) (lb_custom lib)\<rparr>)"
  have c1: "well_typed lib1 \<and> same_catalog lib lib1"
  proof (cases "map_of (lb_custom lib) c")
    case None
    then show ?thesis using assms(1) by (simp add: lib1_def same_catalog_def)
  next
    case (Some own)
    let ?n = "own\<lparr>cc_title := t, cc_updated := now\<rparr>"
    have cs: "customs_ok (lb_custom lib)" using assms(1) by (simp add: well_typed_def)
    note o = customs_okD [OF cs Some]
    have "normalizedCustomCategory ?n = Ok ?n"
      using o(1,2) assms(3,4) Some
      by (cases own) (auto simp: normalizedCustomCategory_def split: if_splits option.splits)
    then have "customs_ok (go_set (cc_id ?n) ?n (lb_custom lib))"
      using Some o(1) by (intro customs_ok_set [OF cs]) simp_all
    then show ?thesis
      using assms(1) Some o(1) catalog_ok_cong [of lib1 lib] by (simp add: lib1_def well_typed_def same_catalog_def)
  qed
  have l: "store_category c t rows now lib = bump (case rows of None \<Rightarrow> lib1
      | Some rs \<Rightarrow> lib1\<lparr>lb_membership := go_set c (membershipIndex rs) (lb_membership lib1)\<rparr>)"
    unfolding store_category_def lib1_def Let_def by (rule refl)
  have "well_typed (lib1\<lparr>lb_membership := go_set c (membershipIndex rs) (lb_membership lib1)\<rparr>)" if "rows = Some rs" for rs
    using c1 that assms(5) members_ok_set [of "lb_membership lib1" rs c]
      catalog_ok_cong [of "lib1\<lparr>lb_membership := go_set c (membershipIndex rs) (lb_membership lib1)\<rparr>" lib1]
    by (simp add: well_typed_def same_catalog_def)
  then show "well_typed (store_category c t rows now lib)" "same_catalog lib (store_category c t rows now lib)"
    using c1 l by (auto simp: same_catalog_def split: option.splits)
qed

lemma update_members_ok:
  assumes "well_typed lib" "mergedCategory lib c = Some d" "update_members lib c ls now = Ok rows" "rows = Some rs"
  shows "\<forall>r \<in> set rs. member_ok c (me_list r, me_state r)"
proof -
  obtain x desired where x: "validCategoryMembers lib x = Ok desired" "rs = membershipRows c desired (shipped_lists lib c) now"
    using assms(3,4) by (auto simp: update_members_def split: option.splits sum.splits)
  have d: "\<forall>l \<in> set desired. is_ok (validate_slug l)" using validCategoryMembers_ok [OF x(1)] by blast
  note f = category_facts [OF assms(1,2)]
  show ?thesis unfolding x(2) by (rule membershipRows_ok) (use d f(1,5,6) in auto)
qed

lemma UpdateCategory_kept:
  assumes "in_sync lib w" "UpdateCategory st c title ls lib w = ((r, lib'), w')"
  shows "kept lib lib' w'"
proof -
  obtain now w1 where n: "st_now st w = (now, w1)" by (cases "st_now st w")
  have s1: "in_sync lib w1" using sync_now [OF n assms(1)] .
  have wt: "well_typed lib" using s1 by (simp add: in_sync_def)
  show ?thesis
  proof (cases "now \<noteq> 0 \<and> (\<exists>d t rows. mergedCategory lib c = Some d \<and> update_title d title = Ok t \<and> update_members lib c ls now = Ok rows)")
    case False
    then have "lib' = lib \<and> w' = w1"
      using assms(2) n by (auto simp: UpdateCategory_def split: if_splits option.splits sum.splits)
    then show ?thesis using s1 by (simp add: kept_refl)
  next
    case True
    then obtain d t rows where d: "now \<noteq> 0" "mergedCategory lib c = Some d" "update_title d title = Ok t"
        "update_members lib c ls now = Ok rows" by blast
    note f = category_facts [OF wt d(2)]
    define cw where "cw = \<lparr>cw_id = c, cw_title = (if cd_custom d then t else []),
        cw_memberships = (case rows of None \<Rightarrow> [] | Some rs \<Rightarrow> rs), cw_replace = (rows \<noteq> None), cw_updated = now\<rparr>"
    obtain ur w2 where u: "st_update_category st cw w1 = (ur, w2)" by (cases "st_update_category st cw w1")
    have st: "store_step st (EditCategory cw) w1 = (ur, w2)" using u by simp
    show ?thesis
    proof (cases ur)
      case (Some e)
      then have "lib' = lib \<and> w' = w2" using assms(2) n d u by (simp add: UpdateCategory_def cw_def Let_def)
      moreover have "in_sync lib w2" using sync_failed st Some s1 by blast
      ultimately show ?thesis by (simp add: kept_refl)
    next
      case None
      have l: "lib' = store_category c t rows now lib \<and> w' = w2"
        using assms(2) n d u None by (auto simp: UpdateCategory_def cw_def Let_def)
      have "library_view (store_category (cw_id cw) t rows now lib) = apply_effect (EditCategory cw) (library_view lib)"
        using f(2,3,4) by (intro view_edit_category [of _ _ _ _ _ "the rows"]) (auto simp: cw_def split: option.splits)
      moreover have "validCategoryTitle t = Some t" if "map_of (lb_custom lib) c \<noteq> None"
        using that update_title_ok [OF wt d(2,3)] by blast
      then have "well_typed lib'" "same_catalog lib lib'"
        using store_category_typed [OF wt f(1) d(1), of t rows] update_members_ok [OF wt d(2,4)] l by auto
      ultimately show ?thesis using sync_done [OF st [unfolded None] s1] l by (simp add: cw_def)
    qed
  qed
qed

subsection \<open>Removals\<close>

lemma forgetList_typed:
  assumes "well_typed lib" "is_ok (validate_slug i)"
  shows "well_typed (forgetList i lib)" "same_catalog lib (forgetList i lib)"
proof -
  show c: "same_catalog lib (forgetList i lib)" by (simp add: same_catalog_def forgetList_def)
  have "removed_ok (set (lb_removed (forgetList i lib)))"
    using assms by (auto simp: well_typed_def removed_ok_def forgetList_def CustomCategoryIDPrefix_def)
  then show "well_typed (forgetList i lib)"
    using assms(1) catalog_ok_cong [OF c] lists_ok_delete tunings_ok_delete members_ok_forget
    by (simp add: well_typed_def forgetList_def)
qed

lemma forgetCategory_typed:
  assumes "well_typed lib" "is_ok (validate_slug c)" "has_prefix c ''custom-'' \<longleftrightarrow> map_of (lb_custom lib) c \<noteq> None"
  shows "well_typed (forgetCategory c lib)" "same_catalog lib (forgetCategory c lib)"
proof -
  show k: "same_catalog lib (forgetCategory c lib)" by (simp add: same_catalog_def forgetCategory_def Let_def)
  have "removed_ok (set (lb_removed (forgetCategory c lib)))"
    using assms by (auto simp: well_typed_def removed_ok_def forgetCategory_def Let_def)
  then show "well_typed (forgetCategory c lib)"
    using assms(1) catalog_ok_cong [OF k] customs_ok_delete members_ok_delete
    by (simp add: well_typed_def forgetCategory_def Let_def)
qed

lemma fold_forget:
  assumes "well_typed lib" "\<forall>l \<in> set ls. is_ok (validate_slug l)"
  shows "well_typed (fold forgetList ls lib) \<and> same_catalog lib (fold forgetList ls lib) \<and>
    library_view (fold forgetList ls lib) = fold drop_list ls (library_view lib)"
  using assms
proof (induction ls arbitrary: lib)
  case (Cons l ls)
  have s: "is_ok (validate_slug l)" using Cons.prems(2) by simp
  note t = forgetList_typed [OF Cons.prems(1) s]
  have "library_view (forgetList l lib) = drop_list l (library_view lib)"
    using Cons.prems(1) by (intro view_forgetList) (simp_all add: well_typed_def members_ok_def)
  then show ?case using Cons.IH [OF t(1)] t(2) Cons.prems(2) by (auto simp: same_catalog_def)
qed (simp add: same_catalog_def)

lemma known_slugs: "well_typed lib \<Longrightarrow> knownList lib l \<Longrightarrow> is_ok (validate_slug l)"
  using base_slug(1) by (auto simp: knownList_def)

lemma RemoveCategory_kept:
  assumes "in_sync lib w" "RemoveCategory st c disposition lib w = ((r, lib'), w')"
  shows "kept lib lib' w'"
proof -
  obtain now w1 where n: "st_now st w = (now, w1)" by (cases "st_now st w")
  have s1: "in_sync lib w1" using sync_now [OF n assms(1)] .
  have wt: "well_typed lib" using s1 by (simp add: in_sync_def)
  show ?thesis
  proof (cases "(disposition = CategoryListsDetach \<or> disposition = CategoryListsDelete) \<and> now \<noteq> 0 \<and> mergedCategory lib c \<noteq> None")
    case False
    then have "lib' = lib \<and> (w' = w1 \<or> w' = w)"
      using assms(2) n by (auto simp: RemoveCategory_def split: if_splits)
    then show ?thesis using s1 assms(1) by (auto simp: kept_refl)
  next
    case True
    then obtain d where d: "mergedCategory lib c = Some d" by auto
    note f = category_facts [OF wt d]
    define held where "held = (if disposition = CategoryListsDelete then cd_lists d else [])"
    obtain rr w2 where rr: "profilesNaming st [c] held w1 = (rr, w2)" by (cases "profilesNaming st [c] held w1")
    have s2: "in_sync lib w2" using sync_refs [OF rr s1] .
    define lr where "lr = \<lparr>lr_kind = RemovalCategory, lr_id = c, lr_lists = held, lr_at = now\<rparr>"
    obtain ur w3 where u: "st_remove st lr w2 = (ur, w3)" by (cases "st_remove st lr w2")
    have st: "store_step st (Remove lr) w2 = (ur, w3)" using u by simp
    have run: "((r, lib'), w') = (case rr of Inl e \<Rightarrow> ((Some e, lib), w2) | Inr refs \<Rightarrow>
        if refs \<noteq> [] then ((Some (CategoryInUse c refs), lib), w2)
        else case ur of Some e \<Rightarrow> ((Some e, lib), w3) | None \<Rightarrow> ((None, bump (fold forgetList held (forgetCategory c lib))), w3))"
      using assms(2) n True d rr u
      by (auto simp: RemoveCategory_def held_def lr_def Let_def split: sum.splits option.splits)
    show ?thesis
    proof (cases "rr = Ok [] \<and> ur = None")
      case False
      then have "lib' = lib \<and> (w' = w2 \<or> (w' = w3 \<and> ur \<noteq> None))" using run by (auto split: sum.splits option.splits if_splits)
      moreover have "in_sync lib w3" if "ur \<noteq> None" using that sync_failed st s2 by blast
      ultimately show ?thesis using s2 by (auto simp: kept_refl)
    next
      case True
      then have l: "lib' = bump (fold forgetList held (forgetCategory c lib))" "w' = w3" using run by simp_all
      have fc: "well_typed (forgetCategory c lib)" "same_catalog lib (forgetCategory c lib)"
        using forgetCategory_typed [OF wt f(1)] f(4) by auto
      have "\<forall>l \<in> set held. is_ok (validate_slug l)" using f(7) known_slugs [OF wt] by (simp add: held_def)
      note ff = fold_forget [OF fc(1) this]
      have "library_view (forgetCategory c lib) = drop_category c (library_view lib)"
        using f(4) by (intro view_forgetCategory) (simp add: CustomCategoryIDPrefix_def)
      then have "library_view (fold forgetList held (forgetCategory c lib)) = apply_effect (Remove lr) (library_view lib)"
        using ff by (simp add: lr_def)
      moreover have "store_step st (Remove lr) w2 = (None, w3)" using st True by simp
      ultimately show ?thesis
        using sync_done [of "Remove lr" w2 w3 lib lib'] s2 ff fc(2) l by (simp add: same_catalog_def)
    qed
  qed
qed

lemma RemoveList_kept:
  assumes "in_sync lib w" "RemoveList st i lib w = ((r, lib'), w')"
  shows "kept lib lib' w'"
proof -
  obtain now w1 where n: "st_now st w = (now, w1)" by (cases "st_now st w")
  have s1: "in_sync lib w1" using sync_now [OF n assms(1)] .
  have wt: "well_typed lib" using s1 by (simp add: in_sync_def)
  obtain rr w2 where rr: "profilesNaming st [] [i] w1 = (rr, w2)" by (cases "profilesNaming st [] [i] w1")
  have s2: "in_sync lib w2" using sync_refs [OF rr s1] .
  define lr where "lr = \<lparr>lr_kind = RemovalList, lr_id = i, lr_lists = [], lr_at = now\<rparr>"
  obtain ur w3 where u: "st_remove st lr w2 = (ur, w3)" by (cases "st_remove st lr w2")
  have st: "store_step st (Remove lr) w2 = (ur, w3)" using u by simp
  have run: "((r, lib'), w') = (if now = 0 then ((Some ErrZeroClock, lib), w1)
      else if \<not> knownList lib i then ((Some ErrNotFound, lib), w1)
      else case rr of Inl e \<Rightarrow> ((Some e, lib), w2) | Inr refs \<Rightarrow>
        if refs \<noteq> [] then ((Some (ListInUse i refs), lib), w2)
        else case ur of Some e \<Rightarrow> ((Some e, lib), w3) | None \<Rightarrow> ((None, bump (forgetList i lib)), w3))"
    using assms(2) n rr u by (auto simp: RemoveList_def lr_def Let_def split: sum.splits option.splits)
  show ?thesis
  proof (cases "now \<noteq> 0 \<and> knownList lib i \<and> rr = Ok [] \<and> ur = None")
    case False
    then have "lib' = lib \<and> (w' = w1 \<or> w' = w2 \<or> (w' = w3 \<and> ur \<noteq> None))" using run by (auto split: sum.splits option.splits if_splits)
    moreover have "in_sync lib w3" if "ur \<noteq> None" using that sync_failed st s2 by blast
    ultimately show ?thesis using s1 s2 by (auto simp: kept_refl)
  next
    case True
    then have l: "lib' = bump (forgetList i lib)" "w' = w3" using run by simp_all
    note ft = forgetList_typed [OF wt known_slugs [OF wt]]
    have "library_view (forgetList i lib) = apply_effect (Remove lr) (library_view lib)"
      using wt by (simp add: lr_def view_forgetList well_typed_def members_ok_def)
    moreover have "store_step st (Remove lr) w2 = (None, w3)" using st True by simp
    ultimately show ?thesis
      using sync_done [of "Remove lr" w2 w3 lib lib'] True s2 ft l by (simp add: same_catalog_def)
  qed
qed

subsection \<open>Custom lists\<close>

lemma validCustomListInput_list:
  assumes "validCustomListInput x y = Ok (t, ds)" "cl_title l = t" "cl_domains l = ds" "cl_created l \<noteq> 0" "cl_updated l \<noteq> 0"
    "has_prefix (cl_id l) ''custom-''" "is_ok (validate_slug (cl_id l))"
  shows "normalizedCustomList l = Ok l"
  using validCustomListInput_fixed [OF assms(1)] assms(2-)
  by (cases l) (simp add: normalizedCustomList_def customListIDPrefix_def)

lemma well_typed_lists:
  assumes "well_typed lib" "normalizedCustomList l = Ok l"
  shows "well_typed (bump (lib\<lparr>lb_lists := go_set (cl_id l) l (lb_lists lib)\<rparr>))"
    "same_catalog lib (bump (lib\<lparr>lb_lists := go_set (cl_id l) l (lb_lists lib)\<rparr>))"
  using assms lists_ok_set catalog_ok_cong [of "bump (lib\<lparr>lb_lists := go_set (cl_id l) l (lb_lists lib)\<rparr>)" lib]
  by (simp_all add: well_typed_def same_catalog_def)

lemma create_list_kept:
  assumes "in_sync lib w" "validCustomListInput x y = Ok (t, ds)" "now \<noteq> 0"
    "create_list n st t ds now lib w = ((r, lib'), w')"
  shows "kept lib lib' w'"
  using assms(1,4)
proof (induction n arbitrary: w)
  case 0
  then show ?case by (simp add: kept_refl)
next
  case (Suc n)
  obtain hr w1 where h: "randomHex st 8 w = (hr, w1)" by (cases "randomHex st 8 w")
  note s1 = sync_hex [OF h Suc.prems(1)]
  show ?case
  proof (cases hr)
    case (Inl e)
    then show ?thesis using Suc.prems(2) h s1(1) by (simp add: kept_refl)
  next
    case (Inr hx)
    then obtain bs where bs: "hx = hex_encode bs" "length bs = 8" "\<forall>b \<in> set bs. b < 256" using s1(2) by blast
    define l where "l = \<lparr>cl_id = customListIDPrefix @ hx, cl_title = t, cl_domains = ds, cl_created = now, cl_updated = now\<rparr>"
    have "has_prefix (cl_id l) ''custom-''" "is_ok (validate_slug (cl_id l))"
      using generated_slug [OF bs(2,3), of "''custom-''"] has_prefix_append [of "''custom-''" hx]
      by (simp_all add: l_def customListIDPrefix_def bs(1))
    then have nl: "normalizedCustomList l = Ok l"
      by (intro validCustomListInput_list [OF assms(2)]) (simp_all add: l_def assms(3))
    obtain cr w2 where cr: "st_create_list st l w1 = (cr, w2)" by (cases "st_create_list st l w1")
    have st: "store_step st (AddList l) w1 = (cr, w2)" using cr by simp
    show ?thesis
    proof (cases "map_of (lb_definitions lib) (cl_id l) \<noteq> None \<or> cr \<noteq> None")
      case True
      then have "(if map_of (lb_definitions lib) (cl_id l) \<noteq> None then create_list n st t ds now lib w1
          else if cr = Some ErrIdentityCollision then create_list n st t ds now lib w2 else ((Err (the cr), lib), w2)) =
          ((r, lib'), w')"
        using Suc.prems(2) h Inr cr by (auto simp: l_def Let_def split: if_splits)
      moreover have "in_sync lib w2" if "cr \<noteq> None" using that sync_failed st s1(1) by blast
      ultimately show ?thesis using Suc.IH s1(1) True by (auto simp: kept_refl split: if_splits)
    next
      case False
      then have l: "lib' = bump (lib\<lparr>lb_lists := go_set (cl_id l) l (lb_lists lib)\<rparr>)" "w' = w2"
        using Suc.prems(2) h Inr cr by (auto simp: l_def Let_def)
      have "library_view lib' = apply_effect (AddList l) (library_view lib)" by (simp add: l library_view_def)
      moreover have "store_step st (AddList l) w1 = (None, w2)" using st False by simp
      moreover have "well_typed lib" using s1(1) by (simp add: in_sync_def)
      ultimately show ?thesis using sync_done s1(1) well_typed_lists [OF _ nl] l by metis
    qed
  qed
qed

lemma CreateCustomList_kept:
  assumes "in_sync lib w" "CreateCustomList st title ds lib w = ((r, lib'), w')"
  shows "kept lib lib' w'"
proof (cases "validCustomListInput title ds")
  case (Inl e)
  then show ?thesis using assms by (auto simp: CreateCustomList_def kept_refl)
next
  case (Inr td)
  obtain t d where td: "validCustomListInput title ds = Ok (t, d)" using Inr by (cases td) auto
  obtain now w1 where n: "st_now st w = (now, w1)" by (cases "st_now st w")
  have s1: "in_sync lib w1" using sync_now [OF n assms(1)] .
  show ?thesis
  proof (cases "now = 0 \<or> maxCustomLists \<le> length (lb_lists lib)")
    case True
    then have "lib' = lib \<and> w' = w1" using assms(2) td n by (auto simp: CreateCustomList_def split: if_splits)
    then show ?thesis using s1 by (simp add: kept_refl)
  next
    case False
    then have "create_list 8 st t d now lib w1 = ((r, lib'), w')" using assms(2) td n by (simp add: CreateCustomList_def)
    then show ?thesis using create_list_kept [OF s1 td] False by blast
  qed
qed

lemma UpdateCustomList_kept:
  assumes "in_sync lib w" "UpdateCustomList st i title ds lib w = ((r, lib'), w')"
  shows "kept lib lib' w'"
proof (cases "(\<exists>td. validCustomListInput title ds = Ok td) \<and> map_of (lb_lists lib) i \<noteq> None")
  case False
  then have "lib' = lib \<and> w' = w"
    using assms(2) by (auto simp: UpdateCustomList_def split: sum.splits prod.splits option.splits)
  then show ?thesis using assms(1) by (simp add: kept_refl)
next
  case True
  then obtain t d c where v: "validCustomListInput title ds = Ok (t, d)" "map_of (lb_lists lib) i = Some c" by auto
  obtain now w1 where n: "st_now st w = (now, w1)" by (cases "st_now st w")
  have s1: "in_sync lib w1" using sync_now [OF n assms(1)] .
  define u where "u = \<lparr>cl_id = cl_id c, cl_title = t, cl_domains = d, cl_created = cl_created c, cl_updated = now\<rparr>"
  obtain ur w2 where ur: "st_update_list st u w1 = (ur, w2)" by (cases "st_update_list st u w1")
  have st: "store_step st (EditList u) w1 = (ur, w2)" using ur by simp
  have run: "((r, lib'), w') = (if now = 0 then ((Err ErrZeroClock, lib), w1) else case ur of Some e \<Rightarrow> ((Err e, lib), w2)
      | None \<Rightarrow> ((Ok u, bump (lib\<lparr>lb_lists := go_set (cl_id u) u (lb_lists lib)\<rparr>)), w2))"
    using assms(2) v n ur by (auto simp: UpdateCustomList_def u_def Let_def split: option.splits)
  show ?thesis
  proof (cases "now \<noteq> 0 \<and> ur = None")
    case False
    then have "lib' = lib \<and> (w' = w1 \<or> (w' = w2 \<and> ur \<noteq> None))" using run by (auto split: option.splits if_splits)
    moreover have "in_sync lib w2" if "ur \<noteq> None" using that sync_failed st s1 by blast
    ultimately show ?thesis using s1 by (auto simp: kept_refl)
  next
    case True
    then have l: "lib' = bump (lib\<lparr>lb_lists := go_set (cl_id u) u (lb_lists lib)\<rparr>)" "w' = w2" using run by simp_all
    have wt: "well_typed lib" using s1 by (simp add: in_sync_def)
    then have lo: "lists_ok (lb_lists lib)" by (simp add: well_typed_def)
    note c = lists_okD [OF lo v(2)]
    have "cl_created c \<noteq> 0" using c(2) by (cases c) (auto simp: normalizedCustomList_def split: if_splits)
    then have nu: "normalizedCustomList u = Ok u"
      using c True by (intro validCustomListInput_list [OF v(1)]) (simp_all add: u_def)
    have "relisted u c = u" by (simp add: relisted_def u_def)
    then have "library_view lib' = apply_effect (EditList u) (library_view lib)"
      using v(2) c(1) by (simp add: l library_view_def u_def)
    moreover have "store_step st (EditList u) w1 = (None, w2)" using st True by simp
    ultimately show ?thesis using sync_done s1 well_typed_lists [OF wt nu] l by metis
  qed
qed

subsection \<open>Tunings\<close>

lemma store_tuning_done:
  assumes "store_step st eff w = (None, w')" "in_sync lib w" "tuning_ok i t"
    "library_view (storeTuningLocked i t lib) = apply_effect eff (library_view lib)"
  shows "kept lib (bump (storeTuningLocked i t lib)) w'"
proof -
  have "well_typed (storeTuningLocked i t lib)"
    using assms(2,3) by (intro well_typed_store) (simp_all add: in_sync_def)
  then show ?thesis
    using sync_done [OF assms(1,2), of "bump (storeTuningLocked i t lib)"] assms(4) by (simp add: same_catalog_def)
qed

lemma SetListSourceEnabled_kept:
  assumes "in_sync lib w" "SetListSourceEnabled st i s enabled lib w = ((r, lib'), w')"
  shows "kept lib lib' w'"
proof (cases "\<exists>d. baseDefinition lib i = Some d \<and> sourceKnown lib d s")
  case False
  then have "lib' = lib \<and> w' = w" using assms(2) by (auto simp: SetListSourceEnabled_def split: option.splits if_splits)
  then show ?thesis using assms(1) by (simp add: kept_refl)
next
  case True
  then obtain d where d: "baseDefinition lib i = Some d" "sourceKnown lib d s" by blast
  have wt: "well_typed lib" using assms(1) by (simp add: in_sync_def)
  note b = base_slug [OF wt d(1)]
  obtain ur w1 where u: "st_set_disabled st i s (\<not> enabled) w = (ur, w1)" by (cases "st_set_disabled st i s (\<not> enabled) w")
  have st: "store_step st (SetDisabled i s (\<not> enabled)) w = (ur, w1)" using u by simp
  show ?thesis
  proof (cases ur)
    case (Some e)
    then have "lib' = lib \<and> w' = w1" using assms(2) d u by (simp add: SetListSourceEnabled_def)
    moreover have "in_sync lib w1" using sync_failed st Some assms(1) by blast
    ultimately show ?thesis by (simp add: kept_refl)
  next
    case None
    define t where "t = (listTuning lib i)\<lparr>lt_disabled := sort (withoutString (lt_disabled (listTuning lib i)) s @ (if enabled then [] else [s]))\<rparr>"
    have l: "lib' = bump (storeTuningLocked i t lib)" "w' = w1"
      using assms(2) d u None by (auto simp: SetListSourceEnabled_def t_def Let_def)
    have t0: "tuning_ok i (listTuning lib i)" using listTuning_typed [OF wt b(1)] .
    have own: "has_prefix s ''feed-'' \<Longrightarrow> s \<in> cs_id ` set (lt_sources (listTuning lib i))"
      using d(2) b(2,3) by (auto simp: sourceKnown_def)
    have "sorted_wrt (<) (lt_disabled t)"
      using t0 without_strict [of "lt_disabled (listTuning lib i)" s]
      by (auto simp: t_def tuning_ok_iff tidy_tuning_def strict_sorted_iff intro!: sort_strict)
    then have "tuning_ok i t" using t0 own by (auto simp: tuning_ok_iff tidy_tuning_def t_def)
    moreover have "library_view (storeTuningLocked i t lib) = apply_effect (SetDisabled i s (\<not> enabled)) (library_view lib)"
      by (auto simp: library_view_def t_def split: if_splits)
    ultimately show ?thesis unfolding l by (rule store_tuning_done [OF st [unfolded None] assms(1)])
  qed
qed

lemma add_source_kept:
  assumes "in_sync lib w" "is_ok (validate_slug i)" "add_source n st i url fmt now lib w = ((r, lib'), w')"
  shows "kept lib lib' w'"
  using assms(1,3)
proof (induction n arbitrary: w)
  case 0
  then show ?case by (simp add: kept_refl)
next
  case (Suc n)
  obtain hr w1 where h: "randomHex st 8 w = (hr, w1)" by (cases "randomHex st 8 w")
  note s1 = sync_hex [OF h Suc.prems(1)]
  have wt: "well_typed lib" using Suc.prems(1) by (simp add: in_sync_def)
  show ?case
  proof (cases hr)
    case (Inl e)
    then show ?thesis using Suc.prems(2) h s1(1) by (simp add: kept_refl)
  next
    case (Inr hx)
    define f where "f = \<lparr>cs_id = customSourceIDPrefix @ hx, cs_list = i, cs_url = url, cs_format = fmt, cs_created = now, cs_updated = now\<rparr>"
    obtain cr w2 where cr: "st_create_source st f w1 = (cr, w2)" by (cases "st_create_source st f w1")
    have st: "store_step st (AddSource f) w1 = (cr, w2)" using cr by simp
    show ?thesis
    proof (cases cr)
      case (Some e)
      then have s2: "in_sync lib w2" using sync_failed st s1(1) by blast
      have "(if e = ErrIdentityCollision then add_source n st i url fmt now lib w2 else ((Err e, lib), w2)) = ((r, lib'), w')"
        using Suc.prems(2) h Inr cr Some by (simp add: f_def Let_def)
      then show ?thesis using Suc.IH s2 by (auto simp: kept_refl split: if_splits)
    next
      case None
      define t where "t = (listTuning lib i)\<lparr>lt_sources := sort_key cs_id (lt_sources (listTuning lib i) @ [f])\<rparr>"
      have l: "lib' = bump (storeTuningLocked i t lib)" "w' = w2"
        using Suc.prems(2) h Inr cr None by (auto simp: f_def t_def Let_def)
      have t0: "tuning_ok i (listTuning lib i)" using listTuning_typed [OF wt assms(2)] .
      have "cs_id f \<notin> cs_id ` so_sources (library_view lib)"
        using sync_fits [OF st [unfolded None] s1(1)] by simp
      then have new: "cs_id f \<notin> cs_id ` set (lt_sources (listTuning lib i))" by (auto simp: library_view_def)
      have "distinct (map cs_id (lt_sources t))"
        using new t0 by (auto simp: t_def tuning_ok_def distinct_map)
      then have "sorted_wrt (<) (map cs_id (lt_sources t))" by (simp add: t_def strict_sorted_iff)
      moreover have "has_prefix (cs_id f) ''feed-''" using has_prefix_append [of "''feed-''" hx] by (simp add: f_def customSourceIDPrefix_def)
      ultimately have "tuning_ok i t" using t0 by (auto simp: tuning_ok_iff tidy_tuning_def t_def f_def)
      moreover have "library_view (storeTuningLocked i t lib) = apply_effect (AddSource f) (library_view lib)"
        by (auto simp: library_view_def t_def split: if_splits)
      ultimately show ?thesis unfolding l by (rule store_tuning_done [OF st [unfolded None] s1(1)])
    qed
  qed
qed

lemma AddListSource_kept:
  assumes "in_sync lib w" "AddListSource feed st i url fmt lib w = ((r, lib'), w')"
  shows "kept lib lib' w'"
proof -
  obtain now w1 where n: "st_now st w = (now, w1)" by (cases "st_now st w")
  have s1: "in_sync lib w1" using sync_now [OF n assms(1)] .
  have wt: "well_typed lib" using s1 by (simp add: in_sync_def)
  consider "lib' = lib" "w' = w \<or> w' = w1" |
      d where "baseDefinition lib i = Some d" "add_source 8 st i url fmt now lib w1 = ((r, lib'), w')"
    using assms(2) n by (auto simp: AddListSource_def Let_def split: if_splits option.splits)
  then show ?thesis
  proof cases
    case 1
    then show ?thesis using assms(1) s1 by (auto simp: kept_refl)
  next
    case 2
    then show ?thesis using add_source_kept [OF s1 base_slug(1) [OF wt]] by blast
  qed
qed

text \<open>A feed removal that reports an error is left out: the store may have done half of it.\<close>

lemma RemoveListSource_kept:
  assumes "in_sync lib w" "RemoveListSource st i s lib w = ((r, lib'), w')"
    "r = None \<or> \<not> has_prefix s customSourceIDPrefix \<or> s \<notin> set (map cs_id (lt_sources (listTuning lib i)))"
  shows "kept lib lib' w'"
proof (cases "has_prefix s customSourceIDPrefix \<and> s \<in> set (map cs_id (lt_sources (listTuning lib i)))")
  case False
  then have "lib' = lib \<and> w' = w" using assms(2) by (auto simp: RemoveListSource_def split: if_splits)
  then show ?thesis using assms(1) by (simp add: kept_refl)
next
  case True
  define t where "t = (listTuning lib i)\<lparr>lt_sources := filter (\<lambda>f. cs_id f \<noteq> s) (lt_sources (listTuning lib i)),
      lt_disabled := withoutString (lt_disabled (listTuning lib i)) s\<rparr>"
  have wt: "well_typed lib" and v: "library_view lib = holds w" and so: "sound w" using assms(1) by (simp_all add: in_sync_def)
  have r: "r = None" using assms(3) True by auto
  have st: "store_step st (RemoveSource s) w = (None, w')" and l: "lib' = bump (storeTuningLocked i t lib)"
    using assms(2) True r by (auto simp: RemoveListSource_def t_def Let_def split: if_splits option.splits prod.splits)
  obtain g where g: "g \<in> set (lt_sources (listTuning lib i))" "cs_id g = s" using True by auto
  then have "listTuning lib i \<noteq> no_tuning" by (auto simp: no_tuning_def)
  then have t0: "tuning_ok i (listTuning lib i)" by (rule filed_tuning [OF wt])
  have only: "j = i \<and> f = g" if "f \<in> set (lt_sources (listTuning lib j))" "cs_id f = s" for f j
  proof -
    have "f \<in> so_sources (library_view lib)" "g \<in> so_sources (library_view lib)"
      using that g by (auto simp: library_view_def)
    then have "f = g" using unique_feeds [OF so] v that(2) g(2) by metis
    moreover have "cs_list f = j" "cs_list g = i" using filed_source [OF wt] that(1) g(1) by blast+
    ultimately show ?thesis by simp
  qed
  have dis: "j = i" if "s \<in> set (lt_disabled (listTuning lib j))" for j
  proof -
    have "tuning_ok j (listTuning lib j)"
      using that by (intro filed_tuning [OF wt]) (auto simp: no_tuning_def)
    then have "s \<in> cs_id ` set (lt_sources (listTuning lib j))"
      using that True by (auto simp: tuning_ok_def customSourceIDPrefix_def)
    then show ?thesis using only by auto
  qed
  have "sorted_wrt (<) (map cs_id (lt_sources t))"
    using t0 sorted_wrt_filter [of "\<lambda>a b. cs_id a < cs_id b" "lt_sources (listTuning lib i)" "\<lambda>f. cs_id f \<noteq> s"]
    by (simp add: tuning_ok_iff tidy_tuning_def t_def sorted_wrt_map)
  then have "tuning_ok i t"
    using t0 without_strict by (auto simp: tuning_ok_iff tidy_tuning_def t_def)
  moreover have "library_view (storeTuningLocked i t lib) = apply_effect (RemoveSource s) (library_view lib)"
  proof -
    have "(\<exists>j. f \<in> set (lt_sources (((listTuning lib)(i := t)) j))) \<longleftrightarrow>
        (\<exists>j. f \<in> set (lt_sources (listTuning lib j))) \<and> cs_id f \<noteq> s" for f
    proof
      assume "\<exists>j. f \<in> set (lt_sources (((listTuning lib)(i := t)) j))"
      then obtain j where "f \<in> set (lt_sources (((listTuning lib)(i := t)) j))" ..
      then show "(\<exists>j. f \<in> set (lt_sources (listTuning lib j))) \<and> cs_id f \<noteq> s"
        using only by (cases "j = i") (auto simp: t_def)
    next
      assume "(\<exists>j. f \<in> set (lt_sources (listTuning lib j))) \<and> cs_id f \<noteq> s"
      then obtain j where "f \<in> set (lt_sources (listTuning lib j))" "cs_id f \<noteq> s" by blast
      then have "f \<in> set (lt_sources (((listTuning lib)(i := t)) j))" by (auto simp: t_def)
      then show "\<exists>j. f \<in> set (lt_sources (((listTuning lib)(i := t)) j))" ..
    qed
    then show ?thesis using dis by (auto simp: library_view_def t_def simp del: fun_upd_apply) (auto split: if_splits)
  qed
  ultimately show ?thesis using store_tuning_done [OF st assms(1)] l by simp
qed

lemma SetListValues_kept:
  assumes "in_sync lib w" "SetListValues st i vs verdict lib w = ((r, lib'), w')"
  shows "kept lib lib' w'"
proof (cases "lib' = lib \<and> w' = w")
  case True
  then show ?thesis using assms(1) by (simp add: kept_refl)
next
  case False
  obtain ns d where d: "baseDefinition lib i = Some d" "normalize_values vs [] = Ok ns"
      "((r, lib'), w') = (case st_set_verdicts st i ns verdict w of (Some e, w) \<Rightarrow> ((Some e, lib), w)
        | (None, w) \<Rightarrow> ((None, bump (storeTuningLocked i (set_values ns verdict (listTuning lib i)) lib)), w))"
      "verdict \<in> {DomainVerdictInclude, DomainVerdictExclude, DomainVerdictAuto}"
    using assms(2) False by (auto simp: SetListValues_def Let_def split: if_splits sum.splits)
  have wt: "well_typed lib" using assms(1) by (simp add: in_sync_def)
  obtain ur w1 where u: "st_set_verdicts st i ns verdict w = (ur, w1)" by (cases "st_set_verdicts st i ns verdict w")
  have st: "store_step st (SetVerdicts i ns verdict) w = (ur, w1)" using u by simp
  show ?thesis
  proof (cases ur)
    case (Some e)
    then have "lib' = lib \<and> w' = w1" using d(3) u by simp
    moreover have "in_sync lib w1" using sync_failed st Some assms(1) by blast
    ultimately show ?thesis by (simp add: kept_refl)
  next
    case None
    define t where "t = set_values ns verdict (listTuning lib i)"
    have l: "lib' = bump (storeTuningLocked i t lib)" "w' = w1" using d(3) u None by (simp_all add: t_def)
    have t0: "tuning_ok i (listTuning lib i)" using listTuning_typed [OF wt base_slug(1) [OF wt d(1)]] .
    have ns: "distinct ns" "\<forall>v \<in> set ns. canonical_value v" using normalize_values_ok [OF d(2)] by simp_all
    have ti: "sorted_wrt (<) (lt_includes (listTuning lib i))" "sorted_wrt (<) (lt_excludes (listTuning lib i))"
      using t0 by (simp_all add: tuning_ok_iff tidy_tuning_def)
    note f = set_values_facts [OF ti ns(1), of verdict, folded t_def]
    have "tuning_ok i t"
      using t0 f ns(2) by (auto simp: tuning_ok_iff tidy_tuning_def split: if_splits)
    moreover have "library_view (storeTuningLocked i t lib) = apply_effect (SetVerdicts i ns verdict) (library_view lib)"
      using f by (auto simp: library_view_def split: if_splits)
    ultimately show ?thesis unfolding l by (rule store_tuning_done [OF st [unfolded None] assms(1)])
  qed
qed

lemma serve_kept:
  assumes "in_sync lib w" "serve feed st req lib w = ((r, lib'), w')" "r = None \<or> (\<forall>i s. req \<noteq> ReqRemoveSource i s)"
  shows "kept lib lib' w'"
  using assms
  by (cases req)
    (auto simp: outcome_def split: prod.splits sum.splits
      dest: CreateCategory_kept UpdateCategory_kept RemoveCategory_kept CreateCustomList_kept UpdateCustomList_kept
        RemoveList_kept SetListSourceEnabled_kept AddListSource_kept RemoveListSource_kept SetListValues_kept)

end

end
