(* ===== verification/LibraryReload.thy ===== *)
theory LibraryReload
  imports LibrarySync
begin

text \<open>
  Starting on what the store holds: \<open>serve.go\<close> reads the three registries back. \<open>library_reader\<close> adds to the
  contract what the reads answer; inside it a service started on a complete store is shown to have the library
  that every service in step with the store has, and to fail only when the store does.
\<close>

section \<open>Loading\<close>

text \<open>What \<open>serve.go\<close> does before it serves: the three registries are read in this order, the first error stops.\<close>

definition startup :: "'w library_store \<Rightarrow> library \<Rightarrow> 'w \<Rightarrow> (library_error option \<times> library) \<times> 'w" where
  "startup st lib w =
     (case LoadCustomLists st lib w of
        ((Some e, lib), w) \<Rightarrow> ((Some e, lib), w)
      | ((None, lib), w) \<Rightarrow>
          (case LoadListTuning st lib w of
             ((Some e, lib), w) \<Rightarrow> ((Some e, lib), w)
           | ((None, lib), w) \<Rightarrow> LoadCategories st lib w))"

text \<open>The service as \<open>NewPublicationService\<close> makes it, with empty registries.\<close>

definition fresh_library :: "(string \<times> category_def) list \<Rightarrow> (string \<times> list_def) list \<Rightarrow> string \<Rightarrow> library" where
  "fresh_library categories definitions revision =
     \<lparr>lb_categories = categories, lb_definitions = definitions, lb_revision = revision, lb_custom = [],
      lb_membership = [], lb_removed = [], lb_lists = [], lb_tuning = [], lb_generation = 0\<rparr>"

lemma foldl_go_set:
  assumes "distinct (map k xs)"
  shows "map_of (foldl (\<lambda>m x. go_set (k x) (v x) m) m0 xs) i =
    (case map_of (map (\<lambda>x. (k x, v x)) xs) i of Some y \<Rightarrow> Some y | None \<Rightarrow> map_of m0 i)"
  using assms
proof (induction xs rule: rev_induct)
  case (snoc x xs)
  have n: "map_of (map (\<lambda>x. (k x, v x)) xs) (k x) = None"
    using snoc.prems by (auto simp: map_of_eq_None_iff)
  show ?case
  proof (cases "i = k x")
    case True
    then show ?thesis using n by (simp add: map_add_def)
  next
    case False
    then show ?thesis using snoc by (auto simp: map_add_def split: option.splits)
  qed
qed simp

lemma foldl_go_set_distinct: "distinct (map fst m) \<Longrightarrow> distinct (map fst (foldl (\<lambda>m x. go_set (k x) (v x) m) m xs))"
  by (induction xs arbitrary: m) auto

lemma load_lists_ok:
  "\<forall>l \<in> set ls. normalizedCustomList l = Ok l \<Longrightarrow> load_lists ls m = Ok (foldl (\<lambda>m l. go_set (cl_id l) l m) m ls)"
  by (induction ls arbitrary: m) auto

lemma load_categories_ok:
  "\<forall>c \<in> set cs. normalizedCustomCategory c = Ok c \<and> map_of catalog (cc_id c) = None \<Longrightarrow>
   load_categories catalog cs m = Ok (foldl (\<lambda>m c. go_set (cc_id c) c m) m cs)"
  by (induction cs arbitrary: m) auto

definition verdict_at :: "(string \<times> (string \<times> MembershipState) list) list \<Rightarrow> string \<Rightarrow> string \<Rightarrow> MembershipState option" where
  "verdict_at m c = (case map_of m c of None \<Rightarrow> Map.empty | Some v \<Rightarrow> map_of v)"

lemma verdict_at_load:
  "verdict_at (load_membership m e) c l =
    (if c = me_category e \<and> l = me_list e then Some (me_state e) else verdict_at m c l)"
  by (simp add: verdict_at_def load_membership_def map_of_upsert split: option.splits)

lemma load_memberships:
  assumes "distinct (map (\<lambda>m. (me_category m, me_list m)) ms)"
  shows "verdict_at (foldl load_membership [] ms) c l = map_of (map (\<lambda>m. ((me_category m, me_list m), me_state m)) ms) (c, l)"
  using assms
proof (induction ms rule: rev_induct)
  case (snoc e ms)
  have n: "map_of (map (\<lambda>m. ((me_category m, me_list m), me_state m)) ms) (me_category e, me_list e) = None"
    using snoc.prems by (auto simp: map_of_eq_None_iff)
  show ?case
  proof (cases "c = me_category e \<and> l = me_list e")
    case True
    then show ?thesis using n by (simp add: verdict_at_load map_add_def)
  next
    case False
    then show ?thesis using snoc by (auto simp: verdict_at_load map_add_def split: option.splits)
  qed
qed (simp add: verdict_at_def)

lemma upsert_all:
  assumes "\<forall>e \<in> set m. P e" "\<forall>v. (k, v) \<in> set m \<longrightarrow> P (k, f (Some v))" "P (k, f None)"
  shows "\<forall>e \<in> set (upsert k f m). P e"
  using assms by (induction k f m rule: upsert.induct) auto

lemma load_memberships_typed:
  assumes "\<forall>e \<in> set ms. member_ok (me_category e) (me_list e, me_state e)"
  shows "members_ok (foldl load_membership [] ms)"
  using assms
proof (induction ms rule: rev_induct)
  case (snoc e ms)
  let ?P = "\<lambda>(c, vs). distinct (map fst vs) \<and> (\<forall>e \<in> set vs. member_ok c e)"
  define F where "F = foldl load_membership [] ms"
  have m: "members_ok F" using snoc by (simp add: F_def)
  have e: "member_ok (me_category e) (me_list e, me_state e)" using snoc.prems by simp
  have p: "?P (me_category e, go_set (me_list e) (me_state e) vs)" if "?P (me_category e, vs)" for vs
    using that e go_set_all [of vs "member_ok (me_category e)" "me_list e" "me_state e"] by simp
  have n: "?P (me_category e, go_set (me_list e) (me_state e) [])" using p [of "[]"] by simp
  have a: "\<forall>x \<in> set F. ?P x" using m by (simp add: members_ok_def)
  have s: "?P (me_category e, go_set (me_list e) (me_state e) v)" if "(me_category e, v) \<in> set F" for v
    using p [of v] a that by blast
  have "\<forall>x \<in> set (load_membership F e). ?P x"
    unfolding load_membership_def by (rule upsert_all [where P = ?P, OF a]) (use n s in simp_all)
  then have "members_ok (load_membership F e)"
    using m distinct_upsert [of F] by (simp add: members_ok_def load_membership_def)
  then show ?case by (simp add: F_def)
qed (simp add: members_ok_def)

definition normal_tuning :: "list_tuning \<Rightarrow> list_tuning" where
  "normal_tuning t = \<lparr>lt_disabled = StableStrings (lt_disabled t), lt_sources = sort_key cs_id (lt_sources t),
     lt_includes = StableStrings (lt_includes t), lt_excludes = StableStrings (lt_excludes t)\<rparr>"

lemma load_tunings_ok:
  "\<forall>(i, t) \<in> set ts. normalizedListTuning i t = Ok (normal_tuning t) \<Longrightarrow>
   load_tunings ts m = Ok (foldl (\<lambda>m x. go_set (fst x) (normal_tuning (snd x)) m) m ts)"
  by (induction ts arbitrary: m) auto

lemma stable_strict: "set xs = set ys \<Longrightarrow> sorted_wrt (<) ys \<Longrightarrow> StableStrings xs = ys"
  using sort_unique_eqI [of xs ys] sort_unique_strict [of ys] by (simp add: StableStrings_sort_unique)

lemma normalized_tuning:
  "is_ok (validate_slug i) \<Longrightarrow> \<forall>v \<in> set (lt_includes t) \<union> set (lt_excludes t). canonical_value v \<Longrightarrow>
   set (lt_includes t) \<inter> set (lt_excludes t) = {} \<Longrightarrow> normalizedListTuning i t = Ok (normal_tuning t)"
  unfolding normalizedListTuning_def canonical_value_iff normal_tuning_def by auto

lemma same_entries: "distinct (map fst xs) \<Longrightarrow> distinct (map fst ys) \<Longrightarrow> map_of ys = map_of xs \<Longrightarrow> set ys = set xs"
  using map_of_inject_set by metis

text \<open>A registry that shows the same abstract library has the same type.\<close>

lemma typed_by_view:
  assumes "well_typed lib" "library_view lib' = library_view lib" "same_catalog lib lib'" "tidy lib'"
    "members_ok (lb_membership lib')" "distinct (map fst (lb_tuning lib'))" "\<forall>(i, t) \<in> set (lb_tuning lib'). t \<noteq> no_tuning"
  shows "well_typed lib'"
proof -
  have c: "customs_ok (lb_custom lib)" "lists_ok (lb_lists lib)" "removed_ok (set (lb_removed lib))" "tunings_ok (lb_tuning lib)"
      "catalog_ok lib" using assms(1) by (simp_all add: well_typed_def)
  have v: "map_of (lb_custom lib') = map_of (lb_custom lib)" "map_of (lb_lists lib') = map_of (lb_lists lib)"
      "set (lb_removed lib') = set (lb_removed lib)" using assms(2) by (simp_all add: library_view_def)
  have d: "distinct (map fst (lb_custom lib'))" "distinct (map fst (lb_lists lib'))" using assms(4) by (simp_all add: tidy_def)
  have "length (lb_custom lib') = card (dom (map_of (lb_custom lib')))"
    using d(1) by (metis distinct_card dom_map_of_conv_image_fst length_map list.set_map)
  also have "\<dots> = length (lb_custom lib)"
    unfolding v using c(1) by (metis customs_ok_def distinct_card dom_map_of_conv_image_fst length_map list.set_map)
  finally have "customs_ok (lb_custom lib')"
    using c(1) d(1) same_entries [OF _ d(1) v(1)] unfolding customs_ok_def by simp
  moreover have "lists_ok (lb_lists lib')"
    using c(2) d(2) same_entries [OF _ d(2) v(2)] unfolding lists_ok_def by simp
  moreover have "tunings_ok (lb_tuning lib')"
  proof -
    have e: "listTuning lib' = listTuning lib"
      using listTuning_view [OF assms(4) well_typed_tidy [OF assms(1)] assms(2)] .
    have "tuning_ok i t" if "(i, t) \<in> set (lb_tuning lib')" for i t
    proof -
      have "map_of (lb_tuning lib') i = Some t" using that assms(6) by simp
      then have "listTuning lib' i = t" by (simp add: listTuning_def)
      moreover have "t \<noteq> no_tuning" using that assms(7) by blast
      ultimately show ?thesis using filed_tuning [OF assms(1), of i] e by simp
    qed
    then show ?thesis using assms(6) by (auto simp: tunings_ok_def)
  qed
  moreover have "catalog_ok lib'" using c(5) catalog_ok_cong [OF assms(3)] by simp
  ultimately show ?thesis using c(3) v(3) assms(5) by (simp add: well_typed_def)
qed

lemma length_same_set: "distinct xs \<Longrightarrow> distinct ys \<Longrightarrow> set xs = set ys \<Longrightarrow> length xs = length ys"
  by (metis distinct_card)

section \<open>Reading back what the store holds\<close>

definition tuned :: "(string \<times> list_tuning) list \<Rightarrow> string \<Rightarrow> list_tuning" where
  "tuned ts i = (case map_of ts i of None \<Rightarrow> no_tuning | Some t \<Rightarrow> t)"

definition tunings_show :: "(string \<times> list_tuning) list \<Rightarrow> stored \<Rightarrow> bool" where
  "tunings_show ts v \<longleftrightarrow> distinct (map fst ts) \<and>
     (\<forall>(i, t) \<in> set ts. t \<noteq> no_tuning \<and> distinct (map cs_id (lt_sources t)) \<and> (\<forall>f \<in> set (lt_sources t). cs_list f = i)) \<and>
     {(i, s). s \<in> set (lt_disabled (tuned ts i))} = so_disabled v \<and>
     {f. \<exists>i. f \<in> set (lt_sources (tuned ts i))} = so_sources v \<and>
     {(i, x). x \<in> set (lt_includes (tuned ts i))} = so_includes v \<and>
     {(i, x). x \<in> set (lt_excludes (tuned ts i))} = so_excludes v"

definition overlay_shows :: "category_overlay \<Rightarrow> stored \<Rightarrow> bool" where
  "overlay_shows ov v \<longleftrightarrow>
     distinct (map cc_id (ov_categories ov)) \<and> map_of (map (\<lambda>c. (cc_id c, c)) (ov_categories ov)) = so_custom v \<and>
     distinct (map (\<lambda>m. (me_category m, me_list m)) (ov_memberships ov)) \<and>
     (\<forall>c l. map_of (map (\<lambda>m. ((me_category m, me_list m), me_state m)) (ov_memberships ov)) (c, l) = so_verdicts v c l) \<and>
     set (map (\<lambda>r. (cr_kind r, cr_id r)) (ov_removals ov)) = so_removed v \<and> (\<forall>r \<in> set (ov_removals ov). cr_at r \<noteq> 0)"

definition lists_show :: "custom_list list \<Rightarrow> stored \<Rightarrow> bool" where
  "lists_show ls v \<longleftrightarrow> distinct (map cl_id ls) \<and> map_of (map (\<lambda>l. (cl_id l, l)) ls) = so_lists v"

locale library_reader = library_contract st holds sound
  for st :: "'w library_store" and holds :: "'w \<Rightarrow> stored" and sound :: "'w \<Rightarrow> bool" +
  fixes complete :: "'w \<Rightarrow> bool"
  assumes overlay_reads: "st_overlay st w = (ovr, w') \<Longrightarrow> sound w \<Longrightarrow>
      sound w' \<and> holds w' = holds w \<and> complete w' = complete w \<and> (\<forall>ov. ovr = Ok ov \<longrightarrow> overlay_shows ov (holds w))"
    and lists_read: "st_lists st w = (lsr, w') \<Longrightarrow> sound w \<Longrightarrow>
      sound w' \<and> holds w' = holds w \<and> complete w' = complete w \<and> (complete w \<longrightarrow> (\<forall>ls. lsr = Ok ls \<longrightarrow> lists_show ls (holds w)))"
    and tunings_read: "st_tunings st w = (tsr, w') \<Longrightarrow> sound w \<Longrightarrow>
      sound w' \<and> holds w' = holds w \<and> complete w' = complete w \<and> (complete w \<longrightarrow> (\<forall>ts. tsr = Ok ts \<longrightarrow> tunings_show ts (holds w)))"
begin

lemma sync_view:
  assumes "in_sync lib w"
  shows "so_custom (holds w) = map_of (lb_custom lib)" "so_verdicts (holds w) = (\<lambda>c. map_of (verdicts lib c))"
    "so_removed (holds w) = set (lb_removed lib)" "so_lists (holds w) = map_of (lb_lists lib)"
    "so_disabled (holds w) = {(i, s). s \<in> set (lt_disabled (listTuning lib i))}"
    "so_sources (holds w) = {f. \<exists>i. f \<in> set (lt_sources (listTuning lib i))}"
    "so_includes (holds w) = {(i, v). v \<in> set (lt_includes (listTuning lib i))}"
    "so_excludes (holds w) = {(i, v). v \<in> set (lt_excludes (listTuning lib i))}"
proof -
  have "holds w = library_view lib" using assms by (simp add: in_sync_def)
  then show "so_custom (holds w) = map_of (lb_custom lib)" "so_verdicts (holds w) = (\<lambda>c. map_of (verdicts lib c))"
    "so_removed (holds w) = set (lb_removed lib)" "so_lists (holds w) = map_of (lb_lists lib)"
    "so_disabled (holds w) = {(i, s). s \<in> set (lt_disabled (listTuning lib i))}"
    "so_sources (holds w) = {f. \<exists>i. f \<in> set (lt_sources (listTuning lib i))}"
    "so_includes (holds w) = {(i, v). v \<in> set (lt_includes (listTuning lib i))}"
    "so_excludes (holds w) = {(i, v). v \<in> set (lt_excludes (listTuning lib i))}"
    by (simp_all add: library_view_def)
qed

lemma lists_loaded:
  assumes "in_sync lib w" "lists_show ls (holds w)"
  shows "\<exists>m. load_lists ls [] = Ok m \<and> distinct (map fst m) \<and> map_of m = map_of (lb_lists lib)"
proof -
  have v: "map_of (map (\<lambda>l. (cl_id l, l)) ls) = map_of (lb_lists lib)" and d: "distinct (map cl_id ls)"
    using assms by (auto simp: sync_view lists_show_def)
  have lo: "lists_ok (lb_lists lib)" using assms(1) by (simp add: in_sync_def well_typed_def)
  have n: "normalizedCustomList l = Ok l" if "l \<in> set ls" for l
  proof -
    have "map_of (map (\<lambda>l. (cl_id l, l)) ls) (cl_id l) = Some l"
      using d that by (intro map_of_is_SomeI) (auto simp: comp_def)
    then show ?thesis using lists_okD(2) [OF lo] v by metis
  qed
  let ?m = "foldl (\<lambda>m l. go_set (cl_id l) l m) [] ls"
  have "map_of ?m i = map_of (lb_lists lib) i" for i
    using foldl_go_set [OF d, of "\<lambda>l. l" "[]" i] v by (simp split: option.splits)
  moreover have "distinct (map fst ?m)" by (rule foldl_go_set_distinct) simp
  ultimately show ?thesis using load_lists_ok [of ls "[]"] n by blast
qed

lemma overlay_loaded:
  assumes "in_sync lib w" "overlay_shows ov (holds w)"
  shows "load_categories (lb_categories lib) (ov_categories ov) [] = Ok (foldl (\<lambda>m c. go_set (cc_id c) c m) [] (ov_categories ov))"
    "length (ov_categories ov) \<le> maxCustomCategories"
    "map_of (foldl (\<lambda>m c. go_set (cc_id c) c m) [] (ov_categories ov)) = map_of (lb_custom lib)"
    "list_all validStoredMembership (ov_memberships ov)" "list_all validStoredRemoval (ov_removals ov)"
    "members_ok (foldl load_membership [] (ov_memberships ov))"
    "verdict_at (foldl load_membership [] (ov_memberships ov)) c = map_of (verdicts lib c)"
proof -
  have wt: "well_typed lib" using assms(1) by (simp add: in_sync_def)
  have v: "map_of (map (\<lambda>c. (cc_id c, c)) (ov_categories ov)) = map_of (lb_custom lib)"
      "\<And>c l. map_of (map (\<lambda>m. ((me_category m, me_list m), me_state m)) (ov_memberships ov)) (c, l) = map_of (verdicts lib c) l"
      "set (map (\<lambda>r. (cr_kind r, cr_id r)) (ov_removals ov)) = set (lb_removed lib)"
      "\<forall>r \<in> set (ov_removals ov). cr_at r \<noteq> 0"
    and d: "distinct (map cc_id (ov_categories ov))" "distinct (map (\<lambda>m. (me_category m, me_list m)) (ov_memberships ov))"
    using assms(2) unfolding overlay_shows_def sync_view [OF assms(1)] by blast+
  have co: "customs_ok (lb_custom lib)" using wt by (simp add: well_typed_def)
  have n: "normalizedCustomCategory x = Ok x \<and> map_of (lb_categories lib) (cc_id x) = None" if "x \<in> set (ov_categories ov)" for x
  proof -
    have "map_of (map (\<lambda>c. (cc_id c, c)) (ov_categories ov)) (cc_id x) = Some x"
      using d(1) that by (intro map_of_is_SomeI) (auto simp: comp_def)
    then show ?thesis using customs_okD(2) [OF co] shipped_not_custom [OF wt] v(1) by (metis option.distinct(1))
  qed
  then show "load_categories (lb_categories lib) (ov_categories ov) [] = Ok (foldl (\<lambda>m c. go_set (cc_id c) c m) [] (ov_categories ov))"
    by (intro load_categories_ok) blast
  show "map_of (foldl (\<lambda>m c. go_set (cc_id c) c m) [] (ov_categories ov)) = map_of (lb_custom lib)"
    using foldl_go_set [OF d(1), of "\<lambda>c. c" "[]"] v(1) by (auto simp: fun_eq_iff split: option.splits)
  have "set (map (\<lambda>c. (cc_id c, c)) (ov_categories ov)) = set (lb_custom lib)"
    using co d(1) v(1) by (intro same_entries) (simp_all add: customs_ok_def comp_def)
  then have "length (map (\<lambda>c. (cc_id c, c)) (ov_categories ov)) = length (lb_custom lib)"
    using co d(1) by (intro length_same_set) (auto simp: customs_ok_def distinct_map inj_on_def)
  then show "length (ov_categories ov) \<le> maxCustomCategories" using co by (simp add: customs_ok_def)
  have m: "member_ok (me_category e) (me_list e, me_state e)" if "e \<in> set (ov_memberships ov)" for e
  proof -
    have "map_of (map (\<lambda>m. ((me_category m, me_list m), me_state m)) (ov_memberships ov)) (me_category e, me_list e) = Some (me_state e)"
      using d(2) that by (intro map_of_is_SomeI) (auto simp: comp_def)
    then show ?thesis using verdicts_ok [of lib "me_category e"] wt v(2) by (auto simp: well_typed_def dest!: map_of_SomeD)
  qed
  have "validStoredMembership e" if "e \<in> set (ov_memberships ov)" for e
    using m [OF that] by (auto simp: validStoredMembership_def member_ok_def CustomCategoryIDPrefix_def)
  then show "list_all validStoredMembership (ov_memberships ov)" by (simp add: list_all_iff)
  show "members_ok (foldl load_membership [] (ov_memberships ov))" using m by (intro load_memberships_typed) blast
  show "verdict_at (foldl load_membership [] (ov_memberships ov)) c = map_of (verdicts lib c)"
    using load_memberships [OF d(2)] v(2) by (simp add: fun_eq_iff)
  have "removed_ok (set (map (\<lambda>r. (cr_kind r, cr_id r)) (ov_removals ov)))" using wt v(3) by (simp add: well_typed_def)
  then show "list_all validStoredRemoval (ov_removals ov)"
    using v(4) by (auto simp: list_all_iff validStoredRemoval_def removed_ok_def CustomCategoryIDPrefix_def split: RemovalKind.splits)
qed

lemma tuned_sets:
  assumes "in_sync lib w" "tunings_show ts (holds w)"
  shows "set (lt_disabled (tuned ts i)) = set (lt_disabled (listTuning lib i))"
    "set (lt_sources (tuned ts i)) = set (lt_sources (listTuning lib i))"
    "set (lt_includes (tuned ts i)) = set (lt_includes (listTuning lib i))"
    "set (lt_excludes (tuned ts i)) = set (lt_excludes (listTuning lib i))"
proof -
  have wt: "well_typed lib" using assms(1) by (simp add: in_sync_def)
  have v: "{(i, s). s \<in> set (lt_disabled (tuned ts i))} = {(i, s). s \<in> set (lt_disabled (listTuning lib i))}"
      "{f. \<exists>i. f \<in> set (lt_sources (tuned ts i))} = {f. \<exists>i. f \<in> set (lt_sources (listTuning lib i))}"
      "{(i, s). s \<in> set (lt_includes (tuned ts i))} = {(i, s). s \<in> set (lt_includes (listTuning lib i))}"
      "{(i, s). s \<in> set (lt_excludes (tuned ts i))} = {(i, s). s \<in> set (lt_excludes (listTuning lib i))}"
    using assms(2) unfolding tunings_show_def sync_view [OF assms(1)] by blast+
  show "set (lt_disabled (tuned ts i)) = set (lt_disabled (listTuning lib i))" using v(1) by auto
  show "set (lt_includes (tuned ts i)) = set (lt_includes (listTuning lib i))" using v(3) by auto
  show "set (lt_excludes (tuned ts i)) = set (lt_excludes (listTuning lib i))" using v(4) by auto
  have o: "cs_list f = j" if "f \<in> set (lt_sources (tuned ts j))" for f j
    using that assms(2) by (auto simp: tuned_def tunings_show_def no_tuning_def split: option.splits dest!: map_of_SomeD)
  show "set (lt_sources (tuned ts i)) = set (lt_sources (listTuning lib i))"
  proof (intro set_eqI iffI)
    fix f assume "f \<in> set (lt_sources (tuned ts i))"
    then show "f \<in> set (lt_sources (listTuning lib i))" using v(2) o filed_source [OF wt] by blast
  next
    fix f assume "f \<in> set (lt_sources (listTuning lib i))"
    then show "f \<in> set (lt_sources (tuned ts i))" using v(2) o filed_source [OF wt] by blast
  qed
qed

lemma tunings_loaded:
  assumes "in_sync lib w" "tunings_show ts (holds w)"
  defines "m \<equiv> foldl (\<lambda>m x. go_set (fst x) (normal_tuning (snd x)) m) [] ts"
  shows "load_tunings ts [] = Ok m" "distinct (map fst m)" "tuned m i = listTuning lib i" "(i, t) \<in> set m \<Longrightarrow> t \<noteq> no_tuning"
proof -
  have wt: "well_typed lib" using assms(1) by (simp add: in_sync_def)
  have d: "distinct (map fst ts)" "\<forall>(i, t) \<in> set ts. t \<noteq> no_tuning \<and> distinct (map cs_id (lt_sources t))"
    using assms(2) by (auto simp: tunings_show_def)
  note same = tuned_sets [OF assms(1,2)]
  have n: "normalizedListTuning i t = Ok (normal_tuning t)" if "(i, t) \<in> set ts" for i t
  proof -
    have t: "tuned ts i = t" using that d(1) by (simp add: tuned_def)
    have "t \<noteq> no_tuning" using that d(2) by blast
    then have "lt_disabled t \<noteq> [] \<or> lt_sources t \<noteq> [] \<or> lt_includes t \<noteq> [] \<or> lt_excludes t \<noteq> []"
      by (cases t) (auto simp: no_tuning_def)
    then have "listTuning lib i \<noteq> no_tuning" using same [of i] t by (auto simp: no_tuning_def)
    then have o: "tuning_ok i (listTuning lib i)" by (rule filed_tuning [OF wt])
    show ?thesis
      using o same(3,4) [of i] t unfolding tuning_ok_iff by (intro normalized_tuning) auto
  qed
  show "load_tunings ts [] = Ok m" unfolding m_def using n by (intro load_tunings_ok) blast
  show dm: "distinct (map fst m)" unfolding m_def by (rule foldl_go_set_distinct) simp
  have mm: "map_of m j = map_option normal_tuning (map_of ts j)" for j
  proof -
    have "map_of (map (\<lambda>x. (fst x, normal_tuning (snd x))) ts) j = map_option normal_tuning (map_of ts j)"
      by (induction ts) auto
    then show ?thesis
      using foldl_go_set [of fst ts "\<lambda>x. normal_tuning (snd x)" "[]" j] d(1) unfolding m_def
      by (simp add: map_of_map split: option.splits)
  qed
  have nn: "normal_tuning no_tuning = no_tuning" by (simp add: normal_tuning_def no_tuning_def StableStrings_sort_unique)
  then have tm: "tuned m j = normal_tuning (tuned ts j)" for j
    using mm by (simp add: tuned_def split: option.splits)
  have t0: "tidy_tuning j (listTuning lib j)" for j using well_typed_tidy [OF wt] by (simp add: tidy_def)
  have dj: "distinct (map cs_id (lt_sources (tuned ts j)))" for j
    using d by (auto simp: tuned_def no_tuning_def split: option.splits dest!: map_of_SomeD)
  have eq: "normal_tuning (tuned ts j) = listTuning lib j" for j
  proof -
    have a: "lt_disabled (normal_tuning (tuned ts j)) = lt_disabled (listTuning lib j)"
        "lt_includes (normal_tuning (tuned ts j)) = lt_includes (listTuning lib j)"
        "lt_excludes (normal_tuning (tuned ts j)) = lt_excludes (listTuning lib j)"
      using same [of j] t0 [of j] by (auto simp: normal_tuning_def tidy_tuning_def intro!: stable_strict)
    have s: "lt_sources (normal_tuning (tuned ts j)) = lt_sources (listTuning lib j)"
      using same(2) [of j] t0 [of j] dj [of j]
      by (intro strict_keys_eq [of cs_id]) (auto simp: normal_tuning_def tidy_tuning_def strict_sorted_iff distinct_map)
    show ?thesis using a s by simp
  qed
  then show "tuned m i = listTuning lib i" using tm by simp
  show "t \<noteq> no_tuning" if "(i, t) \<in> set m"
  proof -
    have "map_of m i = Some t" using that dm by simp
    then obtain u where u: "map_of ts i = Some u" "t = normal_tuning u" using mm by auto
    then have "u \<noteq> no_tuning" using d(2) by (auto dest!: map_of_SomeD)
    then have "lt_disabled u \<noteq> [] \<or> lt_sources u \<noteq> [] \<or> lt_includes u \<noteq> [] \<or> lt_excludes u \<noteq> []"
      by (cases u) (auto simp: no_tuning_def)
    moreover have "set (lt_disabled t) = set (lt_disabled u)" "set (lt_sources t) = set (lt_sources u)"
        "set (lt_includes t) = set (lt_includes u)" "set (lt_excludes t) = set (lt_excludes u)"
      by (simp_all add: u(2) normal_tuning_def StableStrings_sort_unique)
    ultimately show ?thesis by (auto simp: no_tuning_def)
  qed
qed

text \<open>
  A service started on a complete store has the library another service in step with the store has; it fails
  only when the store does not answer, or when there are more removals than it accepts.
\<close>

lemma lists_step:
  assumes "in_sync lib w" "complete w"
  obtains (failed) e w1 where "st_lists st w = (Err e, w1)" "LoadCustomLists st l0 w = ((Some e, l0), w1)"
  | (loaded) m w1 where "LoadCustomLists st l0 w = ((None, l0\<lparr>lb_lists := m\<rparr>), w1)"
      "distinct (map fst m)" "map_of m = map_of (lb_lists lib)" "in_sync lib w1" "complete w1"
proof -
  obtain lsr w1 where r: "st_lists st w = (lsr, w1)" by (cases "st_lists st w")
  note a = lists_read [OF r]
  have i: "in_sync lib w1" "complete w1" using a assms by (simp_all add: in_sync_def)
  show thesis
  proof (cases lsr)
    case (Inl e)
    then show thesis using failed r by (simp add: LoadCustomLists_def)
  next
    case (Inr ls)
    then have "lists_show ls (holds w)" using a assms by (simp add: in_sync_def)
    from lists_loaded [OF assms(1) this] show thesis using loaded r Inr i by (auto simp: LoadCustomLists_def)
  qed
qed

lemma tunings_step:
  assumes "in_sync lib w" "complete w"
  obtains (failed) e w1 where "st_tunings st w = (Err e, w1)" "LoadListTuning st l0 w = ((Some e, l0), w1)"
  | (loaded) m w1 where "LoadListTuning st l0 w = ((None, l0\<lparr>lb_tuning := m\<rparr>), w1)"
      "distinct (map fst m)" "tuned m = listTuning lib" "\<forall>(i, t) \<in> set m. t \<noteq> no_tuning" "in_sync lib w1"
proof -
  obtain tsr w1 where r: "st_tunings st w = (tsr, w1)" by (cases "st_tunings st w")
  note a = tunings_read [OF r]
  have i: "in_sync lib w1" using a assms by (simp add: in_sync_def)
  show thesis
  proof (cases tsr)
    case (Inl e)
    then show thesis using failed r by (simp add: LoadListTuning_def)
  next
    case (Inr ts)
    then have "tunings_show ts (holds w)" using a assms by (simp add: in_sync_def)
    note t = tunings_loaded [OF assms(1) this]
    then show thesis using loaded [OF _ t(2) ext [OF t(3)] _ i] r Inr by (auto simp: LoadListTuning_def)
  qed
qed

lemma overlay_step:
  assumes "in_sync lib w" "lb_categories l0 = lb_categories lib"
  obtains (failed) e w1 where "st_overlay st w = (Err e, w1)" "LoadCategories st l0 w = ((Some e, l0), w1)"
  | (crowded) w1 where "LoadCategories st l0 w = ((Some (ErrInvalid ''stored removals exceed their bound''), l0), w1)"
  | (loaded) m ms rs w1 where "LoadCategories st l0 w = ((None, l0\<lparr>lb_custom := m, lb_membership := ms, lb_removed := rs\<rparr>), w1)"
      "distinct (map fst m)" "map_of m = map_of (lb_custom lib)" "members_ok ms"
      "verdict_at ms = (\<lambda>c. map_of (verdicts lib c))" "set rs = set (lb_removed lib)" "in_sync lib w1"
proof -
  obtain ovr w1 where r: "st_overlay st w = (ovr, w1)" by (cases "st_overlay st w")
  note a = overlay_reads [OF r]
  have i: "in_sync lib w1" using a assms(1) by (simp add: in_sync_def)
  show thesis
  proof (cases ovr)
    case (Inl e)
    then show thesis using failed r by (simp add: LoadCategories_def)
  next
    case (Inr ov)
    then have so: "overlay_shows ov (holds w)" using a assms(1) by (simp add: in_sync_def)
    note o = overlay_loaded [OF assms(1) so]
    have rs: "set (remdups (map (\<lambda>r. (cr_kind r, cr_id r)) (ov_removals ov))) = set (lb_removed lib)"
      using so unfolding overlay_shows_def sync_view [OF assms(1)] by simp
    have d: "distinct (map fst (foldl (\<lambda>m c. go_set (cc_id c) c m) [] (ov_categories ov)))"
      by (rule foldl_go_set_distinct) simp
    show thesis
    proof (cases "maxCatalogRemovals < length (ov_removals ov)")
      case True
      then show thesis using crowded r Inr o(1,2,4) by (simp add: LoadCategories_def assms(2))
    next
      case False
      then show thesis
        using loaded [OF _ d o(3) o(6) ext [OF o(7)] rs i] r Inr o(1,2,4,5) by (simp add: LoadCategories_def assms(2))
    qed
  qed
qed

lemma startup_kept:
  assumes "in_sync lib w" "complete w" "same_catalog lib l0" "startup st l0 w = ((None, l1), w')"
  shows "kept lib l1 w' \<and> library_view l1 = library_view lib"
proof -
  obtain m1 w1 where s1: "LoadCustomLists st l0 w = ((None, l0\<lparr>lb_lists := m1\<rparr>), w1)"
      "distinct (map fst m1)" "map_of m1 = map_of (lb_lists lib)" "in_sync lib w1" "complete w1"
    using assms(4) by (cases rule: lists_step [OF assms(1,2), of l0]) (auto simp: startup_def)
  obtain m2 w2 where s2: "LoadListTuning st (l0\<lparr>lb_lists := m1\<rparr>) w1 = ((None, l0\<lparr>lb_lists := m1, lb_tuning := m2\<rparr>), w2)"
      "distinct (map fst m2)" "tuned m2 = listTuning lib" "\<forall>(i, t) \<in> set m2. t \<noteq> no_tuning" "in_sync lib w2"
    using assms(4) s1(1) by (cases rule: tunings_step [OF s1(4,5), of "l0\<lparr>lb_lists := m1\<rparr>"]) (auto simp: startup_def)
  have c: "lb_categories (l0\<lparr>lb_lists := m1, lb_tuning := m2\<rparr>) = lb_categories lib" using assms(3) by (simp add: same_catalog_def)
  obtain m3 m4 m5 where l1: "l1 = l0\<lparr>lb_lists := m1, lb_tuning := m2, lb_custom := m3, lb_membership := m4, lb_removed := m5\<rparr>"
    and s3: "distinct (map fst m3)" "map_of m3 = map_of (lb_custom lib)" "members_ok m4"
      "verdict_at m4 = (\<lambda>c. map_of (verdicts lib c))" "set m5 = set (lb_removed lib)" "in_sync lib w'"
    using assms(4) s1(1) s2(1) by (cases rule: overlay_step [OF s2(5) c]) (auto simp: startup_def)
  have vt: "listTuning l1 = listTuning lib" using s2(3) by (simp add: fun_eq_iff listTuning_def tuned_def l1)
  have vv: "map_of (verdicts l1 k) = map_of (verdicts lib k)" for k
    using fun_cong [OF s3(4), of k] by (simp add: verdict_at_def verdicts_def l1 split: option.splits)
  have view: "library_view l1 = library_view lib" using s1(3) s3(2,5) vt vv by (simp add: library_view_def l1)
  have sc: "same_catalog lib l1" using assms(3) by (simp add: same_catalog_def l1)
  have wt: "well_typed lib" using assms(1) by (simp add: in_sync_def)
  have mo: "members_ok (lb_membership l1)" using s3(3) by (simp add: l1)
  have td: "tidy l1"
    using s1(2) s3(1) verdicts_ok [OF mo] well_typed_tidy [OF wt] vt by (simp add: tidy_def l1)
  have "well_typed l1" by (rule typed_by_view [OF wt view sc td mo]) (use s2(2,4) in \<open>auto simp: l1\<close>)
  then show ?thesis using view sc s3(6) by (simp add: kept_def in_sync_def)
qed

lemma startup_error:
  assumes "in_sync lib w" "complete w" "same_catalog lib l0" "startup st l0 w = ((Some e, l1), w')"
  shows "(\<exists>u u'. st_lists st u = (Err e, u') \<or> st_tunings st u = (Err e, u') \<or> st_overlay st u = (Err e, u')) \<or>
    e = ErrInvalid ''stored removals exceed their bound''"
proof (cases rule: lists_step [OF assms(1,2), of l0])
  case (1 e1 w1)
  then show ?thesis using assms(4) by (auto simp: startup_def)
next
  case one: (2 m w1)
  show ?thesis
  proof (cases rule: tunings_step [OF one(4,5), of "l0\<lparr>lb_lists := m\<rparr>"])
    case (1 e1 w1)
    then show ?thesis using assms(4) one(1) by (auto simp: startup_def)
  next
    case two: (2 m2 w2)
    have c: "lb_categories (l0\<lparr>lb_lists := m, lb_tuning := m2\<rparr>) = lb_categories lib" using assms(3) by (simp add: same_catalog_def)
    show ?thesis
      using assms(4) one(1) two(1) by (cases rule: overlay_step [OF two(5) c]) (auto simp: startup_def)
  qed
qed

end

end
