(* ===== verification/SqliteLaws.thy ===== *)
theory SqliteLaws
  imports LibraryReload
begin

text \<open>
  The tables keep the contract of the service: \<open>db_view\<close> reads them as an abstract library, every successful write is
  shown to be its effect on it and every failed one (a feed's removal apart) none, and the reads show it in full
  within the sizes of \<open>db_complete\<close>. The interpretation \<open>sq\<close> carries the results of the contract over to
  \<open>sqlite_store\<close>.
\<close>

section \<open>The tables as an abstract library\<close>

definition cat_key :: "membership \<Rightarrow> string \<times> string" where
  "cat_key m = (me_category m, me_list m)"

definition verdict_key :: "string \<times> string \<times> DomainVerdict \<Rightarrow> string \<times> string" where
  "verdict_key r = (fst r, fst (snd r))"

definition by_key :: "('a \<Rightarrow> 'k) \<Rightarrow> ('a \<Rightarrow> 'v) \<Rightarrow> 'a list \<Rightarrow> 'k \<Rightarrow> 'v option" where
  "by_key k v xs = map_of (map (\<lambda>x. (k x, v x)) xs)"

definition db_view :: "database \<Rightarrow> stored" where
  "db_view db =
     \<lparr>so_custom = by_key cc_id (\<lambda>c. c) (db_categories db),
      so_verdicts = (\<lambda>c l. by_key cat_key me_state (db_memberships db) (c, l)),
      so_removed = set (map (\<lambda>r. (cr_kind r, cr_id r)) (db_removals db)),
      so_lists = by_key cl_id (\<lambda>l. l) (db_lists db),
      so_disabled = set (db_disabled db), so_sources = set (db_sources db),
      so_includes = {(l, v). (l, v, DomainVerdictInclude) \<in> set (db_verdicts db)},
      so_excludes = {(l, v). (l, v, DomainVerdictExclude) \<in> set (db_verdicts db)}\<rparr>"

definition db_ok :: "database \<Rightarrow> bool" where
  "db_ok db \<longleftrightarrow> distinct (map cc_id (db_categories db)) \<and>
     (\<forall>c \<in> set (db_categories db). has_prefix (cc_id c) CustomCategoryIDPrefix) \<and>
     distinct (map cat_key (db_memberships db)) \<and>
     (\<forall>m \<in> set (db_memberships db). has_prefix (me_category m) CustomCategoryIDPrefix \<longrightarrow>
        me_category m \<in> cc_id ` set (db_categories db)) \<and>
     distinct (map (\<lambda>r. (cr_kind r, cr_id r)) (db_removals db)) \<and> (\<forall>r \<in> set (db_removals db). cr_at r \<noteq> 0) \<and>
     distinct (map cl_id (db_lists db)) \<and> (\<forall>l \<in> set (db_lists db). has_prefix (cl_id l) CustomCategoryIDPrefix) \<and>
     distinct (db_disabled db) \<and> distinct (map cs_id (db_sources db)) \<and>
     distinct (map verdict_key (db_verdicts db)) \<and>
     (\<forall>r \<in> set (db_verdicts db). snd (snd r) \<in> {DomainVerdictInclude, DomainVerdictExclude})"

text \<open>Within these sizes no read is cut by its \<open>LIMIT\<close>.\<close>

definition db_complete :: "database \<Rightarrow> bool" where
  "db_complete db \<longleftrightarrow> length (db_lists db) \<le> customListLimit \<and> length (db_disabled db) \<le> tuningLimit \<and>
     length (db_sources db) \<le> tuningLimit \<and> length (db_verdicts db) \<le> verdictLimit"

lemma by_key_Some: "distinct (map k xs) \<Longrightarrow> by_key k v xs i = Some y \<longleftrightarrow> (\<exists>x \<in> set xs. k x = i \<and> v x = y)"
  unfolding by_key_def by (subst map_of_eq_Some_iff) (auto simp: comp_def image_iff)

lemma by_key_None: "by_key k v xs i = None \<longleftrightarrow> i \<notin> k ` set xs"
  by (auto simp: by_key_def map_of_eq_None_iff image_image)

lemma by_key_filter: "by_key k v (filter (\<lambda>x. P (k x)) xs) i = (if P i then by_key k v xs i else None)"
  by (induction xs) (auto simp: by_key_def)

lemma by_key_snoc: "k x \<notin> k ` set xs \<Longrightarrow> by_key k v (xs @ [x]) = (by_key k v xs)(k x \<mapsto> v x)"
  by (induction xs) (auto simp: by_key_def fun_eq_iff)

lemma by_key_new: "k ` set xs \<inter> k ` set ys = {} \<Longrightarrow>
   by_key k v (xs @ ys) i = (case by_key k v ys i of None \<Rightarrow> by_key k v xs i | Some y \<Rightarrow> Some y)"
proof (cases "i \<in> k ` set ys")
  case True
  assume "k ` set xs \<inter> k ` set ys = {}"
  with True have "by_key k v xs i = None" by (auto simp: by_key_None)
  then show ?thesis by (simp add: by_key_def map_add_def split: option.splits)
next
  case False
  then have "by_key k v ys i = None" by (simp add: by_key_None)
  then show ?thesis by (simp add: by_key_def map_add_def split: option.splits)
qed

lemma by_key_update:
  "\<forall>x \<in> set xs. k (f x) = k x \<Longrightarrow>
   by_key k (\<lambda>x. x) (map (\<lambda>x. if k x = i then f x else x) xs) j =
     (if j = i then map_option f (by_key k (\<lambda>x. x) xs i) else by_key k (\<lambda>x. x) xs j)"
  by (induction xs) (auto simp: by_key_def)

lemma by_key_perm: "distinct (map k xs) \<Longrightarrow> set ys = set xs \<Longrightarrow> distinct (map k ys) \<Longrightarrow> by_key k v ys = by_key k v xs"
  unfolding by_key_def by (subst map_of_inject_set) (auto simp: comp_def)

lemma transact_Ok: "transact env body w = (None, w') \<Longrightarrow> body (fst w) = Ok (fst w')"
  by (auto simp: transact_def split: prod.splits option.splits sum.splits)

lemma transact_Err: "transact env body w = (Some e, w') \<Longrightarrow> fst w' = fst w"
  by (auto simp: transact_def split: prod.splits option.splits sum.splits)

lemma query_db: "query env body w = (r, w') \<Longrightarrow> fst w' = fst w \<and> (\<forall>x. r = Ok x \<longrightarrow> body (fst w) = Ok x)"
  by (auto simp: query_def split: prod.splits option.splits)

lemma read_full_bytes: "read_full env n e = (Ok bs, e') \<Longrightarrow> length bs = n \<and> (\<forall>b \<in> set bs. b < 256)"
proof (induction n arbitrary: e bs)
  case (Suc n)
  have "unat (b :: 8 word) < 2 ^ LENGTH(8)" for b by (rule unsigned_less)
  then have "unat (b :: 8 word) < 256" for b by simp
  then show ?case using Suc by (auto split: prod.splits sum.splits)
qed simp

section \<open>Every write is its effect\<close>

lemma writeMemberships_Ok:
  "writeMemberships ms db = Ok db' \<Longrightarrow>
     db' = db\<lparr>db_memberships := db_memberships db @ ms\<rparr> \<and>
     (distinct (map cat_key (db_memberships db)) \<longrightarrow> distinct (map cat_key (db_memberships db @ ms)))"
proof (induction ms arbitrary: db)
  case (Cons m ms)
  have n: "cat_key m \<notin> cat_key ` set (db_memberships db)" and
    "writeMemberships ms (db\<lparr>db_memberships := db_memberships db @ [m]\<rparr>) = Ok db'"
    using Cons.prems by (auto simp: cat_key_def image_iff split: if_splits)
  from Cons.IH [OF this(2)] n show ?case by simp
qed simp

lemma stated_rows:
  assumes "validMemberships c ms"
  shows "by_key cat_key me_state ms (d, l) = (if d = c then stated ms l else None)"
proof -
  have d: "distinct (map me_list ms)" and c: "\<forall>m \<in> set ms. me_category m = c"
    using assms by (auto simp: validMemberships_def)
  have dk: "distinct (map cat_key ms)" using d by (auto simp: distinct_map cat_key_def inj_on_def)
  have "stated ms l = by_key me_list me_state ms l"
    using foldl_go_set [OF d, of me_state "[]" l] by (simp add: stated_def membershipIndex_def by_key_def split: option.splits)
  moreover have "by_key cat_key me_state ms (c, l) = by_key me_list me_state ms l"
    using c by (induction ms) (auto simp: by_key_def cat_key_def)
  moreover have "by_key cat_key me_state ms (d, l) = None" if "d \<noteq> c"
    using c that by (auto simp: by_key_None cat_key_def)
  ultimately show ?thesis by simp
qed

lemma create_category_law:
  assumes "db_ok db" "create_category_rows c ms db = Ok db'" "validCustomCategory c" "validMemberships (cc_id c) ms"
  shows "db_ok db' \<and> effect_fits (AddCategory c ms) (db_view db) \<and> db_view db' = apply_effect (AddCategory c ms) (db_view db)"
proof -
  have n: "cc_id c \<notin> cc_id ` set (db_categories db)"
    and w: "writeMemberships ms (db\<lparr>db_categories := db_categories db @ [c]\<rparr>) = Ok db'"
    using assms(2) by (auto simp: create_category_rows_def split: if_splits)
  note d = writeMemberships_Ok [OF w]
  have p: "has_prefix (cc_id c) CustomCategoryIDPrefix" using assms(3) by (simp add: validCustomCategory_def)
  have mc: "\<forall>m \<in> set ms. me_category m = cc_id c" using assms(4) by (simp add: validMemberships_def)
  have ok: "db_ok db'" using assms(1) d n p mc by (auto simp: db_ok_def)
  have none: "me_category m \<noteq> cc_id c" if "m \<in> set (db_memberships db)" for m
    using assms(1) that n p unfolding db_ok_def by metis
  have disj: "cat_key ` set (db_memberships db) \<inter> cat_key ` set ms = {}"
    using none mc by (auto simp: cat_key_def)
  have old: "by_key cat_key me_state (db_memberships db) (cc_id c, l) = None" for l
    using none by (force simp: by_key_None cat_key_def)
  have "so_verdicts (db_view db') x l = ((so_verdicts (db_view db))(cc_id c := stated ms)) x l" for x l
    using d by_key_new [OF disj, of me_state "(x, l)"] stated_rows [OF assms(4)] old
    by (simp add: db_view_def split: option.splits)
  moreover have "effect_fits (AddCategory c ms) (db_view db)" using n by (simp add: db_view_def by_key_None)
  ultimately show ?thesis using ok d n by (simp add: db_view_def by_key_snoc fun_eq_iff)
qed

lemma one_row: "length (filter (\<lambda>c. k c = i) xs) = 1 \<Longrightarrow> i \<in> k ` set xs"
  by (auto simp: length_Suc_conv filter_eq_Cons_iff)

lemma retitle_law:
  assumes "db_ok db"
  shows "db_ok (retitle cw db)" "db_memberships (retitle cw db) = db_memberships db"
    "so_custom (db_view (retitle cw db)) = (so_custom (db_view db))(cw_id cw := map_option (retitled cw) (so_custom (db_view db) (cw_id cw)))"
    "db_view (retitle cw db) = (db_view db)\<lparr>so_custom := so_custom (db_view (retitle cw db))\<rparr>"
    "cc_id ` set (db_categories (retitle cw db)) = cc_id ` set (db_categories db)"
proof -
  have m: "map cc_id (db_categories (retitle cw db)) = map cc_id (db_categories db)" by (auto simp: retitle_def)
  then show i: "cc_id ` set (db_categories (retitle cw db)) = cc_id ` set (db_categories db)" by (metis list.set_map)
  have "\<forall>c \<in> set (db_categories (retitle cw db)). has_prefix (cc_id c) CustomCategoryIDPrefix"
    using assms i by (metis (no_types, lifting) db_ok_def image_iff)
  moreover have o: "db_memberships (retitle cw db) = db_memberships db" "db_removals (retitle cw db) = db_removals db"
      "db_lists (retitle cw db) = db_lists db" "db_disabled (retitle cw db) = db_disabled db"
      "db_sources (retitle cw db) = db_sources db" "db_verdicts (retitle cw db) = db_verdicts db"
    by (simp_all add: retitle_def)
  ultimately show "db_ok (retitle cw db)" using assms unfolding db_ok_def o m i by blast
  show "db_memberships (retitle cw db) = db_memberships db" by (simp add: retitle_def)
  have r: "db_categories (retitle cw db) = map (\<lambda>x. if cc_id x = cw_id cw then retitled cw x else x) (db_categories db)"
    by (simp add: retitle_def retitled_def)
  show "so_custom (db_view (retitle cw db)) = (so_custom (db_view db))(cw_id cw := map_option (retitled cw) (so_custom (db_view db) (cw_id cw)))"
    using by_key_update [of "db_categories db" cc_id "retitled cw" "cw_id cw"] r
    by (auto simp: db_view_def retitled_def)
  show "db_view (retitle cw db) = (db_view db)\<lparr>so_custom := so_custom (db_view (retitle cw db))\<rparr>"
    by (simp add: db_view_def retitle_def)
qed

lemma replace_memberships_law:
  assumes "db_ok db" "validMemberships c ms" "has_prefix c CustomCategoryIDPrefix \<longrightarrow> c \<in> cc_id ` set (db_categories db)"
    "writeMemberships ms (delete_memberships (\<lambda>m. me_category m = c) db) = Ok db'"
  shows "db_ok db' \<and> db_view db' = (db_view db)\<lparr>so_verdicts := (so_verdicts (db_view db))(c := stated ms)\<rparr>"
proof -
  note d = writeMemberships_Ok [OF assms(4)]
  have mc: "\<forall>m \<in> set ms. me_category m = c" using assms(2) by (simp add: validMemberships_def)
  have ok: "db_ok db'"
    using assms(1,3) d mc unfolding db_ok_def by (auto simp: delete_memberships_def distinct_map_filter)
  have disj: "cat_key ` set (filter (\<lambda>m. me_category m \<noteq> c) (db_memberships db)) \<inter> cat_key ` set ms = {}"
    using mc by (auto simp: cat_key_def)
  have f: "by_key cat_key me_state (filter (\<lambda>m. me_category m \<noteq> c) (db_memberships db)) (x, l) =
      (if x \<noteq> c then by_key cat_key me_state (db_memberships db) (x, l) else None)" for x l
    using by_key_filter [of cat_key me_state "\<lambda>k. fst k \<noteq> c" "db_memberships db" "(x, l)"] by (simp add: cat_key_def)
  have "so_verdicts (db_view db') x l = ((so_verdicts (db_view db))(c := stated ms)) x l" for x l
    using d by_key_new [OF disj, of me_state "(x, l)"] stated_rows [OF assms(2)] f
    by (simp add: db_view_def delete_memberships_def split: option.splits)
  then have "so_verdicts (db_view db') = (so_verdicts (db_view db))(c := stated ms)" by (intro ext) blast
  then show ?thesis using ok d by (simp add: db_view_def delete_memberships_def)
qed

lemma update_category_law:
  assumes "db_ok db" "update_category_rows cw db = Ok db'" "validMemberships (cw_id cw) (cw_memberships cw)"
  shows "db_ok db' \<and> db_view db' = apply_effect (EditCategory cw) (db_view db)"
proof -
  define db1 where "db1 = (if has_prefix (cw_id cw) CustomCategoryIDPrefix then retitle cw db else db)"
  have one: "has_prefix (cw_id cw) CustomCategoryIDPrefix \<longrightarrow> cw_id cw \<in> cc_id ` set (db_categories db)"
    using assms(2) by (auto simp: update_category_rows_def one_row split: if_splits intro!: one_row)
  have w: "(if cw_replace cw then writeMemberships (cw_memberships cw) (delete_memberships (\<lambda>m. me_category m = cw_id cw) db1) else Ok db1) = Ok db'"
    using assms(2) by (auto simp: update_category_rows_def db1_def Let_def split: if_splits)
  note rt = retitle_law [OF assms(1), of cw]
  have plain: "so_custom (db_view db) (cw_id cw) = None" if "\<not> has_prefix (cw_id cw) CustomCategoryIDPrefix"
    using that assms(1) by (auto simp: db_view_def by_key_None db_ok_def)
  have v1: "db_ok db1 \<and> db_view db1 = (db_view db)\<lparr>so_custom := (so_custom (db_view db))(cw_id cw := map_option (retitled cw) (so_custom (db_view db) (cw_id cw)))\<rparr>"
    using rt plain assms(1) by (auto simp: db1_def fun_upd_idem)
  have one1: "has_prefix (cw_id cw) CustomCategoryIDPrefix \<longrightarrow> cw_id cw \<in> cc_id ` set (db_categories db1)"
    using one rt(5) by (simp add: db1_def)
  show ?thesis
  proof (cases "cw_replace cw")
    case True
    then have "writeMemberships (cw_memberships cw) (delete_memberships (\<lambda>m. me_category m = cw_id cw) db1) = Ok db'" using w by simp
    from replace_memberships_law [OF _ assms(3) one1 this] v1 True show ?thesis by simp
  next
    case False
    then show ?thesis using w v1 by simp
  qed
qed

subsection \<open>Removals\<close>

lemma recordRemoval_law:
  assumes "db_ok db" "at \<noteq> 0"
  shows "db_ok (recordRemoval k i at db) \<and> db_view (recordRemoval k i at db) = (db_view db)\<lparr>so_removed := insert (k, i) (so_removed (db_view db))\<rparr>"
proof (cases "(k, i) \<in> set (map (\<lambda>r. (cr_kind r, cr_id r)) (db_removals db))")
  case True
  then show ?thesis using assms(1) by (auto simp: recordRemoval_def db_view_def insert_absorb)
next
  case False
  then show ?thesis using assms unfolding db_ok_def by (auto simp: recordRemoval_def db_view_def)
qed

lemma keys_filter: "k ` {x \<in> S. k x \<noteq> c} = k ` S - {c}"
  by auto

lemma drop_members_law:
  assumes "db_ok db"
  shows "db_ok (delete_memberships (\<lambda>m. me_category m = c) db)"
    "db_view (delete_memberships (\<lambda>m. me_category m = c) db) = (db_view db)\<lparr>so_verdicts := (so_verdicts (db_view db))(c := Map.empty)\<rparr>"
proof -
  show "db_ok (delete_memberships (\<lambda>m. me_category m = c) db)"
    using assms unfolding db_ok_def by (auto simp: delete_memberships_def distinct_map_filter)
  show "db_view (delete_memberships (\<lambda>m. me_category m = c) db) = (db_view db)\<lparr>so_verdicts := (so_verdicts (db_view db))(c := Map.empty)\<rparr>"
    using by_key_filter [of cat_key me_state "\<lambda>k. fst k \<noteq> c" "db_memberships db"]
    by (simp add: db_view_def delete_memberships_def cat_key_def fun_eq_iff)
qed

lemma removeCategoryRows_law:
  assumes "db_ok db" "at \<noteq> 0" "removeCategoryRows c at db = Ok db'"
  shows "db_ok db' \<and> db_view db' = drop_category c (db_view db)"
proof (cases "has_prefix c CustomCategoryIDPrefix")
  case True
  define db1 where "db1 = db\<lparr>db_memberships := filter (\<lambda>m. me_category m \<noteq> c) (db_memberships db)\<rparr>"
  have d: "db' = db1\<lparr>db_categories := filter (\<lambda>x. cc_id x \<noteq> c) (db_categories db1)\<rparr>"
    using assms(3) True by (cases db) (auto simp: removeCategoryRows_def delete_memberships_def db1_def split: if_splits)
  have o: "db_ok db1" "db_view db1 = (db_view db)\<lparr>so_verdicts := (so_verdicts (db_view db))(c := Map.empty)\<rparr>"
    using drop_members_law [OF assms(1), of c] by (simp_all add: db1_def delete_memberships_def)
  have "\<forall>m \<in> set (db_memberships db1). me_category m \<noteq> c" by (simp add: db1_def)
  then have "db_ok db'" using o(1) unfolding db_ok_def d by (simp add: distinct_map_filter keys_filter)
  moreover have "db_view db' = (db_view db1)\<lparr>so_custom := (so_custom (db_view db1))(c := None)\<rparr>"
    using by_key_filter [of cc_id "\<lambda>c. c" "\<lambda>k. k \<noteq> c" "db_categories db1"] by (simp add: db_view_def d fun_eq_iff)
  ultimately show ?thesis using o(2) True by (simp add: drop_category_def)
next
  case False
  have d: "db' = delete_memberships (\<lambda>m. me_category m = c) (recordRemoval RemovalCategory c at db)"
    using assms(3) False by (simp add: removeCategoryRows_def)
  note r = recordRemoval_law [OF assms(1,2), of RemovalCategory c]
  then have ro: "db_ok (recordRemoval RemovalCategory c at db)" by blast
  have "so_custom (db_view db) c = None" using assms(1) False by (auto simp: db_view_def by_key_None db_ok_def)
  then show ?thesis using drop_members_law [OF ro, of c] r False by (simp add: d drop_category_def fun_upd_idem)
qed

lemma delete_list_state_law:
  assumes "db_ok db"
  shows "db_ok (delete_list_state i db)"
    "db_view (delete_list_state i db) = (db_view db)
      \<lparr>so_verdicts := (\<lambda>c. (so_verdicts (db_view db) c)(i := None)),
       so_disabled := {r \<in> so_disabled (db_view db). fst r \<noteq> i}, so_sources := {f \<in> so_sources (db_view db). cs_list f \<noteq> i},
       so_includes := {r \<in> so_includes (db_view db). fst r \<noteq> i}, so_excludes := {r \<in> so_excludes (db_view db). fst r \<noteq> i}\<rparr>"
proof -
  show "db_ok (delete_list_state i db)"
    using assms unfolding db_ok_def by (auto simp: delete_list_state_def delete_memberships_def distinct_map_filter)
  have "by_key cat_key me_state (filter (\<lambda>m. me_list m \<noteq> i) (db_memberships db)) (c, l) =
      (if l \<noteq> i then by_key cat_key me_state (db_memberships db) (c, l) else None)" for c l
    using by_key_filter [of cat_key me_state "\<lambda>k. snd k \<noteq> i" "db_memberships db" "(c, l)"] by (simp add: cat_key_def)
  then have "so_verdicts (db_view (delete_list_state i db)) = (\<lambda>c. (so_verdicts (db_view db) c)(i := None))"
    by (auto simp: db_view_def delete_list_state_def delete_memberships_def fun_eq_iff)
  then show "db_view (delete_list_state i db) = (db_view db)
      \<lparr>so_verdicts := (\<lambda>c. (so_verdicts (db_view db) c)(i := None)),
       so_disabled := {r \<in> so_disabled (db_view db). fst r \<noteq> i}, so_sources := {f \<in> so_sources (db_view db). cs_list f \<noteq> i},
       so_includes := {r \<in> so_includes (db_view db). fst r \<noteq> i}, so_excludes := {r \<in> so_excludes (db_view db). fst r \<noteq> i}\<rparr>"
    by (auto simp: db_view_def delete_list_state_def delete_memberships_def)
qed

lemma removeListRows_law:
  assumes "db_ok db" "at \<noteq> 0" "removeListRows i at db = Ok db'"
  shows "db_ok db' \<and> db_view db' = drop_list i (db_view db)"
proof (cases "has_prefix i CustomCategoryIDPrefix")
  case True
  define db1 where "db1 = db\<lparr>db_lists := filter (\<lambda>l. cl_id l \<noteq> i) (db_lists db)\<rparr>"
  have d: "db' = delete_list_state i db1" using assms(3) True by (simp add: removeListRows_def db1_def split: if_splits)
  have o: "db_ok db1" using assms(1) unfolding db_ok_def by (simp add: db1_def distinct_map_filter)
  have "db_view db1 = (db_view db)\<lparr>so_lists := (so_lists (db_view db))(i := None)\<rparr>"
    using by_key_filter [of cl_id "\<lambda>l. l" "\<lambda>k. k \<noteq> i" "db_lists db"] by (simp add: db_view_def db1_def fun_eq_iff)
  then show ?thesis using delete_list_state_law [OF o, of i] True by (simp add: d drop_list_def)
next
  case False
  have d: "db' = delete_list_state i (recordRemoval RemovalList i at db)" using assms(3) False by (simp add: removeListRows_def)
  note r = recordRemoval_law [OF assms(1,2), of RemovalList i]
  then have ro: "db_ok (recordRemoval RemovalList i at db)" by blast
  have "so_lists (db_view db) i = None" using assms(1) False by (auto simp: db_view_def by_key_None db_ok_def)
  then show ?thesis using delete_list_state_law [OF ro, of i] r False by (simp add: d drop_list_def fun_upd_idem)
qed

lemma remove_all_lists_law:
  "db_ok db \<Longrightarrow> at \<noteq> 0 \<Longrightarrow> remove_all_lists is at db = Ok db' \<Longrightarrow> db_ok db' \<and> db_view db' = fold drop_list is (db_view db)"
proof (induction "is" arbitrary: db)
  case (Cons i "is")
  obtain db1 where r: "removeListRows i at db = Ok db1" "remove_all_lists is at db1 = Ok db'"
    using Cons.prems(3) by (auto split: sum.splits)
  note l = removeListRows_law [OF Cons.prems(1,2) r(1)]
  then show ?case using Cons.IH [OF _ Cons.prems(2) r(2)] by simp
qed simp

lemma removal_law:
  assumes "db_ok db" "validLibraryRemoval r" "removal_rows r db = Ok db'"
  shows "db_ok db' \<and> db_view db' = apply_effect (Remove r) (db_view db)"
proof -
  have at: "lr_at r \<noteq> 0" using assms(2) by (simp add: validLibraryRemoval_def)
  show ?thesis
  proof (cases "lr_kind r = RemovalCategory")
    case True
    then obtain db1 where "removeCategoryRows (lr_id r) (lr_at r) db = Ok db1" "remove_all_lists (lr_lists r) (lr_at r) db1 = Ok db'"
      using assms(3) by (auto simp: removal_rows_def split: sum.splits)
    then show ?thesis using removeCategoryRows_law [OF assms(1) at] remove_all_lists_law [OF _ at] True by fastforce
  next
    case False
    then show ?thesis using assms(3) remove_all_lists_law [OF assms(1) at, of "[lr_id r]"] by (simp add: removal_rows_def)
  qed
qed

subsection \<open>Lists and tuning\<close>

lemma create_list_law:
  assumes "db_ok db" "validCustomList l" "create_list_row l db = Ok db'"
  shows "db_ok db' \<and> effect_fits (AddList l) (db_view db) \<and> db_view db' = apply_effect (AddList l) (db_view db)"
proof -
  have n: "cl_id l \<notin> cl_id ` set (db_lists db)" "db' = db\<lparr>db_lists := db_lists db @ [l]\<rparr>"
    using assms(3) by (auto simp: create_list_row_def split: if_splits)
  have "has_prefix (cl_id l) CustomCategoryIDPrefix" using assms(2) by (simp add: validCustomList_def CustomCategoryIDPrefix_def)
  then have "db_ok db'" using assms(1) n unfolding db_ok_def by auto
  then show ?thesis using n by (simp add: db_view_def by_key_None by_key_snoc)
qed

lemma update_list_law:
  assumes "db_ok db" "update_list_row l db = Ok db'"
  shows "db_ok db' \<and> effect_fits (EditList l) (db_view db) \<and> db_view db' = apply_effect (EditList l) (db_view db)"
proof -
  have one: "cl_id l \<in> cl_id ` set (db_lists db)"
    and d: "db' = db\<lparr>db_lists := map (\<lambda>x. if cl_id x = cl_id l then relisted l x else x) (db_lists db)\<rparr>"
    using assms(2) by (auto simp: update_list_row_def relisted_def split: if_splits intro!: one_row)
  have m: "map cl_id (db_lists db') = map cl_id (db_lists db)" by (auto simp: d relisted_def)
  then have "\<forall>x \<in> set (db_lists db'). has_prefix (cl_id x) CustomCategoryIDPrefix"
    using assms(1) unfolding db_ok_def by (metis (no_types, lifting) image_iff list.set_map)
  moreover have o: "db_categories db' = db_categories db" "db_memberships db' = db_memberships db" "db_removals db' = db_removals db"
      "db_disabled db' = db_disabled db" "db_sources db' = db_sources db" "db_verdicts db' = db_verdicts db"
    by (simp_all add: d)
  ultimately have "db_ok db'" using assms(1) unfolding db_ok_def o m by blast
  moreover have "so_lists (db_view db') = (so_lists (db_view db))(cl_id l := map_option (relisted l) (so_lists (db_view db) (cl_id l)))"
    using by_key_update [of "db_lists db" cl_id "relisted l" "cl_id l"] by (auto simp: db_view_def d relisted_def fun_eq_iff)
  moreover have "so_lists (db_view db) (cl_id l) \<noteq> None" using one by (simp add: db_view_def by_key_None)
  ultimately show ?thesis by (simp add: d db_view_def)
qed

lemma disable_law: "db_ok db \<Longrightarrow> db_ok (disable_row i s b db) \<and> db_view (disable_row i s b db) = apply_effect (SetDisabled i s b) (db_view db)"
  unfolding db_ok_def by (auto simp: disable_row_def db_view_def)

lemma create_source_law:
  assumes "db_ok db" "create_source_row f db = Ok db'"
  shows "db_ok db' \<and> effect_fits (AddSource f) (db_view db) \<and> db_view db' = apply_effect (AddSource f) (db_view db)"
  using assms unfolding db_ok_def by (auto simp: create_source_row_def db_view_def split: if_splits)

lemma write_verdict_law:
  assumes "db_ok db" "verdict \<in> {DomainVerdictInclude, DomainVerdictExclude, DomainVerdictAuto}"
  shows "db_ok (write_verdict l verdict db v) \<and>
    db_view (write_verdict l verdict db v) = apply_effect (SetVerdicts l [v] verdict) (db_view db)"
proof -
  have d: "distinct (map verdict_key (db_verdicts db))" using assms(1) by (simp add: db_ok_def)
  have same: "a = b" if "(l, v, a) \<in> set (db_verdicts db)" "(l, v, b) \<in> set (db_verdicts db)" for a b
    using d that by (fastforce simp: distinct_map inj_on_def verdict_key_def)
  let ?u = "map (\<lambda>r. if verdict_key r = (l, v) then (l, v, verdict) else r) (db_verdicts db)"
  have u: "map verdict_key ?u = map verdict_key (db_verdicts db)" by (auto simp: verdict_key_def)
  let ?new = "db_verdicts (write_verdict l verdict db v)"
  have new: "?new = (if verdict = DomainVerdictAuto then filter (\<lambda>r. verdict_key r \<noteq> (l, v)) (db_verdicts db)
      else if (l, v) \<in> verdict_key ` set (db_verdicts db) then ?u else db_verdicts db @ [(l, v, verdict)])"
    by (simp add: write_verdict_def verdict_key_def)
  have rows: "(a, b, c) \<in> set ?new \<longleftrightarrow> (if (a, b) = (l, v) then c = verdict \<and> verdict \<noteq> DomainVerdictAuto else (a, b, c) \<in> set (db_verdicts db))" for a b c
    unfolding new by (auto simp: verdict_key_def image_iff)
  have "distinct (map verdict_key ?new)"
  proof -
    have "distinct (map verdict_key (filter (\<lambda>r. verdict_key r \<noteq> (l, v)) (db_verdicts db)))" using d by (rule distinct_map_filter)
    moreover have "distinct (map verdict_key ?u)" unfolding u by (rule d)
    moreover have "(l, v) \<notin> verdict_key ` set (db_verdicts db) \<Longrightarrow> distinct (map verdict_key (db_verdicts db @ [(l, v, verdict)]))"
      using d by (simp add: verdict_key_def)
    ultimately show ?thesis unfolding new by presburger
  qed
  moreover have "snd (snd r) \<in> {DomainVerdictInclude, DomainVerdictExclude}" if "r \<in> set ?new" for r
    using that rows [of "fst r" "fst (snd r)" "snd (snd r)"] assms unfolding db_ok_def
    by (cases r) (auto split: if_splits)
  ultimately have "db_ok (write_verdict l verdict db v)"
    using assms(1) unfolding db_ok_def by (simp add: write_verdict_def)
  moreover have "db_view (write_verdict l verdict db v) = apply_effect (SetVerdicts l [v] verdict) (db_view db)"
  proof -
    have o: "db_view (write_verdict l verdict db v) = (db_view db)\<lparr>so_includes := {(l, v). (l, v, DomainVerdictInclude) \<in> set ?new},
        so_excludes := {(l, v). (l, v, DomainVerdictExclude) \<in> set ?new}\<rparr>"
      by (simp add: db_view_def write_verdict_def)
    show ?thesis unfolding o rows by (auto simp: db_view_def)
  qed
  ultimately show ?thesis by blast
qed

lemma write_verdicts_law:
  "db_ok db \<Longrightarrow> verdict \<in> {DomainVerdictInclude, DomainVerdictExclude, DomainVerdictAuto} \<Longrightarrow>
   db_ok (foldl (write_verdict l verdict) db vs) \<and>
   db_view (foldl (write_verdict l verdict) db vs) = apply_effect (SetVerdicts l vs verdict) (db_view db)"
proof (induction vs rule: rev_induct)
  case Nil
  then show ?case by auto
next
  case (snoc v vs)
  then have w: "db_ok (write_verdict l verdict (foldl (write_verdict l verdict) db vs) v) \<and>
      db_view (write_verdict l verdict (foldl (write_verdict l verdict) db vs) v) =
        apply_effect (SetVerdicts l [v] verdict) (apply_effect (SetVerdicts l vs verdict) (db_view db))"
    using write_verdict_law by simp
  have "apply_effect (SetVerdicts l [v] verdict) (apply_effect (SetVerdicts l vs verdict) x) = apply_effect (SetVerdicts l (vs @ [v]) verdict) x" for x
    by (rule stored.equality) auto
  then show ?case using w by simp
qed

section \<open>Reads\<close>

lemma read_all: "length xs \<le> n \<Longrightarrow> take n (sort_key k xs) = sort_key k xs"
  by simp

lemma distinct_read: "distinct (map k xs) \<Longrightarrow> distinct (map k (sort_key j xs))"
  by (simp add: distinct_map)

lemma read_by_key: "distinct (map k xs) \<Longrightarrow> by_key k v (sort_key j xs) = by_key k v xs"
  by (intro by_key_perm) (simp_all add: distinct_map)

lemma removals_read:
  assumes "catalogRemovals db = Ok rs"
  shows "set rs = set (db_removals db)"
  using assms by (auto simp: catalogRemovals_def Let_def read_all split: if_splits)

lemma overlay_read:
  assumes "db_ok db" "overlay_rows db = Ok ov"
  shows "overlay_shows ov (db_view db)"
proof -
  have c: "ov_categories ov = sort_key cc_id (db_categories db)"
      "ov_memberships ov = sort_key (\<lambda>m. (me_category m, me_list m)) (db_memberships db)"
    and r: "catalogRemovals db = Ok (ov_removals ov)"
    using assms(2) by (auto simp: overlay_rows_def Let_def read_all split: if_splits sum.splits)
  have d: "distinct (map cc_id (db_categories db))" "distinct (map cat_key (db_memberships db))" "\<forall>r \<in> set (db_removals db). cr_at r \<noteq> 0"
    using assms(1) by (simp_all add: db_ok_def)
  show ?thesis
    using read_by_key [OF d(1), of "\<lambda>c. c" cc_id] read_by_key [OF d(2), of me_state "\<lambda>m. (me_category m, me_list m)"]
      distinct_read [OF d(1), of cc_id] distinct_read [OF d(2), of "\<lambda>m. (me_category m, me_list m)"] removals_read [OF r] d(3)
    by (simp add: overlay_shows_def c db_view_def by_key_def cat_key_def [abs_def])
qed

lemma lists_rows_read:
  assumes "db_ok db" "db_complete db" "custom_list_rows db = Ok ls"
  shows "lists_show ls (db_view db)"
proof -
  have l: "ls = sort_key cl_id (db_lists db)"
    using assms(2,3) by (auto simp: custom_list_rows_def Let_def db_complete_def read_all split: if_splits)
  have d: "distinct (map cl_id (db_lists db))" using assms(1) by (simp add: db_ok_def)
  show ?thesis
    using read_by_key [OF d, of "\<lambda>c. c" cl_id] distinct_read [OF d, of cl_id] by (simp add: lists_show_def l db_view_def by_key_def)
qed

subsection \<open>The three passes of ListTunings\<close>

lemma tuned_retune: "tuned (retune f i m) j = (if j = i then f (tuned m i) else tuned m j)"
  by (auto simp: tuned_def retune_def map_of_upsert split: option.splits)

lemma tuned_pass:
  "tuned (foldl (\<lambda>m r. retune (g r) (k r) m) m rows) j = foldl (\<lambda>t r. if k r = j then g r t else t) (tuned m j) rows"
  by (induction rows arbitrary: m) (simp_all add: tuned_retune)

definition filled :: "(string \<times> list_tuning) list \<Rightarrow> bool" where
  "filled m \<longleftrightarrow> distinct (map fst m) \<and> (\<forall>(i, t) \<in> set m. t \<noteq> no_tuning)"

lemma filled_retune: "filled m \<Longrightarrow> \<forall>t. f t \<noteq> no_tuning \<Longrightarrow> filled (retune f i m)"
  unfolding filled_def retune_def
  using upsert_all [of m "\<lambda>(i, t). t \<noteq> no_tuning" i "\<lambda>old. f (case old of None \<Rightarrow> no_tuning | Some t \<Rightarrow> t)"]
  by (auto simp: distinct_upsert)

lemma filled_pass: "filled m \<Longrightarrow> \<forall>r t. g r t \<noteq> no_tuning \<Longrightarrow> filled (foldl (\<lambda>m r. retune (g r) (k r) m) m rows)"
  by (induction rows arbitrary: m) (simp_all add: filled_retune)

lemma disabled_rows:
  "lt_disabled (foldl (\<lambda>t r. if fst r = j then t\<lparr>lt_disabled := lt_disabled t @ [snd r]\<rparr> else t) t rows) =
     lt_disabled t @ map snd (filter (\<lambda>r. fst r = j) rows)"
  "lt_sources (foldl (\<lambda>t r. if fst r = j then t\<lparr>lt_disabled := lt_disabled t @ [snd r]\<rparr> else t) t rows) = lt_sources t"
  "lt_includes (foldl (\<lambda>t r. if fst r = j then t\<lparr>lt_disabled := lt_disabled t @ [snd r]\<rparr> else t) t rows) = lt_includes t"
  "lt_excludes (foldl (\<lambda>t r. if fst r = j then t\<lparr>lt_disabled := lt_disabled t @ [snd r]\<rparr> else t) t rows) = lt_excludes t"
  by (induction rows arbitrary: t) auto

lemma source_rows:
  "lt_disabled (foldl (\<lambda>t s. if cs_list s = j then t\<lparr>lt_sources := lt_sources t @ [s]\<rparr> else t) t rows) = lt_disabled t"
  "lt_sources (foldl (\<lambda>t s. if cs_list s = j then t\<lparr>lt_sources := lt_sources t @ [s]\<rparr> else t) t rows) =
     lt_sources t @ filter (\<lambda>s. cs_list s = j) rows"
  "lt_includes (foldl (\<lambda>t s. if cs_list s = j then t\<lparr>lt_sources := lt_sources t @ [s]\<rparr> else t) t rows) = lt_includes t"
  "lt_excludes (foldl (\<lambda>t s. if cs_list s = j then t\<lparr>lt_sources := lt_sources t @ [s]\<rparr> else t) t rows) = lt_excludes t"
  by (induction rows arbitrary: t) auto

definition add_verdict :: "string \<times> string \<times> DomainVerdict \<Rightarrow> list_tuning \<Rightarrow> list_tuning" where
  "add_verdict r t = (case snd (snd r) of
     DomainVerdictInclude \<Rightarrow> t\<lparr>lt_includes := lt_includes t @ [fst (snd r)]\<rparr>
   | _ \<Rightarrow> t\<lparr>lt_excludes := lt_excludes t @ [fst (snd r)]\<rparr>)"

lemma verdict_rows:
  "lt_disabled (foldl (\<lambda>t r. if fst r = j then add_verdict r t else t) t rows) = lt_disabled t"
  "lt_sources (foldl (\<lambda>t r. if fst r = j then add_verdict r t else t) t rows) = lt_sources t"
  "set (lt_includes (foldl (\<lambda>t r. if fst r = j then add_verdict r t else t) t rows)) =
     set (lt_includes t) \<union> {v. (j, v, DomainVerdictInclude) \<in> set rows}"
  "set (lt_excludes (foldl (\<lambda>t r. if fst r = j then add_verdict r t else t) t rows)) =
     set (lt_excludes t) \<union> {v. \<exists>d. d \<noteq> DomainVerdictInclude \<and> (j, v, d) \<in> set rows}"
  by (induction rows arbitrary: t) (auto simp: add_verdict_def split: DomainVerdict.splits)

lemma grown: "lt_disabled t \<noteq> [] \<or> lt_sources t \<noteq> [] \<or> lt_includes t \<noteq> [] \<or> lt_excludes t \<noteq> [] \<Longrightarrow> t \<noteq> no_tuning"
  by (auto simp: no_tuning_def)

lemma tunings_rows_read:
  assumes "db_ok db" "db_complete db" "tuning_rows db = Ok ts"
  shows "tunings_show ts (db_view db)"
proof -
  define ds where "ds = sort_key (\<lambda>r. r) (db_disabled db)"
  define ss where "ss = sort_key cs_id (db_sources db)"
  define vs where "vs = sort_key (\<lambda>r. (fst r, fst (snd r))) (db_verdicts db)"
  have t: "ts = foldl verdict_pass (foldl source_pass (foldl disabled_pass [] ds) ss) vs"
    using assms(2,3) by (auto simp: tuning_rows_def Let_def db_complete_def read_all ds_def ss_def vs_def split: if_splits)
  have p: "disabled_pass = (\<lambda>m r. retune (\<lambda>t. t\<lparr>lt_disabled := lt_disabled t @ [snd r]\<rparr>) (fst r) m)"
      "source_pass = (\<lambda>m s. retune (\<lambda>t. t\<lparr>lt_sources := lt_sources t @ [s]\<rparr>) (cs_list s) m)"
      "verdict_pass = (\<lambda>m r. retune (add_verdict r) (fst r) m)"
    by (simp_all add: fun_eq_iff disabled_pass_def source_pass_def verdict_pass_def add_verdict_def [abs_def])
  have f: "filled ts"
    unfolding t p
    by (intro filled_pass allI grown) (auto simp: filled_def add_verdict_def split: DomainVerdict.splits)
  have d: "distinct (map cs_id (db_sources db))" "\<forall>r \<in> set (db_verdicts db). snd (snd r) \<in> {DomainVerdictInclude, DomainVerdictExclude}"
    using assms(1) by (simp_all add: db_ok_def)
  note rows = tuned_pass disabled_rows source_rows verdict_rows
  have nil: "tuned [] j = no_tuning" for j by (simp add: tuned_def)
  have td: "lt_disabled (tuned ts j) = map snd (filter (\<lambda>r. fst r = j) ds)" "lt_sources (tuned ts j) = filter (\<lambda>s. cs_list s = j) ss"
      "set (lt_includes (tuned ts j)) = {v. (j, v, DomainVerdictInclude) \<in> set vs}"
      "set (lt_excludes (tuned ts j)) = {v. \<exists>d. d \<noteq> DomainVerdictInclude \<and> (j, v, d) \<in> set vs}" for j
    unfolding t p rows nil by (simp_all add: no_tuning_def)
  have ex: "{v. \<exists>d. d \<noteq> DomainVerdictInclude \<and> (j, v, d) \<in> set vs} = {v. (j, v, DomainVerdictExclude) \<in> set (db_verdicts db)}" for j
    using d(2) by (force simp: vs_def)
  have feeds: "distinct (map cs_id (lt_sources t)) \<and> (\<forall>f \<in> set (lt_sources t). cs_list f = i)" if "(i, t) \<in> set ts" for i t
  proof -
    have "tuned ts i = t" using that f by (simp add: tuned_def filled_def)
    then have "lt_sources t = filter (\<lambda>s. cs_list s = i) ss" using td(2) by metis
    then show ?thesis using d(1) distinct_read [OF d(1), of cs_id] by (simp add: ss_def distinct_map_filter)
  qed
  have sets: "{(i, s). s \<in> set (lt_disabled (tuned ts i))} = set (db_disabled db)" "{f. \<exists>i. f \<in> set (lt_sources (tuned ts i))} = set (db_sources db)"
      "{(i, v). v \<in> set (lt_includes (tuned ts i))} = {(l, v). (l, v, DomainVerdictInclude) \<in> set (db_verdicts db)}"
      "{(i, v). v \<in> set (lt_excludes (tuned ts i))} = {(l, v). (l, v, DomainVerdictExclude) \<in> set (db_verdicts db)}"
    unfolding td ex by (force simp: ds_def ss_def vs_def)+
  show ?thesis
    using f feeds sets by (auto simp: tunings_show_def filled_def db_view_def)
qed

section \<open>The store keeps its contract\<close>

lemma sqlite_step_done:
  assumes "store_step (sqlite_store env) eff w = (None, w')" "db_ok (fst w)"
  shows "db_ok (fst w') \<and> effect_fits eff (db_view (fst w)) \<and> db_view (fst w') = apply_effect eff (db_view (fst w))"
proof (cases eff)
  case (AddCategory c ms)
  then have "validCustomCategory c" "validMemberships (cc_id c) ms" "create_category_rows c ms (fst w) = Ok (fst w')"
    using assms(1) by (auto simp: sqlite_store_def CreateCustomCategory_def refuse_def dest: transact_Ok split: if_splits)
  then show ?thesis using create_category_law [OF assms(2)] AddCategory by blast
next
  case (EditCategory cw)
  then have "validMemberships (cw_id cw) (cw_memberships cw)" "update_category_rows cw (fst w) = Ok (fst w')"
    using assms(1) by (auto simp: sqlite_store_def UpdateCategoryRows_def refuse_def Let_def dest: transact_Ok split: if_splits)
  then show ?thesis using update_category_law [OF assms(2)] EditCategory by simp
next
  case (Remove r)
  then have "validLibraryRemoval r" "removal_rows r (fst w) = Ok (fst w')"
    using assms(1) by (auto simp: sqlite_store_def RemoveFromLibrary_def refuse_def dest: transact_Ok split: if_splits)
  then show ?thesis using removal_law [OF assms(2)] Remove by simp
next
  case (AddList l)
  then have "validCustomList l" "create_list_row l (fst w) = Ok (fst w')"
    using assms(1) by (auto simp: sqlite_store_def CreateCustomListRow_def refuse_def dest: transact_Ok split: if_splits)
  then show ?thesis using create_list_law [OF assms(2)] AddList by blast
next
  case (EditList l)
  then have "update_list_row l (fst w) = Ok (fst w')"
    using assms(1) by (auto simp: sqlite_store_def UpdateCustomListRow_def refuse_def dest: transact_Ok split: if_splits)
  then show ?thesis using update_list_law [OF assms(2)] EditList by blast
next
  case (SetDisabled i s b)
  then have "fst w' = disable_row i s b (fst w)"
    using assms(1) by (auto simp: sqlite_store_def SetSourceDisabled_def refuse_def dest!: transact_Ok split: if_splits)
  then show ?thesis using disable_law [OF assms(2)] SetDisabled by simp
next
  case (AddSource f)
  then have "create_source_row f (fst w) = Ok (fst w')"
    using assms(1) by (auto simp: sqlite_store_def CreateCustomSource_def refuse_def dest: transact_Ok split: if_splits)
  then show ?thesis using create_source_law [OF assms(2)] AddSource by blast
next
  case (RemoveSource s)
  then have "fst w' = (fst w)\<lparr>db_sources := filter (\<lambda>r. cs_id r \<noteq> s) (db_sources (fst w)),
      db_disabled := filter (\<lambda>r. snd r \<noteq> s) (db_disabled (fst w))\<rparr>"
    using assms(1) by (auto simp: sqlite_store_def RemoveCustomSource_def refuse_def dest!: transact_Ok split: if_splits prod.splits option.splits)
  then show ?thesis
    using assms(2) RemoveSource unfolding db_ok_def by (auto simp: distinct_map_filter db_view_def)
next
  case (SetVerdicts i vs verdict)
  then have "verdict \<in> {DomainVerdictInclude, DomainVerdictExclude, DomainVerdictAuto}"
      "fst w' = foldl (write_verdict i verdict) (fst w) vs"
    using assms(1) by (auto simp: sqlite_store_def SetDomainVerdicts_def refuse_def dest!: transact_Ok split: if_splits)
  then show ?thesis using write_verdicts_law [OF assms(2), of verdict i vs] SetVerdicts by simp
qed

lemma sqlite_step_failed:
  assumes "store_step (sqlite_store env) eff w = (Some e, w')" "db_ok (fst w)"
  shows "db_ok (fst w') \<and> ((\<forall>s. eff \<noteq> RemoveSource s) \<longrightarrow> db_view (fst w') = db_view (fst w))"
proof (cases "\<exists>s. eff = RemoveSource s")
  case False
  then have "fst w' = fst w"
    using assms(1)
    by (cases eff) (auto simp: sqlite_store_def CreateCustomCategory_def UpdateCategoryRows_def RemoveFromLibrary_def
      CreateCustomListRow_def UpdateCustomListRow_def SetSourceDisabled_def CreateCustomSource_def SetDomainVerdicts_def
      refuse_def Let_def dest: transact_Err split: if_splits)
  then show ?thesis using assms(2) by simp
next
  case True
  then obtain s where s: "eff = RemoveSource s" by blast
  then have "fst w' = fst w \<or> fst w' = (fst w)\<lparr>db_sources := filter (\<lambda>r. cs_id r \<noteq> s) (db_sources (fst w))\<rparr>"
    using assms(1) by (auto simp: sqlite_store_def RemoveCustomSource_def refuse_def dest!: transact_Ok dest: transact_Err split: if_splits prod.splits option.splits)
  then show ?thesis using assms(2) s unfolding db_ok_def by (auto simp: distinct_map_filter)
qed

interpretation sq: library_reader "sqlite_store env" "\<lambda>w. db_view (fst w)" "\<lambda>w. db_ok (fst w)" "\<lambda>w. db_complete (fst w)" for env
proof
  show "db_ok (fst w') \<and> db_view (fst w') = db_view (fst w)" if "st_now (sqlite_store env) w = (t, w')" "db_ok (fst w)" for w t w'
    using that by (auto simp: sqlite_store_def split: prod.splits)
  show "db_ok (fst w') \<and> db_view (fst w') = db_view (fst w)" if "st_random (sqlite_store env) n w = (r, w')" "db_ok (fst w)" for n w r w'
    using that by (auto simp: sqlite_store_def split: prod.splits)
  show "length bs = n \<and> (\<forall>b \<in> set bs. b < 256)" if "st_random (sqlite_store env) n w = (Ok bs, w')" for n w bs w'
    using that read_full_bytes by (fastforce simp: sqlite_store_def split: prod.splits)
  show "db_ok (fst w') \<and> db_view (fst w') = db_view (fst w)" if "st_references (sqlite_store env) cs ls w = (rr, w')" "db_ok (fst w)" for cs ls w rr w'
    using that by (auto simp: sqlite_store_def ProfileReferences_def dest!: query_db split: if_splits)
  show "f = g" if "db_ok (fst w)" "f \<in> so_sources (db_view (fst w))" "g \<in> so_sources (db_view (fst w))" "cs_id f = cs_id g" for w f g
    using that by (auto simp: db_ok_def db_view_def distinct_map inj_on_def)
  show "db_ok (fst w') \<and> effect_fits eff (db_view (fst w)) \<and> db_view (fst w') = apply_effect eff (db_view (fst w))"
    if "store_step (sqlite_store env) eff w = (None, w')" "db_ok (fst w)" for eff w w'
    using that by (rule sqlite_step_done)
  show "db_ok (fst w') \<and> ((\<forall>s. eff \<noteq> RemoveSource s) \<longrightarrow> db_view (fst w') = db_view (fst w))"
    if "store_step (sqlite_store env) eff w = (Some e, w')" "db_ok (fst w)" for eff w e w'
    using that by (rule sqlite_step_failed)
  show "db_ok (fst w') \<and> db_view (fst w') = db_view (fst w) \<and> db_complete (fst w') = db_complete (fst w) \<and>
      (\<forall>ov. ovr = Ok ov \<longrightarrow> overlay_shows ov (db_view (fst w)))" if "st_overlay (sqlite_store env) w = (ovr, w')" "db_ok (fst w)" for w ovr w'
    using that overlay_read by (auto simp: sqlite_store_def dest!: query_db)
  show "db_ok (fst w') \<and> db_view (fst w') = db_view (fst w) \<and> db_complete (fst w') = db_complete (fst w) \<and>
      (db_complete (fst w) \<longrightarrow> (\<forall>ls. lsr = Ok ls \<longrightarrow> lists_show ls (db_view (fst w))))"
    if "st_lists (sqlite_store env) w = (lsr, w')" "db_ok (fst w)" for w lsr w'
    using that lists_rows_read by (auto simp: sqlite_store_def dest!: query_db)
  show "db_ok (fst w') \<and> db_view (fst w') = db_view (fst w) \<and> db_complete (fst w') = db_complete (fst w) \<and>
      (db_complete (fst w) \<longrightarrow> (\<forall>ts. tsr = Ok ts \<longrightarrow> tunings_show ts (db_view (fst w))))"
    if "st_tunings (sqlite_store env) w = (tsr, w')" "db_ok (fst w)" for w tsr w'
    using that tunings_rows_read by (auto simp: sqlite_store_def dest!: query_db)
qed

end
