(* ===== verification/LibrarySessions.thy ===== *)
theory LibrarySessions
  imports SqliteLaws
begin

text \<open>
  The life of the library: a service made on an empty database serves requests and is restarted, while other parts
  of the program write the profiles. The results of the contract are read off here for every such session, over
  the model of the tables.
\<close>

section \<open>Sessions\<close>

definition empty_database :: database where
  "empty_database = \<lparr>db_categories = [], db_memberships = [], db_removals = [], db_lists = [], db_disabled = [],
     db_sources = [], db_verdicts = [], db_profiles = []\<rparr>"

inductive library_session ::
  "(string \<Rightarrow> bool) option \<Rightarrow> 'e sql_env \<Rightarrow> (string \<times> category_def) list \<Rightarrow> (string \<times> list_def) list \<Rightarrow> string
   \<Rightarrow> library \<Rightarrow> 'e world \<Rightarrow> bool"
  for feed env categories definitions revision where
  session_created: "catalog_ok (fresh_library categories definitions revision) \<Longrightarrow>
    library_session feed env categories definitions revision (fresh_library categories definitions revision) (empty_database, e)"
| session_served: "library_session feed env categories definitions revision lib w \<Longrightarrow>
    serve feed (sqlite_store env) req lib w = ((r, lib'), w') \<Longrightarrow> r = None \<or> (\<forall>i s. req \<noteq> ReqRemoveSource i s) \<Longrightarrow>
    library_session feed env categories definitions revision lib' w'"
| session_restarted: "library_session feed env categories definitions revision lib w \<Longrightarrow> db_complete (fst w) \<Longrightarrow>
    startup (sqlite_store env) (fresh_library categories definitions revision) w = ((None, lib'), w') \<Longrightarrow>
    library_session feed env categories definitions revision lib' w'"
| session_profiles: "library_session feed env categories definitions revision lib (db, e) \<Longrightarrow>
    library_session feed env categories definitions revision lib (db\<lparr>db_profiles := ps\<rparr>, e')"

lemma db_ok_profiles [simp]: "db_ok (db\<lparr>db_profiles := ps\<rparr>) = db_ok db" "db_view (db\<lparr>db_profiles := ps\<rparr>) = db_view db"
  by (simp_all add: db_ok_def db_view_def)

lemma fresh_typed: "catalog_ok (fresh_library cs ds r) \<Longrightarrow> well_typed (fresh_library cs ds r)"
  by (simp add: well_typed_def fresh_library_def customs_ok_def lists_ok_def members_ok_def removed_ok_def tunings_ok_def)

lemma fresh_ok: "db_ok empty_database"
  by (simp add: db_ok_def empty_database_def)

lemma fresh_view: "library_view (fresh_library cs ds r) = db_view empty_database"
  by (simp add: library_view_def db_view_def fresh_library_def empty_database_def by_key_def verdicts_def listTuning_def no_tuning_def)

lemma session_sync:
  assumes "library_session feed env categories definitions revision lib w"
  shows "sq.in_sync lib w \<and> same_catalog (fresh_library categories definitions revision) lib"
  using assms
proof (induction rule: library_session.induct)
  case (session_created e)
  then show ?case using fresh_typed fresh_view fresh_ok by (simp add: sq.in_sync_def same_catalog_def)
next
  case (session_served lib w req r lib' w')
  then have "sq.kept lib lib' w'" using sq.serve_kept by blast
  then show ?case using session_served.IH by (simp add: sq.kept_def same_catalog_def)
next
  case (session_restarted lib w lib' w')
  then have "same_catalog lib (fresh_library categories definitions revision)" by (simp add: same_catalog_def)
  then have "sq.kept lib lib' w'" using sq.startup_kept session_restarted by blast
  then show ?case using session_restarted.IH by (simp add: sq.kept_def same_catalog_def)
next
  case (session_profiles lib db e ps e')
  then show ?case by (simp add: sq.in_sync_def)
qed




section \<open>Editing a category\<close>

lemma member_state:
  "map_of (membershipIndex (membershipRows c desired catalog now)) l =
     (if l \<in> set desired - set catalog then Some MembershipAdded
      else if l \<in> set catalog - set desired then Some MembershipRemoved else None)"
proof -
  define rows where "rows = membershipRows c desired catalog now"
  have st: "r \<in> set rows \<Longrightarrow> me_list r = l \<Longrightarrow> Some (me_state r) = (if l \<in> set desired - set catalog then Some MembershipAdded
      else if l \<in> set catalog - set desired then Some MembershipRemoved else None)" for r l
    by (auto simp: rows_def membershipRows_def)
  have ex: "(\<exists>r \<in> set rows. me_list r = l) \<longleftrightarrow> l \<in> set desired - set catalog \<union> (set catalog - set desired)" for l
  proof -
    have "me_list ` set rows = set desired - set catalog \<union> (set catalog - set desired)"
      unfolding rows_def membershipRows_def by (auto simp: image_Un image_image)
    then show ?thesis by (metis image_iff)
  qed
  have f: "map_of (foldl (\<lambda>m r. go_set (me_list r) (me_state r) m) m0 rs) l =
      (case map_of (rev (map (\<lambda>r. (me_list r, me_state r)) rs)) l of None \<Rightarrow> map_of m0 l | Some x \<Rightarrow> Some x)" for rs m0
    by (induction rs arbitrary: m0) (auto simp: map_add_def split: option.splits)
  have m: "map_of (membershipIndex rows) l = map_of (rev (map (\<lambda>r. (me_list r, me_state r)) rows)) l"
    unfolding membershipIndex_def f by (simp split: option.split)
  show ?thesis
  proof (cases "map_of (rev (map (\<lambda>r. (me_list r, me_state r)) rows)) l")
    case None
    then have "\<not> (\<exists>r \<in> set rows. me_list r = l)" by (auto simp: map_of_eq_None_iff image_image)
    then show ?thesis using m None ex unfolding rows_def by auto
  next
    case (Some s)
    then obtain r where "r \<in> set rows" "me_list r = l" "s = me_state r" by (auto dest!: map_of_SomeD)
    then show ?thesis using m Some st [of r l] unfolding rows_def by simp
  qed
qed

lemma distinct_index: "distinct (map fst (membershipIndex rows))"
proof -
  have "distinct (map fst m) \<Longrightarrow> distinct (map fst (foldl (\<lambda>m r. go_set (me_list r) (me_state r) m) m rows))" for m
    by (induction rows arbitrary: m) auto
  then show ?thesis by (simp add: membershipIndex_def)
qed

text \<open>
  C22. An edit that names the lists of a category gives the category exactly these lists, whatever the catalog
  ships and whatever was added or removed before, and changes no other category.
\<close>

theorem UpdateCategory_sets_lists:
  assumes "UpdateCategory st c title (Some ls) lib w = ((Ok d, lib'), w')"
  shows "mergedCategory lib' c = Some d \<and> cd_lists d = StableStrings ls \<and>
    (b = c \<or> mergedCategory lib' b = mergedCategory lib b)"
proof -
  obtain now w1 where n: "st_now st w = (now, w1)" by (cases "st_now st w")
  obtain current where cur: "mergedCategory lib c = Some current"
    using assms n by (auto simp: UpdateCategory_def split: if_splits option.splits)
  obtain t where t: "update_title current title = Ok t"
    using assms n cur by (auto simp: UpdateCategory_def split: if_splits sum.splits)
  obtain ms where ms: "validCategoryMembers lib ls = Ok ms"
    using assms n cur t by (auto simp: UpdateCategory_def update_members_def split: if_splits sum.splits)
  define rows where "rows = membershipRows c ms (shipped_lists lib c) now"
  have l: "lib' = store_category c t (Some rows) now lib" "d = detail_of lib' c"
    using assms n cur t ms
    by (auto simp: UpdateCategory_def update_members_def Let_def rows_def split: if_splits option.splits prod.splits)
  have m: "ms = StableStrings ls" "\<forall>l \<in> set ms. knownList lib l"
    using ms by (auto simp: validCategoryMembers_def Let_def split: if_splits)
  have same: "lb_categories lib' = lb_categories lib" "lb_removed lib' = lb_removed lib" "lb_definitions lib' = lb_definitions lib"
      "lb_lists lib' = lb_lists lib" "lb_revision lib' = lb_revision lib" "lb_membership lib' = go_set c (membershipIndex rows) (lb_membership lib)"
      "b \<noteq> c \<Longrightarrow> map_of (lb_custom lib') b = map_of (lb_custom lib) b" "map_of (lb_custom lib') c = None \<longleftrightarrow> map_of (lb_custom lib) c = None" for b
    by (auto simp: l(1) store_category_def Let_def split: option.splits)
  have k: "knownList lib' = knownList lib"
    unfolding knownList_def [abs_def] baseDefinition_def removedFromLibrary_def same(2-5) by (rule refl)
  have v: "verdicts lib' c = membershipIndex rows" "b \<noteq> c \<Longrightarrow> verdicts lib' b = verdicts lib b" for b
    by (simp_all add: verdicts_def same(6))
  have "mergedCategory lib' c \<noteq> None"
    using cur same(1,2,8) by (auto simp: mergedCategory_def removedFromLibrary_def Let_def split: if_splits)
  then obtain d' where d': "mergedCategory lib' c = Some d'" by blast
  have "distinct (map fst (verdicts lib' c))" unfolding v(1) by (rule distinct_index)
  note mem = mergedCategory_members [OF d' this]
  have "shipped_lists lib' c = shipped_lists lib c" using same(1) by (simp add: shipped_lists_def)
  then have "set (cd_lists d') = set ms"
    using mem m(2) unfolding v(1) k rows_def member_state by (auto split: if_splits)
  moreover have "cd_lists d' = sort_unique (cd_lists d')" "ms = sort_unique ms"
    using d' by (auto simp: mergedCategory_def m(1) StableStrings_sort_unique Let_def sort_unique_strict split: if_splits)
  ultimately have "cd_lists d' = ms" using sort_unique_eqI by metis
  moreover have "d = d'" using l(2) d' by (simp add: detail_of_def)
  moreover have "mergedCategory lib' b = mergedCategory lib b" if "b \<noteq> c"
    using that same(1,2,7) v(2) k by (simp add: mergedCategory_def removedFromLibrary_def shipped_lists_def Let_def)
  ultimately show ?thesis using d' m(1) by blast
qed

section \<open>A session on a small catalog\<close>

definition demo_env :: "unit sql_env" where
  "demo_env = \<lparr>se_now = (\<lambda>e. (1, e)), se_byte = (\<lambda>e. (Ok 0, e)), se_fails = (\<lambda>e. (None, e))\<rparr>"

definition demo_source :: source_def where
  "demo_source = \<lparr>src_id = ''s'', src_type = SourceHTTP, src_component = ''web'', src_names = [], src_url = ''u'',
     src_format = ''hosts'', src_class = SourceCommunity, src_impl_revision = [], src_revision = []\<rparr>"

definition demo_list :: list_def where
  "demo_list = \<lparr>ld_id = ''a'', ld_title = ''A'', ld_components = [], ld_seeds = [], ld_dns_names = [],
     ld_sources = [demo_source], ld_catalog_revision = [], ld_excluded_values = []\<rparr>"

definition demo_lists :: "(string \<times> list_def) list" where
  "demo_lists = [(''a'', demo_list)]"

definition demo_categories :: "(string \<times> category_def) list" where
  "demo_categories = [(''c'', \<lparr>cat_id = ''c'', cat_title = ''C'', cat_lists = [''a'']\<rparr>)]"

definition demo_library :: library where
  "demo_library = fresh_library demo_categories demo_lists []"

definition demo_tuned :: library where
  "demo_tuned = bump (demo_library\<lparr>lb_tuning := [(''a'', no_tuning\<lparr>lt_disabled := [''s'']\<rparr>)]\<rparr>)"

definition demo_world :: "unit world" where
  "demo_world = (empty_database\<lparr>db_disabled := [(''a'', ''s'')]\<rparr>, ())"

lemmas demo_defs = demo_env_def demo_source_def demo_list_def demo_lists_def demo_categories_def demo_library_def
  fresh_library_def empty_database_def

lemma demo_slugs: "is_ok (validate_slug ''a'')" "is_ok (validate_slug ''s'')" "is_ok (validate_slug ''c'')"
  by code_simp+

lemma demo_catalog: "catalog_ok demo_library"
  using demo_slugs by (auto simp: catalog_ok_def demo_defs has_prefix_def split: if_splits)

lemma demo_served:
  "serve None (sqlite_store demo_env) (ReqSourceEnabled ''a'' ''s'' False) demo_library (empty_database, ()) =
     ((None, demo_tuned), demo_world)"
  using demo_slugs
  by (simp add: SetListSourceEnabled_def baseDefinition_def removedFromLibrary_def sourceKnown_def sqlite_store_def
    SetSourceDisabled_def transact_def disable_row_def listTuning_def withoutString_def storeTuningLocked_def
    demo_tuned_def demo_world_def demo_defs no_tuning_def go_set_def)

lemma demo_session: "library_session None demo_env demo_categories demo_lists [] demo_tuned demo_world"
  by (rule session_served [OF session_created [of demo_categories demo_lists "[]" _ _ "()"] demo_served [unfolded demo_library_def]])
    (use demo_catalog in \<open>simp_all add: demo_library_def\<close>)



lemma demo_sizes: "db_complete (fst demo_world)"
  by (simp add: db_complete_def demo_world_def empty_database_def customListLimit_def tuningLimit_def verdictLimit_def)

lemma demo_restart:
  "startup (sqlite_store demo_env) (fresh_library demo_categories demo_lists []) demo_world =
     ((None, demo_library\<lparr>lb_tuning := [(''a'', no_tuning\<lparr>lt_disabled := [''s'']\<rparr>)]\<rparr>), demo_world)"
  using demo_slugs
  by (simp add: startup_def LoadCustomLists_def LoadListTuning_def LoadCategories_def sqlite_store_def query_def
    custom_list_rows_def tuning_rows_def overlay_rows_def catalogRemovals_def demo_world_def demo_defs no_tuning_def
    disabled_pass_def retune_def normalizedListTuning_def StableStrings_sort_unique sort_unique_def go_set_def
    customListLimit_def tuningLimit_def verdictLimit_def customCategoryLimit_def categoryMembershipLimit_def
    catalogRemovalLimit_def)


lemma demo_edit:
  "\<exists>d lib' w'. UpdateCategory (sqlite_store demo_env) ''c'' None (Some []) demo_library (empty_database, ()) = ((Ok d, lib'), w')"
  using demo_slugs
  by (simp add: UpdateCategory_def sqlite_store_def mergedCategory_def verdicts_def shipped_lists_def removedFromLibrary_def
    knownList_def baseDefinition_def update_title_def update_members_def validCategoryMembers_def maxCategoryMembers_def
    StableStrings_sort_unique sort_unique_def membershipRows_def UpdateCategoryRows_def validMemberships_def validMembership_def
    categoryMembershipLimit_def maxCompositionItems_def update_category_rows_def delete_memberships_def
    has_prefix_def CustomCategoryIDPrefix_def transact_def demo_defs Let_def)

theorem UpdateCategory_sets_lists_witness:
  "\<exists>d lib' w'. UpdateCategory (sqlite_store demo_env) ''c'' None (Some []) demo_library (empty_database, ()) = ((Ok d, lib'), w') \<and>
     mergedCategory lib' ''c'' = Some d \<and> cd_lists d = []"
proof -
  obtain d lib' w' where e: "UpdateCategory (sqlite_store demo_env) ''c'' None (Some []) demo_library (empty_database, ()) = ((Ok d, lib'), w')"
    using demo_edit by blast
  have "cd_lists d = []" "mergedCategory lib' ''c'' = Some d"
    using UpdateCategory_sets_lists [OF e, of "''c''"] by (simp_all add: StableStrings_sort_unique sort_unique_def)
  with e show ?thesis by blast
qed

end
