(* ===== verification/Composition.thy ===== *)
theory Composition
  imports Schedule LibraryEffects
begin

text \<open>
  What a profile publishes: the composition part of \<open>publication.go\<close>. A requested composition is checked against the
  library, a stored one is resolved against the library of the moment. Sets kept as Go maps for lookup only are
  sets here; the domain overrides are an association list, read in any order.
\<close>

section \<open>Definitions\<close>

record composition =
  co_lists :: "string list"
  co_categories :: "string list"
  co_exclusions :: "string list"
  co_domains :: "(string \<times> string list) list"
  co_priority :: "string list"

definition maxProfileListDomains :: nat where "maxProfileListDomains = 512"

text \<open>The first occurrence of every known value of \<open>stored\<close>, then the available values not yet seen.\<close>

fun merge_known :: "string set \<Rightarrow> string list \<Rightarrow> string list \<Rightarrow> string list" where
  "merge_known known seen [] = seen"
| "merge_known known seen (i # is) =
     (if i \<notin> known \<or> i \<in> set seen then merge_known known seen is else merge_known known (seen @ [i]) is)"

definition mergePriority :: "string list \<Rightarrow> string list \<Rightarrow> string list" where
  "mergePriority stored available =
     (let known = set available in merge_known known (merge_known known [] stored) available)"

definition validPriorityPermutation :: "string list \<Rightarrow> string list \<Rightarrow> bool" where
  "validPriorityPermutation priority available \<longleftrightarrow>
     length priority = length available \<and>
     (\<forall>i \<in> set priority. is_ok (validate_slug i) \<and> i \<in> set available) \<and> distinct priority \<and>
     card (set priority) = card (set available)"

fun take_priority :: "string set \<Rightarrow> string list \<Rightarrow> string list \<Rightarrow> (library_error, string list) result" where
  "take_priority available seen [] = Ok seen"
| "take_priority available seen (i # is) =
     (if \<not> is_ok (validate_slug i) \<or> i \<notin> available \<or> i \<in> set seen then Err (ErrInvalid ''profile priority'')
      else take_priority available (seen @ [i]) is)"

definition normalizePriority :: "string list \<Rightarrow> string list \<Rightarrow> (library_error, string list) result" where
  "normalizePriority requested resolved =
     (case take_priority (set resolved) [] requested of
        Inl e \<Rightarrow> Err e
      | Inr seen \<Rightarrow> Ok (seen @ filter (\<lambda>i. i \<notin> set seen) resolved))"

fun normalize_overrides ::
  "string set \<Rightarrow> (string \<times> string list) list \<Rightarrow> nat \<Rightarrow> (string \<times> string list) list
   \<Rightarrow> (library_error, (string \<times> string list) list) result" where
  "normalize_overrides available [] n m = Ok m"
| "normalize_overrides available ((i, vs) # rest) n m =
     (if \<not> is_ok (validate_slug i) \<or> i \<notin> available \<or> maxDomainsPerList < length vs
      then Err (ErrInvalid ''profile list domains'')
      else case normalize_domains vs of
        None \<Rightarrow> Err (ErrInvalid ''profile list domains'')
      | Some ds \<Rightarrow>
          let ds = StableStrings ds; n = n + length ds in
          if maxProfileListDomains < n then Err (ErrInvalid ''profile list domains'')
          else normalize_overrides available rest n (go_set i ds m))"

definition normalizeListDomains ::
  "(string \<times> string list) list \<Rightarrow> string list \<Rightarrow> (library_error, (string \<times> string list) list) result" where
  "normalizeListDomains requested resolved =
     (if requested = [] then Ok []
      else if maxCompositionItems < length requested then Err (ErrInvalid ''profile list domains'')
      else normalize_overrides (set resolved) requested 0 [])"

definition filterKnownPriority :: "string list \<Rightarrow> string list \<Rightarrow> string list" where
  "filterKnownPriority priority resolved = filter (\<lambda>i. i \<in> set resolved) priority"

definition category_lists :: "library \<Rightarrow> string \<Rightarrow> string list" where
  "category_lists lib c = (case mergedCategory lib c of None \<Rightarrow> [] | Some d \<Rightarrow> cd_lists d)"

definition resolveComposition :: "library \<Rightarrow> composition \<Rightarrow> string list" where
  "resolveComposition lib c =
     (let named = co_lists c @ concat (map (category_lists lib) (co_categories c));
          kept = filter (\<lambda>i. i \<notin> set (co_exclusions c) \<and> hasDefinition lib i) named;
          resolved = StableStrings kept
      in case normalizePriority (filterKnownPriority (co_priority c) resolved) resolved of
           Inl _ \<Rightarrow> resolved
         | Inr priority \<Rightarrow> priority)"

definition validComposition :: "library \<Rightarrow> composition \<Rightarrow> (library_error, composition) result" where
  "validComposition lib requested =
     (let ls = StableStrings (co_lists requested);
          cs = StableStrings (co_categories requested);
          es = StableStrings (co_exclusions requested);
          invalid = ErrInvalid ''profile composition''
      in if maxCompositionItems < length ls \<or> maxCompositionItems < length cs \<or> maxCompositionItems < length es
         then Err invalid
         else if \<exists>i \<in> set ls. \<not> is_ok (validate_slug i) \<or> \<not> hasDefinition lib i then Err invalid
         else if \<exists>i \<in> set cs. \<not> is_ok (validate_slug i) \<or> mergedCategory lib i = None then Err invalid
         else case find (\<lambda>i. \<not> is_ok (validate_slug i) \<or> \<not> hasDefinition lib i \<or> i \<in> set ls) es of
           Some i \<Rightarrow> Err (if \<not> is_ok (validate_slug i) \<or> \<not> hasDefinition lib i then invalid
                          else ErrInvalid ''list both named and excluded'')
         | None \<Rightarrow>
             let c = \<lparr>co_lists = ls, co_categories = cs, co_exclusions = es, co_domains = [], co_priority = []\<rparr>;
                 resolved = resolveComposition lib c
             in if resolved = [] then Err invalid
                else case normalizeListDomains (co_domains requested) resolved of
                  Inl e \<Rightarrow> Err e
                | Inr ds \<Rightarrow>
                    (case normalizePriority (co_priority requested) resolved of
                       Inl e \<Rightarrow> Err e
                     | Inr priority \<Rightarrow> Ok (c\<lparr>co_domains := ds, co_priority := priority\<rparr>)))"

text \<open>The order of the library: the optional repository of the store is an option.\<close>

record 'w priority_repo =
  pq_read :: "'w \<Rightarrow> (library_error, string list) result \<times> 'w"
  pq_write :: "string list \<Rightarrow> 'w \<Rightarrow> library_error option \<times> 'w"

definition Lists :: "library \<Rightarrow> string list" where
  "Lists lib = filter (knownList lib) (sort (map fst (lb_definitions lib) @ map cl_id (customLists lib)))"

definition DefaultPriority ::
  "'w priority_repo option \<Rightarrow> library \<Rightarrow> 'w \<Rightarrow> (library_error, string list) result \<times> 'w" where
  "DefaultPriority repo lib w =
     (let available = mergePriority (concat (map cd_lists (mergedCategories lib))) (Lists lib) in
      case repo of
        None \<Rightarrow> (Ok (mergePriority [] available), w)
      | Some pq \<Rightarrow>
          (case pq_read pq w of
             (Err e, w) \<Rightarrow> (Err e, w)
           | (Ok stored, w) \<Rightarrow> (Ok (mergePriority stored available), w)))"

definition SetDefaultPriority ::
  "'w priority_repo option \<Rightarrow> string list \<Rightarrow> library \<Rightarrow> 'w \<Rightarrow> library_error option \<times> 'w" where
  "SetDefaultPriority repo priority lib w =
     (if \<not> validPriorityPermutation priority (Lists lib) then (Some (ErrInvalid ''default priority''), w)
      else case repo of
        None \<Rightarrow> (Some (ErrStore ''default priority storage unavailable''), w)
      | Some pq \<Rightarrow> pq_write pq priority w)"

definition validCompositionWithDefaultPriority ::
  "'w priority_repo option \<Rightarrow> library \<Rightarrow> composition \<Rightarrow> 'w \<Rightarrow> (library_error, composition) result \<times> 'w" where
  "validCompositionWithDefaultPriority repo lib requested w =
     (case validComposition lib requested of
        Inl e \<Rightarrow> (Err e, w)
      | Inr c \<Rightarrow>
          if co_priority requested \<noteq> [] then (Ok c, w)
          else
            let resolved = resolveComposition lib (c\<lparr>co_domains := [], co_priority := []\<rparr>) in
            case DefaultPriority repo lib w of
              (Err e, w) \<Rightarrow> (Err e, w)
            | (Ok global, w) \<Rightarrow>
                (case normalizePriority (filterKnownPriority global resolved) resolved of
                   Inl e \<Rightarrow> (Err e, w)
                 | Inr priority \<Rightarrow> (Ok (c\<lparr>co_priority := priority\<rparr>), w)))"

definition profile_composition :: "profile \<Rightarrow> composition" where
  "profile_composition p = \<lparr>co_lists = pf_lists p, co_categories = pf_categories p, co_exclusions = pf_exclusions p,
     co_domains = [], co_priority = pf_priority p\<rparr>"

definition ResolvedLists :: "library \<Rightarrow> profile \<Rightarrow> string list" where
  "ResolvedLists lib p = resolveComposition lib (profile_composition p)"

definition MissingCategories :: "library \<Rightarrow> profile \<Rightarrow> string list" where
  "MissingCategories lib p = filter (\<lambda>c. mergedCategory lib c = None) (pf_categories p)"

section \<open>Orders\<close>

lemma merge_known_facts:
  "distinct seen \<Longrightarrow> distinct (merge_known known seen is)"
  "set (merge_known known seen is) = set seen \<union> (set is \<inter> known)"
  "\<exists>rest. merge_known known seen is = seen @ rest"
  by (induction known seen "is" rule: merge_known.induct) auto

lemma merge_known_id: "distinct (seen @ is) \<Longrightarrow> set is \<subseteq> known \<Longrightarrow> merge_known known seen is = seen @ is"
  by (induction known seen "is" rule: merge_known.induct) auto

lemma merge_known_absorbed: "set is \<subseteq> set seen \<Longrightarrow> merge_known known seen is = seen"
  by (induction known seen "is" rule: merge_known.induct) auto

lemma mergePriority_facts:
  "distinct (mergePriority stored available)" "set (mergePriority stored available) = set available"
  by (auto simp: mergePriority_def Let_def merge_known_facts)

lemma mergePriority_permutation:
  assumes "distinct stored" "set stored = set available"
  shows "mergePriority stored available = stored"
  using assms by (simp add: mergePriority_def merge_known_id merge_known_absorbed)

lemma validPriorityPermutation_set:
  assumes "validPriorityPermutation priority available"
  shows "distinct priority" "set priority = set available"
  using assms card_subset_eq [of "set available" "set priority"]
  by (auto simp: validPriorityPermutation_def subset_iff)

lemma take_priority_Ok:
  "take_priority available seen is = Ok out \<longleftrightarrow>
     out = seen @ is \<and> (\<forall>i \<in> set is. is_ok (validate_slug i) \<and> i \<in> available) \<and> distinct is \<and> set is \<inter> set seen = {}"
  by (induction available seen "is" rule: take_priority.induct) auto

lemma normalizePriority_Ok:
  "normalizePriority requested resolved = Ok out \<longleftrightarrow>
     out = requested @ filter (\<lambda>i. i \<notin> set requested) resolved \<and>
     (\<forall>i \<in> set requested. is_ok (validate_slug i)) \<and> set requested \<subseteq> set resolved \<and> distinct requested"
proof (cases "take_priority (set resolved) [] requested")
  case (Inl e)
  then have "take_priority (set resolved) [] requested \<noteq> Ok requested" by simp
  then show ?thesis unfolding take_priority_Ok using Inl by (auto simp: normalizePriority_def)
next
  case (Inr seen)
  then have "seen = requested" "\<forall>i \<in> set requested. is_ok (validate_slug i) \<and> i \<in> set resolved" "distinct requested"
    unfolding take_priority_Ok by simp_all
  then show ?thesis using Inr by (auto simp: normalizePriority_def)
qed

section \<open>What a composition resolves to\<close>

definition published :: "library \<Rightarrow> composition \<Rightarrow> string set" where
  "published lib c = {i. i \<notin> set (co_exclusions c) \<and> hasDefinition lib i \<and>
     (i \<in> set (co_lists c) \<or> (\<exists>k \<in> set (co_categories c). i \<in> set (category_lists lib k)))}"

definition priority_ok :: "string list \<Rightarrow> bool" where
  "priority_ok is \<longleftrightarrow> distinct is \<and> (\<forall>i \<in> set is. is_ok (validate_slug i))"

lemma filterKnownPriority_full: "set is \<subseteq> set resolved \<Longrightarrow> filterKnownPriority is resolved = is"
  by (auto simp: filterKnownPriority_def filter_id_conv)

lemma resolve_split:
  assumes "priority_ok (co_priority c)"
  shows "resolveComposition lib c = filter (\<lambda>i. i \<in> published lib c) (co_priority c) @
    sorted_list_of_set (published lib c - set (co_priority c))"
    "finite (published lib c)"
proof -
  define resolved where "resolved = StableStrings (filter (\<lambda>i. i \<notin> set (co_exclusions c) \<and> hasDefinition lib i)
    (co_lists c @ concat (map (category_lists lib) (co_categories c))))"
  have r: "set resolved = published lib c" "distinct resolved" "sorted resolved"
    by (auto simp: resolved_def StableStrings_sort_unique published_def strict_sorted_sorted)
  define front where "front = filterKnownPriority (co_priority c) resolved"
  have f: "front = filter (\<lambda>i. i \<in> published lib c) (co_priority c)" by (simp add: front_def filterKnownPriority_def r)
  have "normalizePriority front resolved = Ok (front @ filter (\<lambda>i. i \<notin> set front) resolved)"
    unfolding normalizePriority_Ok using assms by (auto simp: f r priority_ok_def)
  then have "resolveComposition lib c = front @ filter (\<lambda>i. i \<notin> set front) resolved"
    unfolding resolveComposition_def Let_def resolved_def [symmetric] front_def [symmetric] by simp
  moreover have "filter (\<lambda>i. i \<notin> set front) resolved = sorted_list_of_set (published lib c - set (co_priority c))"
    by (rule sorted_distinct_set_unique) (use r sorted_filter [of "\<lambda>x. x" resolved] in \<open>auto simp: f simp flip: r(1)\<close>)
  ultimately show "resolveComposition lib c = filter (\<lambda>i. i \<in> published lib c) (co_priority c) @
    sorted_list_of_set (published lib c - set (co_priority c))" by (simp add: f)
  show "finite (published lib c)" unfolding r(1) [symmetric] by simp
qed

lemma resolve_set: "priority_ok (co_priority c) \<Longrightarrow> set (resolveComposition lib c) = published lib c \<and> distinct (resolveComposition lib c)"
  by (auto simp: resolve_split priority_ok_def)

lemma resolve_self:
  assumes "priority_ok (co_priority c)" "set (co_priority c) = published lib c"
  shows "resolveComposition lib c = co_priority c"
  using assms by (simp add: resolve_split)

lemma published_slugs: "well_typed lib \<Longrightarrow> i \<in> published lib c \<Longrightarrow> is_ok (validate_slug i)"
  using base_slug(1) by (auto simp: published_def hasDefinition_def list_definition_def)

text \<open>What an accepted request is, before its priority is looked at.\<close>

lemma validComposition_OkD:
  assumes "validComposition lib requested = Ok c"
  shows "co_lists c = StableStrings (co_lists requested)" "co_categories c = StableStrings (co_categories requested)"
    "co_exclusions c = StableStrings (co_exclusions requested)" "published lib c \<noteq> {}"
    "published lib c = published lib requested"
    "\<exists>resolved. set resolved = published lib c \<and> distinct resolved \<and> sorted resolved \<and>
       normalizePriority (co_priority requested) resolved = Ok (co_priority c)"
    "set (co_lists c) \<inter> set (co_exclusions c) = {}"
proof -
  define base where "base = \<lparr>co_lists = StableStrings (co_lists requested), co_categories = StableStrings (co_categories requested),
    co_exclusions = StableStrings (co_exclusions requested), co_domains = [], co_priority = []\<rparr>"
  define resolved where "resolved = resolveComposition lib base"
  have b: "set resolved = published lib base \<and> distinct resolved" "resolved = sorted_list_of_set (published lib base)"
    unfolding resolved_def using resolve_set [of base lib] resolve_split(1) [of base lib]
    by (simp_all add: base_def priority_ok_def)
  note v = assms [unfolded validComposition_def Let_def, folded base_def, folded resolved_def]
  obtain ds p where c: "resolved \<noteq> []" "normalizePriority (co_priority requested) resolved = Ok p"
      "c = base\<lparr>co_domains := ds, co_priority := p\<rparr>" "set (co_lists base) \<inter> set (co_exclusions base) = {}"
    using v by (simp add: base_def find_None_iff disjoint_iff split: if_splits option.splits sum.splits) blast+
  have e: "published lib c = published lib base" "published lib base = published lib requested"
    by (simp_all add: published_def c base_def StableStrings_sort_unique)
  show "co_lists c = StableStrings (co_lists requested)" "co_categories c = StableStrings (co_categories requested)"
    "co_exclusions c = StableStrings (co_exclusions requested)" "set (co_lists c) \<inter> set (co_exclusions c) = {}"
    using c(4) by (simp_all add: c base_def)
  show "published lib c \<noteq> {}" using c(1) b(1) e(1) by auto
  show "published lib c = published lib requested" using e by simp
  show "\<exists>resolved. set resolved = published lib c \<and> distinct resolved \<and> sorted resolved \<and>
       normalizePriority (co_priority requested) resolved = Ok (co_priority c)"
    using b c e by (metis composition.select_convs(5) composition.surjective composition.update_convs(5) sorted_sorted_list_of_set)
qed

text \<open>
  C23. What an accepted composition saves is what it publishes: exactly the lists it names or its categories carry,
  less the excluded ones, each once, in the saved order, which starts with the order the request gave.
\<close>

theorem accepted_composition_published:
  assumes "well_typed lib" "validComposition lib requested = Ok c"
  shows "resolveComposition lib c = co_priority c \<and> co_priority c \<noteq> [] \<and> distinct (co_priority c) \<and>
    set (co_priority c) = published lib requested \<and>
    take (length (co_priority requested)) (co_priority c) = co_priority requested"
proof -
  note f = validComposition_OkD [OF assms(2)]
  obtain resolved where r: "set resolved = published lib c" "distinct resolved"
      "normalizePriority (co_priority requested) resolved = Ok (co_priority c)" using f(6) by blast
  have p: "co_priority c = co_priority requested @ filter (\<lambda>i. i \<notin> set (co_priority requested)) resolved"
      "set (co_priority requested) \<subseteq> set resolved" "distinct (co_priority requested)"
    using r(3) unfolding normalizePriority_Ok by blast+
  have s: "set (co_priority c) = published lib c" "distinct (co_priority c)" using p r by auto
  then have "priority_ok (co_priority c)" using published_slugs [OF assms(1), of _ c] by (auto simp: priority_ok_def)
  then have "resolveComposition lib c = co_priority c" using s(1) by (rule resolve_self)
  then show ?thesis using s p(1) f(4,5) by auto
qed

text \<open>
  A stored profile follows the library: whatever the library holds now, the profile publishes exactly the lists
  it names or its categories carry now, less the excluded ones, first those of its order that are still there,
  in that order, then the others in the order of their identities.
\<close>

theorem stored_profile_follows_library:
  assumes "priority_ok (pf_priority p)"
  shows "set (ResolvedLists lib p) = published lib (profile_composition p) \<and> distinct (ResolvedLists lib p) \<and>
    ResolvedLists lib p = filter (\<lambda>i. i \<in> published lib (profile_composition p)) (pf_priority p) @
      sorted_list_of_set (published lib (profile_composition p) - set (pf_priority p))"
proof -
  have "priority_ok (co_priority (profile_composition p))" using assms by (simp add: profile_composition_def)
  from resolve_set [OF this] resolve_split(1) [OF this] show ?thesis by (simp add: ResolvedLists_def profile_composition_def)
qed

section \<open>The order of the library\<close>

lemma Lists_iff:
  assumes "well_typed lib"
  shows "i \<in> set (Lists lib) \<longleftrightarrow> knownList lib i"
proof -
  have "i \<in> set (map fst (lb_definitions lib)) \<or> i \<in> cl_id ` snd ` set (lb_lists lib)" if k: "knownList lib i"
  proof (cases "map_of (lb_definitions lib) i")
    case None
    then obtain l where l: "map_of (lb_lists lib) i = Some l"
      using k by (auto simp: knownList_def baseDefinition_def split: if_splits)
    then have "cl_id l = i" using assms by (auto simp: well_typed_def lists_ok_def dest!: map_of_SomeD)
    then show ?thesis using l by (force dest!: map_of_SomeD)
  qed (force dest!: map_of_SomeD)
  then show ?thesis by (auto simp: Lists_def customLists_def)
qed

lemma hasDefinition_known: "hasDefinition lib i = knownList lib i"
  by (simp add: hasDefinition_def knownList_def list_definition_def)

lemma category_members_known:
  assumes "well_typed lib"
  shows "set (concat (map cd_lists (mergedCategories lib))) \<subseteq> set (Lists lib)"
proof -
  have "mergedCategory lib c = Some d \<Longrightarrow> i \<in> set (cd_lists d) \<Longrightarrow> knownList lib i" for c d i
    by (auto simp: mergedCategory_def Let_def StableStrings_sort_unique split: if_splits)
  then show ?thesis using Lists_iff [OF assms] by (auto simp: mergedCategories_def dest!: sym [of "Some _"] split: option.splits)
qed

text \<open>What the service relies on of the optional repository.\<close>

locale priority_repository =
  fixes pq :: "'w priority_repo" and order :: "'w \<Rightarrow> string list"
  assumes read_law: "pq_read pq w = (Ok is, w') \<Longrightarrow> is = order w \<and> order w' = order w"
    and write_law: "pq_write pq is w = (None, w') \<Longrightarrow> order w' = is"
begin

lemma order_kept:
  assumes "SetDefaultPriority (Some pq) priority lib w = (None, w')" "DefaultPriority (Some pq) lib w' = (Ok global, w'')"
    "well_typed lib"
  shows "global = priority"
proof -
  have v: "validPriorityPermutation priority (Lists lib)" "order w' = priority"
    using assms(1) write_law by (auto simp: SetDefaultPriority_def split: if_splits)
  obtain stored where s: "pq_read pq w' = (Ok stored, w'')"
      "global = mergePriority stored (mergePriority (concat (map cd_lists (mergedCategories lib))) (Lists lib))"
    using assms(2) by (auto simp: DefaultPriority_def split: prod.splits sum.splits)
  have "stored = priority" using read_law [OF s(1)] v(2) by simp
  then show ?thesis using s(2) validPriorityPermutation_set [OF v(1)] category_members_known [OF assms(3)] by (simp add: mergePriority_permutation mergePriority_facts)
qed

lemma new_profile_order:
  assumes "SetDefaultPriority (Some pq) priority lib w = (None, w')" "co_priority requested = []"
    "validCompositionWithDefaultPriority (Some pq) lib requested w' = (Ok c, w'')"
    "well_typed lib"
  shows "co_priority c = filter (\<lambda>i. i \<in> published lib requested) priority"
proof -
  obtain c0 where c0: "validComposition lib requested = Ok c0"
    using assms(2,3) by (auto simp: validCompositionWithDefaultPriority_def split: sum.splits)
  define resolved where "resolved = resolveComposition lib (c0\<lparr>co_domains := [], co_priority := []\<rparr>)"
  have r: "set resolved = published lib requested"
    using resolve_set [of "c0\<lparr>co_domains := [], co_priority := []\<rparr>" lib] validComposition_OkD(5) [OF c0]
    by (simp add: resolved_def priority_ok_def published_def)
  obtain global p where g: "DefaultPriority (Some pq) lib w' = (Ok global, w'')"
      "normalizePriority (filterKnownPriority global resolved) resolved = Ok p" "c = c0\<lparr>co_priority := p\<rparr>"
    using assms(2,3) c0 by (auto simp: validCompositionWithDefaultPriority_def Let_def resolved_def split: sum.splits prod.splits)
  have [simp]: "global = priority" using order_kept [OF assms(1) g(1) assms(4)] .
  have "set priority = set (Lists lib)"
    using assms(1) validPriorityPermutation_set by (auto simp: SetDefaultPriority_def split: if_splits)
  then have "published lib requested \<subseteq> set priority" using Lists_iff [OF assms(4)] by (auto simp: published_def hasDefinition_known)
  then show ?thesis using g(2,3) by (auto simp: normalizePriority_Ok filterKnownPriority_def r filter_empty_conv)
qed

end

end
