(* ===== verification/SqliteProfiles.thy ===== *)
theory SqliteProfiles
  imports Composition SqliteLibrary Documents
begin

text \<open>
  \<open>internal/infrastructure/sqlite\<close>, the tables of profiles, outputs and publications: \<open>profiles.go\<close>, \<open>settings.go\<close>,
  \<open>library_priority.go\<close>, \<open>outputs.go\<close>, \<open>output_prefix.go\<close>, \<open>output_addresses.go\<close>, \<open>retirement.go\<close>, \<open>publish.go\<close>,
  \<open>output_attempts.go\<close>, \<open>scan.go\<close>, \<open>device.go\<close> and \<open>profiles_pagination.go\<close>. As in \<open>SqliteLibrary\<close> a table is a list
  of rows and a transaction that fails changes nothing. Of the schema's constraints and triggers those are written
  out that the Go code has not checked itself before the statement. An absent identity (\<open>NULL\<close>) is the empty string.
\<close>

section \<open>The tables\<close>

datatype store_error =
    NotFound | IdentityCollision | ProfileArchived | ProfileNotArchived | OutputExists | SubscriptionExists
  | SubscriptionMissing | SubscriptionRevoked | ProfileChanged | BuildSuperseded | InvalidInput string | StoreFailed string

record profile_entry =
  pe_id :: string
  pe_name :: string
  pe_interval :: refresh_interval
  pe_last :: time
  pe_failed :: bool
  pe_archived :: time
  pe_deleted :: time
  pe_created :: time
  pe_updated :: time

record output_row =
  or_out :: profile_output
  or_removed :: time

record plan_snapshot =
  sn_id :: string
  sn_output :: string
  sn_hash :: string
  sn_json :: string
  sn_policy :: string
  sn_catalog :: string
  sn_cutoff :: time
  sn_created :: time
  sn_status :: string

record artifact_build =
  ab_id :: string
  ab_output :: string
  ab_snapshot :: string
  ab_renderer :: string
  ab_version :: string
  ab_hash :: string
  ab_path :: string
  ab_size :: int
  ab_type :: string
  ab_created :: time
  ab_validation :: string
  ab_status :: string

record output_attempt =
  oa_output :: string
  oa_status :: string
  oa_code :: string
  oa_projected :: int
  oa_maximum :: int
  oa_uncovered :: "uncovered_list list"
  oa_artifact :: string
  oa_completed :: time

record subscription =
  sb_token :: string
  sb_output :: string
  sb_hash :: "nat list"
  sb_created :: time

record publication_candidate =
  ca_snapshot :: plan_snapshot
  ca_artifact :: artifact_build
  ca_attempt :: output_attempt
  ca_revision :: "nat list"
  ca_prefix :: string
  ca_keep :: bool

record publication_db =
  pb_profiles :: "profile_entry list"
  pb_lists :: "(string \<times> string) list"
  pb_categories :: "(string \<times> string) list"
  pb_exclusions :: "(string \<times> string) list"
  pb_domains :: "(string \<times> string \<times> string list) list"
  pb_priorities :: "(string \<times> string \<times> nat) list"
  pb_outputs :: "output_row list"
  pb_snapshots :: "plan_snapshot list"
  pb_artifacts :: "artifact_build list"
  pb_attempts :: "output_attempt list"
  pb_subscriptions :: "subscription list"
  pb_revocations :: "(string \<times> time) list"
  pb_devices :: "device list"
  pb_order :: "(string \<times> nat) list"

type_synonym 'e pub_world = "publication_db \<times> 'e"

definition run_tx ::
  "'e sql_env \<Rightarrow> (publication_db \<Rightarrow> (store_error, 'a \<times> publication_db) result) \<Rightarrow> 'e pub_world
   \<Rightarrow> (store_error, 'a) result \<times> 'e pub_world" where
  "run_tx env body w =
     (case se_fails env (snd w) of
        (Some m, e) \<Rightarrow> (Err (StoreFailed m), (fst w, e))
      | (None, e) \<Rightarrow> (case body (fst w) of Inl x \<Rightarrow> (Err x, (fst w, e)) | Inr (a, db) \<Rightarrow> (Ok a, (db, e))))"

definition run_query ::
  "'e sql_env \<Rightarrow> (publication_db \<Rightarrow> (store_error, 'a) result) \<Rightarrow> 'e pub_world \<Rightarrow> (store_error, 'a) result \<times> 'e pub_world" where
  "run_query env body w = run_tx env (\<lambda>db. then_do (body db) (\<lambda>a. Ok (a, db))) w"

abbreviation pub_done :: "publication_db \<Rightarrow> (store_error, unit \<times> publication_db) result" where
  "pub_done db \<equiv> Ok ((), db)"

definition validID :: "string \<Rightarrow> bool" where
  "validID v \<longleftrightarrow> length v = 32 \<and> to_lower v = v \<and> (\<forall>c \<in> set v. is_hex c)"

definition validHash :: "string \<Rightarrow> bool" where
  "validHash v \<longleftrightarrow> length v = 64 \<and> to_lower v = v \<and> (\<forall>c \<in> set v. is_hex c)"

section \<open>Profiles\<close>

definition profileLimit :: nat where "profileLimit = 200"

definition live_profile :: "string \<Rightarrow> publication_db \<Rightarrow> profile_entry option" where
  "live_profile p db = find (\<lambda>e. pe_id e = p \<and> pe_deleted e = 0) (pb_profiles db)"

definition requireWritableProfile :: "string \<Rightarrow> publication_db \<Rightarrow> (store_error, unit) result" where
  "requireWritableProfile p db =
     (case live_profile p db of
        None \<Rightarrow> Err NotFound
      | Some e \<Rightarrow> if pe_archived e \<noteq> 0 then Err ProfileArchived else Ok ())"

definition validSlugSet :: "string list \<Rightarrow> bool" where
  "validSlugSet vs \<longleftrightarrow> length vs \<le> 128 \<and> (\<forall>i \<in> set vs. is_ok (validate_slug i))"

definition normalizedComposition :: "profile \<Rightarrow> (string list \<times> string list \<times> string list \<times> string list) option" where
  "normalizedComposition p =
     (let ls = StableStrings (pf_lists p); cs = StableStrings (pf_categories p); es = StableStrings (pf_exclusions p) in
      if length ls \<noteq> length (pf_lists p) \<or> length cs \<noteq> length (pf_categories p) \<or> length es \<noteq> length (pf_exclusions p)
      then None
      else if \<not> validSlugSet ls \<or> \<not> validSlugSet cs \<or> \<not> validSlugSet es then None
      else if length ls + length cs = 0 then None
      else if set es \<inter> set ls \<noteq> {} then None
      else if \<not> distinct (pf_priority p) \<or> (\<exists>i \<in> set (pf_priority p). \<not> is_ok (validate_slug i)) then None
      else Some (ls, cs, es, pf_priority p))"

definition writeComposition ::
  "string \<Rightarrow> string list \<times> string list \<times> string list \<times> string list \<Rightarrow> publication_db
   \<Rightarrow> (store_error, publication_db) result" where
  "writeComposition p parts db =
     (case parts of (ls, cs, es, priority) \<Rightarrow>
        if 128 < length priority then Err (StoreFailed ''write profile priority'')
        else Ok (db\<lparr>pb_lists := pb_lists db @ map (Pair p) ls,
               pb_categories := pb_categories db @ map (Pair p) cs,
               pb_exclusions := pb_exclusions db @ map (Pair p) es,
               pb_priorities := pb_priorities db @ map (Pair p) (zip priority [0..<length priority])\<rparr>))"

definition validListDomains :: "(string \<times> string list) list \<Rightarrow> bool" where
  "validListDomains m \<longleftrightarrow> length m \<le> 128 \<and>
     (\<forall>(i, vs) \<in> set m. is_ok (validate_slug i) \<and> length vs \<le> 64) \<and>
     sum_list (map (length \<circ> snd) m) \<le> 512 \<and>
     (\<forall>(i, vs) \<in> set m. length (StableStrings vs) = length vs \<and> (\<forall>v \<in> set vs. normalize_domain v = Ok v))"

definition writeListDomains ::
  "string \<Rightarrow> (string \<times> string list) list \<Rightarrow> publication_db \<Rightarrow> (store_error, publication_db) result" where
  "writeListDomains p m db =
     (if \<not> validListDomains m then Err (InvalidInput ''profile list domains'')
      else if \<exists>(i, vs) \<in> set m. \<not> domains_json_fits vs then Err (StoreFailed ''write profile list domains'')
      else Ok (db\<lparr>pb_domains := pb_domains db @ map (\<lambda>(i, vs). (p, i, vs)) (sort_key fst m)\<rparr>))"

definition clearComposition :: "string \<Rightarrow> publication_db \<Rightarrow> publication_db" where
  "clearComposition p db =
     (let others = (\<lambda>r. fst r \<noteq> p) in
      db\<lparr>pb_lists := filter others (pb_lists db), pb_categories := filter others (pb_categories db),
         pb_exclusions := filter others (pb_exclusions db), pb_domains := filter (\<lambda>r. fst r \<noteq> p) (pb_domains db),
         pb_priorities := filter (\<lambda>r. fst r \<noteq> p) (pb_priorities db)\<rparr>)"

definition update_profiles :: "(profile_entry \<Rightarrow> bool) \<Rightarrow> (profile_entry \<Rightarrow> profile_entry) \<Rightarrow> publication_db \<Rightarrow> publication_db" where
  "update_profiles which change db =
     db\<lparr>pb_profiles := map (\<lambda>e. if which e then change e else e) (pb_profiles db)\<rparr>"

definition live_id :: "string \<Rightarrow> profile_entry \<Rightarrow> bool" where
  "live_id p e \<longleftrightarrow> pe_id e = p \<and> pe_deleted e = 0"

text \<open>An \<open>UPDATE\<close> that must hit exactly one row.\<close>

definition one_profile :: "(profile_entry \<Rightarrow> bool) \<Rightarrow> publication_db \<Rightarrow> bool" where
  "one_profile which db \<longleftrightarrow> length (filter which (pb_profiles db)) = 1"

definition create_profile_rows ::
  "profile \<Rightarrow> string list \<times> string list \<times> string list \<times> string list \<Rightarrow> publication_db
   \<Rightarrow> (store_error, unit \<times> publication_db) result" where
  "create_profile_rows p parts db =
     (if pf_id p \<in> set (map pe_id (pb_profiles db)) then Err IdentityCollision
      else
        let e = \<lparr>pe_id = pf_id p, pe_name = pf_name p, pe_interval = RefreshDefault, pe_last = 0, pe_failed = False,
              pe_archived = 0, pe_deleted = 0, pe_created = pf_created p, pe_updated = pf_updated p\<rparr>
        in then_do (writeComposition (pf_id p) parts (db\<lparr>pb_profiles := pb_profiles db @ [e]\<rparr>)) (\<lambda>db.
             then_do (writeListDomains (pf_id p) (pf_domains p) db) pub_done))"

definition CreateProfileRows ::
  "'e sql_env \<Rightarrow> profile \<Rightarrow> 'e pub_world \<Rightarrow> (store_error, unit) result \<times> 'e pub_world" where
  "CreateProfileRows env p w =
     (case normalizedComposition p of
        Some parts \<Rightarrow>
          if \<not> validID (pf_id p) \<or> pf_name p = [] \<or> 120 < length (rune_codes (pf_name p)) \<or>
             pf_created p = 0 \<or> pf_updated p = 0
          then (Err (InvalidInput ''profile''), w)
          else run_tx env (create_profile_rows p parts) w
      | None \<Rightarrow> (Err (InvalidInput ''profile''), w))"

definition update_profile_rows ::
  "profile \<Rightarrow> string list \<times> string list \<times> string list \<times> string list \<Rightarrow> publication_db
   \<Rightarrow> (store_error, unit \<times> publication_db) result" where
  "update_profile_rows p parts db =
     then_do (requireWritableProfile (pf_id p) db) (\<lambda>_.
       if \<not> one_profile (\<lambda>e. pe_id e = pf_id p) db then Err NotFound
       else
         let db = update_profiles (\<lambda>e. pe_id e = pf_id p) (\<lambda>e. e\<lparr>pe_name := pf_name p, pe_updated := pf_updated p\<rparr>) db
         in then_do (writeComposition (pf_id p) parts (clearComposition (pf_id p) db)) (\<lambda>db.
              then_do (writeListDomains (pf_id p) (pf_domains p) db) pub_done))"

definition UpdateProfileRows ::
  "'e sql_env \<Rightarrow> profile \<Rightarrow> 'e pub_world \<Rightarrow> (store_error, unit) result \<times> 'e pub_world" where
  "UpdateProfileRows env p w =
     (case normalizedComposition p of
        Some parts \<Rightarrow>
          if \<not> validID (pf_id p) \<or> pf_name p = [] \<or> 120 < length (rune_codes (pf_name p)) \<or> pf_updated p = 0
          then (Err (InvalidInput ''profile''), w)
          else run_tx env (update_profile_rows p parts) w
      | None \<Rightarrow> (Err (InvalidInput ''profile''), w))"

definition SetProfileArchived ::
  "'e sql_env \<Rightarrow> string \<Rightarrow> time \<Rightarrow> time \<Rightarrow> 'e pub_world \<Rightarrow> (store_error, unit) result \<times> 'e pub_world" where
  "SetProfileArchived env p archived updated w =
     (if \<not> validID p \<or> updated = 0 then (Err (InvalidInput ''list archival''), w)
      else run_tx env (\<lambda>db.
        if archived < 0 \<and> live_profile p db \<noteq> None then Err (StoreFailed ''update list archival'')
        else if \<not> one_profile (live_id p) db then Err NotFound
        else pub_done (update_profiles (live_id p) (\<lambda>e. e\<lparr>pe_archived := archived, pe_updated := updated\<rparr>) db)) w)"

definition UpdateProfileRefreshInterval ::
  "'e sql_env \<Rightarrow> string \<Rightarrow> refresh_interval \<Rightarrow> time \<Rightarrow> 'e pub_world \<Rightarrow> (store_error, unit) result \<times> 'e pub_world" where
  "UpdateProfileRefreshInterval env p i updated w =
     (if \<not> validID p \<or> updated = 0 then (Err (InvalidInput ''list schedule''), w)
      else if \<not> interval_valid i then (Err (InvalidInput ''refresh interval''), w)
      else run_tx env (\<lambda>db. then_do (requireWritableProfile p db) (\<lambda>_.
        if \<not> one_profile (live_id p) db then Err NotFound
        else pub_done (update_profiles (live_id p) (\<lambda>e. e\<lparr>pe_interval := i, pe_updated := updated\<rparr>) db))) w)"

definition RecordProfileRefreshResult ::
  "'e sql_env \<Rightarrow> string \<Rightarrow> time \<Rightarrow> bool \<Rightarrow> 'e pub_world \<Rightarrow> (store_error, unit) result \<times> 'e pub_world" where
  "RecordProfileRefreshResult env p refreshed failed w =
     (if \<not> validID p \<or> refreshed = 0 then (Err (InvalidInput ''profile refresh result''), w)
      else run_tx env (\<lambda>db.
        if refreshed < 0 \<and> live_profile p db \<noteq> None then Err (StoreFailed ''record profile refresh result'')
        else if \<not> one_profile (live_id p) db then Err NotFound
        else pub_done (update_profiles (live_id p) (\<lambda>e. e\<lparr>pe_last := refreshed, pe_failed := failed\<rparr>) db)) w)"

text \<open>Reading a profile back: its row, then the bounded parts of its composition.\<close>

definition scanProfile :: "profile_entry \<Rightarrow> profile" where
  "scanProfile e = \<lparr>pf_id = pe_id e, pf_name = pe_name e, pf_lists = [], pf_categories = [], pf_exclusions = [],
     pf_domains = [], pf_priority = [], pf_interval = pe_interval e, pf_last = (if 0 < pe_last e then pe_last e else 0),
     pf_last_failed = pe_failed e, pf_archived = (if 0 < pe_archived e then pe_archived e else 0),
     pf_created = pe_created e, pf_updated = pe_updated e\<rparr>"

definition compositionPart :: "string \<Rightarrow> (string \<times> string) list \<Rightarrow> string list" where
  "compositionPart p rows = take 128 (sort (map snd (filter (\<lambda>r. fst r = p) rows)))"

definition readComposition :: "publication_db \<Rightarrow> profile \<Rightarrow> profile" where
  "readComposition db p = p\<lparr>
     pf_lists := compositionPart (pf_id p) (pb_lists db),
     pf_categories := compositionPart (pf_id p) (pb_categories db),
     pf_exclusions := compositionPart (pf_id p) (pb_exclusions db),
     pf_priority := take 128 (map fst (sort_key snd (map snd (filter (\<lambda>r. fst r = pf_id p) (pb_priorities db)))))\<rparr>"

definition readListDomains :: "publication_db \<Rightarrow> profile \<Rightarrow> (store_error, profile) result" where
  "readListDomains db p =
     (let m = take 128 (sort_key fst (map snd (filter (\<lambda>r. fst r = pf_id p) (pb_domains db)))) in
      if \<not> validListDomains m then Err (InvalidInput ''stored profile list domains'')
      else Ok (p\<lparr>pf_domains := m\<rparr>))"

definition readProfile :: "string \<Rightarrow> publication_db \<Rightarrow> (store_error, profile) result" where
  "readProfile p db =
     (case live_profile p db of
        None \<Rightarrow> Err NotFound
      | Some e \<Rightarrow> readListDomains db (readComposition db (scanProfile e)))"

definition ProfileRow :: "'e sql_env \<Rightarrow> string \<Rightarrow> 'e pub_world \<Rightarrow> (store_error, profile) result \<times> 'e pub_world" where
  "ProfileRow env p w = (if \<not> validID p then (Err NotFound, w) else run_query env (readProfile p) w)"

definition readProfileDetails :: "publication_db \<Rightarrow> profile list \<Rightarrow> (store_error, profile list) result" where
  "readProfileDetails db ps =
     (if profileLimit < length ps then Err (InvalidInput ''profile detail query'')
      else traverse (\<lambda>p. readListDomains db (readComposition db p)) ps)"

text \<open>\<open>ORDER BY created_at_ns DESC, id ASC\<close>.\<close>

definition newest_first :: "profile_entry list \<Rightarrow> profile_entry list" where
  "newest_first = sort_key (\<lambda>e. (- pe_created e, pe_id e))"

definition live_profiles :: "publication_db \<Rightarrow> profile_entry list" where
  "live_profiles db = newest_first (filter (\<lambda>e. pe_deleted e = 0) (pb_profiles db))"

definition Profiles :: "'e sql_env \<Rightarrow> 'e pub_world \<Rightarrow> (store_error, profile list) result \<times> 'e pub_world" where
  "Profiles env = run_query env (\<lambda>db. readProfileDetails db (map scanProfile (take profileLimit (live_profiles db))))"

definition ProfilesForScheduling :: "'e sql_env \<Rightarrow> 'e pub_world \<Rightarrow> (store_error, profile list) result \<times> 'e pub_world" where
  "ProfilesForScheduling env = run_query env (\<lambda>db. Ok (map scanProfile (live_profiles db)))"

datatype profile_shelf = ShelfAll | ShelfActive | ShelfArchived | ShelfOther string

record profile_page =
  pp_profiles :: "profile list"
  pp_next :: string
  pp_archived :: nat

definition on_shelf :: "profile_shelf \<Rightarrow> profile_entry \<Rightarrow> bool" where
  "on_shelf s e \<longleftrightarrow> pe_deleted e = 0 \<and>
     (case s of ShelfActive \<Rightarrow> pe_archived e = 0 | ShelfArchived \<Rightarrow> pe_archived e \<noteq> 0 | _ \<Rightarrow> True)"

definition profilePageRows :: "profile_shelf \<Rightarrow> string \<Rightarrow> publication_db \<Rightarrow> (store_error, profile_entry list) result" where
  "profilePageRows s after db =
     (let rows = (\<lambda>later. take (profileLimit + 1) (newest_first (filter (\<lambda>e. on_shelf s e \<and> later e) (pb_profiles db)))) in
      if after = [] then Ok (rows (\<lambda>_. True))
      else case find (\<lambda>e. pe_id e = after) (pb_profiles db) of
        None \<Rightarrow> Err NotFound
      | Some c \<Rightarrow> Ok (rows (\<lambda>e. pe_created e < pe_created c \<or> (pe_created e = pe_created c \<and> after < pe_id e))))"

definition profile_page_rows :: "profile_shelf \<Rightarrow> string \<Rightarrow> publication_db \<Rightarrow> (store_error, profile_page) result" where
  "profile_page_rows s after db =
     then_do (profilePageRows s after db) (\<lambda>rows.
       let next = (if profileLimit < length rows then pe_id (rows ! (profileLimit - 1)) else []) in
       then_do (readProfileDetails db (map scanProfile (take profileLimit rows))) (\<lambda>ps.
         Ok \<lparr>pp_profiles = ps, pp_next = next,
             pp_archived = length (filter (\<lambda>e. pe_deleted e = 0 \<and> pe_archived e \<noteq> 0) (pb_profiles db))\<rparr>))"

definition ProfilePage ::
  "'e sql_env \<Rightarrow> profile_shelf \<Rightarrow> string \<Rightarrow> 'e pub_world \<Rightarrow> (store_error, profile_page) result \<times> 'e pub_world" where
  "ProfilePage env s after w =
     (case s of
        ShelfOther _ \<Rightarrow> (Err (InvalidInput ''profile shelf''), w)
      | _ \<Rightarrow>
          if after \<noteq> [] \<and> \<not> validID after then (Err NotFound, w)
          else run_query env (profile_page_rows s after) w)"

section \<open>The order of the library\<close>

definition DefaultPriorityRows :: "'e sql_env \<Rightarrow> 'e pub_world \<Rightarrow> (store_error, string list) result \<times> 'e pub_world" where
  "DefaultPriorityRows env = run_query env (\<lambda>db. Ok (map fst (sort_key snd (pb_order db))))"

definition SetDefaultPriorityRows ::
  "'e sql_env \<Rightarrow> string list \<Rightarrow> 'e pub_world \<Rightarrow> (store_error, unit) result \<times> 'e pub_world" where
  "SetDefaultPriorityRows env priority w =
     (if \<not> distinct priority \<or> (\<exists>i \<in> set priority. \<not> is_ok (validate_slug i))
      then (Err (InvalidInput ''library priority''), w)
      else run_tx env (\<lambda>db. pub_done (db\<lparr>pb_order := zip priority [0..<length priority]\<rparr>)) w)"

end
