(* ===== verification/SqlitePublications.thy ===== *)
theory SqlitePublications
  imports SqliteProfiles
begin

text \<open>
  The statements on outputs, subscriptions and publications (\<open>outputs.go\<close>, \<open>output_prefix.go\<close>, \<open>output_addresses.go\<close>,
  \<open>retirement.go\<close>, \<open>publish.go\<close>, \<open>output_attempts.go\<close>, \<open>device.go\<close>) over the tables of \<open>SqliteProfiles\<close>.
\<close>

section \<open>Outputs\<close>

definition ValidateFQDNPrefix :: "string \<Rightarrow> string \<Rightarrow> (store_error, unit) result" where
  "ValidateFQDNPrefix target p =
     (if p = [] then Ok ()
      else if target \<noteq> ''keenetic-dns'' \<or> 24 < length p \<or> \<not> is_ok (validate_slug p)
      then Err (InvalidInput ''fqdn group prefix'')
      else Ok ())"

text \<open>\<open>[32]byte{}\<close>.\<close>

definition no_hash :: "nat list" where "no_hash = replicate 32 0"

record new_output =
  no_output :: profile_output
  no_token :: string
  no_token_hash :: "nat list"

definition live_output :: "string \<Rightarrow> publication_db \<Rightarrow> profile_output option" where
  "live_output i db = map_option or_out (find (\<lambda>r. ou_id (or_out r) = i \<and> or_removed r = 0) (pb_outputs db))"

definition update_outputs :: "(output_row \<Rightarrow> bool) \<Rightarrow> (output_row \<Rightarrow> output_row) \<Rightarrow> publication_db \<Rightarrow> publication_db" where
  "update_outputs which change db =
     db\<lparr>pb_outputs := map (\<lambda>r. if which r then change r else r) (pb_outputs db)\<rparr>"

definition has_id :: "string \<Rightarrow> output_row \<Rightarrow> bool" where
  "has_id i r \<longleftrightarrow> ou_id (or_out r) = i"

definition live_row :: "string \<Rightarrow> output_row \<Rightarrow> bool" where
  "live_row i r \<longleftrightarrow> has_id i r \<and> or_removed r = 0"

definition edit_out :: "(profile_output \<Rightarrow> profile_output) \<Rightarrow> output_row \<Rightarrow> output_row" where
  "edit_out f r = r\<lparr>or_out := f (or_out r)\<rparr>"

definition one_output :: "(output_row \<Rightarrow> bool) \<Rightarrow> publication_db \<Rightarrow> bool" where
  "one_output which db \<longleftrightarrow> length (filter which (pb_outputs db)) = 1"

definition known_device :: "string \<Rightarrow> publication_db \<Rightarrow> bool" where
  "known_device d db \<longleftrightarrow> d = [] \<or> d \<in> set (map dv_id (pb_devices db))"

definition has_token :: "new_output \<Rightarrow> bool" where
  "has_token c \<longleftrightarrow> no_token c \<noteq> [] \<or> no_token_hash c \<noteq> no_hash"

definition create_output_rows :: "new_output \<Rightarrow> publication_db \<Rightarrow> (store_error, unit \<times> publication_db) result" where
  "create_output_rows c db =
     (let ou = no_output c in
      then_do (requireWritableProfile (ou_profile ou) db) (\<lambda>_.
        if \<exists>r \<in> set (pb_outputs db). ou_id (or_out r) = ou_id ou \<or>
            (no_token c \<noteq> [] \<and> no_token c \<in> set (map sb_token (pb_subscriptions db)))
        then Err IdentityCollision
        else if \<exists>r \<in> set (pb_outputs db). ou_profile (or_out r) = ou_profile ou \<and> ou_target (or_out r) = ou_target ou \<and>
            or_removed r = 0
        then Err OutputExists
        else if \<not> known_device (ou_device ou) db then Err (StoreFailed ''insert output'')
        else
          let row = \<lparr>or_out = ou\<lparr>ou_latest := [], ou_previous := []\<rparr>, or_removed = 0\<rparr>;
              db = db\<lparr>pb_outputs := pb_outputs db @ [row]\<rparr>
          in pub_done (if has_token c
               then db\<lparr>pb_subscriptions := pb_subscriptions db @
                 [\<lparr>sb_token = no_token c, sb_output = ou_id ou, sb_hash = no_token_hash c, sb_created = ou_created ou\<rparr>]\<rparr>
               else db)))"

definition CreateOutput :: "'e sql_env \<Rightarrow> new_output \<Rightarrow> 'e pub_world \<Rightarrow> (store_error, unit) result \<times> 'e pub_world" where
  "CreateOutput env c w =
     (let ou = no_output c in
      case ValidateFQDNPrefix (ou_target ou) (ou_prefix ou) of
        Inl x \<Rightarrow> (Err x, w)
      | Inr _ \<Rightarrow>
          if \<not> validID (ou_id ou) \<or> \<not> validID (ou_profile ou) \<or> ou_target ou = [] \<or> ou_format ou = [] \<or>
             ou_renderer ou = [] \<or> ou_renderer_version ou = [] \<or> ou_revision ou = [] \<or> ou_created ou = 0 \<or>
             (has_token c \<and> (\<not> validID (no_token c) \<or> no_token_hash c = no_hash))
          then (Err (InvalidInput ''output''), w)
          else run_tx env (create_output_rows c) w)"

text \<open>The edits of a live output of a profile on the shelf: its device, its group prefix, its address policy.\<close>

definition writable_output :: "(profile_output \<Rightarrow> bool) \<Rightarrow> string \<Rightarrow> publication_db \<Rightarrow> (store_error, unit) result" where
  "writable_output fits i db =
     (case find (\<lambda>r. live_row i r \<and> fits (or_out r)) (pb_outputs db) of
        None \<Rightarrow> Err NotFound
      | Some r \<Rightarrow> requireWritableProfile (ou_profile (or_out r)) db)"

definition requireWritableOutput :: "string \<Rightarrow> publication_db \<Rightarrow> (store_error, unit) result" where
  "requireWritableOutput = writable_output (\<lambda>_. True)"

definition UpdateOutputDevice ::
  "'e sql_env \<Rightarrow> string \<Rightarrow> string \<Rightarrow> 'e pub_world \<Rightarrow> (store_error, unit) result \<times> 'e pub_world" where
  "UpdateOutputDevice env i d w =
     (if \<not> validID i \<or> (d \<noteq> [] \<and> \<not> validID d) then (Err NotFound, w)
      else run_tx env (\<lambda>db. then_do (writable_output (\<lambda>_. True) i db) (\<lambda>_.
        if \<not> known_device d db then Err (StoreFailed ''update output device'')
        else if \<not> one_output (has_id i) db then Err NotFound
        else pub_done (update_outputs (has_id i) (edit_out (\<lambda>ou. ou\<lparr>ou_device := d\<rparr>)) db))) w)"

definition dns_output :: "profile_output \<Rightarrow> bool" where
  "dns_output ou \<longleftrightarrow> ou_target ou = ''keenetic-dns''"

definition UpdateOutputFQDNPrefix ::
  "'e sql_env \<Rightarrow> string \<Rightarrow> string \<Rightarrow> 'e pub_world \<Rightarrow> (store_error, unit) result \<times> 'e pub_world" where
  "UpdateOutputFQDNPrefix env i p w =
     (if \<not> validID i then (Err NotFound, w)
      else case ValidateFQDNPrefix ''keenetic-dns'' p of
        Inl x \<Rightarrow> (Err x, w)
      | Inr _ \<Rightarrow> run_tx env (\<lambda>db. then_do (writable_output dns_output i db) (\<lambda>_.
          let which = (\<lambda>r. has_id i r \<and> dns_output (or_out r)) in
          if \<not> one_output which db then Err NotFound
          else pub_done (update_outputs which (edit_out (\<lambda>ou. ou\<lparr>ou_prefix := p\<rparr>)) db))) w)"

definition UpdateOutputKeepAddresses ::
  "'e sql_env \<Rightarrow> string \<Rightarrow> bool \<Rightarrow> 'e pub_world \<Rightarrow> (store_error, unit) result \<times> 'e pub_world" where
  "UpdateOutputKeepAddresses env i keep w =
     (if \<not> validID i then (Err NotFound, w)
      else run_tx env (\<lambda>db. then_do (writable_output (\<lambda>_. True) i db) (\<lambda>_.
        if \<not> one_output (live_row i) db then Err NotFound
        else pub_done (update_outputs (live_row i) (edit_out (\<lambda>ou. ou\<lparr>ou_keep := keep\<rparr>)) db))) w)"

definition output_rows :: "string \<Rightarrow> publication_db \<Rightarrow> (store_error, profile_output) result" where
  "output_rows i db = (case live_output i db of None \<Rightarrow> Err NotFound | Some ou \<Rightarrow> Ok ou)"

definition OutputRow :: "'e sql_env \<Rightarrow> string \<Rightarrow> 'e pub_world \<Rightarrow> (store_error, profile_output) result \<times> 'e pub_world" where
  "OutputRow env i w = (if \<not> validID i then (Err NotFound, w) else run_query env (output_rows i) w)"

definition live_outputs :: "publication_db \<Rightarrow> profile_output list" where
  "live_outputs db = map or_out (filter (\<lambda>r. or_removed r = 0) (pb_outputs db))"

definition OutputsByProfile ::
  "'e sql_env \<Rightarrow> string \<Rightarrow> 'e pub_world \<Rightarrow> (store_error, profile_output list) result \<times> 'e pub_world" where
  "OutputsByProfile env p w =
     (if \<not> validID p then (Err NotFound, w)
      else run_query env (\<lambda>db. Ok (take 64 (sort_key (\<lambda>ou. (ou_created ou, ou_id ou))
        (filter (\<lambda>ou. ou_profile ou = p) (live_outputs db))))) w)"

definition Outputs :: "'e sql_env \<Rightarrow> 'e pub_world \<Rightarrow> (store_error, profile_output list) result \<times> 'e pub_world" where
  "Outputs env = run_query env (\<lambda>db. Ok (take (profileLimit * 4)
     (sort_key (\<lambda>ou. (- ou_created ou, ou_id ou)) (live_outputs db))))"

section \<open>Subscriptions\<close>

definition revoked :: "publication_db \<Rightarrow> string \<Rightarrow> bool" where
  "revoked db t \<longleftrightarrow> t \<in> set (map fst (pb_revocations db))"

definition active_tokens :: "string \<Rightarrow> publication_db \<Rightarrow> subscription list" where
  "active_tokens i db = filter (\<lambda>s. sb_output s = i \<and> \<not> revoked db (sb_token s)) (pb_subscriptions db)"

definition activeSubscriptions :: "string \<Rightarrow> publication_db \<Rightarrow> nat" where
  "activeSubscriptions i db = length (active_tokens i db)"

definition add_token :: "string \<Rightarrow> string \<Rightarrow> nat list \<Rightarrow> time \<Rightarrow> publication_db \<Rightarrow> publication_db" where
  "add_token i t h at db = db\<lparr>pb_subscriptions := pb_subscriptions db @
     [\<lparr>sb_token = t, sb_output = i, sb_hash = h, sb_created = at\<rparr>]\<rparr>"

definition create_subscription_rows ::
  "string \<Rightarrow> string \<Rightarrow> nat list \<Rightarrow> time \<Rightarrow> publication_db \<Rightarrow> (store_error, unit \<times> publication_db) result" where
  "create_subscription_rows i t h at db =
     then_do (writable_output (\<lambda>_. True) i db) (\<lambda>_.
       if activeSubscriptions i db \<noteq> 0 then Err SubscriptionExists
       else if t \<in> set (map sb_token (pb_subscriptions db)) then Err IdentityCollision
       else pub_done (add_token i t h at db))"

definition CreateSubscription ::
  "'e sql_env \<Rightarrow> string \<Rightarrow> string \<Rightarrow> nat list \<Rightarrow> time \<Rightarrow> 'e pub_world \<Rightarrow> (store_error, unit) result \<times> 'e pub_world" where
  "CreateSubscription env i t h at w =
     (if \<not> validID i \<or> \<not> validID t \<or> at = 0 then (Err (InvalidInput ''subscription''), w)
      else run_tx env (create_subscription_rows i t h at) w)"

text \<open>\<open>INSERT INTO subscription_revocations \<dots> SELECT\<close> of every token not yet revoked.\<close>

definition revoke_tokens :: "(subscription \<Rightarrow> bool) \<Rightarrow> time \<Rightarrow> publication_db \<Rightarrow> publication_db" where
  "revoke_tokens which at db = db\<lparr>pb_revocations := pb_revocations db @
     map (\<lambda>s. (sb_token s, at)) (filter (\<lambda>s. which s \<and> \<not> revoked db (sb_token s)) (pb_subscriptions db))\<rparr>"

definition reissue_rows ::
  "string \<Rightarrow> string \<Rightarrow> nat list \<Rightarrow> time \<Rightarrow> publication_db \<Rightarrow> (store_error, unit \<times> publication_db) result" where
  "reissue_rows i t h at db =
     then_do (requireWritableOutput i db) (\<lambda>_.
       if activeSubscriptions i db = 0 then Err SubscriptionMissing
       else if t \<in> set (map sb_token (pb_subscriptions db)) then Err IdentityCollision
       else if at < 0 then Err (StoreFailed ''revoke previous subscription'')
       else pub_done (add_token i t h at (revoke_tokens (\<lambda>s. sb_output s = i) at db)))"

definition ReissueSubscriptionRows ::
  "'e sql_env \<Rightarrow> string \<Rightarrow> string \<Rightarrow> nat list \<Rightarrow> time \<Rightarrow> 'e pub_world \<Rightarrow> (store_error, unit) result \<times> 'e pub_world" where
  "ReissueSubscriptionRows env i t h at w =
     (if \<not> validID i then (Err NotFound, w)
      else if \<not> validID t \<or> h = no_hash \<or> at = 0 then (Err (InvalidInput ''subscription''), w)
      else run_tx env (reissue_rows i t h at) w)"

text \<open>The join of a token with its output, then the read of the output: two queries.\<close>

definition subscription_row ::
  "string \<Rightarrow> publication_db \<Rightarrow> (store_error, string \<times> nat list \<times> bool \<times> bool) result" where
  "subscription_row t db =
     (case find (\<lambda>s. sb_token s = t) (pb_subscriptions db) of
        None \<Rightarrow> Err NotFound
      | Some s \<Rightarrow>
          (case find (has_id (sb_output s)) (pb_outputs db) of
             None \<Rightarrow> Err NotFound
           | Some r \<Rightarrow> Ok (sb_output s, sb_hash s, revoked db t, or_removed r \<noteq> 0)))"

definition OutputBySubscription ::
  "'e sql_env \<Rightarrow> string \<Rightarrow> nat list \<Rightarrow> 'e pub_world \<Rightarrow> (store_error, profile_output) result \<times> 'e pub_world" where
  "OutputBySubscription env t h w =
     (if \<not> validID t then (Err NotFound, w)
      else case run_query env (subscription_row t) w of
        (Err x, w) \<Rightarrow> (Err x, w)
      | (Ok (i, hash, gone, removed), w) \<Rightarrow>
          if length hash \<noteq> 32 \<or> hash \<noteq> h then (Err NotFound, w)
          else if gone \<or> removed then (Err SubscriptionRevoked, w)
          else OutputRow env i w)"

section \<open>Retirement\<close>

definition retire :: "time \<Rightarrow> output_row \<Rightarrow> output_row" where
  "retire at r = r\<lparr>or_out := (or_out r)\<lparr>ou_device := []\<rparr>, or_removed := at\<rparr>"

definition live_of :: "string \<Rightarrow> output_row \<Rightarrow> bool" where
  "live_of p r \<longleftrightarrow> ou_profile (or_out r) = p \<and> or_removed r = 0"

definition delete_profile_rows :: "string \<Rightarrow> time \<Rightarrow> publication_db \<Rightarrow> (store_error, unit \<times> publication_db) result" where
  "delete_profile_rows p at db =
     (case live_profile p db of
        None \<Rightarrow> Err NotFound
      | Some e \<Rightarrow>
          if pe_archived e = 0 then Err ProfileNotArchived
          else if at < 0 then Err (StoreFailed ''delete profile'')
          else
            let db = revoke_tokens (\<lambda>s. \<exists>r \<in> set (pb_outputs db). ou_id (or_out r) = sb_output s \<and> live_of p r) at db;
                db = clearComposition p (update_outputs (live_of p) (retire at) db)
            in if \<not> one_profile (live_id p) db then Err NotFound
               else pub_done (update_profiles (live_id p) (\<lambda>e. e\<lparr>pe_deleted := at, pe_updated := at\<rparr>) db))"

definition DeleteProfileRows ::
  "'e sql_env \<Rightarrow> string \<Rightarrow> time \<Rightarrow> 'e pub_world \<Rightarrow> (store_error, unit) result \<times> 'e pub_world" where
  "DeleteProfileRows env p at w =
     (if \<not> validID p then (Err NotFound, w)
      else if at = 0 then (Err (InvalidInput ''profile deletion''), w)
      else run_tx env (delete_profile_rows p at) w)"

definition remove_output_rows :: "string \<Rightarrow> time \<Rightarrow> publication_db \<Rightarrow> (store_error, unit \<times> publication_db) result" where
  "remove_output_rows i at db =
     then_do (requireWritableOutput i db) (\<lambda>_.
       if at < 0 then Err (StoreFailed ''remove output'')
       else
         let db = revoke_tokens (\<lambda>s. sb_output s = i) at db in
         if \<not> one_output (live_row i) db then Err NotFound
         else pub_done (update_outputs (live_row i) (retire at) db))"

definition RemoveOutputRows ::
  "'e sql_env \<Rightarrow> string \<Rightarrow> time \<Rightarrow> 'e pub_world \<Rightarrow> (store_error, unit) result \<times> 'e pub_world" where
  "RemoveOutputRows env i at w =
     (if \<not> validID i then (Err NotFound, w)
      else if at = 0 then (Err (InvalidInput ''output removal''), w)
      else run_tx env (remove_output_rows i at) w)"

section \<open>Publication\<close>

text \<open>\<open>path.Clean\<close>, which \<open>filepath.Clean\<close> is on a system with \<open>/\<close>.\<close>

fun clean_parts :: "bool \<Rightarrow> string list \<Rightarrow> string list \<Rightarrow> string list" where
  "clean_parts rooted stack [] = rev stack"
| "clean_parts rooted stack (p # ps) =
     (if p = [] \<or> p = ''.'' then clean_parts rooted stack ps
      else if p = ''..'' then
        (case stack of
           [] \<Rightarrow> clean_parts rooted (if rooted then [] else [''..'']) ps
         | x # xs \<Rightarrow> clean_parts rooted (if x = ''..'' then ''..'' # stack else xs) ps)
      else clean_parts rooted (p # stack) ps)"

definition path_clean :: "string \<Rightarrow> string" where
  "path_clean s =
     (let rooted = has_prefix s ''/''; parts = clean_parts rooted [] (split_on (CHR ''/'') s) in
      if rooted then ''/'' @ join ''/'' parts else if parts = [] then ''.'' else join ''/'' parts)"

definition validUncoveredLists :: "output_attempt \<Rightarrow> bool" where
  "validUncoveredLists a \<longleftrightarrow> oa_uncovered a = [] \<or>
     (oa_code a = ''partial_coverage'' \<and> length (oa_uncovered a) \<le> 256 \<and>
      (\<forall>u \<in> set (oa_uncovered a). is_ok (validate_slug (uc_id u)) \<and> uc_title u \<noteq> [] \<and>
         length (rune_codes (uc_title u)) \<le> 200 \<and> valid_utf8 (uc_title u)))"

definition validOutputAttempt :: "output_attempt \<Rightarrow> bool" where
  "validOutputAttempt a \<longleftrightarrow>
     validID (oa_output a) \<and> oa_completed a \<noteq> 0 \<and> 0 \<le> oa_projected a \<and> 0 \<le> oa_maximum a \<and>
     (if oa_status a = ''failed''
      then oa_code a \<noteq> [] \<and> length (oa_code a) \<le> 64 \<and> oa_artifact a = [] \<and> validUncoveredLists a
      else oa_status a = ''success'' \<and> oa_code a = [] \<and> validID (oa_artifact a) \<and> oa_uncovered a = [])"

definition RecordOutputAttempt ::
  "'e sql_env \<Rightarrow> output_attempt \<Rightarrow> 'e pub_world \<Rightarrow> (store_error, unit) result \<times> 'e pub_world" where
  "RecordOutputAttempt env a w =
     (if \<not> validOutputAttempt a then (Err (InvalidInput ''output attempt''), w)
      else run_tx env (\<lambda>db.
        if oa_output a \<notin> set (map (ou_id \<circ> or_out) (pb_outputs db)) \<or>
           (oa_artifact a \<noteq> [] \<and> oa_artifact a \<notin> set (map ab_id (pb_artifacts db)))
        then Err (StoreFailed ''record output attempt'')
        else pub_done (db\<lparr>pb_attempts := pb_attempts db @ [a]\<rparr>)) w)"

text \<open>The row identity is the position: the last of the latest attempts.\<close>

definition latest_attempt :: "string \<Rightarrow> publication_db \<Rightarrow> (store_error, output_attempt) result" where
  "latest_attempt i db =
     (case rev (sort_key oa_completed (filter (\<lambda>a. oa_output a = i) (pb_attempts db))) of
        [] \<Rightarrow> Err NotFound
      | a # _ \<Rightarrow> Ok a)"

definition LatestOutputAttempt ::
  "'e sql_env \<Rightarrow> string \<Rightarrow> 'e pub_world \<Rightarrow> (store_error, output_attempt) result \<times> 'e pub_world" where
  "LatestOutputAttempt env i w = (if \<not> validID i then (Err NotFound, w) else run_query env (latest_attempt i) w)"

text \<open>What the store compares before it lets a build become current.\<close>

definition ProfilePublicationRevision :: "profile \<Rightarrow> nat list" where
  "ProfilePublicationRevision p =
     (let unordered = (\<lambda>vs. jstrs (StableStrings vs)) in
      sha256 (map byte (json_encode (JObj
        [(''ID'', JStr (pf_id p)), (''Lists'', unordered (pf_lists p)), (''Categories'', unordered (pf_categories p)),
         (''Exclusions'', unordered (pf_exclusions p)),
         (''ListDomains'', JObj (map (\<lambda>(i, vs). (i, unordered vs)) (sort_key fst (pf_domains p)))),
         (''Priority'', jstrs (pf_priority p)), (''Archived'', JBool (Archived p))]))))"

definition maxArtifactBytes :: int where "maxArtifactBytes = 4 * 2 ^ 20"

definition validatePublication :: "publication_candidate \<Rightarrow> bool" where
  "validatePublication c \<longleftrightarrow>
     (let s = ca_snapshot c; a = ca_artifact c; t = ca_attempt c; clean = path_clean (ab_path a) in
      validID (sn_id s) \<and> validID (sn_output s) \<and> validID (ab_id a) \<and> ab_output a = sn_output s \<and>
      ab_snapshot a = sn_id s \<and> validHash (sn_hash s) \<and> validHash (ab_hash a) \<and> sn_json s \<noteq> [] \<and>
      int (length (sn_json s)) \<le> maxArtifactBytes \<and> sn_policy s \<noteq> [] \<and> sn_catalog s \<noteq> [] \<and> sn_cutoff s \<noteq> 0 \<and>
      sn_created s \<noteq> 0 \<and> sn_status s = ''valid'' \<and> ab_renderer a \<noteq> [] \<and> ab_version a \<noteq> [] \<and> ab_path a \<noteq> [] \<and>
      clean = ab_path a \<and> \<not> has_prefix clean ''../'' \<and> \<not> has_prefix clean ''/'' \<and> 0 < ab_size a \<and>
      ab_size a \<le> maxArtifactBytes \<and> ab_type a \<noteq> [] \<and> ab_created a \<noteq> 0 \<and> ab_validation a = ''valid'' \<and>
      ab_status a = ''published'' \<and> oa_output t = ab_output a \<and> oa_status t = ''success'' \<and> oa_code t = [] \<and>
      0 \<le> oa_projected t \<and> 0 \<le> oa_maximum t \<and> oa_completed t \<noteq> 0)"

text \<open>The cutoff of the plan the current file was built from.\<close>

definition latest_cutoff :: "profile_output \<Rightarrow> publication_db \<Rightarrow> time option" where
  "latest_cutoff ou db =
     (case find (\<lambda>a. ab_id a = ou_latest ou \<and> ou_latest ou \<noteq> []) (pb_artifacts db) of
        None \<Rightarrow> None
      | Some a \<Rightarrow> map_option sn_cutoff (find (\<lambda>s. sn_id s = ab_snapshot a) (pb_snapshots db)))"

definition eligible :: "publication_candidate \<Rightarrow> publication_db \<Rightarrow> (store_error, profile_output) result" where
  "eligible c db =
     (case live_output (sn_output (ca_snapshot c)) db of
        None \<Rightarrow> Err NotFound
      | Some ou \<Rightarrow>
          then_do (readProfile (ou_profile ou) db) (\<lambda>p.
            if Archived p then Err ProfileArchived
            else if ProfilePublicationRevision p \<noteq> ca_revision c \<or> ou_prefix ou \<noteq> ca_prefix c \<or> ou_keep ou \<noteq> ca_keep c
            then Err ProfileChanged
            else case latest_cutoff ou db of
              Some t \<Rightarrow> if sn_cutoff (ca_snapshot c) < t then Err BuildSuperseded else Ok ou
            | None \<Rightarrow> Ok ou))"

text \<open>An identical plan or file of the output is taken as it is stored; otherwise the candidate is inserted.\<close>

definition keep_snapshot :: "plan_snapshot \<Rightarrow> publication_db \<Rightarrow> (store_error, plan_snapshot \<times> publication_db) result" where
  "keep_snapshot s db =
     (case find (\<lambda>x. sn_output x = sn_output s \<and> sn_json x = sn_json s) (pb_snapshots db) of
        Some x \<Rightarrow> Ok (x, db)
      | None \<Rightarrow>
          if sn_id s \<in> set (map sn_id (pb_snapshots db)) then Err (StoreFailed ''insert immutable plan snapshot'')
          else Ok (s, db\<lparr>pb_snapshots := pb_snapshots db @ [s]\<rparr>))"

definition same_build :: "artifact_build \<Rightarrow> artifact_build \<Rightarrow> bool" where
  "same_build a x \<longleftrightarrow> ab_snapshot x = ab_snapshot a \<and> ab_renderer x = ab_renderer a \<and> ab_version x = ab_version a \<and>
     ab_hash x = ab_hash a"

definition same_content :: "artifact_build \<Rightarrow> artifact_build \<Rightarrow> bool" where
  "same_content a x \<longleftrightarrow> ab_renderer x = ab_renderer a \<and> ab_version x = ab_version a \<and> ab_hash x = ab_hash a \<and>
     ab_path x = ab_path a"

definition content_created :: "artifact_build \<Rightarrow> publication_db \<Rightarrow> time" where
  "content_created a db =
     foldl (\<lambda>t x. if same_content a x then min t (ab_created x) else t) (ab_created a) (pb_artifacts db)"

definition keep_artifact ::
  "artifact_build \<Rightarrow> publication_db \<Rightarrow> (store_error, artifact_build \<times> publication_db) result" where
  "keep_artifact a db =
     (case find (same_build a) (pb_artifacts db) of
        Some x \<Rightarrow>
          if ab_path x \<noteq> ab_path a \<or> ab_size x \<noteq> ab_size a then Err (StoreFailed ''immutable artifact identity mismatch'')
          else Ok (x, db)
      | None \<Rightarrow>
          let n = a\<lparr>ab_created := content_created a db\<rparr> in
          if ab_id a \<in> set (map ab_id (pb_artifacts db)) then Err (StoreFailed ''insert immutable artifact build'')
          else Ok (n, db\<lparr>pb_artifacts := pb_artifacts db @ [n]\<rparr>))"

definition advance :: "artifact_build \<Rightarrow> profile_output \<Rightarrow> profile_output" where
  "advance a ou = (if ou_latest ou = ab_id a then ou else ou\<lparr>ou_previous := ou_latest ou, ou_latest := ab_id a\<rparr>)"

definition publish_rows ::
  "publication_candidate \<Rightarrow> publication_db
   \<Rightarrow> (store_error, (profile_output \<times> plan_snapshot \<times> artifact_build) \<times> publication_db) result" where
  "publish_rows c db =
     then_do (eligible c db) (\<lambda>ou.
     then_do (keep_snapshot (ca_snapshot c) db) (\<lambda>(s, db).
     then_do (keep_artifact ((ca_artifact c)\<lparr>ab_snapshot := sn_id s\<rparr>) db) (\<lambda>(a, db).
       let db = update_outputs (has_id (ab_output a)) (edit_out (advance a)) db;
           t = (ca_attempt c)\<lparr>oa_artifact := ab_id a\<rparr>
       in if \<not> validOutputAttempt t then Err (InvalidInput ''successful output attempt'')
          else case find (has_id (ab_output a)) (pb_outputs db) of
            None \<Rightarrow> Err NotFound
          | Some r \<Rightarrow> Ok ((or_out r, s, a),
              db\<lparr>pb_attempts := pb_attempts db @ [t\<lparr>oa_uncovered := []\<rparr>]\<rparr>))))"

definition Publish ::
  "'e sql_env \<Rightarrow> publication_candidate \<Rightarrow> 'e pub_world
   \<Rightarrow> (store_error, profile_output \<times> plan_snapshot \<times> artifact_build) result \<times> 'e pub_world" where
  "Publish env c w =
     (if \<not> validatePublication c then (Err (InvalidInput ''publication candidate''), w)
      else run_tx env (publish_rows c) w)"

definition live_published :: "publication_db \<Rightarrow> string \<Rightarrow> bool" where
  "live_published db i \<longleftrightarrow> i \<in> set (map ou_id (live_outputs db))"

definition PlanSnapshotRow ::
  "'e sql_env \<Rightarrow> string \<Rightarrow> 'e pub_world \<Rightarrow> (store_error, plan_snapshot) result \<times> 'e pub_world" where
  "PlanSnapshotRow env i w =
     (if \<not> validID i then (Err NotFound, w)
      else run_query env (\<lambda>db. case find (\<lambda>s. sn_id s = i \<and> live_published db (sn_output s)) (pb_snapshots db) of
        None \<Rightarrow> Err NotFound | Some s \<Rightarrow> Ok s) w)"

definition ArtifactBuildRow ::
  "'e sql_env \<Rightarrow> string \<Rightarrow> 'e pub_world \<Rightarrow> (store_error, artifact_build) result \<times> 'e pub_world" where
  "ArtifactBuildRow env i w =
     (if \<not> validID i then (Err NotFound, w)
      else run_query env (\<lambda>db. case find (\<lambda>a. ab_id a = i \<and> live_published db (ab_output a)) (pb_artifacts db) of
        None \<Rightarrow> Err NotFound | Some a \<Rightarrow> Ok a) w)"

section \<open>Devices\<close>

definition deviceLimit :: nat where "deviceLimit = 200"

definition validDevice :: "device \<Rightarrow> bool" where
  "validDevice d \<longleftrightarrow> validID (dv_id d) \<and> dv_target d \<noteq> [] \<and> length (dv_target d) \<le> 64 \<and> dv_name d \<noteq> [] \<and>
     length (rune_codes (dv_name d)) \<le> 120 \<and> dv_address d \<noteq> [] \<and> length (dv_address d) \<le> 512 \<and>
     length (rune_codes (dv_account d)) \<le> 120 \<and> length (rune_codes (dv_interface d)) \<le> 120 \<and>
     dv_created d \<noteq> 0 \<and> dv_updated d \<noteq> 0"

definition CreateDeviceRow :: "'e sql_env \<Rightarrow> device \<Rightarrow> 'e pub_world \<Rightarrow> (store_error, unit) result \<times> 'e pub_world" where
  "CreateDeviceRow env d w =
     (if \<not> validDevice d then (Err (InvalidInput ''device''), w)
      else run_tx env (\<lambda>db.
        if dv_id d \<in> set (map dv_id (pb_devices db)) then Err IdentityCollision
        else pub_done (db\<lparr>pb_devices := pb_devices db @ [d]\<rparr>)) w)"

definition UpdateDeviceRow :: "'e sql_env \<Rightarrow> device \<Rightarrow> 'e pub_world \<Rightarrow> (store_error, unit) result \<times> 'e pub_world" where
  "UpdateDeviceRow env d w =
     (if \<not> validDevice d then (Err (InvalidInput ''device''), w)
      else run_tx env (\<lambda>db.
        let which = (\<lambda>x. dv_id x = dv_id d \<and> dv_target x = dv_target d) in
        if length (filter which (pb_devices db)) \<noteq> 1 then Err NotFound
        else pub_done (db\<lparr>pb_devices := map (\<lambda>x. if which x then d\<lparr>dv_created := dv_created x\<rparr> else x) (pb_devices db)\<rparr>)) w)"

text \<open>\<open>ON DELETE SET NULL\<close>: the outputs bound to the device keep their file and lose the binding.\<close>

definition DeleteDeviceRow :: "'e sql_env \<Rightarrow> string \<Rightarrow> 'e pub_world \<Rightarrow> (store_error, unit) result \<times> 'e pub_world" where
  "DeleteDeviceRow env i w =
     (if \<not> validID i then (Err NotFound, w)
      else run_tx env (\<lambda>db.
        if length (filter (\<lambda>d. dv_id d = i) (pb_devices db)) \<noteq> 1 then Err NotFound
        else pub_done (update_outputs (\<lambda>r. ou_device (or_out r) = i) (edit_out (\<lambda>ou. ou\<lparr>ou_device := []\<rparr>))
          (db\<lparr>pb_devices := filter (\<lambda>d. dv_id d \<noteq> i) (pb_devices db)\<rparr>))) w)"

definition DeviceRow :: "'e sql_env \<Rightarrow> string \<Rightarrow> 'e pub_world \<Rightarrow> (store_error, device) result \<times> 'e pub_world" where
  "DeviceRow env i w =
     (if \<not> validID i then (Err NotFound, w)
      else run_query env (\<lambda>db. case find (\<lambda>d. dv_id d = i) (pb_devices db) of None \<Rightarrow> Err NotFound | Some d \<Rightarrow> Ok d) w)"

definition Devices :: "'e sql_env \<Rightarrow> 'e pub_world \<Rightarrow> (store_error, device list) result \<times> 'e pub_world" where
  "Devices env = run_query env (\<lambda>db. Ok (take deviceLimit (sort_key (\<lambda>d. (dv_created d, dv_id d)) (pb_devices db))))"

end
