(* ===== verification/PublicationLaws.thy ===== *)
theory PublicationLaws
  imports SqlitePublications
begin

text \<open>
  What the tables of profiles and publications keep. \<open>shelf_ok\<close> says how profiles and outputs belong together,
  \<open>tokens_ok\<close> that an output has at most one working link and a retired one none, \<open>pointers_ok\<close> that an output points
  at files of its own; \<open>grows\<close> compares two states: history is only added to, and a retired row never changes.
\<close>

section \<open>Requests\<close>

datatype pub_request =
    ReqCreateProfile profile | ReqUpdateProfile profile | ReqArchive string time time
  | ReqInterval string refresh_interval time | ReqRefreshed string time bool | ReqDeleteProfile string time
  | ReqCreateOutput new_output | ReqOutputDevice string string | ReqOutputPrefix string string
  | ReqOutputKeep string bool | ReqRemoveOutput string time
  | ReqSubscribe string string "nat list" time | ReqReissue string string "nat list" time
  | ReqPublish publication_candidate | ReqAttempt output_attempt
  | ReqCreateDevice device | ReqUpdateDevice device | ReqDeleteDevice string | ReqOrder "string list"

fun run_request :: "'e sql_env \<Rightarrow> pub_request \<Rightarrow> 'e pub_world \<Rightarrow> (store_error, unit) result \<times> 'e pub_world" where
  "run_request env (ReqCreateProfile p) w = CreateProfileRows env p w"
| "run_request env (ReqUpdateProfile p) w = UpdateProfileRows env p w"
| "run_request env (ReqArchive p at now) w = SetProfileArchived env p at now w"
| "run_request env (ReqInterval p i now) w = UpdateProfileRefreshInterval env p i now w"
| "run_request env (ReqRefreshed p at failed) w = RecordProfileRefreshResult env p at failed w"
| "run_request env (ReqDeleteProfile p at) w = DeleteProfileRows env p at w"
| "run_request env (ReqCreateOutput c) w = CreateOutput env c w"
| "run_request env (ReqOutputDevice i d) w = UpdateOutputDevice env i d w"
| "run_request env (ReqOutputPrefix i p) w = UpdateOutputFQDNPrefix env i p w"
| "run_request env (ReqOutputKeep i keep) w = UpdateOutputKeepAddresses env i keep w"
| "run_request env (ReqRemoveOutput i at) w = RemoveOutputRows env i at w"
| "run_request env (ReqSubscribe i t h at) w = CreateSubscription env i t h at w"
| "run_request env (ReqReissue i t h at) w = ReissueSubscriptionRows env i t h at w"
| "run_request env (ReqPublish c) w = (case Publish env c w of (r, w) \<Rightarrow> (then_do r (\<lambda>_. Ok ()), w))"
| "run_request env (ReqAttempt a) w = RecordOutputAttempt env a w"
| "run_request env (ReqCreateDevice d) w = CreateDeviceRow env d w"
| "run_request env (ReqUpdateDevice d) w = UpdateDeviceRow env d w"
| "run_request env (ReqDeleteDevice i) w = DeleteDeviceRow env i w"
| "run_request env (ReqOrder is) w = SetDefaultPriorityRows env is w"

section \<open>What is kept\<close>

definition out_ids :: "publication_db \<Rightarrow> string list" where
  "out_ids db = map (ou_id \<circ> or_out) (pb_outputs db)"

definition shelf_ok :: "publication_db \<Rightarrow> bool" where
  "shelf_ok db \<longleftrightarrow> distinct (map pe_id (pb_profiles db)) \<and> distinct (out_ids db) \<and>
     (\<forall>r \<in> set (pb_outputs db). or_removed r = 0 \<longrightarrow>
        (\<exists>e \<in> set (pb_profiles db). pe_id e = ou_profile (or_out r) \<and> pe_deleted e = 0)) \<and>
     (\<forall>r \<in> set (pb_outputs db). or_removed r \<noteq> 0 \<longrightarrow> ou_device (or_out r) = [])"

definition tokens_ok :: "publication_db \<Rightarrow> bool" where
  "tokens_ok db \<longleftrightarrow> distinct (map sb_token (pb_subscriptions db)) \<and>
     (\<forall>t. revoked db t \<longrightarrow> t \<in> set (map sb_token (pb_subscriptions db))) \<and>
     (\<forall>s \<in> set (pb_subscriptions db). sb_output s \<in> set (out_ids db)) \<and>
     (\<forall>i. length (active_tokens i db) \<le> 1) \<and>
     (\<forall>r \<in> set (pb_outputs db). or_removed r \<noteq> 0 \<longrightarrow> active_tokens (ou_id (or_out r)) db = [])"

definition own_file :: "publication_db \<Rightarrow> string \<Rightarrow> string \<Rightarrow> bool" where
  "own_file db i a \<longleftrightarrow> (\<exists>x \<in> set (pb_artifacts db). ab_id x = a \<and> ab_output x = i)"

definition pointers_ok :: "publication_db \<Rightarrow> bool" where
  "pointers_ok db \<longleftrightarrow> distinct (map sn_id (pb_snapshots db)) \<and> distinct (map ab_id (pb_artifacts db)) \<and>
     (\<forall>a \<in> set (pb_artifacts db). ab_id a \<noteq> [] \<and>
        (\<exists>s \<in> set (pb_snapshots db). sn_id s = ab_snapshot a \<and> sn_output s = ab_output a)) \<and>
     (\<forall>r \<in> set (pb_outputs db). let ou = or_out r in
        (ou_latest ou \<noteq> [] \<longrightarrow> own_file db (ou_id ou) (ou_latest ou)) \<and>
        (ou_previous ou \<noteq> [] \<longrightarrow> own_file db (ou_id ou) (ou_previous ou) \<and> ou_latest ou \<noteq> [] \<and> ou_previous ou \<noteq> ou_latest ou))"

definition pub_ok :: "publication_db \<Rightarrow> bool" where
  "pub_ok db \<longleftrightarrow> shelf_ok db \<and> tokens_ok db \<and> pointers_ok db"

definition extends :: "'a list \<Rightarrow> 'a list \<Rightarrow> bool" where
  "extends xs ys \<longleftrightarrow> (\<exists>zs. ys = xs @ zs)"

definition entry_kept :: "profile_entry \<Rightarrow> profile_entry \<Rightarrow> bool" where
  "entry_kept e e' \<longleftrightarrow> pe_id e' = pe_id e \<and> pe_created e' = pe_created e \<and> (pe_deleted e \<noteq> 0 \<longrightarrow> e' = e)"

definition identity :: "profile_output \<Rightarrow> profile_output" where
  "identity ou = ou\<lparr>ou_prefix := [], ou_keep := False, ou_device := [], ou_latest := [], ou_previous := []\<rparr>"

definition row_kept :: "output_row \<Rightarrow> output_row \<Rightarrow> bool" where
  "row_kept r r' \<longleftrightarrow> identity (or_out r') = identity (or_out r) \<and> (or_removed r \<noteq> 0 \<longrightarrow> r' = r)"

definition rows_kept :: "('a \<Rightarrow> 'a \<Rightarrow> bool) \<Rightarrow> 'a list \<Rightarrow> 'a list \<Rightarrow> bool" where
  "rows_kept P xs ys \<longleftrightarrow> (\<exists>us zs. ys = us @ zs \<and> list_all2 P xs us)"

definition grows :: "publication_db \<Rightarrow> publication_db \<Rightarrow> bool" where
  "grows db db' \<longleftrightarrow> extends (pb_snapshots db) (pb_snapshots db') \<and> extends (pb_artifacts db) (pb_artifacts db') \<and>
     extends (pb_attempts db) (pb_attempts db') \<and> extends (pb_subscriptions db) (pb_subscriptions db') \<and>
     extends (pb_revocations db) (pb_revocations db') \<and>
     rows_kept entry_kept (pb_profiles db) (pb_profiles db') \<and> rows_kept row_kept (pb_outputs db) (pb_outputs db')"

section \<open>Lists of rows\<close>

lemma extends_simps [simp]: "extends xs xs" "extends xs (xs @ ys)"
  by (simp_all add: extends_def)

lemma extends_trans: "extends xs ys \<Longrightarrow> extends ys zs \<Longrightarrow> extends xs zs"
  by (auto simp: extends_def)

lemma extends_mono: "extends xs ys \<Longrightarrow> x \<in> set xs \<Longrightarrow> x \<in> set ys"
  by (auto simp: extends_def)

lemma rows_id_kept [simp]: "entry_kept e e" "row_kept r r"
  by (simp_all add: entry_kept_def row_kept_def)

lemma rows_kept_append: "(\<And>x. P x x) \<Longrightarrow> rows_kept P xs (xs @ ys)"
  unfolding rows_kept_def by (intro exI [of _ xs] exI [of _ ys]) (simp add: list_all2_refl)

lemma rows_kept_refl: "(\<And>x. P x x) \<Longrightarrow> rows_kept P xs xs"
  using rows_kept_append [of P xs "[]"] by simp

lemma rows_kept_map: "(\<And>x. x \<in> set xs \<Longrightarrow> P x (f x)) \<Longrightarrow> rows_kept P xs (map f xs)"
  unfolding rows_kept_def by (intro exI [of _ "map f xs"] exI [of _ "[]"]) (simp add: list_all2_conv_all_nth)

lemma rows_kept_trans:
  assumes "rows_kept P xs ys" "rows_kept P ys zs" "\<And>x y z. P x y \<Longrightarrow> P y z \<Longrightarrow> P x z"
  shows "rows_kept P xs zs"
proof -
  obtain us vs where a: "ys = us @ vs" "list_all2 P xs us" using assms(1) by (auto simp: rows_kept_def)
  obtain ws ts where b: "zs = ws @ ts" "list_all2 P (us @ vs) ws" using assms(2) by (auto simp: rows_kept_def a)
  obtain ws1 ws2 where c: "ws = ws1 @ ws2" "list_all2 P us ws1" using b(2) by (auto simp: list_all2_append1)
  have "list_all2 P xs ws1" by (rule list_all2_trans [OF _ a(2) c(2)]) (rule assms(3))
  then show ?thesis using b c by (auto simp: rows_kept_def)
qed

lemma grows_refl [simp]: "grows db db"
  by (simp add: grows_def rows_kept_refl)

lemma grows_trans:
  assumes "grows a b" "grows b c"
  shows "grows a c"
proof -
  have "rows_kept entry_kept (pb_profiles a) (pb_profiles c)" "rows_kept row_kept (pb_outputs a) (pb_outputs c)"
    using assms by (auto simp: grows_def entry_kept_def row_kept_def elim!: rows_kept_trans)
  then show ?thesis using assms unfolding grows_def by (meson extends_trans)
qed

lemma find_unique:
  assumes "distinct (map f xs)" "x \<in> set xs" "P x" "\<And>y. y \<in> set xs \<Longrightarrow> P y \<Longrightarrow> f y = f x"
  shows "find P xs = Some x"
proof (cases "find P xs")
  case None
  then show ?thesis using assms(2,3) by (auto simp: find_None_iff)
next
  case (Some y)
  then have "y \<in> set xs" "P y" by (auto simp: find_Some_iff)
  then have "y = x" using assms by (metis distinct_map inj_onD)
  then show ?thesis using Some by simp
qed

lemma run_tx_cases:
  assumes "run_tx env body w = (r, w')"
  shows "(fst w' = fst w \<and> (\<forall>a. r \<noteq> Ok a)) \<or> (\<exists>a. r = Ok a \<and> body (fst w) = Ok (a, fst w'))"
  using assms by (auto simp: run_tx_def split: prod.splits option.splits sum.splits)

lemma run_query_db: "run_query env body w = (r, w') \<Longrightarrow> fst w' = fst w"
  by (auto simp: run_query_def run_tx_def then_do_def split: prod.splits option.splits sum.splits)

section \<open>Tokens\<close>

lemma revoked_simps [simp]:
  "revoked (add_token i t h at db) = revoked db" "revoked (update_outputs w f db) = revoked db"
  "revoked (clearComposition p db) = revoked db" "revoked (update_profiles u g db) = revoked db"
  by (simp_all add: revoked_def [abs_def] add_token_def update_outputs_def clearComposition_def update_profiles_def Let_def)

lemma revoked_revoke: "revoked (revoke_tokens which at db) t \<longleftrightarrow> revoked db t \<or> (\<exists>s \<in> set (pb_subscriptions db). sb_token s = t \<and> which s)"
  by (auto simp: revoked_def revoke_tokens_def)

lemma active_revoke:
  assumes "distinct (map sb_token (pb_subscriptions db))"
  shows "active_tokens i (revoke_tokens which at db) = filter (\<lambda>s. \<not> which s) (active_tokens i db)"
proof -
  have "s \<in> set (pb_subscriptions db) \<Longrightarrow> (\<exists>x \<in> set (pb_subscriptions db). sb_token x = sb_token s \<and> which x) \<longleftrightarrow> which s" for s
    using assms by (metis distinct_map inj_onD)
  then show ?thesis
    by (auto simp: active_tokens_def revoked_revoke filter_filter intro!: filter_cong) (auto simp: revoke_tokens_def intro!: filter_cong)
qed

lemma active_add: "active_tokens j (add_token i t h at db) =
    active_tokens j db @ (if j = i \<and> \<not> revoked db t then [\<lparr>sb_token = t, sb_output = i, sb_hash = h, sb_created = at\<rparr>] else [])"
  by (auto simp: active_tokens_def) (auto simp: add_token_def)

lemma active_same: "pb_subscriptions db' = pb_subscriptions db \<Longrightarrow> pb_revocations db' = pb_revocations db \<Longrightarrow>
    active_tokens i db' = active_tokens i db \<and> revoked db' = revoked db"
  by (simp add: active_tokens_def revoked_def [abs_def])

section \<open>Profiles\<close>

lemma frame_profiles:
  assumes "pub_ok db"
    and t: "pb_outputs db' = pb_outputs db" "pb_subscriptions db' = pb_subscriptions db" "pb_revocations db' = pb_revocations db"
      "pb_snapshots db' = pb_snapshots db" "pb_artifacts db' = pb_artifacts db" "pb_attempts db' = pb_attempts db"
    and p: "rows_kept entry_kept (pb_profiles db) (pb_profiles db')" "distinct (map pe_id (pb_profiles db'))"
      "\<And>e. e \<in> set (pb_profiles db) \<Longrightarrow> pe_deleted e = 0 \<Longrightarrow> \<exists>e' \<in> set (pb_profiles db'). pe_id e' = pe_id e \<and> pe_deleted e' = 0"
  shows "pub_ok db' \<and> grows db db'"
proof -
  have a: "active_tokens i db' = active_tokens i db" "revoked db' = revoked db" for i
    using active_same [OF t(2,3)] by simp_all
  have "shelf_ok db'" using assms(1) p(2,3) unfolding pub_ok_def shelf_ok_def out_ids_def t by metis
  moreover have "tokens_ok db'" using assms(1) unfolding pub_ok_def tokens_ok_def out_ids_def a t by blast
  moreover have "pointers_ok db'" using assms(1) unfolding pub_ok_def pointers_ok_def own_file_def t by blast
  ultimately show ?thesis using p(1) by (simp add: pub_ok_def grows_def t rows_kept_refl)
qed

lemma update_profiles_tables [simp]:
  "pb_outputs (update_profiles u g db) = pb_outputs db" "pb_subscriptions (update_profiles u g db) = pb_subscriptions db"
  "pb_revocations (update_profiles u g db) = pb_revocations db" "pb_snapshots (update_profiles u g db) = pb_snapshots db"
  "pb_artifacts (update_profiles u g db) = pb_artifacts db" "pb_attempts (update_profiles u g db) = pb_attempts db"
  "pb_profiles (update_profiles u g db) = map (\<lambda>e. if u e then g e else e) (pb_profiles db)"
  by (simp_all add: update_profiles_def)

lemma clearComposition_tables [simp]:
  "pb_outputs (clearComposition p db) = pb_outputs db" "pb_subscriptions (clearComposition p db) = pb_subscriptions db"
  "pb_revocations (clearComposition p db) = pb_revocations db" "pb_snapshots (clearComposition p db) = pb_snapshots db"
  "pb_artifacts (clearComposition p db) = pb_artifacts db" "pb_attempts (clearComposition p db) = pb_attempts db"
  "pb_profiles (clearComposition p db) = pb_profiles db"
  by (simp_all add: clearComposition_def Let_def)

lemma written_tables:
  assumes "writeComposition p parts db = Ok db1" "writeListDomains p m db1 = Ok db'"
  shows "pb_outputs db' = pb_outputs db" "pb_subscriptions db' = pb_subscriptions db" "pb_revocations db' = pb_revocations db"
    "pb_snapshots db' = pb_snapshots db" "pb_artifacts db' = pb_artifacts db" "pb_attempts db' = pb_attempts db"
    "pb_profiles db' = pb_profiles db"
  using assms by (auto simp: writeComposition_def writeListDomains_def split: prod.splits if_splits)

lemma update_profiles_kept:
  assumes "pub_ok db" "\<And>e. u e \<Longrightarrow> e \<in> set (pb_profiles db) \<Longrightarrow> pe_deleted e = 0"
    "\<And>e. pe_id (g e) = pe_id e \<and> pe_created (g e) = pe_created e \<and> pe_deleted (g e) = pe_deleted e"
  shows "pub_ok (update_profiles u g db) \<and> grows db (update_profiles u g db)"
proof (rule frame_profiles [OF assms(1)])
  have m: "map pe_id (map (\<lambda>e. if u e then g e else e) xs) = map pe_id xs" for xs using assms(3) by simp
  show "distinct (map pe_id (pb_profiles (update_profiles u g db)))"
    using assms(1) unfolding update_profiles_tables m by (simp add: pub_ok_def shelf_ok_def)
  show "rows_kept entry_kept (pb_profiles db) (pb_profiles (update_profiles u g db))"
    using assms(2,3) by (auto simp: entry_kept_def intro!: rows_kept_map)
  fix e assume "e \<in> set (pb_profiles db)" "pe_deleted e = 0"
  then show "\<exists>e' \<in> set (pb_profiles (update_profiles u g db)). pe_id e' = pe_id e \<and> pe_deleted e' = 0"
    using assms(3) by (intro bexI [of _ "if u e then g e else e"]) auto
qed simp_all

lemma live_profile_Some: "live_profile p db = Some e \<Longrightarrow> e \<in> set (pb_profiles db) \<and> pe_id e = p \<and> pe_deleted e = 0"
  by (auto simp: live_profile_def find_Some_iff)

lemma live_profile_unique:
  assumes "pub_ok db" "live_profile p db = Some e" "x \<in> set (pb_profiles db)" "pe_id x = p"
  shows "x = e"
  using live_profile_Some [OF assms(2)] assms by (metis distinct_map inj_onD pub_ok_def shelf_ok_def)

lemma writable_profile: "requireWritableProfile p db = Ok u \<Longrightarrow> \<exists>e. live_profile p db = Some e \<and> pe_archived e = 0"
  by (auto simp: requireWritableProfile_def split: option.splits if_splits)

lemma create_profile_kept:
  assumes "pub_ok db" "create_profile_rows p parts db = Ok (a, db')"
  shows "pub_ok db' \<and> grows db db'"
proof -
  define e where "e = \<lparr>pe_id = pf_id p, pe_name = pf_name p, pe_interval = RefreshDefault, pe_last = 0, pe_failed = False,
    pe_archived = 0, pe_deleted = 0, pe_created = pf_created p, pe_updated = pf_updated p\<rparr>"
  obtain db1 where n: "pf_id p \<notin> set (map pe_id (pb_profiles db))"
      and w: "writeComposition (pf_id p) parts (db\<lparr>pb_profiles := pb_profiles db @ [e]\<rparr>) = Ok db1"
        "writeListDomains (pf_id p) (pf_domains p) db1 = Ok db'"
    using assms(2) by (auto simp: create_profile_rows_def Let_def e_def split: if_splits)
  have "pe_id e = pf_id p" "pe_deleted e = 0" by (simp_all add: e_def)
  note n = n this and t = written_tables [OF w]
  show ?thesis
    by (rule frame_profiles [OF assms(1)]) (use assms(1) n in \<open>auto simp: t pub_ok_def shelf_ok_def intro!: rows_kept_append\<close>)
qed

lemma update_profile_kept:
  assumes "pub_ok db" "update_profile_rows p parts db = Ok (a, db')"
  shows "pub_ok db' \<and> grows db db'"
proof -
  define u where "u = update_profiles (\<lambda>e. pe_id e = pf_id p) (\<lambda>e. e\<lparr>pe_name := pf_name p, pe_updated := pf_updated p\<rparr>) db"
  obtain db1 v where w: "requireWritableProfile (pf_id p) db = Ok v"
      "writeComposition (pf_id p) parts (clearComposition (pf_id p) u) = Ok db1" "writeListDomains (pf_id p) (pf_domains p) db1 = Ok db'"
    using assms(2) by (auto simp: update_profile_rows_def Let_def u_def split: if_splits)
  obtain e where e: "live_profile (pf_id p) db = Some e" using writable_profile [OF w(1)] by blast
  note t = written_tables [OF w(2,3)]
  have "pub_ok u \<and> grows db u"
    unfolding u_def by (rule update_profiles_kept [OF assms(1)])
      (use live_profile_unique [OF assms(1) e] live_profile_Some [OF e] in auto)
  then have u: "pub_ok u" "grows db u" by simp_all
  have "pub_ok db' \<and> grows u db'" by (rule frame_profiles [OF u(1)]) (use u(1) in \<open>auto simp: t pub_ok_def shelf_ok_def rows_kept_refl\<close>)
  then show ?thesis using u(2) grows_trans by blast
qed

section \<open>Outputs\<close>

lemma update_outputs_tables [simp]:
  "pb_profiles (update_outputs u f db) = pb_profiles db" "pb_subscriptions (update_outputs u f db) = pb_subscriptions db"
  "pb_revocations (update_outputs u f db) = pb_revocations db" "pb_snapshots (update_outputs u f db) = pb_snapshots db"
  "pb_artifacts (update_outputs u f db) = pb_artifacts db" "pb_attempts (update_outputs u f db) = pb_attempts db"
  "pb_outputs (update_outputs u f db) = map (\<lambda>r. if u r then f r else r) (pb_outputs db)"
  by (simp_all add: update_outputs_def)

lemma identity_facts: "identity ou' = identity ou \<Longrightarrow> ou_id ou' = ou_id ou \<and> ou_profile ou' = ou_profile ou"
  by (cases ou; cases ou') (simp add: identity_def)

lemma out_ids_update:
  assumes "\<And>r. identity (or_out (f r)) = identity (or_out r)"
  shows "out_ids (update_outputs u f db) = out_ids db"
  using identity_facts [OF assms] by (simp add: out_ids_def)

lemma edit_kept:
  assumes "pub_ok db" "\<And>r. r \<in> set (pb_outputs db) \<Longrightarrow> u r \<Longrightarrow> or_removed r = 0"
    "\<And>ou. identity (g ou) = identity ou \<and> ou_latest (g ou) = ou_latest ou \<and> ou_previous (g ou) = ou_previous ou"
  shows "pub_ok (update_outputs u (edit_out g) db) \<and> grows db (update_outputs u (edit_out g) db)" (is "pub_ok ?db \<and> _")
proof -
  have ids: "out_ids ?db = out_ids db" by (rule out_ids_update) (simp add: edit_out_def assms(3))
  have r: "\<exists>x \<in> set (pb_outputs db). or_removed r = or_removed x \<and> ou_id (or_out r) = ou_id (or_out x) \<and>
      ou_profile (or_out r) = ou_profile (or_out x) \<and> ou_latest (or_out r) = ou_latest (or_out x) \<and>
      ou_previous (or_out r) = ou_previous (or_out x) \<and> (or_removed x \<noteq> 0 \<longrightarrow> r = x)" if m: "r \<in> set (pb_outputs ?db)" for r
  proof -
    obtain x where x: "x \<in> set (pb_outputs db)" "r = (if u x then edit_out g x else x)" using m by auto
    then show ?thesis using assms(2) [of x] assms(3) identity_facts [of "g (or_out x)" "or_out x"]
      by (intro bexI [of _ x]) (auto simp: edit_out_def)
  qed
  have a: "active_tokens i ?db = active_tokens i db" for i by (rule active_same [THEN conjunct1]) simp_all
  have "shelf_ok ?db" using assms(1) r unfolding pub_ok_def shelf_ok_def ids update_outputs_tables(1) by metis
  moreover have "tokens_ok ?db" using assms(1) r unfolding pub_ok_def tokens_ok_def ids a update_outputs_tables(2) revoked_simps by metis
  moreover have "pointers_ok ?db"
    using assms(1) r unfolding pub_ok_def pointers_ok_def own_file_def Let_def update_outputs_tables(4,5) by metis
  moreover have "rows_kept row_kept (pb_outputs db) (pb_outputs ?db)"
    unfolding update_outputs_tables(7) by (rule rows_kept_map) (use assms(2,3) in \<open>auto simp: row_kept_def edit_out_def\<close>)
  ultimately show ?thesis by (simp add: pub_ok_def grows_def rows_kept_refl)
qed

lemma live_output_row:
  assumes "pub_ok db" "find (\<lambda>r. live_row i r \<and> P r) (pb_outputs db) = Some r" "x \<in> set (pb_outputs db)" "has_id i x"
  shows "x = r \<and> or_removed x = 0"
proof -
  have "r \<in> set (pb_outputs db)" "live_row i r" using assms(2) by (auto simp: find_Some_iff)
  moreover have "inj_on (ou_id \<circ> or_out) (set (pb_outputs db))" using assms(1) by (simp add: pub_ok_def shelf_ok_def out_ids_def distinct_map)
  ultimately have "x = r" using assms(3,4) by (auto simp: live_row_def has_id_def inj_on_def)
  then show ?thesis using \<open>live_row i r\<close> by (simp add: live_row_def)
qed

lemma writable_output_row:
  assumes "writable_output P i db = Ok v"
  shows "\<exists>r. find (\<lambda>r. live_row i r \<and> P (or_out r)) (pb_outputs db) = Some r \<and> requireWritableProfile (ou_profile (or_out r)) db = Ok v"
  using assms by (auto simp: writable_output_def split: option.splits)

lemma writable_edit_kept:
  assumes "pub_ok db" "writable_output P i db = Ok v" "\<And>r. u r \<Longrightarrow> has_id i r"
    "\<And>ou. identity (g ou) = identity ou \<and> ou_latest (g ou) = ou_latest ou \<and> ou_previous (g ou) = ou_previous ou"
  shows "pub_ok (update_outputs u (edit_out g) db) \<and> grows db (update_outputs u (edit_out g) db)"
proof (rule edit_kept [OF assms(1) _ assms(4)])
  obtain r where r: "find (\<lambda>r. live_row i r \<and> P (or_out r)) (pb_outputs db) = Some r" using writable_output_row [OF assms(2)] by blast
  fix x assume "x \<in> set (pb_outputs db)" "u x"
  then show "or_removed x = 0" using live_output_row [OF assms(1), of i "\<lambda>r. P (or_out r)", OF r] assms(3) by blast
qed

lemma delete_device_kept:
  assumes "pub_ok db" "i \<noteq> []"
  shows "pub_ok (update_outputs (\<lambda>r. ou_device (or_out r) = i) (edit_out (\<lambda>ou. ou\<lparr>ou_device := []\<rparr>)) db) \<and>
    grows db (update_outputs (\<lambda>r. ou_device (or_out r) = i) (edit_out (\<lambda>ou. ou\<lparr>ou_device := []\<rparr>)) db)"
  by (rule edit_kept [OF assms(1)]) (use assms in \<open>auto simp: identity_def pub_ok_def shelf_ok_def\<close>)

text \<open>Tables that only the attempts, the devices and the library order use.\<close>

lemma frame_side:
  assumes "pub_ok db" "pb_outputs db' = pb_outputs db" "pb_subscriptions db' = pb_subscriptions db"
    "pb_revocations db' = pb_revocations db" "pb_snapshots db' = pb_snapshots db" "pb_artifacts db' = pb_artifacts db"
    "pb_profiles db' = pb_profiles db" "extends (pb_attempts db) (pb_attempts db')"
  shows "pub_ok db' \<and> grows db db'"
proof -
  have "pub_ok db' \<and> grows (db\<lparr>pb_attempts := pb_attempts db'\<rparr>) db'"
    by (rule frame_profiles) (use assms in \<open>auto simp: pub_ok_def shelf_ok_def tokens_ok_def pointers_ok_def own_file_def
      out_ids_def active_tokens_def revoked_def rows_kept_refl\<close>)
  then show ?thesis using assms by (simp add: grows_def)
qed

section \<open>Links\<close>

lemma tokens_okD:
  assumes "pub_ok db"
  shows "distinct (map sb_token (pb_subscriptions db))" "revoked db t \<Longrightarrow> t \<in> set (map sb_token (pb_subscriptions db))"
    "s \<in> set (pb_subscriptions db) \<Longrightarrow> sb_output s \<in> set (out_ids db)" "length (active_tokens i db) \<le> 1"
    "r \<in> set (pb_outputs db) \<Longrightarrow> or_removed r \<noteq> 0 \<Longrightarrow> active_tokens (ou_id (or_out r)) db = []"
  using assms by (simp_all add: pub_ok_def tokens_ok_def)

lemma add_token_tables [simp]:
  "pb_profiles (add_token i t h at db) = pb_profiles db" "pb_outputs (add_token i t h at db) = pb_outputs db"
  "pb_revocations (add_token i t h at db) = pb_revocations db" "pb_snapshots (add_token i t h at db) = pb_snapshots db"
  "pb_artifacts (add_token i t h at db) = pb_artifacts db" "pb_attempts (add_token i t h at db) = pb_attempts db"
  "pb_subscriptions (add_token i t h at db) = pb_subscriptions db @ [\<lparr>sb_token = t, sb_output = i, sb_hash = h, sb_created = at\<rparr>]"
  by (simp_all add: add_token_def)

lemma revoke_tables [simp]:
  "pb_profiles (revoke_tokens u at db) = pb_profiles db" "pb_outputs (revoke_tokens u at db) = pb_outputs db"
  "pb_subscriptions (revoke_tokens u at db) = pb_subscriptions db" "pb_snapshots (revoke_tokens u at db) = pb_snapshots db"
  "pb_artifacts (revoke_tokens u at db) = pb_artifacts db" "pb_attempts (revoke_tokens u at db) = pb_attempts db"
  "extends (pb_revocations db) (pb_revocations (revoke_tokens u at db))"
  by (simp_all add: revoke_tokens_def)

lemma out_ids_same [simp]: "out_ids (add_token i t h at db) = out_ids db" "out_ids (revoke_tokens u at db) = out_ids db"
  by (simp_all add: out_ids_def)

lemma revoke_kept:
  assumes "pub_ok db"
  shows "pub_ok (revoke_tokens u at db) \<and> grows db (revoke_tokens u at db)" (is "pub_ok ?db \<and> _")
proof -
  note t = tokens_okD [OF assms]
  have a: "active_tokens i ?db = filter (\<lambda>s. \<not> u s) (active_tokens i db)" for i by (rule active_revoke [OF t(1)])
  have "tokens_ok ?db"
    using t unfolding tokens_ok_def a revoke_tables out_ids_same revoked_revoke by (auto intro: le_trans [OF length_filter_le])
  moreover have "shelf_ok ?db" "pointers_ok ?db"
    using assms unfolding pub_ok_def shelf_ok_def pointers_ok_def own_file_def out_ids_same revoke_tables by blast+
  ultimately show ?thesis by (simp add: pub_ok_def grows_def rows_kept_refl)
qed

lemma add_token_kept:
  assumes "pub_ok db" "r \<in> set (pb_outputs db)" "ou_id (or_out r) = i" "or_removed r = 0" "active_tokens i db = []"
    "t \<notin> set (map sb_token (pb_subscriptions db))"
  shows "pub_ok (add_token i t h at db) \<and> grows db (add_token i t h at db)" (is "pub_ok ?db \<and> _")
proof -
  note k = tokens_okD [OF assms(1)]
  have nr: "\<not> revoked db t" using k(2) assms(6) by blast
  have i: "i \<in> set (out_ids db)" using assms(2,3) by (auto simp: out_ids_def)
  have u: "x \<in> set (pb_outputs db) \<Longrightarrow> ou_id (or_out x) = i \<Longrightarrow> x = r" for x
    using assms(1-3) by (auto simp: pub_ok_def shelf_ok_def out_ids_def distinct_map inj_on_def)
  have one: "length (active_tokens j ?db) \<le> 1" for j using k(4) [of j] assms(5) by (simp add: active_add)
  have none: "active_tokens (ou_id (or_out x)) ?db = []" if "x \<in> set (pb_outputs db)" "or_removed x \<noteq> 0" for x
    using k(5) [OF that] u [OF that(1)] that(2) assms(4) by (auto simp: active_add)
  have "tokens_ok ?db"
    unfolding tokens_ok_def add_token_tables out_ids_same revoked_simps using k(1-3) assms(6) i one none by auto
  moreover have "shelf_ok ?db" "pointers_ok ?db"
    using assms(1) unfolding pub_ok_def shelf_ok_def pointers_ok_def own_file_def out_ids_same add_token_tables by blast+
  ultimately show ?thesis by (simp add: pub_ok_def grows_def rows_kept_refl)
qed

lemma writable_live:
  assumes "writable_output P i db = Ok v"
  shows "\<exists>r \<in> set (pb_outputs db). ou_id (or_out r) = i \<and> or_removed r = 0"
proof -
  obtain r where "find (\<lambda>r. live_row i r \<and> P (or_out r)) (pb_outputs db) = Some r" using writable_output_row [OF assms] by blast
  then have "r \<in> set (pb_outputs db)" "live_row i r" by (auto simp: find_Some_iff)
  then show ?thesis by (auto simp: live_row_def has_id_def)
qed

lemma create_subscription_kept:
  assumes "pub_ok db" "create_subscription_rows i t h at db = Ok (a, db')"
  shows "pub_ok db' \<and> grows db db'"
proof -
  obtain v where w: "writable_output (\<lambda>_. True) i db = Ok v" "activeSubscriptions i db = 0"
      "t \<notin> set (map sb_token (pb_subscriptions db))" "db' = add_token i t h at db"
    using assms(2) by (auto simp: create_subscription_rows_def split: if_splits)
  obtain r where "r \<in> set (pb_outputs db)" "ou_id (or_out r) = i" "or_removed r = 0" using writable_live [OF w(1)] by blast
  then show ?thesis using w add_token_kept [OF assms(1)] by (simp add: activeSubscriptions_def)
qed

lemma reissue_kept:
  assumes "pub_ok db" "reissue_rows i t h at db = Ok (a, db')"
  shows "pub_ok db' \<and> grows db db'"
proof -
  define d where "d = revoke_tokens (\<lambda>s. sb_output s = i) at db"
  obtain v where w: "writable_output (\<lambda>_. True) i db = Ok v" "t \<notin> set (map sb_token (pb_subscriptions db))" "db' = add_token i t h at d"
    using assms(2) by (auto simp: reissue_rows_def requireWritableOutput_def d_def split: if_splits)
  obtain r where r: "r \<in> set (pb_outputs db)" "ou_id (or_out r) = i" "or_removed r = 0" using writable_live [OF w(1)] by blast
  have d: "pub_ok d" "grows db d" using revoke_kept [OF assms(1)] by (simp_all add: d_def)
  have "active_tokens i d = []"
    unfolding d_def active_revoke [OF tokens_okD(1) [OF assms(1)]] by (auto simp: active_tokens_def filter_empty_conv)
  then have "pub_ok db' \<and> grows d db'" using add_token_kept [OF d(1)] r w(2,3) by (simp add: d_def)
  then show ?thesis using d(2) grows_trans by blast
qed

lemma new_output_kept:
  assumes "pub_ok db" "e \<in> set (pb_profiles db)" "pe_id e = ou_profile ou" "pe_deleted e = 0" "ou_id ou \<notin> set (out_ids db)"
    "ou_latest ou = []" "ou_previous ou = []"
  shows "pub_ok (db\<lparr>pb_outputs := pb_outputs db @ [\<lparr>or_out = ou, or_removed = 0\<rparr>]\<rparr>) \<and>
    grows db (db\<lparr>pb_outputs := pb_outputs db @ [\<lparr>or_out = ou, or_removed = 0\<rparr>]\<rparr>)" (is "pub_ok ?db \<and> _")
proof -
  have a: "active_tokens j ?db = active_tokens j db" "revoked ?db = revoked db" for j using active_same [of ?db db] by simp_all
  have o: "out_ids ?db = out_ids db @ [ou_id ou]" by (simp add: out_ids_def)
  have "shelf_ok ?db" using assms by (auto simp: pub_ok_def shelf_ok_def o)
  moreover have "tokens_ok ?db" using assms(1) unfolding pub_ok_def tokens_ok_def a o by auto
  moreover have "pointers_ok ?db" using assms(1,6,7) by (auto simp: pub_ok_def pointers_ok_def own_file_def Let_def)
  ultimately show ?thesis by (simp add: pub_ok_def grows_def rows_kept_refl rows_kept_append)
qed

lemma create_output_kept:
  assumes "pub_ok db" "create_output_rows c db = Ok (a, db')" "has_token c \<Longrightarrow> no_token c \<noteq> []"
  shows "pub_ok db' \<and> grows db db'"
proof -
  define ou where "ou = (no_output c)\<lparr>ou_latest := [], ou_previous := []\<rparr>"
  define d where "d = db\<lparr>pb_outputs := pb_outputs db @ [\<lparr>or_out = ou, or_removed = 0\<rparr>]\<rparr>"
  obtain v where w: "requireWritableProfile (ou_profile ou) db = Ok v" "\<forall>r \<in> set (pb_outputs db). ou_id (or_out r) \<noteq> ou_id ou \<and>
        (no_token c = [] \<or> no_token c \<notin> sb_token ` set (pb_subscriptions db))"
      "db' = (if has_token c then add_token (ou_id ou) (no_token c) (no_token_hash c) (ou_created ou) d else d)"
    using assms(2) unfolding create_output_rows_def Let_def add_token_def
    by (auto simp: ou_def d_def split: if_splits)
  obtain e where e: "live_profile (ou_profile ou) db = Some e" using writable_profile [OF w(1)] by blast
  have fresh: "ou_id ou \<notin> set (out_ids db)" using w(2) by (auto simp: out_ids_def)
  have d: "pub_ok d" "grows db d"
    using new_output_kept [OF assms(1), of e ou] live_profile_Some [OF e] fresh unfolding d_def by (simp_all add: ou_def)
  show ?thesis
  proof (cases "has_token c")
    case True
    have s: "pb_outputs db = [] \<Longrightarrow> pb_subscriptions db = []"
      using tokens_okD(3) [OF assms(1)] by (cases "pb_subscriptions db") (auto simp: out_ids_def)
    have "active_tokens (ou_id ou) db = []"
      using tokens_okD(3) [OF assms(1)] fresh unfolding active_tokens_def filter_empty_conv by metis
    then have "active_tokens (ou_id ou) d = []" using active_same [of d db] by (simp add: d_def)
    moreover have "no_token c \<notin> set (map sb_token (pb_subscriptions d))"
      using w(2) assms(3) [OF True] s by (cases "pb_outputs db") (auto simp: d_def)
    ultimately have "pub_ok db' \<and> grows d db'"
      using add_token_kept [OF d(1), of "\<lparr>or_out = ou, or_removed = 0\<rparr>"] True w(3) by (simp add: d_def)
    then show ?thesis using d(2) grows_trans by blast
  qed (use w(3) d in simp)
qed

section \<open>Retirement\<close>

lemma retire_simps [simp]:
  "ou_id (or_out (retire at r)) = ou_id (or_out r)" "ou_profile (or_out (retire at r)) = ou_profile (or_out r)"
  "ou_latest (or_out (retire at r)) = ou_latest (or_out r)" "ou_previous (or_out (retire at r)) = ou_previous (or_out r)"
  "ou_device (or_out (retire at r)) = []" "or_removed (retire at r) = at" "identity (or_out (retire at r)) = identity (or_out r)"
  by (simp_all add: retire_def identity_def)

text \<open>Outputs whose links are revoked can be retired.\<close>

lemma retire_outputs_kept:
  assumes "pub_ok db" "\<And>r. u r \<Longrightarrow> or_removed r = 0" "at \<noteq> 0"
    "\<And>r. r \<in> set (pb_outputs db) \<Longrightarrow> u r \<Longrightarrow> active_tokens (ou_id (or_out r)) db = []"
  shows "pub_ok (update_outputs u (retire at) db) \<and> grows db (update_outputs u (retire at) db)" (is "pub_ok ?db \<and> _")
proof -
  have ids: "out_ids ?db = out_ids db" by (rule out_ids_update) simp
  have a: "active_tokens i ?db = active_tokens i db" for i by (rule active_same [THEN conjunct1]) simp_all
  have r: "r \<in> set (pb_outputs ?db) \<Longrightarrow> \<exists>x \<in> set (pb_outputs db). r = (if u x then retire at x else x)" for r by auto
  have "shelf_ok ?db"
    using assms(1,3) r unfolding pub_ok_def shelf_ok_def ids update_outputs_tables(1) by (fastforce split: if_splits)
  moreover have "tokens_ok ?db"
    using assms(1,3,4) r unfolding pub_ok_def tokens_ok_def ids a update_outputs_tables(2) revoked_simps by (fastforce split: if_splits)
  moreover have "pointers_ok ?db"
    using assms(1) r unfolding pub_ok_def pointers_ok_def own_file_def Let_def update_outputs_tables(4,5) by (fastforce split: if_splits)
  moreover have "rows_kept row_kept (pb_outputs db) (pb_outputs ?db)"
    unfolding update_outputs_tables(7) by (rule rows_kept_map) (use assms(2) in \<open>auto simp: row_kept_def\<close>)
  ultimately show ?thesis by (simp add: pub_ok_def grows_def rows_kept_refl)
qed

lemma remove_output_kept:
  assumes "pub_ok db" "remove_output_rows i at db = Ok (a, db')" "at \<noteq> 0"
  shows "pub_ok db' \<and> grows db db'"
proof -
  define d where "d = revoke_tokens (\<lambda>s. sb_output s = i) at db"
  have w: "db' = update_outputs (live_row i) (retire at) d"
    using assms(2) by (auto simp: remove_output_rows_def Let_def d_def split: if_splits)
  have d: "pub_ok d" "grows db d" using revoke_kept [OF assms(1)] by (simp_all add: d_def)
  have "active_tokens i d = []"
    unfolding d_def active_revoke [OF tokens_okD(1) [OF assms(1)]] by (auto simp: active_tokens_def filter_empty_conv)
  then have "pub_ok db' \<and> grows d db'"
    unfolding w by (intro retire_outputs_kept [OF d(1) _ assms(3)]) (auto simp: live_row_def has_id_def)
  then show ?thesis using d(2) grows_trans by blast
qed

lemma delete_profile_kept:
  assumes "pub_ok db" "delete_profile_rows p at db = Ok (a, db')" "at \<noteq> 0"
  shows "pub_ok db' \<and> grows db db'"
proof -
  define d where "d = revoke_tokens (\<lambda>s. \<exists>r \<in> set (pb_outputs db). ou_id (or_out r) = sb_output s \<and> live_of p r) at db"
  define u where "u = update_outputs (live_of p) (retire at) d"
  obtain e where e: "live_profile p db = Some e" "db' = update_profiles (live_id p) (\<lambda>e. e\<lparr>pe_deleted := at, pe_updated := at\<rparr>) (clearComposition p u)"
    using assms(2) by (auto simp: delete_profile_rows_def Let_def d_def u_def split: if_splits option.splits)
  have d: "pub_ok d" "grows db d" using revoke_kept [OF assms(1)] by (simp_all add: d_def)
  have none: "active_tokens (ou_id (or_out r)) d = []" if "r \<in> set (pb_outputs d)" "live_of p r" for r
    using that unfolding d_def active_revoke [OF tokens_okD(1) [OF assms(1)]] by (auto simp: active_tokens_def filter_empty_conv)
  have "pub_ok u \<and> grows d u"
    unfolding u_def by (intro retire_outputs_kept [OF d(1) _ assms(3) none]) (auto simp: live_of_def)
  then have u: "pub_ok u" "grows db u" using d(2) grows_trans by blast+
  have t: "pb_profiles db' = map (\<lambda>e. if live_id p e then e\<lparr>pe_deleted := at, pe_updated := at\<rparr> else e) (pb_profiles u)"
      "pb_outputs db' = pb_outputs u" "pb_subscriptions db' = pb_subscriptions u" "pb_revocations db' = pb_revocations u"
      "pb_snapshots db' = pb_snapshots u" "pb_artifacts db' = pb_artifacts u" "pb_attempts db' = pb_attempts u"
    by (simp_all add: e(2))
  have ids: "map pe_id (pb_profiles db') = map pe_id (pb_profiles u)" by (simp add: t(1))
  have gone: "\<not> live_of p r" if "r \<in> set (pb_outputs u)" for r
  proof -
    obtain x where "r = (if live_of p x then retire at x else x)" using \<open>r \<in> set (pb_outputs u)\<close> unfolding u_def update_outputs_tables(7) set_map by (rule imageE)
    then show ?thesis using assms(3) by (cases "live_of p x") (simp_all add: live_of_def)
  qed
  have live: "\<exists>e \<in> set (pb_profiles db'). pe_id e = ou_profile (or_out r) \<and> pe_deleted e = 0"
    if r: "r \<in> set (pb_outputs u)" "or_removed r = 0" for r
  proof -
    obtain x where x: "x \<in> set (pb_profiles u)" "pe_id x = ou_profile (or_out r)" "pe_deleted x = 0"
      using u(1) r unfolding pub_ok_def shelf_ok_def by blast
    then have "\<not> live_id p x" using gone [OF r(1)] r(2) by (auto simp: live_id_def live_of_def)
    then show ?thesis using x by (auto simp: t(1) intro!: bexI [of _ x])
  qed
  have a: "active_tokens i db' = active_tokens i u" "revoked db' = revoked u" for i using active_same [OF t(3,4)] by simp_all
  have "shelf_ok db'" using u(1) live unfolding pub_ok_def shelf_ok_def ids out_ids_def t(2) by blast
  moreover have "tokens_ok db'" "pointers_ok db'"
    using u(1) unfolding pub_ok_def tokens_ok_def pointers_ok_def own_file_def out_ids_def a t(2-) by blast+
  moreover have "rows_kept entry_kept (pb_profiles u) (pb_profiles db')"
    unfolding t(1) by (rule rows_kept_map) (auto simp: entry_kept_def live_id_def)
  ultimately have "pub_ok db' \<and> grows u db'" by (simp add: pub_ok_def grows_def t(2-) rows_kept_refl)
  then show ?thesis using u(2) grows_trans by blast
qed

section \<open>Publication\<close>

lemma find_mem: "find P xs = Some x \<Longrightarrow> x \<in> set xs \<and> P x"
  by (auto simp: find_Some_iff)

lemma keep_snapshot_facts:
  assumes "keep_snapshot s db = Ok (s', db')" "pub_ok db"
  shows "pub_ok db' \<and> grows db db'" "s' \<in> set (pb_snapshots db')" "sn_output s' = sn_output s" "sn_json s' = sn_json s"
    "pb_outputs db' = pb_outputs db" "pb_artifacts db' = pb_artifacts db" "pb_attempts db' = pb_attempts db"
proof -
  note k = assms(1) [unfolded keep_snapshot_def]
  show "s' \<in> set (pb_snapshots db')" "sn_output s' = sn_output s" "sn_json s' = sn_json s" "pb_outputs db' = pb_outputs db"
      "pb_artifacts db' = pb_artifacts db" "pb_attempts db' = pb_attempts db"
    using k by (auto split: option.splits if_splits dest: find_mem)
  show "pub_ok db' \<and> grows db db'"
  proof (cases "find (\<lambda>x. sn_output x = sn_output s \<and> sn_json x = sn_json s) (pb_snapshots db)")
    case None
    then have e: "db' = db\<lparr>pb_snapshots := pb_snapshots db @ [s]\<rparr>" "sn_id s \<notin> set (map sn_id (pb_snapshots db))"
      using k by (auto split: if_splits)
    have a: "active_tokens j db' = active_tokens j db" "revoked db' = revoked db" for j using active_same [of db' db] by (simp_all add: e(1))
    have "pointers_ok db'"
      using assms(2) e(2) unfolding pub_ok_def pointers_ok_def own_file_def e(1) by auto
    moreover have "shelf_ok db'" "tokens_ok db'"
      using assms(2) unfolding pub_ok_def shelf_ok_def tokens_ok_def a out_ids_def by (simp_all add: e(1))
    ultimately show ?thesis by (simp add: pub_ok_def grows_def e(1) rows_kept_refl)
  qed (use k assms(2) in simp)
qed

lemma keep_artifact_facts:
  assumes "keep_artifact a db = Ok (a', db')" "pub_ok db" "s \<in> set (pb_snapshots db)" "sn_id s = ab_snapshot a" "sn_output s = ab_output a"
    "ab_id a \<noteq> []"
  shows "pub_ok db' \<and> grows db db'" "a' \<in> set (pb_artifacts db')" "ab_output a' = ab_output a" "ab_snapshot a' = ab_snapshot a"
    "ab_hash a' = ab_hash a" "ab_path a' = ab_path a" "ab_size a' = ab_size a" "pb_outputs db' = pb_outputs db"
    "pb_snapshots db' = pb_snapshots db" "pb_attempts db' = pb_attempts db"
proof -
  note k = assms(1) [unfolded keep_artifact_def Let_def]
  have own: "ab_output x = ab_output a" if x: "x \<in> set (pb_artifacts db)" "same_build a x" for x
  proof -
    obtain y where y: "y \<in> set (pb_snapshots db)" "sn_id y = ab_snapshot x" "sn_output y = ab_output x"
      using assms(2) x(1) unfolding pub_ok_def pointers_ok_def by blast
    have inj: "inj_on sn_id (set (pb_snapshots db))" using assms(2) unfolding pub_ok_def pointers_ok_def distinct_map by blast
    have "sn_id y = sn_id s" using y(2) assms(4) x(2) by (simp add: same_build_def)
    then have "y = s" by (rule inj_onD [OF inj _ y(1) assms(3)])
    then show ?thesis using y(3) assms(5) by simp
  qed
  show "a' \<in> set (pb_artifacts db')" "ab_output a' = ab_output a" "ab_snapshot a' = ab_snapshot a"
    "ab_hash a' = ab_hash a" "ab_path a' = ab_path a" "ab_size a' = ab_size a" "pb_outputs db' = pb_outputs db"
    "pb_snapshots db' = pb_snapshots db" "pb_attempts db' = pb_attempts db"
    using k own by (auto simp: same_build_def split: option.splits if_splits dest!: find_mem)
  show "pub_ok db' \<and> grows db db'"
  proof (cases "find (same_build a) (pb_artifacts db)")
    case None
    then obtain n where e: "db' = db\<lparr>pb_artifacts := pb_artifacts db @ [n]\<rparr>" "ab_id n \<notin> set (map ab_id (pb_artifacts db))"
        "ab_snapshot n = ab_snapshot a" "ab_output n = ab_output a" "ab_id n \<noteq> []"
      using k assms(6) by (auto split: if_splits)
    have t: "active_tokens j db' = active_tokens j db" "revoked db' = revoked db" for j using active_same [of db' db] by (simp_all add: e(1))
    have own: "own_file db j i \<Longrightarrow> own_file db' j i" for j i by (auto simp: own_file_def e(1))
    have "pointers_ok db'"
      using assms(2-5) e(2-5) own unfolding pub_ok_def pointers_ok_def Let_def e(1) by auto
    moreover have "shelf_ok db'" "tokens_ok db'"
      using assms(2) unfolding pub_ok_def shelf_ok_def tokens_ok_def t out_ids_def by (simp_all add: e(1))
    ultimately show ?thesis by (simp add: pub_ok_def grows_def e(1) rows_kept_refl)
  next
    case (Some x)
    then have "db' = db" using k by (auto split: if_splits)
    then show ?thesis using assms(2) by simp
  qed
qed

lemma advance_kept:
  assumes "pub_ok db" "a \<in> set (pb_artifacts db)" "r \<in> set (pb_outputs db)" "has_id (ab_output a) r" "or_removed r = 0"
  shows "pub_ok (update_outputs (has_id (ab_output a)) (edit_out (advance a)) db) \<and>
    grows db (update_outputs (has_id (ab_output a)) (edit_out (advance a)) db)" (is "pub_ok ?db \<and> _")
proof -
  have i: "identity (advance a ou) = identity ou" "ou_device (advance a ou) = ou_device ou" for ou by (auto simp: advance_def identity_def)
  have ids: "out_ids ?db = out_ids db" by (rule out_ids_update) (simp add: edit_out_def i)
  have u: "x = r" if "x \<in> set (pb_outputs db)" "has_id (ab_output a) x" for x
    using assms(1,3,4) that by (auto simp: pub_ok_def shelf_ok_def out_ids_def distinct_map inj_on_def has_id_def)
  have t: "active_tokens j ?db = active_tokens j db" for j by (rule active_same [THEN conjunct1]) simp_all
  have m: "\<exists>x \<in> set (pb_outputs db). y = (if has_id (ab_output a) x then edit_out (advance a) x else x)" if "y \<in> set (pb_outputs ?db)" for y
    using that by auto
  have f: "or_removed (edit_out g x) = or_removed x" "or_out (edit_out g x) = g (or_out x)" for g x by (simp_all add: edit_out_def)
  have n: "ou_id (advance a ou) = ou_id ou" "ou_profile (advance a ou) = ou_profile ou" for ou using identity_facts [OF i(1)] by blast+
  have "shelf_ok ?db"
    using assms(1) m unfolding pub_ok_def shelf_ok_def ids update_outputs_tables(1) by (fastforce simp: f i n split: if_splits)
  moreover have "tokens_ok ?db"
    using assms(1) m unfolding pub_ok_def tokens_ok_def ids t update_outputs_tables(2) revoked_simps by (fastforce simp: f n split: if_splits)
  moreover have "pointers_ok ?db"
  proof -
    have p: "pointers_ok db" using assms(1) by (simp add: pub_ok_def)
    have own: "own_file ?db = own_file db" by (simp add: own_file_def [abs_def])
    have a: "own_file db (ab_output a) (ab_id a)" "ab_id a \<noteq> []" using assms(2) p by (auto simp: own_file_def pointers_ok_def)
    have "let ou = or_out y in (ou_latest ou \<noteq> [] \<longrightarrow> own_file db (ou_id ou) (ou_latest ou)) \<and>
        (ou_previous ou \<noteq> [] \<longrightarrow> own_file db (ou_id ou) (ou_previous ou) \<and> ou_latest ou \<noteq> [] \<and> ou_previous ou \<noteq> ou_latest ou)"
      if y: "y \<in> set (pb_outputs ?db)" for y
    proof -
      obtain x where x: "x \<in> set (pb_outputs db)" "y = (if has_id (ab_output a) x then edit_out (advance a) x else x)" using m [OF y] by blast
      then show ?thesis
        using p a by (cases "has_id (ab_output a) x") (auto simp: pointers_ok_def Let_def f advance_def has_id_def)
    qed
    then show ?thesis using p unfolding pointers_ok_def own update_outputs_tables(4,5) by blast
  qed
  moreover have "rows_kept row_kept (pb_outputs db) (pb_outputs ?db)"
    unfolding update_outputs_tables(7) by (rule rows_kept_map) (use u assms(5) in \<open>auto simp: row_kept_def f i\<close>)
  ultimately show ?thesis by (simp add: pub_ok_def grows_def rows_kept_refl)
qed

lemma live_output_Some:
  "live_output i db = Some ou \<Longrightarrow> \<exists>r \<in> set (pb_outputs db). or_out r = ou \<and> ou_id ou = i \<and> or_removed r = 0"
  by (auto simp: live_output_def find_Some_iff)

lemma publish_rows_facts:
  assumes "pub_ok db" "validatePublication c" "publish_rows c db = Ok ((ou, s, a), db')"
  shows "pub_ok db' \<and> grows db db'"
    "\<exists>ou0. eligible c db = Ok ou0 \<and> live_output (ou_id ou0) db = Some ou0 \<and> ou_id ou0 = sn_output (ca_snapshot c) \<and> ou = advance a ou0"
    "s \<in> set (pb_snapshots db')" "sn_json s = sn_json (ca_snapshot c)" "a \<in> set (pb_artifacts db')" "ab_output a = ou_id ou"
    "ab_snapshot a = sn_id s" "ab_hash a = ab_hash (ca_artifact c)" "ab_path a = ab_path (ca_artifact c)"
    "live_output (ou_id ou) db' = Some ou" "\<And>j. j \<noteq> ou_id ou \<Longrightarrow> live_output j db' = live_output j db"
proof -
  obtain ou0 db1 db2 r where b: "eligible c db = Ok ou0" "keep_snapshot (ca_snapshot c) db = Ok (s, db1)"
      "keep_artifact ((ca_artifact c)\<lparr>ab_snapshot := sn_id s\<rparr>) db1 = Ok (a, db2)"
      "find (has_id (ab_output a)) (pb_outputs (update_outputs (has_id (ab_output a)) (edit_out (advance a)) db2)) = Some r" "ou = or_out r"
      "db' = (update_outputs (has_id (ab_output a)) (edit_out (advance a)) db2)\<lparr>pb_attempts := pb_attempts db2 @
         [(ca_attempt c)\<lparr>oa_artifact := ab_id a, oa_uncovered := []\<rparr>]\<rparr>"
    using assms(3) unfolding publish_rows_def Let_def by (simp split: if_splits option.splits prod.splits)
  define i where "i = sn_output (ca_snapshot c)"
  have l: "live_output i db = Some ou0" using b(1) by (auto simp: eligible_def i_def split: option.splits if_splits)
  obtain r0 where r0: "r0 \<in> set (pb_outputs db)" "or_out r0 = ou0" "ou_id ou0 = i" "or_removed r0 = 0" using live_output_Some [OF l] by blast
  have c: "ab_output (ca_artifact c) = i" "ab_id (ca_artifact c) \<noteq> []" using assms(2) by (auto simp: validatePublication_def Let_def validID_def i_def)
  note k = keep_snapshot_facts [OF b(2) assms(1)]
  have k1: "pub_ok db1" using k(1) by blast
  note m = keep_artifact_facts [OF b(3) k1 k(2)]
  have m': "pub_ok db2 \<and> grows db1 db2" "a \<in> set (pb_artifacts db2)" "ab_output a = i" "ab_snapshot a = sn_id s"
      "ab_hash a = ab_hash (ca_artifact c)" "ab_path a = ab_path (ca_artifact c)" "pb_outputs db2 = pb_outputs db"
      "pb_snapshots db2 = pb_snapshots db1" "pb_attempts db2 = pb_attempts db"
    using m k(3,5,7) c by (simp_all add: i_def)
  define d where "d = update_outputs (has_id i) (edit_out (advance a)) db2"
  have d: "pub_ok d \<and> grows db2 d"
    using advance_kept [of db2 a r0] m' r0 by (simp add: d_def has_id_def)
  have o: "pb_outputs db' = pb_outputs d" "pb_snapshots db' = pb_snapshots db1" "pb_artifacts db' = pb_artifacts db2"
    by (simp_all add: b(6) d_def m')
  have "pub_ok db' \<and> grows d db'" by (rule frame_side) (use d in \<open>simp_all add: b(6) d_def m'\<close>)
  then show "pub_ok db' \<and> grows db db'" using d m'(1) k(1) grows_trans by metis
  have dis: "distinct (map (ou_id \<circ> or_out) (pb_outputs db))" using assms(1) by (simp add: pub_ok_def shelf_ok_def out_ids_def)
  have rows: "pb_outputs db' = map (\<lambda>x. if has_id i x then edit_out (advance a) x else x) (pb_outputs db)"
    by (simp add: o(1) d_def m')
  have id: "ou_id (advance a x) = ou_id x" for x by (simp add: advance_def)
  have "find (has_id i) (pb_outputs db') = Some r" using b(4) by (simp add: b(6) m'(3))
  then have r: "r \<in> set (pb_outputs db')" "has_id i r" by (blast dest: find_mem)+
  have same: "has_id i (edit_out (advance a) x) = has_id i x" for x by (simp add: has_id_def edit_out_def id)
  obtain x where x0: "x \<in> set (pb_outputs db)" "r = (if has_id i x then edit_out (advance a) x else x)"
    using r(1) unfolding rows set_map by (rule imageE)
  then have "has_id i x" using r(2) same by (cases "has_id i x") simp_all
  then have x: "x \<in> set (pb_outputs db)" "r = edit_out (advance a) x" "has_id i x" using x0 by simp_all
  have "x = r0" using dis x(1,3) r0 by (auto simp: distinct_map inj_on_def has_id_def)
  then have ou: "ou = advance a ou0" using b(5) x(2) r0(2) by (simp add: edit_out_def)
  then have oi: "ou_id ou = i" using r0(3) by (simp add: id)
  show "\<exists>ou0. eligible c db = Ok ou0 \<and> live_output (ou_id ou0) db = Some ou0 \<and> ou_id ou0 = sn_output (ca_snapshot c) \<and> ou = advance a ou0"
    using b(1) l r0(3) ou by (intro exI [of _ ou0]) (simp add: i_def)
  show "s \<in> set (pb_snapshots db')" "sn_json s = sn_json (ca_snapshot c)" "a \<in> set (pb_artifacts db')" "ab_output a = ou_id ou"
    "ab_snapshot a = sn_id s" "ab_hash a = ab_hash (ca_artifact c)" "ab_path a = ab_path (ca_artifact c)"
    using k(2,4) m' o oi by simp_all
  have dis': "distinct (map (ou_id \<circ> or_out) (pb_outputs db'))" using dis by (simp add: rows edit_out_def id o_def if_distrib cong: if_cong)
  have "or_removed r = 0" using x(2) \<open>x = r0\<close> r0(4) by (simp add: edit_out_def)
  then have "find (\<lambda>x. ou_id (or_out x) = i \<and> or_removed x = 0) (pb_outputs db') = Some r"
    using r by (intro find_unique [OF dis']) (auto simp: has_id_def)
  then show "live_output (ou_id ou) db' = Some ou" unfolding live_output_def oi by (simp add: b(5))
  fix j assume "j \<noteq> ou_id ou"
  then have "(ou_id (or_out (if has_id i x then edit_out (advance a) x else x)) = j \<and> or_removed (if has_id i x then edit_out (advance a) x else x) = 0) =
      (ou_id (or_out x) = j \<and> or_removed x = 0)" "ou_id (or_out x) = j \<Longrightarrow> (if has_id i x then edit_out (advance a) x else x) = x" for x
    by (auto simp: edit_out_def id oi has_id_def)
  then have "find (\<lambda>x. ou_id (or_out x) = j \<and> or_removed x = 0) (map (\<lambda>x. if has_id i x then edit_out (advance a) x else x) xs) =
      find (\<lambda>x. ou_id (or_out x) = j \<and> or_removed x = 0) xs" for xs
    by (induction xs) auto
  then show "live_output j db' = live_output j db" by (simp add: live_output_def rows)
qed

section \<open>Every request\<close>

definition kept_by :: "(publication_db \<Rightarrow> (store_error, 'a \<times> publication_db) result) \<Rightarrow> bool" where
  "kept_by body \<longleftrightarrow> (\<forall>db a db'. pub_ok db \<longrightarrow> body db = Ok (a, db') \<longrightarrow> pub_ok db' \<and> grows db db')"

lemma run_tx_kept:
  assumes "kept_by body" "run_tx env body w = (r, w')" "pub_ok (fst w)"
  shows "pub_ok (fst w') \<and> grows (fst w) (fst w')"
  using run_tx_cases [OF assms(2)] assms(1,3) by (auto simp: kept_by_def)

lemma profile_edit_kept:
  assumes "\<And>e. pe_id (g e) = pe_id e \<and> pe_created (g e) = pe_created e \<and> pe_deleted (g e) = pe_deleted e"
  shows "pub_ok db \<Longrightarrow> pub_ok (update_profiles (live_id p) g db) \<and> grows db (update_profiles (live_id p) g db)"
  using assms by (intro update_profiles_kept) (auto simp: live_id_def)

lemma edits_kept:
  "kept_by (\<lambda>db. if archived < 0 \<and> live_profile p db \<noteq> None then Err x
     else if \<not> one_profile (live_id p) db then Err y
     else pub_done (update_profiles (live_id p) (\<lambda>e. e\<lparr>pe_archived := archived, pe_updated := updated\<rparr>) db))"
  "kept_by (\<lambda>db. then_do (requireWritableProfile p db) (\<lambda>_. if \<not> one_profile (live_id p) db then Err y
     else pub_done (update_profiles (live_id p) (\<lambda>e. e\<lparr>pe_interval := i, pe_updated := updated\<rparr>) db)))"
  "kept_by (\<lambda>db. if refreshed < 0 \<and> live_profile p db \<noteq> None then Err x
     else if \<not> one_profile (live_id p) db then Err y
     else pub_done (update_profiles (live_id p) (\<lambda>e. e\<lparr>pe_last := refreshed, pe_failed := failed\<rparr>) db))"
  unfolding kept_by_def by (auto split: if_splits intro!: profile_edit_kept [THEN conjunct1] profile_edit_kept [THEN conjunct2])

lemma output_edits_kept:
  assumes "\<And>r. u r \<Longrightarrow> has_id i r"
    "\<And>ou. identity (g ou) = identity ou \<and> ou_latest (g ou) = ou_latest ou \<and> ou_previous (g ou) = ou_previous ou"
  shows "kept_by (\<lambda>db. then_do (writable_output P i db) (\<lambda>_. if bad db then Err y else pub_done (update_outputs u (edit_out g) db)))"
    "kept_by (\<lambda>db. then_do (writable_output P i db) (\<lambda>_. if worse db then Err x else if bad db then Err y
       else pub_done (update_outputs u (edit_out g) db)))"
  unfolding kept_by_def using writable_edit_kept [OF _ _ assms] by (auto split: if_splits)

lemma side_kept:
  "kept_by (\<lambda>db. if bad db then Err x else pub_done (db\<lparr>pb_attempts := pb_attempts db @ [a]\<rparr>))"
  "kept_by (\<lambda>db. if bad db then Err x else pub_done (db\<lparr>pb_devices := f db\<rparr>))"
  "kept_by (\<lambda>db. pub_done (db\<lparr>pb_order := is\<rparr>))"
proof -
  have "pub_ok db \<Longrightarrow> pub_ok (db\<lparr>pb_attempts := pb_attempts db @ [a]\<rparr>) \<and> grows db (db\<lparr>pb_attempts := pb_attempts db @ [a]\<rparr>)" for db
    by (rule frame_side) simp_all
  then show "kept_by (\<lambda>db. if bad db then Err x else pub_done (db\<lparr>pb_attempts := pb_attempts db @ [a]\<rparr>))"
    by (simp add: kept_by_def)
  have "pub_ok db \<Longrightarrow> pub_ok (db\<lparr>pb_devices := ds\<rparr>) \<and> grows db (db\<lparr>pb_devices := ds\<rparr>)" for db ds
    by (rule frame_side) simp_all
  then show "kept_by (\<lambda>db. if bad db then Err x else pub_done (db\<lparr>pb_devices := f db\<rparr>))"
    by (simp add: kept_by_def)
  have "pub_ok db \<Longrightarrow> pub_ok (db\<lparr>pb_order := is\<rparr>) \<and> grows db (db\<lparr>pb_order := is\<rparr>)" for db
    by (rule frame_side) simp_all
  then show "kept_by (\<lambda>db. pub_done (db\<lparr>pb_order := is\<rparr>))" by (simp add: kept_by_def)
qed

lemma delete_device_rows_kept:
  assumes "i \<noteq> []"
  shows "kept_by (\<lambda>db. if bad db then Err x
    else pub_done (update_outputs (\<lambda>r. ou_device (or_out r) = i) (edit_out (\<lambda>ou. ou\<lparr>ou_device := []\<rparr>)) (db\<lparr>pb_devices := f db\<rparr>)))"
proof -
  have "pub_ok (update_outputs (\<lambda>r. ou_device (or_out r) = i) (edit_out (\<lambda>ou. ou\<lparr>ou_device := []\<rparr>)) (db\<lparr>pb_devices := ds\<rparr>)) \<and>
      grows db (update_outputs (\<lambda>r. ou_device (or_out r) = i) (edit_out (\<lambda>ou. ou\<lparr>ou_device := []\<rparr>)) (db\<lparr>pb_devices := ds\<rparr>))"
    if "pub_ok db" for db ds
  proof -
    have "pub_ok (db\<lparr>pb_devices := ds\<rparr>) \<and> grows db (db\<lparr>pb_devices := ds\<rparr>)" by (rule frame_side) (use that in simp_all)
    then show ?thesis using delete_device_kept [of "db\<lparr>pb_devices := ds\<rparr>"] assms grows_trans by blast
  qed
  then show ?thesis by (auto simp: kept_by_def split: if_splits)
qed

lemma request_kept:
  assumes "pub_ok (fst w)" "run_request env q w = (r, w')"
  shows "pub_ok (fst w') \<and> grows (fst w) (fst w')"
proof -
  note d = kept_by_def
  have guard: "(if g then (Err x, w) else run_tx env body w) = (r, w') \<Longrightarrow> (\<not> g \<Longrightarrow> kept_by body) \<Longrightarrow> ?thesis" for g x body
    using run_tx_kept [of body env w r w'] assms(1) by (cases g) auto
  have guard2: "(if f then (Err y, w) else if g then (Err x, w) else run_tx env body w) = (r, w') \<Longrightarrow> (\<not> g \<Longrightarrow> kept_by body) \<Longrightarrow> ?thesis"
    for f y g x body using guard [of g x body] assms(1) by (cases f) auto
  show ?thesis
  proof (cases q)
    case (ReqCreateProfile p)
    show ?thesis
    proof (cases "normalizedComposition p")
      case (Some parts)
      then show ?thesis using assms(2)
        by (intro guard [of _ _ "create_profile_rows p parts"]) (auto simp: ReqCreateProfile CreateProfileRows_def d dest!: create_profile_kept [rotated])
    qed (use assms ReqCreateProfile in \<open>simp add: CreateProfileRows_def\<close>)
  next
    case (ReqUpdateProfile p)
    show ?thesis
    proof (cases "normalizedComposition p")
      case (Some parts)
      then show ?thesis using assms(2)
        by (intro guard [of _ _ "update_profile_rows p parts"]) (auto simp: ReqUpdateProfile UpdateProfileRows_def d dest!: update_profile_kept [rotated])
    qed (use assms ReqUpdateProfile in \<open>simp add: UpdateProfileRows_def\<close>)
  next
    case (ReqArchive p at now)
    show ?thesis by (rule guard [OF assms(2) [unfolded ReqArchive run_request.simps SetProfileArchived_def]]) (rule edits_kept)
  next
    case (ReqInterval p i now)
    show ?thesis by (rule guard2 [OF assms(2) [unfolded ReqInterval run_request.simps UpdateProfileRefreshInterval_def]]) (rule edits_kept)
  next
    case (ReqRefreshed p at failed)
    show ?thesis by (rule guard [OF assms(2) [unfolded ReqRefreshed run_request.simps RecordProfileRefreshResult_def]]) (rule edits_kept)
  next
    case (ReqDeleteProfile p at)
    show ?thesis
      by (rule guard2 [OF assms(2) [unfolded ReqDeleteProfile run_request.simps DeleteProfileRows_def]]) (use delete_profile_kept in \<open>auto simp: d\<close>)
  next
    case (ReqCreateOutput c)
    have k: "(has_token c \<Longrightarrow> validID (no_token c)) \<Longrightarrow> kept_by (create_output_rows c)"
      using create_output_kept [where c = c] by (fastforce simp: d validID_def)
    show ?thesis
    proof (cases "ValidateFQDNPrefix (ou_target (no_output c)) (ou_prefix (no_output c))")
      case (Inr v)
      show ?thesis by (rule guard [OF assms(2) [unfolded ReqCreateOutput run_request.simps CreateOutput_def Let_def Inr sum.case]]) (use k in blast)
    qed (use assms ReqCreateOutput in \<open>auto simp: CreateOutput_def Let_def split: if_splits\<close>)
  next
    case (ReqOutputDevice i e)
    show ?thesis by (rule guard [OF assms(2) [unfolded ReqOutputDevice run_request.simps UpdateOutputDevice_def]]) (rule output_edits_kept, simp_all add: identity_def live_row_def)
  next
    case (ReqOutputPrefix i p)
    show ?thesis
    proof (cases "ValidateFQDNPrefix ''keenetic-dns'' p")
      case (Inr v)
      show ?thesis by (rule guard [OF assms(2) [unfolded ReqOutputPrefix run_request.simps UpdateOutputFQDNPrefix_def Inr sum.case Let_def]])
        (rule output_edits_kept, simp_all add: identity_def)
    qed (use assms ReqOutputPrefix in \<open>auto simp: UpdateOutputFQDNPrefix_def split: if_splits\<close>)
  next
    case (ReqOutputKeep i keep)
    show ?thesis by (rule guard [OF assms(2) [unfolded ReqOutputKeep run_request.simps UpdateOutputKeepAddresses_def]]) (rule output_edits_kept, simp_all add: identity_def live_row_def)
  next
    case (ReqRemoveOutput i at)
    show ?thesis
      by (rule guard2 [OF assms(2) [unfolded ReqRemoveOutput run_request.simps RemoveOutputRows_def]]) (use remove_output_kept in \<open>auto simp: d\<close>)
  next
    case (ReqSubscribe i t h at)
    show ?thesis
      by (rule guard [OF assms(2) [unfolded ReqSubscribe run_request.simps CreateSubscription_def]]) (use create_subscription_kept in \<open>auto simp: d\<close>)
  next
    case (ReqReissue i t h at)
    show ?thesis
      by (rule guard2 [OF assms(2) [unfolded ReqReissue run_request.simps ReissueSubscriptionRows_def]]) (use reissue_kept in \<open>auto simp: d\<close>)
  next
    case (ReqPublish c)
    obtain r1 where p: "Publish env c w = (r1, w')" using assms(2) ReqPublish by (auto split: prod.splits)
    have "validatePublication c \<Longrightarrow> kept_by (publish_rows c)" using publish_rows_facts(1) unfolding d by fast
    then show ?thesis using assms(1) p run_tx_kept [of "publish_rows c" env w r1 w'] by (auto simp: Publish_def split: if_splits)
  next
    case (ReqAttempt a)
    show ?thesis by (rule guard [OF assms(2) [unfolded ReqAttempt run_request.simps RecordOutputAttempt_def]]) (rule side_kept)
  next
    case (ReqCreateDevice e)
    show ?thesis by (rule guard [OF assms(2) [unfolded ReqCreateDevice run_request.simps CreateDeviceRow_def]]) (rule side_kept)
  next
    case (ReqUpdateDevice e)
    show ?thesis by (rule guard [OF assms(2) [unfolded ReqUpdateDevice run_request.simps UpdateDeviceRow_def Let_def]]) (rule side_kept)
  next
    case (ReqDeleteDevice i)
    show ?thesis by (rule guard [OF assms(2) [unfolded ReqDeleteDevice run_request.simps DeleteDeviceRow_def]])
      (rule delete_device_rows_kept, auto simp: validID_def)
  next
    case (ReqOrder order)
    show ?thesis by (rule guard [OF assms(2) [unfolded ReqOrder run_request.simps SetDefaultPriorityRows_def]]) (rule side_kept)
  qed
qed

end
