(* ===== verification/PublicationSessions.thy ===== *)
theory PublicationSessions
  imports PublicationLaws LibrarySessions
begin

text \<open>
  The life of profiles, outputs and links over any sequence of requests to the store, failed ones included: what a
  link may reach, what stays forever, what a publication makes current, and that an edit is read back as saved.
\<close>

section \<open>Sessions\<close>

definition empty_publications :: publication_db where
  "empty_publications = \<lparr>pb_profiles = [], pb_lists = [], pb_categories = [], pb_exclusions = [], pb_domains = [],
     pb_priorities = [], pb_outputs = [], pb_snapshots = [], pb_artifacts = [], pb_attempts = [], pb_subscriptions = [],
     pb_revocations = [], pb_devices = [], pb_order = []\<rparr>"

inductive pub_steps :: "'e sql_env \<Rightarrow> 'e pub_world \<Rightarrow> 'e pub_world \<Rightarrow> bool" for env where
  steps_none: "pub_steps env w w"
| steps_served: "pub_steps env w v \<Longrightarrow> run_request env q v = (r, v') \<Longrightarrow> pub_steps env w v'"
| steps_elsewhere: "pub_steps env w (db, e) \<Longrightarrow> pub_steps env w (db, e')"

definition pub_session :: "'e sql_env \<Rightarrow> 'e pub_world \<Rightarrow> bool" where
  "pub_session env w \<longleftrightarrow> (\<exists>e. pub_steps env (empty_publications, e) w)"

lemma steps_kept:
  assumes "pub_steps env w w'" "pub_ok (fst w)"
  shows "pub_ok (fst w') \<and> grows (fst w) (fst w')"
  using assms
proof (induction rule: pub_steps.induct)
  case (steps_served w v q r v')
  then have "pub_ok (fst v)" "grows (fst w) (fst v)" by simp_all
  then show ?case using request_kept [OF _ steps_served.hyps(2)] grows_trans by blast
qed simp_all

lemma empty_ok: "pub_ok empty_publications"
  by (simp add: empty_publications_def pub_ok_def shelf_ok_def tokens_ok_def pointers_ok_def out_ids_def revoked_def active_tokens_def)

lemma session_ok: "pub_session env w \<Longrightarrow> pub_ok (fst w)"
  using steps_kept [of env "(empty_publications, e)" w for e] empty_ok by (auto simp: pub_session_def)

lemma session_steps: "pub_session env w \<Longrightarrow> pub_steps env w w' \<Longrightarrow> pub_session env w'"
proof -
  have "pub_steps env w w' \<Longrightarrow> pub_steps env v w \<Longrightarrow> pub_steps env v w'" for v
    by (induction rule: pub_steps.induct) (auto intro: pub_steps.intros)
  then show "pub_session env w \<Longrightarrow> pub_steps env w w' \<Longrightarrow> pub_session env w'" by (auto simp: pub_session_def)
qed

section \<open>Links\<close>

lemma run_query_Ok: "run_query env body w = (r, w') \<Longrightarrow> r = Ok a \<Longrightarrow> body (fst w) = Ok a \<and> fst w' = fst w"
  by (auto simp: run_query_def run_tx_def then_do_def split: prod.splits option.splits sum.splits)

lemma run_query_Err: "run_query env body w = (Err x, w') \<Longrightarrow> body (fst w) = Err x \<or> (\<exists>m. x = StoreFailed m)"
  by (auto simp: run_query_def run_tx_def then_do_def split: prod.splits option.splits sum.splits)

lemma link_Ok:
  assumes "OutputBySubscription env t h w = (Ok ou, w')"
  shows "fst w' = fst w" "live_output (ou_id ou) (fst w) = Some ou" "\<not> revoked (fst w) t"
    "\<exists>s \<in> set (pb_subscriptions (fst w)). sb_token s = t \<and> sb_output s = ou_id ou \<and> sb_hash s = h"
proof -
  obtain i hash w1 where q: "run_query env (subscription_row t) w = (Ok (i, hash, False, False), w1)" "hash = h"
      "OutputRow env i w1 = (Ok ou, w')"
    using assms by (auto simp: OutputBySubscription_def split: if_splits prod.splits sum.splits)
  note a = run_query_Ok [OF q(1) refl]
  have b: "output_rows i (fst w1) = Ok ou" "fst w' = fst w1"
    using q(3) run_query_Ok [of env "output_rows i" w1 "Ok ou" w' ou] by (auto simp: OutputRow_def split: if_splits)
  have l: "live_output i (fst w) = Some ou" using b a by (auto simp: output_rows_def split: option.splits)
  then have i: "ou_id ou = i" using live_output_Some by blast
  show "fst w' = fst w" "live_output (ou_id ou) (fst w) = Some ou" using a b l i by simp_all
  obtain s where s: "find (\<lambda>s. sb_token s = t) (pb_subscriptions (fst w)) = Some s" "sb_output s = i" "sb_hash s = hash"
      "\<not> revoked (fst w) t"
    using a by (auto simp: subscription_row_def split: option.splits)
  then show "\<not> revoked (fst w) t"
    "\<exists>s \<in> set (pb_subscriptions (fst w)). sb_token s = t \<and> sb_output s = ou_id ou \<and> sb_hash s = h"
    using find_mem [OF s(1)] q(2) i by auto
qed

text \<open>
  C24. A link that answers reaches a live format of a profile that is not deleted, and it is the only one: no other
  token, and no other secret, reaches the same format at that moment.
\<close>

theorem one_link_per_output:
  assumes "pub_session env w" "OutputBySubscription env t h w = (Ok ou, w1)"
    "OutputBySubscription env t' h' w1 = (Ok ou', w2)" "ou_id ou' = ou_id ou"
  shows "t' = t \<and> h' = h \<and> live_output (ou_id ou) (fst w) = Some ou \<and>
    (\<exists>e. live_profile (ou_profile ou) (fst w) = Some e)"
proof -
  have ok: "pub_ok (fst w)" using session_ok [OF assms(1)] .
  note a = link_Ok [OF assms(2)] and b = link_Ok [OF assms(3)]
  obtain s where s: "s \<in> set (pb_subscriptions (fst w))" "sb_token s = t" "sb_output s = ou_id ou" "sb_hash s = h" using a(4) by blast
  obtain s' where s': "s' \<in> set (pb_subscriptions (fst w))" "sb_token s' = t'" "sb_output s' = ou_id ou" "sb_hash s' = h'"
    using b(4) a(1) assms(4) by auto
  have m: "s \<in> set (active_tokens (ou_id ou) (fst w))" "s' \<in> set (active_tokens (ou_id ou) (fst w))"
    using s s' a(3) b(3) a(1) by (auto simp: active_tokens_def)
  have "s' = s"
    using m tokens_okD(4) [OF ok, of "ou_id ou"] by (cases "active_tokens (ou_id ou) (fst w)") auto
  moreover obtain r where r: "r \<in> set (pb_outputs (fst w))" "or_out r = ou" "or_removed r = 0"
    using live_output_Some [OF a(2)] by blast
  moreover have "\<exists>e \<in> set (pb_profiles (fst w)). pe_id e = ou_profile ou \<and> pe_deleted e = 0"
    using ok r unfolding pub_ok_def shelf_ok_def by blast
  then have "live_profile (ou_profile ou) (fst w) \<noteq> None" by (auto simp: live_profile_def find_None_iff)
  ultimately show ?thesis using s s' a(2) by auto
qed

lemma rows_kept_mem: "rows_kept P xs ys \<Longrightarrow> x \<in> set xs \<Longrightarrow> \<exists>y \<in> set ys. P x y"
proof -
  assume "rows_kept P xs ys" "x \<in> set xs"
  then obtain us zs k where "ys = us @ zs" "list_all2 P xs us" "k < length xs" "xs ! k = x" by (auto simp: rows_kept_def in_set_conv_nth)
  then have "us ! k \<in> set ys" "P x (us ! k)" by (auto simp: list_all2_conv_all_nth)
  then show ?thesis by blast
qed



lemma eligible_Ok:
  assumes "eligible c db = Ok ou"
  shows "\<exists>p. readProfile (ou_profile ou) db = Ok p \<and> \<not> Archived p \<and> ProfilePublicationRevision p = ca_revision c \<and>
    ou_prefix ou = ca_prefix c \<and> ou_keep ou = ca_keep c \<and> (\<forall>t. latest_cutoff ou db = Some t \<longrightarrow> t \<le> sn_cutoff (ca_snapshot c))"
proof -
  obtain x where x: "live_output (sn_output (ca_snapshot c)) db = Some x"
    using assms by (cases "live_output (sn_output (ca_snapshot c)) db") (auto simp: eligible_def)
  obtain p where p: "readProfile (ou_profile x) db = Ok p"
    using assms by (cases "readProfile (ou_profile x) db") (auto simp: eligible_def x)
  note e = assms [unfolded eligible_def x option.case p then_do_Ok]
  have a: "\<not> Archived p" "ProfilePublicationRevision p = ca_revision c \<and> ou_prefix x = ca_prefix c \<and> ou_keep x = ca_keep c"
    using e by (metis Inl_Inr_False)+
  have "ou = x \<and> (\<forall>t. latest_cutoff x db = Some t \<longrightarrow> t \<le> sn_cutoff (ca_snapshot c))"
    using e a by (cases "latest_cutoff x db") (auto split: if_splits)
  then show ?thesis using p a by blast
qed


section \<open>Editing a profile\<close>

lemma resolve_cong:
  assumes "set (co_lists c) = set (co_lists d)" "set (co_categories c) = set (co_categories d)"
    "set (co_exclusions c) = set (co_exclusions d)" "co_priority c = co_priority d"
  shows "resolveComposition lib c = resolveComposition lib d"
proof -
  have "StableStrings (filter (\<lambda>i. i \<notin> set (co_exclusions c) \<and> hasDefinition lib i) (co_lists c @ concat (map (category_lists lib) (co_categories c)))) =
      StableStrings (filter (\<lambda>i. i \<notin> set (co_exclusions d) \<and> hasDefinition lib i) (co_lists d @ concat (map (category_lists lib) (co_categories d))))"
    unfolding StableStrings_sort_unique by (rule sort_unique_eqI) (use assms in auto)
  then show ?thesis unfolding resolveComposition_def Let_def assms(4) by (simp only:)
qed

lemma map_snd_Pair [simp]: "map (snd \<circ> Pair i) xs = xs"
  by (simp add: o_def)

lemma own_rows: "map snd (filter (\<lambda>r. fst r = p) (filter (\<lambda>r. fst r \<noteq> p) rows @ map (Pair p) xs)) = xs"
  by (simp add: filter_map o_def)

lemma other_rows: "j \<noteq> p \<Longrightarrow> filter (\<lambda>r. fst r = j) (filter (\<lambda>r. fst r \<noteq> p) rows @ map (Pair p) xs) = filter (\<lambda>r. fst r = j) rows"
  by (auto simp: filter_map o_def filter_empty_conv intro: filter_cong)

lemma find_map_same:
  assumes "\<And>x. P (f x) = P x"
  shows "find P (map f xs) = map_option f (find P xs)"
  using assms by (induction xs) auto

lemma written_parts:
  assumes "writeComposition p (ls, cs, es, pr) (clearComposition p db) = Ok db1" "writeListDomains p m db1 = Ok db'"
  shows "pb_lists db' = filter (\<lambda>r. fst r \<noteq> p) (pb_lists db) @ map (Pair p) ls"
    "pb_categories db' = filter (\<lambda>r. fst r \<noteq> p) (pb_categories db) @ map (Pair p) cs"
    "pb_exclusions db' = filter (\<lambda>r. fst r \<noteq> p) (pb_exclusions db) @ map (Pair p) es"
    "pb_domains db' = filter (\<lambda>r. fst r \<noteq> p) (pb_domains db) @ map (Pair p) (sort_key fst m)"
    "pb_priorities db' = filter (\<lambda>r. fst r \<noteq> p) (pb_priorities db) @ map (Pair p) (zip pr [0..<length pr])"
    "length pr \<le> 128" "validListDomains m"
  using assms by (auto simp: writeComposition_def writeListDomains_def clearComposition_def Let_def case_prod_beta split: if_splits)

lemma normalized_parts:
  assumes "normalizedComposition p = Some (ls, cs, es, pr)"
  shows "ls = StableStrings (pf_lists p)" "cs = StableStrings (pf_categories p)" "es = StableStrings (pf_exclusions p)"
    "pr = pf_priority p" "length ls \<le> 128" "length cs \<le> 128" "length es \<le> 128"
  using assms by (auto simp: normalizedComposition_def Let_def validSlugSet_def split: if_splits)

lemma validListDomains_perm: "mset m = mset m' \<Longrightarrow> validListDomains m \<Longrightarrow> validListDomains m'"
proof -
  assume a: "mset m = mset m'" "validListDomains m"
  have "sum_mset (mset (map (length \<circ> snd) m)) = sum_mset (mset (map (length \<circ> snd) m'))" using a(1) by (simp only: mset_map)
  then have "sum_list (map (length \<circ> snd) m) = sum_list (map (length \<circ> snd) m')" by (simp only: sum_mset_sum_list)
  then show "validListDomains m'" using a mset_eq_setD [OF a(1)] mset_eq_length [OF a(1)] by (simp add: validListDomains_def)
qed

lemma take_stable: "length (StableStrings xs) \<le> 128 \<Longrightarrow> take 128 (sort (StableStrings xs)) = StableStrings xs"
  by (simp add: StableStrings_sort_unique sort_key_id_if_sorted strict_sorted_sorted)

lemma zip_sorted: "sorted (map snd (zip xs [0..<length xs]))"
  by simp

text \<open>
  C30. An edit of a profile is read back as it was saved: name, lists, categories, exclusions, domains and order, and it
  publishes what the edited composition publishes. No other profile changes.
\<close>

theorem profile_edit_reads_back:
  assumes "UpdateProfileRows env p w = (Ok u, w')"
  shows "\<exists>q. readProfile (pf_id p) (fst w') = Ok q \<and> pf_name q = pf_name p \<and> pf_lists q = StableStrings (pf_lists p) \<and>
    pf_categories q = StableStrings (pf_categories p) \<and> pf_exclusions q = StableStrings (pf_exclusions p) \<and>
    pf_domains q = sort_key fst (pf_domains p) \<and> pf_priority q = pf_priority p \<and> pf_updated q = pf_updated p \<and>
    \<not> Archived q \<and> ResolvedLists lib q = ResolvedLists lib p \<and>
    (j \<noteq> pf_id p \<longrightarrow> readProfile j (fst w') = readProfile j (fst w))"
proof -
  define i where "i = pf_id p"
  define f where "f = (\<lambda>e :: profile_entry. if pe_id e = i then e\<lparr>pe_name := pf_name p, pe_updated := pf_updated p\<rparr> else e)"
  define v where "v = update_profiles (\<lambda>e. pe_id e = i) (\<lambda>e. e\<lparr>pe_name := pf_name p, pe_updated := pf_updated p\<rparr>) (fst w)"
  obtain parts where parts: "normalizedComposition p = Some parts"
    using assms by (cases "normalizedComposition p") (simp_all add: UpdateProfileRows_def)
  obtain ls cs es pr where n: "parts = (ls, cs, es, pr)" by (cases parts)
  note n' = normalized_parts [OF parts [unfolded n]]
  have "update_profile_rows p parts (fst w) = Ok (u, fst w')"
    using assms parts run_tx_cases [of env "update_profile_rows p parts" w "Ok u" w'] by (auto simp: UpdateProfileRows_def split: if_splits)
  then obtain x db1 where w: "requireWritableProfile i (fst w) = Ok x" "writeComposition i (ls, cs, es, pr) (clearComposition i v) = Ok db1"
      "writeListDomains i (pf_domains p) db1 = Ok (fst w')"
    by (auto simp: update_profile_rows_def Let_def i_def v_def n split: if_splits)
  obtain e where e: "live_profile i (fst w) = Some e" "pe_archived e = 0" using writable_profile [OF w(1)] by blast
  have ei: "pe_id e = i" "pe_deleted e = 0" using live_profile_Some [OF e(1)] by simp_all
  have prof: "pb_profiles (fst w') = map f (pb_profiles (fst w))" using written_tables(7) [OF w(2,3)] by (simp add: v_def f_def)
  have live: "live_profile j (fst w') = map_option f (live_profile j (fst w))" for j
    unfolding live_profile_def prof by (rule find_map_same) (simp add: f_def)
  note t = written_parts [OF w(2,3)]
  have v: "pb_lists v = pb_lists (fst w)" "pb_categories v = pb_categories (fst w)" "pb_exclusions v = pb_exclusions (fst w)"
      "pb_domains v = pb_domains (fst w)" "pb_priorities v = pb_priorities (fst w)" by (simp_all add: v_def update_profiles_def)
  define q where "q = (readComposition (fst w') (scanProfile (f e)))\<lparr>pf_domains := sort_key fst (pf_domains p)\<rparr>"
  have id: "pf_id (readComposition (fst w') (scanProfile (f e))) = i" by (simp add: readComposition_def scanProfile_def f_def ei)
  have dom: "sort_key fst (sort_key fst (pf_domains p)) = sort_key fst (pf_domains p)" by (rule sort_key_sorted_id) simp
  have "length (pf_domains p) \<le> 128" using t(7) by (simp add: validListDomains_def)
  moreover have "readProfile i (fst w') = readListDomains (fst w') (readComposition (fst w') (scanProfile (f e)))"
    by (simp add: readProfile_def live e(1))
  ultimately have rd: "readProfile i (fst w') = Ok q"
    using validListDomains_perm [of "pf_domains p" "sort_key fst (pf_domains p)"] t(7)
    unfolding readListDomains_def id t(4) own_rows by (simp add: dom q_def)
  have z: "sort_key snd (zip (pf_priority p) [0..<length (pf_priority p)]) = zip (pf_priority p) [0..<length (pf_priority p)]"
    by (rule sort_key_sorted_id) simp
  have qf: "pf_name q = pf_name p" "pf_lists q = StableStrings (pf_lists p)" "pf_categories q = StableStrings (pf_categories p)"
      "pf_exclusions q = StableStrings (pf_exclusions p)" "pf_domains q = sort_key fst (pf_domains p)" "pf_priority q = pf_priority p"
      "pf_updated q = pf_updated p" "\<not> Archived q"
    using n' t(6) ei e(2) take_stable
    by (simp_all add: q_def readComposition_def scanProfile_def f_def compositionPart_def t(1-3,5) own_rows z Archived_def)
  have "ResolvedLists lib q = ResolvedLists lib p"
    unfolding ResolvedLists_def by (rule resolve_cong) (simp_all add: profile_composition_def qf StableStrings_sort_unique)
  moreover have "readProfile j (fst w') = readProfile j (fst w)" if "j \<noteq> i"
  proof (cases "live_profile j (fst w)")
    case (Some y)
    then have y: "pe_id y = j" using live_profile_Some by blast
    then have "f y = y" using that by (simp add: f_def)
    moreover have "filter (\<lambda>r. fst r = j) (pb_lists (fst w')) = filter (\<lambda>r. fst r = j) (pb_lists (fst w))"
        "filter (\<lambda>r. fst r = j) (pb_categories (fst w')) = filter (\<lambda>r. fst r = j) (pb_categories (fst w))"
        "filter (\<lambda>r. fst r = j) (pb_exclusions (fst w')) = filter (\<lambda>r. fst r = j) (pb_exclusions (fst w))"
        "filter (\<lambda>r. fst r = j) (pb_domains (fst w')) = filter (\<lambda>r. fst r = j) (pb_domains (fst w))"
        "filter (\<lambda>r. fst r = j) (pb_priorities (fst w')) = filter (\<lambda>r. fst r = j) (pb_priorities (fst w))"
      unfolding t(1-5) v by (rule other_rows [OF that])+
    ultimately show ?thesis
      using Some y by (simp add: readProfile_def live readListDomains_def readComposition_def scanProfile_def compositionPart_def)
  qed (simp add: readProfile_def live)
  ultimately show ?thesis using rd qf unfolding i_def by blast
qed

section \<open>The order of the library\<close>

text \<open>The repository of the service on the tables; the service reports a failed read or write in its own words.\<close>

definition sqlite_priority :: "'e sql_env \<Rightarrow> 'e pub_world priority_repo" where
  "sqlite_priority env = \<lparr>
     pq_read = (\<lambda>w. case DefaultPriorityRows env w of
       (Inl x, w) \<Rightarrow> (Err (ErrStore ''read default priority''), w) | (Inr is, w) \<Rightarrow> (Ok is, w)),
     pq_write = (\<lambda>is w. case SetDefaultPriorityRows env is w of
       (Inl x, w) \<Rightarrow> (Some (ErrStore ''write default priority''), w) | (Inr u, w) \<Rightarrow> (None, w))\<rparr>"

definition stored_order :: "'e pub_world \<Rightarrow> string list" where
  "stored_order w = map fst (sort_key snd (pb_order (fst w)))"

interpretation order_store: priority_repository "sqlite_priority env" stored_order for env
proof
  fix l w w'
  show "pq_read (sqlite_priority env) w = (Ok l, w') \<Longrightarrow> l = stored_order w \<and> stored_order w' = stored_order w"
    by (auto simp: sqlite_priority_def stored_order_def DefaultPriorityRows_def dest!: run_query_Ok [OF _ refl] split: prod.splits sum.splits)
  have "sort_key snd (zip l [0..<length l]) = zip l [0..<length l]" by (rule sort_key_sorted_id) simp
  then show "pq_write (sqlite_priority env) l w = (None, w') \<Longrightarrow> stored_order w' = l"
    by (auto simp: sqlite_priority_def stored_order_def SetDefaultPriorityRows_def dest!: run_tx_cases split: prod.splits sum.splits if_splits)
qed

text \<open>
  C31. The order the operator gives the library is the order new profiles get: a composition that asks for no order
  of its own is saved with exactly its lists, in the order last stored.
\<close>

theorem stored_order_reaches_profiles:
  assumes "well_typed lib" "SetDefaultPriority (Some (sqlite_priority env)) order lib w = (None, w')" "co_priority requested = []"
    "validCompositionWithDefaultPriority (Some (sqlite_priority env)) lib requested w' = (Ok c, w'')"
  shows "co_priority c = filter (\<lambda>i. i \<in> published lib requested) order"
  using assms by (intro order_store.new_profile_order)

end
