(* ===== verification/PublicationDemo.thy ===== *)
theory PublicationDemo
  imports PublicationSessions
begin

text \<open>
  One concrete life on the tables: a profile is made, gets an output, is published, subscribed to, and its link is
  replaced. The results on links, publications and compositions are applied to it.
\<close>

section \<open>The rows\<close>

definition demo_id :: "char \<Rightarrow> string" where "demo_id c = replicate 32 c"
definition demo_hash :: string where "demo_hash = replicate 64 (CHR ''0'')"

definition demo_profile :: profile where
  "demo_profile = \<lparr>pf_id = demo_id (CHR ''0''), pf_name = ''P'', pf_lists = [''a''], pf_categories = [], pf_exclusions = [],
     pf_domains = [], pf_priority = [''a''], pf_interval = [], pf_last = 0, pf_last_failed = False, pf_archived = 0,
     pf_created = 1, pf_updated = 1\<rparr>"

definition demo_entry :: profile_entry where
  "demo_entry = \<lparr>pe_id = demo_id (CHR ''0''), pe_name = ''P'', pe_interval = [], pe_last = 0, pe_failed = False, pe_archived = 0,
     pe_deleted = 0, pe_created = 1, pe_updated = 1\<rparr>"

definition demo_output :: profile_output where
  "demo_output = \<lparr>ou_prefix = [], ou_keep = False, ou_id = demo_id (CHR ''1''), ou_profile = demo_id (CHR ''0''), ou_target = ''t'',
     ou_device = [], ou_format = ''f'', ou_renderer = ''r'', ou_renderer_version = ''1'', ou_revision = ''v'', ou_created = 1,
     ou_latest = [], ou_previous = []\<rparr>"

definition demo_snapshot :: plan_snapshot where
  "demo_snapshot = \<lparr>sn_id = demo_id (CHR ''2''), sn_output = demo_id (CHR ''1''), sn_hash = demo_hash, sn_json = ''j'', sn_policy = ''p'',
     sn_catalog = ''c'', sn_cutoff = 1, sn_created = 1, sn_status = ''valid''\<rparr>"

definition demo_artifact :: artifact_build where
  "demo_artifact = \<lparr>ab_id = demo_id (CHR ''3''), ab_output = demo_id (CHR ''1''), ab_snapshot = demo_id (CHR ''2''), ab_renderer = ''r'',
     ab_version = ''1'', ab_hash = demo_hash, ab_path = ''f'', ab_size = 1, ab_type = ''t'', ab_created = 1,
     ab_validation = ''valid'', ab_status = ''published''\<rparr>"

definition demo_attempt :: output_attempt where
  "demo_attempt = \<lparr>oa_output = demo_id (CHR ''1''), oa_status = ''success'', oa_code = [], oa_projected = 1, oa_maximum = 1,
     oa_uncovered = [], oa_artifact = demo_id (CHR ''3''), oa_completed = 1\<rparr>"

definition demo_candidate :: publication_candidate where
  "demo_candidate = \<lparr>ca_snapshot = demo_snapshot, ca_artifact = demo_artifact, ca_attempt = demo_attempt,
     ca_revision = ProfilePublicationRevision demo_profile, ca_prefix = [], ca_keep = False\<rparr>"

definition demo_current :: profile_output where
  "demo_current = demo_output\<lparr>ou_latest := demo_id (CHR ''3'')\<rparr>"

definition demo_secret :: "nat list" where "demo_secret = replicate 32 1"

definition demo_db1 :: publication_db where
  "demo_db1 = empty_publications\<lparr>pb_profiles := [demo_entry], pb_lists := [(demo_id (CHR ''0''), ''a'')],
     pb_priorities := [(demo_id (CHR ''0''), ''a'', 0)]\<rparr>"

definition demo_db2 :: publication_db where
  "demo_db2 = demo_db1\<lparr>pb_outputs := [\<lparr>or_out = demo_output, or_removed = 0\<rparr>]\<rparr>"

definition demo_db3 :: publication_db where
  "demo_db3 = demo_db2\<lparr>pb_outputs := [\<lparr>or_out = demo_current, or_removed = 0\<rparr>], pb_snapshots := [demo_snapshot],
     pb_artifacts := [demo_artifact], pb_attempts := [demo_attempt]\<rparr>"

definition demo_db4 :: publication_db where
  "demo_db4 = add_token (demo_id (CHR ''1'')) (demo_id (CHR ''4'')) demo_secret 1 demo_db3"

definition demo_db5 :: publication_db where
  "demo_db5 = add_token (demo_id (CHR ''1'')) (demo_id (CHR ''5'')) demo_secret 1
     (demo_db4\<lparr>pb_revocations := [(demo_id (CHR ''4''), 1)]\<rparr>)"

section \<open>The requests\<close>

lemma demo_ids: "validID (demo_id (CHR ''0''))" "validID (demo_id (CHR ''1''))" "validID (demo_id (CHR ''2''))" "validID (demo_id (CHR ''3''))"
  "validID (demo_id (CHR ''4''))" "validID (demo_id (CHR ''5''))" "validHash demo_hash"
  by code_simp+

lemma demo_id_inj [simp]: "demo_id a = demo_id b \<longleftrightarrow> a = b" "demo_id a \<noteq> []" "[] \<noteq> demo_id a"
  by (simp_all add: demo_id_def)

lemma demo_texts: "length (rune_codes ''P'') \<le> 120" "length (rune_codes ''Q'') \<le> 120" "path_clean ''f'' = ''f''"
    "\<not> has_prefix ''f'' ''../''" "\<not> has_prefix ''f'' ''/''"
proof -
  have "chunks [c] = [[c]]" for c by (simp add: chunks.simps)
  then show "length (rune_codes ''P'') \<le> 120" "length (rune_codes ''Q'') \<le> 120" by (simp_all add: rune_codes_def)
qed (simp_all add: path_clean_def has_prefix_def)

lemma demo_stable: "StableStrings [] = []" "StableStrings [''a''] = [''a'']"
  by (simp_all add: StableStrings_def)

lemma demo_runs: "run_tx demo_env body (db, ()) = (case body db of Inl x \<Rightarrow> (Err x, (db, ())) | Inr (a, db') \<Rightarrow> (Ok a, (db', ())))"
  by (cases "body db") (simp_all add: run_tx_def demo_env_def split: prod.splits)

lemma demo_reads: "run_query demo_env body (db, ()) = (body db, (db, ()))"
  by (cases "body db") (simp_all add: run_query_def demo_runs)

lemma demo_create: "run_request demo_env (ReqCreateProfile demo_profile) (empty_publications, ()) = (Ok (), (demo_db1, ()))"
proof -
  have "normalizedComposition demo_profile = Some ([''a''], [], [], [''a''])"
    using demo_slugs by (simp add: normalizedComposition_def demo_profile_def demo_stable validSlugSet_def Let_def)
  then show ?thesis using demo_ids(1) demo_texts(1)
    by (simp add: CreateProfileRows_def demo_runs create_profile_rows_def Let_def writeComposition_def writeListDomains_def validListDomains_def
      demo_profile_def demo_db1_def demo_entry_def empty_publications_def RefreshDefault_def)
qed

lemma demo_bind: "run_request demo_env (ReqCreateOutput \<lparr>no_output = demo_output, no_token = [], no_token_hash = no_hash\<rparr>) (demo_db1, ()) =
    (Ok (), (demo_db2, ()))"
  using demo_ids(1,2)
  by (simp add: CreateOutput_def ValidateFQDNPrefix_def has_token_def demo_runs create_output_rows_def requireWritableProfile_def live_profile_def
    known_device_def demo_output_def demo_entry_def demo_db2_def demo_db1_def empty_publications_def)

lemma demo_read: "readProfile (demo_id (CHR ''0'')) demo_db2 = Ok demo_profile"
  by (simp add: readProfile_def live_profile_def readListDomains_def readComposition_def scanProfile_def compositionPart_def validListDomains_def
    demo_db2_def demo_db1_def demo_entry_def demo_profile_def empty_publications_def)

lemma demo_publish: "Publish demo_env demo_candidate (demo_db2, ()) = (Ok (demo_current, demo_snapshot, demo_artifact), (demo_db3, ()))"
proof -
  have v: "validatePublication demo_candidate"
    using demo_ids demo_texts
    by (simp add: validatePublication_def demo_candidate_def demo_snapshot_def demo_artifact_def demo_attempt_def maxArtifactBytes_def)
  have l: "live_output (demo_id (CHR ''1'')) demo_db2 = Some demo_output" by (simp add: live_output_def demo_db2_def demo_output_def)
  have "eligible demo_candidate demo_db2 = Ok demo_output"
    using l demo_read by (simp add: eligible_def demo_candidate_def demo_snapshot_def demo_output_def latest_cutoff_def Archived_def demo_profile_def
      demo_db2_def demo_db1_def empty_publications_def)
  moreover have "keep_snapshot demo_snapshot demo_db2 = Ok (demo_snapshot, demo_db2\<lparr>pb_snapshots := [demo_snapshot]\<rparr>)"
    by (simp add: keep_snapshot_def demo_db2_def demo_db1_def empty_publications_def)
  moreover have "keep_artifact demo_artifact (demo_db2\<lparr>pb_snapshots := [demo_snapshot]\<rparr>) =
      Ok (demo_artifact, demo_db2\<lparr>pb_snapshots := [demo_snapshot], pb_artifacts := [demo_artifact]\<rparr>)"
    by (simp add: keep_artifact_def content_created_def demo_db2_def demo_db1_def empty_publications_def Let_def demo_artifact_def)
  moreover have "demo_artifact\<lparr>ab_snapshot := sn_id demo_snapshot\<rparr> = demo_artifact" "demo_attempt\<lparr>oa_artifact := ab_id demo_artifact\<rparr> = demo_attempt"
      "demo_attempt\<lparr>oa_uncovered := []\<rparr> = demo_attempt" "validOutputAttempt demo_attempt" "ab_output demo_artifact = demo_id (CHR ''1'')"
    using demo_ids by (simp_all add: demo_artifact_def demo_snapshot_def demo_attempt_def validOutputAttempt_def)
  moreover have "pb_outputs demo_db2 = [\<lparr>or_out = demo_output, or_removed = 0\<rparr>]" "has_id (demo_id (CHR ''1'')) \<lparr>or_out = demo_output, or_removed = 0\<rparr>"
      "edit_out (advance demo_artifact) \<lparr>or_out = demo_output, or_removed = 0\<rparr> = \<lparr>or_out = demo_current, or_removed = 0\<rparr>"
      "has_id (demo_id (CHR ''1'')) \<lparr>or_out = demo_current, or_removed = 0\<rparr>" "pb_attempts demo_db2 = []"
    by (simp_all add: demo_db2_def demo_db1_def empty_publications_def has_id_def edit_out_def advance_def demo_output_def demo_current_def demo_artifact_def)
  ultimately have "publish_rows demo_candidate demo_db2 = Ok ((demo_current, demo_snapshot, demo_artifact),
      demo_db2\<lparr>pb_snapshots := [demo_snapshot], pb_artifacts := [demo_artifact], pb_outputs := [\<lparr>or_out = demo_current, or_removed = 0\<rparr>],
        pb_attempts := [demo_attempt]\<rparr>)"
    by (simp add: publish_rows_def demo_candidate_def update_outputs_def Let_def)
  moreover have "demo_db2\<lparr>pb_snapshots := [demo_snapshot], pb_artifacts := [demo_artifact], pb_outputs := [\<lparr>or_out = demo_current, or_removed = 0\<rparr>],
        pb_attempts := [demo_attempt]\<rparr> = demo_db3" by (simp add: demo_db3_def demo_db2_def)
  ultimately show ?thesis using v by (simp add: Publish_def demo_runs)
qed

lemma demo_writable:
  assumes "pb_outputs db = [\<lparr>or_out = demo_current, or_removed = 0\<rparr>]" "pb_profiles db = [demo_entry]"
  shows "writable_output (\<lambda>_. True) (demo_id (CHR ''1'')) db = Ok ()"
  using assms by (simp add: writable_output_def live_row_def has_id_def requireWritableProfile_def live_profile_def demo_entry_def demo_current_def demo_output_def)

lemma demo_tables: "pb_outputs demo_db3 = [\<lparr>or_out = demo_current, or_removed = 0\<rparr>]" "pb_profiles demo_db3 = [demo_entry]"
  "pb_subscriptions demo_db3 = []" "pb_revocations demo_db3 = []" "pb_outputs demo_db4 = [\<lparr>or_out = demo_current, or_removed = 0\<rparr>]"
  "pb_profiles demo_db4 = [demo_entry]" "pb_revocations demo_db4 = []"
  "pb_subscriptions demo_db4 = [\<lparr>sb_token = demo_id (CHR ''4''), sb_output = demo_id (CHR ''1''), sb_hash = demo_secret, sb_created = 1\<rparr>]"
  by (simp_all add: demo_db4_def demo_db3_def demo_db2_def demo_db1_def empty_publications_def)

lemma demo_subscribe: "run_request demo_env (ReqSubscribe (demo_id (CHR ''1'')) (demo_id (CHR ''4'')) demo_secret 1) (demo_db3, ()) = (Ok (), (demo_db4, ()))"
  using demo_ids demo_writable [OF demo_tables(1,2)]
  by (simp add: CreateSubscription_def demo_runs create_subscription_rows_def activeSubscriptions_def active_tokens_def demo_tables demo_db4_def)

lemma demo_reissue: "run_request demo_env (ReqReissue (demo_id (CHR ''1'')) (demo_id (CHR ''5'')) demo_secret 1) (demo_db4, ()) = (Ok (), (demo_db5, ()))"
proof -
  have "demo_secret \<noteq> no_hash" by (simp add: demo_secret_def no_hash_def)
  then show ?thesis using demo_ids demo_writable [OF demo_tables(5,6)]
    by (simp add: ReissueSubscriptionRows_def demo_runs reissue_rows_def requireWritableOutput_def activeSubscriptions_def active_tokens_def
      revoked_def revoke_tokens_def demo_tables demo_db5_def)
qed

lemma demo_steps: "pub_steps demo_env (empty_publications, ()) (demo_db2, ())" "pub_steps demo_env (demo_db2, ()) (demo_db5, ())"
proof -
  show "pub_steps demo_env (empty_publications, ()) (demo_db2, ())"
    by (rule steps_served [OF steps_served [OF steps_none demo_create] demo_bind])
  have "run_request demo_env (ReqPublish demo_candidate) (demo_db2, ()) = (Ok (), (demo_db3, ()))" by (simp add: demo_publish)
  then show "pub_steps demo_env (demo_db2, ()) (demo_db5, ())"
    by (rule steps_served [OF steps_served [OF steps_served [OF steps_none] demo_subscribe] demo_reissue])
qed

lemma demo_sessions: "pub_session demo_env (demo_db2, ())" "pub_session demo_env (demo_db5, ())"
proof -
  show "pub_session demo_env (demo_db2, ())" using demo_steps(1) by (auto simp: pub_session_def)
  then show "pub_session demo_env (demo_db5, ())" by (rule session_steps) (rule demo_steps(2))
qed

section \<open>Links and publications\<close>

lemma demo_links:
  "OutputBySubscription demo_env (demo_id (CHR ''5'')) demo_secret (demo_db5, ()) = (Ok demo_current, (demo_db5, ()))"
  "OutputBySubscription demo_env (demo_id (CHR ''4'')) demo_secret (demo_db5, ()) = (Err SubscriptionRevoked, (demo_db5, ()))"
proof -
  have t: "pb_outputs demo_db5 = [\<lparr>or_out = demo_current, or_removed = 0\<rparr>]" "pb_revocations demo_db5 = [(demo_id (CHR ''4''), 1)]"
    "pb_subscriptions demo_db5 = [\<lparr>sb_token = demo_id (CHR ''4''), sb_output = demo_id (CHR ''1''), sb_hash = demo_secret, sb_created = 1\<rparr>,
       \<lparr>sb_token = demo_id (CHR ''5''), sb_output = demo_id (CHR ''1''), sb_hash = demo_secret, sb_created = 1\<rparr>]"
    by (simp_all add: demo_db5_def demo_tables)
  have "length demo_secret = 32" "ou_id demo_current = demo_id (CHR ''1'')" by (simp_all add: demo_secret_def demo_current_def demo_output_def)
  then show "OutputBySubscription demo_env (demo_id (CHR ''5'')) demo_secret (demo_db5, ()) = (Ok demo_current, (demo_db5, ()))"
    "OutputBySubscription demo_env (demo_id (CHR ''4'')) demo_secret (demo_db5, ()) = (Err SubscriptionRevoked, (demo_db5, ()))"
    using demo_ids by (simp_all add: OutputBySubscription_def demo_reads subscription_row_def has_id_def revoked_def OutputRow_def output_rows_def live_output_def t)
qed

theorem one_link_per_output_witness: "live_output (demo_id (CHR ''1'')) demo_db5 = Some demo_current"
  using one_link_per_output [OF demo_sessions(2) demo_links(1) demo_links(1) refl] by (simp add: demo_current_def demo_output_def)




section \<open>Compositions\<close>

lemma demo_typed: "well_typed demo_library"
  using fresh_typed demo_catalog by (simp add: demo_library_def)

lemma demo_has: "hasDefinition demo_library ''a''" "published demo_library \<lparr>co_lists = [''a''], co_categories = [], co_exclusions = [], co_domains = [], co_priority = ps\<rparr> = {''a''}"
  by (auto simp: published_def hasDefinition_def list_definition_def baseDefinition_def removedFromLibrary_def demo_defs)

definition demo_request :: composition where
  "demo_request = \<lparr>co_lists = [''a''], co_categories = [], co_exclusions = [], co_domains = [], co_priority = []\<rparr>"

lemma demo_resolved: "resolveComposition demo_library demo_request = [''a'']"
  using resolve_split(1) [of demo_request demo_library] demo_has(2) [of "[]"] by (simp add: demo_request_def priority_ok_def)

lemma demo_normal: "normalizePriority [] [''a''] = Ok [''a'']" "normalizePriority [''a''] [''a''] = Ok [''a'']"
  using demo_slugs by (simp_all add: normalizePriority_def)

lemma demo_valid: "validComposition demo_library demo_request = Ok (demo_request\<lparr>co_priority := [''a'']\<rparr>)"
  using demo_slugs demo_has(1) demo_resolved demo_normal
  by (simp add: validComposition_def demo_request_def demo_stable maxCompositionItems_def normalizeListDomains_def Let_def)

theorem accepted_composition_published_witness: "resolveComposition demo_library (demo_request\<lparr>co_priority := [''a'']\<rparr>) = [''a'']"
  using accepted_composition_published [OF demo_typed demo_valid] by (simp add: demo_request_def)

lemma demo_update: "UpdateProfileRows demo_env (demo_profile\<lparr>pf_name := ''Q''\<rparr>) (demo_db1, ()) = (Ok (), (demo_db1\<lparr>pb_profiles := [demo_entry\<lparr>pe_name := ''Q''\<rparr>]\<rparr>, ()))"
proof -
  have "normalizedComposition (demo_profile\<lparr>pf_name := ''Q''\<rparr>) = Some ([''a''], [], [], [''a''])"
    using demo_slugs by (simp add: normalizedComposition_def demo_profile_def demo_stable validSlugSet_def Let_def)
  then show ?thesis using demo_ids(1) demo_texts(2)
    by (simp add: UpdateProfileRows_def demo_runs update_profile_rows_def requireWritableProfile_def live_profile_def one_profile_def update_profiles_def
      clearComposition_def Let_def writeComposition_def writeListDomains_def validListDomains_def demo_profile_def demo_db1_def demo_entry_def empty_publications_def)
qed

theorem profile_edit_reads_back_witness: "\<exists>q. readProfile (demo_id (CHR ''0'')) (demo_db1\<lparr>pb_profiles := [demo_entry\<lparr>pe_name := ''Q''\<rparr>]\<rparr>) = Ok q \<and> pf_name q = ''Q''"
  using profile_edit_reads_back [OF demo_update] by (auto simp: demo_profile_def)

lemma demo_order: "Lists demo_library = [''a'']" "mergedCategories demo_library = [\<lparr>cd_id = ''c'', cd_title = ''C'', cd_lists = [''a''], cd_custom = False\<rparr>]"
  by (simp_all add: Lists_def customLists_def knownList_def baseDefinition_def removedFromLibrary_def mergedCategories_def mergedCategory_def
    shipped_lists_def verdicts_def sort_unique_def demo_stable demo_defs Let_def)

lemma demo_stored: "SetDefaultPriority (Some (sqlite_priority demo_env)) [''a''] demo_library (empty_publications, ()) =
    (None, (empty_publications\<lparr>pb_order := [(''a'', 0)]\<rparr>, ()))"
  using demo_slugs by (simp add: SetDefaultPriority_def validPriorityPermutation_def demo_order sqlite_priority_def SetDefaultPriorityRows_def demo_runs)

lemma demo_new: "validCompositionWithDefaultPriority (Some (sqlite_priority demo_env)) demo_library demo_request (empty_publications\<lparr>pb_order := [(''a'', 0)]\<rparr>, ()) =
    (Ok (demo_request\<lparr>co_priority := [''a'']\<rparr>), (empty_publications\<lparr>pb_order := [(''a'', 0)]\<rparr>, ()))"
proof -
  have "demo_request\<lparr>co_priority := [''a'']\<rparr>\<lparr>co_domains := [], co_priority := []\<rparr> = demo_request" by (simp add: demo_request_def)
  moreover have "co_priority demo_request = []" by (simp add: demo_request_def)
  ultimately show ?thesis using demo_valid demo_resolved demo_normal
    by (simp add: validCompositionWithDefaultPriority_def DefaultPriority_def demo_order sqlite_priority_def DefaultPriorityRows_def demo_reads
      mergePriority_def filterKnownPriority_def)
qed

theorem stored_order_reaches_profiles_witness: "filter (\<lambda>i. i \<in> published demo_library demo_request) [''a''] = [''a'']"
  using stored_order_reaches_profiles [OF demo_typed demo_stored _ demo_new] by (simp add: demo_request_def)

end
