(* ===== verification/Tokens.thy ===== *)
theory Tokens
  imports SqliteProfiles
begin

text \<open>
  The bearer token of a subscription link, \<open>subscription.go\<close> of \<open>application\<close>: the identity, a secret in base64
  (\<open>encoding/base64\<close>, the URL alphabet without padding) and the hash that is stored in their place.
\<close>

section \<open>Base64\<close>

definition b64_alphabet :: string where
  "b64_alphabet = ''ABCDEFGHIJKLMNOPQRSTUVWXYZabcdefghijklmnopqrstuvwxyz0123456789-_''"

definition b64_char :: "nat \<Rightarrow> char" where
  "b64_char n = b64_alphabet ! n"

definition b64_val :: "char \<Rightarrow> nat option" where
  "b64_val c = find (\<lambda>n. b64_char n = c) [0..<64]"

fun b64_encode :: "nat list \<Rightarrow> string" where
  "b64_encode [] = []"
| "b64_encode [a] = map b64_char [a div 4, a mod 4 * 16]"
| "b64_encode [a, b] = map b64_char [a div 4, a mod 4 * 16 + b div 16, b mod 16 * 4]"
| "b64_encode (a # b # c # r) =
     map b64_char [a div 4, a mod 4 * 16 + b div 16, b mod 16 * 4 + c div 64, c mod 64] @ b64_encode r"

text \<open>The lenient decoder: the unused bits of the last character are dropped, line breaks are skipped.\<close>

fun b64_bytes :: "nat list \<Rightarrow> nat list option" where
  "b64_bytes [] = Some []"
| "b64_bytes [a] = None"
| "b64_bytes [a, b] = Some [a * 4 + b div 16]"
| "b64_bytes [a, b, c] = Some [a * 4 + b div 16, b mod 16 * 16 + c div 4]"
| "b64_bytes (a # b # c # d # r) =
     map_option (\<lambda>bs. [a * 4 + b div 16, b mod 16 * 16 + c div 4, c mod 4 * 64 + d] @ bs) (b64_bytes r)"

definition b64_decode :: "string \<Rightarrow> nat list option" where
  "b64_decode s = Option.bind (those (map b64_val (filter (\<lambda>c. c \<noteq> CHR 0x0A \<and> c \<noteq> CHR 0x0D) s))) b64_bytes"

section \<open>Tokens\<close>

definition token_hash :: "string \<Rightarrow> nat list" where
  "token_hash token = sha256 (map byte token)"

text \<open>The token of an identity and a secret, and what is read off a presented one.\<close>

definition subscription_token :: "string \<Rightarrow> nat list \<Rightarrow> string" where
  "subscription_token i secret = ''rv1.'' @ i @ ''.'' @ b64_encode secret"

definition parseToken :: "string \<Rightarrow> (string \<times> nat list) option" where
  "parseToken token =
     (case split_on (CHR ''.'') token of
        [v, i, s] \<Rightarrow>
          if v \<noteq> ''rv1'' \<or> \<not> isHexID i then None
          else (case b64_decode s of
            None \<Rightarrow> None
          | Some secret \<Rightarrow> if length secret \<noteq> 32 then None else Some (i, token_hash token))
      | _ \<Rightarrow> None)"

section \<open>The round trip\<close>

lemma alphabet_facts:
  "\<forall>n \<in> set [0..<64]. b64_val (b64_char n) = Some n \<and> b64_char n \<noteq> CHR ''.'' \<and> b64_char n \<noteq> CHR 0x0A \<and> b64_char n \<noteq> CHR 0x0D"
  by code_simp

lemma b64_char_facts:
  assumes "n < 64"
  shows "b64_val (b64_char n) = Some n" "b64_char n \<noteq> CHR ''.''" "b64_char n \<noteq> CHR 0x0A" "b64_char n \<noteq> CHR 0x0D"
  using alphabet_facts assms by auto

definition sextets :: "nat list \<Rightarrow> string \<Rightarrow> bool" where
  "sextets vs s \<longleftrightarrow> s = map b64_char vs \<and> (\<forall>v \<in> set vs. v < 64)"

lemma split_byte: "k < d \<Longrightarrow> (m * d + k) div d = (m :: nat) \<and> (m * d + k) mod d = k"
  by simp

lemma byte_parts:
  assumes "a < 256" "b < (256 :: nat)"
  shows "a div 4 < 64" "a mod 4 * 16 + b div 16 < 64" "(a mod 4 * 16 + b div 16) div 16 = a mod 4"
    "(a mod 4 * 16 + b div 16) mod 16 = b div 16" "a div 4 * 4 + a mod 4 = a"
    "b mod 16 * 4 + a div 64 < 64" "(b mod 16 * 4 + a div 64) div 4 = b mod 16" "(b mod 16 * 4 + a div 64) mod 4 = a div 64"
    "b div 16 * 16 + b mod 16 = b" "a div 64 * 64 + a mod 64 = a" "a mod 4 * 16 < 64" "b mod 16 * 4 < 64" "a mod 64 < 64"
proof -
  have q: "b div 16 < 16" "a div 64 < 4" "a mod 4 < 4" "b mod 16 < 16" using assms by auto
  show "(a mod 4 * 16 + b div 16) div 16 = a mod 4" "(a mod 4 * 16 + b div 16) mod 16 = b div 16"
    using split_byte [OF q(1), of "a mod 4"] by auto
  show "(b mod 16 * 4 + a div 64) div 4 = b mod 16" "(b mod 16 * 4 + a div 64) mod 4 = a div 64"
    using split_byte [OF q(2), of "b mod 16"] by auto
  show "a div 4 < 64" "a mod 4 * 16 + b div 16 < 64" "b mod 16 * 4 + a div 64 < 64" "a mod 4 * 16 < 64" "b mod 16 * 4 < 64"
    using assms q by linarith+
qed simp_all

lemma b64_encode_sextets: "\<forall>b \<in> set bs. b < 256 \<Longrightarrow> \<exists>vs. sextets vs (b64_encode bs) \<and> b64_bytes vs = Some bs"
proof (induction bs rule: b64_encode.induct)
  case 1
  then show ?case by (intro exI [of _ "[]"]) (simp add: sextets_def)
next
  case (2 a)
  then have "a < 256" by simp
  note p = byte_parts [OF this this]
  have "sextets [a div 4, a mod 4 * 16] (b64_encode [a]) \<and> b64_bytes [a div 4, a mod 4 * 16] = Some [a]"
    using p by (simp add: sextets_def)
  then show ?case by blast
next
  case (3 a b)
  then have "a < 256" "b < 256" by simp_all
  note p = byte_parts [OF this]
  have "sextets [a div 4, a mod 4 * 16 + b div 16, b mod 16 * 4] (b64_encode [a, b]) \<and>
      b64_bytes [a div 4, a mod 4 * 16 + b div 16, b mod 16 * 4] = Some [a, b]"
    using p(1-5,9,12) by (simp add: sextets_def)
  then show ?case by blast
next
  case (4 a b c r)
  then obtain vs where vs: "sextets vs (b64_encode r)" "b64_bytes vs = Some r" by auto
  have "a < 256" "b < 256" "c < 256" using 4(2) by simp_all
  note p = byte_parts [OF this(1,2)] byte_parts [OF this(3,2)]
  define us where "us = [a div 4, a mod 4 * 16 + b div 16, b mod 16 * 4 + c div 64, c mod 64]"
  have "b64_encode (a # b # c # r) = map b64_char us @ b64_encode r" by (simp add: us_def)
  moreover have "\<forall>v \<in> set us. v < 64" using p(1,2,19,26) by (simp add: us_def)
  ultimately have "sextets (us @ vs) (b64_encode (a # b # c # r))" using vs(1) by (simp add: sextets_def ball_Un)
  moreover have "b64_bytes (us @ vs) = Some (a # b # c # r)"
    unfolding us_def append_Cons append_Nil b64_bytes.simps vs(2) p(3,4,5,9,20,21) option.map(2) by (simp add: p(23))
  ultimately show ?case by blast
qed

lemma sextets_facts:
  assumes "sextets vs s"
  shows "those (map b64_val s) = Some vs" "\<forall>c \<in> set s. c \<noteq> CHR ''.'' \<and> c \<noteq> CHR 0x0A \<and> c \<noteq> CHR 0x0D"
proof -
  have "\<forall>v \<in> set vs. v < 64 \<Longrightarrow> those (map (b64_val \<circ> b64_char) vs) = Some vs" for vs
    by (induction vs) (simp_all add: b64_char_facts)
  then show "those (map b64_val s) = Some vs" using assms by (simp add: sextets_def)
  show "\<forall>c \<in> set s. c \<noteq> CHR ''.'' \<and> c \<noteq> CHR 0x0A \<and> c \<noteq> CHR 0x0D"
    using assms b64_char_facts(2-4) by (auto simp: sextets_def)
qed

lemma b64_decode_encode:
  assumes "\<forall>b \<in> set bs. b < 256"
  shows "b64_decode (b64_encode bs) = Some bs" "CHR ''.'' \<notin> set (b64_encode bs)"
proof -
  obtain vs where vs: "sextets vs (b64_encode bs)" "b64_bytes vs = Some bs" using b64_encode_sextets [OF assms] by blast
  note f = sextets_facts [OF vs(1)]
  have "filter (\<lambda>c. c \<noteq> CHR 0x0A \<and> c \<noteq> CHR 0x0D) (b64_encode bs) = b64_encode bs" using f(2) by (simp add: filter_id_conv)
  then show "b64_decode (b64_encode bs) = Some bs" using f(1) vs(2) by (simp add: b64_decode_def)
  show "CHR ''.'' \<notin> set (b64_encode bs)" using f(2) by blast
qed

lemma hex_digit_facts: "\<forall>n \<in> set [0..<16]. is_hex (dg n) \<and> dg n \<noteq> CHR ''.'' \<and> to_lower [dg n] = [dg n]"
  by code_simp

lemma hex_encode_id:
  assumes "length bs = 16" "\<forall>b \<in> set bs. b < 256"
  shows "isHexID (hex_encode bs)" "CHR ''.'' \<notin> set (hex_encode bs)"
proof -
  have d: "is_hex c \<and> c \<noteq> CHR ''.'' \<and> to_lower [c] = [c]" if c: "c \<in> set (hex_encode bs)" for c
  proof -
    obtain x where x: "x \<in> set bs" "c = dg (x div 16) \<or> c = dg (x mod 16)" using c by (auto simp: hex_encode_def)
    then have "x div 16 < 16" "x mod 16 < 16" using assms(2) by (auto simp: less_mult_imp_div_less)
    then show ?thesis using x(2) hex_digit_facts by auto
  qed
  have "\<forall>c \<in> set (hex_encode bs). lower c = c" "\<forall>c \<in> set (hex_encode bs). is_hex c"
    using d by (simp_all add: to_lower_def)
  then show "isHexID (hex_encode bs)" using assms(1) by (simp add: isHexID_def length_hex_encode to_lower_def map_idI)
  show "CHR ''.'' \<notin> set (hex_encode bs)" using d by blast
qed

lemma parse_issued:
  assumes "isHexID i" "CHR ''.'' \<notin> set i" "length secret = 32" "\<forall>b \<in> set secret. b < 256"
  shows "parseToken (subscription_token i secret) = Some (i, token_hash (subscription_token i secret))"
proof -
  have "split_on (CHR ''.'') (subscription_token i secret) = [''rv1'', i, b64_encode secret]"
    using split_join [of "[''rv1'', i, b64_encode secret]" "CHR ''.''"] assms(2) b64_decode_encode(2) [OF assms(4)]
    by (simp add: subscription_token_def)
  then show ?thesis using assms b64_decode_encode(1) [OF assms(4)] by (simp add: parseToken_def)
qed

lemma length_sha256: "length (sha256 bs) = 32"
proof -
  have r: "length (sha_round st p) = 8" if "length st = 8" for st p
    using that by (cases "(st, p)" rule: sha_round.cases) (simp_all add: Let_def)
  have "length (foldl sha_round st ps) = 8" if "length st = 8" for st ps
    using that by (induction ps arbitrary: st) (simp_all add: r)
  then have "length (sha_block st w) = 8" if "length st = 8" for st w
    using that by (simp add: sha_block_def)
  then have "length (foldl sha_block st ws) = 8" if "length st = 8" for st ws
    using that by (induction ws arbitrary: st) simp_all
  moreover have "length sha_init = 8" by (simp add: sha_init_def)
  ultimately have "length (foldl sha_block sha_init ws) = 8" for ws by blast
  moreover have "length (concat (map octets ws)) = 4 * length ws" for ws :: "32 word list"
    by (induction ws) (simp_all add: octets_def length_split_base)
  ultimately show ?thesis by (simp add: sha256_def Let_def)
qed

end
