(* ===== verification/PublicationService.thy ===== *)
theory PublicationService
  imports Tokens SqlitePublications
begin

text \<open>
  The publication service over profiles, outputs and links: \<open>publication.go\<close> (from \<open>CreateProfile\<close> on), \<open>archive.go\<close>,
  \<open>retirement.go\<close>, \<open>subscription.go\<close>, \<open>artifacts.go\<close>, \<open>output_prefix.go\<close> and \<open>output_addresses.go\<close> of \<open>application\<close>.
  The repository and the published files are operations on a world \<open>'w\<close>, as the interfaces of the Go code have
  them; the two optional interfaces are options. The publication lock is left out: an operation is one step.
\<close>

section \<open>The service\<close>

datatype service_error =
    InvalidRequest string | ZeroClock | LibrarySays library_error | StoreSays store_error
  | OutputTaken profile_output | TargetChanged | ArtifactUnavailable | PrefixRefused | AddressesRefused

record 'w publication_store =
  ps_now :: "'w \<Rightarrow> time \<times> 'w"
  ps_random :: "nat \<Rightarrow> 'w \<Rightarrow> (library_error, nat list) result \<times> 'w"
  ps_create_profile :: "profile \<Rightarrow> 'w \<Rightarrow> (store_error, unit) result \<times> 'w"
  ps_profile :: "string \<Rightarrow> 'w \<Rightarrow> (store_error, profile) result \<times> 'w"
  ps_update_profile :: "profile \<Rightarrow> 'w \<Rightarrow> (store_error, unit) result \<times> 'w"
  ps_set_archived :: "string \<Rightarrow> time \<Rightarrow> time \<Rightarrow> 'w \<Rightarrow> (store_error, unit) result \<times> 'w"
  ps_delete_profile :: "string \<Rightarrow> time \<Rightarrow> 'w \<Rightarrow> (store_error, unit) result \<times> 'w"
  ps_create_output :: "new_output \<Rightarrow> 'w \<Rightarrow> (store_error, unit) result \<times> 'w"
  ps_output_device :: "string \<Rightarrow> string \<Rightarrow> 'w \<Rightarrow> (store_error, unit) result \<times> 'w"
  ps_output_prefix :: "(string \<Rightarrow> string \<Rightarrow> 'w \<Rightarrow> (store_error, unit) result \<times> 'w) option"
  ps_output_addresses :: "(string \<Rightarrow> bool \<Rightarrow> 'w \<Rightarrow> (store_error, unit) result \<times> 'w) option"
  ps_remove_output :: "string \<Rightarrow> time \<Rightarrow> 'w \<Rightarrow> (store_error, unit) result \<times> 'w"
  ps_output :: "string \<Rightarrow> 'w \<Rightarrow> (store_error, profile_output) result \<times> 'w"
  ps_outputs :: "string \<Rightarrow> 'w \<Rightarrow> (store_error, profile_output list) result \<times> 'w"
  ps_subscribe :: "string \<Rightarrow> string \<Rightarrow> nat list \<Rightarrow> time \<Rightarrow> 'w \<Rightarrow> (store_error, unit) result \<times> 'w"
  ps_reissue :: "string \<Rightarrow> string \<Rightarrow> nat list \<Rightarrow> time \<Rightarrow> 'w \<Rightarrow> (store_error, unit) result \<times> 'w"
  ps_by_token :: "string \<Rightarrow> nat list \<Rightarrow> 'w \<Rightarrow> (store_error, profile_output) result \<times> 'w"
  ps_snapshot :: "string \<Rightarrow> 'w \<Rightarrow> (store_error, plan_snapshot) result \<times> 'w"
  ps_artifact :: "string \<Rightarrow> 'w \<Rightarrow> (store_error, artifact_build) result \<times> 'w"
  ps_read_file :: "artifact_build \<Rightarrow> renderer_descriptor \<Rightarrow> 'w \<Rightarrow> (string, string) result \<times> 'w"
  ps_priority :: "'w priority_repo option"

text \<open>The selectable targets and the registered renderers: identity, version and descriptor.\<close>

record formats =
  fm_targets :: "(string \<times> target_def) list"
  fm_renderers :: "(string \<times> string \<times> renderer_descriptor) list"

record artifact_payload =
  ap_artifact :: artifact_build
  ap_bytes :: string
  ap_fallback :: bool
  ap_descriptor :: renderer_descriptor

text \<open>One call of the repository inside an operation of the service: its error ends the operation.\<close>

definition asked :: "(store_error, 'a) result \<times> 'w \<Rightarrow> ('a \<Rightarrow> 'w \<Rightarrow> (service_error, 'b) result \<times> 'w)
   \<Rightarrow> (service_error, 'b) result \<times> 'w" where
  "asked rw k = (case rw of (Inl e, w) \<Rightarrow> (Err (StoreSays e), w) | (Inr a, w) \<Rightarrow> k a w)"

definition writable :: "profile \<Rightarrow> 'w \<Rightarrow> ('w \<Rightarrow> (service_error, 'b) result \<times> 'w) \<Rightarrow> (service_error, 'b) result \<times> 'w" where
  "writable p w k = (if Archived p then (Err (StoreSays ProfileArchived), w) else k w)"

definition at_time :: "'w publication_store \<Rightarrow> 'w \<Rightarrow> (time \<Rightarrow> 'w \<Rightarrow> (service_error, 'b) result \<times> 'w)
   \<Rightarrow> (service_error, 'b) result \<times> 'w" where
  "at_time st w k = (case ps_now st w of (now, w) \<Rightarrow> if now = 0 then (Err ZeroClock, w) else k now w)"

definition new_id :: "'w publication_store \<Rightarrow> 'w \<Rightarrow> (library_error, string) result \<times> 'w" where
  "new_id st w = (case ps_random st 16 w of (Inl e, w) \<Rightarrow> (Err e, w) | (Inr bs, w) \<Rightarrow> (Ok (hex_encode bs), w))"

section \<open>Formats\<close>

definition renderer_for :: "formats \<Rightarrow> target_def \<Rightarrow> string option" where
  "renderer_for fm t =
     (case map_of (fm_renderers fm) (td_renderer t) of
        None \<Rightarrow> None
      | Some (version, d) \<Rightarrow> if version \<noteq> td_format t then None else Some version)"

definition target_of :: "formats \<Rightarrow> string \<Rightarrow> (target_def \<times> string) option" where
  "target_of fm i =
     (case map_of (fm_targets fm) i of
        None \<Rightarrow> None
      | Some t \<Rightarrow> (case renderer_for fm t of None \<Rightarrow> None | Some version \<Rightarrow> Some (t, version)))"

definition verifyTarget :: "formats \<Rightarrow> profile_output \<Rightarrow> (service_error, target_def) result" where
  "verifyTarget fm ou =
     (case target_of fm (ou_target ou) of
        None \<Rightarrow> Err TargetChanged
      | Some (t, version) \<Rightarrow>
          if ou_format ou \<noteq> td_format t \<or> ou_renderer ou \<noteq> td_renderer t \<or> ou_renderer_version ou \<noteq> version \<or>
             ou_revision ou \<noteq> TargetRevision t
          then Err TargetChanged else Ok t)"

section \<open>Profiles\<close>

definition compose_profile :: "profile \<Rightarrow> string \<Rightarrow> composition \<Rightarrow> time \<Rightarrow> profile" where
  "compose_profile p name c now = p\<lparr>pf_name := name, pf_lists := co_lists c, pf_categories := co_categories c,
     pf_exclusions := co_exclusions c, pf_domains := co_domains c, pf_priority := co_priority c, pf_updated := now\<rparr>"

definition blank_profile :: "string \<Rightarrow> time \<Rightarrow> profile" where
  "blank_profile i now = \<lparr>pf_id = i, pf_name = [], pf_lists = [], pf_categories = [], pf_exclusions = [], pf_domains = [],
     pf_priority = [], pf_interval = RefreshDefault, pf_last = 0, pf_last_failed = False, pf_archived = 0,
     pf_created = now, pf_updated = now\<rparr>"

fun create_profile :: "nat \<Rightarrow> 'w publication_store \<Rightarrow> string \<Rightarrow> composition \<Rightarrow> time \<Rightarrow> 'w \<Rightarrow> (service_error, profile) result \<times> 'w" where
  "create_profile 0 st name c now w = (Err (StoreSays IdentityCollision), w)"
| "create_profile (Suc n) st name c now w =
     (case new_id st w of
        (Inl e, w) \<Rightarrow> (Err (LibrarySays e), w)
      | (Inr i, w) \<Rightarrow>
          let p = compose_profile (blank_profile i now) name c now in
          case ps_create_profile st p w of
            (Inl e, w) \<Rightarrow> if e = IdentityCollision then create_profile n st name c now w else (Err (StoreSays e), w)
          | (Inr u, w) \<Rightarrow> (Ok p, w))"

definition CreateProfile ::
  "'w publication_store \<Rightarrow> library \<Rightarrow> string \<Rightarrow> composition \<Rightarrow> 'w \<Rightarrow> (service_error, profile) result \<times> 'w" where
  "CreateProfile st lib name requested w =
     (case validObjectName name of
        None \<Rightarrow> (Err (InvalidRequest ''profile name''), w)
      | Some clean \<Rightarrow>
          (case validCompositionWithDefaultPriority (ps_priority st) lib requested w of
             (Inl e, w) \<Rightarrow> (Err (LibrarySays e), w)
           | (Inr c, w) \<Rightarrow> at_time st w (\<lambda>now w. create_profile 8 st clean c now w)))"

definition ProfileOf :: "'w publication_store \<Rightarrow> string \<Rightarrow> 'w \<Rightarrow> (store_error, profile) result \<times> 'w" where
  "ProfileOf st i w = (if \<not> isHexID i then (Err NotFound, w) else ps_profile st i w)"

definition UpdateProfile ::
  "'w publication_store \<Rightarrow> library \<Rightarrow> string \<Rightarrow> string \<Rightarrow> composition \<Rightarrow> 'w \<Rightarrow> (service_error, profile) result \<times> 'w" where
  "UpdateProfile st lib i name requested w =
     asked (ProfileOf st i w) (\<lambda>current w. writable current w (\<lambda>w.
       case validObjectName name of
         None \<Rightarrow> (Err (InvalidRequest ''profile name''), w)
       | Some clean \<Rightarrow>
           (case validComposition lib requested of
              Inl e \<Rightarrow> (Err (LibrarySays e), w)
            | Inr c \<Rightarrow> at_time st w (\<lambda>now w.
                let updated = (compose_profile current clean c now)\<lparr>pf_archived := 0\<rparr> in
                asked (ps_update_profile st updated w) (\<lambda>u w. (Ok updated, w))))))"

definition setArchived ::
  "'w publication_store \<Rightarrow> string \<Rightarrow> bool \<Rightarrow> 'w \<Rightarrow> (service_error, profile) result \<times> 'w" where
  "setArchived st i archived w =
     asked (ProfileOf st i w) (\<lambda>p w.
       if Archived p = archived then (Ok p, w)
       else at_time st w (\<lambda>now w.
         let at = (if archived then now else 0) in
         asked (ps_set_archived st (pf_id p) at now w) (\<lambda>u w. (Ok (p\<lparr>pf_archived := at, pf_updated := now\<rparr>), w))))"

definition ArchiveProfile :: "'w publication_store \<Rightarrow> string \<Rightarrow> 'w \<Rightarrow> (service_error, profile) result \<times> 'w" where
  "ArchiveProfile st i = setArchived st i True"

definition RestoreProfile :: "'w publication_store \<Rightarrow> string \<Rightarrow> 'w \<Rightarrow> (service_error, profile) result \<times> 'w" where
  "RestoreProfile st i = setArchived st i False"

definition DeleteProfile :: "'w publication_store \<Rightarrow> string \<Rightarrow> 'w \<Rightarrow> (service_error, time) result \<times> 'w" where
  "DeleteProfile st i w =
     asked (ProfileOf st i w) (\<lambda>p w.
       if \<not> Archived p then (Err (StoreSays ProfileNotArchived), w)
       else at_time st w (\<lambda>now w. asked (ps_delete_profile st (pf_id p) now w) (\<lambda>u w. (Ok now, w))))"

section \<open>Outputs\<close>

text \<open>A read that fails reads as absent.\<close>

definition existingOutput :: "'w publication_store \<Rightarrow> string \<Rightarrow> string \<Rightarrow> 'w \<Rightarrow> profile_output option \<times> 'w" where
  "existingOutput st p t w =
     (case ps_outputs st p w of
        (Inl e, w) \<Rightarrow> (None, w)
      | (Inr os, w) \<Rightarrow> (find (\<lambda>ou. ou_target ou = t) os, w))"

definition bound_output :: "string \<Rightarrow> string \<Rightarrow> target_def \<Rightarrow> string \<Rightarrow> time \<Rightarrow> profile_output" where
  "bound_output i p t version now = \<lparr>ou_prefix = [], ou_keep = False, ou_id = i, ou_profile = p, ou_target = td_id t,
     ou_device = [], ou_format = td_format t, ou_renderer = td_renderer t, ou_renderer_version = version,
     ou_revision = TargetRevision t, ou_created = now, ou_latest = [], ou_previous = []\<rparr>"

text \<open>The zero \<open>Output\<close>, reported when the output that took the target cannot be read.\<close>

definition no_output_value :: profile_output where
  "no_output_value = \<lparr>ou_prefix = [], ou_keep = False, ou_id = [], ou_profile = [], ou_target = [], ou_device = [],
     ou_format = [], ou_renderer = [], ou_renderer_version = [], ou_revision = [], ou_created = 0, ou_latest = [],
     ou_previous = []\<rparr>"

fun create_output :: "nat \<Rightarrow> 'w publication_store \<Rightarrow> string \<Rightarrow> target_def \<Rightarrow> string \<Rightarrow> time \<Rightarrow> 'w
   \<Rightarrow> (service_error, profile_output) result \<times> 'w" where
  "create_output 0 st p t version now w = (Err (StoreSays IdentityCollision), w)"
| "create_output (Suc n) st p t version now w =
     (case new_id st w of
        (Inl e, w) \<Rightarrow> (Err (LibrarySays e), w)
      | (Inr i, w) \<Rightarrow>
          let ou = bound_output i p t version now in
          case ps_create_output st \<lparr>no_output = ou, no_token = [], no_token_hash = no_hash\<rparr> w of
            (Inl e, w) \<Rightarrow>
              if e = IdentityCollision then create_output n st p t version now w
              else if e = OutputExists
              then (case existingOutput st p (td_id t) w of
                (None, w) \<Rightarrow> (Err (OutputTaken no_output_value), w)
              | (Some ou, w) \<Rightarrow> (Err (OutputTaken ou), w))
              else (Err (StoreSays e), w)
          | (Inr u, w) \<Rightarrow> (Ok ou, w))"

definition AddOutput ::
  "'w publication_store \<Rightarrow> formats \<Rightarrow> string \<Rightarrow> string \<Rightarrow> 'w \<Rightarrow> (service_error, profile_output) result \<times> 'w" where
  "AddOutput st fm i target w =
     asked (ProfileOf st i w) (\<lambda>p w. writable p w (\<lambda>w.
       case target_of fm target of
         None \<Rightarrow> (Err (InvalidRequest ''output request''), w)
       | Some (t, version) \<Rightarrow>
           (case existingOutput st (pf_id p) (td_id t) w of
              (Some ou, w) \<Rightarrow>
                if ou_id ou \<noteq> [] then (Err (OutputTaken ou), w)
                else at_time st w (\<lambda>now w. create_output 8 st (pf_id p) t version now w)
            | (None, w) \<Rightarrow> at_time st w (\<lambda>now w. create_output 8 st (pf_id p) t version now w))))"

definition OutputOf :: "'w publication_store \<Rightarrow> string \<Rightarrow> 'w \<Rightarrow> (store_error, profile_output) result \<times> 'w" where
  "OutputOf st i w = (if \<not> isHexID i then (Err NotFound, w) else ps_output st i w)"

definition OutputsOf :: "'w publication_store \<Rightarrow> string \<Rightarrow> 'w \<Rightarrow> (store_error, profile_output list) result \<times> 'w" where
  "OutputsOf st p w = (if \<not> isHexID p then (Err NotFound, w) else ps_outputs st p w)"

definition writableOutput :: "'w publication_store \<Rightarrow> string \<Rightarrow> 'w
   \<Rightarrow> (profile_output \<Rightarrow> 'w \<Rightarrow> (service_error, 'b) result \<times> 'w) \<Rightarrow> (service_error, 'b) result \<times> 'w" where
  "writableOutput st i w k =
     asked (OutputOf st i w) (\<lambda>ou w. asked (ProfileOf st (ou_profile ou) w) (\<lambda>p w. writable p w (\<lambda>w. k ou w)))"

definition SetOutputDevice ::
  "'w publication_store \<Rightarrow> string \<Rightarrow> device option \<Rightarrow> 'w \<Rightarrow> (service_error, profile_output) result \<times> 'w" where
  "SetOutputDevice st i dev w =
     writableOutput st i w (\<lambda>ou w.
       if (case dev of None \<Rightarrow> False | Some d \<Rightarrow> dv_id d = [] \<or> dv_target d \<noteq> ou_target ou)
       then (Err (InvalidRequest ''device is incompatible with output target''), w)
       else
         let d = (case dev of None \<Rightarrow> [] | Some d \<Rightarrow> dv_id d) in
         asked (ps_output_device st (ou_id ou) d w) (\<lambda>u w. (Ok (ou\<lparr>ou_device := d\<rparr>), w)))"

definition SetOutputFQDNPrefix ::
  "'w publication_store \<Rightarrow> string \<Rightarrow> string \<Rightarrow> 'w \<Rightarrow> (service_error, profile_output) result \<times> 'w" where
  "SetOutputFQDNPrefix st i p w =
     writableOutput st i w (\<lambda>ou w.
       if ou_target ou \<noteq> ''keenetic-dns'' \<or> \<not> is_ok (ValidateFQDNPrefix (ou_target ou) p) then (Err PrefixRefused, w)
       else case ps_output_prefix st of
         None \<Rightarrow> (Err PrefixRefused, w)
       | Some update \<Rightarrow> asked (update (ou_id ou) p w) (\<lambda>u w. (Ok (ou\<lparr>ou_prefix := p\<rparr>), w)))"

definition SetOutputKeepAddresses ::
  "'w publication_store \<Rightarrow> formats \<Rightarrow> string \<Rightarrow> bool \<Rightarrow> 'w \<Rightarrow> (service_error, profile_output) result \<times> 'w" where
  "SetOutputKeepAddresses st fm i keep w =
     writableOutput st i w (\<lambda>ou w.
       case map_of (fm_targets fm) (ou_target ou) of
         None \<Rightarrow> (Err TargetChanged, w)
       | Some t \<Rightarrow>
           if keep \<and> \<not> takes_names_and_addresses (td_constraints t) then (Err AddressesRefused, w)
           else (case ps_output_addresses st of
             None \<Rightarrow> (Err AddressesRefused, w)
           | Some update \<Rightarrow> asked (update (ou_id ou) keep w) (\<lambda>u w. (Ok (ou\<lparr>ou_keep := keep\<rparr>), w))))"

definition RemoveOutput :: "'w publication_store \<Rightarrow> string \<Rightarrow> 'w \<Rightarrow> (service_error, time) result \<times> 'w" where
  "RemoveOutput st i w =
     writableOutput st i w (\<lambda>ou w.
       at_time st w (\<lambda>now w. asked (ps_remove_output st (ou_id ou) now w) (\<lambda>u w. (Ok now, w))))"

section \<open>Links\<close>

definition issueSubscriptionToken ::
  "'w publication_store \<Rightarrow> 'w \<Rightarrow> (library_error, string \<times> string \<times> nat list) result \<times> 'w" where
  "issueSubscriptionToken st w =
     (case new_id st w of
        (Inl e, w) \<Rightarrow> (Err e, w)
      | (Inr i, w) \<Rightarrow>
          (case ps_random st 32 w of
             (Inl e, w) \<Rightarrow> (Err e, w)
           | (Inr secret, w) \<Rightarrow>
               let token = subscription_token i secret in (Ok (i, token, token_hash token), w)))"

fun issue_token ::
  "nat \<Rightarrow> 'w publication_store \<Rightarrow> (string \<Rightarrow> nat list \<Rightarrow> 'w \<Rightarrow> (store_error, unit) result \<times> 'w) \<Rightarrow> 'w
   \<Rightarrow> (service_error, string) result \<times> 'w" where
  "issue_token 0 st put w = (Err (StoreSays IdentityCollision), w)"
| "issue_token (Suc n) st put w =
     (case issueSubscriptionToken st w of
        (Inl e, w) \<Rightarrow> (Err (LibrarySays e), w)
      | (Inr (i, token, h), w) \<Rightarrow>
          (case put i h w of
             (Inl e, w) \<Rightarrow> if e = IdentityCollision then issue_token n st put w else (Err (StoreSays e), w)
           | (Inr u, w) \<Rightarrow> (Ok token, w)))"

definition IssueSubscription :: "'w publication_store \<Rightarrow> string \<Rightarrow> 'w \<Rightarrow> (service_error, string) result \<times> 'w" where
  "IssueSubscription st i w =
     writableOutput st i w (\<lambda>ou w.
       if ou_latest ou = [] then (Err ArtifactUnavailable, w)
       else at_time st w (\<lambda>now w. issue_token 8 st (\<lambda>t h. ps_subscribe st (ou_id ou) t h now) w))"

definition ReissueSubscription :: "'w publication_store \<Rightarrow> string \<Rightarrow> 'w \<Rightarrow> (service_error, string) result \<times> 'w" where
  "ReissueSubscription st i w =
     writableOutput st i w (\<lambda>ou w.
       at_time st w (\<lambda>now w. issue_token 8 st (\<lambda>t h. ps_reissue st (ou_id ou) t h now) w))"

definition verifiedArtifact ::
  "'w publication_store \<Rightarrow> formats \<Rightarrow> string \<Rightarrow> 'w \<Rightarrow> (service_error, artifact_payload) result \<times> 'w" where
  "verifiedArtifact st fm i w =
     asked (ps_artifact st i w) (\<lambda>a w.
       case map_of (fm_renderers fm) (ab_renderer a) of
         None \<Rightarrow> (Err ArtifactUnavailable, w)
       | Some (version, d) \<Rightarrow>
           if version \<noteq> ab_version a then (Err ArtifactUnavailable, w)
           else (case ps_read_file st a d w of
             (Inl e, w) \<Rightarrow> (Err ArtifactUnavailable, w)
           | (Inr bytes, w) \<Rightarrow>
               (Ok \<lparr>ap_artifact = a, ap_bytes = bytes, ap_fallback = False, ap_descriptor = d\<rparr>, w)))"

definition Snapshot :: "'w publication_store \<Rightarrow> string \<Rightarrow> 'w \<Rightarrow> (store_error, plan_snapshot) result \<times> 'w" where
  "Snapshot st i w = (if \<not> isHexID i then (Err NotFound, w) else ps_snapshot st i w)"

definition Artifact ::
  "'w publication_store \<Rightarrow> formats \<Rightarrow> string \<Rightarrow> 'w \<Rightarrow> (service_error, artifact_payload) result \<times> 'w" where
  "Artifact st fm i w = (if \<not> isHexID i then (Err (StoreSays NotFound), w) else verifiedArtifact st fm i w)"

text \<open>The previous file answers when the current one cannot be read.\<close>

definition previous_file ::
  "'w publication_store \<Rightarrow> formats \<Rightarrow> profile_output \<Rightarrow> 'w \<Rightarrow> (service_error, artifact_payload) result \<times> 'w" where
  "previous_file st fm ou w =
     (if ou_previous ou = [] then (Err ArtifactUnavailable, w)
      else case verifiedArtifact st fm (ou_previous ou) w of
        (Inl e, w) \<Rightarrow> (Err ArtifactUnavailable, w)
      | (Inr a, w) \<Rightarrow> (Ok (a\<lparr>ap_fallback := True\<rparr>), w))"

definition Subscription ::
  "'w publication_store \<Rightarrow> formats \<Rightarrow> string \<Rightarrow> 'w \<Rightarrow> (service_error, artifact_payload) result \<times> 'w" where
  "Subscription st fm token w =
     (case parseToken token of
        None \<Rightarrow> (Err (StoreSays NotFound), w)
      | Some (t, h) \<Rightarrow>
          asked (ps_by_token st t h w) (\<lambda>ou w.
            if ou_latest ou = [] then previous_file st fm ou w
            else (case verifiedArtifact st fm (ou_latest ou) w of
              (Inl e, w) \<Rightarrow> previous_file st fm ou w
            | (Inr a, w) \<Rightarrow> (Ok a, w))))"

section \<open>The service on the tables\<close>

definition on_env :: "('e \<Rightarrow> 'a \<times> 'e) \<Rightarrow> 'e pub_world \<Rightarrow> 'a \<times> 'e pub_world" where
  "on_env f w = (case f (snd w) of (a, e) \<Rightarrow> (a, (fst w, e)))"

definition sqlite_publications ::
  "'e sql_env \<Rightarrow> (artifact_build \<Rightarrow> renderer_descriptor \<Rightarrow> 'e \<Rightarrow> (string, string) result \<times> 'e)
   \<Rightarrow> 'e pub_world priority_repo option \<Rightarrow> 'e pub_world publication_store" where
  "sqlite_publications env read_file order = \<lparr>
     ps_now = on_env (se_now env), ps_random = (\<lambda>n. on_env (read_full env n)),
     ps_create_profile = CreateProfileRows env, ps_profile = ProfileRow env, ps_update_profile = UpdateProfileRows env,
     ps_set_archived = SetProfileArchived env, ps_delete_profile = DeleteProfileRows env,
     ps_create_output = CreateOutput env, ps_output_device = UpdateOutputDevice env,
     ps_output_prefix = Some (UpdateOutputFQDNPrefix env), ps_output_addresses = Some (UpdateOutputKeepAddresses env),
     ps_remove_output = RemoveOutputRows env, ps_output = OutputRow env, ps_outputs = OutputsByProfile env,
     ps_subscribe = CreateSubscription env, ps_reissue = ReissueSubscriptionRows env,
     ps_by_token = OutputBySubscription env, ps_snapshot = PlanSnapshotRow env, ps_artifact = ArtifactBuildRow env,
     ps_read_file = (\<lambda>a d. on_env (read_file a d)), ps_priority = order\<rparr>"

end
