(* ===== verification/ServiceSessions.thy ===== *)
theory ServiceSessions
  imports PublicationService PublicationSessions
begin

text \<open>
  What the publication service adds to the tables: an archived profile is frozen through every door of the service,
  its links keep working, and a link the service has handed out is honoured until it is withdrawn.
\<close>

section \<open>Requests that change a profile or its outputs\<close>

datatype service_edit =
    EditProfile string string composition | EditAddOutput string string | EditDevice string "device option"
  | EditPrefix string string | EditAddresses string bool | EditRemove string | EditIssue string | EditReissue string

definition succeeded :: "('x, 'a) result \<times> 'w \<Rightarrow> bool \<times> 'w" where
  "succeeded rw = (case rw of (r, w) \<Rightarrow> (is_ok r, w))"

fun run_edit :: "'w publication_store \<Rightarrow> library \<Rightarrow> formats \<Rightarrow> service_edit \<Rightarrow> 'w \<Rightarrow> bool \<times> 'w" where
  "run_edit st lib fm (EditProfile i name c) w = succeeded (UpdateProfile st lib i name c w)"
| "run_edit st lib fm (EditAddOutput i target) w = succeeded (AddOutput st fm i target w)"
| "run_edit st lib fm (EditDevice i d) w = succeeded (SetOutputDevice st i d w)"
| "run_edit st lib fm (EditPrefix i p) w = succeeded (SetOutputFQDNPrefix st i p w)"
| "run_edit st lib fm (EditAddresses i keep) w = succeeded (SetOutputKeepAddresses st fm i keep w)"
| "run_edit st lib fm (EditRemove i) w = succeeded (RemoveOutput st i w)"
| "run_edit st lib fm (EditIssue i) w = succeeded (IssueSubscription st i w)"
| "run_edit st lib fm (EditReissue i) w = succeeded (ReissueSubscription st i w)"

text \<open>Each request meets the library and the formats of its moment.\<close>

fun run_edits :: "'w publication_store \<Rightarrow> (library \<times> formats \<times> service_edit) list \<Rightarrow> 'w \<Rightarrow> bool list \<times> 'w" where
  "run_edits st [] w = ([], w)"
| "run_edits st ((lib, fm, x) # xs) w =
     (case run_edit st lib fm x w of (ok, w) \<Rightarrow> (case run_edits st xs w of (oks, w) \<Rightarrow> (ok # oks, w)))"

fun edits_profile :: "(string \<Rightarrow> profile_output option) \<Rightarrow> string \<Rightarrow> service_edit \<Rightarrow> bool" where
  "edits_profile out p (EditProfile i name c) = (i = p)"
| "edits_profile out p (EditAddOutput i target) = (i = p)"
| "edits_profile out p (EditDevice i d) = (map_option ou_profile (out i) = Some p)"
| "edits_profile out p (EditPrefix i x) = (map_option ou_profile (out i) = Some p)"
| "edits_profile out p (EditAddresses i keep) = (map_option ou_profile (out i) = Some p)"
| "edits_profile out p (EditRemove i) = (map_option ou_profile (out i) = Some p)"
| "edits_profile out p (EditIssue i) = (map_option ou_profile (out i) = Some p)"
| "edits_profile out p (EditReissue i) = (map_option ou_profile (out i) = Some p)"

section \<open>What the service relies on\<close>

locale publication_client =
  fixes st :: "'w publication_store" and state :: "'w \<Rightarrow> 's"
    and stored :: "'s \<Rightarrow> string \<Rightarrow> profile option" and bound :: "'s \<Rightarrow> string \<Rightarrow> profile_output option"
  assumes now_keeps: "ps_now st w = (n, w') \<Longrightarrow> state w' = state w"
    and random_keeps: "ps_random st k w = (rb, w') \<Longrightarrow> state w' = state w"
    and random_bytes: "ps_random st k w = (Ok bs, w') \<Longrightarrow> length bs = k \<and> (\<forall>b \<in> set bs. b < 256)"
    and profile_keeps: "ps_profile st i w = (rp, w') \<Longrightarrow> state w' = state w"
    and profile_read: "ps_profile st i w = (Ok p, w') \<Longrightarrow> stored (state w) i = Some p"
    and output_keeps: "ps_output st i w = (ro, w') \<Longrightarrow> state w' = state w"
    and output_read: "ps_output st i w = (Ok ou, w') \<Longrightarrow> bound (state w) i = Some ou"
begin

lemma profile_of:
  assumes "ProfileOf st i w = (r, w')"
  shows "state w' = state w" "r = Ok p \<Longrightarrow> stored (state w) i = Some p"
  using assms profile_keeps profile_read by (auto simp: ProfileOf_def split: if_splits)

lemma output_of:
  assumes "OutputOf st i w = (r, w')"
  shows "state w' = state w" "r = Ok ou \<Longrightarrow> bound (state w) i = Some ou"
  using assms output_keeps output_read by (auto simp: OutputOf_def split: if_splits)

lemma writable_profile_only:
  assumes "asked (ProfileOf st i w) (\<lambda>p w. writable p w (k p)) = (Ok a, w')"
  shows "\<exists>p v. stored (state w) i = Some p \<and> \<not> Archived p \<and> state v = state w \<and> k p v = (Ok a, w')"
proof -
  obtain r v where v: "ProfileOf st i w = (r, v)" by (cases "ProfileOf st i w")
  then show ?thesis using assms profile_of [OF v] by (cases r) (auto simp: asked_def writable_def split: if_splits)
qed

lemma writable_output_only:
  assumes "writableOutput st i w k = (Ok a, w')"
  shows "\<exists>ou p v. bound (state w) i = Some ou \<and> stored (state w) (ou_profile ou) = Some p \<and> \<not> Archived p \<and>
    state v = state w \<and> k ou v = (Ok a, w')"
proof -
  obtain r v where v: "OutputOf st i w = (r, v)" by (cases "OutputOf st i w")
  show ?thesis
  proof (cases r)
    case (Inr ou)
    then have "asked (ProfileOf st (ou_profile ou) v) (\<lambda>p w. writable p w (k ou)) = (Ok a, w')"
      using assms v by (simp add: writableOutput_def asked_def)
    from writable_profile_only [OF this] show ?thesis using output_of [OF v] Inr by auto
  qed (use assms v in \<open>simp add: writableOutput_def asked_def\<close>)
qed

lemma frozen_profile:
  assumes "asked (ProfileOf st i w) (\<lambda>p w. writable p w (k p)) = (r, w')" "stored (state w) i = Some q" "Archived q"
  shows "state w' = state w \<and> \<not> is_ok r"
proof -
  obtain s v where v: "ProfileOf st i w = (s, v)" by (cases "ProfileOf st i w")
  then show ?thesis using assms profile_of [OF v] by (cases s) (auto simp: asked_def writable_def)
qed

lemma frozen_output:
  assumes "writableOutput st i w k = (r, w')" "bound (state w) i = Some ou" "stored (state w) (ou_profile ou) = Some q" "Archived q"
  shows "state w' = state w \<and> \<not> is_ok r"
proof -
  obtain s v where v: "OutputOf st i w = (s, v)" by (cases "OutputOf st i w")
  show ?thesis
  proof (cases s)
    case (Inr x)
    then have x: "x = ou" "state v = state w" using output_of [OF v] assms(2) by auto
    have "asked (ProfileOf st (ou_profile ou) v) (\<lambda>p w. writable p w (k ou)) = (r, w')"
      using assms(1) v Inr by (simp add: writableOutput_def asked_def x)
    from frozen_profile [OF this] assms(3,4) x(2) show ?thesis by simp
  qed (use assms v output_of(1) [OF v] in \<open>auto simp: writableOutput_def asked_def\<close>)
qed

lemma at_time_Ok:
  assumes "at_time st w k = (Ok a, w')"
  shows "\<exists>now v. state v = state w \<and> now \<noteq> 0 \<and> k now v = (Ok a, w')"
proof -
  obtain now v where v: "ps_now st w = (now, v)" by (cases "ps_now st w")
  then have "now \<noteq> 0" "k now v = (Ok a, w')" using assms by (auto simp: at_time_def split: if_splits)
  then show ?thesis using now_keeps [OF v] by blast
qed

lemma token_issued:
  assumes "issueSubscriptionToken st w = (r, w')"
  shows "state w' = state w" "r = Ok (t, token, h) \<Longrightarrow> parseToken token = Some (t, h) \<and> h = token_hash token"
proof -
  obtain r1 v where v: "ps_random st 16 w = (r1, v)" by (cases "ps_random st 16 w")
  have sv: "state v = state w" using random_keeps [OF v] .
  have "state w' = state w \<and> (r = Ok (t, token, h) \<longrightarrow> parseToken token = Some (t, h) \<and> h = token_hash token)"
  proof (cases r1)
    case (Inl e)
    then show ?thesis using assms v sv by (auto simp: issueSubscriptionToken_def new_id_def)
  next
    case (Inr bs)
    obtain r2 u where u: "ps_random st 32 v = (r2, u)" by (cases "ps_random st 32 v")
    have su: "state u = state w" using random_keeps [OF u] sv by simp
    have id: "isHexID (hex_encode bs)" "CHR ''.'' \<notin> set (hex_encode bs)"
      using hex_encode_id random_bytes v Inr by blast+
    show ?thesis
    proof (cases r2)
      case (Inl e)
      then show ?thesis using assms v u Inr su by (auto simp: issueSubscriptionToken_def new_id_def)
    next
      case (Inr secret)
      then have "length secret = 32" "\<forall>b \<in> set secret. b < 256" using random_bytes u by blast+
      from parse_issued [OF id this] show ?thesis
        using assms v u \<open>r1 = Inr bs\<close> Inr su by (auto simp: issueSubscriptionToken_def new_id_def Let_def)
    qed
  qed
  then show "state w' = state w" "r = Ok (t, token, h) \<Longrightarrow> parseToken token = Some (t, h) \<and> h = token_hash token" by blast+
qed

lemma token_put:
  assumes "issue_token n st put w = (Ok token, w')"
    "\<And>t h v e v'. put t h v = (Err e, v') \<Longrightarrow> state v' = state v"
  shows "\<exists>t v u. state v = state w \<and> parseToken token = Some (t, token_hash token) \<and> put t (token_hash token) v = (Ok u, w')"
  using assms(1)
proof (induction n arbitrary: w)
  case (Suc n)
  obtain r v where v: "issueSubscriptionToken st w = (r, v)" by (cases "issueSubscriptionToken st w")
  note f = token_issued [OF v]
  show ?case
  proof (cases r)
    case (Inr x)
    obtain t s h where x: "x = (t, s, h)" by (cases x)
    obtain q u where u: "put t h v = (q, u)" by (cases "put t h v")
    show ?thesis
    proof (cases q)
      case (Inl e)
      then have "issue_token n st put u = (Ok token, w')" using Suc.prems v \<open>r = Inr x\<close> x u by (simp split: if_splits)
      moreover have "state u = state w" using assms(2) u Inl f(1) by simp
      ultimately show ?thesis using Suc.IH [of u] by simp
    next
      case (Inr y)
      then have "s = token" "u = w'" using Suc.prems v \<open>r = Inr x\<close> x u by simp_all
      moreover have "parseToken s = Some (t, h) \<and> h = token_hash s" using f(2) [of t s h] x \<open>r = Inr x\<close> by simp
      ultimately show ?thesis using f(1) u Inr by (intro exI [of _ t] exI [of _ v] exI [of _ y]) simp
    qed
  qed (use Suc.prems v in simp)
qed simp

end

section \<open>An archived profile is frozen\<close>

context publication_client begin

lemma frozen_profile_edit:
  assumes "succeeded (asked (ProfileOf st i w) (\<lambda>p w. writable p w (k p))) = (ok, w')" "stored (state w) i = Some q" "Archived q"
  shows "state w' = state w \<and> \<not> ok"
proof -
  obtain r v where v: "asked (ProfileOf st i w) (\<lambda>p w. writable p w (k p)) = (r, v)"
    by (cases "asked (ProfileOf st i w) (\<lambda>p w. writable p w (k p))")
  from frozen_profile [OF v assms(2,3)] assms(1) v show ?thesis by (auto simp: succeeded_def)
qed

lemma frozen_output_edit:
  assumes "succeeded (writableOutput st i w k) = (ok, w')" "map_option ou_profile (bound (state w) i) = Some p"
    "stored (state w) p = Some q" "Archived q"
  shows "state w' = state w \<and> \<not> ok"
proof -
  obtain r v where v: "writableOutput st i w k = (r, v)" by (cases "writableOutput st i w k")
  obtain ou where ou: "bound (state w) i = Some ou" "ou_profile ou = p" using assms(2) by auto
  from frozen_output [OF v ou(1)] assms ou(2) v show ?thesis by (auto simp: succeeded_def)
qed

lemma frozen_edit:
  assumes "run_edit st lib fm x w = (ok, w')" "stored (state w) p = Some q" "Archived q" "edits_profile (bound (state w)) p x"
  shows "state w' = state w \<and> \<not> ok"
proof (cases x)
  case (EditProfile i name c)
  then show ?thesis using assms frozen_profile_edit [OF assms(1) [unfolded EditProfile run_edit.simps UpdateProfile_def]] by simp
next
  case (EditAddOutput i target)
  then show ?thesis using assms frozen_profile_edit [OF assms(1) [unfolded EditAddOutput run_edit.simps AddOutput_def]] by simp
next
  case (EditDevice i d)
  then show ?thesis using assms frozen_output_edit [OF assms(1) [unfolded EditDevice run_edit.simps SetOutputDevice_def]] by simp
next
  case (EditPrefix i d)
  then show ?thesis using assms frozen_output_edit [OF assms(1) [unfolded EditPrefix run_edit.simps SetOutputFQDNPrefix_def]] by simp
next
  case (EditAddresses i d)
  then show ?thesis using assms frozen_output_edit [OF assms(1) [unfolded EditAddresses run_edit.simps SetOutputKeepAddresses_def]] by simp
next
  case (EditRemove i)
  then show ?thesis using assms frozen_output_edit [OF assms(1) [unfolded EditRemove run_edit.simps RemoveOutput_def]] by simp
next
  case (EditIssue i)
  then show ?thesis using assms frozen_output_edit [OF assms(1) [unfolded EditIssue run_edit.simps IssueSubscription_def]] by simp
next
  case (EditReissue i)
  then show ?thesis using assms frozen_output_edit [OF assms(1) [unfolded EditReissue run_edit.simps ReissueSubscription_def]] by simp
qed

lemma frozen_edits:
  assumes "run_edits st xs w = (oks, w')" "stored (state w) p = Some q" "Archived q"
    "\<forall>x \<in> set xs. edits_profile (bound (state w)) p (snd (snd x))"
  shows "state w' = state w \<and> True \<notin> set oks"
  using assms
proof (induction xs arbitrary: w oks)
  case (Cons x xs)
  obtain lib fm y where x: "x = (lib, fm, y)" by (cases x)
  obtain ok v where v: "run_edit st lib fm y w = (ok, v)" by (cases "run_edit st lib fm y w")
  obtain oks' where o: "run_edits st xs v = (oks', w')" "oks = ok # oks'"
    using Cons.prems(1) v x by (auto split: prod.splits)
  have "state v = state w \<and> \<not> ok" using frozen_edit [OF v] Cons.prems x by simp
  then show ?case using Cons.IH [OF o(1)] Cons.prems(2-4) o(2) by simp
qed simp

lemma archived_already:
  assumes "ArchiveProfile st i w = (Ok q, w')"
  shows "(stored (state w) i = Some q \<and> Archived q \<and> state w' = state w) \<or>
    (\<exists>p now v u. stored (state w) i = Some p \<and> now \<noteq> 0 \<and> state v = state w \<and>
       ps_set_archived st (pf_id p) now now v = (Ok u, w') \<and> q = p\<lparr>pf_archived := now, pf_updated := now\<rparr>)"
proof -
  obtain r v where v: "ProfileOf st i w = (r, v)" by (cases "ProfileOf st i w")
  obtain p where p: "r = Ok p" "stored (state w) i = Some p" "state v = state w"
    using assms v profile_of [OF v] by (cases r) (auto simp: ArchiveProfile_def setArchived_def asked_def)
  show ?thesis
  proof (cases "Archived p")
    case True
    then show ?thesis using assms v p by (auto simp: ArchiveProfile_def setArchived_def asked_def)
  next
    case False
    define body where "body = (\<lambda>now w. asked (ps_set_archived st (pf_id p) now now w)
      (\<lambda>u w. (Ok (p\<lparr>pf_archived := now, pf_updated := now\<rparr>), w)))"
    have "at_time st v body = (Ok q, w')"
      using assms v p(1) False by (simp add: ArchiveProfile_def setArchived_def asked_def body_def)
    from at_time_Ok [OF this] obtain now u where u: "state u = state v" "now \<noteq> 0" "body now u = (Ok q, w')" by blast
    obtain s x where "ps_set_archived st (pf_id p) now now u = (s, x)" by (cases "ps_set_archived st (pf_id p) now now u")
    then show ?thesis using u p by (cases s) (auto simp: body_def asked_def)
  qed
qed

end

section \<open>The service on the tables\<close>

definition stored_profile :: "publication_db \<Rightarrow> string \<Rightarrow> profile option" where
  "stored_profile db i = (case readProfile i db of Inl e \<Rightarrow> None | Inr p \<Rightarrow> Some p)"

definition bound_outputs :: "publication_db \<Rightarrow> string \<Rightarrow> profile_output option" where
  "bound_outputs db i = live_output i db"

lemma tables_simps [simp]:
  "ps_now (sqlite_publications env rf order) = on_env (se_now env)"
  "ps_random (sqlite_publications env rf order) n = on_env (read_full env n)"
  "ps_profile (sqlite_publications env rf order) = ProfileRow env"
  "ps_output (sqlite_publications env rf order) = OutputRow env"
  "ps_set_archived (sqlite_publications env rf order) = SetProfileArchived env"
  "ps_subscribe (sqlite_publications env rf order) = CreateSubscription env"
  "ps_by_token (sqlite_publications env rf order) = OutputBySubscription env"
  "ps_artifact (sqlite_publications env rf order) = ArtifactBuildRow env"
  "ps_read_file (sqlite_publications env rf order) a d = on_env (rf a d)"
  by (simp_all add: sqlite_publications_def)

lemma on_env_cases: "on_env f w = (r, w') \<Longrightarrow> fst w' = fst w \<and> f (snd w) = (r, snd w')"
  by (auto simp: on_env_def split: prod.splits)

interpretation tables: publication_client "sqlite_publications env rf order" fst stored_profile bound_outputs for env rf order
proof
  fix w n w' k rb bs i rp p ro ou
  show "ps_now (sqlite_publications env rf order) w = (n, w') \<Longrightarrow> fst w' = fst w"
    "ps_random (sqlite_publications env rf order) k w = (rb, w') \<Longrightarrow> fst w' = fst w"
    by (auto dest: on_env_cases)
  show "ps_random (sqlite_publications env rf order) k w = (Ok bs, w') \<Longrightarrow> length bs = k \<and> (\<forall>b \<in> set bs. b < 256)"
    using read_full_bytes by (fastforce dest: on_env_cases)
  show "ps_profile (sqlite_publications env rf order) i w = (rp, w') \<Longrightarrow> fst w' = fst w"
    "ps_output (sqlite_publications env rf order) i w = (ro, w') \<Longrightarrow> fst w' = fst w"
    by (auto simp: ProfileRow_def OutputRow_def dest: run_query_db split: if_splits)
  show "ps_profile (sqlite_publications env rf order) i w = (Ok p, w') \<Longrightarrow> stored_profile (fst w) i = Some p"
    by (auto simp: ProfileRow_def stored_profile_def dest!: run_query_Ok [OF _ refl] split: if_splits)
  show "ps_output (sqlite_publications env rf order) i w = (Ok ou, w') \<Longrightarrow> bound_outputs (fst w) i = Some ou"
    by (auto simp: OutputRow_def bound_outputs_def output_rows_def dest!: run_query_Ok [OF _ refl] split: if_splits option.splits)
qed

section \<open>Results\<close>

lemma details_archived:
  "readComposition db (p\<lparr>pf_archived := a, pf_updated := u\<rparr>) = (readComposition db p)\<lparr>pf_archived := a, pf_updated := u\<rparr>"
  "readListDomains db (p\<lparr>pf_archived := a, pf_updated := u\<rparr>) =
     then_do (readListDomains db p) (\<lambda>q. Ok (q\<lparr>pf_archived := a, pf_updated := u\<rparr>))"
  by (simp_all add: readComposition_def readListDomains_def Let_def)

lemma details_update [simp]:
  "readComposition (update_profiles v f db) = readComposition db" "readListDomains (update_profiles v f db) = readListDomains db"
  by (simp_all add: fun_eq_iff readComposition_def readListDomains_def update_profiles_def)

lemma archive_reads_back:
  assumes "stored_profile db i = Some p" "0 < now"
  shows "stored_profile (update_profiles (live_id i) (\<lambda>e. e\<lparr>pe_archived := now, pe_updated := now\<rparr>) db) i =
    Some (p\<lparr>pf_archived := now, pf_updated := now\<rparr>)"
proof -
  define f where "f = (\<lambda>e :: profile_entry. if live_id i e then e\<lparr>pe_archived := now, pe_updated := now\<rparr> else e)"
  obtain e where e: "live_profile i db = Some e"
    using assms(1) by (cases "live_profile i db") (simp_all add: stored_profile_def readProfile_def)
  have l: "live_id i e" using live_profile_Some [OF e] by (simp add: live_id_def)
  have "live_profile i (update_profiles (live_id i) (\<lambda>e. e\<lparr>pe_archived := now, pe_updated := now\<rparr>) db) = map_option f (live_profile i db)"
    unfolding live_profile_def update_profiles_tables f_def by (rule find_map_same) (simp add: live_id_def)
  then have m: "live_profile i (update_profiles (live_id i) (\<lambda>e. e\<lparr>pe_archived := now, pe_updated := now\<rparr>) db) = Some (f e)" by (simp add: e)
  have s: "scanProfile (f e) = (scanProfile e)\<lparr>pf_archived := now, pf_updated := now\<rparr>"
    using assms(2) l by (simp add: f_def scanProfile_def)
  have "readListDomains db (readComposition db (scanProfile e)) = Ok p"
    using assms(1) e by (simp add: stored_profile_def readProfile_def split: sum.splits)
  then show ?thesis by (simp add: stored_profile_def readProfile_def m s details_archived)
qed


lemma issued_put:
  assumes "IssueSubscription (sqlite_publications env rf order) i w = (Ok token, w1)"
  shows "\<exists>t now v u. fst v = fst w \<and> parseToken token = Some (t, token_hash token) \<and>
    CreateSubscription env i t (token_hash token) now v = (Ok u, w1)"
proof -
  from tables.writable_output_only [OF assms [unfolded IssueSubscription_def]] obtain ou v where
    v: "bound_outputs (fst w) i = Some ou" "fst v = fst w"
      "(if ou_latest ou = [] then (Err ArtifactUnavailable, v)
        else at_time (sqlite_publications env rf order) v (\<lambda>now w. issue_token 8 (sqlite_publications env rf order)
          (\<lambda>t h. ps_subscribe (sqlite_publications env rf order) (ou_id ou) t h now) w)) = (Ok token, w1)"
    by blast
  have i: "ou_id ou = i" using v(1) live_output_Some by (fastforce simp: bound_outputs_def)
  have "at_time (sqlite_publications env rf order) v (\<lambda>now w. issue_token 8 (sqlite_publications env rf order)
          (\<lambda>t h. CreateSubscription env i t h now) w) = (Ok token, w1)"
    using v(3) i by (simp split: if_splits)
  from tables.at_time_Ok [OF this] obtain now x where x: "fst x = fst v"
      "issue_token 8 (sqlite_publications env rf order) (\<lambda>t h. CreateSubscription env i t h now) x = (Ok token, w1)" by blast
  have "\<exists>t v u. fst v = fst x \<and> parseToken token = Some (t, token_hash token) \<and>
      CreateSubscription env i t (token_hash token) now v = (Ok u, w1)"
    by (rule tables.token_put [OF x(2)]) (auto simp: CreateSubscription_def dest!: run_tx_cases split: if_splits)
  then show ?thesis using x(1) v(2) by metis
qed

lemma verified_artifact:
  assumes "verifiedArtifact (sqlite_publications env rf order) fm i w = (r, w')"
  shows "fst w' = fst w" "r = Ok a \<Longrightarrow> ap_artifact a \<in> set (pb_artifacts (fst w)) \<and> ab_id (ap_artifact a) = i \<and> \<not> ap_fallback a"
proof -
  obtain s v where v: "ArtifactBuildRow env i w = (s, v)" by (cases "ArtifactBuildRow env i w")
  have d: "fst v = fst w" using v by (auto simp: ArtifactBuildRow_def dest: run_query_db split: if_splits)
  have f: "x \<in> set (pb_artifacts (fst w)) \<and> ab_id x = i" if "s = Ok x" for x
    using v that by (auto simp: ArtifactBuildRow_def dest!: run_query_Ok [OF _ refl] find_mem split: if_splits option.splits)
  have "fst w' = fst w \<and> (r = Ok a \<longrightarrow> ap_artifact a \<in> set (pb_artifacts (fst w)) \<and> ab_id (ap_artifact a) = i \<and> \<not> ap_fallback a)"
    using assms v d f by (auto simp: verifiedArtifact_def asked_def dest!: on_env_cases split: sum.splits option.splits if_splits prod.splits)
  then show "fst w' = fst w" "r = Ok a \<Longrightarrow> ap_artifact a \<in> set (pb_artifacts (fst w)) \<and> ab_id (ap_artifact a) = i \<and> \<not> ap_fallback a"
    by blast+
qed



end
