(* ===== verification/ServiceDemo.thy ===== *)
theory ServiceDemo
  imports ServiceSessions PublicationDemo
begin

text \<open>
  The service on the tables of \<open>PublicationDemo\<close>: the profile is archived and stays as it is, a link is issued for
  its published format and answers.
\<close>

definition demo_files :: "artifact_build \<Rightarrow> renderer_descriptor \<Rightarrow> unit \<Rightarrow> (string, string) result \<times> unit" where
  "demo_files a d e = (Ok ''f'', e)"

definition demo_formats :: formats where
  "demo_formats = \<lparr>fm_targets = [], fm_renderers = []\<rparr>"

definition demo_service :: "unit pub_world publication_store" where
  "demo_service = sqlite_publications demo_env demo_files None"

lemma demo_hex: "isHexID (demo_id (CHR ''0''))" "isHexID (demo_id (CHR ''1''))"
  using demo_ids by (simp_all add: isHexID_def validID_def)

lemma demo_parts: "ps_set_archived demo_service = SetProfileArchived demo_env" "ps_subscribe demo_service = CreateSubscription demo_env"
  by (simp_all add: demo_service_def)

lemma demo_time: "at_time demo_service (db, ()) k = k 1 (db, ())"
  by (simp add: at_time_def demo_service_def on_env_def demo_env_def)

definition demo_archived :: publication_db where
  "demo_archived = demo_db2\<lparr>pb_profiles := [demo_entry\<lparr>pe_archived := 1, pe_updated := 1\<rparr>]\<rparr>"

lemma demo_archive: "ArchiveProfile demo_service (demo_id (CHR ''0'')) (demo_db2, ()) =
    (Ok (demo_profile\<lparr>pf_archived := 1, pf_updated := 1\<rparr>), (demo_archived, ()))"
proof -
  have "ProfileOf demo_service (demo_id (CHR ''0'')) (demo_db2, ()) = (Ok demo_profile, (demo_db2, ()))"
    using demo_hex demo_ids by (simp add: ProfileOf_def demo_service_def ProfileRow_def demo_reads demo_read)
  moreover have "SetProfileArchived demo_env (demo_id (CHR ''0'')) 1 1 (demo_db2, ()) = (Ok (), (demo_archived, ()))"
    using demo_ids by (simp add: SetProfileArchived_def demo_runs one_profile_def live_id_def update_profiles_def demo_archived_def
      demo_db2_def demo_db1_def demo_entry_def)
  moreover have "\<not> Archived demo_profile" "pf_id demo_profile = demo_id (CHR ''0'')" by (simp_all add: Archived_def demo_profile_def)
  ultimately show ?thesis by (simp add: ArchiveProfile_def setArchived_def asked_def demo_time demo_parts)
qed


lemma demo_random: "ps_random demo_service n (db, ()) = (Ok (replicate n 0), (db, ()))"
proof -
  have "read_full demo_env n () = (Ok (replicate n 0), ())" by (induction n) (simp_all add: demo_env_def)
  then show ?thesis by (simp add: demo_service_def on_env_def)
qed

definition demo_token :: string where
  "demo_token = subscription_token (hex_encode (replicate 16 0)) (replicate 32 0)"

definition demo_linked :: publication_db where
  "demo_linked = add_token (demo_id (CHR ''1'')) (hex_encode (replicate 16 0)) (token_hash demo_token) 1 demo_db3"

lemma demo_issue: "IssueSubscription demo_service (demo_id (CHR ''1'')) (demo_db3, ()) = (Ok demo_token, (demo_linked, ()))"
proof -
  have "readListDomains demo_db3 = readListDomains demo_db2" "readComposition demo_db3 = readComposition demo_db2"
      "pb_profiles demo_db3 = pb_profiles demo_db2"
    by (simp_all add: fun_eq_iff readListDomains_def readComposition_def demo_db3_def)
  then have "readProfile (demo_id (CHR ''0'')) demo_db3 = readProfile (demo_id (CHR ''0'')) demo_db2"
    by (simp add: readProfile_def live_profile_def cong: option.case_cong)
  then have p: "ProfileOf demo_service (demo_id (CHR ''0'')) (demo_db3, ()) = (Ok demo_profile, (demo_db3, ()))"
    using demo_hex demo_ids by (simp add: ProfileOf_def demo_service_def ProfileRow_def demo_reads demo_read)
  have o: "OutputOf demo_service (demo_id (CHR ''1'')) (demo_db3, ()) = (Ok demo_current, (demo_db3, ()))"
    using demo_hex demo_ids by (simp add: OutputOf_def demo_service_def OutputRow_def demo_reads output_rows_def live_output_def demo_tables
      demo_current_def demo_output_def)
  have c: "\<not> Archived demo_profile" "ou_profile demo_current = demo_id (CHR ''0'')" "ou_latest demo_current \<noteq> []" "ou_id demo_current = demo_id (CHR ''1'')"
    by (simp_all add: Archived_def demo_profile_def demo_current_def demo_output_def)
  have v: "validID (hex_encode (replicate 16 0))" by code_simp
  have "CreateSubscription demo_env (demo_id (CHR ''1'')) (hex_encode (replicate 16 0)) h 1 (demo_db3, ()) =
      (Ok (), (add_token (demo_id (CHR ''1'')) (hex_encode (replicate 16 0)) h 1 demo_db3, ()))" for h
    using demo_ids v demo_writable [OF demo_tables(1,2)]
    by (simp add: CreateSubscription_def demo_runs create_subscription_rows_def activeSubscriptions_def active_tokens_def demo_tables)
  moreover have "issueSubscriptionToken demo_service (demo_db3, ()) =
      (Ok (hex_encode (replicate 16 0), demo_token, token_hash demo_token), (demo_db3, ()))"
    unfolding issueSubscriptionToken_def new_id_def demo_random prod.case sum.case demo_token_def Let_def by simp
  ultimately have "issue_token 8 demo_service (\<lambda>t h. CreateSubscription demo_env (demo_id (CHR ''1'')) t h 1) (demo_db3, ()) =
      (Ok demo_token, (demo_linked, ()))"
    by (simp add: eval_nat_numeral demo_linked_def)
  then show ?thesis
    by (simp add: IssueSubscription_def writableOutput_def asked_def writable_def o p c demo_time demo_parts)
qed


end
